(* ===== verification/OrderedStore.thy ===== *)
theory OrderedStore
  imports Prelude
begin

text \<open>
  The contents of a RocksDB column family and of a \<open>BTreeMap\<close>: a list of entries in
  strictly increasing key order. The locale \<open>ordered_store\<close> is the contract the program
  relies on (a read sees the last write, iteration is in key order); it is proved for the
  list representation at the end of the section, and everything the components use of
  batches and of prefix scans is proved from the contract. Two further locales carry the
  usual induction over runs: invariants of a step function, and simulation of an abstract
  step function.
\<close>

section \<open>Representation and operations\<close>

type_synonym ('k, 'v) cf = "('k \<times> 'v) list"

definition cf_get :: "('k, 'v) cf \<Rightarrow> 'k \<Rightarrow> 'v option" where
  "cf_get m k = map_of m k"

fun cf_put :: "('k::linorder, 'v) cf \<Rightarrow> 'k \<Rightarrow> 'v \<Rightarrow> ('k, 'v) cf" where
  "cf_put [] k v = [(k, v)]"
| "cf_put ((k', v') # m) k v =
     (if k < k' then (k, v) # (k', v') # m
      else if k = k' then (k, v) # m
      else (k', v') # cf_put m k v)"

definition cf_del :: "('k, 'v) cf \<Rightarrow> 'k \<Rightarrow> ('k, 'v) cf" where
  "cf_del m k = filter (\<lambda>(k', _). k' \<noteq> k) m"

definition cf_ok :: "('k::linorder, 'v) cf \<Rightarrow> bool" where
  "cf_ok m \<longleftrightarrow> sorted_wrt (<) (map fst m)"

text \<open>A write batch: \<open>Some v\<close> stores, \<open>None\<close> deletes; later writes win.\<close>

type_synonym ('k, 'v) kv_write = "'k \<times> 'v option"

definition cf_write :: "('k::linorder, 'v) cf \<Rightarrow> ('k, 'v) kv_write \<Rightarrow> ('k, 'v) cf" where
  "cf_write m w = (case w of (k, Some v) \<Rightarrow> cf_put m k v | (k, None) \<Rightarrow> cf_del m k)"

definition cf_batch :: "('k::linorder, 'v) cf \<Rightarrow> ('k, 'v) kv_write list \<Rightarrow> ('k, 'v) cf" where
  "cf_batch m ws = foldl cf_write m ws"

text \<open>What a batch does to one key: the last write to it, if there is one.\<close>

fun last_write :: "('k, 'v) kv_write list \<Rightarrow> 'k \<Rightarrow> 'v option option" where
  "last_write [] k = None"
| "last_write ((k', w) # ws) k =
     (case last_write ws k of Some r \<Rightarrow> Some r | None \<Rightarrow> if k' = k then Some w else None)"

section \<open>The contract\<close>

locale ordered_store =
  fixes get :: "'m \<Rightarrow> 'k::linorder \<Rightarrow> 'v option"
    and put :: "'m \<Rightarrow> 'k \<Rightarrow> 'v \<Rightarrow> 'm"
    and del :: "'m \<Rightarrow> 'k \<Rightarrow> 'm"
    and entries :: "'m \<Rightarrow> ('k \<times> 'v) list"
    and ok :: "'m \<Rightarrow> bool"
  assumes get_put: "get (put m k v) = (get m)(k \<mapsto> v)"
    and get_del: "get (del m k) = (get m)(k := None)"
    and ok_put: "ok m \<Longrightarrow> ok (put m k v)"
    and ok_del: "ok m \<Longrightarrow> ok (del m k)"
    and entries_sorted: "ok m \<Longrightarrow> sorted_wrt (<) (map fst (entries m))"
    and entries_iff: "ok m \<Longrightarrow> (k, v) \<in> set (entries m) \<longleftrightarrow> get m k = Some v"
begin

lemma get_put_same [simp]: "get (put m k v) k = Some v"
  by (simp add: get_put)

lemma get_del_same [simp]: "get (del m k) k = None"
  by (simp add: get_del)

lemma entries_distinct: "ok m \<Longrightarrow> distinct (map fst (entries m))"
  using entries_sorted strict_sorted_iff by blast

lemma entries_ext:
  assumes "ok m" "ok n" "get m = get n"
  shows "entries m = entries n"
proof -
  have mem: "set (entries m) = set (entries n)"
    using assms entries_iff by auto
  have inj: "inj_on fst (set (entries m) \<union> set (entries n))"
    using entries_distinct[OF assms(1)] mem by (simp add: distinct_map)
  show ?thesis
    using map_sorted_distinct_set_unique[OF inj] entries_sorted[OF assms(1)]
      entries_sorted[OF assms(2)] mem by (simp add: strict_sorted_iff)
qed

lemma mem_entries_from:
  "ok m \<Longrightarrow> (k, v) \<in> set (filter (\<lambda>(k, _). P k) (entries m)) \<longleftrightarrow> get m k = Some v \<and> P k"
  by (auto simp: entries_iff)

end

text \<open>A scan of a sorted list from a lower bound while a predicate holds.\<close>

definition scan_while :: "'k::linorder \<Rightarrow> ('k \<Rightarrow> bool) \<Rightarrow> ('k \<times> 'v) list \<Rightarrow> ('k \<times> 'v) list" where
  "scan_while lo p es = takeWhile (\<lambda>(k, _). p k) (dropWhile (\<lambda>(k, _). k < lo) es)"

lemma scan_while_filter:
  assumes "sorted_wrt (<) (map fst es)"
    and above: "\<And>k. p k \<Longrightarrow> lo \<le> k"
    and convex: "\<And>k k'. lo \<le> k \<Longrightarrow> k < k' \<Longrightarrow> p k' \<Longrightarrow> p k"
  shows "scan_while lo p es = filter (\<lambda>(k, _). p k) es"
  using assms(1)
proof (induction es)
  case Nil
  then show ?case by (simp add: scan_while_def)
next
  case (Cons e es)
  obtain k v where e: "e = (k, v)" by fastforce
  from Cons.prems have sorted: "sorted_wrt (<) (map fst es)" by simp
  from Cons.prems have gt: "\<And>x. x \<in> set es \<Longrightarrow> k < fst x" by (auto simp: e)
  show ?case
  proof (cases "k < lo")
    case True
    then have "\<not> p k" using above by (metis leD)
    with True Cons.IH[OF sorted] show ?thesis by (simp add: scan_while_def e)
  next
    case False
    then have all_ge: "\<And>x. x \<in> set es \<Longrightarrow> \<not> fst x < lo" using gt by fastforce
    then have dw: "dropWhile (\<lambda>(k, _). k < lo) es = es"
      by (cases es) (auto simp: split_beta)
    show ?thesis
    proof (cases "p k")
      case True
      with False Cons.IH[OF sorted] show ?thesis by (simp add: scan_while_def e dw)
    next
      case np: False
      then have "\<And>x. x \<in> set es \<Longrightarrow> \<not> p (fst x)"
        using False gt convex by (metis linorder_not_less)
      then have "filter (\<lambda>(k, _). p k) es = []" by (auto simp: filter_empty_conv)
      with False np show ?thesis by (simp add: scan_while_def e)
    qed
  qed
qed

text \<open>\<open>KvData::entries_with_prefix\<close>: iterate from the prefix, stop at the first key without it.\<close>

definition entries_with_prefix :: "(string, 'v) cf \<Rightarrow> string \<Rightarrow> (string \<times> 'v) list" where
  "entries_with_prefix m p = scan_while p (\<lambda>k. starts_with k p) m"

lemma prefix_le: "starts_with k p \<Longrightarrow> p \<le> (k :: 'a::linorder list)"
proof (induction p arbitrary: k)
  case (Cons c p)
  then obtain k' where "k = c # k'" "starts_with k' p" by (auto simp: starts_with_iff)
  with Cons.IH show ?case by simp
qed simp

lemma prefix_convex:
  "p \<le> k \<Longrightarrow> k < k' \<Longrightarrow> starts_with k' p \<Longrightarrow> starts_with (k :: 'a::linorder list) p"
proof (induction p arbitrary: k k')
  case Nil
  then show ?case by (simp add: starts_with_def)
next
  case (Cons c p)
  then obtain k2 where k': "k' = c # k2" "starts_with k2 p" by (auto simp: starts_with_iff)
  from Cons.prems obtain d k1 where k: "k = d # k1" by (cases k) auto
  have "d = c" using Cons.prems k k' by auto
  then have "p \<le> k1" "k1 < k2" using Cons.prems k k' by auto
  then have "starts_with k1 p" using Cons.IH k' by blast
  then show ?case using k \<open>d = c\<close> by (simp add: starts_with_def)
qed

section \<open>The list representation meets the contract\<close>

lemma cf_get_put: "cf_get (cf_put m k v) = (cf_get m)(k \<mapsto> v)"
  by (induction m k v rule: cf_put.induct) (auto simp: cf_get_def)

lemma cf_get_del: "cf_get (cf_del m k) = (cf_get m)(k := None)"
  by (induction m) (auto simp: cf_get_def cf_del_def)

lemma cf_put_keys: "set (map fst (cf_put m k v)) = insert k (set (map fst m))"
  by (induction m k v rule: cf_put.induct) auto

lemma cf_ok_put: "cf_ok m \<Longrightarrow> cf_ok (cf_put m k v)"
proof (induction m k v rule: cf_put.induct)
  case (2 k' v' m k v)
  then have "cf_ok m" and gt: "\<And>x. x \<in> set (map fst m) \<Longrightarrow> k' < x" by (auto simp: cf_ok_def)
  with 2 have "k' < k \<Longrightarrow> cf_ok (cf_put m k v)" by auto
  moreover have "k' < k \<Longrightarrow> \<forall>x \<in> set (map fst (cf_put m k v)). k' < x"
    using gt cf_put_keys[of m k v] by auto
  ultimately show ?case using \<open>cf_ok ((k', v') # m)\<close> gt
    by (auto simp: cf_ok_def) (metis fst_conv imageI less_trans)
qed (simp add: cf_ok_def)

lemma cf_ok_del: "cf_ok m \<Longrightarrow> cf_ok (cf_del m k)"
  by (induction m) (auto simp: cf_ok_def cf_del_def)

lemma cf_entries_iff: "cf_ok m \<Longrightarrow> (k, v) \<in> set m \<longleftrightarrow> cf_get m k = Some v"
  unfolding cf_ok_def cf_get_def strict_sorted_iff by simp

interpretation cf: ordered_store cf_get cf_put cf_del "\<lambda>m. m" cf_ok
  by unfold_locales (simp_all add: cf_get_put cf_get_del cf_ok_put cf_ok_del cf_entries_iff, simp add: cf_ok_def)

lemma cf_ok_Nil [simp]: "cf_ok []"
  by (simp add: cf_ok_def)

lemma cf_get_Nil [simp]: "cf_get [] = Map.empty"
  by (simp add: cf_get_def fun_eq_iff)

text \<open>Batches.\<close>

lemma cf_get_write: "cf_get (cf_write m (k, w)) = (cf_get m)(k := w)"
  by (cases w) (simp_all add: cf_write_def cf_get_put cf_get_del)

lemma cf_ok_write: "cf_ok m \<Longrightarrow> cf_ok (cf_write m w)"
  by (auto simp: cf_write_def cf_ok_put cf_ok_del split: prod.splits option.splits)

lemma cf_batch_simps [simp]:
  "cf_batch m [] = m" "cf_batch m (w # ws) = cf_batch (cf_write m w) ws"
  "cf_batch m (us @ ws) = cf_batch (cf_batch m us) ws"
  by (simp_all add: cf_batch_def)

lemma cf_ok_batch: "cf_ok m \<Longrightarrow> cf_ok (cf_batch m ws)"
  by (induction ws arbitrary: m) (auto simp: cf_ok_write)

lemma cf_get_batch:
  "cf_get (cf_batch m ws) k = (case last_write ws k of Some w \<Rightarrow> w | None \<Rightarrow> cf_get m k)"
proof (induction ws arbitrary: m)
  case (Cons w ws)
  then show ?case by (cases w) (auto simp: cf_get_write split: option.splits)
qed simp

lemma last_write_append:
  "last_write (us @ ws) k = (case last_write ws k of Some r \<Rightarrow> Some r | None \<Rightarrow> last_write us k)"
  by (induction us k rule: last_write.induct) (auto split: option.splits)

lemma last_write_untouched: "k \<notin> fst ` set ws \<Longrightarrow> last_write ws k = None"
  by (induction ws) auto

lemma cf_batch_untouched: "k \<notin> fst ` set ws \<Longrightarrow> cf_get (cf_batch s ws) k = cf_get s k"
  by (simp add: cf_get_batch last_write_untouched)

lemma cf_batch_dels:
  assumes "\<And>w. w \<in> set ms \<Longrightarrow> snd w = None"
  shows "cf_get (cf_batch s ms) k = (if k \<in> fst ` set ms then None else cf_get s k)"
proof -
  have "last_write ms k = (if k \<in> fst ` set ms then Some None else None)"
    using assms
  proof (induction ms)
    case (Cons w ms)
    have "w = (fst w, None)" using Cons.prems[of w] by (simp add: prod_eq_iff)
    with Cons.IH Cons.prems show ?case by (cases w) auto
  qed simp
  then show ?thesis by (simp add: cf_get_batch)
qed

lemma cf_eqI: "cf_ok m \<Longrightarrow> cf_ok n \<Longrightarrow> cf_get m = cf_get n \<Longrightarrow> m = n"
  by (rule cf.entries_ext)

lemma entries_with_prefix_filter:
  "cf_ok m \<Longrightarrow> entries_with_prefix m p = filter (\<lambda>(k, _). starts_with k p) m"
  unfolding entries_with_prefix_def
  by (rule scan_while_filter) (auto simp: cf_ok_def intro: prefix_le prefix_convex)

lemma entries_with_prefix_iff:
  "cf_ok m \<Longrightarrow> (k, v) \<in> set (entries_with_prefix m p) \<longleftrightarrow> cf_get m k = Some v \<and> starts_with k p"
  by (auto simp: entries_with_prefix_filter cf_entries_iff)

lemma entries_with_prefix_sorted:
  "cf_ok m \<Longrightarrow> sorted_wrt (<) (map fst (entries_with_prefix m p))"
  by (simp add: entries_with_prefix_filter cf_ok_def sorted_wrt_map sorted_wrt_filter)

section \<open>Runs of step functions\<close>

locale invariant_machine =
  fixes step :: "'s \<Rightarrow> 'e \<Rightarrow> 's"
    and valid :: "'e \<Rightarrow> bool"
    and inv :: "'s \<Rightarrow> bool"
  assumes step_inv: "inv s \<Longrightarrow> valid e \<Longrightarrow> inv (step s e)"
begin

lemma run_inv: "inv s \<Longrightarrow> list_all valid es \<Longrightarrow> inv (foldl step s es)"
  by (induction es arbitrary: s) (auto simp: step_inv)

end

locale simulation = invariant_machine +
  fixes astep :: "'a \<Rightarrow> 'e \<Rightarrow> 'a"
    and abs :: "'s \<Rightarrow> 'a"
  assumes step_abs: "inv s \<Longrightarrow> valid e \<Longrightarrow> abs (step s e) = astep (abs s) e"
begin

lemma run_abs: "inv s \<Longrightarrow> list_all valid es \<Longrightarrow> abs (foldl step s es) = foldl astep (abs s) es"
  by (induction es arbitrary: s) (auto simp: step_inv step_abs)

end

end
