(* ===== verification/TaskKeys.thy ===== *)
theory TaskKeys
  imports OrderedStore
begin

text \<open>
  \<open>src/tasks/keys.rs\<close>: the key space of the task domain inside the replicated key-value
  state. Every builder and parser is here; the lemmas say that keys of different tables
  never collide, that each builder is injective, that parsing inverts building, and that
  the zero padding makes the byte order of index keys the order of their times.
\<close>

section \<open>Builders and parsers\<close>

definition TASK_REC_PREFIX :: string where "TASK_REC_PREFIX = ''task:rec:''"
definition TASK_QUEUED_IDX_PREFIX :: string where "TASK_QUEUED_IDX_PREFIX = ''task:idx:queued:''"
definition TASK_ASSIGNED_IDX_PREFIX :: string where "TASK_ASSIGNED_IDX_PREFIX = ''task:idx:assigned:''"
definition TASK_TERMINAL_IDX_PREFIX :: string where "TASK_TERMINAL_IDX_PREFIX = ''task:idx:terminal:''"
definition TASK_IDEM_PREFIX :: string where "TASK_IDEM_PREFIX = ''task:idem:''"
definition TASK_WORKER_PREFIX :: string where "TASK_WORKER_PREFIX = ''task:worker:''"

lemmas task_prefix_defs =
  TASK_REC_PREFIX_def TASK_QUEUED_IDX_PREFIX_def TASK_ASSIGNED_IDX_PREFIX_def
  TASK_TERMINAL_IDX_PREFIX_def TASK_IDEM_PREFIX_def TASK_WORKER_PREFIX_def

definition rec_key :: "string \<Rightarrow> string" where
  "rec_key i = TASK_REC_PREFIX @ i"

definition queued_idx_key :: "u64 \<Rightarrow> string \<Rightarrow> string" where
  "queued_idx_key run_at i = TASK_QUEUED_IDX_PREFIX @ show_padded 20 (unat run_at) @ '':'' @ i"

definition assigned_idx_key :: "string \<Rightarrow> string \<Rightarrow> string" where
  "assigned_idx_key node_id i = TASK_ASSIGNED_IDX_PREFIX @ node_id @ '':'' @ i"

definition assigned_idx_node_prefix :: "string \<Rightarrow> string" where
  "assigned_idx_node_prefix node_id = TASK_ASSIGNED_IDX_PREFIX @ node_id @ '':''"

definition terminal_idx_key :: "u64 \<Rightarrow> string \<Rightarrow> string" where
  "terminal_idx_key completed_at i =
     TASK_TERMINAL_IDX_PREFIX @ show_padded 20 (unat completed_at) @ '':'' @ i"

definition idem_record_key :: "string \<Rightarrow> string" where
  "idem_record_key k = TASK_IDEM_PREFIX @ k"

definition worker_key :: "string \<Rightarrow> string" where
  "worker_key node_id = TASK_WORKER_PREFIX @ node_id"

definition parse_terminal_idx_key :: "string \<Rightarrow> (u64 \<times> string) option" where
  "parse_terminal_idx_key key =
     (case strip_prefix TASK_TERMINAL_IDX_PREFIX key of None \<Rightarrow> None
      | Some rest \<Rightarrow> (case split_once (CHR '':'') rest of None \<Rightarrow> None
        | Some (completed_at, i) \<Rightarrow> (case parse_u64 completed_at of None \<Rightarrow> None
          | Some t \<Rightarrow> Some (t, i))))"

definition parse_queued_idx_key :: "string \<Rightarrow> (u64 \<times> string) option" where
  "parse_queued_idx_key key =
     (case strip_prefix TASK_QUEUED_IDX_PREFIX key of None \<Rightarrow> None
      | Some rest \<Rightarrow> (case split_once (CHR '':'') rest of None \<Rightarrow> None
        | Some (run_at, i) \<Rightarrow> (case parse_u64 run_at of None \<Rightarrow> None
          | Some t \<Rightarrow> Some (t, i))))"

definition parse_assigned_idx_key :: "string \<Rightarrow> (string \<times> string) option" where
  "parse_assigned_idx_key key =
     (case strip_prefix TASK_ASSIGNED_IDX_PREFIX key of None \<Rightarrow> None
      | Some rest \<Rightarrow> rsplit_once (CHR '':'') rest)"

lemmas task_key_defs =
  rec_key_def queued_idx_key_def assigned_idx_key_def terminal_idx_key_def
  idem_record_key_def worker_key_def

section \<open>Tables do not overlap, builders are injective\<close>

named_theorems key_simps

lemma rec_key_neq [key_simps]:
  "rec_key i \<noteq> queued_idx_key t j" "rec_key i \<noteq> assigned_idx_key n j"
  "rec_key i \<noteq> terminal_idx_key t j" "rec_key i \<noteq> idem_record_key k" "rec_key i \<noteq> worker_key n"
  by (simp_all add: task_key_defs task_prefix_defs)

lemma queued_idx_key_neq [key_simps]:
  "queued_idx_key t j \<noteq> rec_key i" "queued_idx_key t j \<noteq> assigned_idx_key n i"
  "queued_idx_key t j \<noteq> terminal_idx_key u i" "queued_idx_key t j \<noteq> idem_record_key k"
  "queued_idx_key t j \<noteq> worker_key n"
  by (simp_all add: task_key_defs task_prefix_defs)

lemma assigned_idx_key_neq [key_simps]:
  "assigned_idx_key n j \<noteq> rec_key i" "assigned_idx_key n j \<noteq> queued_idx_key t i"
  "assigned_idx_key n j \<noteq> terminal_idx_key u i" "assigned_idx_key n j \<noteq> idem_record_key k"
  "assigned_idx_key n j \<noteq> worker_key m"
  by (simp_all add: task_key_defs task_prefix_defs)

lemma terminal_idx_key_neq [key_simps]:
  "terminal_idx_key t j \<noteq> rec_key i" "terminal_idx_key t j \<noteq> queued_idx_key u i"
  "terminal_idx_key t j \<noteq> assigned_idx_key n i" "terminal_idx_key t j \<noteq> idem_record_key k"
  "terminal_idx_key t j \<noteq> worker_key n"
  by (simp_all add: task_key_defs task_prefix_defs)

lemma idem_record_key_neq [key_simps]:
  "idem_record_key k \<noteq> rec_key i" "idem_record_key k \<noteq> queued_idx_key u i"
  "idem_record_key k \<noteq> assigned_idx_key n i" "idem_record_key k \<noteq> terminal_idx_key t j"
  "idem_record_key k \<noteq> worker_key n"
  by (simp_all add: task_key_defs task_prefix_defs)

lemma worker_key_neq [key_simps]:
  "worker_key n \<noteq> rec_key i" "worker_key n \<noteq> queued_idx_key u i"
  "worker_key n \<noteq> assigned_idx_key m i" "worker_key n \<noteq> terminal_idx_key t j"
  "worker_key n \<noteq> idem_record_key k"
  by (simp_all add: task_key_defs task_prefix_defs)

lemma u64_lt_10_pow_20: "unat (t :: u64) < 10 ^ 20"
proof -
  have "unat t < 2 ^ 64" using unat_lt_2p [of t] by simp
  then show ?thesis by simp
qed

lemma padded_u64_length [simp]: "length (show_padded 20 (unat (t :: u64))) = 20"
  by (rule length_show_padded) (simp, rule u64_lt_10_pow_20)

lemma simple_key_inject [key_simps]:
  "rec_key i = rec_key j \<longleftrightarrow> i = j"
  "idem_record_key i = idem_record_key j \<longleftrightarrow> i = j"
  "worker_key i = worker_key j \<longleftrightarrow> i = j"
  by (simp_all add: task_key_defs)

lemma queued_idx_key_inject [key_simps]:
  "queued_idx_key t i = queued_idx_key u j \<longleftrightarrow> t = u \<and> i = j"
  by (auto simp: queued_idx_key_def show_padded_inject word_unat_eq_iff)

lemma terminal_idx_key_inject [key_simps]:
  "terminal_idx_key t i = terminal_idx_key u j \<longleftrightarrow> t = u \<and> i = j"
  by (auto simp: terminal_idx_key_def show_padded_inject word_unat_eq_iff)

definition no_colon :: "string \<Rightarrow> bool" where
  "no_colon s \<longleftrightarrow> CHR '':'' \<notin> set s"

lemma assigned_idx_key_inject [key_simps]:
  assumes "no_colon n" "no_colon m"
  shows "assigned_idx_key n i = assigned_idx_key m j \<longleftrightarrow> n = m \<and> i = j"
proof
  assume "assigned_idx_key n i = assigned_idx_key m j"
  then have "n @ CHR '':'' # i = m @ CHR '':'' # j" by (simp add: assigned_idx_key_def)
  then have "split_once (CHR '':'') (n @ CHR '':'' # i) = split_once (CHR '':'') (m @ CHR '':'' # j)"
    by simp
  with assms show "n = m \<and> i = j" by (simp add: split_once_append no_colon_def)
qed simp

section \<open>Parsing inverts building\<close>

lemma parse_queued_idx_key_build [simp]: "parse_queued_idx_key (queued_idx_key t i) = Some (t, i)"
  by (simp add: parse_queued_idx_key_def queued_idx_key_def split_once_append)

lemma parse_terminal_idx_key_build [simp]:
  "parse_terminal_idx_key (terminal_idx_key t i) = Some (t, i)"
  by (simp add: parse_terminal_idx_key_def terminal_idx_key_def split_once_append)

lemma parse_assigned_idx_key_build:
  "no_colon i \<Longrightarrow> parse_assigned_idx_key (assigned_idx_key n i) = Some (n, i)"
  by (simp add: parse_assigned_idx_key_def assigned_idx_key_def no_colon_def rsplit_once_append)

section \<open>Byte order of the keys is time order\<close>

lemma append_less_same [simp]: "p @ a < p @ b \<longleftrightarrow> a < (b :: 'a::linorder list)"
  by (induction p) auto

lemma list_less_append:
  "length a = length b \<Longrightarrow> a < b \<Longrightarrow> a @ x < b @ (y :: 'a::linorder list)"
  by (induction a b rule: list_induct2) auto

lemma digit_char_less: "d < 10 \<Longrightarrow> e < 10 \<Longrightarrow> digit_char d < digit_char e \<longleftrightarrow> d < e"
  by (simp add: digit_char_def less_char_def of_char_of)

lemma digits_val_less:
  assumes "length s = length r" "digits_val a s = Some m" "digits_val b r = Some n"
    and "a < b \<or> (a = b \<and> s < r)"
  shows "m < n"
  using assms
proof (induction s r arbitrary: a b rule: list_induct2)
  case Nil
  then show ?case by simp
next
  case (Cons c s d r)
  from Cons.prems obtain x y where x: "char_digit c = Some x" and y: "char_digit d = Some y"
    and m: "digits_val (10 * a + x) s = Some m" and n: "digits_val (10 * b + y) r = Some n"
    by (auto split: option.splits)
  from x y have lt: "x < 10" "y < 10" and "(of_char c :: nat) = 48 + x" "(of_char d :: nat) = 48 + y"
    by (auto simp: char_digit_def Let_def split: if_splits)
  then have cd: "c < d \<longleftrightarrow> x < y" "c = d \<longleftrightarrow> x = y"
    by (simp add: less_char_def, metis add_left_cancel of_char_eq_iff)
  have "10 * a + x < 10 * b + y \<or> (10 * a + x = 10 * b + y \<and> s < r)"
    using Cons.prems(3) lt cd by auto
  then show ?case using Cons.IH m n by blast
qed

lemma padded_less_iff:
  "show_padded 20 (unat (t :: u64)) < show_padded 20 (unat u) \<longleftrightarrow> t < u"
proof -
  have lt: "t < u" if "show_padded 20 (unat t) < show_padded 20 (unat u)" for t u :: u64
    using that digits_val_less [of "show_padded 20 (unat t)" "show_padded 20 (unat u)" 0 "unat t" 0 "unat u"]
    by (simp add: digits_val_show_padded word_less_nat_alt)
  show ?thesis
  proof
    assume "t < u"
    then show "show_padded 20 (unat t) < show_padded 20 (unat u)"
      using lt [of u t] by (metis linorder_neqE not_less_iff_gr_or_eq show_padded_inject word_unat_eq_iff)
  qed (rule lt)
qed

lemma time_idx_less:
  "t < u \<Longrightarrow> show_padded 20 (unat (t :: u64)) @ x < show_padded 20 (unat u) @ y"
  by (rule list_less_append) (simp_all add: padded_less_iff)

lemma queued_idx_key_mono: "t < u \<Longrightarrow> queued_idx_key t i < queued_idx_key u j"
  by (simp add: queued_idx_key_def time_idx_less)

lemma terminal_idx_key_mono: "t < u \<Longrightarrow> terminal_idx_key t i < terminal_idx_key u j"
  by (simp add: terminal_idx_key_def time_idx_less)

lemma queued_idx_key_less_imp: "queued_idx_key t i < queued_idx_key u j \<Longrightarrow> t \<le> u"
  using queued_idx_key_mono by (metis leI less_asym)

lemma terminal_idx_key_less_imp: "terminal_idx_key t i < terminal_idx_key u j \<Longrightarrow> t \<le> u"
  using terminal_idx_key_mono by (metis leI less_asym)

end
