(* ===== verification/TaskRecords.thy ===== *)
theory TaskRecords
  imports TaskKeys
begin

text \<open>
  \<open>src/tasks/records.rs\<close> and \<open>src/types_kv.rs\<close>: the replicated records of the task domain,
  the commands of the state machine, the structured result of a command and the queue
  metrics. Serialisation is \<open>sonic_rs\<close>, which is not part of the repository: a \<open>codec\<close> is
  an argument of every definition that serialises, and \<open>codec_ok\<close> is the documented fact
  the program relies on (decoding a serialised value gives the value back).
\<close>

section \<open>Records\<close>

datatype task_status = Queued | Assigned | Running | Done | Failed

fun as_str :: "task_status \<Rightarrow> string" where
  "as_str Queued = ''queued''"
| "as_str Assigned = ''assigned''"
| "as_str Running = ''running''"
| "as_str Done = ''done''"
| "as_str Failed = ''failed''"

record task_record =
  tr_id :: string
  tr_payload :: string
  tr_status :: task_status
  tr_attempts :: u32
  tr_run_at :: u64
  tr_idem_key :: "string option"
  tr_assigned_node_id :: "string option"
  tr_lease_epoch :: "u64 option"
  tr_committed :: bool
  tr_error :: "string option"
  tr_updated_at :: u64
  tr_created_at :: u64
  tr_completed_at :: u64
  tr_result :: "string option"

record worker_lease_record =
  wl_node_id :: string
  wl_worker_name :: string
  wl_lease_epoch :: u64
  wl_expires_at :: u64

record task_op_result =
  op_ok :: bool
  op_id :: "string option"
  op_deduplicated :: "bool option"
  op_record :: "task_record option"
  op_reason :: "string option"

definition op_result_ok :: task_op_result where
  "op_result_ok = \<lparr>op_ok = True, op_id = None, op_deduplicated = None, op_record = None,
     op_reason = None\<rparr>"

definition op_result_rejected :: "string \<Rightarrow> task_op_result" where
  "op_result_rejected reason = \<lparr>op_ok = False, op_id = None, op_deduplicated = None,
     op_record = None, op_reason = Some reason\<rparr>"

text \<open>\<open>types_kv::Response\<close>.\<close>

record response =
  rs_value :: "string option"

definition response_new :: "string \<Rightarrow> response" where
  "response_new v = \<lparr>rs_value = Some v\<rparr>"

definition response_none :: response where
  "response_none = \<lparr>rs_value = None\<rparr>"

section \<open>Serialisation, an argument of the model\<close>

record codec =
  enc_record :: "task_record \<Rightarrow> string result"
  dec_record :: "string \<Rightarrow> task_record result"
  enc_lease :: "worker_lease_record \<Rightarrow> string result"
  dec_lease :: "string \<Rightarrow> worker_lease_record result"
  enc_result :: "task_op_result \<Rightarrow> string option"
  dec_result :: "string \<Rightarrow> task_op_result option"


text \<open>Documented behaviour of the serialiser: encoding a plain value succeeds and decoding inverts it.\<close>

definition codec_ok :: "codec \<Rightarrow> bool" where
  "codec_ok c \<longleftrightarrow>
     (\<forall>r. \<exists>s. enc_record c r = Inr s \<and> dec_record c s = Inr r) \<and>
     (\<forall>l. \<exists>s. enc_lease c l = Inr s \<and> dec_lease c s = Inr l) \<and>
     (\<forall>x. \<exists>s. enc_result c x = Some s \<and> dec_result c s = Some x)"

definition into_response :: "codec \<Rightarrow> task_op_result \<Rightarrow> response" where
  "into_response c r = \<lparr>rs_value = enc_result c r\<rparr>"

definition from_response :: "codec \<Rightarrow> response \<Rightarrow> task_op_result option" where
  "from_response c r = (case rs_value r of None \<Rightarrow> None | Some v \<Rightarrow> dec_result c v)"

lemma codec_recordE:
  assumes "codec_ok c"
  obtains s where "enc_record c r = Inr s" "dec_record c s = Inr r"
  using assms unfolding codec_ok_def by blast

lemma codec_leaseE:
  assumes "codec_ok c"
  obtains s where "enc_lease c l = Inr s" "dec_lease c s = Inr l"
  using assms unfolding codec_ok_def by blast

lemma from_into_response: "codec_ok c \<Longrightarrow> from_response c (into_response c r) = Some r"
  unfolding codec_ok_def from_response_def into_response_def
  by (metis option.case(2) response.select_convs(1))

section \<open>Commands\<close>

datatype task_request =
    TaskEnqueue (te_id: string) (te_payload: string) (te_run_at: u64)
      (te_idem_key: "string option") (te_created_at: u64)
  | TaskAssign string string u64 u64 \<comment> \<open>id, node_id, lease_epoch, now\<close>
  | TaskClaim string string u64 u64 \<comment> \<open>id, node_id, lease_epoch, now\<close>
  | TaskMarkCommitted string string u64 u64 \<comment> \<open>id, node_id, lease_epoch, now\<close>
  | TaskDone string string u64 u32 u64 "string option" \<comment> \<open>id, node_id, lease_epoch, attempts, now, result\<close>
  | TaskFail string string u64 u32 string u64 u64 \<comment> \<open>id, node_id, lease_epoch, attempts, error, retry_at, now\<close>
  | TaskRequeue string
  | TaskReplay string u64 \<comment> \<open>id, now\<close>
  | TaskVacuum "string list"
  | WorkerLease string string u64 u64 \<comment> \<open>node_id, worker_name, lease_epoch, expires_at\<close>

datatype request =
    ReqSet string string
  | ReqDelete string
  | ReqTask task_request

fun show_task_request :: "task_request \<Rightarrow> string" where
  "show_task_request (TaskEnqueue i _ _ _ _) = ''TaskEnqueue { id: '' @ i @ '' }''"
| "show_task_request (TaskAssign i n _ _) = ''TaskAssign { id: '' @ i @ '', node: '' @ n @ '' }''"
| "show_task_request (TaskClaim i n _ _) = ''TaskClaim { id: '' @ i @ '', node: '' @ n @ '' }''"
| "show_task_request (TaskMarkCommitted i n _ _) =
     ''TaskMarkCommitted { id: '' @ i @ '', node: '' @ n @ '' }''"
| "show_task_request (TaskDone i _ _ _ _ _) = ''TaskDone { id: '' @ i @ '' }''"
| "show_task_request (TaskFail i _ _ _ _ _ _) = ''TaskFail { id: '' @ i @ '' }''"
| "show_task_request (TaskRequeue i) = ''TaskRequeue { id: '' @ i @ '' }''"
| "show_task_request (TaskReplay i _) = ''TaskReplay { id: '' @ i @ '' }''"
| "show_task_request (TaskVacuum is) = ''TaskVacuum { ids: '' @ show_nat (length is) @ '' }''"
| "show_task_request (WorkerLease n _ _ _) = ''WorkerLease { node: '' @ n @ '' }''"

fun show_request :: "request \<Rightarrow> string" where
  "show_request (ReqSet k v) = ''Set { key: '' @ k @ '', value: '' @ v @ '' }''"
| "show_request (ReqDelete k) = ''Delete { key: '' @ k @ '' }''"
| "show_request (ReqTask t) = show_task_request t"

section \<open>Queue metrics\<close>

record task_queue_metrics =
  qm_total :: nat
  qm_queued :: nat
  qm_assigned :: nat
  qm_running :: nat
  qm_done :: nat
  qm_failed :: nat
  qm_total_attempts :: u64
  qm_retried_tasks :: nat
  qm_oldest_due_queued_age_secs :: u64
  qm_active_workers :: nat
  qm_total_worker_leases :: nat
  qm_avg_completion_latency_secs :: u64
  qm_max_completion_latency_secs :: u64
  qm_computed_at :: u64

text \<open>The body of the first loop of \<open>compute_metrics\<close>.\<close>

definition metrics_count_step :: "u64 \<Rightarrow> task_queue_metrics \<Rightarrow> task_record \<Rightarrow> task_queue_metrics" where
  "metrics_count_step now m r =
     (let m1 = (case tr_status r of
          Queued \<Rightarrow>
            (let m' = m\<lparr>qm_queued := qm_queued m + 1\<rparr> in
             if tr_run_at r \<le> now
             then m'\<lparr>qm_oldest_due_queued_age_secs :=
                       max (qm_oldest_due_queued_age_secs m) (sat_sub now (tr_run_at r))\<rparr>
             else m')
        | Assigned \<Rightarrow> m\<lparr>qm_assigned := qm_assigned m + 1\<rparr>
        | Running \<Rightarrow> m\<lparr>qm_running := qm_running m + 1\<rparr>
        | Done \<Rightarrow> m\<lparr>qm_done := qm_done m + 1\<rparr>
        | Failed \<Rightarrow> m\<lparr>qm_failed := qm_failed m + 1\<rparr>);
        m2 = m1\<lparr>qm_total_attempts := qm_total_attempts m1 + ucast (tr_attempts r)\<rparr>
      in if tr_attempts r > 1 then m2\<lparr>qm_retried_tasks := qm_retried_tasks m2 + 1\<rparr> else m2)"

text \<open>The second loop: latencies of terminal records that carry both timestamps.\<close>

definition has_latency :: "task_record \<Rightarrow> bool" where
  "has_latency r \<longleftrightarrow> tr_status r \<in> {Done, Failed} \<and> 0 < tr_created_at r \<and>
     tr_created_at r \<le> tr_completed_at r"

definition latency_step :: "u64 \<times> u64 \<times> u64 \<Rightarrow> task_record \<Rightarrow> u64 \<times> u64 \<times> u64" where
  "latency_step acc r = (case acc of (lsum, lcount, longest) \<Rightarrow>
     if has_latency r
     then (let latency = tr_completed_at r - tr_created_at r
           in (lsum + latency, lcount + 1, max longest latency))
     else (lsum, lcount, longest))"

definition compute_metrics ::
  "task_record list \<Rightarrow> worker_lease_record list \<Rightarrow> u64 \<Rightarrow> task_queue_metrics" where
  "compute_metrics records leases now =
     (let m0 = \<lparr>qm_total = length records, qm_queued = 0, qm_assigned = 0, qm_running = 0,
            qm_done = 0, qm_failed = 0, qm_total_attempts = 0, qm_retried_tasks = 0,
            qm_oldest_due_queued_age_secs = 0,
            qm_active_workers = length (filter (\<lambda>l. now \<le> wl_expires_at l) leases),
            qm_total_worker_leases = length leases, qm_avg_completion_latency_secs = 0,
            qm_max_completion_latency_secs = 0, qm_computed_at = now\<rparr>;
          m1 = foldl (metrics_count_step now) m0 records;
          (lsum, lcount, longest) = foldl latency_step (0, 0, 0) records;
          m2 = m1\<lparr>qm_max_completion_latency_secs := longest\<rparr>
      in if 0 < lcount then m2\<lparr>qm_avg_completion_latency_secs := lsum div lcount\<rparr> else m2)"

definition count_status :: "task_status \<Rightarrow> task_record list \<Rightarrow> nat" where
  "count_status st rs = length (filter (\<lambda>r. tr_status r = st) rs)"

lemma count_status_simps [simp]:
  "count_status st [] = 0"
  "count_status st (r # rs) = (if tr_status r = st then 1 else 0) + count_status st rs"
  by (simp_all add: count_status_def)

lemma count_status_partition:
  "count_status Queued rs + count_status Assigned rs + count_status Running rs +
   count_status Done rs + count_status Failed rs = length rs"
proof (induction rs)
  case (Cons r rs)
  then show ?case by (cases "tr_status r") auto
qed simp

lemma metrics_fold_counts:
  "qm_queued (foldl (metrics_count_step now) m rs) = qm_queued m + count_status Queued rs"
  "qm_assigned (foldl (metrics_count_step now) m rs) = qm_assigned m + count_status Assigned rs"
  "qm_running (foldl (metrics_count_step now) m rs) = qm_running m + count_status Running rs"
  "qm_done (foldl (metrics_count_step now) m rs) = qm_done m + count_status Done rs"
  "qm_failed (foldl (metrics_count_step now) m rs) = qm_failed m + count_status Failed rs"
  "qm_total (foldl (metrics_count_step now) m rs) = qm_total m"
  "qm_retried_tasks (foldl (metrics_count_step now) m rs) =
     qm_retried_tasks m + length (filter (\<lambda>r. tr_attempts r > 1) rs)"
  by (induction rs arbitrary: m)
     (auto simp: metrics_count_step_def Let_def split: task_status.split)

lemma metrics_step_other:
  "qm_active_workers (metrics_count_step now m r) = qm_active_workers m"
  "qm_avg_completion_latency_secs (metrics_count_step now m r) = qm_avg_completion_latency_secs m"
  by (cases "tr_status r"; simp add: metrics_count_step_def Let_def)+

lemma metrics_fold_other:
  "qm_active_workers (foldl (metrics_count_step now) m rs) = qm_active_workers m"
  "qm_avg_completion_latency_secs (foldl (metrics_count_step now) m rs) = qm_avg_completion_latency_secs m"
  by (induction rs arbitrary: m) (simp_all add: metrics_step_other)

definition due_ages :: "u64 \<Rightarrow> task_record list \<Rightarrow> u64 set" where
  "due_ages now rs = {now - tr_run_at r | r. r \<in> set rs \<and> tr_status r = Queued \<and> tr_run_at r \<le> now}"

lemma due_ages_Cons:
  "due_ages now (r # rs) =
     (if tr_status r = Queued \<and> tr_run_at r \<le> now then {now - tr_run_at r} else {}) \<union> due_ages now rs"
  by (auto simp: due_ages_def)

lemma finite_due_ages [simp]: "finite (due_ages now rs)"
proof (induction rs)
  case Nil
  then show ?case by (simp add: due_ages_def)
qed (simp add: due_ages_Cons)

lemma metrics_fold_oldest:
  "qm_oldest_due_queued_age_secs (foldl (metrics_count_step now) m rs) =
     Max (insert (qm_oldest_due_queued_age_secs m) (due_ages now rs))"
proof (induction rs arbitrary: m)
  case Nil
  then show ?case by (simp add: due_ages_def)
next
  case (Cons r rs)
  have "qm_oldest_due_queued_age_secs (metrics_count_step now m r) =
      (if tr_status r = Queued \<and> tr_run_at r \<le> now
       then max (qm_oldest_due_queued_age_secs m) (now - tr_run_at r)
       else qm_oldest_due_queued_age_secs m)"
    by (cases "tr_status r") (simp_all add: metrics_count_step_def Let_def sat_sub_def)
  moreover have "Max (insert (max a b) S) = Max (insert a (insert b S))" if "finite S" for a b :: u64 and S
    using that by (cases "S = {}") (simp_all add: max.assoc)
  ultimately show ?case by (simp add: Cons.IH due_ages_Cons insert_commute)
qed

definition latencies :: "task_record list \<Rightarrow> nat list" where
  "latencies rs = map (\<lambda>r. unat (tr_completed_at r) - unat (tr_created_at r)) (filter has_latency rs)"

lemma latency_step_simps:
  "has_latency r \<Longrightarrow> latency_step (a, b, c) r =
     (a + (tr_completed_at r - tr_created_at r), b + 1, max c (tr_completed_at r - tr_created_at r))"
  "\<not> has_latency r \<Longrightarrow> latency_step (a, b, c) r = (a, b, c)"
  by (simp_all add: latency_step_def Let_def)

lemma latency_fold:
  assumes "unat lsum + sum_list (latencies rs) < 2 ^ 64" "unat lcount + length rs < 2 ^ 64"
    and "foldl latency_step (lsum, lcount, longest) rs = (t, c, l)"
  shows "unat t = unat lsum + sum_list (latencies rs) \<and> unat c = unat lcount + length (latencies rs) \<and>
    unat l = foldl max (unat longest) (latencies rs)"
  using assms
proof (induction rs arbitrary: lsum lcount longest)
  case Nil
  then show ?case by (simp add: latencies_def)
next
  case (Cons r rs)
  show ?case
  proof (cases "has_latency r")
    case False
    then have "foldl latency_step (lsum, lcount, longest) rs = (t, c, l)"
      and "latencies (r # rs) = latencies rs"
      using Cons.prems(3) by (simp_all add: latency_step_simps latencies_def)
    with Cons.IH [OF _ _ this(1)] Cons.prems show ?thesis by simp
  next
    case True
    let ?d = "tr_completed_at r - tr_created_at r"
    have d: "unat ?d = unat (tr_completed_at r) - unat (tr_created_at r)"
      using True by (simp add: has_latency_def unat_sub)
    have ls: "latencies (r # rs) = unat ?d # latencies rs"
      using True d by (simp add: latencies_def)
    have t: "unat (lsum + ?d) = unat lsum + unat ?d"
      using Cons.prems(1) ls by (subst unat_add_lem [THEN iffD1]) auto
    have c: "unat (lcount + 1) = unat lcount + 1"
      using Cons.prems(2) by (subst unat_add_lem [THEN iffD1]) auto
    have m: "unat (max longest ?d) = max (unat longest) (unat ?d)"
      by (simp add: max_def word_le_nat_alt)
    have "foldl latency_step (lsum + ?d, lcount + 1, max longest ?d) rs = (t, c, l)"
      using Cons.prems(3) True by (simp add: latency_step_simps)
    from Cons.IH [OF _ _ this] Cons.prems show ?thesis by (simp add: t c m ls)
  qed
qed

lemma foldl_max_ge: "(a :: nat) \<le> foldl max a xs \<and> (\<forall>x \<in> set xs. x \<le> foldl max a xs)"
proof (induction xs arbitrary: a)
  case (Cons x xs)
  from Cons.IH [of "max a x"] show ?case by simp
qed simp

lemma sum_list_le_max: "sum_list (xs :: nat list) \<le> length xs * foldl max 0 xs"
proof -
  have "\<And>x. x \<in> set xs \<Longrightarrow> x \<le> foldl max 0 xs" by (simp add: foldl_max_ge)
  then have "sum_list (map (\<lambda>x. x) xs) \<le> sum_list (map (\<lambda>_. foldl max 0 xs) xs)"
    by (rule sum_list_mono)
  then show ?thesis by (simp add: sum_list_triv)
qed

end
