(* ===== verification/TaskApply.thy ===== *)
theory TaskApply
  imports TaskRecords
begin

text \<open>
  \<open>src/tasks/apply.rs\<close>: the deterministic transitions of the task domain, one definition
  per handler with the guards and early returns of the code, in the order of the code. A
  handler reads the current state through a read function and returns the key mutations of
  one atomic write batch and the response for the proposer. What each of them does on every
  branch, when the reads come from a well-formed store, is stated in \<open>TaskQueue\<close> and proved
  in \<open>TaskRefinement\<close>.
\<close>

section \<open>Mutations, reads, text of rejections\<close>

type_synonym kv_mutation = "(string, string) kv_write"
type_synonym state_read = "string \<Rightarrow> string option result"
type_synonym applied = "(kv_mutation list \<times> response) result"

definition mut_put :: "string \<Rightarrow> string \<Rightarrow> kv_mutation" where
  "mut_put k v = (k, Some v)"

definition mut_del :: "string \<Rightarrow> kv_mutation" where
  "mut_del k = (k, None)"

definition is_task_command :: "request \<Rightarrow> bool" where
  "is_task_command cmd = (case cmd of ReqTask _ \<Rightarrow> True | _ \<Rightarrow> False)"

definition is_schedule_event :: "task_request \<Rightarrow> bool" where
  "is_schedule_event cmd = (case cmd of
       TaskEnqueue _ _ _ _ _ \<Rightarrow> True
     | TaskRequeue _ \<Rightarrow> True
     | TaskReplay _ _ \<Rightarrow> True
     | TaskFail _ _ _ _ _ _ _ \<Rightarrow> True
     | WorkerLease _ _ _ _ \<Rightarrow> True
     | _ \<Rightarrow> False)"

text \<open>\<open>{:?}\<close> of a string and of optional values. Bytes of multi-byte characters are printed as they are.\<close>

definition hex_digit :: "nat \<Rightarrow> char" where
  "hex_digit d = (if d < 10 then char_of (48 + d) else char_of (87 + d))"

definition debug_char :: "char \<Rightarrow> string" where
  "debug_char c = (let n = (of_char c :: nat) in
     if n = 34 \<or> n = 92 then [CHR 92, c]
     else if n = 9 then [CHR 92, CHR ''t''] else if n = 10 then [CHR 92, CHR ''n'']
     else if n = 13 then [CHR 92, CHR ''r''] else if n = 0 then [CHR 92, CHR ''0'']
     else if n < 16 then [CHR 92] @ ''u{'' @ [hex_digit n] @ ''}''
     else if n < 32 \<or> n = 127 then [CHR 92] @ ''u{'' @ [hex_digit (n div 16), hex_digit (n mod 16)] @ ''}''
     else [c])"

definition debug_string :: "string \<Rightarrow> string" where
  "debug_string s = [CHR 34] @ concat (map debug_char s) @ [CHR 34]"

fun debug_opt :: "('a \<Rightarrow> string) \<Rightarrow> 'a option \<Rightarrow> string" where
  "debug_opt f None = ''None''"
| "debug_opt f (Some x) = ''Some('' @ f x @ '')''"

definition em_dash :: string where
  "em_dash = [CHR 0xE2, CHR 0x80, CHR 0x94]"

definition rejected :: "codec \<Rightarrow> string \<Rightarrow> applied" where
  "rejected c reason = Inr ([], into_response c (op_result_rejected reason))"

definition read_record :: "codec \<Rightarrow> state_read \<Rightarrow> string \<Rightarrow> task_record option result" where
  "read_record c read i =
     rbind (read (rec_key i)) (\<lambda>raw. case raw of
        None \<Rightarrow> Inr None
      | Some raw \<Rightarrow> (case dec_record c raw of
            Inl err \<Rightarrow> Inl (''corrupt task record '' @ i @ '': '' @ err)
          | Inr r \<Rightarrow> Inr (Some r)))"

definition encode_record :: "codec \<Rightarrow> task_record \<Rightarrow> string result" where
  "encode_record c r = (case enc_record c r of
      Inl err \<Rightarrow> Inl (''encode task record: '' @ err) | Inr s \<Rightarrow> Inr s)"

section \<open>Handlers\<close>

definition apply_enqueue ::
  "codec \<Rightarrow> state_read \<Rightarrow> string \<Rightarrow> string \<Rightarrow> u64 \<Rightarrow> string option \<Rightarrow> u64 \<Rightarrow> applied" where
  "apply_enqueue c read i payload run_at idem_key created_at =
     rbind (case idem_key of None \<Rightarrow> Inr None | Some idem \<Rightarrow> read (idem_record_key idem))
     (\<lambda>existing. case existing of
        Some existing_id \<Rightarrow>
          Inr ([], into_response c \<lparr>op_ok = True, op_id = Some existing_id,
             op_deduplicated = Some True, op_record = None, op_reason = None\<rparr>)
      | None \<Rightarrow>
          rbind (read_record c read i) (\<lambda>old. case old of
             Some _ \<Rightarrow>
               Inr ([], into_response c \<lparr>op_ok = True, op_id = Some i,
                  op_deduplicated = Some True, op_record = None, op_reason = None\<rparr>)
           | None \<Rightarrow>
               (let record = \<lparr>tr_id = i, tr_payload = payload, tr_status = Queued,
                      tr_attempts = 0, tr_run_at = run_at, tr_idem_key = idem_key,
                      tr_assigned_node_id = None, tr_lease_epoch = None, tr_committed = False,
                      tr_error = None, tr_updated_at = run_at, tr_created_at = created_at,
                      tr_completed_at = 0, tr_result = None\<rparr>
                in rbind (encode_record c record) (\<lambda>raw.
                   Inr ([mut_put (rec_key i) raw, mut_put (queued_idx_key run_at i) i] @
                        (case idem_key of None \<Rightarrow> []
                         | Some idem \<Rightarrow> [mut_put (idem_record_key idem) i]),
                        into_response c \<lparr>op_ok = True, op_id = Some i,
                          op_deduplicated = Some False, op_record = None, op_reason = None\<rparr>)))))"

definition apply_assign ::
  "codec \<Rightarrow> state_read \<Rightarrow> string \<Rightarrow> string \<Rightarrow> u64 \<Rightarrow> u64 \<Rightarrow> applied" where
  "apply_assign c read i node_id lease_epoch now =
     rbind (read_record c read i) (\<lambda>found. case found of
        None \<Rightarrow> rejected c ''task not found''
      | Some record \<Rightarrow>
          if tr_status record \<noteq> Queued
          then rejected c (''task is '' @ as_str (tr_status record) @ '', not queued'')
          else
            (let queued_key = queued_idx_key (tr_run_at record) i;
                 record' = record\<lparr>tr_status := Assigned, tr_assigned_node_id := Some node_id,
                   tr_lease_epoch := Some lease_epoch, tr_updated_at := now\<rparr>
             in rbind (encode_record c record') (\<lambda>raw.
                Inr ([mut_put (rec_key i) raw, mut_del queued_key,
                      mut_put (assigned_idx_key node_id i) (show_u64 lease_epoch)],
                     into_response c op_result_ok))))"

definition mismatch_text :: "string \<Rightarrow> task_record \<Rightarrow> string" where
  "mismatch_text what r = what @ '' mismatch: status='' @ as_str (tr_status r) @ '', assigned='' @
     debug_opt debug_string (tr_assigned_node_id r) @ '', lease='' @
     debug_opt show_u64 (tr_lease_epoch r)"

definition apply_claim ::
  "codec \<Rightarrow> state_read \<Rightarrow> string \<Rightarrow> string \<Rightarrow> u64 \<Rightarrow> u64 \<Rightarrow> applied" where
  "apply_claim c read i node_id lease_epoch now =
     rbind (read_record c read i) (\<lambda>found. case found of
        None \<Rightarrow> rejected c ''task not found''
      | Some record \<Rightarrow>
          if tr_status record \<noteq> Assigned \<or> tr_assigned_node_id record \<noteq> Some node_id \<or>
             tr_lease_epoch record \<noteq> Some lease_epoch
          then rejected c (mismatch_text ''claim'' record)
          else
            (let record' = record\<lparr>tr_status := Running,
                   tr_attempts := sat_add (tr_attempts record) 1, tr_updated_at := now\<rparr>
             in rbind (encode_record c record') (\<lambda>raw.
                Inr ([mut_put (rec_key i) raw],
                     into_response c \<lparr>op_ok = True, op_id = Some i, op_deduplicated = None,
                       op_record = Some record', op_reason = None\<rparr>))))"

definition ack_matches :: "task_record \<Rightarrow> string \<Rightarrow> u64 \<Rightarrow> bool" where
  "ack_matches record node_id lease_epoch \<longleftrightarrow>
     tr_status record = Running \<and> tr_assigned_node_id record = Some node_id \<and>
     tr_lease_epoch record = Some lease_epoch"

definition apply_mark_committed ::
  "codec \<Rightarrow> state_read \<Rightarrow> string \<Rightarrow> string \<Rightarrow> u64 \<Rightarrow> u64 \<Rightarrow> applied" where
  "apply_mark_committed c read i node_id lease_epoch now =
     rbind (read_record c read i) (\<lambda>found. case found of
        None \<Rightarrow> rejected c ''task not found''
      | Some record \<Rightarrow>
          if \<not> ack_matches record node_id lease_epoch
          then rejected c (mismatch_text ''commit-mark'' record)
          else if tr_committed record then Inr ([], into_response c op_result_ok)
          else
            (let record' = record\<lparr>tr_committed := True, tr_updated_at := now\<rparr>
             in rbind (encode_record c record') (\<lambda>raw.
                Inr ([mut_put (rec_key i) raw], into_response c op_result_ok))))"

definition apply_done ::
  "codec \<Rightarrow> state_read \<Rightarrow> string \<Rightarrow> string \<Rightarrow> u64 \<Rightarrow> u32 \<Rightarrow> u64 \<Rightarrow> string option \<Rightarrow> applied" where
  "apply_done c read i node_id lease_epoch attempts now result_v =
     rbind (read_record c read i) (\<lambda>found. case found of
        None \<Rightarrow> rejected c ''task not found''
      | Some record \<Rightarrow>
          if \<not> ack_matches record node_id lease_epoch
          then rejected c ''stale ack ignored''
          else
            (let assigned_key = assigned_idx_key node_id i;
                 record' = record\<lparr>tr_status := Done, tr_attempts := attempts, tr_error := None,
                   tr_result := result_v, tr_updated_at := now, tr_completed_at := now\<rparr>
             in rbind (encode_record c record') (\<lambda>raw.
                Inr ([mut_put (rec_key i) raw, mut_del assigned_key,
                      mut_put (terminal_idx_key now i) i],
                     into_response c op_result_ok))))"

definition retry_suppressed_note :: string where
  "retry_suppressed_note =
     '' (retry suppressed: task passed its commit point; side effect may have executed '' @ em_dash @
     '' needs reconciliation)''"

definition apply_fail ::
  "codec \<Rightarrow> state_read \<Rightarrow> string \<Rightarrow> string \<Rightarrow> u64 \<Rightarrow> u32 \<Rightarrow> string \<Rightarrow> u64 \<Rightarrow> u64 \<Rightarrow> applied" where
  "apply_fail c read i node_id lease_epoch attempts error0 retry_at0 now =
     rbind (read_record c read i) (\<lambda>found. case found of
        None \<Rightarrow> rejected c ''task not found''
      | Some record \<Rightarrow>
          if \<not> ack_matches record node_id lease_epoch
          then rejected c ''stale ack ignored''
          else
            (let (err, retry_at) =
                   (if tr_committed record \<and> 0 < retry_at0
                    then (error0 @ retry_suppressed_note, 0) else (error0, retry_at0));
                 assigned_key = assigned_idx_key node_id i;
                 record1 = record\<lparr>tr_attempts := attempts, tr_error := Some err,
                   tr_assigned_node_id := None, tr_lease_epoch := None, tr_updated_at := now\<rparr>;
                 (record', idx) =
                   (if 0 < retry_at
                    then (record1\<lparr>tr_status := Queued, tr_run_at := retry_at\<rparr>,
                          mut_put (queued_idx_key retry_at i) i)
                    else (record1\<lparr>tr_status := Failed, tr_completed_at := now\<rparr>,
                          mut_put (terminal_idx_key now i) i))
             in rbind (encode_record c record') (\<lambda>raw.
                Inr ([mut_put (rec_key i) raw, mut_del assigned_key, idx],
                     into_response c op_result_ok))))"

definition requeue_refused_note :: string where
  "requeue_refused_note =
     ''requeue refused: task passed its commit point on a lost worker; side effect may have executed '' @
     em_dash @ '' needs reconciliation''"

definition apply_requeue :: "codec \<Rightarrow> state_read \<Rightarrow> string \<Rightarrow> applied" where
  "apply_requeue c read i =
     rbind (read_record c read i) (\<lambda>found. case found of
        None \<Rightarrow> rejected c ''task not found''
      | Some record \<Rightarrow>
          if tr_status record \<notin> {Assigned, Running}
          then rejected c (''task is '' @ as_str (tr_status record) @ '', not assigned/running'')
          else
            (let dels = (case tr_assigned_node_id record of None \<Rightarrow> []
                   | Some node \<Rightarrow> [mut_del (assigned_idx_key node i)]);
                 record1 = record\<lparr>tr_assigned_node_id := None, tr_lease_epoch := None\<rparr>
             in if tr_committed record1
                then
                  (let now = max (tr_updated_at record1) (tr_created_at record1);
                       record' = record1\<lparr>tr_status := Failed, tr_completed_at := now,
                         tr_error := Some requeue_refused_note\<rparr>
                   in rbind (encode_record c record') (\<lambda>raw.
                      Inr (mut_put (rec_key i) raw # dels @ [mut_put (terminal_idx_key now i) i],
                           into_response c \<lparr>op_ok = True, op_id = Some i, op_deduplicated = None,
                             op_record = None,
                             op_reason = Some ''committed task failed terminally instead of requeued''\<rparr>)))
                else
                  (let record' = record1\<lparr>tr_status := Queued\<rparr>
                   in rbind (encode_record c record') (\<lambda>raw.
                      Inr (mut_put (rec_key i) raw # dels @
                             [mut_put (queued_idx_key (tr_run_at record') i) i],
                           into_response c op_result_ok)))))"

definition replay_refused_note :: string where
  "replay_refused_note =
     ''replay refused: task passed its commit point; side effect may have executed '' @ em_dash @
     '' needs reconciliation''"

definition apply_replay :: "codec \<Rightarrow> state_read \<Rightarrow> string \<Rightarrow> u64 \<Rightarrow> applied" where
  "apply_replay c read i now =
     rbind (read_record c read i) (\<lambda>found. case found of
        None \<Rightarrow> rejected c ''task not found''
      | Some record \<Rightarrow>
          if tr_status record \<noteq> Failed
          then rejected c (''task is '' @ as_str (tr_status record) @ '', not failed'')
          else if tr_committed record then rejected c replay_refused_note
          else
            (let terminal_key = terminal_idx_key (tr_completed_at record) i;
                 record' = record\<lparr>tr_status := Queued, tr_attempts := 0, tr_run_at := now,
                   tr_error := None, tr_updated_at := now, tr_completed_at := 0\<rparr>
             in rbind (encode_record c record') (\<lambda>raw.
                Inr ([mut_put (rec_key i) raw, mut_del terminal_key,
                      mut_put (queued_idx_key now i) i],
                     into_response c \<lparr>op_ok = True, op_id = Some i, op_deduplicated = None,
                       op_record = None, op_reason = None\<rparr>))))"

fun vacuum_loop ::
  "codec \<Rightarrow> state_read \<Rightarrow> string list \<Rightarrow> kv_mutation list \<Rightarrow> nat \<Rightarrow> (kv_mutation list \<times> nat) result" where
  "vacuum_loop c read [] muts removed = Inr (muts, removed)"
| "vacuum_loop c read (i # is) muts removed =
     rbind (read_record c read i) (\<lambda>found. case found of
        None \<Rightarrow> vacuum_loop c read is muts removed
      | Some record \<Rightarrow>
          if tr_status record \<notin> {Done, Failed} then vacuum_loop c read is muts removed
          else vacuum_loop c read is
                 (muts @ [mut_del (rec_key i), mut_del (terminal_idx_key (tr_completed_at record) i)] @
                  (case tr_idem_key record of None \<Rightarrow> []
                   | Some idem \<Rightarrow> [mut_del (idem_record_key idem)]))
                 (removed + 1))"

definition apply_vacuum :: "codec \<Rightarrow> state_read \<Rightarrow> string list \<Rightarrow> applied" where
  "apply_vacuum c read is =
     rbind (vacuum_loop c read is [] 0) (\<lambda>(muts, removed).
        Inr (muts, into_response c \<lparr>op_ok = True, op_id = None, op_deduplicated = None,
          op_record = None, op_reason = Some (''vacuumed '' @ show_nat removed)\<rparr>))"

definition apply_worker_lease :: "codec \<Rightarrow> string \<Rightarrow> string \<Rightarrow> u64 \<Rightarrow> u64 \<Rightarrow> applied" where
  "apply_worker_lease c node_id worker_name lease_epoch expires_at =
     (let record = \<lparr>wl_node_id = node_id, wl_worker_name = worker_name,
            wl_lease_epoch = lease_epoch, wl_expires_at = expires_at\<rparr>
      in rbind (case enc_lease c record of
           Inl err \<Rightarrow> Inl (''encode worker lease: '' @ err) | Inr s \<Rightarrow> Inr s)
         (\<lambda>v. Inr ([mut_put (worker_key node_id) v], into_response c op_result_ok)))"

fun apply_task_command :: "codec \<Rightarrow> state_read \<Rightarrow> task_request \<Rightarrow> applied" where
  "apply_task_command c read (TaskEnqueue i payload run_at idem_key created_at) =
     apply_enqueue c read i payload run_at idem_key created_at"
| "apply_task_command c read (TaskAssign i node_id lease_epoch now) =
     apply_assign c read i node_id lease_epoch now"
| "apply_task_command c read (TaskClaim i node_id lease_epoch now) =
     apply_claim c read i node_id lease_epoch now"
| "apply_task_command c read (TaskMarkCommitted i node_id lease_epoch now) =
     apply_mark_committed c read i node_id lease_epoch now"
| "apply_task_command c read (TaskDone i node_id lease_epoch attempts now result_v) =
     apply_done c read i node_id lease_epoch attempts now result_v"
| "apply_task_command c read (TaskFail i node_id lease_epoch attempts err retry_at now) =
     apply_fail c read i node_id lease_epoch attempts err retry_at now"
| "apply_task_command c read (TaskRequeue i) = apply_requeue c read i"
| "apply_task_command c read (TaskReplay i now) = apply_replay c read i now"
| "apply_task_command c read (TaskVacuum is) = apply_vacuum c read is"
| "apply_task_command c read (WorkerLease node_id worker_name lease_epoch expires_at) =
     apply_worker_lease c node_id worker_name lease_epoch expires_at"

end
