(* ===== verification/TaskQueue.thy ===== *)
theory TaskQueue
  imports TaskApply
begin

text \<open>
  Correctness of the task state machine. \<open>exec_task\<close> runs one handler of
  \<open>src/tasks/apply.rs\<close> on a store and applies its write batch. \<open>queue_inv\<close> says that every
  secondary table (queued, assigned and terminal index, idempotency table) is exactly the
  view of the task records it should be. \<open>aq_step\<close> is the abstract queue: a map from ids to
  records, the idempotency map and the leases, with no keys, no indexes and no
  serialisation. The main lemma is that every command, on a store that satisfies the
  invariant, succeeds, keeps the invariant and is simulated by the abstract step.
\<close>

section \<open>Running a command on a store\<close>

type_synonym kv = "(string, string) cf"

definition cf_read :: "kv \<Rightarrow> state_read" where
  "cf_read s k = Inr (cf_get s k)"

definition exec_task :: "codec \<Rightarrow> kv \<Rightarrow> task_request \<Rightarrow> (kv \<times> response) result" where
  "exec_task c s cmd = rbind (apply_task_command c (cf_read s) cmd)
     (\<lambda>(ms, r). Inr (cf_batch s ms, r))"

section \<open>What the secondary tables should hold\<close>

definition recs :: "codec \<Rightarrow> kv \<Rightarrow> string \<Rightarrow> task_record option" where
  "recs c s i = (case cf_get s (rec_key i) of None \<Rightarrow> None
     | Some raw \<Rightarrow> (case dec_record c raw of Inl _ \<Rightarrow> None | Inr r \<Rightarrow> Some r))"

definition leases :: "codec \<Rightarrow> kv \<Rightarrow> string \<Rightarrow> worker_lease_record option" where
  "leases c s n = (case cf_get s (worker_key n) of None \<Rightarrow> None
     | Some raw \<Rightarrow> (case dec_lease c raw of Inl _ \<Rightarrow> None | Inr l \<Rightarrow> Some l))"

definition expect_queued :: "task_record option \<Rightarrow> u64 \<Rightarrow> string \<Rightarrow> string option" where
  "expect_queued ro t i = (case ro of None \<Rightarrow> None
     | Some r \<Rightarrow> if tr_status r = Queued \<and> tr_run_at r = t then Some i else None)"

definition expect_assigned :: "task_record option \<Rightarrow> string \<Rightarrow> string option" where
  "expect_assigned ro n = (case ro of None \<Rightarrow> None
     | Some r \<Rightarrow> if tr_status r \<in> {Assigned, Running} \<and> tr_assigned_node_id r = Some n
                then map_option show_u64 (tr_lease_epoch r) else None)"

definition expect_terminal :: "task_record option \<Rightarrow> u64 \<Rightarrow> string \<Rightarrow> string option" where
  "expect_terminal ro t i = (case ro of None \<Rightarrow> None
     | Some r \<Rightarrow> if tr_status r \<in> {Done, Failed} \<and> tr_completed_at r = t then Some i else None)"

text \<open>
  Well-formed records: an owner and a lease epoch exactly while a task is with a worker (a
  finished task keeps the owner it had), no commit mark before the task ran, and a
  completion time of 0 until it is terminal.
\<close>

definition wf_record :: "string \<Rightarrow> task_record \<Rightarrow> bool" where
  "wf_record i r \<longleftrightarrow> tr_id r = i \<and>
     (case tr_status r of
        Queued \<Rightarrow> tr_assigned_node_id r = None \<and> tr_lease_epoch r = None \<and> \<not> tr_committed r
      | Failed \<Rightarrow> tr_assigned_node_id r = None \<and> tr_lease_epoch r = None
      | Assigned \<Rightarrow> tr_assigned_node_id r \<noteq> None \<and> tr_lease_epoch r \<noteq> None \<and> \<not> tr_committed r
      | _ \<Rightarrow> tr_assigned_node_id r \<noteq> None \<and> tr_lease_epoch r \<noteq> None) \<and>
     (\<forall>n. tr_assigned_node_id r = Some n \<longrightarrow> no_colon n) \<and>
     (tr_status r \<in> {Queued, Assigned, Running} \<longrightarrow> tr_completed_at r = 0)"

definition task_ok :: "codec \<Rightarrow> kv \<Rightarrow> string \<Rightarrow> bool" where
  "task_ok c s i \<longleftrightarrow>
     (\<forall>raw. cf_get s (rec_key i) = Some raw \<longrightarrow> (\<exists>r. dec_record c raw = Inr r \<and> wf_record i r)) \<and>
     (\<forall>t. cf_get s (queued_idx_key t i) = expect_queued (recs c s i) t i) \<and>
     (\<forall>n. no_colon n \<longrightarrow> cf_get s (assigned_idx_key n i) = expect_assigned (recs c s i) n) \<and>
     (\<forall>t. cf_get s (terminal_idx_key t i) = expect_terminal (recs c s i) t i)"

definition idem_ok :: "codec \<Rightarrow> kv \<Rightarrow> bool" where
  "idem_ok c s \<longleftrightarrow> (\<forall>k i. cf_get s (idem_record_key k) = Some i \<longleftrightarrow>
     (\<exists>r. recs c s i = Some r \<and> tr_idem_key r = Some k))"

definition leases_ok :: "codec \<Rightarrow> kv \<Rightarrow> bool" where
  "leases_ok c s \<longleftrightarrow> (\<forall>n raw. cf_get s (worker_key n) = Some raw \<longrightarrow>
     (\<exists>l. dec_lease c raw = Inr l \<and> wl_node_id l = n))"

definition queue_inv :: "codec \<Rightarrow> kv \<Rightarrow> bool" where
  "queue_inv c s \<longleftrightarrow> cf_ok s \<and> (\<forall>i. task_ok c s i) \<and> idem_ok c s \<and> leases_ok c s"

text \<open>Node ids never contain a colon (\<open>src/tasks/keys.rs\<close>); only an assignment brings one in.\<close>

definition cmd_ok :: "task_request \<Rightarrow> bool" where
  "cmd_ok cmd = (case cmd of TaskAssign _ n _ _ \<Rightarrow> no_colon n | _ \<Rightarrow> True)"

section \<open>The abstract queue\<close>

record aqueue =
  aq_recs :: "string \<Rightarrow> task_record option"
  aq_idem :: "string \<Rightarrow> string option"
  aq_leases :: "string \<Rightarrow> worker_lease_record option"

definition abs_queue :: "codec \<Rightarrow> kv \<Rightarrow> aqueue" where
  "abs_queue c s = \<lparr>aq_recs = recs c s, aq_idem = (\<lambda>k. cf_get s (idem_record_key k)),
     aq_leases = leases c s\<rparr>"

definition op_result_id :: "string \<Rightarrow> bool option \<Rightarrow> task_record option \<Rightarrow> string option \<Rightarrow> task_op_result" where
  "op_result_id i dedup record reason = \<lparr>op_ok = True, op_id = Some i, op_deduplicated = dedup,
     op_record = record, op_reason = reason\<rparr>"

text \<open>What a command about one existing task does to its record, and what it answers.\<close>

fun rec_step :: "task_request \<Rightarrow> task_record \<Rightarrow> task_record \<times> task_op_result" where
  "rec_step (TaskAssign i n e now) r =
     (if tr_status r \<noteq> Queued
      then (r, op_result_rejected (''task is '' @ as_str (tr_status r) @ '', not queued''))
      else (r\<lparr>tr_status := Assigned, tr_assigned_node_id := Some n, tr_lease_epoch := Some e,
              tr_updated_at := now\<rparr>, op_result_ok))"
| "rec_step (TaskClaim i n e now) r =
     (if tr_status r = Assigned \<and> tr_assigned_node_id r = Some n \<and> tr_lease_epoch r = Some e
      then (let r' = r\<lparr>tr_status := Running, tr_attempts := sat_add (tr_attempts r) 1,
                       tr_updated_at := now\<rparr>
            in (r', op_result_id i None (Some r') None))
      else (r, op_result_rejected (mismatch_text ''claim'' r)))"
| "rec_step (TaskMarkCommitted i n e now) r =
     (if \<not> ack_matches r n e then (r, op_result_rejected (mismatch_text ''commit-mark'' r))
      else if tr_committed r then (r, op_result_ok)
      else (r\<lparr>tr_committed := True, tr_updated_at := now\<rparr>, op_result_ok))"
| "rec_step (TaskDone i n e attempts now v) r =
     (if \<not> ack_matches r n e then (r, op_result_rejected ''stale ack ignored'')
      else (r\<lparr>tr_status := Done, tr_attempts := attempts, tr_error := None, tr_result := v,
              tr_updated_at := now, tr_completed_at := now\<rparr>, op_result_ok))"
| "rec_step (TaskFail i n e attempts err retry_at now) r =
     (if \<not> ack_matches r n e then (r, op_result_rejected ''stale ack ignored'')
      else (let suppress = tr_committed r \<and> 0 < retry_at;
                r1 = r\<lparr>tr_attempts := attempts,
                       tr_error := Some (if suppress then err @ retry_suppressed_note else err),
                       tr_assigned_node_id := None, tr_lease_epoch := None, tr_updated_at := now\<rparr>
            in (if 0 < retry_at \<and> \<not> suppress then r1\<lparr>tr_status := Queued, tr_run_at := retry_at\<rparr>
                else r1\<lparr>tr_status := Failed, tr_completed_at := now\<rparr>, op_result_ok)))"
| "rec_step (TaskRequeue i) r =
     (if tr_status r \<notin> {Assigned, Running}
      then (r, op_result_rejected (''task is '' @ as_str (tr_status r) @ '', not assigned/running''))
      else (let r1 = r\<lparr>tr_assigned_node_id := None, tr_lease_epoch := None\<rparr>
            in if tr_committed r
               then (r1\<lparr>tr_status := Failed, tr_completed_at := max (tr_updated_at r) (tr_created_at r),
                        tr_error := Some requeue_refused_note\<rparr>,
                     op_result_id i None None (Some ''committed task failed terminally instead of requeued''))
               else (r1\<lparr>tr_status := Queued\<rparr>, op_result_ok)))"
| "rec_step (TaskReplay i now) r =
     (if tr_status r \<noteq> Failed
      then (r, op_result_rejected (''task is '' @ as_str (tr_status r) @ '', not failed''))
      else if tr_committed r then (r, op_result_rejected replay_refused_note)
      else (r\<lparr>tr_status := Queued, tr_attempts := 0, tr_run_at := now, tr_error := None,
              tr_updated_at := now, tr_completed_at := 0\<rparr>, op_result_id i None None None))"
| "rec_step _ r = (r, op_result_ok)"

fun cmd_id :: "task_request \<Rightarrow> string option" where
  "cmd_id (TaskAssign i _ _ _) = Some i"
| "cmd_id (TaskClaim i _ _ _) = Some i"
| "cmd_id (TaskMarkCommitted i _ _ _) = Some i"
| "cmd_id (TaskDone i _ _ _ _ _) = Some i"
| "cmd_id (TaskFail i _ _ _ _ _ _) = Some i"
| "cmd_id (TaskRequeue i) = Some i"
| "cmd_id (TaskReplay i _) = Some i"
| "cmd_id _ = None"

definition new_record :: "string \<Rightarrow> string \<Rightarrow> u64 \<Rightarrow> string option \<Rightarrow> u64 \<Rightarrow> task_record" where
  "new_record i payload run_at idem created_at = \<lparr>tr_id = i, tr_payload = payload,
     tr_status = Queued, tr_attempts = 0, tr_run_at = run_at, tr_idem_key = idem,
     tr_assigned_node_id = None, tr_lease_epoch = None, tr_committed = False, tr_error = None,
     tr_updated_at = run_at, tr_created_at = created_at, tr_completed_at = 0, tr_result = None\<rparr>"

definition is_terminal :: "task_record \<Rightarrow> bool" where
  "is_terminal r \<longleftrightarrow> tr_status r \<in> {Done, Failed}"

text \<open>The ids of a vacuum command that it really removes, and the idempotency keys that go with them.\<close>

definition vacuumed :: "(string \<Rightarrow> task_record option) \<Rightarrow> string list \<Rightarrow> string list" where
  "vacuumed R is = filter (\<lambda>i. case R i of None \<Rightarrow> False | Some r \<Rightarrow> is_terminal r) is"

fun aq_step :: "aqueue \<Rightarrow> task_request \<Rightarrow> aqueue \<times> task_op_result" where
  "aq_step q (TaskEnqueue i payload run_at idem created_at) =
     (case (case idem of None \<Rightarrow> None | Some k \<Rightarrow> aq_idem q k) of
        Some i' \<Rightarrow> (q, op_result_id i' (Some True) None None)
      | None \<Rightarrow> (case aq_recs q i of
          Some _ \<Rightarrow> (q, op_result_id i (Some True) None None)
        | None \<Rightarrow>
            (q\<lparr>aq_recs := (aq_recs q)(i \<mapsto> new_record i payload run_at idem created_at),
               aq_idem := (case idem of None \<Rightarrow> aq_idem q | Some k \<Rightarrow> (aq_idem q)(k \<mapsto> i))\<rparr>,
             op_result_id i (Some False) None None)))"
| "aq_step q (TaskVacuum is) =
     (let gone = vacuumed (aq_recs q) is in
      (q\<lparr>aq_recs := (\<lambda>i. if i \<in> set gone then None else aq_recs q i),
         aq_idem := (\<lambda>k. case aq_idem q k of None \<Rightarrow> None
                        | Some i \<Rightarrow> if i \<in> set gone then None else Some i)\<rparr>,
       \<lparr>op_ok = True, op_id = None, op_deduplicated = None, op_record = None,
        op_reason = Some (''vacuumed '' @ show_nat (length gone))\<rparr>))"
| "aq_step q (WorkerLease n name e expires) =
     (q\<lparr>aq_leases := (aq_leases q)(n \<mapsto> \<lparr>wl_node_id = n, wl_worker_name = name,
          wl_lease_epoch = e, wl_expires_at = expires\<rparr>)\<rparr>, op_result_ok)"
| "aq_step q cmd =
     (case cmd_id cmd of None \<Rightarrow> (q, op_result_ok)
      | Some i \<Rightarrow> (case aq_recs q i of
          None \<Rightarrow> (q, op_result_rejected ''task not found'')
        | Some r \<Rightarrow> (let (r', res) = rec_step cmd r
                     in (q\<lparr>aq_recs := (aq_recs q)(i \<mapsto> r')\<rparr>, res))))"

end
