(* ===== verification/TaskRefinement.thy ===== *)
theory TaskRefinement
  imports TaskQueue
begin

text \<open>
  The handlers of \<open>src/tasks/apply.rs\<close> implement the abstract queue of \<open>TaskQueue\<close>: on a
  store that satisfies \<open>queue_inv\<close> every command succeeds, keeps the invariant and commutes
  with \<open>aq_step\<close>. One lemma per kind of write (a record updated in place, a record created,
  records deleted, a lease stored) carries all handlers.
\<close>

section \<open>Writes that touch the keys of one task\<close>

definition task_keys :: "string \<Rightarrow> string set" where
  "task_keys i = {rec_key i} \<union> {queued_idx_key t i | t. True} \<union>
     {assigned_idx_key n i | n. no_colon n} \<union> {terminal_idx_key t i | t. True}"

lemma task_keys_other:
  "j \<noteq> i \<Longrightarrow> rec_key j \<notin> task_keys i"
  "j \<noteq> i \<Longrightarrow> queued_idx_key t j \<notin> task_keys i"
  "j \<noteq> i \<Longrightarrow> no_colon n \<Longrightarrow> assigned_idx_key n j \<notin> task_keys i"
  "j \<noteq> i \<Longrightarrow> terminal_idx_key t j \<notin> task_keys i"
  "idem_record_key k \<notin> task_keys i" "worker_key n \<notin> task_keys i"
  by (auto simp: task_keys_def key_simps)

lemma mut_keys [simp]:
  "fst (mut_put k v) = k" "fst (mut_del k) = k" "snd (mut_put k v) = Some v" "snd (mut_del k) = None"
  by (simp_all add: mut_put_def mut_del_def)

lemma cf_get_muts [simp]:
  "cf_get (cf_write m (mut_put k v)) = (cf_get m)(k \<mapsto> v)"
  "cf_get (cf_write m (mut_del k)) = (cf_get m)(k := None)"
  by (simp_all add: mut_put_def mut_del_def cf_get_write)

lemma mem_task_keys [simp]:
  "rec_key i \<in> task_keys i" "queued_idx_key t i \<in> task_keys i" "terminal_idx_key t i \<in> task_keys i"
  "no_colon n \<Longrightarrow> assigned_idx_key n i \<in> task_keys i"
  by (auto simp: task_keys_def)

lemma recs_cong: "cf_get s (rec_key i) = cf_get s' (rec_key i) \<Longrightarrow> recs c s i = recs c s' i"
  by (simp add: recs_def)

lemma queue_invD:
  assumes "queue_inv c s"
  shows "cf_ok s" "task_ok c s i" "idem_ok c s" "leases_ok c s"
  using assms by (simp_all add: queue_inv_def)

lemma queue_inv_index:
  assumes "queue_inv c s"
  shows "cf_get s (queued_idx_key t i) = expect_queued (recs c s i) t i"
    and "no_colon n \<Longrightarrow> cf_get s (assigned_idx_key n i) = expect_assigned (recs c s i) n"
    and "cf_get s (terminal_idx_key t i) = expect_terminal (recs c s i) t i"
  using queue_invD(2)[OF assms, of i] by (simp_all add: task_ok_def)

lemma queue_inv_wf: "queue_inv c s \<Longrightarrow> recs c s i = Some r \<Longrightarrow> wf_record i r"
  using queue_invD(2)[of c s i] by (fastforce simp: task_ok_def recs_def split: option.splits)

lemma read_record_inv: "queue_inv c s \<Longrightarrow> read_record c (cf_read s) i = Inr (recs c s i)"
  using queue_invD(2)[of c s i]
  by (fastforce simp: task_ok_def read_record_def cf_read_def recs_def split: option.splits)

definition abs_upd :: "aqueue \<Rightarrow> string \<Rightarrow> task_record \<Rightarrow> aqueue" where
  "abs_upd q i r = q\<lparr>aq_recs := (aq_recs q)(i \<mapsto> r)\<rparr>"

text \<open>A batch that writes only keys of task \<open>i\<close> and leaves them as the new record demands.\<close>

lemma update_record:
  assumes inv: "queue_inv c s" and old: "recs c s i = Some r"
    and touch: "fst ` set ms \<subseteq> task_keys i"
    and raw: "cf_get (cf_batch s ms) (rec_key i) = Some raw" and dec: "dec_record c raw = Inr r'"
    and wf: "wf_record i r'" and idem: "tr_idem_key r' = tr_idem_key r"
    and q: "\<And>t. cf_get (cf_batch s ms) (queued_idx_key t i) = expect_queued (Some r') t i"
    and a: "\<And>n. no_colon n \<Longrightarrow> cf_get (cf_batch s ms) (assigned_idx_key n i) = expect_assigned (Some r') n"
    and t: "\<And>t. cf_get (cf_batch s ms) (terminal_idx_key t i) = expect_terminal (Some r') t i"
  shows "queue_inv c (cf_batch s ms) \<and> abs_queue c (cf_batch s ms) = abs_upd (abs_queue c s) i r'"
proof -
  let ?s = "cf_batch s ms"
  have same: "k \<notin> task_keys i \<Longrightarrow> cf_get ?s k = cf_get s k" for k
    using touch cf_batch_untouched by blast
  have new: "recs c ?s i = Some r'" using raw dec by (simp add: recs_def)
  have other: "j \<noteq> i \<Longrightarrow> recs c ?s j = recs c s j" for j
    by (rule recs_cong) (simp add: same task_keys_other)
  have recs_eq: "recs c ?s = (recs c s)(i \<mapsto> r')" using new other by auto
  have "task_ok c ?s j" for j
  proof (cases "j = i")
    case True
    then show ?thesis using raw dec wf q a t by (simp add: task_ok_def new)
  next
    case False
    then show ?thesis using queue_invD(2)[OF inv, of j]
      by (simp add: task_ok_def same task_keys_other other)
  qed
  moreover have "idem_ok c ?s"
    using queue_invD(3)[OF inv] old idem
    by (auto simp: idem_ok_def same task_keys_other recs_eq split: if_splits)
  moreover have "leases_ok c ?s"
    using queue_invD(4)[OF inv] by (simp add: leases_ok_def same task_keys_other)
  moreover have "cf_ok ?s" using queue_invD(1)[OF inv] by (rule cf_ok_batch)
  moreover have "leases c ?s = leases c s"
    by (simp add: leases_def fun_eq_iff same task_keys_other)
  ultimately show ?thesis
    by (simp add: queue_inv_def abs_queue_def abs_upd_def recs_eq same task_keys_other)
qed


section \<open>Each handler simulates the abstract step\<close>

definition simulates :: "codec \<Rightarrow> kv \<Rightarrow> task_request \<Rightarrow> bool" where
  "simulates c s cmd \<longleftrightarrow> (\<exists>s'. exec_task c s cmd =
       Inr (s', into_response c (snd (aq_step (abs_queue c s) cmd))) \<and> queue_inv c s' \<and>
       abs_queue c s' = fst (aq_step (abs_queue c s) cmd))"

lemma aq_recs_abs [simp]: "aq_recs (abs_queue c s) = recs c s"
  by (simp add: abs_queue_def)

lemma abs_upd_same: "recs c s i = Some r \<Longrightarrow> abs_upd (abs_queue c s) i r = abs_queue c s"
  by (simp add: abs_upd_def abs_queue_def fun_upd_idem)

lemma simulates_read:
  assumes "queue_inv c s"
    and "exec_task c s cmd = Inr (s, into_response c (snd (aq_step (abs_queue c s) cmd)))"
    and "fst (aq_step (abs_queue c s) cmd) = abs_queue c s"
  shows "simulates c s cmd"
  using assms by (auto simp: simulates_def)

lemma simulates_update:
  assumes inv: "queue_inv c s" and r: "recs c s i = Some r"
    and exec: "apply_task_command c (cf_read s) cmd = Inr (ms, into_response c res)"
    and spec: "aq_step (abs_queue c s) cmd = (abs_upd (abs_queue c s) i r', res)"
    and upd: "queue_inv c (cf_batch s ms) \<and> abs_queue c (cf_batch s ms) = abs_upd (abs_queue c s) i r'"
  shows "simulates c s cmd"
  using assms by (auto simp: simulates_def exec_task_def)

lemma encode_recordE:
  assumes "codec_ok c"
  obtains raw where "encode_record c r = Inr raw" "dec_record c raw = Inr r"
proof -
  obtain raw where "enc_record c r = Inr raw" "dec_record c raw = Inr r"
    using assms by (rule codec_recordE)
  then show thesis by (intro that) (simp_all add: encode_record_def)
qed

lemmas expect_defs = expect_queued_def expect_assigned_def expect_terminal_def
lemmas handler_simps = read_record_inv rejected_def exec_task_def queue_inv_index
  expect_defs key_simps

lemma simulates_missing:
  assumes inv: "queue_inv c s" and "cmd_id cmd = Some i" "recs c s i = None"
  shows "simulates c s cmd"
  using assms
  by (intro simulates_read[OF inv]; cases cmd)
     (simp_all add: handler_simps apply_assign_def apply_claim_def apply_mark_committed_def
       apply_done_def apply_fail_def apply_requeue_def apply_replay_def)

lemma sim_assign:
  assumes codec: "codec_ok c" and inv: "queue_inv c s" and found: "recs c s i = Some r"
    and nc: "no_colon n"
  shows "simulates c s (TaskAssign i n e now)"
proof (cases "tr_status r = Queued")
  case False
  then show ?thesis using inv found
    by (intro simulates_read) (simp_all add: handler_simps apply_assign_def abs_queue_def fun_upd_idem)
next
  case True
  let ?r = "r\<lparr>tr_status := Assigned, tr_assigned_node_id := Some n, tr_lease_epoch := Some e,
              tr_updated_at := now\<rparr>"
  obtain raw where raw: "encode_record c ?r = Inr raw" "dec_record c raw = Inr ?r"
    using codec by (rule encode_recordE)
  let ?ms = "[mut_put (rec_key i) raw, mut_del (queued_idx_key (tr_run_at r) i),
              mut_put (assigned_idx_key n i) (show_u64 e)]"
  have wf': "wf_record i ?r"
    using queue_inv_wf[OF inv found] True nc by (simp add: wf_record_def)
  have "queue_inv c (cf_batch s ?ms) \<and> abs_queue c (cf_batch s ?ms) = abs_upd (abs_queue c s) i ?r"
    by (rule update_record[OF inv found _ _ raw(2) wf'])
       (use True nc inv found in \<open>auto simp: handler_simps\<close>)
  moreover have "apply_task_command c (cf_read s) (TaskAssign i n e now) =
      Inr (?ms, into_response c op_result_ok)"
    using True raw inv found by (simp add: handler_simps apply_assign_def)
  moreover have "aq_step (abs_queue c s) (TaskAssign i n e now) =
      (abs_upd (abs_queue c s) i ?r, op_result_ok)"
    using True found by (simp add: abs_upd_def)
  ultimately show ?thesis using simulates_update[OF inv found] by blast
qed

lemma sim_claim:
  assumes codec: "codec_ok c" and inv: "queue_inv c s" and found: "recs c s i = Some r"
  shows "simulates c s (TaskClaim i n e now)"
proof (cases "tr_status r = Assigned \<and> tr_assigned_node_id r = Some n \<and> tr_lease_epoch r = Some e")
  case False
  then show ?thesis using inv found
    by (intro simulates_read) (auto simp: handler_simps apply_claim_def abs_queue_def fun_upd_idem)
next
  case True
  let ?r = "r\<lparr>tr_status := Running, tr_attempts := sat_add (tr_attempts r) 1, tr_updated_at := now\<rparr>"
  obtain raw where raw: "encode_record c ?r = Inr raw" "dec_record c raw = Inr ?r"
    using codec by (rule encode_recordE)
  let ?ms = "[mut_put (rec_key i) raw]"
  have wf': "wf_record i ?r"
    using queue_inv_wf[OF inv found] True by (simp add: wf_record_def)
  have "queue_inv c (cf_batch s ?ms) \<and> abs_queue c (cf_batch s ?ms) = abs_upd (abs_queue c s) i ?r"
    by (rule update_record[OF inv found _ _ raw(2) wf'])
       (use True inv found in \<open>auto simp: handler_simps\<close>)
  moreover have "apply_task_command c (cf_read s) (TaskClaim i n e now) =
      Inr (?ms, into_response c (op_result_id i None (Some ?r) None))"
    using True raw inv found by (simp add: handler_simps apply_claim_def op_result_id_def)
  moreover have "aq_step (abs_queue c s) (TaskClaim i n e now) =
      (abs_upd (abs_queue c s) i ?r, op_result_id i None (Some ?r) None)"
    using True found by (simp add: abs_upd_def Let_def)
  ultimately show ?thesis using simulates_update[OF inv found] by blast
qed

lemma sim_mark_committed:
  assumes codec: "codec_ok c" and inv: "queue_inv c s" and found: "recs c s i = Some r"
  shows "simulates c s (TaskMarkCommitted i n e now)"
proof (cases "ack_matches r n e \<and> \<not> tr_committed r")
  case False
  then show ?thesis using inv found
    by (intro simulates_read)
       (auto simp: handler_simps apply_mark_committed_def abs_queue_def fun_upd_idem)
next
  case True
  let ?r = "r\<lparr>tr_committed := True, tr_updated_at := now\<rparr>"
  obtain raw where raw: "encode_record c ?r = Inr raw" "dec_record c raw = Inr ?r"
    using codec by (rule encode_recordE)
  let ?ms = "[mut_put (rec_key i) raw]"
  have wf': "wf_record i ?r"
    using queue_inv_wf[OF inv found] True by (simp add: wf_record_def ack_matches_def)
  have "queue_inv c (cf_batch s ?ms) \<and> abs_queue c (cf_batch s ?ms) = abs_upd (abs_queue c s) i ?r"
    by (rule update_record[OF inv found _ _ raw(2) wf'])
       (use True inv found in \<open>auto simp: handler_simps ack_matches_def\<close>)
  moreover have "apply_task_command c (cf_read s) (TaskMarkCommitted i n e now) =
      Inr (?ms, into_response c op_result_ok)"
    using True raw inv found by (simp add: handler_simps apply_mark_committed_def)
  moreover have "aq_step (abs_queue c s) (TaskMarkCommitted i n e now) =
      (abs_upd (abs_queue c s) i ?r, op_result_ok)"
    using True found by (simp add: abs_upd_def)
  ultimately show ?thesis using simulates_update[OF inv found] by blast
qed

lemma ack_matches_no_colon: "queue_inv c s \<Longrightarrow> recs c s i = Some r \<Longrightarrow> ack_matches r n e \<Longrightarrow> no_colon n"
  using queue_inv_wf[of c s i r] by (auto simp: wf_record_def ack_matches_def)

lemma sim_done:
  assumes codec: "codec_ok c" and inv: "queue_inv c s" and found: "recs c s i = Some r"
  shows "simulates c s (TaskDone i n e attempts now v)"
proof (cases "ack_matches r n e")
  case False
  then show ?thesis using inv found
    by (intro simulates_read) (auto simp: handler_simps apply_done_def abs_queue_def fun_upd_idem)
next
  case True
  let ?r = "r\<lparr>tr_status := Done, tr_attempts := attempts, tr_error := None, tr_result := v,
              tr_updated_at := now, tr_completed_at := now\<rparr>"
  obtain raw where raw: "encode_record c ?r = Inr raw" "dec_record c raw = Inr ?r"
    using codec by (rule encode_recordE)
  let ?ms = "[mut_put (rec_key i) raw, mut_del (assigned_idx_key n i), mut_put (terminal_idx_key now i) i]"
  have nc: "no_colon n" using inv found True by (rule ack_matches_no_colon)
  have wf': "wf_record i ?r"
    using queue_inv_wf[OF inv found] True by (simp add: wf_record_def ack_matches_def)
  have "queue_inv c (cf_batch s ?ms) \<and> abs_queue c (cf_batch s ?ms) = abs_upd (abs_queue c s) i ?r"
    by (rule update_record[OF inv found _ _ raw(2) wf'])
       (use True inv found nc in \<open>auto simp: handler_simps ack_matches_def\<close>)
  moreover have "apply_task_command c (cf_read s) (TaskDone i n e attempts now v) =
      Inr (?ms, into_response c op_result_ok)"
    using True raw inv found by (simp add: handler_simps apply_done_def)
  moreover have "aq_step (abs_queue c s) (TaskDone i n e attempts now v) =
      (abs_upd (abs_queue c s) i ?r, op_result_ok)"
    using True found by (simp add: abs_upd_def)
  ultimately show ?thesis using simulates_update[OF inv found] by blast
qed

lemma sim_replay:
  assumes codec: "codec_ok c" and inv: "queue_inv c s" and found: "recs c s i = Some r"
  shows "simulates c s (TaskReplay i now)"
proof (cases "tr_status r = Failed \<and> \<not> tr_committed r")
  case False
  then show ?thesis using inv found
    by (intro simulates_read) (auto simp: handler_simps apply_replay_def abs_queue_def fun_upd_idem)
next
  case True
  let ?r = "r\<lparr>tr_status := Queued, tr_attempts := 0, tr_run_at := now, tr_error := None,
              tr_updated_at := now, tr_completed_at := 0\<rparr>"
  obtain raw where raw: "encode_record c ?r = Inr raw" "dec_record c raw = Inr ?r"
    using codec by (rule encode_recordE)
  let ?ms = "[mut_put (rec_key i) raw, mut_del (terminal_idx_key (tr_completed_at r) i),
              mut_put (queued_idx_key now i) i]"
  have wf': "wf_record i ?r"
    using queue_inv_wf[OF inv found] True by (simp add: wf_record_def)
  have "queue_inv c (cf_batch s ?ms) \<and> abs_queue c (cf_batch s ?ms) = abs_upd (abs_queue c s) i ?r"
    by (rule update_record[OF inv found _ _ raw(2) wf'])
       (use True inv found in \<open>auto simp: handler_simps\<close>)
  moreover have "apply_task_command c (cf_read s) (TaskReplay i now) =
      Inr (?ms, into_response c (op_result_id i None None None))"
    using True raw inv found by (simp add: handler_simps apply_replay_def op_result_id_def)
  moreover have "aq_step (abs_queue c s) (TaskReplay i now) =
      (abs_upd (abs_queue c s) i ?r, op_result_id i None None None)"
    using True found by (simp add: abs_upd_def)
  ultimately show ?thesis using simulates_update[OF inv found] by blast
qed

text \<open>
  A failed execution and a requeue both end in one of two places: the queue at a new due
  time or the terminal index. \<open>leave_worker\<close> is that common step.
\<close>

lemma leave_worker:
  assumes inv: "queue_inv c s" and found: "recs c s i = Some r"
    and st: "tr_status r \<in> {Assigned, Running}" "tr_assigned_node_id r = Some n"
    and dec: "dec_record c raw = Inr r'" and same: "tr_id r' = i" "tr_idem_key r' = tr_idem_key r"
      "tr_assigned_node_id r' = None" "tr_lease_epoch r' = None"
    and idx: "(tr_status r' = Queued \<and> \<not> tr_committed r' \<and> tr_completed_at r' = 0 \<and>
               idx = mut_put (queued_idx_key (tr_run_at r') i) i) \<or>
              (tr_status r' = Failed \<and> idx = mut_put (terminal_idx_key (tr_completed_at r') i) i)"
  shows "queue_inv c (cf_batch s [mut_put (rec_key i) raw, mut_del (assigned_idx_key n i), idx]) \<and>
    abs_queue c (cf_batch s [mut_put (rec_key i) raw, mut_del (assigned_idx_key n i), idx]) =
      abs_upd (abs_queue c s) i r'"
proof -
  have nc: "no_colon n" using queue_inv_wf[OF inv found] st by (auto simp: wf_record_def)
  have wf': "wf_record i r'" using same idx by (auto simp: wf_record_def)
  show ?thesis
    by (rule update_record[OF inv found _ _ dec wf'])
       (use st idx same inv found nc in \<open>auto simp: handler_simps\<close>)
qed

lemma sim_fail:
  assumes codec: "codec_ok c" and inv: "queue_inv c s" and found: "recs c s i = Some r"
  shows "simulates c s (TaskFail i n e attempts err retry_at now)"
proof (cases "ack_matches r n e")
  case False
  then show ?thesis using inv found
    by (intro simulates_read) (auto simp: handler_simps apply_fail_def abs_queue_def fun_upd_idem)
next
  case True
  let ?cmd = "TaskFail i n e attempts err retry_at now"
  let ?r = "fst (rec_step ?cmd r)"
  let ?retry = "0 < retry_at \<and> \<not> tr_committed r"
  let ?idx = "if ?retry then mut_put (queued_idx_key retry_at i) i else mut_put (terminal_idx_key now i) i"
  obtain raw where raw: "encode_record c ?r = Inr raw" "dec_record c raw = Inr ?r"
    using codec by (rule encode_recordE)
  let ?ms = "[mut_put (rec_key i) raw, mut_del (assigned_idx_key n i), ?idx]"
  have wf: "wf_record i r" using inv found by (rule queue_inv_wf)
  have "queue_inv c (cf_batch s ?ms) \<and> abs_queue c (cf_batch s ?ms) = abs_upd (abs_queue c s) i ?r"
    by (rule leave_worker[OF inv found _ _ raw(2)])
       (use True wf in \<open>auto simp: ack_matches_def wf_record_def Let_def\<close>)
  moreover have "apply_task_command c (cf_read s) ?cmd = Inr (?ms, into_response c op_result_ok)"
    using True raw inv found
    by (cases "tr_committed r"; cases "0 < retry_at") (simp_all add: handler_simps apply_fail_def Let_def)
  moreover have "aq_step (abs_queue c s) ?cmd = (abs_upd (abs_queue c s) i ?r, op_result_ok)"
    using True found by (simp add: abs_upd_def Let_def)
  ultimately show ?thesis using simulates_update[OF inv found] by blast
qed

lemma sim_requeue:
  assumes codec: "codec_ok c" and inv: "queue_inv c s" and found: "recs c s i = Some r"
  shows "simulates c s (TaskRequeue i)"
proof (cases "tr_status r \<in> {Assigned, Running}")
  case False
  then show ?thesis using inv found
    by (intro simulates_read) (auto simp: handler_simps apply_requeue_def abs_queue_def fun_upd_idem)
next
  case True
  let ?cmd = "TaskRequeue i"
  let ?r = "fst (rec_step ?cmd r)" and ?res = "snd (rec_step ?cmd r)"
  let ?now = "max (tr_updated_at r) (tr_created_at r)"
  let ?idx = "if tr_committed r then mut_put (terminal_idx_key ?now i) i
              else mut_put (queued_idx_key (tr_run_at r) i) i"
  obtain raw where raw: "encode_record c ?r = Inr raw" "dec_record c raw = Inr ?r"
    using codec by (rule encode_recordE)
  have wf: "wf_record i r" using inv found by (rule queue_inv_wf)
  with True obtain n where n: "tr_assigned_node_id r = Some n" by (auto simp: wf_record_def)
  let ?ms = "[mut_put (rec_key i) raw, mut_del (assigned_idx_key n i), ?idx]"
  have "queue_inv c (cf_batch s ?ms) \<and> abs_queue c (cf_batch s ?ms) = abs_upd (abs_queue c s) i ?r"
    by (rule leave_worker[OF inv found True n raw(2)])
       (use True wf in \<open>auto simp: wf_record_def Let_def\<close>)
  moreover have "apply_task_command c (cf_read s) ?cmd = Inr (?ms, into_response c ?res)"
    using True raw inv found n
    by (cases "tr_committed r") (simp_all add: handler_simps apply_requeue_def Let_def op_result_id_def)
  moreover have "aq_step (abs_queue c s) ?cmd = (abs_upd (abs_queue c s) i ?r, ?res)"
    using True found by (simp add: abs_upd_def Let_def)
  ultimately show ?thesis using simulates_update[OF inv found] by blast
qed

text \<open>Creating a record.\<close>

lemma queue_inv_fresh:
  assumes inv: "queue_inv c s" and "recs c s i = None"
  shows "cf_get s (rec_key i) = None" "cf_get s (queued_idx_key t i) = None"
    "no_colon n \<Longrightarrow> cf_get s (assigned_idx_key n i) = None" "cf_get s (terminal_idx_key t i) = None"
    "cf_get s (idem_record_key k) \<noteq> Some i"
proof -
  show "cf_get s (rec_key i) = None"
    using assms queue_invD(2)[OF inv, of i] by (fastforce simp: task_ok_def recs_def split: option.splits)
  show "cf_get s (idem_record_key k) \<noteq> Some i"
    using assms queue_invD(3)[OF inv] by (auto simp: idem_ok_def)
qed (use assms in \<open>simp_all add: queue_inv_index expect_defs\<close>)

lemma create_record:
  assumes inv: "queue_inv c s" and fresh: "recs c s i = None"
    and dec: "dec_record c raw = Inr r" and st: "tr_status r = Queued" and wf: "wf_record i r"
    and idem: "\<And>k. tr_idem_key r = Some k \<Longrightarrow> cf_get s (idem_record_key k) = None"
    and ms: "ms = [mut_put (rec_key i) raw, mut_put (queued_idx_key (tr_run_at r) i) i] @
      (case tr_idem_key r of None \<Rightarrow> [] | Some k \<Rightarrow> [mut_put (idem_record_key k) i])"
  shows "queue_inv c (cf_batch s ms) \<and> abs_queue c (cf_batch s ms) =
    (abs_queue c s)\<lparr>aq_recs := (recs c s)(i \<mapsto> r),
      aq_idem := (case tr_idem_key r of None \<Rightarrow> aq_idem (abs_queue c s)
                  | Some k \<Rightarrow> (aq_idem (abs_queue c s))(k \<mapsto> i))\<rparr>"
proof -
  let ?s = "cf_batch s ms"
  have get: "cf_get ?s k = (if k = rec_key i then Some raw
      else if k = queued_idx_key (tr_run_at r) i then Some i
      else if (\<exists>j. tr_idem_key r = Some j \<and> k = idem_record_key j) then Some i else cf_get s k)" for k
    by (cases "tr_idem_key r") (auto simp: ms key_simps)
  have recs_eq: "recs c ?s = (recs c s)(i \<mapsto> r)"
    using dec by (auto simp: recs_def get key_simps fun_eq_iff)
  have "task_ok c ?s j" for j
  proof (cases "j = i")
    case True
    with st wf dec show ?thesis
      by (auto simp: task_ok_def get key_simps recs_eq expect_defs queue_inv_fresh[OF inv fresh])
  next
    case False
    then show ?thesis using queue_invD(2)[OF inv, of j]
      by (simp add: task_ok_def get key_simps recs_eq)
  qed
  moreover have "idem_ok c ?s"
    unfolding idem_ok_def
  proof (intro allI)
    fix k j
    have old: "cf_get s (idem_record_key k) = Some j \<longleftrightarrow> (\<exists>r. recs c s j = Some r \<and> tr_idem_key r = Some k)"
      using queue_invD(3)[OF inv] by (simp add: idem_ok_def)
    show "cf_get ?s (idem_record_key k) = Some j \<longleftrightarrow> (\<exists>r. recs c ?s j = Some r \<and> tr_idem_key r = Some k)"
    proof (cases "tr_idem_key r = Some k")
      case True
      with idem old show ?thesis by (auto simp: get key_simps recs_eq)
    next
      case False
      with old queue_inv_fresh(5)[OF inv fresh] show ?thesis by (auto simp: get key_simps recs_eq)
    qed
  qed
  moreover have "leases_ok c ?s"
    using queue_invD(4)[OF inv] by (simp add: leases_ok_def get key_simps)
  moreover have "cf_ok ?s" using queue_invD(1)[OF inv] by (rule cf_ok_batch)
  moreover have "leases c ?s = leases c s" by (simp add: leases_def get key_simps fun_eq_iff)
  moreover have "(\<lambda>k. cf_get ?s (idem_record_key k)) =
      (case tr_idem_key r of None \<Rightarrow> (\<lambda>k. cf_get s (idem_record_key k))
       | Some k \<Rightarrow> (\<lambda>k. cf_get s (idem_record_key k))(k \<mapsto> i))"
    by (cases "tr_idem_key r") (auto simp: get key_simps)
  ultimately show ?thesis
    by (cases "tr_idem_key r") (simp_all add: queue_inv_def abs_queue_def recs_eq)
qed

lemma sim_enqueue:
  assumes codec: "codec_ok c" and inv: "queue_inv c s"
  shows "simulates c s (TaskEnqueue i payload run_at idem created_at)"
proof -
  let ?cmd = "TaskEnqueue i payload run_at idem created_at"
  let ?old = "case idem of None \<Rightarrow> None | Some k \<Rightarrow> cf_get s (idem_record_key k)"
  have idem_read: "(case idem of None \<Rightarrow> Inr None | Some k \<Rightarrow> cf_read s (idem_record_key k)) = Inr ?old"
    by (cases idem) (simp_all add: cf_read_def)
  have abs_idem: "(case idem of None \<Rightarrow> None | Some k \<Rightarrow> aq_idem (abs_queue c s) k) = ?old"
    by (cases idem) (simp_all add: abs_queue_def)
  show ?thesis
  proof (cases "?old \<noteq> None \<or> recs c s i \<noteq> None")
    case True
    then show ?thesis using inv
      by (intro simulates_read)
         (auto simp: handler_simps apply_enqueue_def idem_read abs_idem op_result_id_def
           split: option.splits)
  next
    case False
    then have fresh: "recs c s i = None" and old: "?old = None" by auto
    let ?r = "new_record i payload run_at idem created_at"
    obtain raw where raw: "encode_record c ?r = Inr raw" "dec_record c raw = Inr ?r"
      using codec by (rule encode_recordE)
    let ?ms = "[mut_put (rec_key i) raw, mut_put (queued_idx_key (tr_run_at ?r) i) i] @
      (case tr_idem_key ?r of None \<Rightarrow> [] | Some k \<Rightarrow> [mut_put (idem_record_key k) i])"
    have upd: "queue_inv c (cf_batch s ?ms) \<and> abs_queue c (cf_batch s ?ms) =
      (abs_queue c s)\<lparr>aq_recs := (recs c s)(i \<mapsto> ?r),
        aq_idem := (case tr_idem_key ?r of None \<Rightarrow> aq_idem (abs_queue c s)
                    | Some k \<Rightarrow> (aq_idem (abs_queue c s))(k \<mapsto> i))\<rparr>"
      by (rule create_record[OF inv fresh raw(2) _ _ _ refl])
         (use old in \<open>auto simp: new_record_def wf_record_def split: option.splits\<close>)
    have "apply_task_command c (cf_read s) ?cmd =
        Inr (?ms, into_response c (op_result_id i (Some False) None None))"
      using raw inv fresh old
      by (simp add: handler_simps apply_enqueue_def idem_read op_result_id_def)
         (simp add: new_record_def)
    then show ?thesis using upd fresh old
      by (simp add: simulates_def exec_task_def abs_idem) (simp add: new_record_def)
  qed
qed

text \<open>Deleting terminal records.\<close>

definition vacuum_muts :: "(string \<Rightarrow> task_record option) \<Rightarrow> string \<Rightarrow> kv_mutation list" where
  "vacuum_muts R i = (case R i of None \<Rightarrow> []
     | Some r \<Rightarrow> if is_terminal r
         then [mut_del (rec_key i), mut_del (terminal_idx_key (tr_completed_at r) i)] @
              (case tr_idem_key r of None \<Rightarrow> [] | Some k \<Rightarrow> [mut_del (idem_record_key k)])
         else [])"

lemma vacuum_loop_eq:
  assumes inv: "queue_inv c s"
  shows "vacuum_loop c (cf_read s) is ms n =
    Inr (ms @ concat (map (vacuum_muts (recs c s)) is), n + length (vacuumed (recs c s) is))"
proof (induction "is" arbitrary: ms n)
  case Nil
  then show ?case by (simp add: vacuumed_def)
next
  case (Cons i "is")
  show ?case
  proof (cases "recs c s i")
    case None
    then show ?thesis using Cons.IH inv by (simp add: handler_simps vacuum_muts_def vacuumed_def)
  next
    case (Some r)
    then show ?thesis using Cons.IH inv
      by (auto simp: handler_simps vacuum_muts_def vacuumed_def is_terminal_def)
  qed
qed

lemma vacuum_muts_keys:
  "k \<in> fst ` set (vacuum_muts R i) \<longleftrightarrow> (\<exists>r. R i = Some r \<and> is_terminal r \<and>
     (k = rec_key i \<or> k = terminal_idx_key (tr_completed_at r) i \<or>
      (\<exists>j. tr_idem_key r = Some j \<and> k = idem_record_key j)))"
  by (cases "R i"; cases "tr_idem_key (the (R i))") (auto simp: vacuum_muts_def mut_del_def image_iff)

lemma vacuum_keys:
  "k \<in> fst ` set (concat (map (vacuum_muts R) is)) \<longleftrightarrow>
    (\<exists>i \<in> set (vacuumed R is). \<exists>r. R i = Some r \<and>
       (k = rec_key i \<or> k = terminal_idx_key (tr_completed_at r) i \<or>
        (\<exists>j. tr_idem_key r = Some j \<and> k = idem_record_key j)))"
proof -
  have "k \<in> fst ` set (concat (map (vacuum_muts R) is)) \<longleftrightarrow>
      (\<exists>i \<in> set is. k \<in> fst ` set (vacuum_muts R i))"
    by auto
  also have "\<dots> \<longleftrightarrow> (\<exists>i \<in> set is. \<exists>r. R i = Some r \<and> is_terminal r \<and>
     (k = rec_key i \<or> k = terminal_idx_key (tr_completed_at r) i \<or>
      (\<exists>j. tr_idem_key r = Some j \<and> k = idem_record_key j)))"
    by (simp only: vacuum_muts_keys)
  also have "\<dots> \<longleftrightarrow> (\<exists>i \<in> set (vacuumed R is). \<exists>r. R i = Some r \<and>
       (k = rec_key i \<or> k = terminal_idx_key (tr_completed_at r) i \<or>
        (\<exists>j. tr_idem_key r = Some j \<and> k = idem_record_key j)))"
    by (force simp: vacuumed_def)
  finally show ?thesis .
qed

lemma vacuum_muts_del: "w \<in> set (concat (map (vacuum_muts R) is)) \<Longrightarrow> snd w = None"
  by (auto simp: vacuum_muts_def split: option.splits if_splits)

lemma sim_vacuum:
  assumes inv: "queue_inv c s"
  shows "simulates c s (TaskVacuum is)"
proof -
  let ?R = "recs c s" and ?gone = "set (vacuumed (recs c s) is)"
  let ?ms = "concat (map (vacuum_muts ?R) is)"
  let ?s = "cf_batch s ?ms"
  have goneD: "\<exists>r. ?R i = Some r \<and> is_terminal r" if "i \<in> ?gone" for i
    using that by (auto simp: vacuumed_def split: option.splits)
  have get: "cf_get ?s k = (if k \<in> fst ` set ?ms then None else cf_get s k)" for k
    by (rule cf_batch_dels) (rule vacuum_muts_del)
  have get_rec: "cf_get ?s (rec_key i) = (if i \<in> ?gone then None else cf_get s (rec_key i))" for i
    using goneD[of i] by (auto simp: get vacuum_keys key_simps simp del: set_concat)
  have recs_eq: "recs c ?s = (\<lambda>i. if i \<in> ?gone then None else ?R i)"
    by (auto simp: recs_def get_rec fun_eq_iff)
  have get_idem: "cf_get ?s (idem_record_key k) = (case cf_get s (idem_record_key k) of
      None \<Rightarrow> None | Some i \<Rightarrow> if i \<in> ?gone then None else Some i)" for k
  proof -
    have "(\<exists>i \<in> ?gone. \<exists>r. ?R i = Some r \<and> tr_idem_key r = Some k) \<longleftrightarrow>
        (\<exists>i \<in> ?gone. cf_get s (idem_record_key k) = Some i)"
      using queue_invD(3)[OF inv] by (simp add: idem_ok_def)
    then show ?thesis
      by (auto simp: get vacuum_keys key_simps simp del: set_concat split: option.split)
  qed
  have get_other: "cf_get ?s (queued_idx_key t i) = cf_get s (queued_idx_key t i)"
    "cf_get ?s (assigned_idx_key n i) = cf_get s (assigned_idx_key n i)"
    "cf_get ?s (worker_key n) = cf_get s (worker_key n)" for t n i
    by (auto simp: get vacuum_keys key_simps simp del: set_concat)
  have get_term: "cf_get ?s (terminal_idx_key t i) =
      (if i \<in> ?gone then None else cf_get s (terminal_idx_key t i))" for t i
  proof (cases "i \<in> ?gone")
    case True
    then obtain r where r: "?R i = Some r" using goneD by blast
    show ?thesis
    proof (cases "t = tr_completed_at r")
      case True
      with r \<open>i \<in> ?gone\<close> have "terminal_idx_key t i \<in> fst ` set ?ms" by (auto simp only: vacuum_keys)
      then show ?thesis using \<open>i \<in> ?gone\<close> by (simp add: get del: set_concat)
    next
      case False
      then show ?thesis using r \<open>i \<in> ?gone\<close> queue_inv_index(3)[OF inv, of t i]
        by (simp add: get expect_terminal_def del: set_concat)
    qed
  next
    case False
    then show ?thesis by (auto simp: get vacuum_keys key_simps simp del: set_concat)
  qed
  have "task_ok c ?s i" for i
    using queue_invD(2)[OF inv, of i] goneD[of i]
    by (auto simp: task_ok_def get_rec get_other get_term recs_eq expect_defs is_terminal_def)
  then have task: "\<forall>i. task_ok c ?s i" by blast
  have idem: "idem_ok c ?s"
    unfolding idem_ok_def
  proof (intro allI)
    fix k i
    have "cf_get ?s (idem_record_key k) = Some i \<longleftrightarrow> cf_get s (idem_record_key k) = Some i \<and> i \<notin> ?gone"
      by (auto simp: get_idem split: option.split)
    also have "\<dots> \<longleftrightarrow> (\<exists>r. recs c ?s i = Some r \<and> tr_idem_key r = Some k)"
      using queue_invD(3)[OF inv] by (simp add: idem_ok_def recs_eq)
    finally show "cf_get ?s (idem_record_key k) = Some i \<longleftrightarrow>
      (\<exists>r. recs c ?s i = Some r \<and> tr_idem_key r = Some k)" .
  qed
  have lease: "leases_ok c ?s"
    using queue_invD(4)[OF inv] by (simp add: leases_ok_def get_other)
  have "cf_ok ?s" using queue_invD(1)[OF inv] by (rule cf_ok_batch)
  with task idem lease have inv': "queue_inv c ?s" by (simp add: queue_inv_def)
  have leases_eq: "leases c ?s = leases c s" by (simp add: leases_def get_other fun_eq_iff)
  have abs: "abs_queue c ?s = fst (aq_step (abs_queue c s) (TaskVacuum is))"
    unfolding abs_queue_def recs_eq leases_eq get_idem by (simp add: Let_def fun_eq_iff)
  show ?thesis
    using vacuum_loop_eq[OF inv, of "is" "[]" 0] inv' abs
    by (simp add: simulates_def exec_task_def apply_vacuum_def Let_def)
qed

lemma sim_lease:
  assumes codec: "codec_ok c" and inv: "queue_inv c s"
  shows "simulates c s (WorkerLease n name e expires)"
proof -
  let ?l = "\<lparr>wl_node_id = n, wl_worker_name = name, wl_lease_epoch = e, wl_expires_at = expires\<rparr>"
  obtain raw where raw: "enc_lease c ?l = Inr raw" "dec_lease c raw = Inr ?l"
    using codec by (rule codec_leaseE)
  let ?s = "cf_batch s [mut_put (worker_key n) raw]"
  have get: "cf_get ?s k = (if k = worker_key n then Some raw else cf_get s k)" for k
    by simp
  have recs_eq: "recs c ?s = recs c s" by (simp add: recs_def get key_simps fun_eq_iff)
  have "queue_inv c ?s"
    using queue_invD[OF inv] raw
    by (auto simp: queue_inv_def task_ok_def idem_ok_def leases_ok_def get recs_eq key_simps
        simp del: cf_batch_simps intro: cf_ok_batch)
  moreover have "leases c ?s = (leases c s)(n \<mapsto> ?l)"
    using raw by (auto simp: leases_def get key_simps fun_eq_iff simp del: cf_batch_simps)
  ultimately show ?thesis using raw
    by (simp add: simulates_def exec_task_def apply_worker_lease_def abs_queue_def recs_eq get
        key_simps Let_def del: cf_batch_simps)
qed

lemma simulates_all:
  assumes "codec_ok c" "queue_inv c s" "cmd_ok cmd"
  shows "simulates c s cmd"
proof (cases cmd)
  case (TaskEnqueue i p t k u)
  with assms show ?thesis by (simp add: sim_enqueue)
next
  case (TaskVacuum "is")
  with assms show ?thesis by (simp add: sim_vacuum)
next
  case (WorkerLease n w e x)
  with assms show ?thesis by (simp add: sim_lease)
next
  case (TaskAssign i n e now)
  with assms show ?thesis
    by (cases "recs c s i") (auto simp: simulates_missing cmd_ok_def intro: sim_assign)
next
  case (TaskClaim i n e now)
  with assms show ?thesis by (cases "recs c s i") (auto simp: simulates_missing intro: sim_claim)
next
  case (TaskMarkCommitted i n e now)
  with assms show ?thesis
    by (cases "recs c s i") (auto simp: simulates_missing intro: sim_mark_committed)
next
  case (TaskDone i n e a now v)
  with assms show ?thesis by (cases "recs c s i") (auto simp: simulates_missing intro: sim_done)
next
  case (TaskFail i n e a err rt now)
  with assms show ?thesis by (cases "recs c s i") (auto simp: simulates_missing intro: sim_fail)
next
  case (TaskRequeue i)
  with assms show ?thesis by (cases "recs c s i") (auto simp: simulates_missing intro: sim_requeue)
next
  case (TaskReplay i now)
  with assms show ?thesis by (cases "recs c s i") (auto simp: simulates_missing intro: sim_replay)
qed

end
