(* ===== verification/WitnessCodec.thy ===== *)
theory WitnessCodec
  imports TaskRecords
begin

text \<open>
  A concrete serialiser that satisfies \<open>codec_ok\<close>. It does not model code of the repository:
  it shows that the hypothesis of the theorems can hold and lets the examples run. Every
  value becomes a list of fields, every field is written with its length in front.
\<close>

section \<open>Length-prefixed fields\<close>

definition enc_field :: "string \<Rightarrow> string" where
  "enc_field s = show_nat (length s) @ CHR '':'' # s"

definition dec_field :: "string \<Rightarrow> (string \<times> string) option" where
  "dec_field s = (case split_once (CHR '':'') s of None \<Rightarrow> None
     | Some (n, rest) \<Rightarrow> (case digits_val 0 n of None \<Rightarrow> None
         | Some k \<Rightarrow> Some (take k rest, drop k rest)))"

lemma dec_enc_field: "dec_field (enc_field s @ rest) = Some (s, rest)"
  by (simp add: dec_field_def enc_field_def split_once_append digits_val_show_nat)

fun dec_fields :: "nat \<Rightarrow> string \<Rightarrow> string list option" where
  "dec_fields 0 s = Some []"
| "dec_fields (Suc n) s = (case dec_field s of None \<Rightarrow> None
     | Some (x, rest) \<Rightarrow> (case dec_fields n rest of None \<Rightarrow> None | Some xs \<Rightarrow> Some (x # xs)))"

definition enc_fields :: "string list \<Rightarrow> string" where
  "enc_fields xs = concat (map enc_field xs)"

lemma dec_enc_fields [simp]: "n = length xs \<Longrightarrow> dec_fields n (enc_fields xs) = Some xs"
proof (induction xs arbitrary: n)
  case (Cons x xs)
  then show ?case using dec_enc_field[of x "enc_fields xs"] by (simp add: enc_fields_def)
qed simp

section \<open>Field values\<close>

definition enc_opt :: "('a \<Rightarrow> string) \<Rightarrow> 'a option \<Rightarrow> string" where
  "enc_opt f x = (case x of None \<Rightarrow> [] | Some y \<Rightarrow> CHR ''+'' # f y)"

definition dec_opt :: "(string \<Rightarrow> 'a) \<Rightarrow> string \<Rightarrow> 'a option" where
  "dec_opt f s = (case s of [] \<Rightarrow> None | _ # t \<Rightarrow> Some (f t))"

lemma dec_enc_opt [simp]: "(\<And>y. g (f y) = y) \<Longrightarrow> dec_opt g (enc_opt f x) = x"
  by (simp add: dec_opt_def enc_opt_def split: option.split)

definition enc_bool :: "bool \<Rightarrow> string" where
  "enc_bool b = (if b then ''t'' else ''f'')"

definition dec_bool :: "string \<Rightarrow> bool" where
  "dec_bool s \<longleftrightarrow> s = ''t''"

definition enc_word :: "'a::len word \<Rightarrow> string" where
  "enc_word w = show_nat (unat w)"

definition dec_word :: "string \<Rightarrow> 'a::len word" where
  "dec_word s = (case digits_val 0 s of None \<Rightarrow> 0 | Some n \<Rightarrow> word_of_nat n)"

definition dec_status :: "string \<Rightarrow> task_status" where
  "dec_status s = (if s = ''queued'' then Queued else if s = ''assigned'' then Assigned
     else if s = ''running'' then Running else if s = ''done'' then Done else Failed)"

lemma field_roundtrips [simp]:
  "dec_bool (enc_bool b) = b" "dec_word (enc_word w) = w" "dec_status (as_str st) = st"
  by (simp add: dec_bool_def enc_bool_def, simp add: dec_word_def enc_word_def digits_val_show_nat,
      cases st) (simp_all add: dec_status_def)

section \<open>Records\<close>

definition demo_enc_record :: "task_record \<Rightarrow> string" where
  "demo_enc_record r = enc_fields [tr_id r, tr_payload r, as_str (tr_status r),
     enc_word (tr_attempts r), enc_word (tr_run_at r), enc_opt id (tr_idem_key r),
     enc_opt id (tr_assigned_node_id r), enc_opt enc_word (tr_lease_epoch r),
     enc_bool (tr_committed r), enc_opt id (tr_error r), enc_word (tr_updated_at r),
     enc_word (tr_created_at r), enc_word (tr_completed_at r), enc_opt id (tr_result r)]"

definition demo_dec_record :: "string \<Rightarrow> task_record option" where
  "demo_dec_record s = (case dec_fields 14 s of
     Some [i, p, st, a, ra, k, n, e, cm, er, ua, ca, co, re] \<Rightarrow>
       Some \<lparr>tr_id = i, tr_payload = p, tr_status = dec_status st, tr_attempts = dec_word a,
         tr_run_at = dec_word ra, tr_idem_key = dec_opt id k, tr_assigned_node_id = dec_opt id n,
         tr_lease_epoch = dec_opt dec_word e, tr_committed = dec_bool cm, tr_error = dec_opt id er,
         tr_updated_at = dec_word ua, tr_created_at = dec_word ca, tr_completed_at = dec_word co,
         tr_result = dec_opt id re\<rparr>
   | _ \<Rightarrow> None)"

lemma demo_record_roundtrip: "demo_dec_record (demo_enc_record r) = Some r"
  by (simp add: demo_dec_record_def demo_enc_record_def)

definition demo_enc_lease :: "worker_lease_record \<Rightarrow> string" where
  "demo_enc_lease l = enc_fields [wl_node_id l, wl_worker_name l, enc_word (wl_lease_epoch l),
     enc_word (wl_expires_at l)]"

definition demo_dec_lease :: "string \<Rightarrow> worker_lease_record option" where
  "demo_dec_lease s = (case dec_fields 4 s of
     Some [n, w, e, x] \<Rightarrow> Some \<lparr>wl_node_id = n, wl_worker_name = w, wl_lease_epoch = dec_word e,
        wl_expires_at = dec_word x\<rparr>
   | _ \<Rightarrow> None)"

lemma demo_lease_roundtrip: "demo_dec_lease (demo_enc_lease l) = Some l"
  by (simp add: demo_dec_lease_def demo_enc_lease_def)

definition demo_enc_result :: "task_op_result \<Rightarrow> string" where
  "demo_enc_result x = enc_fields [enc_bool (op_ok x), enc_opt id (op_id x),
     enc_opt enc_bool (op_deduplicated x), enc_opt demo_enc_record (op_record x),
     enc_opt id (op_reason x)]"

definition demo_dec_result :: "string \<Rightarrow> task_op_result option" where
  "demo_dec_result s = (case dec_fields 5 s of
     Some [ok, i, d, r, re] \<Rightarrow> Some \<lparr>op_ok = dec_bool ok, op_id = dec_opt id i,
       op_deduplicated = dec_opt dec_bool d,
       op_record = dec_opt (\<lambda>s. the (demo_dec_record s)) r, op_reason = dec_opt id re\<rparr>
   | _ \<Rightarrow> None)"

lemma demo_result_roundtrip: "demo_dec_result (demo_enc_result x) = Some x"
  by (simp add: demo_dec_result_def demo_enc_result_def demo_record_roundtrip)

definition demo_codec :: codec where
  "demo_codec = \<lparr>enc_record = \<lambda>r. Inr (demo_enc_record r),
     dec_record = \<lambda>s. (case demo_dec_record s of None \<Rightarrow> Inl ''bad record'' | Some r \<Rightarrow> Inr r),
     enc_lease = \<lambda>l. Inr (demo_enc_lease l),
     dec_lease = \<lambda>s. (case demo_dec_lease s of None \<Rightarrow> Inl ''bad lease'' | Some l \<Rightarrow> Inr l),
     enc_result = \<lambda>x. Some (demo_enc_result x), dec_result = demo_dec_result\<rparr>"

lemma demo_codec_ok [simp]: "codec_ok demo_codec"
  by (simp add: codec_ok_def demo_codec_def demo_record_roundtrip demo_lease_roundtrip
      demo_result_roundtrip)

end
