(* ===== verification/TaskProperties.thy ===== *)
theory TaskProperties
  imports TaskRefinement WitnessCodec
begin

text \<open>
  The properties of the replicated task queue, for single commands and for whole logs of
  commands. \<open>run_tasks\<close> applies a log to a store; the locale \<open>simulation\<close> is interpreted on
  it, so that every property of a log is proved on the abstract queue \<open>aq_step\<close> and carried
  over to the stored bytes.
\<close>

section \<open>Runs of commands\<close>

definition task_step :: "codec \<Rightarrow> kv \<Rightarrow> task_request \<Rightarrow> kv" where
  "task_step c s cmd = (case exec_task c s cmd of Inl _ \<Rightarrow> s | Inr (s', _) \<Rightarrow> s')"

definition run_tasks :: "codec \<Rightarrow> kv \<Rightarrow> task_request list \<Rightarrow> kv" where
  "run_tasks c s cmds = foldl (task_step c) s cmds"

definition aq_next :: "aqueue \<Rightarrow> task_request \<Rightarrow> aqueue" where
  "aq_next q cmd = fst (aq_step q cmd)"

definition queue_ready :: "codec \<Rightarrow> kv \<Rightarrow> bool" where
  "queue_ready c s \<longleftrightarrow> codec_ok c \<and> queue_inv c s"

lemma exec_task_ready:
  assumes "queue_ready c s" "cmd_ok cmd"
  obtains s' where "exec_task c s cmd = Inr (s', into_response c (snd (aq_step (abs_queue c s) cmd)))"
    "queue_inv c s'" "abs_queue c s' = aq_next (abs_queue c s) cmd" "task_step c s cmd = s'"
proof -
  have "simulates c s cmd" using assms by (simp add: queue_ready_def simulates_all)
  then obtain s' where *: "exec_task c s cmd = Inr (s', into_response c (snd (aq_step (abs_queue c s) cmd)))"
    "queue_inv c s'" "abs_queue c s' = fst (aq_step (abs_queue c s) cmd)"
    unfolding simulates_def by blast
  then have "task_step c s cmd = s'" by (simp add: task_step_def)
  with * show thesis by (intro that) (simp_all add: aq_next_def)
qed

interpretation tq: simulation "task_step c" cmd_ok "queue_ready c" aq_next "abs_queue c" for c
proof
  fix s e
  assume ready: "queue_ready c s" and cmd: "cmd_ok e"
  show "queue_ready c (task_step c s e)"
    using ready by (rule exec_task_ready[OF _ cmd]) (use ready in \<open>simp add: queue_ready_def\<close>)
  show "abs_queue c (task_step c s e) = aq_next (abs_queue c s) e"
    using ready by (rule exec_task_ready[OF _ cmd]) simp
qed

lemma queue_inv_empty: "queue_inv c []"
  by (simp add: queue_inv_def task_ok_def idem_ok_def leases_ok_def recs_def expect_defs)

lemma abs_queue_empty: "abs_queue c [] = \<lparr>aq_recs = Map.empty, aq_idem = Map.empty, aq_leases = Map.empty\<rparr>"
  by (simp add: abs_queue_def recs_def leases_def fun_eq_iff)

lemma queue_ready_empty: "codec_ok c \<Longrightarrow> queue_ready c []"
  by (simp add: queue_ready_def queue_inv_empty)

lemma run_tasks_ready: "queue_ready c s \<Longrightarrow> list_all cmd_ok cmds \<Longrightarrow> queue_ready c (run_tasks c s cmds)"
  unfolding run_tasks_def by (rule tq.run_inv)

lemma run_tasks_abs:
  "queue_ready c s \<Longrightarrow> list_all cmd_ok cmds \<Longrightarrow>
   abs_queue c (run_tasks c s cmds) = foldl aq_next (abs_queue c s) cmds"
  unfolding run_tasks_def by (rule tq.run_abs)

lemma recs_step:
  "queue_ready c s \<Longrightarrow> cmd_ok cmd \<Longrightarrow> recs c (task_step c s cmd) = aq_recs (aq_next (abs_queue c s) cmd)"
  by (metis aq_recs_abs tq.step_abs)

lemma recs_run:
  "queue_ready c s \<Longrightarrow> list_all cmd_ok cmds \<Longrightarrow>
   recs c (run_tasks c s cmds) = aq_recs (foldl aq_next (abs_queue c s) cmds)"
  by (metis aq_recs_abs run_tasks_abs)

section \<open>How one command changes one record\<close>

definition next_record :: "task_request \<Rightarrow> task_record \<Rightarrow> task_record" where
  "next_record cmd r = fst (rec_step cmd r)"

fun vacuum_ids :: "task_request \<Rightarrow> string list" where
  "vacuum_ids (TaskVacuum is) = is"
| "vacuum_ids _ = []"

lemma aq_next_Some:
  assumes "aq_recs q i = Some r"
  shows "aq_recs (aq_next q cmd) i =
    (if cmd_id cmd = Some i then Some (next_record cmd r)
     else if i \<in> set (vacuum_ids cmd) \<and> is_terminal r then None else Some r)"
  using assms
  by (cases cmd) (auto simp: aq_next_def next_record_def split_beta vacuumed_def Let_def
      split: option.splits)

lemma aq_next_None:
  assumes "aq_recs q i = None" "aq_recs (aq_next q cmd) i = Some r"
  shows "\<exists>p t k u. cmd = TaskEnqueue i p t k u \<and> r = new_record i p t k u"
  using assms
  by (cases cmd) (auto simp: aq_next_def split_beta vacuumed_def Let_def split: option.splits if_splits)

lemma next_record_other:
  "tr_id (next_record cmd r) = tr_id r" "tr_idem_key (next_record cmd r) = tr_idem_key r"
  "tr_payload (next_record cmd r) = tr_payload r" "tr_created_at (next_record cmd r) = tr_created_at r"
  by (cases cmd; simp add: next_record_def Let_def)+

fun status_edge :: "task_status \<Rightarrow> task_status \<Rightarrow> bool" where
  "status_edge Queued Assigned = True"
| "status_edge Assigned Running = True"
| "status_edge Assigned Queued = True"
| "status_edge Running st = (st = Queued \<or> st = Done \<or> st = Failed)"
| "status_edge Failed Queued = True"
| "status_edge _ _ = False"

lemma next_record_status:
  assumes "wf_record i r"
  shows "next_record cmd r = r \<or> status_edge (tr_status r) (tr_status (next_record cmd r)) \<or>
    tr_status (next_record cmd r) = tr_status r \<and> (\<exists>i n e now. cmd = TaskMarkCommitted i n e now)"
  using assms
  by (cases cmd; cases "tr_status r")
     (auto simp: next_record_def ack_matches_def Let_def wf_record_def)

lemma next_record_committed:
  assumes "wf_record i r" "tr_committed r"
  shows "tr_committed (next_record cmd r) \<and> tr_status (next_record cmd r) \<in> {Running, Done, Failed}"
  using assms
  by (cases cmd; cases "tr_status r")
     (auto simp: next_record_def ack_matches_def Let_def wf_record_def)

lemma ready_wf: "queue_ready c s \<Longrightarrow> recs c s i = Some r \<Longrightarrow> wf_record i r"
  using queue_inv_wf by (auto simp: queue_ready_def)

lemma recs_step_Some:
  assumes "queue_ready c s" "cmd_ok cmd" "recs c s i = Some r"
  shows "recs c (task_step c s cmd) i =
    (if cmd_id cmd = Some i then Some (next_record cmd r)
     else if i \<in> set (vacuum_ids cmd) \<and> is_terminal r then None else Some r)"
  using assms aq_next_Some[of "abs_queue c s" i r cmd] by (simp add: recs_step)

section \<open>Commands one at a time\<close>

lemma stale_ack_step:
  assumes "aq_recs q i = Some r" "\<not> ack_matches r n e"
    and "cmd \<in> {TaskMarkCommitted i n e now, TaskDone i n e a now v, TaskFail i n e a err rt now}"
  shows "aq_next q cmd = q" "op_ok (snd (aq_step q cmd)) = False"
proof -
  have "(aq_recs q)(i \<mapsto> r) = aq_recs q" using assms(1) by (simp add: fun_upd_idem)
  then show "aq_next q cmd = q" "op_ok (snd (aq_step q cmd)) = False"
    using assms by (auto simp: aq_next_def op_result_rejected_def)
qed

lemma ready_stepD:
  assumes "queue_ready c s" "cmd_ok cmd"
  shows "exec_task c s cmd =
    Inr (task_step c s cmd, into_response c (snd (aq_step (abs_queue c s) cmd)))"
  using assms by (rule exec_task_ready) simp

section \<open>Leases as fencing tokens\<close>

definition holds_lease :: "task_record \<Rightarrow> string \<Rightarrow> u64 \<Rightarrow> bool" where
  "holds_lease r n e \<longleftrightarrow> tr_assigned_node_id r = Some n \<and> tr_lease_epoch r = Some e"

definition free_of :: "aqueue \<Rightarrow> string \<Rightarrow> string \<Rightarrow> u64 \<Rightarrow> bool" where
  "free_of q i n e \<longleftrightarrow> (case aq_recs q i of None \<Rightarrow> True | Some r \<Rightarrow> \<not> holds_lease r n e)"

fun assigns_to :: "string \<Rightarrow> string \<Rightarrow> u64 \<Rightarrow> task_request \<Rightarrow> bool" where
  "assigns_to i n e (TaskAssign i' n' e' _) = (i' = i \<and> n' = n \<and> e' = e)"
| "assigns_to i n e _ = False"

fun ack_of :: "string \<Rightarrow> string \<Rightarrow> u64 \<Rightarrow> task_request \<Rightarrow> bool" where
  "ack_of i n e (TaskClaim i' n' e' _) = (i' = i \<and> n' = n \<and> e' = e)"
| "ack_of i n e (TaskMarkCommitted i' n' e' _) = (i' = i \<and> n' = n \<and> e' = e)"
| "ack_of i n e (TaskDone i' n' e' _ _ _) = (i' = i \<and> n' = n \<and> e' = e)"
| "ack_of i n e (TaskFail i' n' e' _ _ _ _) = (i' = i \<and> n' = n \<and> e' = e)"
| "ack_of i n e _ = False"

lemma next_record_lease:
  "\<not> holds_lease r n e \<Longrightarrow> cmd_id cmd = Some i \<Longrightarrow> \<not> assigns_to i n e cmd \<Longrightarrow>
   \<not> holds_lease (next_record cmd r) n e"
  by (cases cmd) (auto simp: next_record_def holds_lease_def Let_def)

lemma free_of_step:
  assumes "free_of q i n e" "\<not> assigns_to i n e cmd"
  shows "free_of (aq_next q cmd) i n e"
proof (cases "aq_recs q i")
  case None
  then have "\<And>r. aq_recs (aq_next q cmd) i = Some r \<Longrightarrow> \<not> holds_lease r n e"
    using aq_next_None[OF None] by (fastforce simp: holds_lease_def new_record_def)
  then show ?thesis by (auto simp: free_of_def split: option.split)
next
  case (Some r)
  then show ?thesis using assms
    by (auto simp: free_of_def aq_next_Some[OF Some] next_record_lease)
qed

lemma free_of_run:
  "free_of q i n e \<Longrightarrow> list_all (\<lambda>cmd. \<not> assigns_to i n e cmd) cmds \<Longrightarrow>
   free_of (foldl aq_next q cmds) i n e"
  by (induction cmds arbitrary: q) (auto intro: free_of_step)

lemma free_of_ack:
  assumes "free_of q i n e" "ack_of i n e cmd"
  shows "aq_next q cmd = q \<and> \<not> op_ok (snd (aq_step q cmd))"
proof (cases "aq_recs q i")
  case None
  then show ?thesis using assms(2)
    by (cases cmd) (auto simp: aq_next_def op_result_rejected_def)
next
  case (Some r)
  then have "(aq_recs q)(i \<mapsto> r) = aq_recs q" by (simp add: fun_upd_idem)
  then show ?thesis using assms Some
    by (cases cmd) (auto simp: aq_next_def op_result_rejected_def free_of_def holds_lease_def ack_matches_def)
qed

text \<open>A rejected acknowledgement writes nothing at all.\<close>

lemma fenced_exec:
  assumes "queue_inv c s" "free_of (abs_queue c s) i n e" "ack_of i n e cmd"
  shows "\<exists>reason. exec_task c s cmd = Inr (s, into_response c (op_result_rejected reason))"
proof (cases "recs c s i")
  case None
  then show ?thesis using assms
    by (cases cmd) (auto simp: exec_task_def apply_claim_def apply_mark_committed_def apply_done_def
        apply_fail_def read_record_inv rejected_def)
next
  case (Some r)
  then show ?thesis using assms
    by (cases cmd) (auto simp: exec_task_def apply_claim_def apply_mark_committed_def apply_done_def
        apply_fail_def read_record_inv rejected_def free_of_def holds_lease_def ack_matches_def)
qed

section \<open>Counting accepted commands\<close>

definition accepted :: "codec \<Rightarrow> kv \<Rightarrow> task_request \<Rightarrow> bool" where
  "accepted c s cmd = (case exec_task c s cmd of Inl _ \<Rightarrow> False
     | Inr (_, resp) \<Rightarrow> (case from_response c resp of None \<Rightarrow> False | Some x \<Rightarrow> op_ok x))"

fun count_accepted :: "(task_request \<Rightarrow> bool) \<Rightarrow> codec \<Rightarrow> kv \<Rightarrow> task_request list \<Rightarrow> nat" where
  "count_accepted P c s [] = 0"
| "count_accepted P c s (cmd # cmds) =
     (if P cmd \<and> accepted c s cmd then 1 else 0) + count_accepted P c (task_step c s cmd) cmds"

fun is_claim_of :: "string \<Rightarrow> task_request \<Rightarrow> bool" where
  "is_claim_of i (TaskClaim i' _ _ _) = (i' = i)"
| "is_claim_of i _ = False"

fun is_assign_of :: "string \<Rightarrow> task_request \<Rightarrow> bool" where
  "is_assign_of i (TaskAssign i' _ _ _) = (i' = i)"
| "is_assign_of i _ = False"

lemma accepted_ready:
  "queue_ready c s \<Longrightarrow> cmd_ok cmd \<Longrightarrow> accepted c s cmd = op_ok (snd (aq_step (abs_queue c s) cmd))"
  by (simp add: accepted_def ready_stepD queue_ready_def from_into_response)

text \<open>A pair that does not hold the lease holds it later only if it was assigned the task in between, with
  success.\<close>

lemma refused_assign: "assigns_to i n e cmd \<Longrightarrow> \<not> op_ok (snd (aq_step q cmd)) \<Longrightarrow> aq_next q cmd = q"
proof (cases "aq_recs q i")
  case (Some r)
  assume "assigns_to i n e cmd" "\<not> op_ok (snd (aq_step q cmd))"
  moreover have "(aq_recs q)(i \<mapsto> r) = aq_recs q" using Some by (simp add: fun_upd_idem)
  ultimately show ?thesis using Some
    by (cases cmd) (auto simp: aq_next_def op_result_rejected_def op_result_id_def op_result_ok_def split: if_splits)
qed (cases cmd; auto simp: aq_next_def)

lemma free_of_log:
  assumes "queue_ready c s" "list_all cmd_ok cmds" "free_of (abs_queue c s) i n e"
  shows "free_of (abs_queue c (run_tasks c s cmds)) i n e \<or>
    (\<exists>pre cmd post. cmds = pre @ cmd # post \<and> assigns_to i n e cmd \<and> accepted c (run_tasks c s pre) cmd)"
  using assms(2)
proof (induction cmds rule: rev_induct)
  case (snoc cmd cmds)
  show ?case
  proof (cases "free_of (abs_queue c (run_tasks c s cmds)) i n e \<and> \<not> (assigns_to i n e cmd \<and> accepted c (run_tasks c s cmds) cmd)")
    case True
    have ready: "queue_ready c (run_tasks c s cmds)" "cmd_ok cmd" using run_tasks_ready[OF assms(1)] snoc.prems by simp_all
    have "free_of (aq_next (abs_queue c (run_tasks c s cmds)) cmd) i n e"
      using True free_of_step refused_assign accepted_ready[OF ready] by (metis)
    then show ?thesis using ready snoc.prems by (simp add: run_tasks_abs[OF assms(1)])
  next
    case False
    then consider "assigns_to i n e cmd \<and> accepted c (run_tasks c s cmds) cmd" | "\<not> free_of (abs_queue c (run_tasks c s cmds)) i n e" by blast
    then show ?thesis
    proof cases
      case 2
      then obtain pre x post where "cmds = pre @ x # post" "assigns_to i n e x" "accepted c (run_tasks c s pre) x"
        using snoc by auto
      then show ?thesis by (intro disjI2 exI[of _ pre] exI[of _ x] exI[of _ "post @ [cmd]"]) simp
    qed blast
  qed
qed (use assms(3) in \<open>simp add: run_tasks_def\<close>)

definition pending_claim :: "aqueue \<Rightarrow> string \<Rightarrow> nat" where
  "pending_claim q i = (case aq_recs q i of None \<Rightarrow> 0
     | Some r \<Rightarrow> if tr_status r = Assigned then 1 else 0)"

lemma pending_claim_step:
  "(if is_claim_of i cmd \<and> op_ok (snd (aq_step q cmd)) then 1 else 0) + pending_claim (aq_next q cmd) i
   \<le> pending_claim q i + (if is_assign_of i cmd \<and> op_ok (snd (aq_step q cmd)) then 1 else 0)"
proof (cases "aq_recs q i")
  case None
  then have "\<And>r. aq_recs (aq_next q cmd) i = Some r \<Longrightarrow> tr_status r \<noteq> Assigned"
    using aq_next_None[OF None] by (fastforce simp: new_record_def)
  then have "pending_claim (aq_next q cmd) i = 0" by (auto simp: pending_claim_def split: option.split)
  moreover have "is_claim_of i cmd \<Longrightarrow> \<not> op_ok (snd (aq_step q cmd))"
    using None by (cases cmd) (auto simp: op_result_rejected_def)
  ultimately show ?thesis by auto
next
  case (Some r)
  show ?thesis
  proof (cases "cmd_id cmd = Some i")
    case True
    then show ?thesis using Some
      by (cases cmd; cases "tr_status r")
         (auto simp: pending_claim_def aq_next_Some[OF Some] next_record_def split_beta Let_def
           op_result_rejected_def op_result_ok_def op_result_id_def ack_matches_def)
  next
    case False
    then have "\<not> is_claim_of i cmd" "\<not> is_assign_of i cmd" by (cases cmd; simp)+
    with False show ?thesis by (simp add: pending_claim_def aq_next_Some[OF Some] Some)
  qed
qed

lemma claims_le_assigns:
  assumes "queue_ready c s" "list_all cmd_ok cmds"
  shows "count_accepted (is_claim_of i) c s cmds + pending_claim (abs_queue c (run_tasks c s cmds)) i
    \<le> pending_claim (abs_queue c s) i + count_accepted (is_assign_of i) c s cmds"
  using assms
proof (induction cmds arbitrary: s)
  case Nil
  then show ?case by (simp add: run_tasks_def)
next
  case (Cons cmd cmds)
  then have ready: "queue_ready c (task_step c s cmd)" by (simp add: tq.step_inv)
  have abs: "abs_queue c (task_step c s cmd) = aq_next (abs_queue c s) cmd"
    using Cons.prems by (simp add: tq.step_abs)
  have "count_accepted (is_claim_of i) c (task_step c s cmd) cmds +
      pending_claim (abs_queue c (run_tasks c s (cmd # cmds))) i
    \<le> pending_claim (aq_next (abs_queue c s) cmd) i + count_accepted (is_assign_of i) c (task_step c s cmd) cmds"
    using Cons.IH[OF ready] Cons.prems by (simp add: run_tasks_def abs)
  with pending_claim_step[of i cmd "abs_queue c s"] Cons.prems show ?case
    by (simp add: accepted_ready)
qed

section \<open>Committed tasks\<close>

definition keeps_committed :: "codec \<Rightarrow> string \<Rightarrow> kv \<Rightarrow> bool" where
  "keeps_committed c i s \<longleftrightarrow> queue_ready c s \<and> (\<exists>r. recs c s i = Some r \<and> tr_committed r)"

lemma committed_status: "wf_record i r \<Longrightarrow> tr_committed r \<Longrightarrow> tr_status r \<in> {Running, Done, Failed}"
  by (cases "tr_status r") (auto simp: wf_record_def)

interpretation committed: invariant_machine "task_step c"
  "\<lambda>cmd. cmd_ok cmd \<and> i \<notin> set (vacuum_ids cmd)" "keeps_committed c i" for c i
proof
  fix s e
  assume "keeps_committed c i s" and cmd: "cmd_ok e \<and> i \<notin> set (vacuum_ids e)"
  then obtain r where ready: "queue_ready c s" and r: "recs c s i = Some r" "tr_committed r"
    by (auto simp: keeps_committed_def)
  then have "recs c (task_step c s e) i = Some (if cmd_id e = Some i then next_record e r else r)"
    using cmd by (simp add: recs_step_Some)
  then show "keeps_committed c i (task_step c s e)"
    using r cmd ready next_record_committed[OF ready_wf[OF ready r(1)]]
    by (simp add: keeps_committed_def tq.step_inv)
qed

end
