(* ===== verification/TaskClaims.thy ===== *)
theory TaskClaims
  imports TaskProperties
begin

text \<open>
  The properties of the replicated task queue. Each holds for every store that satisfies
  \<open>queue_inv\<close> (every store reachable from an empty one, C2) and every serialiser that
  satisfies \<open>codec_ok\<close>; the examples run on \<open>demo_codec\<close>.
\<close>

section \<open>An example log\<close>

definition demo_log :: "task_request list" where
  "demo_log = [TaskEnqueue ''t1'' ''job'' 5 (Some ''k'') 3, TaskEnqueue ''t2'' ''job'' 6 None 4,
     TaskAssign ''t1'' ''n1'' 7 8, TaskClaim ''t1'' ''n1'' 7 9, TaskMarkCommitted ''t1'' ''n1'' 7 10]"

lemma demo_log_ok [simp]: "list_all cmd_ok demo_log"
  by (simp add: demo_log_def cmd_ok_def no_colon_def)

definition demo_store :: kv where
  "demo_store = run_tasks demo_codec [] demo_log"

lemma demo_ready [simp]: "queue_ready demo_codec demo_store"
  unfolding demo_store_def by (rule run_tasks_ready) (simp_all add: queue_ready_empty)

lemma demo_inv [simp]: "queue_inv demo_codec demo_store"
  using demo_ready by (simp add: queue_ready_def)

lemma demo_recs:
  "recs demo_codec demo_store = [''t1'' \<mapsto> \<lparr>tr_id = ''t1'', tr_payload = ''job'', tr_status = Running,
     tr_attempts = 1, tr_run_at = 5, tr_idem_key = Some ''k'', tr_assigned_node_id = Some ''n1'',
     tr_lease_epoch = Some 7, tr_committed = True, tr_error = None, tr_updated_at = 10,
     tr_created_at = 3, tr_completed_at = 0, tr_result = None\<rparr>,
     ''t2'' \<mapsto> new_record ''t2'' ''job'' 6 None 4]"
  unfolding demo_store_def
  by (simp add: recs_run queue_ready_empty abs_queue_empty)
     (simp add: demo_log_def aq_next_def new_record_def ack_matches_def sat_add_def
      fun_eq_iff Let_def)

definition demo_done :: kv where
  "demo_done = task_step demo_codec demo_store (TaskDone ''t1'' ''n1'' 7 1 12 None)"

lemma demo_done_inv [simp]: "queue_inv demo_codec demo_done"
  using tq.step_inv[OF demo_ready, of "TaskDone ''t1'' ''n1'' 7 1 12 None"]
  by (simp add: demo_done_def queue_ready_def cmd_ok_def)

section \<open>Commands and logs\<close>

text \<open>C1: every command, on a store whose tables agree, succeeds; the write batch keeps every
  secondary table in agreement with the records, the new contents are what the abstract queue
  prescribes, and the response decodes to the abstract answer.\<close>

theorem task_command_refines:
  assumes "codec_ok c" "queue_inv c s" "cmd_ok cmd"
  shows "\<exists>s' resp. exec_task c s cmd = Inr (s', resp) \<and> queue_inv c s' \<and>
    abs_queue c s' = fst (aq_step (abs_queue c s) cmd) \<and>
    from_response c resp = Some (snd (aq_step (abs_queue c s) cmd))"
  using simulates_all[OF assms] from_into_response[OF assms(1)] unfolding simulates_def by blast

theorem task_command_refines_witness:
  "\<exists>s' resp. exec_task demo_codec demo_store (TaskAssign ''t2'' ''n1'' 8 11) = Inr (s', resp) \<and>
    queue_inv demo_codec s' \<and>
    abs_queue demo_codec s' = fst (aq_step (abs_queue demo_codec demo_store) (TaskAssign ''t2'' ''n1'' 8 11)) \<and>
    from_response demo_codec resp =
      Some (snd (aq_step (abs_queue demo_codec demo_store) (TaskAssign ''t2'' ''n1'' 8 11)))"
  by (rule task_command_refines) (simp_all add: cmd_ok_def no_colon_def)

text \<open>C2: after any log of commands applied to an empty store, every index, the idempotency table
  and the lease table agree with the records, and the contents are those the abstract queue reaches
  with the same log.\<close>

theorem task_log_from_empty:
  assumes "codec_ok c" "list_all cmd_ok cmds"
  shows "queue_inv c (run_tasks c [] cmds) \<and>
    abs_queue c (run_tasks c [] cmds) =
      foldl aq_next \<lparr>aq_recs = Map.empty, aq_idem = Map.empty, aq_leases = Map.empty\<rparr> cmds"
  using run_tasks_ready[OF queue_ready_empty assms(2)] run_tasks_abs[OF queue_ready_empty assms(2)]
    assms(1) by (simp add: queue_ready_def abs_queue_empty)

theorem task_log_from_empty_witness:
  "queue_inv demo_codec (run_tasks demo_codec [] demo_log) \<and>
    abs_queue demo_codec (run_tasks demo_codec [] demo_log) =
      foldl aq_next \<lparr>aq_recs = Map.empty, aq_idem = Map.empty, aq_leases = Map.empty\<rparr> demo_log"
  by (rule task_log_from_empty) simp_all

text \<open>C3: a command moves a task only along the edges of the status graph (queued, assigned,
  running, then done, failed or back to queued; assigned back to queued; failed back to queued);
  with an unchanged status only the commit mark can change a record; and a record disappears only
  when it is terminal and named by a vacuum.\<close>

theorem task_status_transitions:
  assumes "codec_ok c" "queue_inv c s" "cmd_ok cmd" "recs c s i = Some r"
  shows "case recs c (task_step c s cmd) i of
      None \<Rightarrow> is_terminal r \<and> (\<exists>is. cmd = TaskVacuum is \<and> i \<in> set is)
    | Some r' \<Rightarrow> r' = r \<or> status_edge (tr_status r) (tr_status r') \<or>
        tr_status r' = tr_status r \<and> (\<exists>i n e now. cmd = TaskMarkCommitted i n e now)"
proof -
  have ready: "queue_ready c s" using assms by (simp add: queue_ready_def)
  have "i \<in> set (vacuum_ids cmd) \<Longrightarrow> \<exists>is. cmd = TaskVacuum is \<and> i \<in> set is"
    by (cases cmd) auto
  then show ?thesis
    using recs_step_Some[OF ready assms(3,4)] next_record_status[OF ready_wf[OF ready assms(4)], of cmd]
    by auto
qed

theorem task_status_transitions_witness:
  "case recs demo_codec (task_step demo_codec demo_store (TaskDone ''t1'' ''n1'' 7 1 12 None)) ''t1'' of
      None \<Rightarrow> is_terminal (the (recs demo_codec demo_store ''t1'')) \<and>
        (\<exists>is. TaskDone ''t1'' ''n1'' 7 1 12 None = TaskVacuum is \<and> ''t1'' \<in> set is)
    | Some r' \<Rightarrow> r' = the (recs demo_codec demo_store ''t1'') \<or>
        status_edge (tr_status (the (recs demo_codec demo_store ''t1''))) (tr_status r') \<or>
        tr_status r' = tr_status (the (recs demo_codec demo_store ''t1'')) \<and>
        (\<exists>i n e now. TaskDone ''t1'' ''n1'' 7 1 12 None = TaskMarkCommitted i n e now)"
  by (rule task_status_transitions) (simp_all add: cmd_ok_def demo_recs)

text \<open>C4: once a task has passed its commit point no log of commands puts it back into the queue
  or hands it to another worker: until a vacuum names it, its record stays, stays committed, and is
  running, done or failed.\<close>

theorem committed_never_requeued:
  assumes "codec_ok c" "queue_inv c s" "list_all cmd_ok cmds"
    and "recs c s i = Some r" "tr_committed r" "list_all (\<lambda>cmd. i \<notin> set (vacuum_ids cmd)) cmds"
  shows "\<exists>r'. recs c (run_tasks c s cmds) i = Some r' \<and> tr_committed r' \<and>
    tr_status r' \<in> {Running, Done, Failed}"
proof -
  have "keeps_committed c i (run_tasks c s cmds)"
    unfolding run_tasks_def
    by (rule committed.run_inv) (use assms in \<open>auto simp: keeps_committed_def queue_ready_def list_all_iff\<close>)
  then show ?thesis using committed_status ready_wf unfolding keeps_committed_def by blast
qed

theorem committed_never_requeued_witness:
  "\<exists>r'. recs demo_codec (run_tasks demo_codec demo_store
        [TaskRequeue ''t1'', TaskReplay ''t1'' 20, TaskAssign ''t1'' ''n2'' 9 21]) ''t1'' = Some r' \<and>
    tr_committed r' \<and> tr_status r' \<in> {Running, Done, Failed}"
  by (rule committed_never_requeued[where r = "the (recs demo_codec demo_store ''t1'')"])
     (simp_all add: cmd_ok_def no_colon_def demo_recs)

text \<open>C5: a lease is a fencing token. Once a worker no longer holds \<open>(node, epoch)\<close> of a task,
  then whatever commands run next, each claim, commit mark, completion or failure it still sends is
  rejected and writes nothing, unless the task was assigned to that very pair again in between. The
  exception is real: an epoch is that of a worker's registration, so the scheduler can give the task
  back to the same pair.\<close>

theorem stale_lease_fenced:
  assumes "codec_ok c" "queue_inv c s" "list_all cmd_ok cmds"
    and "\<forall>r. recs c s i = Some r \<longrightarrow> \<not> holds_lease r n e" "ack_of i n e ack"
  shows "(\<exists>reason. exec_task c (run_tasks c s cmds) ack =
      Inr (run_tasks c s cmds, into_response c (op_result_rejected reason))) \<or>
    (\<exists>pre cmd post. cmds = pre @ cmd # post \<and> assigns_to i n e cmd \<and> accepted c (run_tasks c s pre) cmd)"
proof -
  have ready: "queue_ready c s" using assms by (simp add: queue_ready_def)
  have "free_of (abs_queue c s) i n e" using assms(4) by (simp add: free_of_def split: option.split)
  moreover have "queue_inv c (run_tasks c s cmds)" using run_tasks_ready[OF ready assms(3)] by (simp add: queue_ready_def)
  ultimately show ?thesis using free_of_log[OF ready assms(3)] fenced_exec[OF _ _ assms(5)] by blast
qed

abbreviation demo_stale :: "task_request list" where
  "demo_stale \<equiv> [TaskFail ''t1'' ''n1'' 7 1 ''boom'' 30 20, TaskReplay ''t1'' 21, TaskAssign ''t1'' ''n1'' 8 22]"

theorem stale_lease_fenced_witness:
  "\<exists>reason. exec_task demo_codec (run_tasks demo_codec demo_store demo_stale) (TaskDone ''t1'' ''n1'' 6 1 23 None) =
    Inr (run_tasks demo_codec demo_store demo_stale, into_response demo_codec (op_result_rejected reason))"
proof -
  have "\<not> (\<exists>pre cmd post. demo_stale = pre @ cmd # post \<and> assigns_to ''t1'' ''n1'' 6 cmd \<and>
      accepted demo_codec (run_tasks demo_codec demo_store pre) cmd)"
    by (auto simp: Cons_eq_append_conv)
  moreover have "(\<exists>reason. exec_task demo_codec (run_tasks demo_codec demo_store demo_stale) (TaskDone ''t1'' ''n1'' 6 1 23 None) =
      Inr (run_tasks demo_codec demo_store demo_stale, into_response demo_codec (op_result_rejected reason))) \<or>
    (\<exists>pre cmd post. demo_stale = pre @ cmd # post \<and> assigns_to ''t1'' ''n1'' 6 cmd \<and>
      accepted demo_codec (run_tasks demo_codec demo_store pre) cmd)"
    by (rule stale_lease_fenced) (simp_all add: cmd_ok_def no_colon_def demo_recs holds_lease_def)
  ultimately show ?thesis by blast
qed

text \<open>A pair that gets its task back: an old claim of the first assignment takes the second.\<close>

lemma lease_pair_reused:
  "accepted demo_codec (run_tasks demo_codec demo_store
     [TaskAssign ''t2'' ''n1'' 7 11, TaskRequeue ''t2'', TaskAssign ''t2'' ''n1'' 7 22]) (TaskClaim ''t2'' ''n1'' 7 12)"
proof -
  let ?s = "run_tasks demo_codec demo_store
     [TaskAssign ''t2'' ''n1'' 7 11, TaskRequeue ''t2'', TaskAssign ''t2'' ''n1'' 7 22]"
  have "queue_ready demo_codec ?s" by (rule run_tasks_ready[OF demo_ready]) (simp add: cmd_ok_def no_colon_def)
  moreover have "\<exists>r. recs demo_codec ?s ''t2'' = Some r \<and> tr_status r = Assigned \<and> holds_lease r ''n1'' 7"
    by (simp add: recs_run[OF demo_ready] cmd_ok_def no_colon_def aq_next_def demo_recs new_record_def holds_lease_def Let_def)
  ultimately show ?thesis
    by (auto simp: accepted_ready cmd_ok_def holds_lease_def op_result_id_def Let_def)
qed

text \<open>C6: work is handed out at most once per assignment: in every log from an empty store the
  number of accepted claims of a task, plus one while it is still assigned and unclaimed, is at
  most the number of accepted assignments.\<close>

theorem claims_bounded_by_assignments:
  assumes "codec_ok c" "list_all cmd_ok cmds"
  shows "count_accepted (is_claim_of i) c [] cmds +
      (case recs c (run_tasks c [] cmds) i of None \<Rightarrow> 0
       | Some r \<Rightarrow> if tr_status r = Assigned then 1 else 0)
    \<le> count_accepted (is_assign_of i) c [] cmds"
  using claims_le_assigns[OF queue_ready_empty assms(2), of c i] assms(1)
  by (simp add: pending_claim_def abs_queue_empty)

theorem claims_bounded_by_assignments_witness:
  "count_accepted (is_claim_of ''t1'') demo_codec [] demo_log +
      (case recs demo_codec (run_tasks demo_codec [] demo_log) ''t1'' of None \<Rightarrow> 0
       | Some r \<Rightarrow> if tr_status r = Assigned then 1 else 0)
    \<le> count_accepted (is_assign_of ''t1'') demo_codec [] demo_log"
  by (rule claims_bounded_by_assignments) simp_all

text \<open>C7: an idempotency key names at most one task in every reachable store, and a second enqueue
  under that key answers the id of the first task, is marked deduplicated and writes nothing.\<close>

theorem enqueue_deduplicates:
  assumes "codec_ok c" "queue_inv c s" "recs c s i = Some r" "tr_idem_key r = Some k"
  shows "exec_task c s (TaskEnqueue i' p t (Some k) u) =
      Inr (s, into_response c (op_result_id i (Some True) None None)) \<and>
    {j. \<exists>r'. recs c s j = Some r' \<and> tr_idem_key r' = Some k} = {i}"
proof -
  have idem: "cf_get s (idem_record_key k) = Some j \<longleftrightarrow> (\<exists>r. recs c s j = Some r \<and> tr_idem_key r = Some k)" for j
    using queue_invD(3)[OF assms(2)] by (simp add: idem_ok_def)
  then have get: "cf_get s (idem_record_key k) = Some i" using assms(3,4) by blast
  then have "exec_task c s (TaskEnqueue i' p t (Some k) u) =
      Inr (s, into_response c (op_result_id i (Some True) None None))"
    by (simp add: exec_task_def apply_enqueue_def cf_read_def op_result_id_def)
  moreover have "{j. \<exists>r'. recs c s j = Some r' \<and> tr_idem_key r' = Some k} = {i}"
    using idem by (simp add: get flip: idem)
  ultimately show ?thesis ..
qed

theorem enqueue_deduplicates_witness:
  "exec_task demo_codec demo_store (TaskEnqueue ''t9'' ''other'' 50 (Some ''k'') 51) =
      Inr (demo_store, into_response demo_codec (op_result_id ''t1'' (Some True) None None)) \<and>
    {j. \<exists>r'. recs demo_codec demo_store j = Some r' \<and> tr_idem_key r' = Some ''k''} = {''t1''}"
  by (rule enqueue_deduplicates[where r = "the (recs demo_codec demo_store ''t1'')"])
     (simp_all add: demo_recs)

text \<open>C22: a vacuum removes exactly the terminal tasks it names, with their idempotency keys and index
  entries, and leaves every other record, key and lease as it was.\<close>

theorem vacuum_exact:
  assumes "codec_ok c" "queue_inv c s"
  shows "\<exists>s' resp. exec_task c s (TaskVacuum is) = Inr (s', resp) \<and> queue_inv c s' \<and>
    recs c s' = (\<lambda>i. if i \<in> set is \<and> (\<exists>r. recs c s i = Some r \<and> is_terminal r) then None else recs c s i) \<and>
    (\<forall>k i. cf_get s' (idem_record_key k) = Some i \<longleftrightarrow>
       (\<exists>r. recs c s i = Some r \<and> tr_idem_key r = Some k \<and> \<not> (i \<in> set is \<and> is_terminal r))) \<and>
    leases c s' = leases c s"
proof -
  obtain s' where s': "exec_task c s (TaskVacuum is) =
      Inr (s', into_response c (snd (aq_step (abs_queue c s) (TaskVacuum is))))"
    "queue_inv c s'" "abs_queue c s' = aq_next (abs_queue c s) (TaskVacuum is)"
    by (rule exec_task_ready[of c s "TaskVacuum is"]) (use assms in \<open>simp_all add: queue_ready_def cmd_ok_def\<close>)
  have "recs c s' = aq_recs (aq_next (abs_queue c s) (TaskVacuum is))"
    "leases c s' = aq_leases (aq_next (abs_queue c s) (TaskVacuum is))"
    using arg_cong[OF s'(3), of aq_recs] arg_cong[OF s'(3), of aq_leases] by (simp_all add: abs_queue_def)
  then have recs: "recs c s' = (\<lambda>i. if i \<in> set is \<and> (\<exists>r. recs c s i = Some r \<and> is_terminal r) then None else recs c s i)"
    and lease: "leases c s' = leases c s"
    by (auto simp: aq_next_def Let_def vacuumed_def fun_eq_iff abs_queue_def split: option.splits)
  have "cf_get s' (idem_record_key k) = Some i \<longleftrightarrow>
      (\<exists>r. recs c s i = Some r \<and> tr_idem_key r = Some k \<and> \<not> (i \<in> set is \<and> is_terminal r))" for k i
    using queue_invD(3)[OF s'(2)] by (auto simp: idem_ok_def recs)
  with s' recs lease show ?thesis by blast
qed

theorem vacuum_exact_witness:
  "\<exists>s' resp. exec_task demo_codec demo_done (TaskVacuum [''t1'', ''t2'']) = Inr (s', resp) \<and>
    queue_inv demo_codec s' \<and>
    recs demo_codec s' = (\<lambda>i. if i \<in> set [''t1'', ''t2''] \<and>
        (\<exists>r. recs demo_codec demo_done i = Some r \<and> is_terminal r) then None
      else recs demo_codec demo_done i) \<and>
    (\<forall>k i. cf_get s' (idem_record_key k) = Some i \<longleftrightarrow>
       (\<exists>r. recs demo_codec demo_done i = Some r \<and> tr_idem_key r = Some k \<and>
          \<not> (i \<in> set [''t1'', ''t2''] \<and> is_terminal r))) \<and>
    leases demo_codec s' = leases demo_codec demo_done"
  by (rule vacuum_exact) simp_all

end
