(* ===== verification/StateMachine.thy ===== *)
theory StateMachine
  imports TaskProperties
begin

text \<open>
  \<open>RaftStateMachine::apply\<close> of \<open>src/rocksstore_crud/state_machine.rs\<close>: a stream of committed
  entries is turned into one RocksDB write batch, one list of changes of the in-memory map and
  the responses of the proposers. Task commands read through an overlay of the pending writes.
  A cell of \<open>sm_data\<close> is a Rust string: every cell was written from one or was checked by
  \<open>decode_utf8\<close> when the map was loaded (\<open>Snapshots\<close>), so the byte conversions of \<open>read\<close> are
  the identity here. Log ids, memberships and their serialisation belong to openraft and
  \<open>sonic_rs\<close> and come in through \<open>sm_api\<close>.
\<close>

section \<open>State\<close>

definition LAST_APPLIED_LOG_KEY :: string where "LAST_APPLIED_LOG_KEY = ''last_applied_log''"
definition LAST_MEMBERSHIP_KEY :: string where "LAST_MEMBERSHIP_KEY = ''last_membership''"

record ('i, 'm, 'sm) sm_api =
  enc_applied :: "'i \<Rightarrow> string result"
  dec_applied :: "string \<Rightarrow> 'i result"
  enc_membership :: "'sm \<Rightarrow> string result"
  dec_membership :: "string \<Rightarrow> 'sm result"
  stored_membership :: "'i option \<Rightarrow> 'm \<Rightarrow> 'sm"
  default_membership :: 'sm

definition sm_api_ok :: "('i, 'm, 'sm) sm_api \<Rightarrow> bool" where
  "sm_api_ok a \<longleftrightarrow>
     (\<forall>i. \<exists>s. enc_applied a i = Inr s \<and> dec_applied a s = Inr i) \<and>
     (\<forall>m. \<exists>s. enc_membership a m = Inr s \<and> dec_membership a s = Inr m)"

record rocks_sm =
  sm_data :: "(string, string) cf"
  sm_meta :: "(string, string) cf"
  sm_memory :: "(string, string) cf"

datatype 'm payload = Blank | Normal request | Membership 'm

text \<open>An entry of the stream; the flag says whether a proposer waits for the response.\<close>

record ('i, 'm) sm_entry =
  en_log_id :: 'i
  en_payload :: "'m payload"
  en_responder :: bool

datatype data_change = DcSet string string | DcDelete string

definition apply_memory_change :: "(string, string) cf \<Rightarrow> data_change \<Rightarrow> (string, string) cf" where
  "apply_memory_change m ch = (case ch of DcSet k v \<Rightarrow> cf_put m k v | DcDelete k \<Rightarrow> cf_del m k)"

definition apply_memory_changes :: "(string, string) cf \<Rightarrow> data_change list \<Rightarrow> (string, string) cf" where
  "apply_memory_changes m chs = foldl apply_memory_change m chs"

section \<open>The loop over the entries\<close>

record ('i, 'sm) apply_acc =
  ac_batch :: "kv_mutation list"
  ac_overlay :: "string \<Rightarrow> string option option"
  ac_changes :: "data_change list"
  ac_last_applied :: "'i option"
  ac_membership :: "'sm option"
  ac_responses :: "response list"
  ac_schedule :: bool

definition acc_init :: "('i, 'sm) apply_acc" where
  "acc_init = \<lparr>ac_batch = [], ac_overlay = Map.empty, ac_changes = [], ac_last_applied = None,
     ac_membership = None, ac_responses = [], ac_schedule = False\<rparr>"

text \<open>One pending write, to the batch, to the overlay and to the memory changes.\<close>

definition push_write :: "('i, 'sm) apply_acc \<Rightarrow> kv_mutation \<Rightarrow> ('i, 'sm) apply_acc" where
  "push_write acc m = acc\<lparr>ac_batch := ac_batch acc @ [m],
     ac_overlay := (ac_overlay acc)(fst m \<mapsto> snd m),
     ac_changes := ac_changes acc @ [case snd m of Some v \<Rightarrow> DcSet (fst m) v | None \<Rightarrow> DcDelete (fst m)]\<rparr>"

definition overlay_read :: "(string, string) cf \<Rightarrow> ('i, 'sm) apply_acc \<Rightarrow> state_read" where
  "overlay_read base acc k = (case ac_overlay acc k of
      Some pending \<Rightarrow> Inr pending
    | None \<Rightarrow> Inr (cf_get base k))"

definition apply_payload ::
  "codec \<Rightarrow> ('i, 'm, 'sm) sm_api \<Rightarrow> (string, string) cf \<Rightarrow> ('i, 'm) sm_entry \<Rightarrow>
   ('i, 'sm) apply_acc \<Rightarrow> (('i, 'sm) apply_acc \<times> response) result" where
  "apply_payload c a base entry acc = (case en_payload entry of
      Blank \<Rightarrow> Inr (acc, response_none)
    | Normal (ReqSet key v) \<Rightarrow>
        Inr (push_write acc (mut_put key v),
             if en_responder entry then response_new v else response_none)
    | Normal (ReqDelete key) \<Rightarrow> Inr (push_write acc (mut_del key), response_none)
    | Normal (ReqTask cmd) \<Rightarrow>
        (let acc1 = acc\<lparr>ac_schedule := ac_schedule acc \<or> is_schedule_event cmd\<rparr> in
         rbind (apply_task_command c (overlay_read base acc) cmd)
           (\<lambda>(ms, resp). Inr (foldl push_write acc1 ms, resp)))
    | Membership mem \<Rightarrow>
        Inr (acc\<lparr>ac_membership := Some (stored_membership a (Some (en_log_id entry)) mem)\<rparr>,
             response_none))"

definition apply_entry ::
  "codec \<Rightarrow> ('i, 'm, 'sm) sm_api \<Rightarrow> (string, string) cf \<Rightarrow> ('i, 'sm) apply_acc \<Rightarrow>
   ('i, 'm) sm_entry \<Rightarrow> ('i, 'sm) apply_acc result" where
  "apply_entry c a base acc entry =
     rbind (apply_payload c a base entry (acc\<lparr>ac_last_applied := Some (en_log_id entry)\<rparr>))
     (\<lambda>(acc', resp). Inr (if en_responder entry
        then acc'\<lparr>ac_responses := ac_responses acc' @ [resp]\<rparr> else acc'))"

fun apply_loop ::
  "codec \<Rightarrow> ('i, 'm, 'sm) sm_api \<Rightarrow> (string, string) cf \<Rightarrow> ('i, 'sm) apply_acc \<Rightarrow>
   ('i, 'm) sm_entry result list \<Rightarrow> ('i, 'sm) apply_acc result" where
  "apply_loop c a base acc [] = Inr acc"
| "apply_loop c a base acc (item # items) =
     rbind item (\<lambda>entry. rbind (apply_entry c a base acc entry)
       (\<lambda>acc'. apply_loop c a base acc' items))"

definition opt_put :: "('x \<Rightarrow> string result) \<Rightarrow> string \<Rightarrow> 'x option \<Rightarrow> kv_mutation list result" where
  "opt_put enc key x = (case x of None \<Rightarrow> Inr []
     | Some y \<Rightarrow> rbind (enc y) (\<lambda>bytes. Inr [mut_put key bytes]))"

text \<open>\<open>apply\<close>: the new state, the responses in order, and whether the scheduler is woken.\<close>

definition sm_apply ::
  "codec \<Rightarrow> ('i, 'm, 'sm) sm_api \<Rightarrow> rocks_sm \<Rightarrow> ('i, 'm) sm_entry result list \<Rightarrow>
   (rocks_sm \<times> response list \<times> bool) result" where
  "sm_apply c a sm entries =
     rbind (apply_loop c a (sm_data sm) acc_init entries) (\<lambda>acc.
     rbind (opt_put (enc_applied a) LAST_APPLIED_LOG_KEY (ac_last_applied acc)) (\<lambda>meta1.
     rbind (opt_put (enc_membership a) LAST_MEMBERSHIP_KEY (ac_membership acc)) (\<lambda>meta2.
       Inr (\<lparr>sm_data = cf_batch (sm_data sm) (ac_batch acc),
             sm_meta = cf_batch (sm_meta sm) (meta1 @ meta2),
             sm_memory = (if ac_changes acc = [] then sm_memory sm
                          else apply_memory_changes (sm_memory sm) (ac_changes acc))\<rparr>,
            ac_responses acc, ac_schedule acc))))"

text \<open>\<open>get_meta\<close>, and with it \<open>applied_state\<close>.\<close>

definition applied_state :: "('i, 'm, 'sm) sm_api \<Rightarrow> rocks_sm \<Rightarrow> ('i option \<times> 'sm) result" where
  "applied_state a sm =
     rbind (case cf_get (sm_meta sm) LAST_APPLIED_LOG_KEY of None \<Rightarrow> Inr None
       | Some bytes \<Rightarrow> rbind (dec_applied a bytes) (\<lambda>i. Inr (Some i)))
     (\<lambda>last. rbind (case cf_get (sm_meta sm) LAST_MEMBERSHIP_KEY of
         None \<Rightarrow> Inr (default_membership a) | Some bytes \<Rightarrow> dec_membership a bytes)
     (\<lambda>mem. Inr (last, mem)))"

section \<open>The batch, the overlay and the memory map agree\<close>

definition sm_inv :: "rocks_sm \<Rightarrow> bool" where
  "sm_inv sm \<longleftrightarrow> cf_ok (sm_data sm) \<and> cf_ok (sm_meta sm) \<and> sm_memory sm = sm_data sm"

definition change_write :: "data_change \<Rightarrow> kv_mutation" where
  "change_write ch = (case ch of DcSet k v \<Rightarrow> (k, Some v) | DcDelete k \<Rightarrow> (k, None))"

lemma memory_changes_batch: "apply_memory_changes m chs = cf_batch m (map change_write chs)"
proof (induction chs arbitrary: m)
  case (Cons ch chs)
  then show ?case
    by (cases ch) (simp_all add: apply_memory_changes_def apply_memory_change_def change_write_def cf_write_def)
qed (simp add: apply_memory_changes_def)

definition acc_ok :: "('i, 'sm) apply_acc \<Rightarrow> bool" where
  "acc_ok acc \<longleftrightarrow> ac_overlay acc = last_write (ac_batch acc) \<and>
     map change_write (ac_changes acc) = ac_batch acc"

lemma acc_ok_init [simp]: "acc_ok acc_init"
  by (simp add: acc_ok_def acc_init_def fun_eq_iff)

lemma acc_ok_push: "acc_ok acc \<Longrightarrow> acc_ok (push_write acc m)"
  by (cases m) (auto simp: acc_ok_def push_write_def change_write_def last_write_append fun_eq_iff
      split: option.split)

lemma push_writes_batch: "ac_batch (foldl push_write acc ms) = ac_batch acc @ ms"
  by (induction ms arbitrary: acc) (simp_all add: push_write_def)

lemma acc_ok_pushes: "acc_ok acc \<Longrightarrow> acc_ok (foldl push_write acc ms)"
  by (induction ms arbitrary: acc) (simp_all add: acc_ok_push)

text \<open>A read through the overlay is a read of the store with the pending batch applied.\<close>

lemma overlay_read_eq: "acc_ok acc \<Longrightarrow> overlay_read base acc = cf_read (cf_batch base (ac_batch acc))"
  by (auto simp: overlay_read_def acc_ok_def cf_read_def cf_get_batch fun_eq_iff split: option.split)

section \<open>Chunks of the entry stream\<close>

text \<open>What a loop that starts from \<open>acc0\<close> has done, when the rest of it did \<open>acc\<close>.\<close>

definition acc_add :: "('i, 'sm) apply_acc \<Rightarrow> ('i, 'sm) apply_acc \<Rightarrow> ('i, 'sm) apply_acc" where
  "acc_add acc0 acc = \<lparr>ac_batch = ac_batch acc0 @ ac_batch acc,
     ac_overlay = ac_overlay acc0 ++ ac_overlay acc,
     ac_changes = ac_changes acc0 @ ac_changes acc,
     ac_last_applied = (case ac_last_applied acc of None \<Rightarrow> ac_last_applied acc0 | Some i \<Rightarrow> Some i),
     ac_membership = (case ac_membership acc of None \<Rightarrow> ac_membership acc0 | Some m \<Rightarrow> Some m),
     ac_responses = ac_responses acc0 @ ac_responses acc,
     ac_schedule = (ac_schedule acc0 \<or> ac_schedule acc)\<rparr>"

lemma acc_add_init [simp]: "acc_add acc acc_init = acc"
  by (simp add: acc_add_def acc_init_def)

lemma acc_add_push: "push_write (acc_add acc0 acc) m = acc_add acc0 (push_write acc m)"
  by (simp add: acc_add_def push_write_def)

lemma acc_add_pushes: "foldl push_write (acc_add acc0 acc) ms = acc_add acc0 (foldl push_write acc ms)"
  by (induction ms arbitrary: acc) (simp_all add: acc_add_push)

lemma acc_add_updates:
  "acc_add acc0 acc\<lparr>ac_last_applied := Some i\<rparr> = acc_add acc0 (acc\<lparr>ac_last_applied := Some i\<rparr>)"
  "acc_add acc0 acc\<lparr>ac_membership := Some m\<rparr> = acc_add acc0 (acc\<lparr>ac_membership := Some m\<rparr>)"
  "acc_add acc0 acc\<lparr>ac_responses := ac_responses (acc_add acc0 acc) @ rs\<rparr> =
     acc_add acc0 (acc\<lparr>ac_responses := ac_responses acc @ rs\<rparr>)"
  "acc_add acc0 acc\<lparr>ac_schedule := ac_schedule (acc_add acc0 acc) \<or> b\<rparr> =
     acc_add acc0 (acc\<lparr>ac_schedule := ac_schedule acc \<or> b\<rparr>)"
  by (simp_all add: acc_add_def)

lemma overlay_read_add:
  assumes "acc_ok acc0"
  shows "overlay_read base (acc_add acc0 acc) = overlay_read (cf_batch base (ac_batch acc0)) acc"
proof
  fix k
  have "cf_get (cf_batch base (ac_batch acc0)) k =
      (case ac_overlay acc0 k of Some w \<Rightarrow> w | None \<Rightarrow> cf_get base k)"
    using assms by (simp add: acc_ok_def cf_get_batch)
  then show "overlay_read base (acc_add acc0 acc) k = overlay_read (cf_batch base (ac_batch acc0)) acc k"
    by (auto simp: overlay_read_def acc_add_def map_add_def split: option.split)
qed

lemma acc_add_task:
  "rbind m (\<lambda>(ms, r). Inr (foldl push_write (acc_add acc0 acc) ms, r)) =
   rbind (rbind m (\<lambda>(ms, r). Inr (foldl push_write acc ms, r))) (\<lambda>(acc', r). Inr (acc_add acc0 acc', r))"
  by (cases m) (auto simp: acc_add_pushes)

lemma apply_payload_add:
  assumes "acc_ok acc0"
  shows "apply_payload c a base e (acc_add acc0 acc) =
    rbind (apply_payload c a (cf_batch base (ac_batch acc0)) e acc) (\<lambda>(acc', r). Inr (acc_add acc0 acc', r))"
proof -
  show ?thesis
    using assms
    by (cases "en_payload e") (auto simp: apply_payload_def acc_add_push acc_add_updates acc_add_task Let_def
        overlay_read_add split: request.split)
qed

lemma apply_entry_add:
  assumes "acc_ok acc0"
  shows "apply_entry c a base (acc_add acc0 acc) e =
    rbind (apply_entry c a (cf_batch base (ac_batch acc0)) acc e) (\<lambda>acc'. Inr (acc_add acc0 acc'))"
proof (cases "apply_payload c a (cf_batch base (ac_batch acc0)) e (acc\<lparr>ac_last_applied := Some (en_log_id e)\<rparr>)")
  case (Inl err)
  then show ?thesis by (simp add: apply_entry_def acc_add_updates apply_payload_add[OF assms])
next
  case (Inr p)
  then show ?thesis
    by (cases p) (simp add: apply_entry_def acc_add_updates apply_payload_add[OF assms])
qed

lemma apply_loop_add:
  assumes "acc_ok acc0"
  shows "apply_loop c a base (acc_add acc0 acc) items =
    rbind (apply_loop c a (cf_batch base (ac_batch acc0)) acc items) (\<lambda>acc'. Inr (acc_add acc0 acc'))"
proof (induction items arbitrary: acc)
  case (Cons item items)
  show ?case
  proof (cases item)
    case (Inr e)
    then show ?thesis
      by (cases "apply_entry c a (cf_batch base (ac_batch acc0)) acc e")
         (simp_all add: apply_entry_add[OF assms] Cons.IH)
  qed simp
qed simp

lemma apply_payload_ok:
  "acc_ok acc \<Longrightarrow> apply_payload c a base e acc = Inr (acc', r) \<Longrightarrow> acc_ok acc'"
proof -
  assume ok: "acc_ok acc" and ap: "apply_payload c a base e acc = Inr (acc', r)"
  have upd: "acc_ok (acc\<lparr>ac_membership := m\<rparr>)" "acc_ok (acc\<lparr>ac_schedule := b\<rparr>)" for m b
    using ok by (simp_all add: acc_ok_def)
  show ?thesis
    using ap ok upd
    by (cases "en_payload e")
       (auto simp: apply_payload_def rbind_Inr_iff Let_def intro: acc_ok_push acc_ok_pushes split: request.splits)
qed

lemma apply_entry_ok: "acc_ok acc \<Longrightarrow> apply_entry c a base acc e = Inr acc' \<Longrightarrow> acc_ok acc'"
proof -
  assume ok: "acc_ok acc" and ap: "apply_entry c a base acc e = Inr acc'"
  then obtain acc1 r where "apply_payload c a base e (acc\<lparr>ac_last_applied := Some (en_log_id e)\<rparr>) = Inr (acc1, r)"
      "acc' = acc1 \<or> acc' = acc1\<lparr>ac_responses := ac_responses acc1 @ [r]\<rparr>"
    by (auto simp: apply_entry_def rbind_Inr_iff split: if_splits)
  moreover have "acc_ok (acc\<lparr>ac_last_applied := Some (en_log_id e)\<rparr>)" using ok by (simp add: acc_ok_def)
  ultimately have "acc_ok acc1" using apply_payload_ok by blast
  with \<open>acc' = acc1 \<or> _\<close> show ?thesis by (auto simp: acc_ok_def)
qed

lemma apply_loop_ok: "acc_ok acc \<Longrightarrow> apply_loop c a base acc items = Inr acc' \<Longrightarrow> acc_ok acc'"
  by (induction items arbitrary: acc) (auto simp: rbind_Inr_iff intro: apply_entry_ok)

lemma apply_loop_append:
  "apply_loop c a base acc (xs @ ys) = rbind (apply_loop c a base acc xs) (\<lambda>acc0. apply_loop c a base acc0 ys)"
proof (induction xs arbitrary: acc)
  case (Cons x xs)
  show ?case
  proof (cases x)
    case (Inr e)
    then show ?thesis by (cases "apply_entry c a base acc e") (simp_all add: Cons.IH)
  qed simp
qed simp

text \<open>The second chunk of a stream, applied after the first, reads what the first wrote.\<close>

lemma apply_loop_chunk:
  assumes "apply_loop c a base acc_init xs = Inr acc0"
  shows "apply_loop c a base acc_init (xs @ ys) =
    rbind (apply_loop c a (cf_batch base (ac_batch acc0)) acc_init ys) (\<lambda>acc'. Inr (acc_add acc0 acc'))"
  using apply_loop_add[OF apply_loop_ok[OF acc_ok_init assms], of c a base acc_init ys]
  by (simp add: apply_loop_append assms)

definition meta_writes :: "('i, 'm, 'sm) sm_api \<Rightarrow> ('i, 'sm) apply_acc \<Rightarrow> kv_mutation list" where
  "meta_writes a acc =
     (case ac_last_applied acc of None \<Rightarrow> []
      | Some i \<Rightarrow> [mut_put LAST_APPLIED_LOG_KEY (projr (enc_applied a i))]) @
     (case ac_membership acc of None \<Rightarrow> []
      | Some m \<Rightarrow> [mut_put LAST_MEMBERSHIP_KEY (projr (enc_membership a m))])"

lemma opt_put_ok:
  "(\<And>y. \<exists>s. enc y = Inr s) \<Longrightarrow>
   opt_put enc key x = Inr (case x of None \<Rightarrow> [] | Some y \<Rightarrow> [mut_put key (projr (enc y))])"
  by (cases x) (auto simp: opt_put_def, metis rbind.simps(2) sum.sel(2))

definition sm_commit ::
  "('i, 'm, 'sm) sm_api \<Rightarrow> rocks_sm \<Rightarrow> ('i, 'sm) apply_acc \<Rightarrow> rocks_sm \<times> response list \<times> bool" where
  "sm_commit a sm acc = (\<lparr>sm_data = cf_batch (sm_data sm) (ac_batch acc),
     sm_meta = cf_batch (sm_meta sm) (meta_writes a acc),
     sm_memory = apply_memory_changes (sm_memory sm) (ac_changes acc)\<rparr>,
     ac_responses acc, ac_schedule acc)"

lemma sm_apply_commit:
  assumes "sm_api_ok a"
  shows "sm_apply c a sm items = rbind (apply_loop c a (sm_data sm) acc_init items) (\<lambda>acc. Inr (sm_commit a sm acc))"
proof -
  have "\<And>i. \<exists>s. enc_applied a i = Inr s" "\<And>m. \<exists>s. enc_membership a m = Inr s"
    using assms unfolding sm_api_ok_def by blast+
  then show ?thesis
    by (cases "apply_loop c a (sm_data sm) acc_init items")
       (simp_all add: sm_apply_def opt_put_ok sm_commit_def meta_writes_def apply_memory_changes_def)
qed

lemma meta_keys_neq: "LAST_APPLIED_LOG_KEY \<noteq> LAST_MEMBERSHIP_KEY"
  by (simp add: LAST_APPLIED_LOG_KEY_def LAST_MEMBERSHIP_KEY_def)

lemma meta_writes_add:
  assumes "cf_ok m"
  shows "cf_batch (cf_batch m (meta_writes a acc0)) (meta_writes a acc) = cf_batch m (meta_writes a (acc_add acc0 acc))"
proof (rule cf_eqI)
  show "cf_get (cf_batch (cf_batch m (meta_writes a acc0)) (meta_writes a acc)) =
      cf_get (cf_batch m (meta_writes a (acc_add acc0 acc)))"
    by (cases "ac_last_applied acc"; cases "ac_membership acc"; cases "ac_last_applied acc0"; cases "ac_membership acc0")
       (auto simp: meta_writes_def acc_add_def meta_keys_neq fun_eq_iff)
qed (simp_all only: cf_ok_batch assms)

lemma sm_commit_add:
  assumes "sm_inv sm" "sm_commit a sm acc0 = (sm1, rs1, ev1)"
  shows "sm_commit a sm (acc_add acc0 acc) =
    (case sm_commit a sm1 acc of (sm2, rs2, ev2) \<Rightarrow> (sm2, rs1 @ rs2, ev1 \<or> ev2))"
proof -
  have "sm1 = fst (sm_commit a sm acc0)" "rs1 = ac_responses acc0" "ev1 = ac_schedule acc0"
    using assms(2) by (simp_all add: sm_commit_def)
  then show ?thesis using assms(1)
    by (simp add: sm_commit_def sm_inv_def meta_writes_add apply_memory_changes_def) (simp add: acc_add_def)
qed

lemma sm_commit_inv: "sm_inv sm \<Longrightarrow> acc_ok acc \<Longrightarrow> sm_inv (fst (sm_commit a sm acc))"
  by (simp add: sm_inv_def sm_commit_def cf_ok_batch memory_changes_batch acc_ok_def)

lemma sm_apply_inv:
  assumes "sm_api_ok a" "sm_inv sm" "sm_apply c a sm items = Inr (sm', rs, ev)"
  shows "sm_inv sm'"
proof -
  obtain acc where acc: "apply_loop c a (sm_data sm) acc_init items = Inr acc" "sm_commit a sm acc = (sm', rs, ev)"
    using assms(3) by (auto simp: sm_apply_commit[OF assms(1)] rbind_Inr_iff)
  from sm_commit_inv[OF assms(2) apply_loop_ok[OF acc_ok_init acc(1)], of a] acc(2) show ?thesis by simp
qed

lemma sm_apply_append:
  assumes "sm_api_ok a" "sm_inv sm"
  shows "sm_apply c a sm (xs @ ys) = rbind (sm_apply c a sm xs) (\<lambda>(sm1, rs1, ev1).
    rbind (sm_apply c a sm1 ys) (\<lambda>(sm2, rs2, ev2). Inr (sm2, rs1 @ rs2, ev1 \<or> ev2)))"
proof (cases "apply_loop c a (sm_data sm) acc_init xs")
  case (Inl err)
  then show ?thesis by (simp add: sm_apply_commit[OF assms(1)] apply_loop_append)
next
  case (Inr acc0)
  obtain sm1 rs1 ev1 where p: "sm_commit a sm acc0 = (sm1, rs1, ev1)" by (cases "sm_commit a sm acc0")
  have data: "sm_data sm1 = cf_batch (sm_data sm) (ac_batch acc0)"
    using arg_cong[OF p, of fst] by (auto simp: sm_commit_def)
  show ?thesis
    unfolding sm_apply_commit[OF assms(1)] apply_loop_chunk[OF Inr] Inr rbind.simps p prod.case data
    by (cases "apply_loop c a (cf_batch (sm_data sm) (ac_batch acc0)) acc_init ys")
       (simp_all add: sm_commit_add[OF assms(2) p] split_beta)
qed

text \<open>A replica applies the log in chunks of its own.\<close>

fun sm_apply_chunks ::
  "codec \<Rightarrow> ('i, 'm, 'sm) sm_api \<Rightarrow> rocks_sm \<Rightarrow> ('i, 'm) sm_entry result list list \<Rightarrow>
   (rocks_sm \<times> response list \<times> bool) result" where
  "sm_apply_chunks c a sm [] = Inr (sm, [], False)"
| "sm_apply_chunks c a sm (xs # xss) = rbind (sm_apply c a sm xs) (\<lambda>(sm1, rs1, ev1).
     rbind (sm_apply_chunks c a sm1 xss) (\<lambda>(sm2, rs2, ev2). Inr (sm2, rs1 @ rs2, ev1 \<or> ev2)))"

lemma sm_apply_Nil: "sm_apply c a sm [] = Inr (sm, [], False)"
  by (simp add: sm_apply_def acc_init_def opt_put_def)

lemma sm_apply_chunks_concat:
  assumes "sm_api_ok a" "sm_inv sm"
  shows "sm_apply_chunks c a sm xss = sm_apply c a sm (concat xss)"
  using assms(2)
proof (induction xss arbitrary: sm)
  case Nil
  then show ?case by (simp add: sm_apply_Nil)
next
  case (Cons xs xss)
  show ?case
  proof (cases "sm_apply c a sm xs")
    case (Inl err)
    then show ?thesis by (simp add: sm_apply_append[OF assms(1) Cons.prems])
  next
    case (Inr p)
    obtain sm1 rs1 ev1 where p: "p = (sm1, rs1, ev1)" by (cases p)
    then have "sm_inv sm1" using sm_apply_inv[OF assms(1) Cons.prems] Inr by simp
    then show ?thesis by (simp add: Inr p Cons.IH sm_apply_append[OF assms(1) Cons.prems])
  qed
qed

end
