(* ===== verification/StateMachineQueue.thy ===== *)
theory StateMachineQueue
  imports StateMachine
begin

text \<open>
  The state machine as the store of the task queue: an entry stream whose plain writes stay
  outside the reserved \<open>task:\<close> key space runs the task commands of the stream on the abstract
  queue, one after the other, however the stream is cut into batches.
\<close>

section \<open>Writes outside the task key space\<close>

definition TASK_SPACE :: string where "TASK_SPACE = ''task:''"

lemma task_space_keys [simp]:
  "starts_with (rec_key i) TASK_SPACE" "starts_with (queued_idx_key t i) TASK_SPACE"
  "starts_with (assigned_idx_key n i) TASK_SPACE" "starts_with (terminal_idx_key t i) TASK_SPACE"
  "starts_with (idem_record_key k) TASK_SPACE" "starts_with (worker_key n) TASK_SPACE"
  by (simp_all add: starts_with_def TASK_SPACE_def rec_key_def queued_idx_key_def assigned_idx_key_def
      terminal_idx_key_def idem_record_key_def worker_key_def task_prefix_defs)

lemma queue_outside:
  assumes "\<And>k. starts_with k TASK_SPACE \<Longrightarrow> cf_get s' k = cf_get s k" "cf_ok s'" "queue_ready c s"
  shows "queue_ready c s' \<and> abs_queue c s' = abs_queue c s"
proof -
  have r: "recs c s' = recs c s" and l: "leases c s' = leases c s"
    by (simp_all add: recs_def leases_def fun_eq_iff assms(1))
  have "task_ok c s' i = task_ok c s i" for i by (simp add: task_ok_def r assms(1))
  moreover have "idem_ok c s' = idem_ok c s" "leases_ok c s' = leases_ok c s"
    by (simp_all add: idem_ok_def leases_ok_def r assms(1))
  ultimately show ?thesis using assms(2,3) r l
    by (simp add: queue_ready_def queue_inv_def abs_queue_def assms(1))
qed

section \<open>Streams\<close>

definition plain_request :: "request \<Rightarrow> bool" where
  "plain_request r = (case r of ReqSet k _ \<Rightarrow> \<not> starts_with k TASK_SPACE
     | ReqDelete k \<Rightarrow> \<not> starts_with k TASK_SPACE | ReqTask cmd \<Rightarrow> cmd_ok cmd)"

definition entry_ok :: "('i, 'm) sm_entry \<Rightarrow> bool" where
  "entry_ok e = (case en_payload e of Normal r \<Rightarrow> plain_request r | _ \<Rightarrow> True)"

definition entry_cmds :: "('i, 'm) sm_entry \<Rightarrow> task_request list" where
  "entry_cmds e = (case en_payload e of Normal (ReqTask cmd) \<Rightarrow> [cmd] | _ \<Rightarrow> [])"

lemma overlay_read_start:
  "overlay_read base (acc_init\<lparr>ac_last_applied := x\<rparr>) = cf_read base"
  by (simp add: overlay_read_def acc_init_def cf_read_def fun_eq_iff)

lemma push_writes_start:
  "ac_batch (foldl push_write (acc_init\<lparr>ac_last_applied := x, ac_schedule := y\<rparr>) ms) = ms"
  by (simp add: push_writes_batch acc_init_def)

lemma sm_apply_one:
  assumes api: "sm_api_ok a" and ready: "queue_ready c (sm_data sm)" and e: "entry_ok e"
  shows "\<exists>sm' rs ev. sm_apply c a sm [Inr e] = Inr (sm', rs, ev) \<and> queue_ready c (sm_data sm') \<and>
    abs_queue c (sm_data sm') = foldl aq_next (abs_queue c (sm_data sm)) (entry_cmds e)"
proof -
  have ok: "cf_ok (sm_data sm)" using ready by (simp add: queue_ready_def queue_inv_def)
  have one: "sm_apply c a sm [Inr e] =
      rbind (apply_entry c a (sm_data sm) acc_init e) (\<lambda>acc. Inr (sm_commit a sm acc))"
    by (cases "apply_entry c a (sm_data sm) acc_init e") (simp_all add: sm_apply_commit[OF api])
  have outside: "queue_ready c (sm_data (fst (sm_commit a sm acc))) \<and>
      abs_queue c (sm_data (fst (sm_commit a sm acc))) = abs_queue c (sm_data sm)"
    if "\<forall>m \<in> set (ac_batch acc). \<not> starts_with (fst m) TASK_SPACE" for acc :: "('a, 'c) apply_acc"
  proof (rule queue_outside)
    show "cf_get (sm_data (fst (sm_commit a sm acc))) k = cf_get (sm_data sm) k"
      if "starts_with k TASK_SPACE" for k
      using \<open>\<forall>m \<in> set (ac_batch acc). _ m\<close> that
      by (simp add: sm_commit_def) (rule cf_batch_untouched, auto)
  qed (simp_all add: sm_commit_def cf_ok_batch ok ready)
  show ?thesis
  proof (cases "\<exists>cmd. en_payload e = Normal (ReqTask cmd)")
    case True
    then obtain cmd where cmd: "en_payload e = Normal (ReqTask cmd)" by blast
    then have "cmd_ok cmd" using e by (simp add: entry_ok_def plain_request_def)
    then obtain s' r where s': "exec_task c (sm_data sm) cmd = Inr (s', r)" "queue_inv c s'"
      "abs_queue c s' = aq_next (abs_queue c (sm_data sm)) cmd"
      using exec_task_ready[OF ready] by metis
    then obtain ms where ms: "apply_task_command c (cf_read (sm_data sm)) cmd = Inr (ms, r)"
      "s' = cf_batch (sm_data sm) ms"
      by (auto simp: exec_task_def rbind_Inr_iff)
    show ?thesis
      using s' ms cmd ready
      by (simp add: one overlay_read_start push_writes_start apply_entry_def apply_payload_def Let_def sm_commit_def entry_cmds_def queue_ready_def)
  next
    case False
    obtain acc where "apply_entry c a (sm_data sm) acc_init e = Inr acc"
      "\<forall>m \<in> set (ac_batch acc). \<not> starts_with (fst m) TASK_SPACE"
      using False e
      by (cases "en_payload e")
         (auto simp: apply_entry_def apply_payload_def push_write_def acc_init_def mut_put_def mut_del_def
            entry_ok_def plain_request_def split: request.splits)
    with outside[of acc] False show ?thesis
      by (auto simp: one entry_cmds_def sm_commit_def split: payload.split request.split)
  qed
qed

lemma sm_apply_queue:
  assumes "sm_api_ok a" "sm_inv sm" "queue_ready c (sm_data sm)" "list_all entry_ok es"
  shows "\<exists>sm' rs ev. sm_apply c a sm (map Inr es) = Inr (sm', rs, ev) \<and> queue_ready c (sm_data sm') \<and>
    abs_queue c (sm_data sm') = foldl aq_next (abs_queue c (sm_data sm)) (concat (map entry_cmds es))"
  using assms(2-)
proof (induction es arbitrary: sm)
  case Nil
  then show ?case using sm_apply_Nil[of c a sm] by (intro exI[of _ sm] exI[of _ "[]"] exI[of _ False]) simp
next
  case (Cons e es)
  obtain sm1 rs1 ev1 where one: "sm_apply c a sm [Inr e] = Inr (sm1, rs1, ev1)" "queue_ready c (sm_data sm1)"
    "abs_queue c (sm_data sm1) = foldl aq_next (abs_queue c (sm_data sm)) (entry_cmds e)"
    using sm_apply_one[OF assms(1) Cons.prems(2), of e] Cons.prems(3) by auto
  have "sm_inv sm1" using sm_apply_inv[OF assms(1) Cons.prems(1) one(1)] .
  then obtain sm2 rs2 ev2 where "sm_apply c a sm1 (map Inr es) = Inr (sm2, rs2, ev2)" "queue_ready c (sm_data sm2)"
    "abs_queue c (sm_data sm2) = foldl aq_next (abs_queue c (sm_data sm1)) (concat (map entry_cmds es))"
    using Cons.IH[of sm1] one(2) Cons.prems(3) by auto
  then show ?case
    using sm_apply_append[OF assms(1) Cons.prems(1), of c "[Inr e]" "map Inr es"] one by simp
qed

end
