(* ===== verification/Snapshots.thy ===== *)
theory Snapshots
  imports StateMachine
begin

text \<open>
  Snapshot files of \<open>src/rocksstore_crud/state_machine.rs\<close>: names with an epoch, selection of
  the newest readable file, pruning, building, installing and recovery at start. A directory
  is a sorted table from file names to files; file system calls are assumed to succeed, with
  the contents they are documented to leave. Compression and JSON are external: \<open>snap_api\<close>.
\<close>

section \<open>UTF-8\<close>

definition utf8_cont :: "nat \<Rightarrow> bool" where
  "utf8_cont b \<longleftrightarrow> 128 \<le> b \<and> b < 192"

fun utf8_bytes :: "nat list \<Rightarrow> bool" where
  "utf8_bytes [] = True"
| "utf8_bytes (a # r) =
     (if a < 128 then utf8_bytes r
      else case r of [] \<Rightarrow> False
      | b # r1 \<Rightarrow>
          if 194 \<le> a \<and> a < 224 then utf8_cont b \<and> utf8_bytes r1
          else (case r1 of [] \<Rightarrow> False
          | c # r2 \<Rightarrow>
              if 224 \<le> a \<and> a < 240
              then utf8_cont b \<and> (a = 224 \<longrightarrow> 160 \<le> b) \<and> (a = 237 \<longrightarrow> b < 160) \<and> utf8_cont c \<and> utf8_bytes r2
              else (case r2 of [] \<Rightarrow> False
              | d # r3 \<Rightarrow>
                  240 \<le> a \<and> a < 245 \<and> utf8_cont b \<and> (a = 240 \<longrightarrow> 144 \<le> b) \<and> (a = 244 \<longrightarrow> b < 144) \<and>
                  utf8_cont c \<and> utf8_cont d \<and> utf8_bytes r3)))"

definition utf8_ok :: "string \<Rightarrow> bool" where
  "utf8_ok s = utf8_bytes (map of_char s)"

text \<open>The text of the error ends in the position of the bad byte, which is left out.\<close>

definition decode_utf8 :: "string \<Rightarrow> string \<Rightarrow> string result" where
  "decode_utf8 bytes what = (if utf8_ok bytes then Inr bytes else Inl (what @ '': invalid utf-8''))"

section \<open>Files\<close>

record ('i, 'sm) snapshot_meta =
  last_log_id :: "'i option"
  last_membership :: 'sm

record ('i, 'sm) snapshot_file =
  sf_meta :: "('i, 'sm) snapshot_meta"
  sf_file_id :: string
  sf_data :: "(string \<times> string) list"

record ('i, 'sm) snap_api =
  zstd_encode :: "string \<Rightarrow> string result"
  zstd_decode :: "string \<Rightarrow> string result"
  ser_snapshot :: "('i, 'sm) snapshot_file \<Rightarrow> string result"
  de_snapshot :: "string \<Rightarrow> ('i, 'sm) snapshot_file result"
  ser_data :: "(string \<times> string) list \<Rightarrow> string result"
  de_data :: "string \<Rightarrow> (string \<times> string) list result"
  show_leader :: "'i \<Rightarrow> string"
  log_index_of :: "'i \<Rightarrow> u64"

record dir_file =
  df_is_file :: bool
  df_bytes :: string

type_synonym snap_dir = "(string, dir_file) cf"

definition SNAPSHOT_TMP_SUFFIX :: string where "SNAPSHOT_TMP_SUFFIX = ''.tmp''"
definition SNAPSHOT_EPOCH_PREFIX :: string where "SNAPSHOT_EPOCH_PREFIX = ''epoch_''"
definition SNAPSHOT_RETAIN_COUNT :: nat where "SNAPSHOT_RETAIN_COUNT = 3"

definition ZSTD_FRAME_MAGIC :: string where
  "ZSTD_FRAME_MAGIC = [CHR 0x28, CHR 0xB5, CHR 0x2F, CHR 0xFD]"

definition ends_with :: "'a list \<Rightarrow> 'a list \<Rightarrow> bool" where
  "ends_with s suf = starts_with (rev s) (rev suf)"

definition snapshot_is_newer ::
  "('i::linorder, 'sm) snapshot_file \<Rightarrow> ('i, 'sm) snapshot_file \<Rightarrow> bool" where
  "snapshot_is_newer candidate current =
     (case (last_log_id (sf_meta candidate), last_log_id (sf_meta current)) of
        (Some candidate_log, Some current_log) \<Rightarrow>
          current_log < candidate_log \<or>
          candidate_log = current_log \<and> sf_file_id current < sf_file_id candidate
      | (Some _, None) \<Rightarrow> True
      | (None, Some _) \<Rightarrow> False
      | (None, None) \<Rightarrow> sf_file_id current < sf_file_id candidate)"

definition is_snapshot_candidate :: "string \<Rightarrow> dir_file \<Rightarrow> bool" where
  "is_snapshot_candidate name f \<longleftrightarrow> df_is_file f \<and> \<not> ends_with name SNAPSHOT_TMP_SUFFIX"

definition read_snapshot_file ::
  "('i, 'sm) snap_api \<Rightarrow> string \<Rightarrow> dir_file \<Rightarrow> ('i, 'sm) snapshot_file result" where
  "read_snapshot_file p name f =
     rbind (if starts_with (df_bytes f) ZSTD_FRAME_MAGIC
            then rbind (zstd_decode p (df_bytes f)) (de_snapshot p)
            else de_snapshot p (df_bytes f))
     (\<lambda>sf. Inr (if sf_file_id sf = [] then sf\<lparr>sf_file_id := name\<rparr> else sf))"

definition newer_of :: "('i::linorder, 'sm) snapshot_file \<Rightarrow> ('i, 'sm) snapshot_file \<Rightarrow> ('i, 'sm) snapshot_file" where
  "newer_of current candidate = (if snapshot_is_newer candidate current then candidate else current)"

definition readable_snapshots :: "('i, 'sm) snap_api \<Rightarrow> snap_dir \<Rightarrow> ('i, 'sm) snapshot_file list" where
  "readable_snapshots p dir = List.map_filter
     (\<lambda>(name, f). case read_snapshot_file p name f of Inl _ \<Rightarrow> None | Inr sf \<Rightarrow> Some sf)
     (filter (\<lambda>(name, f). is_snapshot_candidate name f) dir)"

text \<open>The reduction, left to right; \<open>reduce_tree\<close> below covers the other splits of the pool.\<close>

definition read_latest_snapshot_file ::
  "('i::linorder, 'sm) snap_api \<Rightarrow> snap_dir \<Rightarrow> ('i, 'sm) snapshot_file option" where
  "read_latest_snapshot_file p dir = (case readable_snapshots p dir of [] \<Rightarrow> None
     | sf # sfs \<Rightarrow> Some (foldl newer_of sf sfs))"

definition read_latest_snapshot_meta ::
  "('i::linorder, 'sm) snap_api \<Rightarrow> snap_dir \<Rightarrow> ('i, 'sm) snapshot_meta option" where
  "read_latest_snapshot_meta p dir = map_option sf_meta (read_latest_snapshot_file p dir)"

definition snapshot_file_name :: "u64 \<Rightarrow> string \<Rightarrow> string" where
  "snapshot_file_name epoch file_id =
     SNAPSHOT_EPOCH_PREFIX @ show_padded 10 (unat epoch) @ ''-'' @ file_id"

definition new_snapshot_file_id ::
  "('i, 'sm) snap_api \<Rightarrow> string \<Rightarrow> ('i, 'sm) snapshot_meta \<Rightarrow> string" where
  "new_snapshot_file_id p uuid meta = (case last_log_id meta of
      Some i \<Rightarrow> show_leader p i @ ''-'' @ show_u64 (log_index_of p i) @ ''-'' @ uuid
    | None \<Rightarrow> ''--'' @ uuid)"

definition parse_snapshot_epoch :: "string \<Rightarrow> u64 option" where
  "parse_snapshot_epoch name = (case strip_prefix SNAPSHOT_EPOCH_PREFIX name of None \<Rightarrow> None
     | Some rest \<Rightarrow> parse_u64 (takeWhile (\<lambda>c. c \<noteq> CHR ''-'') rest))"

definition next_snapshot_epoch :: "snap_dir \<Rightarrow> u64" where
  "next_snapshot_epoch dir =
     foldl (\<lambda>m (name, _). case parse_snapshot_epoch name of None \<Rightarrow> m | Some e \<Rightarrow> max m e) 0 dir + 1"

section \<open>Pruning\<close>

definition own_tmp_marker :: "string \<Rightarrow> string" where
  "own_tmp_marker pid = ''.'' @ pid @ SNAPSHOT_TMP_SUFFIX"

definition stale_tmp :: "string \<Rightarrow> string \<Rightarrow> bool" where
  "stale_tmp pid name \<longleftrightarrow> ends_with name SNAPSHOT_TMP_SUFFIX \<and> \<not> ends_with name (own_tmp_marker pid)"

definition prune_key :: "string \<Rightarrow> u64 \<times> string" where
  "prune_key name = ((case parse_snapshot_epoch name of None \<Rightarrow> 0 | Some e \<Rightarrow> e), name)"

definition prune_candidates :: "snap_dir \<Rightarrow> (u64 \<times> string) list" where
  "prune_candidates dir = map (\<lambda>(name, _). prune_key name)
     (filter (\<lambda>(name, f). \<not> ends_with name SNAPSHOT_TMP_SUFFIX \<and> df_is_file f) dir)"

definition remove_files :: "string list \<Rightarrow> snap_dir \<Rightarrow> snap_dir" where
  "remove_files names dir = foldl cf_del dir names"

definition prune_old_snapshots :: "string \<Rightarrow> snap_dir \<Rightarrow> nat \<Rightarrow> snap_dir" where
  "prune_old_snapshots pid dir keep =
     (let dir1 = remove_files (map fst (filter (\<lambda>(name, _). stale_tmp pid name) dir)) dir;
          candidates = prune_candidates dir
      in if length candidates \<le> keep then dir1
         else remove_files (map snd (drop keep (rev (sort candidates)))) dir1)"

definition write_snapshot_file ::
  "('i, 'sm) snap_api \<Rightarrow> string \<Rightarrow> snap_dir \<Rightarrow> string \<Rightarrow> ('i, 'sm) snapshot_file \<Rightarrow> snap_dir result" where
  "write_snapshot_file p pid dir name sf =
     rbind (ser_snapshot p sf) (\<lambda>file_bytes. rbind (zstd_encode p file_bytes) (\<lambda>packed.
       let tmp = name @ ''.'' @ pid @ SNAPSHOT_TMP_SUFFIX;
           file = \<lparr>df_is_file = True, df_bytes = packed\<rparr>;
           dir1 = cf_put dir tmp file
       in Inr (cf_put (cf_del dir1 tmp) name file)))"

section \<open>Build, install, recover\<close>

record snap_node =
  sn_sm :: rocks_sm
  sn_dir :: snap_dir
  sn_epoch :: u64

text \<open>The caller supplies the process id and the fresh UUID; the node gives its epoch.\<close>

definition build_snapshot ::
  "('i, 'm, 'sm) sm_api \<Rightarrow> ('i, 'sm) snap_api \<Rightarrow> string \<Rightarrow> string \<Rightarrow> snap_node \<Rightarrow>
   (snap_node \<times> ('i, 'sm) snapshot_meta \<times> string) result" where
  "build_snapshot a p pid uuid node =
     rbind (applied_state a (sn_sm node)) (\<lambda>(last, mem).
       let meta = \<lparr>last_log_id = last, last_membership = mem\<rparr>;
           file_id = new_snapshot_file_id p uuid meta;
           name = snapshot_file_name (sn_epoch node) file_id;
           data = sm_data (sn_sm node)
       in rbind (write_snapshot_file p pid (sn_dir node) name
                  \<lparr>sf_meta = meta, sf_file_id = file_id, sf_data = data\<rparr>) (\<lambda>dir.
          rbind (ser_data p data) (\<lambda>wire.
            Inr (node\<lparr>sn_dir := prune_old_snapshots pid dir SNAPSHOT_RETAIN_COUNT,
                      sn_epoch := sn_epoch node + 1\<rparr>, meta, wire))))"

definition decode_kv :: "string \<times> string \<Rightarrow> (string \<times> string) result" where
  "decode_kv kv = rbind (decode_utf8 (fst kv) ''snapshot key'') (\<lambda>k.
     rbind (decode_utf8 (snd kv) ''snapshot value'') (\<lambda>v. Inr (k, v)))"

definition snapshot_data_to_map :: "(string \<times> string) list \<Rightarrow> (string, string) cf result" where
  "snapshot_data_to_map data = rbind (rcollect decode_kv data)
     (\<lambda>kvs. Inr (foldl (\<lambda>m (k, v). cf_put m k v) [] kvs))"

definition restore_snapshot_to_db ::
  "('i, 'm, 'sm) sm_api \<Rightarrow> rocks_sm \<Rightarrow> ('i, 'sm) snapshot_file \<Rightarrow> rocks_sm result" where
  "restore_snapshot_to_db a sm sf =
     rbind (case last_log_id (sf_meta sf) of None \<Rightarrow> Inr [mut_del LAST_APPLIED_LOG_KEY]
       | Some i \<Rightarrow> rbind (enc_applied a i) (\<lambda>bytes. Inr [mut_put LAST_APPLIED_LOG_KEY bytes])) (\<lambda>meta1.
     rbind (enc_membership a (last_membership (sf_meta sf))) (\<lambda>mem.
       Inr (sm\<lparr>sm_data := cf_batch (sm_data sm) (map (\<lambda>(k, _). mut_del k) (sm_data sm) @
                 map (\<lambda>(k, v). mut_put k v) (sf_data sf)),
               sm_meta := cf_batch (sm_meta sm) (meta1 @ [mut_put LAST_MEMBERSHIP_KEY mem])\<rparr>)))"

definition install_snapshot ::
  "('i, 'm, 'sm) sm_api \<Rightarrow> ('i, 'sm) snap_api \<Rightarrow> string \<Rightarrow> string \<Rightarrow> snap_node \<Rightarrow>
   ('i, 'sm) snapshot_meta \<Rightarrow> string \<Rightarrow> snap_node result" where
  "install_snapshot a p pid uuid node meta wire =
     (let file_id = new_snapshot_file_id p uuid meta in
      rbind (de_data p wire) (\<lambda>data. rbind (snapshot_data_to_map data) (\<lambda>data_map.
        let sf = \<lparr>sf_meta = meta, sf_file_id = file_id, sf_data = data\<rparr> in
        rbind (restore_snapshot_to_db a (sn_sm node) sf) (\<lambda>sm.
        rbind (write_snapshot_file p pid (sn_dir node) (snapshot_file_name (sn_epoch node) file_id) sf) (\<lambda>dir.
          Inr (node\<lparr>sn_sm := sm\<lparr>sm_memory := data_map\<rparr>,
                    sn_dir := prune_old_snapshots pid dir SNAPSHOT_RETAIN_COUNT,
                    sn_epoch := sn_epoch node + 1\<rparr>))))))"

definition get_current_snapshot ::
  "('i::linorder, 'sm) snap_api \<Rightarrow> snap_node \<Rightarrow> (('i, 'sm) snapshot_meta \<times> string) option result" where
  "get_current_snapshot p node = (case read_latest_snapshot_file p (sn_dir node) of
      None \<Rightarrow> Inr None
    | Some sf \<Rightarrow> rbind (ser_data p (sf_data sf)) (\<lambda>bytes. Inr (Some (sf_meta sf, bytes))))"

definition read_last_applied_log :: "('i, 'm, 'sm) sm_api \<Rightarrow> rocks_sm \<Rightarrow> 'i option result" where
  "read_last_applied_log a sm = (case cf_get (sm_meta sm) LAST_APPLIED_LOG_KEY of None \<Rightarrow> Inr None
     | Some bytes \<Rightarrow> rbind (dec_applied a bytes) (\<lambda>i. Inr (Some i)))"

definition recover_from_latest_snapshot_if_newer ::
  "('i::linorder, 'm, 'sm) sm_api \<Rightarrow> ('i, 'sm) snap_api \<Rightarrow> snap_dir \<Rightarrow> rocks_sm \<Rightarrow> rocks_sm result" where
  "recover_from_latest_snapshot_if_newer a p dir sm =
     (case read_latest_snapshot_file p dir of None \<Rightarrow> Inr sm
      | Some sf \<Rightarrow> rbind (read_last_applied_log a sm) (\<lambda>current.
          if last_log_id (sf_meta sf) \<le> current then Inr sm else restore_snapshot_to_db a sm sf))"

text \<open>\<open>RocksStateMachine::new\<close>: epoch, recovery, then the in-memory map from the database.\<close>

definition sm_new ::
  "('i::linorder, 'm, 'sm) sm_api \<Rightarrow> ('i, 'sm) snap_api \<Rightarrow> snap_dir \<Rightarrow> rocks_sm \<Rightarrow> snap_node result" where
  "sm_new a p dir sm =
     rbind (recover_from_latest_snapshot_if_newer a p dir sm) (\<lambda>sm1.
     rbind (snapshot_data_to_map (sm_data sm1)) (\<lambda>data_map.
       Inr \<lparr>sn_sm = sm1\<lparr>sm_memory := data_map\<rparr>, sn_dir = dir, sn_epoch = next_snapshot_epoch dir\<rparr>))"

section \<open>The newest snapshot\<close>

definition snapshot_key :: "('i, 'sm) snapshot_file \<Rightarrow> 'i option \<times> string" where
  "snapshot_key sf = (last_log_id (sf_meta sf), sf_file_id sf)"

lemma snapshot_is_newer_key: "snapshot_is_newer cand cur \<longleftrightarrow> snapshot_key cur < snapshot_key cand"
  by (cases "last_log_id (sf_meta cand)"; cases "last_log_id (sf_meta cur)")
     (auto simp: snapshot_is_newer_def snapshot_key_def)

lemma newer_of_key: "snapshot_key (newer_of cur cand) = max (snapshot_key cur) (snapshot_key cand)"
  by (auto simp: newer_of_def snapshot_is_newer_key max_def)

text \<open>Any way a pool can split the reduction: a binary tree over the files.\<close>

datatype 'a rtree = RLeaf 'a | RNode "'a rtree" "'a rtree"

fun leaves_of :: "'a rtree \<Rightarrow> 'a list" where
  "leaves_of (RLeaf x) = [x]"
| "leaves_of (RNode l r) = leaves_of l @ leaves_of r"

fun reduce_tree :: "('a \<Rightarrow> 'a \<Rightarrow> 'a) \<Rightarrow> 'a rtree \<Rightarrow> 'a" where
  "reduce_tree f (RLeaf x) = x"
| "reduce_tree f (RNode l r) = f (reduce_tree f l) (reduce_tree f r)"

lemma leaves_of_not_Nil [simp]: "leaves_of t \<noteq> []"
  by (induction t) auto

lemma newer_of_mem: "newer_of x y \<in> {x, y}"
  by (simp add: newer_of_def)

lemma reduce_tree_newest:
  "reduce_tree newer_of t \<in> set (leaves_of t) \<and>
   snapshot_key (reduce_tree newer_of t) = Max (snapshot_key ` set (leaves_of t))"
proof (induction t)
  case (RNode l r)
  then show ?case using newer_of_mem[of "reduce_tree newer_of l" "reduce_tree newer_of r"]
    by (auto simp: newer_of_key image_Un Max_Un)
qed simp

lemma foldl_newest:
  "foldl newer_of x xs \<in> set (x # xs) \<and> snapshot_key (foldl newer_of x xs) = Max (snapshot_key ` set (x # xs))"
proof (induction xs rule: rev_induct)
  case (snoc y ys)
  have "foldl newer_of x (ys @ [y]) = newer_of (foldl newer_of x ys) y" by simp
  moreover have "Max (snapshot_key ` set (x # ys @ [y])) = max (Max (snapshot_key ` set (x # ys))) (snapshot_key y)"
    by (cases "set ys = {}") (auto simp: Max_insert max.commute max.left_commute insert_commute)
  ultimately show ?case using snoc newer_of_mem[of "foldl newer_of x ys" y] by (auto simp: newer_of_key)
qed simp

lemma read_latest_newest:
  assumes "read_latest_snapshot_file p dir = Some sf"
  shows "sf \<in> set (readable_snapshots p dir) \<and>
    (\<forall>sf' \<in> set (readable_snapshots p dir). snapshot_key sf' \<le> snapshot_key sf)"
proof -
  obtain x xs where "readable_snapshots p dir = x # xs" "sf = foldl newer_of x xs"
    using assms by (auto simp: read_latest_snapshot_file_def split: list.splits)
  with foldl_newest[of x xs] show ?thesis by auto
qed

section \<open>Epochs\<close>

lemma takeWhile_append_dash: "c \<notin> set xs \<Longrightarrow> takeWhile (\<lambda>x. x \<noteq> c) (xs @ c # ys) = xs"
  by (induction xs) auto

lemma dash_notin_padded [simp]: "CHR ''-'' \<notin> set (show_padded w n)"
  by (simp add: show_padded_no_char)

lemma parse_snapshot_file_name [simp]: "parse_snapshot_epoch (snapshot_file_name e file_id) = Some e"
  by (simp add: parse_snapshot_epoch_def snapshot_file_name_def takeWhile_append_dash)

lemma epoch_fold:
  "foldl (\<lambda>m (name, _). case parse_snapshot_epoch name of None \<Rightarrow> m | Some e \<Rightarrow> max m e) m0 dir =
   foldl max m0 (List.map_filter (\<lambda>(name, _). parse_snapshot_epoch name) dir)"
  by (induction dir arbitrary: m0) (auto simp: map_filter_simps split: option.split)

lemma foldl_max_ge': "(m :: 'a::linorder) \<le> foldl max m xs \<and> (\<forall>x \<in> set xs. x \<le> foldl max m xs)"
proof (induction xs arbitrary: m)
  case (Cons x xs)
  from Cons.IH[of "max m x"] show ?case by simp
qed simp

text \<open>The next epoch is above every epoch in use, unless the largest possible one is in use.\<close>

lemma next_snapshot_epoch_fresh:
  assumes "(name, f) \<in> set dir" "parse_snapshot_epoch name = Some e" "next_snapshot_epoch dir \<noteq> 0"
  shows "e < next_snapshot_epoch dir"
proof -
  let ?m = "foldl max 0 (List.map_filter (\<lambda>(name, _). parse_snapshot_epoch name) dir) :: u64"
  have "e \<in> set (List.map_filter (\<lambda>(name, _). parse_snapshot_epoch name) dir)"
    using assms(1,2) by (force simp: map_filter_def)
  then have "e \<le> ?m" using foldl_max_ge' by blast
  moreover have "?m < ?m + 1" using assms(3)
    by (simp add: next_snapshot_epoch_def epoch_fold word_less_nat_alt unatSuc add.commute)
  ultimately show ?thesis by (simp add: next_snapshot_epoch_def epoch_fold)
qed

section \<open>What pruning keeps\<close>

lemma remove_files_get: "cf_get (remove_files ns dir) k = (if k \<in> set ns then None else cf_get dir k)"
proof (induction ns arbitrary: dir)
  case (Cons n ns)
  then have "cf_get (remove_files ns (cf_del dir n)) k = (if k \<in> set ns then None else cf_get (cf_del dir n) k)" .
  then show ?case by (simp add: remove_files_def cf_get_del)
qed (simp add: remove_files_def)

lemma remove_files_ok: "cf_ok dir \<Longrightarrow> cf_ok (remove_files ns dir)"
  by (induction ns arbitrary: dir) (auto simp: remove_files_def cf_ok_del)

lemma prune_candidates_mem:
  assumes "cf_ok dir"
  shows "x \<in> set (prune_candidates dir) \<longleftrightarrow> (\<exists>name f. x = prune_key name \<and> cf_get dir name = Some f \<and>
     df_is_file f \<and> \<not> ends_with name SNAPSHOT_TMP_SUFFIX)"
  using cf_entries_iff[OF assms] by (auto simp: prune_candidates_def image_iff)

lemma prune_candidates_distinct: "cf_ok dir \<Longrightarrow> distinct (prune_candidates dir)"
proof -
  assume "cf_ok dir"
  then have "distinct (map fst dir)" by (simp add: cf_ok_def strict_sorted_iff)
  then have "distinct (map fst (filter (\<lambda>(name, f). \<not> ends_with name SNAPSHOT_TMP_SUFFIX \<and> df_is_file f) dir))"
    by (rule distinct_map_filter)
  then have "distinct (map snd (prune_candidates dir))"
    by (simp add: prune_candidates_def comp_def prune_key_def split_beta)
  then show ?thesis by (simp add: distinct_map)
qed

definition pruned :: "snap_dir \<Rightarrow> nat \<Rightarrow> (u64 \<times> string) list" where
  "pruned dir keep = drop keep (rev (sort (prune_candidates dir)))"

lemma pruned_split:
  assumes "cf_ok dir"
  shows "distinct (pruned dir keep)" "set (pruned dir keep) \<subseteq> set (prune_candidates dir)"
    "card (set (prune_candidates dir) - set (pruned dir keep)) = min keep (length (prune_candidates dir))"
    "\<forall>x \<in> set (prune_candidates dir) - set (pruned dir keep). \<forall>y \<in> set (pruned dir keep). y < x"
proof -
  let ?l = "rev (sort (prune_candidates dir))"
  have d: "distinct ?l" using prune_candidates_distinct[OF assms] by simp
  have s: "sorted_wrt (>) ?l"
  proof -
    have "sorted_wrt (<) (sort (prune_candidates dir))"
      using prune_candidates_distinct[OF assms] by (simp add: strict_sorted_iff)
    then show ?thesis by (simp add: sorted_wrt_rev)
  qed
  have set_l: "set ?l = set (prune_candidates dir)" by simp
  have parts: "?l = take keep ?l @ drop keep ?l" by simp
  show "distinct (pruned dir keep)" using d by (simp add: pruned_def distinct_drop)
  show sub: "set (pruned dir keep) \<subseteq> set (prune_candidates dir)"
    using set_l by (metis pruned_def set_drop_subset)
  have kept: "set (prune_candidates dir) - set (pruned dir keep) = set (take keep ?l)"
  proof -
    have "set ?l = set (take keep ?l) \<union> set (drop keep ?l)" by (metis append_take_drop_id set_append)
    moreover have "set (take keep ?l) \<inter> set (drop keep ?l) = {}"
      using d by (metis append_take_drop_id distinct_append)
    ultimately show ?thesis using set_l by (auto simp: pruned_def)
  qed
  show "card (set (prune_candidates dir) - set (pruned dir keep)) = min keep (length (prune_candidates dir))"
    unfolding kept using d by (simp add: distinct_card min.commute)
  show "\<forall>x \<in> set (prune_candidates dir) - set (pruned dir keep). \<forall>y \<in> set (pruned dir keep). y < x"
    using s parts sorted_wrt_append[of "(>)" "take keep ?l" "drop keep ?l"] kept by (simp add: pruned_def)
qed

lemma prune_get:
  assumes "cf_ok dir"
  shows "cf_get (prune_old_snapshots pid dir keep) name =
    (if stale_tmp pid name \<or> prune_key name \<in> set (pruned dir keep) then None else cf_get dir name)"
proof -
  have snd_key: "snd (prune_key n) = n" for n by (simp add: prune_key_def)
  have mem: "name \<in> set (map snd (pruned dir keep)) \<longleftrightarrow> prune_key name \<in> set (pruned dir keep)"
  proof
    assume "name \<in> set (map snd (pruned dir keep))"
    then obtain x where x: "x \<in> set (pruned dir keep)" "snd x = name" by auto
    then obtain n where "x = prune_key n"
      using pruned_split(2)[OF assms] prune_candidates_mem[OF assms] by blast
    with x show "prune_key name \<in> set (pruned dir keep)" using snd_key by metis
  next
    assume "prune_key name \<in> set (pruned dir keep)"
    then show "name \<in> set (map snd (pruned dir keep))" using snd_key by (metis list.set_map rev_image_eqI)
  qed
  have tmp: "name \<in> set (map fst (filter (\<lambda>(name, _). stale_tmp pid name) dir)) \<longleftrightarrow>
      stale_tmp pid name \<and> cf_get dir name \<noteq> None"
    using cf_entries_iff[OF assms, of name] by (force simp: image_iff)
  have small: "pruned dir keep = []" if "length (prune_candidates dir) \<le> keep"
    using that by (simp add: pruned_def)
  show ?thesis
    using mem tmp small by (auto simp: prune_old_snapshots_def Let_def remove_files_get pruned_def[symmetric])
qed

section \<open>Loading and restoring\<close>

definition snap_api_ok :: "('i, 'sm) snap_api \<Rightarrow> bool" where
  "snap_api_ok p \<longleftrightarrow>
     (\<forall>b. \<exists>z. zstd_encode p b = Inr z \<and> starts_with z ZSTD_FRAME_MAGIC \<and> zstd_decode p z = Inr b) \<and>
     (\<forall>sf. \<exists>s. ser_snapshot p sf = Inr s \<and> de_snapshot p s = Inr sf) \<and>
     (\<forall>d. \<exists>s. ser_data p d = Inr s \<and> de_data p s = Inr d)"

definition load_data :: "(string \<times> string) list \<Rightarrow> (string, string) cf" where
  "load_data kvs = foldl (\<lambda>m (k, v). cf_put m k v) [] kvs"

definition data_utf8 :: "(string \<times> string) list \<Rightarrow> bool" where
  "data_utf8 kvs \<longleftrightarrow> (\<forall>(k, v) \<in> set kvs. utf8_ok k \<and> utf8_ok v)"

lemma put_all_batch: "foldl (\<lambda>m (k, v). cf_put m k v) m kvs = cf_batch m (map (\<lambda>(k, v). mut_put k v) kvs)"
  by (induction kvs arbitrary: m) (auto simp: mut_put_def cf_write_def)

lemma load_data_ok [simp]: "cf_ok (load_data kvs)"
  by (simp add: load_data_def put_all_batch cf_ok_batch)

lemma last_write_puts:
  "distinct (map fst kvs) \<Longrightarrow> last_write (map (\<lambda>(k, v). mut_put k v) kvs) k = map_option Some (map_of kvs k)"
proof (induction kvs)
  case (Cons kv kvs)
  obtain k' v where kv: "kv = (k', v)" by fastforce
  have "k' \<notin> fst ` set kvs" using Cons.prems by (simp add: kv)
  then have "map_of kvs k' = None" by (simp add: map_of_eq_None_iff)
  then show ?case using Cons by (auto simp: kv mut_put_def split: option.split)
qed simp

lemma load_sorted:
  assumes "cf_ok m"
  shows "load_data m = m"
proof (rule cf_eqI)
  have "distinct (map fst m)" using assms by (simp add: cf_ok_def strict_sorted_iff)
  then have "cf_get (load_data m) k = map_of m k" for k
    by (simp add: load_data_def put_all_batch cf_get_batch last_write_puts split: option.split)
  then show "cf_get (load_data m) = cf_get m" by (simp add: cf_get_def fun_eq_iff)
qed (simp_all add: assms)

lemma snapshot_data_to_map_ok:
  assumes "data_utf8 data"
  shows "snapshot_data_to_map data = Inr (load_data data)"
proof -
  have "rcollect decode_kv data = Inr (map (\<lambda>kv. kv) data)"
    using assms by (intro rcollect_Inr) (auto simp: data_utf8_def decode_kv_def decode_utf8_def)
  then show ?thesis by (simp add: snapshot_data_to_map_def load_data_def)
qed

lemma decode_kv_Inr: "decode_kv kv = Inr kv' \<longleftrightarrow> kv' = kv \<and> utf8_ok (fst kv) \<and> utf8_ok (snd kv)"
  by (cases kv) (auto simp: decode_kv_def decode_utf8_def)

lemma snapshot_data_to_map_Inr: "snapshot_data_to_map data = Inr m \<Longrightarrow> m = load_data data"
proof -
  assume "snapshot_data_to_map data = Inr m"
  then obtain kvs where kvs: "rcollect decode_kv data = Inr kvs" "m = load_data kvs"
    by (auto simp: snapshot_data_to_map_def rbind_Inr_iff load_data_def)
  have "rcollect decode_kv data = Inr kvs \<Longrightarrow> kvs = data" for data kvs
    by (induction data arbitrary: kvs) (auto simp: rbind_Inr_iff decode_kv_Inr)
  with kvs show ?thesis by blast
qed

lemma restore_data:
  "cf_ok m \<Longrightarrow> cf_batch m (map (\<lambda>(k, _). mut_del k) m @ map (\<lambda>(k, v). mut_put k v) data) = load_data data"
proof (rule cf_eqI)
  have "last_write (map (\<lambda>(k, _). mut_del k) m) k = (if k \<in> fst ` set m then Some None else None)" for k
    by (induction m) (force simp: mut_del_def)+
  moreover have "k \<notin> fst ` set m \<Longrightarrow> cf_get m k = None" for k
    by (simp add: cf_get_def map_of_eq_None_iff)
  ultimately show "cf_get (cf_batch m (map (\<lambda>(k, _). mut_del k) m @ map (\<lambda>(k, v). mut_put k v) data)) =
      cf_get (load_data data)"
    by (auto simp: load_data_def put_all_batch cf_get_batch last_write_append fun_eq_iff
        simp del: cf_batch_simps(3) split: option.split)
qed (simp_all add: cf_ok_batch)

lemma restore_snapshot_spec:
  assumes "sm_api_ok a" "cf_ok (sm_data sm)" "cf_ok (sm_meta sm)"
  shows "\<exists>sm'. restore_snapshot_to_db a sm sf = Inr sm' \<and> sm_data sm' = load_data (sf_data sf) \<and>
    cf_ok (sm_meta sm') \<and> sm_memory sm' = sm_memory sm \<and>
    applied_state a (sm'\<lparr>sm_memory := m\<rparr>) = Inr (last_log_id (sf_meta sf), last_membership (sf_meta sf)) \<and>
    read_last_applied_log a sm' = Inr (last_log_id (sf_meta sf))"
proof -
  obtain mb where mb: "enc_membership a (last_membership (sf_meta sf)) = Inr mb"
    "dec_membership a mb = Inr (last_membership (sf_meta sf))"
    using assms(1) unfolding sm_api_ok_def by blast
  have "\<exists>ib. enc_applied a i = Inr ib \<and> dec_applied a ib = Inr i" for i
    using assms(1) unfolding sm_api_ok_def by blast
  then obtain ib where ib: "\<And>i. last_log_id (sf_meta sf) = Some i \<Longrightarrow> enc_applied a i = Inr ib \<and> dec_applied a ib = Inr i"
    by (metis option.inject)
  show ?thesis
    using mb ib assms(2,3)
    by (cases "last_log_id (sf_meta sf)")
       (simp_all add: restore_snapshot_to_db_def restore_data applied_state_def read_last_applied_log_def
         meta_keys_neq meta_keys_neq[symmetric] cf_ok_write del: cf_batch_simps(3))
qed

lemma write_snapshot_ok:
  assumes "snap_api_ok p"
  shows "\<exists>packed. write_snapshot_file p pid dir name sf =
      Inr (cf_put (cf_del (cf_put dir (name @ ''.'' @ pid @ SNAPSHOT_TMP_SUFFIX) \<lparr>df_is_file = True, df_bytes = packed\<rparr>)
             (name @ ''.'' @ pid @ SNAPSHOT_TMP_SUFFIX)) name \<lparr>df_is_file = True, df_bytes = packed\<rparr>) \<and>
    (sf_file_id sf \<noteq> [] \<longrightarrow> read_snapshot_file p name \<lparr>df_is_file = True, df_bytes = packed\<rparr> = Inr sf)"
proof -
  obtain s where s: "ser_snapshot p sf = Inr s" "de_snapshot p s = Inr sf"
    using assms unfolding snap_api_ok_def by blast
  obtain z where "zstd_encode p s = Inr z" "starts_with z ZSTD_FRAME_MAGIC" "zstd_decode p z = Inr s"
    using assms unfolding snap_api_ok_def by blast
  with s show ?thesis by (auto simp: write_snapshot_file_def read_snapshot_file_def Let_def)
qed

section \<open>Snapshot transfer and recovery\<close>

lemma install_spec:
  assumes "sm_api_ok a" "snap_api_ok p" "sm_inv (sn_sm node)"
    and "de_data p wire = Inr data" "data_utf8 data"
  shows "\<exists>node'. install_snapshot a p pid uuid node meta wire = Inr node' \<and> sm_inv (sn_sm node') \<and>
    sm_data (sn_sm node') = load_data data \<and>
    applied_state a (sn_sm node') = Inr (last_log_id meta, last_membership meta)"
proof -
  let ?sf = "\<lparr>sf_meta = meta, sf_file_id = new_snapshot_file_id p uuid meta, sf_data = data\<rparr>"
  obtain sm' where sm': "restore_snapshot_to_db a (sn_sm node) ?sf = Inr sm'" "sm_data sm' = load_data data"
    "cf_ok (sm_meta sm')" "applied_state a (sm'\<lparr>sm_memory := load_data data\<rparr>) = Inr (last_log_id meta, last_membership meta)"
    using restore_snapshot_spec[OF assms(1), of "sn_sm node" ?sf "load_data data"] assms(3)
    by (auto simp: sm_inv_def)
  obtain packed dir where "write_snapshot_file p pid (sn_dir node)
      (snapshot_file_name (sn_epoch node) (new_snapshot_file_id p uuid meta)) ?sf = Inr dir"
    using write_snapshot_ok[OF assms(2)] by blast
  with sm' show ?thesis
    by (simp add: install_snapshot_def Let_def assms(4) snapshot_data_to_map_ok[OF assms(5)] sm_inv_def)
qed

lemma transfer_spec:
  assumes "sm_api_ok a" "snap_api_ok p" "sm_inv (sn_sm A)" "sm_inv (sn_sm B)"
    and "applied_state a (sn_sm A) = Inr (li, mem)" "data_utf8 (sm_data (sn_sm A))"
  shows "\<exists>A' meta wire B'. build_snapshot a p pid uuid A = Inr (A', meta, wire) \<and> sn_sm A' = sn_sm A \<and>
    install_snapshot a p pid' uuid' B meta wire = Inr B' \<and> sm_inv (sn_sm B') \<and>
    sm_data (sn_sm B') = sm_data (sn_sm A) \<and> applied_state a (sn_sm B') = applied_state a (sn_sm A)"
proof -
  let ?meta = "\<lparr>last_log_id = li, last_membership = mem\<rparr>" and ?data = "sm_data (sn_sm A)"
  obtain wire where wire: "ser_data p ?data = Inr wire" "de_data p wire = Inr ?data"
    using assms(2) unfolding snap_api_ok_def by blast
  obtain dir where "write_snapshot_file p pid (sn_dir A)
      (snapshot_file_name (sn_epoch A) (new_snapshot_file_id p uuid ?meta))
      \<lparr>sf_meta = ?meta, sf_file_id = new_snapshot_file_id p uuid ?meta, sf_data = ?data\<rparr> = Inr dir"
    using write_snapshot_ok[OF assms(2)] by blast
  with wire have "build_snapshot a p pid uuid A = Inr (A\<lparr>sn_dir := prune_old_snapshots pid dir SNAPSHOT_RETAIN_COUNT,
      sn_epoch := sn_epoch A + 1\<rparr>, ?meta, wire)"
    by (simp add: build_snapshot_def assms(5) Let_def)
  moreover have "load_data ?data = ?data" using assms(3) by (simp add: sm_inv_def load_sorted)
  ultimately show ?thesis
    using install_spec[OF assms(1,2,4) wire(2) assms(6), of pid' uuid' ?meta] assms(5) by fastforce
qed

definition latest_applied :: "('i::linorder, 'sm) snap_api \<Rightarrow> snap_dir \<Rightarrow> 'i option" where
  "latest_applied p dir = (case read_latest_snapshot_file p dir of None \<Rightarrow> None
     | Some sf \<Rightarrow> last_log_id (sf_meta sf))"

lemma recover_spec:
  assumes "sm_api_ok a" "cf_ok (sm_data sm)" "cf_ok (sm_meta sm)"
    and "read_last_applied_log a sm = Inr current" "data_utf8 (sm_data sm)"
    and "\<And>sf. read_latest_snapshot_file p dir = Some sf \<Longrightarrow> data_utf8 (sf_data sf)"
  shows "\<exists>node. sm_new a p dir sm = Inr node \<and> sm_inv (sn_sm node) \<and>
    read_last_applied_log a (sn_sm node) = Inr (max current (latest_applied p dir)) \<and>
    (if current < latest_applied p dir
     then (\<exists>sf. read_latest_snapshot_file p dir = Some sf \<and> sm_data (sn_sm node) = load_data (sf_data sf) \<and>
        applied_state a (sn_sm node) = Inr (last_log_id (sf_meta sf), last_membership (sf_meta sf)))
     else sm_data (sn_sm node) = sm_data sm \<and> applied_state a (sn_sm node) = applied_state a sm)"
proof -
  have read_mem: "read_last_applied_log a (s\<lparr>sm_memory := m\<rparr>) = read_last_applied_log a s"
    and state_mem: "applied_state a (s\<lparr>sm_memory := m\<rparr>) = applied_state a s" for s m
    by (simp_all add: read_last_applied_log_def applied_state_def)
  show ?thesis
  proof (cases "current < latest_applied p dir")
    case True
    then obtain sf where sf: "read_latest_snapshot_file p dir = Some sf" "\<not> last_log_id (sf_meta sf) \<le> current"
      "latest_applied p dir = last_log_id (sf_meta sf)"
      by (cases "read_latest_snapshot_file p dir") (auto simp: latest_applied_def)
    obtain sm' where sm': "restore_snapshot_to_db a sm sf = Inr sm'" "sm_data sm' = load_data (sf_data sf)"
      "cf_ok (sm_meta sm')" "applied_state a sm' = Inr (last_log_id (sf_meta sf), last_membership (sf_meta sf))"
      "read_last_applied_log a sm' = Inr (last_log_id (sf_meta sf))"
      using restore_snapshot_spec[OF assms(1-3), of sf "[]"] by (auto simp: state_mem)
    have "data_utf8 (load_data (sf_data sf))"
    proof -
      have "set (load_data d) \<subseteq> set d" for d
      proof -
        have "set (cf_put m k v) \<subseteq> insert (k, v) (set m)" for m :: "(string, string) cf" and k v
          by (induction m k v rule: cf_put.induct) auto
        then have "set (foldl (\<lambda>m (k, v). cf_put m k v) m d) \<subseteq> set m \<union> set d" for m
          by (induction d arbitrary: m) fastforce+
        from this[of "[]"] show ?thesis by (simp add: load_data_def)
      qed
      with assms(6)[OF sf(1)] show ?thesis by (fastforce simp: data_utf8_def)
    qed
    then have "snapshot_data_to_map (sm_data sm') = Inr (sm_data sm')"
      by (simp add: sm'(2) snapshot_data_to_map_ok load_sorted)
    then show ?thesis
      using True sf sm' assms(4)
      by (simp add: sm_new_def recover_from_latest_snapshot_if_newer_def sm_inv_def read_mem state_mem max_absorb2)
  next
    case False
    then have "recover_from_latest_snapshot_if_newer a p dir sm = Inr sm"
      using assms(4) by (auto simp: recover_from_latest_snapshot_if_newer_def latest_applied_def split: option.splits)
    moreover have "snapshot_data_to_map (sm_data sm) = Inr (sm_data sm)"
      using assms(2,5) by (simp add: snapshot_data_to_map_ok load_sorted)
    moreover have "max current (latest_applied p dir) = current" using False by (simp add: max_absorb1)
    ultimately show ?thesis
      using assms(2-4) by (simp add: sm_new_def sm_inv_def read_mem state_mem False)
  qed
qed

definition snapshot_names :: "snap_dir \<Rightarrow> string set" where
  "snapshot_names dir = {n. \<exists>f. cf_get dir n = Some f \<and> is_snapshot_candidate n f}"

lemma prune_key_inject [simp]: "prune_key m = prune_key n \<longleftrightarrow> m = n"
  by (auto simp: prune_key_def)

lemma prune_candidates_names: "cf_ok dir \<Longrightarrow> set (prune_candidates dir) = prune_key ` snapshot_names dir"
  by (auto simp: prune_candidates_mem snapshot_names_def is_snapshot_candidate_def)

text \<open>Pruning keeps the \<open>keep\<close> snapshots with the largest (epoch, name).\<close>

lemma prune_names:
  assumes "cf_ok dir"
  shows "snapshot_names (prune_old_snapshots pid dir keep) \<subseteq> snapshot_names dir"
    and "card (snapshot_names (prune_old_snapshots pid dir keep)) = min keep (card (snapshot_names dir))"
    and "\<forall>x \<in> snapshot_names (prune_old_snapshots pid dir keep).
      \<forall>y \<in> snapshot_names dir - snapshot_names (prune_old_snapshots pid dir keep). prune_key y < prune_key x"
proof -
  let ?N = "snapshot_names dir" and ?P = "snapshot_names (prune_old_snapshots pid dir keep)"
  have P: "?P = {n \<in> ?N. prune_key n \<notin> set (pruned dir keep)}"
    by (auto simp: snapshot_names_def prune_get[OF assms] is_snapshot_candidate_def stale_tmp_def split: if_splits)
  then show "?P \<subseteq> ?N" by blast
  have cands: "set (prune_candidates dir) = prune_key ` ?N" by (rule prune_candidates_names[OF assms])
  have img: "prune_key ` ?P = set (prune_candidates dir) - set (pruned dir keep)"
    unfolding P cands by auto
  have inj: "inj prune_key" by (simp add: inj_def)
  have "card ?P = card (prune_key ` ?P)" using inj by (metis card_image inj_on_subset subset_UNIV)
  moreover have "card ?N = length (prune_candidates dir)"
    using prune_candidates_distinct[OF assms] inj cands
    by (metis card_image distinct_card inj_on_subset subset_UNIV)
  ultimately show "card ?P = min keep (card ?N)" using pruned_split(3)[OF assms, of keep] img by simp
  show "\<forall>x \<in> ?P. \<forall>y \<in> ?N - ?P. prune_key y < prune_key x"
  proof (intro ballI)
    fix x y assume "x \<in> ?P" "y \<in> ?N - ?P"
    then have "prune_key x \<in> set (prune_candidates dir) - set (pruned dir keep)" "prune_key y \<in> set (pruned dir keep)"
      using img P by auto
    then show "prune_key y < prune_key x" using pruned_split(4)[OF assms, of keep] by blast
  qed
qed

lemma prune_keeps_greatest:
  assumes "cf_ok dir" "n \<in> snapshot_names dir" "0 < keep"
    and "\<And>m. m \<in> snapshot_names dir \<Longrightarrow> prune_key m \<le> prune_key n"
  shows "cf_get (prune_old_snapshots pid dir keep) n = cf_get dir n"
proof -
  let ?P = "snapshot_names (prune_old_snapshots pid dir keep)"
  have fin: "finite (snapshot_names dir)"
    using prune_candidates_names[OF assms(1)] by (metis List.finite_set finite_imageD inj_onI prune_key_inject)
  then have "0 < card ?P" using prune_names(2)[OF assms(1), of pid keep] assms(2,3) by (auto simp: card_gt_0_iff)
  then obtain x where x: "x \<in> ?P" by (auto simp: card_gt_0_iff)
  have "n \<in> ?P"
  proof (rule ccontr)
    assume "n \<notin> ?P"
    then have "prune_key n < prune_key x" using prune_names(3)[OF assms(1)] x assms(2) by blast
    moreover have "prune_key x \<le> prune_key n" using assms(4) x prune_names(1)[OF assms(1)] by blast
    ultimately show False by simp
  qed
  then show ?thesis by (auto simp: snapshot_names_def prune_get[OF assms(1)] split: if_splits)
qed

end
