(* ===== verification/LogStore.thy ===== *)
theory LogStore
  imports OrderedStore
begin

text \<open>
  \<open>src/rocksstore_crud/log_store.rs\<close>: the raft log in the column family \<open>logs\<close>, keyed by the
  big-endian index, and the raft metadata in \<open>meta\<close>. Log ids, entries and votes are openraft's
  types and their serialisation is \<open>sonic_rs\<close>'s: both come in through the record \<open>raft_api\<close>.
  The lemmas say that the key order is the index order, that the stored log is a map from
  indexes to entries on which append, truncate and purge act as on a map, that a range read
  returns exactly the entries of the range in index order, and what the log state is.
\<close>

section \<open>Index keys\<close>

definition id_to_bin :: "u64 \<Rightarrow> u8 list" where
  "id_to_bin i = map (\<lambda>k. ucast (drop_bit (8 * k) i)) [7, 6, 5, 4, 3, 2, 1, 0]"

definition be_val :: "u8 list \<Rightarrow> nat" where
  "be_val bs = foldl (\<lambda>a b. 256 * a + unat b) 0 bs"

definition bin_to_id :: "u8 list \<Rightarrow> u64 result" where
  "bin_to_id buf = (if length buf = 8 then Inr (word_of_nat (be_val buf))
     else Inl (''log key length '' @ show_nat (length buf) @ '' is not 8 bytes''))"

lemma length_id_to_bin [simp]: "length (id_to_bin i) = 8"
  by (simp add: id_to_bin_def)

lemma be_val_snoc: "be_val (bs @ [b]) = 256 * be_val bs + unat b"
  by (simp add: be_val_def)

lemma be_val_less: "be_val bs < 256 ^ length bs"
proof (induction bs rule: rev_induct)
  case Nil
  then show ?case by (simp add: be_val_def)
next
  case (snoc b bs)
  have "unat b < 256" using unat_lt_2p[of b] by simp
  with snoc show ?case by (simp add: be_val_snoc)
qed

lemma be_val_Cons: "be_val (b # bs) = unat b * 256 ^ length bs + be_val bs"
proof (induction bs rule: rev_induct)
  case (snoc c bs)
  then show ?case using be_val_snoc[of "b # bs" c] by (simp add: be_val_snoc algebra_simps)
qed (simp add: be_val_def)

lemma be_val_order:
  "length xs = length ys \<Longrightarrow> xs < ys \<longleftrightarrow> be_val xs < be_val ys"
proof (induction xs ys rule: list_induct2)
  case Nil
  then show ?case by simp
next
  case (Cons x xs y ys)
  let ?b = "256 ^ length ys :: nat"
  have xs: "be_val xs < ?b" and ys: "be_val ys < ?b" using be_val_less Cons(1) by metis+
  consider "x < y" | "x = y" | "y < x" by fastforce
  then show ?case
  proof cases
    case 1
    then have "unat x + 1 \<le> unat y" by (simp add: word_less_nat_alt)
    then have "(unat x + 1) * ?b \<le> unat y * ?b" by (rule mult_le_mono1)
    with xs have "be_val (x # xs) < be_val (y # ys)" by (simp add: be_val_Cons Cons(1))
    with 1 show ?thesis by simp
  next
    case 2
    then show ?thesis using Cons by (simp add: be_val_Cons)
  next
    case 3
    then have "unat y + 1 \<le> unat x" by (simp add: word_less_nat_alt)
    then have "(unat y + 1) * ?b \<le> unat x * ?b" by (rule mult_le_mono1)
    with ys have "\<not> be_val (x # xs) < be_val (y # ys)" by (simp add: be_val_Cons Cons(1))
    with 3 show ?thesis by auto
  qed
qed

lemma div_mod_digit: "256 * (n div (256 * k)) + n div k mod 256 = (n :: nat) div k"
  by (metis div_mult2_eq mult.commute mult_div_mod_eq)

lemma be_val_id_to_bin: "be_val (id_to_bin i) = unat i"
proof -
  let ?n = "unat i"
  have "?n < 2 ^ 64" using unat_lt_2p[of i] by simp
  have d: "unat (ucast (drop_bit k i) :: u8) = ?n div 2 ^ k mod 256" for k
    by (simp add: unsigned_ucast_eq take_bit_eq_mod unat_drop_bit_eq) (simp add: drop_bit_eq_div)
  have d0: "unat (ucast i :: u8) = ?n mod 256" using d[of 0] by simp
  have top: "?n div 2 ^ 56 mod 256 = ?n div 2 ^ 56" using \<open>?n < 2 ^ 64\<close> by simp
  have step: "256 * (?n div 2 ^ (k + 8)) + ?n div 2 ^ k mod 256 = ?n div 2 ^ k" for k
    using div_mod_digit[of ?n "2 ^ k"] by (simp add: power_add mult.commute)
  show ?thesis
    using step[of 48] step[of 40] step[of 32] step[of 24] step[of 16] step[of 8] step[of 0] top
    by (simp add: be_val_def id_to_bin_def d d0)
qed

lemma id_to_bin_order: "id_to_bin i < id_to_bin j \<longleftrightarrow> i < j"
  by (simp add: be_val_order be_val_id_to_bin word_less_nat_alt)

lemma id_to_bin_inject [simp]: "id_to_bin i = id_to_bin j \<longleftrightarrow> i = j"
  by (metis be_val_id_to_bin word_unat_eq_iff)

lemma bin_to_id_to_bin [simp]: "bin_to_id (id_to_bin i) = Inr i"
  by (simp add: bin_to_id_def be_val_id_to_bin)

section \<open>Ranges\<close>

datatype bound = Included u64 | Excluded u64 | Unbounded

type_synonym idx_range = "bound \<times> bound"

definition range_contains :: "idx_range \<Rightarrow> u64 \<Rightarrow> bool" where
  "range_contains r i \<longleftrightarrow>
     (case fst r of Included x \<Rightarrow> x \<le> i | Excluded x \<Rightarrow> x < i | Unbounded \<Rightarrow> True) \<and>
     (case snd r of Included x \<Rightarrow> i \<le> x | Excluded x \<Rightarrow> i < x | Unbounded \<Rightarrow> True)"

definition range_start :: "idx_range \<Rightarrow> u64 option" where
  "range_start r = (case fst r of Included x \<Rightarrow> Some x | Excluded x \<Rightarrow> checked_add x 1
     | Unbounded \<Rightarrow> Some 0)"

definition MAX_LOG_READ_PREALLOC :: nat where "MAX_LOG_READ_PREALLOC = 1024"

definition range_len_hint :: "idx_range \<Rightarrow> nat" where
  "range_len_hint r = (case range_start r of None \<Rightarrow> 0
     | Some start \<Rightarrow>
        (case (case snd r of Included x \<Rightarrow> checked_add x 1 | Excluded x \<Rightarrow> Some x | Unbounded \<Rightarrow> None) of
           None \<Rightarrow> 0
         | Some e \<Rightarrow> if start \<le> e then min (unat (e - start)) MAX_LOG_READ_PREALLOC else 0))"

lemma range_start_None: "range_start r = None \<Longrightarrow> \<not> range_contains r i"
proof -
  assume "range_start r = None"
  then obtain x where x: "fst r = Excluded x" "checked_add x 1 = None"
    by (auto simp: range_start_def split: bound.splits)
  have "unat i < 2 ^ 64" using unat_lt_2p[of i] by simp
  with x show ?thesis by (simp add: range_contains_def checked_add_None word_less_nat_alt)
qed

lemma range_start_le: "range_start r = Some a \<Longrightarrow> range_contains r i \<Longrightarrow> a \<le> i"
  by (auto simp: range_start_def range_contains_def checked_add_Some word_less_nat_alt
      word_le_nat_alt split: bound.splits)

lemma range_convex:
  "range_start r = Some a \<Longrightarrow> a \<le> i \<Longrightarrow> i < j \<Longrightarrow> range_contains r j \<Longrightarrow> range_contains r i"
  by (cases "fst r"; cases "snd r")
     (auto simp: range_start_def range_contains_def checked_add_Some word_less_nat_alt word_le_nat_alt)

section \<open>The store\<close>

text \<open>What the store needs to know of openraft's types: the order of log ids is their \<open>linorder\<close>.\<close>

record ('i, 'e, 'v) raft_api =
  ra_index :: "'i \<Rightarrow> u64"
  ra_log_id :: "'e \<Rightarrow> 'i"
  enc_entry :: "'e \<Rightarrow> string result"
  dec_entry :: "string \<Rightarrow> 'e result"
  enc_log_id :: "'i \<Rightarrow> string result"
  dec_log_id :: "string \<Rightarrow> 'i result"
  enc_vote :: "'v \<Rightarrow> string result"
  dec_vote :: "string \<Rightarrow> 'v result"

definition entry_index :: "('i, 'e, 'v) raft_api \<Rightarrow> 'e \<Rightarrow> u64" where
  "entry_index a e = ra_index a (ra_log_id a e)"

definition raft_api_ok :: "('i, 'e, 'v) raft_api \<Rightarrow> bool" where
  "raft_api_ok a \<longleftrightarrow>
     (\<forall>e. \<exists>s. enc_entry a e = Inr s \<and> dec_entry a s = Inr e) \<and>
     (\<forall>i. \<exists>s. enc_log_id a i = Inr s \<and> dec_log_id a s = Inr i) \<and>
     (\<forall>v. \<exists>s. enc_vote a v = Inr s \<and> dec_vote a s = Inr v)"

record log_db =
  db_meta :: "(string, string) cf"
  db_logs :: "(u8 list, string) cf"

type_synonym log_write = "(u8 list, string) kv_write"

definition KEY_LAST_PURGED :: string where "KEY_LAST_PURGED = ''last_purged_log_id''"
definition KEY_VOTE :: string where "KEY_VOTE = ''vote''"
definition KEY_COMMITTED :: string where "KEY_COMMITTED = ''committed''"

definition get_meta :: "(string \<Rightarrow> 'x result) \<Rightarrow> string \<Rightarrow> log_db \<Rightarrow> 'x option result" where
  "get_meta dec key db = (case cf_get (db_meta db) key of None \<Rightarrow> Inr None
     | Some bytes \<Rightarrow> rbind (dec bytes) (\<lambda>t. Inr (Some t)))"

definition put_meta :: "('x \<Rightarrow> string result) \<Rightarrow> string \<Rightarrow> 'x \<Rightarrow> log_db \<Rightarrow> log_db result" where
  "put_meta enc key v db = rbind (enc v) (\<lambda>bytes. Inr (db\<lparr>db_meta := cf_put (db_meta db) key bytes\<rparr>))"

definition remove_meta :: "string \<Rightarrow> log_db \<Rightarrow> log_db" where
  "remove_meta key db = db\<lparr>db_meta := cf_del (db_meta db) key\<rparr>"

text \<open>The iterator loop shared by reads and deletes: from the start key, up to the first index out of range.\<close>

fun scan_ids :: "idx_range \<Rightarrow> (u8 list \<times> string) list \<Rightarrow> (u64 \<times> string) list result" where
  "scan_ids r [] = Inr []"
| "scan_ids r ((k, v) # es) = rbind (bin_to_id k) (\<lambda>i.
     if \<not> range_contains r i then Inr []
     else rbind (scan_ids r es) (\<lambda>rest. Inr ((i, v) # rest)))"

definition iterate_from :: "log_db \<Rightarrow> u64 \<Rightarrow> (u8 list \<times> string) list" where
  "iterate_from db start = dropWhile (\<lambda>(k, _). k < id_to_bin start) (db_logs db)"

definition append_log_deletes :: "log_db \<Rightarrow> idx_range \<Rightarrow> log_write list result" where
  "append_log_deletes db r = (case range_start r of None \<Rightarrow> Inr []
     | Some start \<Rightarrow> rbind (scan_ids r (iterate_from db start))
         (\<lambda>raw. Inr (map (\<lambda>(i, _). (id_to_bin i, None)) raw)))"

definition remove_logs_from :: "log_db \<Rightarrow> u64 \<Rightarrow> log_db result" where
  "remove_logs_from db start_index =
     rbind (append_log_deletes db (Included start_index, Unbounded)) (\<lambda>batch.
       if batch = [] then Inr db else Inr (db\<lparr>db_logs := cf_batch (db_logs db) batch\<rparr>))"

definition purge_logs_through :: "('i, 'e, 'v) raft_api \<Rightarrow> log_db \<Rightarrow> 'i \<Rightarrow> log_db result" where
  "purge_logs_through a db log_id = rbind (enc_log_id a log_id) (\<lambda>value.
     rbind (append_log_deletes db (Included 0, Included (ra_index a log_id))) (\<lambda>batch.
       Inr (db\<lparr>db_meta := cf_put (db_meta db) KEY_LAST_PURGED value,
               db_logs := cf_batch (db_logs db) batch\<rparr>)))"

definition decode_entry :: "('i, 'e, 'v) raft_api \<Rightarrow> u64 \<times> string \<Rightarrow> 'e result" where
  "decode_entry a iv = rbind (dec_entry a (snd iv)) (\<lambda>e.
     if fst iv \<noteq> entry_index a e
     then Inl (''log key index '' @ show_u64 (fst iv) @ '' does not match entry index '' @
               show_u64 (entry_index a e))
     else Inr e)"

definition try_get_log_entries :: "('i, 'e, 'v) raft_api \<Rightarrow> log_db \<Rightarrow> idx_range \<Rightarrow> 'e list result" where
  "try_get_log_entries a db r = (case range_start r of None \<Rightarrow> Inr []
     | Some start \<Rightarrow> rbind (scan_ids r (iterate_from db start)) (rcollect (decode_entry a)))"

definition read_vote :: "('i, 'e, 'v) raft_api \<Rightarrow> log_db \<Rightarrow> 'v option result" where
  "read_vote a db = get_meta (dec_vote a) KEY_VOTE db"

definition save_vote :: "('i, 'e, 'v) raft_api \<Rightarrow> log_db \<Rightarrow> 'v \<Rightarrow> log_db result" where
  "save_vote a db v = put_meta (enc_vote a) KEY_VOTE v db"

definition read_committed :: "('i, 'e, 'v) raft_api \<Rightarrow> log_db \<Rightarrow> 'i option result" where
  "read_committed a db = get_meta (dec_log_id a) KEY_COMMITTED db"

definition save_committed :: "('i, 'e, 'v) raft_api \<Rightarrow> log_db \<Rightarrow> 'i option \<Rightarrow> log_db result" where
  "save_committed a db committed = (case committed of
      Some log_id \<Rightarrow> put_meta (enc_log_id a) KEY_COMMITTED log_id db
    | None \<Rightarrow> Inr (remove_meta KEY_COMMITTED db))"

text \<open>\<open>LogState\<close>: the last purged and the last log id.\<close>

definition get_log_state :: "('i, 'e, 'v) raft_api \<Rightarrow> log_db \<Rightarrow> ('i option \<times> 'i option) result" where
  "get_log_state a db =
     rbind (case rev (db_logs db) of [] \<Rightarrow> Inr None
       | (k, bytes) # _ \<Rightarrow>
           rbind (dec_entry a bytes) (\<lambda>ent. rbind (bin_to_id k) (\<lambda>key_index.
             if key_index \<noteq> entry_index a ent
             then Inl (''last log key index '' @ show_u64 key_index @ '' does not match entry index '' @
                       show_u64 (entry_index a ent))
             else Inr (Some (ra_log_id a ent)))))
     (\<lambda>last_log_id. rbind (get_meta (dec_log_id a) KEY_LAST_PURGED db) (\<lambda>last_purged.
        Inr (last_purged, (case last_log_id of None \<Rightarrow> last_purged | Some x \<Rightarrow> Some x))))"

definition append_entries :: "('i, 'e, 'v) raft_api \<Rightarrow> log_db \<Rightarrow> 'e list \<Rightarrow> log_db result" where
  "append_entries a db entries =
     rbind (rcollect (\<lambda>e. rbind (enc_entry a e) (\<lambda>v. Inr (id_to_bin (entry_index a e), Some v))) entries)
     (\<lambda>batch. if batch = [] then Inr db else Inr (db\<lparr>db_logs := cf_batch (db_logs db) batch\<rparr>))"

definition truncate_after :: "('i, 'e, 'v) raft_api \<Rightarrow> log_db \<Rightarrow> 'i option \<Rightarrow> log_db result" where
  "truncate_after a db last_log_id =
     (case (case last_log_id of None \<Rightarrow> Some 0 | Some log_id \<Rightarrow> checked_add (ra_index a log_id) 1) of
        None \<Rightarrow> Inr db
      | Some start_index \<Rightarrow> remove_logs_from db start_index)"

section \<open>The log as a map\<close>

definition logs_map :: "('i, 'e, 'v) raft_api \<Rightarrow> (u8 list, string) cf \<Rightarrow> u64 \<Rightarrow> 'e option" where
  "logs_map a logs i = (case cf_get logs (id_to_bin i) of None \<Rightarrow> None
     | Some v \<Rightarrow> (case dec_entry a v of Inl _ \<Rightarrow> None | Inr e \<Rightarrow> Some e))"

definition logs_ok :: "('i, 'e, 'v) raft_api \<Rightarrow> (u8 list, string) cf \<Rightarrow> bool" where
  "logs_ok a logs \<longleftrightarrow> cf_ok logs \<and> (\<forall>k v. cf_get logs k = Some v \<longrightarrow>
     (\<exists>e. dec_entry a v = Inr e \<and> k = id_to_bin (entry_index a e)))"

lemma logs_okD:
  assumes "logs_ok a logs" "(k, v) \<in> set logs"
  obtains e where "dec_entry a v = Inr e" "k = id_to_bin (entry_index a e)"
    "logs_map a logs (entry_index a e) = Some e"
proof -
  have get: "cf_get logs k = Some v" using assms by (simp add: logs_ok_def cf_entries_iff)
  then obtain e where e: "dec_entry a v = Inr e" "k = id_to_bin (entry_index a e)"
    using assms(1) unfolding logs_ok_def by blast
  from get e have "logs_map a logs (entry_index a e) = Some e" by (simp add: logs_map_def)
  with e show thesis by (rule that)
qed

definition bin_idx :: "u8 list \<Rightarrow> u64" where
  "bin_idx k = word_of_nat (be_val k)"

lemma bin_idx_id_to_bin [simp]: "bin_idx (id_to_bin i) = i"
  by (simp add: bin_idx_def be_val_id_to_bin)

text \<open>The stored entries keyed by index.\<close>

definition idx_list :: "(u8 list, string) cf \<Rightarrow> (u64 \<times> string) list" where
  "idx_list logs = map (\<lambda>(k, v). (bin_idx k, v)) logs"

lemma idx_list_keys:
  assumes "logs_ok a logs"
  shows "logs = map (\<lambda>(i, v). (id_to_bin i, v)) (idx_list logs)"
proof -
  have "id_to_bin (bin_idx (fst kv)) = fst kv" if "kv \<in> set logs" for kv
    using that logs_okD[OF assms, of "fst kv" "snd kv"] by (metis bin_idx_id_to_bin prod.collapse)
  then show ?thesis by (simp add: idx_list_def split_beta map_idI)
qed

lemma idx_list_sorted:
  assumes "logs_ok a logs"
  shows "sorted_wrt (<) (map fst (idx_list logs))"
proof -
  have "sorted_wrt (<) (map fst logs)" using assms by (simp add: logs_ok_def cf_ok_def)
  then have "sorted_wrt (\<lambda>i j. id_to_bin i < id_to_bin j) (map fst (idx_list logs))"
    by (subst (asm) idx_list_keys[OF assms]) (simp add: sorted_wrt_map split_beta)
  then show ?thesis by (simp only: id_to_bin_order)
qed

lemma idx_list_mem:
  assumes "logs_ok a logs"
  shows "(\<exists>v. (i, v) \<in> set (idx_list logs) \<and> dec_entry a v = Inr e) \<longleftrightarrow> logs_map a logs i = Some e"
proof -
  have "(i, v) \<in> set (idx_list logs) \<longleftrightarrow> cf_get logs (id_to_bin i) = Some v" for v
  proof -
    have "(i, v) \<in> set (idx_list logs) \<longleftrightarrow> (id_to_bin i, v) \<in> set (map (\<lambda>(i, v). (id_to_bin i, v)) (idx_list logs))"
      by auto
    then show ?thesis using assms idx_list_keys[OF assms] by (simp add: logs_ok_def cf_entries_iff)
  qed
  then show ?thesis by (auto simp: logs_map_def split: option.splits sum.splits)
qed

lemma scan_ids_takeWhile:
  "scan_ids r (map (\<lambda>(i, v). (id_to_bin i, v)) es) = Inr (takeWhile (\<lambda>(i, _). range_contains r i) es)"
  by (induction es) auto

lemma scan_ids_range:
  assumes "logs_ok a (db_logs db)" "range_start r = Some start"
  shows "scan_ids r (iterate_from db start) =
    Inr (filter (\<lambda>(i, _). range_contains r i) (idx_list (db_logs db)))"
proof -
  let ?L = "idx_list (db_logs db)"
  have "(\<lambda>(k, _). k < id_to_bin start) \<circ> (\<lambda>(i, v). (id_to_bin i, v)) = (\<lambda>(i, _ :: string). i < start)"
    by (auto simp: fun_eq_iff id_to_bin_order)
  then have "iterate_from db start = map (\<lambda>(i, v). (id_to_bin i, v)) (dropWhile (\<lambda>(i, _). i < start) ?L)"
    unfolding iterate_from_def by (subst idx_list_keys[OF assms(1)]) (simp add: dropWhile_map)
  then have "scan_ids r (iterate_from db start) = Inr (scan_while start (range_contains r) ?L)"
    by (simp add: scan_ids_takeWhile scan_while_def)
  also have "\<dots> = Inr (filter (\<lambda>(i, _). range_contains r i) ?L)"
    using range_start_le[OF assms(2)] range_convex[OF assms(2)]
    by (simp add: scan_while_filter[OF idx_list_sorted[OF assms(1)]])
  finally show ?thesis .
qed

section \<open>What the operations do\<close>

definition delete_range :: "idx_range \<Rightarrow> (u8 list, string) cf \<Rightarrow> (u8 list, string) cf" where
  "delete_range r logs = cf_batch logs
     (map (\<lambda>(i, _). (id_to_bin i, None)) (filter (\<lambda>(i, _). range_contains r i) (idx_list logs)))"

lemma append_log_deletes_eq:
  assumes "logs_ok a (db_logs db)"
  shows "\<exists>batch. append_log_deletes db r = Inr batch \<and> cf_batch (db_logs db) batch = delete_range r (db_logs db)"
proof (cases "range_start r")
  case None
  then show ?thesis
    by (simp add: append_log_deletes_def delete_range_def range_start_None[OF None])
next
  case (Some start)
  then show ?thesis
    by (simp add: append_log_deletes_def scan_ids_range[OF assms Some] delete_range_def)
qed

lemma delete_range_get:
  assumes "logs_ok a logs"
  shows "cf_get (delete_range r logs) k = (if \<exists>i. k = id_to_bin i \<and> range_contains r i then None else cf_get logs k)"
proof -
  let ?ms = "map (\<lambda>(i, _). (id_to_bin i, None)) (filter (\<lambda>(i, _). range_contains r i) (idx_list logs)) :: log_write list"
  have "cf_get (delete_range r logs) k = (if k \<in> fst ` set ?ms then None else cf_get logs k)"
    unfolding delete_range_def by (rule cf_batch_dels) auto
  moreover have "k \<in> fst ` set ?ms \<longleftrightarrow> (\<exists>i v. (i, v) \<in> set (idx_list logs) \<and> range_contains r i \<and> k = id_to_bin i)"
    by force
  moreover have "cf_get logs (id_to_bin i) = None" if "\<nexists>v. (i, v) \<in> set (idx_list logs)" for i
  proof (rule ccontr)
    assume "cf_get logs (id_to_bin i) \<noteq> None"
    then obtain v where "(id_to_bin i, v) \<in> set logs" using assms
      by (auto simp: logs_ok_def cf_entries_iff)
    then have "(i, v) \<in> set (idx_list logs)" unfolding idx_list_def by force
    with that show False by blast
  qed
  ultimately show ?thesis by auto
qed

lemma delete_range_map:
  assumes "logs_ok a logs"
  shows "logs_map a (delete_range r logs) = (\<lambda>i. if range_contains r i then None else logs_map a logs i)"
    and "logs_ok a (delete_range r logs)"
proof -
  show "logs_map a (delete_range r logs) = (\<lambda>i. if range_contains r i then None else logs_map a logs i)"
    by (auto simp: logs_map_def delete_range_get[OF assms] fun_eq_iff)
  have "cf_ok (delete_range r logs)" using assms by (simp add: delete_range_def logs_ok_def cf_ok_batch)
  then show "logs_ok a (delete_range r logs)"
    using assms by (auto simp: logs_ok_def delete_range_get[OF assms] split: if_splits)
qed

lemma logs_put:
  assumes "logs_ok a logs" "dec_entry a v = Inr e"
  shows "logs_ok a (cf_put logs (id_to_bin (entry_index a e)) v)"
    and "logs_map a (cf_put logs (id_to_bin (entry_index a e)) v) = (logs_map a logs)(entry_index a e \<mapsto> e)"
  using assms by (auto simp: logs_ok_def cf_ok_put cf_get_put logs_map_def fun_eq_iff)

definition put_entry :: "('i, 'e, 'v) raft_api \<Rightarrow> (u64 \<Rightarrow> 'e option) \<Rightarrow> 'e \<Rightarrow> u64 \<Rightarrow> 'e option" where
  "put_entry a m e = m(entry_index a e \<mapsto> e)"

lemma append_batch:
  assumes "raft_api_ok a" "logs_ok a logs"
  shows "\<exists>batch. rcollect (\<lambda>e. rbind (enc_entry a e) (\<lambda>v. Inr (id_to_bin (entry_index a e), Some v))) es = Inr batch \<and>
    (batch = [] \<longleftrightarrow> es = []) \<and> logs_ok a (cf_batch logs batch) \<and>
    logs_map a (cf_batch logs batch) = foldl (put_entry a) (logs_map a logs) es"
  using assms(2)
proof (induction es arbitrary: logs)
  case (Cons e es)
  obtain v where v: "enc_entry a e = Inr v" "dec_entry a v = Inr e"
    using assms(1) unfolding raft_api_ok_def by blast
  let ?logs = "cf_put logs (id_to_bin (entry_index a e)) v"
  have upd: "logs_map a ?logs = put_entry a (logs_map a logs) e"
    by (simp add: logs_put(2)[OF Cons.prems v(2)] put_entry_def)
  obtain batch where "rcollect (\<lambda>e. rbind (enc_entry a e) (\<lambda>v. Inr (id_to_bin (entry_index a e), Some v))) es = Inr batch"
    "logs_ok a (cf_batch ?logs batch)"
    "logs_map a (cf_batch ?logs batch) = foldl (put_entry a) (logs_map a ?logs) es"
    using Cons.IH[OF logs_put(1)[OF Cons.prems v(2)]] by blast
  moreover have "cf_batch logs ((id_to_bin (entry_index a e), Some v) # batch) = cf_batch ?logs batch"
    by (simp add: cf_write_def)
  ultimately show ?case
    using v upd by simp
qed simp

section \<open>Simulation of a plain log\<close>

text \<open>The commands openraft gives the log store.\<close>

datatype ('i, 'e, 'v) log_op =
    OpAppend "'e list" | OpTruncate "'i option" | OpPurge 'i | OpSaveVote 'v | OpSaveCommitted "'i option"

definition log_exec :: "('i, 'e, 'v) raft_api \<Rightarrow> log_db \<Rightarrow> ('i, 'e, 'v) log_op \<Rightarrow> log_db result" where
  "log_exec a db cmd = (case cmd of
      OpAppend es \<Rightarrow> append_entries a db es
    | OpTruncate i \<Rightarrow> truncate_after a db i
    | OpPurge i \<Rightarrow> purge_logs_through a db i
    | OpSaveVote v \<Rightarrow> save_vote a db v
    | OpSaveCommitted i \<Rightarrow> save_committed a db i)"

record ('i, 'e, 'v) alog =
  al_entries :: "u64 \<Rightarrow> 'e option"
  al_purged :: "'i option"
  al_vote :: "'v option"
  al_committed :: "'i option"

definition alog_step ::
  "('i, 'e, 'v) raft_api \<Rightarrow> ('i, 'e, 'v) alog \<Rightarrow> ('i, 'e, 'v) log_op \<Rightarrow> ('i, 'e, 'v) alog" where
  "alog_step a l cmd = (case cmd of
      OpAppend es \<Rightarrow> l\<lparr>al_entries := foldl (put_entry a) (al_entries l) es\<rparr>
    | OpTruncate None \<Rightarrow> l\<lparr>al_entries := Map.empty\<rparr>
    | OpTruncate (Some i) \<Rightarrow> l\<lparr>al_entries := (\<lambda>j. if ra_index a i < j then None else al_entries l j)\<rparr>
    | OpPurge i \<Rightarrow> l\<lparr>al_entries := (\<lambda>j. if j \<le> ra_index a i then None else al_entries l j),
                     al_purged := Some i\<rparr>
    | OpSaveVote v \<Rightarrow> l\<lparr>al_vote := Some v\<rparr>
    | OpSaveCommitted i \<Rightarrow> l\<lparr>al_committed := i\<rparr>)"

definition meta_value :: "(string \<Rightarrow> 'x result) \<Rightarrow> string \<Rightarrow> log_db \<Rightarrow> 'x option" where
  "meta_value dec key db = (case cf_get (db_meta db) key of None \<Rightarrow> None
     | Some bytes \<Rightarrow> (case dec bytes of Inl _ \<Rightarrow> None | Inr x \<Rightarrow> Some x))"

definition meta_readable :: "(string \<Rightarrow> 'x result) \<Rightarrow> string \<Rightarrow> log_db \<Rightarrow> bool" where
  "meta_readable dec key db \<longleftrightarrow> (case cf_get (db_meta db) key of None \<Rightarrow> True
     | Some bytes \<Rightarrow> (\<exists>x. dec bytes = Inr x))"

definition log_abs :: "('i, 'e, 'v) raft_api \<Rightarrow> log_db \<Rightarrow> ('i, 'e, 'v) alog" where
  "log_abs a db = \<lparr>al_entries = logs_map a (db_logs db),
     al_purged = meta_value (dec_log_id a) KEY_LAST_PURGED db,
     al_vote = meta_value (dec_vote a) KEY_VOTE db,
     al_committed = meta_value (dec_log_id a) KEY_COMMITTED db\<rparr>"

definition log_inv :: "('i, 'e, 'v) raft_api \<Rightarrow> log_db \<Rightarrow> bool" where
  "log_inv a db \<longleftrightarrow> logs_ok a (db_logs db) \<and> cf_ok (db_meta db) \<and>
     meta_readable (dec_log_id a) KEY_LAST_PURGED db \<and> meta_readable (dec_vote a) KEY_VOTE db \<and>
     meta_readable (dec_log_id a) KEY_COMMITTED db"

lemmas meta_keys = KEY_LAST_PURGED_def KEY_VOTE_def KEY_COMMITTED_def
lemmas meta_defs = meta_value_def meta_readable_def get_meta_def put_meta_def remove_meta_def

lemma get_meta_value: "meta_readable dec key db \<Longrightarrow> get_meta dec key db = Inr (meta_value dec key db)"
  by (auto simp: meta_defs split: option.splits)

lemma al_entries_abs [simp]: "al_entries (log_abs a db) = logs_map a (db_logs db)"
  by (simp add: log_abs_def)

lemma log_exec_append:
  assumes "raft_api_ok a" "log_inv a db"
  shows "\<exists>db'. append_entries a db es = Inr db' \<and> log_inv a db' \<and>
    log_abs a db' = alog_step a (log_abs a db) (OpAppend es)"
proof -
  obtain batch where b: "rcollect (\<lambda>e. rbind (enc_entry a e) (\<lambda>v. Inr (id_to_bin (entry_index a e), Some v))) es = Inr batch"
    "batch = [] \<longleftrightarrow> es = []" "logs_ok a (cf_batch (db_logs db) batch)"
    "logs_map a (cf_batch (db_logs db) batch) = foldl (put_entry a) (logs_map a (db_logs db)) es"
    using append_batch[OF assms(1), of "db_logs db" es] assms(2) by (auto simp: log_inv_def)
  show ?thesis
  proof (cases "es = []")
    case True
    then show ?thesis using b assms by (simp add: append_entries_def alog_step_def)
  next
    case False
    then show ?thesis using b assms(2)
      by (simp add: append_entries_def alog_step_def log_inv_def log_abs_def meta_defs)
  qed
qed

lemma remove_logs_from_spec:
  assumes "log_inv a db"
  shows "\<exists>db'. remove_logs_from db i = Inr db' \<and> log_inv a db' \<and>
    log_abs a db' = log_abs a db\<lparr>al_entries := (\<lambda>j. if i \<le> j then None else logs_map a (db_logs db) j)\<rparr>"
proof -
  have ok: "logs_ok a (db_logs db)" using assms by (simp add: log_inv_def)
  let ?r = "(Included i, Unbounded)" and ?logs = "delete_range (Included i, Unbounded) (db_logs db)"
  obtain batch where b: "append_log_deletes db ?r = Inr batch" "cf_batch (db_logs db) batch = ?logs"
    using append_log_deletes_eq[OF ok] by blast
  then have "remove_logs_from db i = Inr (db\<lparr>db_logs := ?logs\<rparr>)"
    by (auto simp: remove_logs_from_def)
  moreover have "log_inv a (db\<lparr>db_logs := ?logs\<rparr>)"
    using assms delete_range_map(2)[OF ok] by (simp add: log_inv_def meta_readable_def)
  moreover have "log_abs a (db\<lparr>db_logs := ?logs\<rparr>) =
      log_abs a db\<lparr>al_entries := (\<lambda>j. if i \<le> j then None else logs_map a (db_logs db) j)\<rparr>"
    by (simp add: log_abs_def delete_range_map(1)[OF ok] meta_value_def range_contains_def)
  ultimately show ?thesis by blast
qed

lemma log_exec_truncate:
  assumes "log_inv a db"
  shows "\<exists>db'. truncate_after a db i = Inr db' \<and> log_inv a db' \<and>
    log_abs a db' = alog_step a (log_abs a db) (OpTruncate i)"
proof (cases i)
  case None
  then show ?thesis using remove_logs_from_spec[OF assms, of 0]
    by (simp add: truncate_after_def alog_step_def)
next
  case (Some li)
  show ?thesis
  proof (cases "checked_add (ra_index a li) 1")
    case None
    then have "\<not> ra_index a li < j" for j
      using unat_lt_2p[of j] by (simp add: checked_add_None word_less_nat_alt)
    then show ?thesis using Some None assms
      by (simp add: truncate_after_def alog_step_def log_abs_def)
  next
    case (Some k)
    then have "k \<le> j \<longleftrightarrow> ra_index a li < j" for j
      by (simp add: checked_add_Some word_less_nat_alt word_le_nat_alt Suc_le_eq)
    then show ?thesis using \<open>i = Some li\<close> Some remove_logs_from_spec[OF assms, of k]
      by (simp add: truncate_after_def alog_step_def cong: if_cong)
  qed
qed

lemma log_exec_purge:
  assumes "raft_api_ok a" "log_inv a db"
  shows "\<exists>db'. purge_logs_through a db i = Inr db' \<and> log_inv a db' \<and>
    log_abs a db' = alog_step a (log_abs a db) (OpPurge i)"
proof -
  have ok: "logs_ok a (db_logs db)" using assms(2) by (simp add: log_inv_def)
  let ?r = "(Included 0, Included (ra_index a i))"
  let ?logs = "delete_range ?r (db_logs db)"
  obtain batch where b: "append_log_deletes db ?r = Inr batch" "cf_batch (db_logs db) batch = ?logs"
    using append_log_deletes_eq[OF ok] by blast
  obtain v where v: "enc_log_id a i = Inr v" "dec_log_id a v = Inr i"
    using assms(1) unfolding raft_api_ok_def by blast
  let ?db = "db\<lparr>db_meta := cf_put (db_meta db) KEY_LAST_PURGED v, db_logs := ?logs\<rparr>"
  have "purge_logs_through a db i = Inr ?db"
    using b v by (simp add: purge_logs_through_def)
  moreover have "log_inv a ?db"
    using assms(2) v delete_range_map(2)[OF ok]
    by (simp add: log_inv_def meta_readable_def cf_ok_put cf_get_put meta_keys)
  moreover have "log_abs a ?db = alog_step a (log_abs a db) (OpPurge i)"
    using v by (simp add: log_abs_def alog_step_def delete_range_map(1)[OF ok] meta_value_def
        range_contains_def cf_get_put meta_keys cong: if_cong)
  ultimately show ?thesis by blast
qed

lemma log_exec_meta:
  assumes "raft_api_ok a" "log_inv a db" "cmd = OpSaveVote v \<or> cmd = OpSaveCommitted i"
  shows "\<exists>db'. log_exec a db cmd = Inr db' \<and> log_inv a db' \<and> log_abs a db' = alog_step a (log_abs a db) cmd"
proof -
  obtain bv where "enc_vote a v = Inr bv" "dec_vote a bv = Inr v"
    using assms(1) unfolding raft_api_ok_def by blast
  moreover obtain bi where "\<And>j. i = Some j \<Longrightarrow> enc_log_id a j = Inr bi \<and> dec_log_id a bi = Inr j"
    using assms(1) unfolding raft_api_ok_def by (cases i) fastforce+
  ultimately show ?thesis using assms(2,3)
    by (cases i) (auto simp: log_exec_def save_vote_def save_committed_def meta_defs log_inv_def
        log_abs_def alog_step_def cf_ok_put cf_ok_del cf_get_put cf_get_del meta_keys)
qed

lemma log_exec_refines:
  assumes "raft_api_ok a" "log_inv a db"
  shows "\<exists>db'. log_exec a db cmd = Inr db' \<and> log_inv a db' \<and> log_abs a db' = alog_step a (log_abs a db) cmd"
proof (cases cmd)
  case (OpAppend es)
  then show ?thesis using log_exec_append[OF assms] by (simp add: log_exec_def)
next
  case (OpTruncate i)
  then show ?thesis using log_exec_truncate[OF assms(2)] by (simp add: log_exec_def)
next
  case (OpPurge i)
  then show ?thesis using log_exec_purge[OF assms] by (simp add: log_exec_def)
qed (use log_exec_meta[OF assms] in blast)+

definition log_step :: "('i, 'e, 'v) raft_api \<Rightarrow> log_db \<Rightarrow> ('i, 'e, 'v) log_op \<Rightarrow> log_db" where
  "log_step a db cmd = (case log_exec a db cmd of Inl _ \<Rightarrow> db | Inr db' \<Rightarrow> db')"

definition log_ready :: "('i, 'e, 'v) raft_api \<Rightarrow> log_db \<Rightarrow> bool" where
  "log_ready a db \<longleftrightarrow> raft_api_ok a \<and> log_inv a db"

interpretation ls: simulation "log_step a" "\<lambda>_. True" "log_ready a" "alog_step a" "log_abs a" for a
proof
  fix db cmd
  assume "log_ready a db"
  then obtain db' where "log_exec a db cmd = Inr db'" "log_inv a db'"
      "log_abs a db' = alog_step a (log_abs a db) cmd"
    using log_exec_refines unfolding log_ready_def by blast
  then show "log_ready a (log_step a db cmd)" "log_abs a (log_step a db cmd) = alog_step a (log_abs a db) cmd"
    using \<open>log_ready a db\<close> by (simp_all add: log_ready_def log_step_def)
qed

section \<open>Reads\<close>

lemma decode_entries:
  assumes "logs_ok a logs" "set ivs \<subseteq> set (idx_list logs)"
  shows "\<exists>es. rcollect (decode_entry a) ivs = Inr es \<and> map (entry_index a) es = map fst ivs \<and>
    map Some es = map (\<lambda>(i, _). logs_map a logs i) ivs"
  using assms(2)
proof (induction ivs)
  case (Cons iv ivs)
  then obtain k where "(k, snd iv) \<in> set logs" "fst iv = bin_idx k" by (auto simp: idx_list_def)
  then obtain e where e: "dec_entry a (snd iv) = Inr e" "fst iv = entry_index a e"
      "logs_map a logs (entry_index a e) = Some e"
    using logs_okD[OF assms(1)] by (metis bin_idx_id_to_bin)
  with Cons show ?case by (auto simp: decode_entry_def split_beta)
qed simp

text \<open>A range read returns the entries of the range, each once, in index order.\<close>

lemma try_get_log_entries_spec:
  assumes "logs_ok a (db_logs db)"
  shows "\<exists>es. try_get_log_entries a db r = Inr es \<and> sorted_wrt (<) (map (entry_index a) es) \<and>
    set es = {e. \<exists>i. range_contains r i \<and> logs_map a (db_logs db) i = Some e}"
proof (cases "range_start r")
  case None
  then show ?thesis by (simp add: try_get_log_entries_def range_start_None[OF None])
next
  case (Some start)
  let ?L = "idx_list (db_logs db)"
  let ?ivs = "filter (\<lambda>(i, _). range_contains r i) ?L"
  obtain es where es: "rcollect (decode_entry a) ?ivs = Inr es" "map (entry_index a) es = map fst ?ivs"
    "map Some es = map (\<lambda>(i, _). logs_map a (db_logs db) i) ?ivs"
    using decode_entries[OF assms, of ?ivs] by auto
  have "sorted_wrt (<) (map fst ?ivs)"
    using idx_list_sorted[OF assms] by (simp add: sorted_wrt_map sorted_wrt_filter)
  moreover have "e \<in> set es \<longleftrightarrow> (\<exists>i. range_contains r i \<and> logs_map a (db_logs db) i = Some e)" for e
  proof -
    have "e \<in> set es \<longleftrightarrow> Some e \<in> set (map Some es)" by auto
    also have "\<dots> \<longleftrightarrow> (\<exists>i v. (i, v) \<in> set ?L \<and> range_contains r i \<and> logs_map a (db_logs db) i = Some e)"
      unfolding es(3) by force
    also have "\<dots> \<longleftrightarrow> (\<exists>i. range_contains r i \<and> logs_map a (db_logs db) i = Some e)"
      using idx_list_mem[OF assms] by blast
    finally show ?thesis .
  qed
  ultimately show ?thesis
    using es by (auto simp: try_get_log_entries_def Some scan_ids_range[OF assms Some])
qed

text \<open>The log state: the entry with the largest index, or else the purged log id.\<close>

lemma logs_map_index: "logs_ok a logs \<Longrightarrow> logs_map a logs i = Some e \<Longrightarrow> entry_index a e = i"
  by (fastforce simp: logs_map_def logs_ok_def split: option.splits sum.splits)

lemma get_log_state_spec:
  assumes "log_inv a db"
  shows "\<exists>last. get_log_state a db = Inr (al_purged (log_abs a db), last) \<and>
    (if \<forall>i. logs_map a (db_logs db) i = None then last = al_purged (log_abs a db)
     else \<exists>e. last = Some (ra_log_id a e) \<and> logs_map a (db_logs db) (entry_index a e) = Some e \<and>
       (\<forall>i. entry_index a e < i \<longrightarrow> logs_map a (db_logs db) i = None))"
proof -
  have ok: "logs_ok a (db_logs db)" and meta: "meta_readable (dec_log_id a) KEY_LAST_PURGED db"
    using assms by (simp_all add: log_inv_def)
  note purged = get_meta_value[OF meta]
  show ?thesis
  proof (cases "rev (db_logs db)")
    case Nil
    then show ?thesis using purged by (simp add: get_log_state_def log_abs_def logs_map_def)
  next
    case (Cons kv rest)
    then have logs: "db_logs db = rev rest @ [kv]" by simp
    obtain e where e: "dec_entry a (snd kv) = Inr e" "fst kv = id_to_bin (entry_index a e)"
      "logs_map a (db_logs db) (entry_index a e) = Some e"
      by (rule logs_okD[OF ok, of "fst kv" "snd kv"]) (simp_all add: logs)
    have top: "logs_map a (db_logs db) i = None" if "entry_index a e < i" for i
    proof (rule ccontr)
      assume "logs_map a (db_logs db) i \<noteq> None"
      then obtain v where "(id_to_bin i, v) \<in> set (db_logs db)"
        using ok by (auto simp: logs_map_def logs_ok_def cf_entries_iff split: option.splits)
      moreover have "\<forall>x \<in> set (rev rest). fst x < fst kv"
        using ok by (auto simp: logs_ok_def cf_ok_def logs sorted_wrt_append)
      ultimately have "id_to_bin i \<le> fst kv" by (auto simp: logs less_le)
      then show False using that e(2) id_to_bin_order by (metis leD)
    qed
    have "get_log_state a db = Inr (al_purged (log_abs a db), Some (ra_log_id a e))"
      using Cons e purged by (cases kv) (simp add: get_log_state_def log_abs_def)
    then show ?thesis using e(3) top by auto
  qed
qed

end
