(* ===== verification/LogClaims.thy ===== *)
theory LogClaims
  imports LogStore WitnessCodec
begin

text \<open>
  The properties of the raft log store. The examples use log ids that are pairs of a term and
  an index, entries that are a log id with a payload, and the field encoding of \<open>WitnessCodec\<close>.
\<close>

section \<open>An example of openraft's types\<close>

type_synonym demo_id = "u64 \<times> u64"

definition demo_enc_id :: "demo_id \<Rightarrow> string" where
  "demo_enc_id i = enc_fields [enc_word (fst i), enc_word (snd i)]"

definition demo_dec_id :: "string \<Rightarrow> demo_id result" where
  "demo_dec_id s = (case dec_fields 2 s of Some [t, i] \<Rightarrow> Inr (dec_word t, dec_word i)
     | _ \<Rightarrow> Inl ''bad log id'')"

definition demo_api :: "(demo_id, demo_id \<times> string, u64) raft_api" where
  "demo_api = \<lparr>ra_index = snd, ra_log_id = fst,
     enc_entry = \<lambda>e. Inr (enc_fields [demo_enc_id (fst e), snd e]),
     dec_entry = \<lambda>s. (case dec_fields 2 s of
        Some [i, p] \<Rightarrow> rbind (demo_dec_id i) (\<lambda>i. Inr (i, p)) | _ \<Rightarrow> Inl ''bad entry''),
     enc_log_id = \<lambda>i. Inr (demo_enc_id i), dec_log_id = demo_dec_id,
     enc_vote = \<lambda>v. Inr (enc_word v), dec_vote = \<lambda>s. Inr (dec_word s)\<rparr>"

lemma demo_id_roundtrip: "demo_dec_id (demo_enc_id i) = Inr i"
  by (simp add: demo_dec_id_def demo_enc_id_def)

lemma demo_api_ok [simp]: "raft_api_ok demo_api"
  by (auto simp: raft_api_ok_def demo_api_def demo_id_roundtrip)

definition empty_log_db :: log_db where
  "empty_log_db = \<lparr>db_meta = [], db_logs = []\<rparr>"

lemma empty_log_inv: "log_inv a empty_log_db"
  by (simp add: empty_log_db_def log_inv_def logs_ok_def meta_readable_def)

lemma empty_log_abs:
  "log_abs a empty_log_db = \<lparr>al_entries = Map.empty, al_purged = None, al_vote = None, al_committed = None\<rparr>"
  by (simp add: empty_log_db_def log_abs_def logs_map_def meta_value_def fun_eq_iff)

definition demo_ops :: "(demo_id, demo_id \<times> string, u64) log_op list" where
  "demo_ops = [OpAppend [((1, 1), ''a''), ((1, 2), ''b''), ((2, 3), ''c'')], OpSaveVote 2,
     OpTruncate (Some (1, 2)), OpAppend [((3, 3), ''d'')], OpPurge (1, 1), OpSaveCommitted (Some (1, 2))]"

definition demo_log_db :: log_db where
  "demo_log_db = foldl (log_step demo_api) empty_log_db demo_ops"

lemma demo_log_ready: "log_ready demo_api demo_log_db"
  unfolding demo_log_db_def
  by (rule ls.run_inv) (simp_all add: log_ready_def empty_log_inv list_all_iff)

lemma demo_log_inv [simp]: "log_inv demo_api demo_log_db" "logs_ok demo_api (db_logs demo_log_db)"
  using demo_log_ready by (simp_all add: log_ready_def log_inv_def)

section \<open>The store implements the raft log\<close>

text \<open>C9: every sequence of append, truncate, purge, save-vote and save-committed on an empty
  database succeeds at each step, keeps the database decodable with every entry under the key of
  its own index, and leaves in it exactly what the same sequence does to a plain map from indexes
  to entries with a purge mark, a vote and a commit mark.\<close>

theorem log_store_refines:
  assumes "raft_api_ok a"
  shows "log_inv a (foldl (log_step a) empty_log_db cmds) \<and>
    (\<exists>db'. log_exec a (foldl (log_step a) empty_log_db cmds) cmd = Inr db') \<and>
    log_abs a (foldl (log_step a) empty_log_db cmds) =
      foldl (alog_step a)
        \<lparr>al_entries = Map.empty, al_purged = None, al_vote = None, al_committed = None\<rparr> cmds"
proof -
  have ready: "log_ready a empty_log_db" by (simp add: log_ready_def assms empty_log_inv)
  have valid: "list_all (\<lambda>_. True) cmds" by (simp add: list_all_iff)
  have inv: "log_inv a (foldl (log_step a) empty_log_db cmds)"
    using ls.run_inv[OF ready valid] by (simp add: log_ready_def)
  with ls.run_abs[OF ready valid] log_exec_refines[OF assms inv, of cmd] show ?thesis
    by (auto simp: empty_log_abs)
qed

theorem log_store_refines_witness:
  "log_inv demo_api (foldl (log_step demo_api) empty_log_db demo_ops) \<and>
    (\<exists>db'. log_exec demo_api (foldl (log_step demo_api) empty_log_db demo_ops) (OpTruncate None) = Inr db') \<and>
    log_abs demo_api (foldl (log_step demo_api) empty_log_db demo_ops) =
      foldl (alog_step demo_api)
        \<lparr>al_entries = Map.empty, al_purged = None, al_vote = None, al_committed = None\<rparr> demo_ops"
  by (rule log_store_refines) simp

text \<open>A range read succeeds and returns exactly the stored entries whose index is in the
  range, in strictly increasing index order; this covers inclusive, exclusive and unbounded ends.\<close>

theorem log_range_read:
  assumes "log_inv a db"
  shows "\<exists>es. try_get_log_entries a db r = Inr es \<and> sorted_wrt (<) (map (entry_index a) es) \<and>
    set es = {e. \<exists>i. range_contains r i \<and> al_entries (log_abs a db) i = Some e}"
  using try_get_log_entries_spec[of a db r] assms by (simp add: log_inv_def)

theorem log_range_read_witness:
  "\<exists>es. try_get_log_entries demo_api demo_log_db (Excluded 1, Unbounded) = Inr es \<and>
    sorted_wrt (<) (map (entry_index demo_api) es) \<and>
    set es = {e. \<exists>i. range_contains (Excluded 1, Unbounded) i \<and>
      al_entries (log_abs demo_api demo_log_db) i = Some e}"
  by (rule log_range_read) simp

text \<open>The log state reports the purge mark and, as the last log id, the id of the entry with
  the largest index, or the purge mark when no entry is left.\<close>

theorem log_state_correct:
  assumes "log_inv a db"
  shows "\<exists>last. get_log_state a db = Inr (al_purged (log_abs a db), last) \<and>
    (if dom (al_entries (log_abs a db)) = {} then last = al_purged (log_abs a db)
     else \<exists>e. last = Some (ra_log_id a e) \<and> al_entries (log_abs a db) (entry_index a e) = Some e \<and>
       dom (al_entries (log_abs a db)) \<subseteq> {..entry_index a e})"
proof -
  have none: "(\<forall>i. logs_map a (db_logs db) i = None) \<longleftrightarrow> dom (logs_map a (db_logs db)) = {}"
    by (auto simp: dom_def)
  have top: "(\<forall>i. entry_index a e < i \<longrightarrow> logs_map a (db_logs db) i = None) \<longleftrightarrow>
      dom (logs_map a (db_logs db)) \<subseteq> {..entry_index a e}" for e
    by (auto simp: dom_def subset_iff) (metis linorder_not_less option.distinct(1))
  show ?thesis using get_log_state_spec[OF assms]
    by (simp only: none top al_entries_abs cong: if_cong)
qed

theorem log_state_correct_witness:
  "\<exists>last. get_log_state demo_api demo_log_db = Inr (al_purged (log_abs demo_api demo_log_db), last) \<and>
    (if dom (al_entries (log_abs demo_api demo_log_db)) = {}
     then last = al_purged (log_abs demo_api demo_log_db)
     else \<exists>e. last = Some (ra_log_id demo_api e) \<and>
       al_entries (log_abs demo_api demo_log_db) (entry_index demo_api e) = Some e \<and>
       dom (al_entries (log_abs demo_api demo_log_db)) \<subseteq> {..entry_index demo_api e})"
  by (rule log_state_correct) simp

text \<open>Index keys are eight bytes, decode to the index they encode, and their byte order is
  the numeric order of the indexes.\<close>

theorem index_key_order:
  "length (id_to_bin i) = 8 \<and> bin_to_id (id_to_bin i) = Inr i \<and> (id_to_bin i < id_to_bin j \<longleftrightarrow> i < j)"
  by (simp add: id_to_bin_order)

end

