(* ===== verification/StateMachineClaims.thy ===== *)
theory StateMachineClaims
  imports StateMachineQueue Snapshots LogClaims
begin

text \<open>
  The properties of the state machine and of its snapshots, with examples on concrete log ids,
  memberships (a string) and file formats.
\<close>

section \<open>Examples of the external formats\<close>

definition demo_sm_api :: "(demo_id, string, string) sm_api" where
  "demo_sm_api = \<lparr>enc_applied = \<lambda>i. Inr (demo_enc_id i), dec_applied = demo_dec_id,
     enc_membership = \<lambda>m. Inr m, dec_membership = \<lambda>s. Inr s,
     stored_membership = \<lambda>_ m. m, default_membership = []\<rparr>"

lemma demo_sm_api_ok [simp]: "sm_api_ok demo_sm_api"
  by (auto simp: sm_api_ok_def demo_sm_api_def demo_id_roundtrip)

fun pair_up :: "string list \<Rightarrow> (string \<times> string) list" where
  "pair_up (k # v # xs) = (k, v) # pair_up xs"
| "pair_up _ = []"

definition flat_data :: "(string \<times> string) list \<Rightarrow> string list" where
  "flat_data d = concat (map (\<lambda>(k, v). [k, v]) d)"

lemma pair_up_flat [simp]: "pair_up (flat_data d) = d"
  by (induction d) (auto simp: flat_data_def)

definition demo_ser_data :: "(string \<times> string) list \<Rightarrow> string" where
  "demo_ser_data d = enc_field (show_nat (length (flat_data d))) @ enc_fields (flat_data d)"

definition demo_de_data :: "string \<Rightarrow> (string \<times> string) list result" where
  "demo_de_data s = (case dec_field s of None \<Rightarrow> Inl ''bad data''
     | Some (n, rest) \<Rightarrow> (case digits_val 0 n of None \<Rightarrow> Inl ''bad data''
       | Some k \<Rightarrow> (case dec_fields k rest of None \<Rightarrow> Inl ''bad data'' | Some xs \<Rightarrow> Inr (pair_up xs))))"

lemma demo_data_roundtrip: "demo_de_data (demo_ser_data d) = Inr d"
  by (simp add: demo_de_data_def demo_ser_data_def dec_enc_field digits_val_show_nat)

definition demo_snap_api :: "(demo_id, string) snap_api" where
  "demo_snap_api = \<lparr>zstd_encode = \<lambda>b. Inr (ZSTD_FRAME_MAGIC @ b), zstd_decode = \<lambda>z. Inr (drop 4 z),
     ser_snapshot = \<lambda>sf. Inr (enc_fields [enc_opt demo_enc_id (last_log_id (sf_meta sf)),
        last_membership (sf_meta sf), sf_file_id sf, demo_ser_data (sf_data sf)]),
     de_snapshot = \<lambda>s. (case dec_fields 4 s of
        Some [i, m, f, d] \<Rightarrow> rbind (demo_de_data d) (\<lambda>d. Inr \<lparr>sf_meta =
          \<lparr>last_log_id = dec_opt (\<lambda>s. projr (demo_dec_id s)) i, last_membership = m\<rparr>,
          sf_file_id = f, sf_data = d\<rparr>)
      | _ \<Rightarrow> Inl ''bad snapshot''),
     ser_data = \<lambda>d. Inr (demo_ser_data d), de_data = demo_de_data,
     show_leader = \<lambda>i. show_u64 (fst i), log_index_of = snd\<rparr>"

lemma demo_snap_api_ok [simp]: "snap_api_ok demo_snap_api"
  by (auto simp: snap_api_ok_def demo_snap_api_def demo_data_roundtrip demo_id_roundtrip ZSTD_FRAME_MAGIC_def
      starts_with_def)

definition empty_sm :: rocks_sm where
  "empty_sm = \<lparr>sm_data = [], sm_meta = [], sm_memory = []\<rparr>"

lemma empty_sm_simps [simp]:
  "sm_inv empty_sm" "sm_data empty_sm = []" "sm_meta empty_sm = []" "sm_memory empty_sm = []"
  by (simp_all add: empty_sm_def sm_inv_def)

definition demo_entries :: "(demo_id, string) sm_entry list" where
  "demo_entries = [\<lparr>en_log_id = (1, 1), en_payload = Membership ''m1'', en_responder = False\<rparr>,
     \<lparr>en_log_id = (1, 2), en_payload = Normal (ReqTask (TaskEnqueue ''t1'' ''p'' 5 None 4)), en_responder = True\<rparr>,
     \<lparr>en_log_id = (1, 3), en_payload = Normal (ReqSet ''k'' ''v''), en_responder = True\<rparr>,
     \<lparr>en_log_id = (1, 4), en_payload = Normal (ReqTask (TaskAssign ''t1'' ''n1'' 7 6)), en_responder = False\<rparr>]"

lemma demo_entries_ok [simp]: "list_all entry_ok demo_entries"
  by (simp add: demo_entries_def entry_ok_def plain_request_def cmd_ok_def no_colon_def starts_with_def TASK_SPACE_def)

section \<open>Applying the log\<close>

text \<open>C13: replicas converge. Two replicas in the same state that receive the same entries, cut into
  batches in different ways, end in the same state with the same responses, or fail with the same
  error; and after every run the in-memory map is the content of the database.\<close>

theorem replicas_converge:
  assumes "sm_api_ok a" "sm_inv sm" "concat xss = concat yss"
  shows "sm_apply_chunks c a sm xss = sm_apply_chunks c a sm yss \<and>
    (case sm_apply_chunks c a sm xss of Inl _ \<Rightarrow> True | Inr (sm', _, _) \<Rightarrow> sm_memory sm' = sm_data sm')"
proof -
  have "sm_memory sm' = sm_data sm'" if "sm_apply_chunks c a sm xss = Inr (sm', rs, ev)" for sm' rs ev
    using that sm_apply_inv[OF assms(1,2), of c "concat xss"]
    by (simp add: sm_apply_chunks_concat[OF assms(1,2)] sm_inv_def)
  then show ?thesis
    using assms(3) by (auto simp: sm_apply_chunks_concat[OF assms(1,2)] split: sum.split)
qed

theorem replicas_converge_witness:
  "sm_apply_chunks demo_codec demo_sm_api empty_sm [map Inr demo_entries] =
     sm_apply_chunks demo_codec demo_sm_api empty_sm (map (\<lambda>e. [Inr e]) demo_entries) \<and>
    (case sm_apply_chunks demo_codec demo_sm_api empty_sm [map Inr demo_entries] of
       Inl _ \<Rightarrow> True | Inr (sm', _, _) \<Rightarrow> sm_memory sm' = sm_data sm')"
  by (rule replicas_converge) (simp_all add: demo_entries_def)

text \<open>C14: a stream whose plain writes stay outside the \<open>task:\<close> key space is applied without error,
  however it is cut into batches; afterwards every index agrees with the task records and the queue
  holds what the task commands of the stream, in log order, do to the abstract queue.\<close>

theorem state_machine_runs_queue:
  assumes "sm_api_ok a" "codec_ok c" "sm_inv sm" "queue_inv c (sm_data sm)" "list_all entry_ok (concat ess)"
  shows "\<exists>sm' rs ev. sm_apply_chunks c a sm (map (map Inr) ess) = Inr (sm', rs, ev) \<and>
    queue_inv c (sm_data sm') \<and> sm_inv sm' \<and>
    abs_queue c (sm_data sm') = foldl aq_next (abs_queue c (sm_data sm)) (concat (map entry_cmds (concat ess)))"
proof -
  have eq: "sm_apply_chunks c a sm (map (map Inr) ess) = sm_apply c a sm (map Inr (concat ess))"
    by (simp add: sm_apply_chunks_concat[OF assms(1,3)] map_concat)
  have ready: "queue_ready c (sm_data sm)" using assms(2,4) by (simp add: queue_ready_def)
  obtain sm' rs ev where "sm_apply c a sm (map Inr (concat ess)) = Inr (sm', rs, ev)" "queue_ready c (sm_data sm')"
    "abs_queue c (sm_data sm') = foldl aq_next (abs_queue c (sm_data sm)) (concat (map entry_cmds (concat ess)))"
    using sm_apply_queue[OF assms(1,3) ready assms(5)] by blast
  with eq show ?thesis using sm_apply_inv[OF assms(1,3)] unfolding queue_ready_def by metis
qed

theorem state_machine_runs_queue_witness:
  "\<exists>sm' rs ev. sm_apply_chunks demo_codec demo_sm_api empty_sm (map (map Inr) [take 2 demo_entries, drop 2 demo_entries]) =
      Inr (sm', rs, ev) \<and> queue_inv demo_codec (sm_data sm') \<and> sm_inv sm' \<and>
    abs_queue demo_codec (sm_data sm') = foldl aq_next (abs_queue demo_codec (sm_data empty_sm))
      (concat (map entry_cmds (concat [take 2 demo_entries, drop 2 demo_entries])))"
  by (rule state_machine_runs_queue) (simp_all add: queue_inv_empty)

section \<open>Snapshots\<close>

text \<open>C15: a snapshot built on one node and installed on another, whatever the other held, gives the
  other the data, the last applied log id and the membership of the first, in the database and in
  memory; building leaves the state of the first node as it is.\<close>

theorem snapshot_transfer:
  assumes "sm_api_ok a" "snap_api_ok p" "sm_inv (sn_sm A)" "sm_inv (sn_sm B)"
    and "applied_state a (sn_sm A) = Inr st" "data_utf8 (sm_data (sn_sm A))"
  shows "\<exists>A' meta wire B'. build_snapshot a p pid uuid A = Inr (A', meta, wire) \<and> sn_sm A' = sn_sm A \<and>
    install_snapshot a p pid' uuid' B meta wire = Inr B' \<and> sm_data (sn_sm B') = sm_data (sn_sm A) \<and>
    sm_memory (sn_sm B') = sm_memory (sn_sm A) \<and> applied_state a (sn_sm B') = Inr st"
proof -
  obtain li mem where st: "st = (li, mem)" by fastforce
  from transfer_spec[OF assms(1-4) assms(5)[unfolded st] assms(6), of pid uuid pid' uuid']
  show ?thesis using assms(3,5) by (auto simp: sm_inv_def)
qed

definition demo_node :: snap_node where
  "demo_node = \<lparr>sn_sm = \<lparr>sm_data = [(''k'', ''v'')], sm_meta = cf_put [] LAST_APPLIED_LOG_KEY (demo_enc_id (1, 3)),
     sm_memory = [(''k'', ''v'')]\<rparr>, sn_dir = [], sn_epoch = 1\<rparr>"

definition demo_empty_node :: snap_node where
  "demo_empty_node = \<lparr>sn_sm = empty_sm, sn_dir = [], sn_epoch = 4\<rparr>"

lemma demo_node_facts:
  "sm_inv (sn_sm demo_node)" "sm_inv (sn_sm demo_empty_node)" "data_utf8 (sm_data (sn_sm demo_node))"
  "applied_state demo_sm_api (sn_sm demo_node) = Inr (Some (1, 3), [])"
  by (simp_all add: demo_node_def demo_empty_node_def sm_inv_def cf_ok_put data_utf8_def utf8_ok_def
      applied_state_def cf_get_put cf_get_def meta_keys_neq[symmetric] demo_sm_api_def demo_id_roundtrip)
     (simp_all add: cf_ok_def)

theorem snapshot_transfer_witness:
  "\<exists>A' meta wire B'. build_snapshot demo_sm_api demo_snap_api ''7'' ''u1'' demo_node = Inr (A', meta, wire) \<and>
    sn_sm A' = sn_sm demo_node \<and>
    install_snapshot demo_sm_api demo_snap_api ''8'' ''u2'' demo_empty_node meta wire = Inr B' \<and>
    sm_data (sn_sm B') = sm_data (sn_sm demo_node) \<and> sm_memory (sn_sm B') = sm_memory (sn_sm demo_node) \<and>
    applied_state demo_sm_api (sn_sm B') = Inr (Some (1, 3), [])"
  by (rule snapshot_transfer) (simp_all add: demo_node_facts)

text \<open>C16: opening the store never goes back. It succeeds on decodable contents, restores the newest
  readable snapshot exactly when that is ahead of the database, otherwise leaves the database as it
  is, and ends with the larger of the two applied log ids and the memory map equal to the data.\<close>

theorem recovery_never_goes_back:
  assumes "sm_api_ok a" "cf_ok (sm_data sm)" "cf_ok (sm_meta sm)"
    and "read_last_applied_log a sm = Inr current" "data_utf8 (sm_data sm)"
    and "\<forall>sf \<in> set (readable_snapshots p dir). data_utf8 (sf_data sf)"
  shows "\<exists>node. sm_new a p dir sm = Inr node \<and> sm_inv (sn_sm node) \<and>
    read_last_applied_log a (sn_sm node) = Inr (max current (latest_applied p dir)) \<and>
    (if current < latest_applied p dir
     then (\<exists>sf. read_latest_snapshot_file p dir = Some sf \<and> sm_data (sn_sm node) = load_data (sf_data sf) \<and>
        applied_state a (sn_sm node) = Inr (last_log_id (sf_meta sf), last_membership (sf_meta sf)))
     else sm_data (sn_sm node) = sm_data sm \<and> applied_state a (sn_sm node) = applied_state a sm)"
  using assms(6) read_latest_newest by (intro recover_spec[OF assms(1-5)]) blast

definition demo_dir :: snap_dir where
  "demo_dir = [(''epoch_0000000002-a'', \<lparr>df_is_file = True, df_bytes =
     projr (zstd_encode demo_snap_api (projr (ser_snapshot demo_snap_api \<lparr>sf_meta =
       \<lparr>last_log_id = Some (1, 3), last_membership = ''m''\<rparr>, sf_file_id = ''a'', sf_data = [(''k'', ''v'')]\<rparr>)))\<rparr>),
     (''epoch_0000000003-b.9.tmp'', \<lparr>df_is_file = True, df_bytes = ''x''\<rparr>)]"

lemma demo_dir_readable:
  "readable_snapshots demo_snap_api demo_dir = [\<lparr>sf_meta =
       \<lparr>last_log_id = Some (1, 3), last_membership = ''m''\<rparr>, sf_file_id = ''a'', sf_data = [(''k'', ''v'')]\<rparr>]"
  by (simp add: readable_snapshots_def demo_dir_def map_filter_def is_snapshot_candidate_def ends_with_def
      SNAPSHOT_TMP_SUFFIX_def starts_with_def read_snapshot_file_def demo_snap_api_def ZSTD_FRAME_MAGIC_def
      demo_data_roundtrip demo_id_roundtrip)

theorem recovery_never_goes_back_witness:
  "\<exists>node. sm_new demo_sm_api demo_snap_api demo_dir empty_sm = Inr node \<and> sm_inv (sn_sm node) \<and>
    read_last_applied_log demo_sm_api (sn_sm node) = Inr (max None (latest_applied demo_snap_api demo_dir)) \<and>
    (if None < latest_applied demo_snap_api demo_dir
     then (\<exists>sf. read_latest_snapshot_file demo_snap_api demo_dir = Some sf \<and>
        sm_data (sn_sm node) = load_data (sf_data sf) \<and>
        applied_state demo_sm_api (sn_sm node) = Inr (last_log_id (sf_meta sf), last_membership (sf_meta sf)))
     else sm_data (sn_sm node) = sm_data empty_sm \<and>
       applied_state demo_sm_api (sn_sm node) = applied_state demo_sm_api empty_sm)"
  by (rule recovery_never_goes_back)
     (simp_all add: demo_dir_readable data_utf8_def utf8_ok_def read_last_applied_log_def)

text \<open>The snapshot the store picks does not depend on how the thread pool splits the reduction:
  every split of the candidates gives a candidate whose (last log id, file id) is the maximum.\<close>

theorem snapshot_choice_is_maximum:
  "reduce_tree newer_of t \<in> set (leaves_of t) \<and>
   (last_log_id (sf_meta (reduce_tree newer_of t)), sf_file_id (reduce_tree newer_of t)) =
     Max ((\<lambda>sf. (last_log_id (sf_meta sf), sf_file_id sf)) ` set (leaves_of t))"
  using reduce_tree_newest[of t] by (simp add: snapshot_key_def[abs_def])

text \<open>C18: after a snapshot is written under an epoch above all epochs in the directory and old ones
  are pruned, the new snapshot is there and reads back, at most \<open>keep\<close> snapshots remain, no snapshot
  that was removed is newer by (epoch, name) than one that stays, and no temporary file of another
  process is left.\<close>

theorem prune_keeps_newest:
  assumes "snap_api_ok p" "cf_ok dir" "0 < keep" "sf_file_id sf \<noteq> []"
    and "name = snapshot_file_name e (sf_file_id sf)" "\<not> ends_with name SNAPSHOT_TMP_SUFFIX"
    and "\<forall>(n, f) \<in> set dir. fst (prune_key n) < e"
  shows "\<exists>dir'. write_snapshot_file p pid dir name sf = Inr dir' \<and>
    (\<exists>f. cf_get (prune_old_snapshots pid dir' keep) name = Some f \<and> read_snapshot_file p name f = Inr sf) \<and>
    card (snapshot_names (prune_old_snapshots pid dir' keep)) \<le> keep \<and>
    {(x, y). x \<in> snapshot_names (prune_old_snapshots pid dir' keep) \<and>
       y \<in> snapshot_names dir' - snapshot_names (prune_old_snapshots pid dir' keep) \<and>
       prune_key x \<le> prune_key y} = {} \<and>
    {n. cf_get (prune_old_snapshots pid dir' keep) n \<noteq> None \<and> stale_tmp pid n} = {}"
proof -
  let ?tmp = "name @ ''.'' @ pid @ SNAPSHOT_TMP_SUFFIX"
  obtain packed where w: "write_snapshot_file p pid dir name sf =
      Inr (cf_put (cf_del (cf_put dir ?tmp \<lparr>df_is_file = True, df_bytes = packed\<rparr>) ?tmp) name
             \<lparr>df_is_file = True, df_bytes = packed\<rparr>)"
    and r: "read_snapshot_file p name \<lparr>df_is_file = True, df_bytes = packed\<rparr> = Inr sf"
    using write_snapshot_ok[OF assms(1)] assms(4) by blast
  define dir' where "dir' = cf_put (cf_del (cf_put dir ?tmp \<lparr>df_is_file = True, df_bytes = packed\<rparr>) ?tmp) name
      \<lparr>df_is_file = True, df_bytes = packed\<rparr>"
  have ok: "cf_ok dir'" by (simp add: dir'_def cf_ok_put cf_ok_del assms(2))
  have get: "cf_get dir' name = Some \<lparr>df_is_file = True, df_bytes = packed\<rparr>" by (simp add: dir'_def cf_get_put)
  have old: "n = name \<or> (n, f) \<in> set dir" if "cf_get dir' n = Some f" for n f
    using that cf_entries_iff[OF assms(2)] by (auto simp: dir'_def cf_get_put cf_get_del split: if_splits)
  have name: "prune_key name = (e, name)" by (simp add: prune_key_def assms(5))
  have "prune_key m \<le> prune_key name" if "m \<in> snapshot_names dir'" for m
  proof -
    from that obtain f where "cf_get dir' m = Some f" by (auto simp: snapshot_names_def)
    with old assms(7) have "m = name \<or> fst (prune_key m) < e" by fastforce
    then show ?thesis using name by (cases "prune_key m") auto
  qed
  moreover have "name \<in> snapshot_names dir'"
    using get assms(6) by (simp add: snapshot_names_def is_snapshot_candidate_def)
  ultimately have keep: "cf_get (prune_old_snapshots pid dir' keep) name = cf_get dir' name"
    by (intro prune_keeps_greatest[OF ok _ assms(3)])
  have "card (snapshot_names (prune_old_snapshots pid dir' keep)) \<le> keep"
    by (simp add: prune_names(2)[OF ok])
  moreover have "{(x, y). x \<in> snapshot_names (prune_old_snapshots pid dir' keep) \<and>
       y \<in> snapshot_names dir' - snapshot_names (prune_old_snapshots pid dir' keep) \<and>
       prune_key x \<le> prune_key y} = {}"
    using prune_names(3)[OF ok, of pid keep] by (auto dest!: bspec)
  moreover have "{n. cf_get (prune_old_snapshots pid dir' keep) n \<noteq> None \<and> stale_tmp pid n} = {}"
    by (auto simp: prune_get[OF ok])
  ultimately show ?thesis using w[folded dir'_def] r keep get by auto
qed

theorem prune_keeps_newest_witness:
  "\<exists>dir'. write_snapshot_file demo_snap_api ''7'' demo_dir (snapshot_file_name 5 ''c'')
      \<lparr>sf_meta = \<lparr>last_log_id = Some (2, 9), last_membership = ''m''\<rparr>, sf_file_id = ''c'', sf_data = []\<rparr> = Inr dir' \<and>
    (\<exists>f. cf_get (prune_old_snapshots ''7'' dir' 1) (snapshot_file_name 5 ''c'') = Some f \<and>
      read_snapshot_file demo_snap_api (snapshot_file_name 5 ''c'') f = Inr
        \<lparr>sf_meta = \<lparr>last_log_id = Some (2, 9), last_membership = ''m''\<rparr>, sf_file_id = ''c'', sf_data = []\<rparr>) \<and>
    card (snapshot_names (prune_old_snapshots ''7'' dir' 1)) \<le> 1 \<and>
    {(x, y). x \<in> snapshot_names (prune_old_snapshots ''7'' dir' 1) \<and>
       y \<in> snapshot_names dir' - snapshot_names (prune_old_snapshots ''7'' dir' 1) \<and>
       prune_key x \<le> prune_key y} = {} \<and>
    {n. cf_get (prune_old_snapshots ''7'' dir' 1) n \<noteq> None \<and> stale_tmp ''7'' n} = {}"
  by (rule prune_keeps_newest[where e = 5])
     (simp_all add: demo_dir_def cf_ok_def prune_key_def parse_snapshot_epoch_def SNAPSHOT_EPOCH_PREFIX_def
       parse_u64_def char_digit_def ends_with_def snapshot_file_name_def SNAPSHOT_TMP_SUFFIX_def starts_with_def)

end
