(* ===== verification/TaskIndex.thy ===== *)
theory TaskIndex
  imports TaskProperties
begin

text \<open>
  What the prefix scans of the scheduler and of the RPC readers see. The store holds only
  well-formed keys in the task key space (\<open>keys_ok\<close>, kept by every command), so a scan of an
  index lists exactly the tasks in that state. The locale \<open>key_index\<close> carries all three
  indexes, \<open>time_index\<close> adds that the queued and the terminal index are in time order.
\<close>

section \<open>Only well-formed keys\<close>

definition task_space :: "string set" where
  "task_space = (\<Union>i. task_keys i) \<union> range idem_record_key \<union> range worker_key"

definition keys_ok :: "kv \<Rightarrow> bool" where
  "keys_ok s \<longleftrightarrow> (\<forall>k v. cf_get s k = Some v \<longrightarrow> starts_with k ''task:'' \<longrightarrow> k \<in> task_space)"

definition put_keys :: "kv_mutation list \<Rightarrow> string set" where
  "put_keys ms = {k. \<exists>v. (k, Some v) \<in> set ms}"

lemma put_keys_simps [simp]:
  "put_keys [] = {}" "put_keys (mut_put k v # ms) = insert k (put_keys ms)"
  "put_keys (mut_del k # ms) = put_keys ms" "put_keys (ms @ ns) = put_keys ms \<union> put_keys ns"
  by (auto simp: put_keys_def mut_put_def mut_del_def)

lemma last_write_put: "last_write ms k = Some (Some v) \<Longrightarrow> k \<in> put_keys ms"
  by (induction ms k rule: last_write.induct) (auto simp: put_keys_def split: option.splits if_splits)

lemma keys_ok_batch: "keys_ok s \<Longrightarrow> put_keys ms \<subseteq> task_space \<Longrightarrow> keys_ok (cf_batch s ms)"
  unfolding keys_ok_def by (auto simp: cf_get_batch dest: last_write_put split: option.splits)

lemma mem_task_space [simp]:
  "rec_key i \<in> task_space" "queued_idx_key t i \<in> task_space" "terminal_idx_key t i \<in> task_space"
  "no_colon n \<Longrightarrow> assigned_idx_key n i \<in> task_space" "idem_record_key k \<in> task_space" "worker_key n \<in> task_space"
  by (auto simp: task_space_def intro: mem_task_keys)

lemma vacuum_loop_puts:
  "vacuum_loop c read is muts n = Inr (ms, m) \<Longrightarrow> put_keys ms = put_keys muts"
proof (induction "is" arbitrary: muts n)
  case (Cons i "is")
  then obtain ro where ro: "read_record c read i = Inr ro" by (auto simp: rbind_Inr_iff)
  show ?case
  proof (cases ro)
    case None
    with Cons ro show ?thesis by simp
  next
    case (Some r)
    then show ?thesis
    proof (cases "tr_status r \<in> {Done, Failed}")
      case True
      let ?muts = "muts @ [mut_del (rec_key i), mut_del (terminal_idx_key (tr_completed_at r) i)] @
          (case tr_idem_key r of None \<Rightarrow> [] | Some idem \<Rightarrow> [mut_del (idem_record_key idem)])"
      have "vacuum_loop c read is ?muts (n + 1) = Inr (ms, m)" using Cons.prems ro Some True by auto
      moreover have "put_keys ?muts = put_keys muts" by (simp split: option.split)
      ultimately show ?thesis using Cons.IH by metis
    next
      case False
      then show ?thesis using Cons ro Some by simp
    qed
  qed
qed simp

definition puts_ok :: "applied \<Rightarrow> bool" where
  "puts_ok res = (case res of Inl _ \<Rightarrow> True | Inr (ms, _) \<Rightarrow> put_keys ms \<subseteq> task_space)"

lemma puts_ok_simps [simp]:
  "puts_ok (Inl e)" "puts_ok (Inr (ms, r)) \<longleftrightarrow> put_keys ms \<subseteq> task_space" "puts_ok (rejected c x)"
  by (simp_all add: puts_ok_def rejected_def)

lemma puts_ok_rbind: "(\<And>x. m = Inr x \<Longrightarrow> puts_ok (f x)) \<Longrightarrow> puts_ok (rbind m f)"
  by (cases m) auto

lemma command_puts: "cmd_ok cmd \<Longrightarrow> puts_ok (apply_task_command c read cmd)"
  by (cases cmd)
     (auto simp: apply_enqueue_def apply_assign_def apply_claim_def apply_mark_committed_def apply_done_def
        apply_fail_def apply_requeue_def apply_replay_def apply_vacuum_def apply_worker_lease_def Let_def cmd_ok_def
        intro!: puts_ok_rbind dest: vacuum_loop_puts split: option.splits if_splits)

lemma exec_keys_ok: "keys_ok s \<Longrightarrow> cmd_ok cmd \<Longrightarrow> exec_task c s cmd = Inr (s', r) \<Longrightarrow> keys_ok s'"
  using command_puts[of cmd c "cf_read s"] by (auto simp: exec_task_def rbind_Inr_iff intro: keys_ok_batch)

definition index_ready :: "codec \<Rightarrow> kv \<Rightarrow> bool" where
  "index_ready c s \<longleftrightarrow> queue_ready c s \<and> keys_ok s"

interpretation ix: invariant_machine "task_step c" cmd_ok "index_ready c" for c
proof
  fix s e
  assume ready: "index_ready c s" and cmd: "cmd_ok e"
  then have "queue_ready c (task_step c s e)" by (simp add: index_ready_def tq.step_inv)
  moreover have "keys_ok (task_step c s e)"
    using ready cmd exec_keys_ok ready_stepD unfolding index_ready_def by blast
  ultimately show "index_ready c (task_step c s e)" by (simp add: index_ready_def)
qed

lemma index_ready_empty: "codec_ok c \<Longrightarrow> index_ready c []"
  by (simp add: index_ready_def queue_ready_empty keys_ok_def)

section \<open>Indexes\<close>

definition idx_scan :: "(string \<Rightarrow> 'a option) \<Rightarrow> string \<Rightarrow> kv \<Rightarrow> 'a list" where
  "idx_scan parse pre s = map (\<lambda>(k, _). the (parse k)) (entries_with_prefix s pre)"

locale key_index =
  fixes mk :: "'a \<Rightarrow> string" and parse :: "string \<Rightarrow> 'a option" and pre :: string and dom :: "'a \<Rightarrow> bool"
  assumes parse_mk: "dom x \<Longrightarrow> parse (mk x) = Some x"
    and pre_mk: "starts_with (mk x) pre"
begin

lemma mk_inject: "dom x \<Longrightarrow> dom y \<Longrightarrow> mk x = mk y \<longleftrightarrow> x = y"
  by (metis option.inject parse_mk)

lemma scan_entry:
  assumes "cf_ok s" "\<forall>k v. cf_get s k = Some v \<longrightarrow> starts_with k pre \<longrightarrow> (\<exists>x. dom x \<and> k = mk x)"
    and "kv \<in> set (entries_with_prefix s pre)"
  shows "parse (fst kv) = Some (the (parse (fst kv))) \<and> dom (the (parse (fst kv))) \<and>
    fst kv = mk (the (parse (fst kv)))"
proof -
  have "(fst kv, snd kv) \<in> set (entries_with_prefix s pre)" using assms(3) by simp
  then have "cf_get s (fst kv) = Some (snd kv) \<and> starts_with (fst kv) pre"
    unfolding entries_with_prefix_iff[OF assms(1)] .
  then obtain x where "dom x" "fst kv = mk x" using assms(2) by blast
  then show ?thesis by (simp add: parse_mk)
qed

lemma scan_keys:
  assumes "cf_ok s" "\<forall>k v. cf_get s k = Some v \<longrightarrow> starts_with k pre \<longrightarrow> (\<exists>x. dom x \<and> k = mk x)"
  shows "map fst (entries_with_prefix s pre) = map mk (idx_scan parse pre s)"
  using scan_entry[OF assms] by (simp add: idx_scan_def split_beta)

lemma scan_dom:
  assumes "cf_ok s" "\<forall>k v. cf_get s k = Some v \<longrightarrow> starts_with k pre \<longrightarrow> (\<exists>x. dom x \<and> k = mk x)"
    and "x \<in> set (idx_scan parse pre s)"
  shows "dom x"
  using scan_entry[OF assms(1,2)] assms(3) by (auto simp: idx_scan_def split_beta)

lemma scan_parse:
  assumes "cf_ok s" "\<forall>k v. cf_get s k = Some v \<longrightarrow> starts_with k pre \<longrightarrow> (\<exists>x. dom x \<and> k = mk x)"
  shows "map (\<lambda>kv. parse (fst kv)) (entries_with_prefix s pre) = map Some (idx_scan parse pre s)"
  using scan_entry[OF assms] by (simp add: idx_scan_def split_beta)

lemma scan_mem:
  assumes "cf_ok s" "\<forall>k v. cf_get s k = Some v \<longrightarrow> starts_with k pre \<longrightarrow> (\<exists>x. dom x \<and> k = mk x)"
  shows "x \<in> set (idx_scan parse pre s) \<longleftrightarrow> dom x \<and> cf_get s (mk x) \<noteq> None"
proof -
  have "dom x \<Longrightarrow> x \<in> set (idx_scan parse pre s) \<longleftrightarrow> mk x \<in> set (map mk (idx_scan parse pre s))"
    using scan_dom[OF assms] mk_inject by auto
  moreover have "mk x \<in> set (map mk (idx_scan parse pre s)) \<longleftrightarrow> mk x \<in> set (map fst (entries_with_prefix s pre))"
    by (simp only: scan_keys[OF assms])
  moreover have "mk x \<in> set (map fst (entries_with_prefix s pre)) \<longleftrightarrow> (\<exists>v. (mk x, v) \<in> set (entries_with_prefix s pre))"
    by force
  moreover have "(\<exists>v. (mk x, v) \<in> set (entries_with_prefix s pre)) \<longleftrightarrow> cf_get s (mk x) \<noteq> None"
    by (simp add: entries_with_prefix_iff[OF assms(1)] pre_mk)
  ultimately show ?thesis using scan_dom[OF assms] by blast
qed

lemma scan_key_order:
  assumes "cf_ok s" "\<forall>k v. cf_get s k = Some v \<longrightarrow> starts_with k pre \<longrightarrow> (\<exists>x. dom x \<and> k = mk x)"
  shows "sorted_wrt (<) (map mk (idx_scan parse pre s))"
  using entries_with_prefix_sorted[OF assms(1), of pre] unfolding scan_keys[OF assms] .

lemma scan_distinct:
  assumes "cf_ok s" "\<forall>k v. cf_get s k = Some v \<longrightarrow> starts_with k pre \<longrightarrow> (\<exists>x. dom x \<and> k = mk x)"
  shows "distinct (idx_scan parse pre s)"
  using scan_key_order[OF assms] by (metis distinct_map strict_sorted_iff)

end

locale time_index = key_index mk parse pre "\<lambda>_. True"
  for mk :: "u64 \<times> string \<Rightarrow> string" and parse and pre +
  assumes mono: "t < u \<Longrightarrow> mk (t, i) < mk (u, j)"
begin

lemma scan_sorted:
  assumes "cf_ok s" "\<forall>k v. cf_get s k = Some v \<longrightarrow> starts_with k pre \<longrightarrow> (\<exists>x. True \<and> k = mk x)"
  shows "sorted (map fst (idx_scan parse pre s))"
proof -
  have "sorted_wrt (\<lambda>x y. mk x < mk y) (idx_scan parse pre s)"
    using scan_key_order[OF assms] by (simp add: sorted_wrt_map)
  then have "sorted_wrt (\<lambda>x y. fst x \<le> fst y) (idx_scan parse pre s)"
    by (rule sorted_wrt_mono_rel[rotated]) (metis leI less_asym mono prod.collapse)
  then show ?thesis by (simp add: sorted_map)
qed

end

interpretation qi: time_index "\<lambda>(t, i). queued_idx_key t i" parse_queued_idx_key TASK_QUEUED_IDX_PREFIX
  by unfold_locales (auto simp: queued_idx_key_mono, simp add: queued_idx_key_def)

interpretation ti: time_index "\<lambda>(t, i). terminal_idx_key t i" parse_terminal_idx_key TASK_TERMINAL_IDX_PREFIX
  by unfold_locales (auto simp: terminal_idx_key_mono, simp add: terminal_idx_key_def)

interpretation ai: key_index "\<lambda>(n, i). assigned_idx_key n i" parse_assigned_idx_key TASK_ASSIGNED_IDX_PREFIX
  "\<lambda>(n, i). no_colon i"
  by unfold_locales (auto simp: parse_assigned_idx_key_build, simp add: assigned_idx_key_def)

section \<open>Scans of a consistent store\<close>

lemma prefix_task_space:
  "starts_with k TASK_QUEUED_IDX_PREFIX \<Longrightarrow> starts_with k ''task:''"
  "starts_with k TASK_TERMINAL_IDX_PREFIX \<Longrightarrow> starts_with k ''task:''"
  "starts_with k TASK_ASSIGNED_IDX_PREFIX \<Longrightarrow> starts_with k ''task:''"
  "starts_with k TASK_REC_PREFIX \<Longrightarrow> starts_with k ''task:''"
  "starts_with k TASK_WORKER_PREFIX \<Longrightarrow> starts_with k ''task:''"
  by (auto simp: starts_with_iff task_prefix_defs)

lemma space_prefix:
  assumes "k \<in> task_space"
  shows "starts_with k TASK_QUEUED_IDX_PREFIX \<Longrightarrow> \<exists>t i. k = queued_idx_key t i"
    "starts_with k TASK_TERMINAL_IDX_PREFIX \<Longrightarrow> \<exists>t i. k = terminal_idx_key t i"
    "starts_with k TASK_ASSIGNED_IDX_PREFIX \<Longrightarrow> \<exists>n i. no_colon n \<and> k = assigned_idx_key n i"
    "starts_with k TASK_REC_PREFIX \<Longrightarrow> \<exists>i. k = rec_key i"
    "starts_with k TASK_WORKER_PREFIX \<Longrightarrow> \<exists>n. k = worker_key n"
  using assms
  by (auto simp: task_space_def task_keys_def)
     (auto simp: starts_with_def task_key_defs task_prefix_defs)

lemma keys_okD:
  assumes "keys_ok s" "cf_get s k = Some v"
  shows "starts_with k TASK_QUEUED_IDX_PREFIX \<Longrightarrow> \<exists>t i. k = queued_idx_key t i"
    "starts_with k TASK_TERMINAL_IDX_PREFIX \<Longrightarrow> \<exists>t i. k = terminal_idx_key t i"
    "starts_with k TASK_ASSIGNED_IDX_PREFIX \<Longrightarrow> \<exists>n i. no_colon n \<and> k = assigned_idx_key n i"
    "starts_with k TASK_REC_PREFIX \<Longrightarrow> \<exists>i. k = rec_key i"
    "starts_with k TASK_WORKER_PREFIX \<Longrightarrow> \<exists>n. k = worker_key n"
  using assms space_prefix prefix_task_space unfolding keys_ok_def by blast+

lemma scan_shape:
  assumes "keys_ok s"
  shows "\<forall>k v. cf_get s k = Some v \<longrightarrow> starts_with k TASK_QUEUED_IDX_PREFIX \<longrightarrow>
      (\<exists>x. True \<and> k = (case x of (t, i) \<Rightarrow> queued_idx_key t i))"
    "\<forall>k v. cf_get s k = Some v \<longrightarrow> starts_with k TASK_TERMINAL_IDX_PREFIX \<longrightarrow>
      (\<exists>x. True \<and> k = (case x of (t, i) \<Rightarrow> terminal_idx_key t i))"
  using keys_okD[OF assms] by fastforce+

lemma index_readyD:
  assumes "index_ready c s"
  shows "queue_ready c s" "queue_inv c s" "codec_ok c" "keys_ok s" "cf_ok s"
  using assms by (auto simp: index_ready_def queue_ready_def queue_inv_def)

abbreviation queued_scan :: "kv \<Rightarrow> (u64 \<times> string) list" where
  "queued_scan s \<equiv> idx_scan parse_queued_idx_key TASK_QUEUED_IDX_PREFIX s"

abbreviation terminal_scan :: "kv \<Rightarrow> (u64 \<times> string) list" where
  "terminal_scan s \<equiv> idx_scan parse_terminal_idx_key TASK_TERMINAL_IDX_PREFIX s"

lemma queued_scan_mem:
  assumes "index_ready c s"
  shows "(t, i) \<in> set (queued_scan s) \<longleftrightarrow> (\<exists>r. recs c s i = Some r \<and> tr_status r = Queued \<and> tr_run_at r = t)"
  using qi.scan_mem[OF index_readyD(5)[OF assms] scan_shape(1)[OF index_readyD(4)[OF assms]], of "(t, i)"]
    queue_inv_index(1)[OF index_readyD(2)[OF assms], of t i]
  by (auto simp: expect_queued_def split: option.splits)

lemma terminal_scan_mem:
  assumes "index_ready c s"
  shows "(t, i) \<in> set (terminal_scan s) \<longleftrightarrow> (\<exists>r. recs c s i = Some r \<and> is_terminal r \<and> tr_completed_at r = t)"
  using ti.scan_mem[OF index_readyD(5)[OF assms] scan_shape(2)[OF index_readyD(4)[OF assms]], of "(t, i)"]
    queue_inv_index(3)[OF index_readyD(2)[OF assms], of t i]
  by (auto simp: expect_terminal_def is_terminal_def split: option.splits)

lemmas queued_scan_parse = qi.scan_parse[OF index_readyD(5) scan_shape(1)[OF index_readyD(4)]]
lemmas queued_scan_sorted = qi.scan_sorted[OF index_readyD(5) scan_shape(1)[OF index_readyD(4)]]
lemmas queued_scan_distinct = qi.scan_distinct[OF index_readyD(5) scan_shape(1)[OF index_readyD(4)]]
lemmas terminal_scan_parse = ti.scan_parse[OF index_readyD(5) scan_shape(2)[OF index_readyD(4)]]
lemmas terminal_scan_sorted = ti.scan_sorted[OF index_readyD(5) scan_shape(2)[OF index_readyD(4)]]
lemmas terminal_scan_distinct = ti.scan_distinct[OF index_readyD(5) scan_shape(2)[OF index_readyD(4)]]

lemma queued_scan_ids:
  assumes "index_ready c s"
  shows "distinct (map snd (queued_scan s))"
proof -
  have "inj_on snd (set (queued_scan s))"
    by (rule inj_onI) (use queued_scan_mem[OF assms] in \<open>auto simp: prod_eq_iff\<close>)
  then show ?thesis using queued_scan_distinct[OF assms assms] by (simp add: distinct_map)
qed

lemma terminal_scan_ids:
  assumes "index_ready c s"
  shows "distinct (map snd (terminal_scan s))"
proof -
  have "inj_on snd (set (terminal_scan s))"
    by (rule inj_onI) (use terminal_scan_mem[OF assms] in \<open>auto simp: prod_eq_iff\<close>)
  then show ?thesis using terminal_scan_distinct[OF assms assms] by (simp add: distinct_map)
qed

text \<open>Task ids are UUIDs: no colon, which is what reading back an assigned key relies on.\<close>

definition ids_ok :: "codec \<Rightarrow> kv \<Rightarrow> bool" where
  "ids_ok c s \<longleftrightarrow> (\<forall>i r. recs c s i = Some r \<longrightarrow> no_colon i)"

abbreviation assigned_scan :: "kv \<Rightarrow> (string \<times> string) list" where
  "assigned_scan s \<equiv> idx_scan parse_assigned_idx_key TASK_ASSIGNED_IDX_PREFIX s"

definition in_flight_on :: "task_record \<Rightarrow> string \<Rightarrow> bool" where
  "in_flight_on r n \<longleftrightarrow> tr_status r \<in> {Assigned, Running} \<and> tr_assigned_node_id r = Some n"

lemma assigned_get:
  assumes "queue_inv c s" "no_colon n"
  shows "cf_get s (assigned_idx_key n i) \<noteq> None \<longleftrightarrow> (\<exists>r. recs c s i = Some r \<and> in_flight_on r n)"
proof -
  have "recs c s i = Some r \<Longrightarrow> in_flight_on r n \<Longrightarrow> tr_lease_epoch r \<noteq> None" for r
    using queue_inv_wf[OF assms(1), of i r] by (auto simp: wf_record_def in_flight_on_def)
  then show ?thesis
    using queue_inv_index(2)[OF assms, of i] by (auto simp: expect_assigned_def in_flight_on_def split: option.splits)
qed

lemma assigned_shape:
  assumes "index_ready c s" "ids_ok c s"
  shows "\<forall>k v. cf_get s k = Some v \<longrightarrow> starts_with k TASK_ASSIGNED_IDX_PREFIX \<longrightarrow>
    (\<exists>x. (case x of (n, i) \<Rightarrow> no_colon i) \<and> k = (case x of (n, i) \<Rightarrow> assigned_idx_key n i))"
proof (intro allI impI)
  fix k v assume get: "cf_get s k = Some v" and pre: "starts_with k TASK_ASSIGNED_IDX_PREFIX"
  then obtain n i where k: "no_colon n" "k = assigned_idx_key n i"
    using keys_okD(3)[OF index_readyD(4)[OF assms(1)]] by blast
  then obtain r where "recs c s i = Some r"
    using assigned_get[OF index_readyD(2)[OF assms(1)] k(1), of i] get by auto
  then show "\<exists>x. (case x of (n, i) \<Rightarrow> no_colon i) \<and> k = (case x of (n, i) \<Rightarrow> assigned_idx_key n i)"
    using assms(2) k unfolding ids_ok_def by (intro exI[of _ "(n, i)"]) auto
qed

lemmas assigned_scan_parse = ai.scan_parse[OF index_readyD(5) assigned_shape]
lemmas assigned_scan_distinct = ai.scan_distinct[OF index_readyD(5) assigned_shape]

lemma assigned_scan_mem:
  assumes "index_ready c s" "ids_ok c s"
  shows "(n, i) \<in> set (assigned_scan s) \<longleftrightarrow> (\<exists>r. recs c s i = Some r \<and> in_flight_on r n)"
proof -
  have mem: "(n, i) \<in> set (assigned_scan s) \<longleftrightarrow> no_colon i \<and> cf_get s (assigned_idx_key n i) \<noteq> None"
    using ai.scan_mem[OF index_readyD(5)[OF assms(1)] assigned_shape[OF assms], of "(n, i)"] by simp
  show ?thesis
  proof (cases "no_colon n")
    case True
    then show ?thesis using mem assigned_get[OF index_readyD(2)[OF assms(1)] True] assms(2)
      by (auto simp: ids_ok_def)
  next
    case False
    have "\<not> in_flight_on r n" if "recs c s i = Some r" for r
      using queue_inv_wf[OF index_readyD(2)[OF assms(1)] that] False by (auto simp: wf_record_def in_flight_on_def)
    moreover have "\<not> (no_colon i \<and> cf_get s (assigned_idx_key n i) \<noteq> None)"
    proof
      assume i: "no_colon i \<and> cf_get s (assigned_idx_key n i) \<noteq> None"
      then obtain v where "cf_get s (assigned_idx_key n i) = Some v" by auto
      then obtain m j where m: "no_colon m" "assigned_idx_key n i = assigned_idx_key m j"
        using keys_okD(3)[OF index_readyD(4)[OF assms(1)]] ai.pre_mk[of "(n, i)"] by fastforce
      have "cf_get s (assigned_idx_key m j) \<noteq> None" using i m(2) by simp
      then have "no_colon j"
        using assigned_get[OF index_readyD(2)[OF assms(1)] m(1), of j] assms(2) by (auto simp: ids_ok_def)
      then have "n = m" using m(2) i ai.mk_inject[of "(n, i)" "(m, j)"] by simp
      with m(1) False show False by simp
    qed
    ultimately show ?thesis using mem by blast
  qed
qed

lemma assigned_scan_ids:
  assumes "index_ready c s" "ids_ok c s"
  shows "distinct (map snd (assigned_scan s))"
proof -
  have "inj_on snd (set (assigned_scan s))"
    by (rule inj_onI) (use assigned_scan_mem[OF assms] in \<open>auto simp: prod_eq_iff in_flight_on_def\<close>)
  then show ?thesis using assigned_scan_distinct[OF assms(1) assms] by (simp add: distinct_map)
qed

end
