(* ===== verification/Scheduler.thy ===== *)
theory Scheduler
  imports TaskIndex
begin

text \<open>
  \<open>src/tasks/scheduler.rs\<close>: the leader's scheduling pass. The network (which peers are alive),
  the clocks, the hash \<open>xxh3\<close> and the raft proposal \<open>client_write\<close> are arguments. A proposal
  takes the replicated state and a command and gives the state after the command with the
  response, or an error; with \<open>exec_task\<close> it is the state machine itself, and a proposal that
  first lets other commands in is one too. Reads see the state after the last proposal.
  Instants are nanoseconds.
\<close>

section \<open>Constants and workers\<close>

definition SCHEDULER_FALLBACK_SECS :: u64 where "SCHEDULER_FALLBACK_SECS = 5"
definition WORKER_DISCONNECT_GRACE_SECS :: nat where "WORKER_DISCONNECT_GRACE_SECS = 15"
definition VACUUM_INTERVAL_SECS :: u64 where "VACUUM_INTERVAL_SECS = 60"
definition DEFAULT_TASK_RETENTION_SECS :: u64 where "DEFAULT_TASK_RETENTION_SECS = 3600"
definition VACUUM_BATCH_LIMIT :: nat where "VACUUM_BATCH_LIMIT = 256"

text \<open>\<open>TASK_RETENTION_SECS\<close> from the environment, or the default.\<close>

definition task_retention_secs :: "string option \<Rightarrow> u64" where
  "task_retention_secs env = (case env of None \<Rightarrow> DEFAULT_TASK_RETENTION_SECS
     | Some raw \<Rightarrow> (case parse_u64 raw of None \<Rightarrow> DEFAULT_TASK_RETENTION_SECS | Some n \<Rightarrow> n))"

definition select_worker :: "(string \<Rightarrow> u64) \<Rightarrow> worker_lease_record list \<Rightarrow> string \<Rightarrow> worker_lease_record option" where
  "select_worker xxh3 workers task_id =
     (if workers = [] then None else Some (workers ! (unat (xxh3 task_id) mod length workers)))"

record worker_view =
  wv_assignable :: "worker_lease_record list"
  wv_retained :: "string set"

record view_acc =
  va_assignable :: "worker_lease_record list"
  va_retained :: "string set"
  va_leased :: "string set"
  va_down :: "string \<Rightarrow> nat option"

definition view_step ::
  "codec \<Rightarrow> (string \<Rightarrow> bool) \<Rightarrow> u64 \<Rightarrow> nat \<Rightarrow> view_acc \<Rightarrow> string \<times> string \<Rightarrow> view_acc" where
  "view_step c alive now tick_now acc kv = (case dec_lease c (snd kv) of
      Inl _ \<Rightarrow> acc
    | Inr lease \<Rightarrow>
        (let n = wl_node_id lease; acc = acc\<lparr>va_leased := insert n (va_leased acc)\<rparr> in
         if wl_expires_at lease < now then acc\<lparr>va_down := (va_down acc)(n := None)\<rparr>
         else if alive n
         then acc\<lparr>va_down := (va_down acc)(n := None), va_retained := insert n (va_retained acc),
                  va_assignable := va_assignable acc @ [lease]\<rparr>
         else
           (let since = (case va_down acc n of None \<Rightarrow> tick_now | Some t \<Rightarrow> t);
                acc = acc\<lparr>va_down := (va_down acc)(n \<mapsto> since)\<rparr>
            in if tick_now - since < WORKER_DISCONNECT_GRACE_SECS * 10 ^ 9
               then acc\<lparr>va_retained := insert n (va_retained acc)\<rparr> else acc)))"

definition worker_view_of ::
  "codec \<Rightarrow> (string \<Rightarrow> bool) \<Rightarrow> u64 \<Rightarrow> nat \<Rightarrow> kv \<Rightarrow> (string \<Rightarrow> nat option) \<Rightarrow>
   worker_view \<times> (string \<Rightarrow> nat option)" where
  "worker_view_of c alive now tick_now s down =
     (let acc = foldl (view_step c alive now tick_now)
            \<lparr>va_assignable = [], va_retained = {}, va_leased = {}, va_down = down\<rparr>
            (entries_with_prefix s TASK_WORKER_PREFIX)
      in (\<lparr>wv_assignable = sort_key wl_node_id (va_assignable acc), wv_retained = va_retained acc\<rparr>,
          (\<lambda>n. if n \<in> va_leased acc then va_down acc n else None)))"

section \<open>The pass\<close>

type_synonym propose = "kv \<Rightarrow> task_request \<Rightarrow> (kv \<times> response) result"

definition stuck :: "u64 \<Rightarrow> u64 \<Rightarrow> task_record \<Rightarrow> bool" where
  "stuck now stuck_secs r \<longleftrightarrow> tr_status r \<in> {Assigned, Running} \<and> stuck_secs < sat_sub now (tr_updated_at r)"

definition requeue_reason ::
  "codec \<Rightarrow> u64 \<Rightarrow> u64 \<Rightarrow> string set \<Rightarrow> kv \<Rightarrow> string \<Rightarrow> string \<Rightarrow> string option" where
  "requeue_reason c now stuck_secs retained s node_id task_id =
     (if node_id \<notin> retained then Some ''inactive worker''
      else case cf_get s (rec_key task_id) of None \<Rightarrow> None
        | Some raw \<Rightarrow> (case dec_record c raw of Inl _ \<Rightarrow> None
            | Inr r \<Rightarrow> if stuck now stuck_secs r then Some ''stuck past timeout on live worker'' else None))"

fun requeue_loop ::
  "codec \<Rightarrow> propose \<Rightarrow> u64 \<Rightarrow> u64 \<Rightarrow> string set \<Rightarrow> kv \<Rightarrow> (string \<times> string) list \<Rightarrow> kv result" where
  "requeue_loop c prop now stuck_secs retained s [] = Inr s"
| "requeue_loop c prop now stuck_secs retained s ((key, _) # es) =
     (case parse_assigned_idx_key key of
        None \<Rightarrow> requeue_loop c prop now stuck_secs retained s es
      | Some (node_id, task_id) \<Rightarrow>
          (case requeue_reason c now stuck_secs retained s node_id task_id of
             None \<Rightarrow> requeue_loop c prop now stuck_secs retained s es
           | Some _ \<Rightarrow> (case prop s (TaskRequeue task_id) of
               Inl err \<Rightarrow> Inl (''requeue '' @ task_id @ '' failed: '' @ err)
             | Inr (s', _) \<Rightarrow> requeue_loop c prop now stuck_secs retained s' es)))"

text \<open>A task handed to a worker, as \<open>notify_worker\<close> is told.\<close>

type_synonym wake = "string \<times> string \<times> u64"

definition response_accepted :: "codec \<Rightarrow> response \<Rightarrow> bool" where
  "response_accepted c r = (case from_response c r of None \<Rightarrow> False | Some x \<Rightarrow> op_ok x)"

fun assign_loop ::
  "codec \<Rightarrow> propose \<Rightarrow> (string \<Rightarrow> u64) \<Rightarrow> u64 \<Rightarrow> worker_lease_record list \<Rightarrow> kv \<Rightarrow> (string \<times> string) list \<Rightarrow>
   (kv \<times> u64 option \<times> wake list) result" where
  "assign_loop c prop xxh3 now workers s [] = Inr (s, None, [])"
| "assign_loop c prop xxh3 now workers s ((key, _) # es) =
     (case parse_queued_idx_key key of
        None \<Rightarrow> assign_loop c prop xxh3 now workers s es
      | Some (run_at, task_id) \<Rightarrow>
          if now < run_at then Inr (s, Some run_at, [])
          else (case select_worker xxh3 workers task_id of
             None \<Rightarrow> Inr (s, None, [])
           | Some w \<Rightarrow>
               (case prop s (TaskAssign task_id (wl_node_id w) (wl_lease_epoch w) now) of
                  Inl err \<Rightarrow> Inl (''assign '' @ task_id @ '' failed: '' @ err)
                | Inr (s', resp) \<Rightarrow>
                    if response_accepted c resp
                    then rbind (assign_loop c prop xxh3 now workers s' es)
                      (\<lambda>(s'', due, ws). Inr (s'', due, (task_id, wl_node_id w, wl_lease_epoch w) # ws))
                    else assign_loop c prop xxh3 now workers s' es)))"

definition scheduler_tick ::
  "codec \<Rightarrow> propose \<Rightarrow> (string \<Rightarrow> u64) \<Rightarrow> (string \<Rightarrow> bool) \<Rightarrow> u64 \<Rightarrow> nat \<Rightarrow> u64 \<Rightarrow> kv \<Rightarrow> (string \<Rightarrow> nat option) \<Rightarrow>
   (kv \<times> u64 option \<times> wake list) result \<times> (string \<Rightarrow> nat option)" where
  "scheduler_tick c prop xxh3 alive now tick_now stuck_secs s down =
     (let (view, down') = worker_view_of c alive now tick_now s down;
          workers = wv_assignable view
      in (rbind (requeue_loop c prop now stuck_secs (wv_retained view) s
                   (entries_with_prefix s TASK_ASSIGNED_IDX_PREFIX)) (\<lambda>s1.
            if workers = [] then Inr (s1, None, [])
            else assign_loop c prop xxh3 now workers s1 (entries_with_prefix s1 TASK_QUEUED_IDX_PREFIX)),
          down'))"

section \<open>Retention\<close>

fun vacuum_scan :: "u64 \<Rightarrow> (string \<times> string) list \<Rightarrow> string list \<Rightarrow> string list" where
  "vacuum_scan cutoff [] ids = ids"
| "vacuum_scan cutoff ((key, _) # es) ids =
     (case parse_terminal_idx_key key of
        None \<Rightarrow> vacuum_scan cutoff es ids
      | Some (completed_at, task_id) \<Rightarrow>
          if cutoff < completed_at then ids
          else (let ids' = ids @ [task_id] in
                if VACUUM_BATCH_LIMIT \<le> length ids' then ids' else vacuum_scan cutoff es ids'))"

definition vacuum_expired_tasks :: "propose \<Rightarrow> u64 \<Rightarrow> u64 \<Rightarrow> kv \<Rightarrow> kv result" where
  "vacuum_expired_tasks prop retention now s =
     (let cutoff = sat_sub now retention;
          ids = vacuum_scan cutoff (entries_with_prefix s TASK_TERMINAL_IDX_PREFIX) []
      in if ids = [] then Inr s
         else (case prop s (TaskVacuum ids) of
             Inl err \<Rightarrow> Inl (''vacuum failed: '' @ err) | Inr (s', _) \<Rightarrow> Inr s'))"

text \<open>How long the loop of \<open>run_task_scheduler\<close> sleeps, in seconds, and when it vacuums.\<close>

definition sleep_for :: "u64 \<Rightarrow> u64 option \<Rightarrow> u64 \<Rightarrow> u64" where
  "sleep_for tick_interval next_due now =
     (let fallback = max tick_interval SCHEDULER_FALLBACK_SECS in
      case next_due of None \<Rightarrow> fallback | Some due \<Rightarrow> min (sat_sub due now) fallback)"

definition vacuum_due :: "u64 \<Rightarrow> u64 \<Rightarrow> bool \<times> u64" where
  "vacuum_due next_vacuum_at now =
     (if next_vacuum_at \<le> now then (True, now + VACUUM_INTERVAL_SECS) else (False, next_vacuum_at))"

section \<open>One proposal\<close>

lemma aq_leases_abs: "aq_leases (abs_queue c s) = leases c s"
  by (simp add: abs_queue_def)

lemma exec_record:
  assumes "index_ready c s" "cmd_ok cmd" "cmd_id cmd = Some i" "recs c s i = Some r"
  shows "\<exists>s'. exec_task c s cmd = Inr (s', into_response c (snd (rec_step cmd r))) \<and> index_ready c s' \<and>
    recs c s' = (recs c s)(i \<mapsto> next_record cmd r) \<and> leases c s' = leases c s"
proof -
  obtain s' where s': "exec_task c s cmd = Inr (s', into_response c (snd (aq_step (abs_queue c s) cmd)))"
    "queue_inv c s'" "abs_queue c s' = aq_next (abs_queue c s) cmd"
    using exec_task_ready[OF index_readyD(1)[OF assms(1)] assms(2)] by metis
  have step: "aq_step (abs_queue c s) cmd =
      (abs_queue c s\<lparr>aq_recs := (recs c s)(i \<mapsto> fst (rec_step cmd r))\<rparr>, snd (rec_step cmd r))"
    using assms(3,4) by (cases cmd) (auto simp: split_beta)
  have "recs c s' = (recs c s)(i \<mapsto> next_record cmd r)"
    using arg_cong[OF s'(3), of aq_recs] by (simp add: aq_next_def step next_record_def)
  moreover have "leases c s' = leases c s"
    using arg_cong[OF s'(3), of aq_leases] by (simp add: aq_next_def step aq_leases_abs)
  moreover have "index_ready c s'"
    using s'(1,2) exec_keys_ok[OF index_readyD(4)[OF assms(1)] assms(2)] index_readyD(3)[OF assms(1)]
    by (simp add: index_ready_def queue_ready_def)
  ultimately show ?thesis using s'(1) step by simp
qed

section \<open>The assignment loop\<close>

definition assigned_record :: "u64 \<Rightarrow> worker_lease_record \<Rightarrow> task_record \<Rightarrow> task_record" where
  "assigned_record now w r = r\<lparr>tr_status := Assigned, tr_assigned_node_id := Some (wl_node_id w),
     tr_lease_epoch := Some (wl_lease_epoch w), tr_updated_at := now\<rparr>"

definition chosen :: "(string \<Rightarrow> u64) \<Rightarrow> worker_lease_record list \<Rightarrow> string \<Rightarrow> worker_lease_record" where
  "chosen xxh3 workers i = workers ! (unat (xxh3 i) mod length workers)"

definition sched_assign ::
  "(string \<Rightarrow> u64) \<Rightarrow> u64 \<Rightarrow> worker_lease_record list \<Rightarrow> (string \<Rightarrow> task_record option) \<Rightarrow> string \<Rightarrow> task_record option" where
  "sched_assign xxh3 now workers R i = (case R i of None \<Rightarrow> None
     | Some r \<Rightarrow> Some (if tr_status r = Queued \<and> tr_run_at r \<le> now
                      then assigned_record now (chosen xxh3 workers i) r else r))"

lemma chosen_mem: "workers \<noteq> [] \<Longrightarrow> chosen xxh3 workers i \<in> set workers"
  by (simp add: chosen_def)

lemma assign_one:
  assumes "index_ready c s" "no_colon (wl_node_id w)" "recs c s i = Some r" "tr_status r = Queued"
  shows "\<exists>s' resp. exec_task c s (TaskAssign i (wl_node_id w) (wl_lease_epoch w) now) = Inr (s', resp) \<and>
    response_accepted c resp \<and> index_ready c s' \<and> recs c s' = (recs c s)(i \<mapsto> assigned_record now w r) \<and>
    leases c s' = leases c s"
  using exec_record[OF assms(1) _ _ assms(3), of "TaskAssign i (wl_node_id w) (wl_lease_epoch w) now"] assms(2,4)
    from_into_response[OF index_readyD(3)[OF assms(1)]]
  by (auto simp: cmd_ok_def next_record_def assigned_record_def response_accepted_def op_result_ok_def)

lemma assign_loop_spec:
  assumes "workers \<noteq> []" "\<forall>w \<in> set workers. no_colon (wl_node_id w)"
    and "index_ready c s" "map (\<lambda>kv. parse_queued_idx_key (fst kv)) es = map Some L"
    and "sorted (map fst L)" "distinct (map snd L)"
    and "\<forall>(t, i) \<in> set L. \<exists>r. recs c s i = Some r \<and> tr_status r = Queued \<and> tr_run_at r = t"
  shows "\<exists>s' ws. assign_loop c (exec_task c) xxh3 now workers s es =
      Inr (s', map_option fst (List.find (\<lambda>(t, _). now < t) L), ws) \<and>
    index_ready c s' \<and> leases c s' = leases c s \<and>
    recs c s' = (\<lambda>i. if \<exists>t \<le> now. (t, i) \<in> set L
      then map_option (assigned_record now (chosen xxh3 workers i)) (recs c s i) else recs c s i) \<and>
    map fst ws = map snd (filter (\<lambda>(t, _). t \<le> now) L)"
  using assms(3-)
proof (induction es arbitrary: s L)
  case Nil
  then show ?case by simp
next
  case (Cons kv es)
  obtain k v where kv: "kv = (k, v)" by fastforce
  from Cons.prems(2) obtain t i L' where L: "L = (t, i) # L'"
    and k: "parse_queued_idx_key k = Some (t, i)" and es: "map (\<lambda>kv. parse_queued_idx_key (fst kv)) es = map Some L'"
    by (cases L) (auto simp: kv)
  show ?case
  proof (cases "now < t")
    case True
    then have "\<And>u j. (u, j) \<in> set L \<Longrightarrow> \<not> u \<le> now"
      using Cons.prems(3) by (fastforce simp: L)
    then have same: "(\<lambda>i. if \<exists>t \<le> now. (t, i) \<in> set L
        then map_option (assigned_record now (chosen xxh3 workers i)) (recs c s i) else recs c s i) = recs c s"
      and none: "filter (\<lambda>(t, _). t \<le> now) L = []"
      by (auto simp: filter_empty_conv fun_eq_iff)
    show ?thesis unfolding same none using True Cons.prems(1) by (simp add: kv k L)
  next
    case False
    obtain r where r: "recs c s i = Some r" "tr_status r = Queued" "tr_run_at r = t"
      using Cons.prems(5) by (auto simp: L)
    let ?w = "chosen xxh3 workers i"
    have w: "select_worker xxh3 workers i = Some ?w" "no_colon (wl_node_id ?w)"
      using assms(1,2) chosen_mem by (auto simp: select_worker_def chosen_def)
    obtain s1 resp where s1: "exec_task c s (TaskAssign i (wl_node_id ?w) (wl_lease_epoch ?w) now) = Inr (s1, resp)"
      "response_accepted c resp" "index_ready c s1" "recs c s1 = (recs c s)(i \<mapsto> assigned_record now ?w r)"
      "leases c s1 = leases c s"
      using assign_one[OF Cons.prems(1) w(2) r(1,2), of now] by blast
    have notin: "\<And>u. (u, i) \<notin> set L'" using Cons.prems(4) by (force simp: L)
    have "\<forall>(u, j) \<in> set L'. \<exists>r. recs c s1 j = Some r \<and> tr_status r = Queued \<and> tr_run_at r = u"
      using Cons.prems(5) notin by (auto simp: L s1(4))
    from Cons.IH[OF s1(3) es _ _ this] Cons.prems(3,4) obtain s' ws where
      IH: "assign_loop c (exec_task c) xxh3 now workers s1 es =
          Inr (s', map_option fst (List.find (\<lambda>(t, _). now < t) L'), ws)"
        "index_ready c s'" "leases c s' = leases c s1"
        "recs c s' = (\<lambda>i. if \<exists>t \<le> now. (t, i) \<in> set L'
          then map_option (assigned_record now (chosen xxh3 workers i)) (recs c s1 i) else recs c s1 i)"
        "map fst ws = map snd (filter (\<lambda>(t, _). t \<le> now) L')"
      by (auto simp: L)
    have "recs c s' = (\<lambda>i. if \<exists>t \<le> now. (t, i) \<in> set L
        then map_option (assigned_record now (chosen xxh3 workers i)) (recs c s i) else recs c s i)"
      using IH(4) notin False r by (auto simp: L s1(4) fun_eq_iff)
    then show ?thesis using IH s1 w False by (auto simp: kv k L)
  qed
qed

lemma assign_pass:
  assumes "workers \<noteq> []" "\<forall>w \<in> set workers. no_colon (wl_node_id w)" "index_ready c s"
  shows "\<exists>s' ws. assign_loop c (exec_task c) xxh3 now workers s (entries_with_prefix s TASK_QUEUED_IDX_PREFIX) =
      Inr (s', map_option fst (List.find (\<lambda>(t, _). now < t) (queued_scan s)), ws) \<and>
    index_ready c s' \<and> leases c s' = leases c s \<and> recs c s' = sched_assign xxh3 now workers (recs c s) \<and>
    map fst ws = map snd (filter (\<lambda>(t, _). t \<le> now) (queued_scan s))"
proof -
  have mem: "\<forall>(t, i) \<in> set (queued_scan s). \<exists>r. recs c s i = Some r \<and> tr_status r = Queued \<and> tr_run_at r = t"
    using queued_scan_mem[OF assms(3)] by blast
  have "(\<lambda>i. if \<exists>t \<le> now. (t, i) \<in> set (queued_scan s)
      then map_option (assigned_record now (chosen xxh3 workers i)) (recs c s i) else recs c s i) =
      sched_assign xxh3 now workers (recs c s)"
    by (auto simp: fun_eq_iff sched_assign_def queued_scan_mem[OF assms(3)] split: option.split)
  then show ?thesis
    using assign_loop_spec[OF assms(1,2,3) queued_scan_parse[OF assms(3,3)] queued_scan_sorted[OF assms(3,3)]
        queued_scan_ids[OF assms(3)] mem, of xxh3 now] by simp
qed

section \<open>The requeue loop\<close>

definition lost :: "u64 \<Rightarrow> u64 \<Rightarrow> string set \<Rightarrow> task_record \<Rightarrow> bool" where
  "lost now stuck_secs retained r \<longleftrightarrow> (\<exists>n. in_flight_on r n \<and> (n \<notin> retained \<or> stuck now stuck_secs r))"

definition sched_requeue ::
  "u64 \<Rightarrow> u64 \<Rightarrow> string set \<Rightarrow> (string \<Rightarrow> task_record option) \<Rightarrow> string \<Rightarrow> task_record option" where
  "sched_requeue now stuck_secs retained R i =
     map_option (\<lambda>r. if lost now stuck_secs retained r then next_record (TaskRequeue i) r else r) (R i)"

lemma requeue_reason_lost:
  assumes "recs c s i = Some r" "in_flight_on r n"
  shows "requeue_reason c now stuck_secs retained s n i = None \<longleftrightarrow> \<not> lost now stuck_secs retained r"
  using assms
  by (auto simp: requeue_reason_def recs_def lost_def in_flight_on_def split: option.splits sum.splits)

lemma requeue_loop_spec:
  assumes "index_ready c s" "map (\<lambda>kv. parse_assigned_idx_key (fst kv)) es = map Some L" "distinct (map snd L)"
    and "\<forall>(n, i) \<in> set L. \<exists>r. recs c s i = Some r \<and> in_flight_on r n"
  shows "\<exists>s'. requeue_loop c (exec_task c) now stuck_secs retained s es = Inr s' \<and> index_ready c s' \<and>
    leases c s' = leases c s \<and>
    recs c s' = (\<lambda>i. if i \<in> snd ` set L then sched_requeue now stuck_secs retained (recs c s) i else recs c s i)"
  using assms
proof (induction es arbitrary: s L)
  case Nil
  then show ?case by simp
next
  case (Cons kv es)
  obtain k v where kv: "kv = (k, v)" by fastforce
  from Cons.prems(2) obtain n i L' where L: "L = (n, i) # L'"
    and k: "parse_assigned_idx_key k = Some (n, i)" and es: "map (\<lambda>kv. parse_assigned_idx_key (fst kv)) es = map Some L'"
    by (cases L) (auto simp: kv)
  obtain r where r: "recs c s i = Some r" "in_flight_on r n" using Cons.prems(4) by (auto simp: L)
  have notin: "i \<notin> snd ` set L'" using Cons.prems(3) by (simp add: L)
  let ?r = "if lost now stuck_secs retained r then next_record (TaskRequeue i) r else r"
  obtain s1 where s1: "requeue_loop c (exec_task c) now stuck_secs retained s (kv # es) =
      requeue_loop c (exec_task c) now stuck_secs retained s1 es"
    "index_ready c s1" "leases c s1 = leases c s" "recs c s1 = (recs c s)(i \<mapsto> ?r)"
  proof (cases "lost now stuck_secs retained r")
    case True
    then obtain reason where "requeue_reason c now stuck_secs retained s n i = Some reason"
      using requeue_reason_lost[OF r] by (cases "requeue_reason c now stuck_secs retained s n i") auto
    with exec_record[OF Cons.prems(1) _ _ r(1), of "TaskRequeue i"] True show ?thesis
      using that by (auto simp: kv k cmd_ok_def)
  next
    case False
    then have "requeue_reason c now stuck_secs retained s n i = None" using requeue_reason_lost[OF r] by simp
    moreover have "recs c s = (recs c s)(i \<mapsto> r)" using r(1) by (simp add: fun_upd_idem)
    ultimately show ?thesis using that[of s] False Cons.prems(1) by (simp add: kv k)
  qed
  have "\<forall>(n, j) \<in> set L'. \<exists>r. recs c s1 j = Some r \<and> in_flight_on r n"
  proof clarify
    fix m j assume "(m, j) \<in> set L'"
    moreover from this have "j \<noteq> i" using notin by force
    ultimately show "\<exists>r. recs c s1 j = Some r \<and> in_flight_on r m"
      using Cons.prems(4) unfolding L s1(4) by auto
  qed
  from Cons.IH[OF s1(2) es _ this] Cons.prems(3) obtain s' where
    IH: "requeue_loop c (exec_task c) now stuck_secs retained s1 es = Inr s'" "index_ready c s'"
      "leases c s' = leases c s1"
      "recs c s' = (\<lambda>i. if i \<in> snd ` set L' then sched_requeue now stuck_secs retained (recs c s1) i else recs c s1 i)"
    by (auto simp: L)
  have "recs c s' = (\<lambda>i. if i \<in> snd ` set L then sched_requeue now stuck_secs retained (recs c s) i else recs c s i)"
    unfolding IH(4) s1(4) using notin r(1) by (auto simp: L fun_eq_iff sched_requeue_def)
  then show ?case using s1 IH by metis
qed

lemma requeue_pass:
  assumes "index_ready c s" "ids_ok c s"
  shows "\<exists>s'. requeue_loop c (exec_task c) now stuck_secs retained s (entries_with_prefix s TASK_ASSIGNED_IDX_PREFIX) =
      Inr s' \<and> index_ready c s' \<and> leases c s' = leases c s \<and>
    recs c s' = sched_requeue now stuck_secs retained (recs c s)"
proof -
  have mem: "\<forall>(n, i) \<in> set (assigned_scan s). \<exists>r. recs c s i = Some r \<and> in_flight_on r n"
    using assigned_scan_mem[OF assms] by blast
  have img: "i \<in> snd ` set (assigned_scan s) \<longleftrightarrow> (\<exists>r n. recs c s i = Some r \<and> in_flight_on r n)" for i
    using assigned_scan_mem[OF assms] by force
  have "(\<lambda>i. if i \<in> snd ` set (assigned_scan s) then sched_requeue now stuck_secs retained (recs c s) i else recs c s i) =
      sched_requeue now stuck_secs retained (recs c s)"
  proof
    fix i
    show "(if i \<in> snd ` set (assigned_scan s) then sched_requeue now stuck_secs retained (recs c s) i else recs c s i) =
        sched_requeue now stuck_secs retained (recs c s) i"
      unfolding img by (cases "recs c s i") (auto simp: sched_requeue_def lost_def)
  qed
  then show ?thesis
    using requeue_loop_spec[OF assms(1) assigned_scan_parse[OF assms(1) assms] assigned_scan_ids[OF assms] mem,
        of now stuck_secs retained] by simp
qed

section \<open>The vacuum scan\<close>

lemma vacuum_scan_spec:
  assumes "map (\<lambda>kv. parse_terminal_idx_key (fst kv)) es = map Some L" "length ids < VACUUM_BATCH_LIMIT"
  shows "vacuum_scan cutoff es ids =
    ids @ take (VACUUM_BATCH_LIMIT - length ids) (map snd (takeWhile (\<lambda>(t, _). t \<le> cutoff) L))"
  using assms
proof (induction es arbitrary: L ids)
  case Nil
  then show ?case by simp
next
  case (Cons kv es)
  obtain k v where kv: "kv = (k, v)" by fastforce
  from Cons.prems(1) obtain t i L' where L: "L = (t, i) # L'"
    and k: "parse_terminal_idx_key k = Some (t, i)" and es: "map (\<lambda>kv. parse_terminal_idx_key (fst kv)) es = map Some L'"
    by (cases L) (auto simp: kv)
  show ?case
  proof (cases "cutoff < t")
    case True
    then show ?thesis by (simp add: kv k L)
  next
    case False
    show ?thesis
    proof (cases "VACUUM_BATCH_LIMIT \<le> length ids + 1")
      case True
      then have "VACUUM_BATCH_LIMIT - length ids = 1" using Cons.prems(2) by simp
      with True False show ?thesis by (simp add: kv k L)
    next
      case small: False
      have "take (VACUUM_BATCH_LIMIT - length ids) (i # xs) = i # take (VACUUM_BATCH_LIMIT - (length ids + 1)) xs" for xs
        using small Suc_diff_Suc[of "length ids" VACUUM_BATCH_LIMIT] by (metis Suc_eq_plus1 Suc_lessD linorder_not_less take_Suc_Cons)
      with False small Cons.IH[OF es, of "ids @ [i]"] show ?thesis by (simp add: kv k L)
    qed
  qed
qed

lemma sorted_takeWhile_le:
  "sorted (map fst L) \<Longrightarrow> takeWhile (\<lambda>(t, _). t \<le> (b :: 'a::linorder)) L = filter (\<lambda>(t, _). t \<le> b) L"
proof (induction L)
  case (Cons x L)
  show ?case
  proof (cases "fst x \<le> b")
    case True
    with Cons show ?thesis by (cases x) simp
  next
    case False
    then have "\<forall>y \<in> set L. \<not> fst y \<le> b" using Cons.prems by fastforce
    then have "filter (\<lambda>(t, _). t \<le> b) L = []" by (auto simp: filter_empty_conv)
    with False show ?thesis by (cases x) simp
  qed
qed simp

definition expired_ids :: "codec \<Rightarrow> kv \<Rightarrow> u64 \<Rightarrow> string set" where
  "expired_ids c s cutoff = {i. \<exists>r. recs c s i = Some r \<and> is_terminal r \<and> tr_completed_at r \<le> cutoff}"

lemma vacuum_ids_spec:
  assumes "index_ready c s"
  shows "\<exists>ids. vacuum_scan cutoff (entries_with_prefix s TASK_TERMINAL_IDX_PREFIX) [] = ids \<and> distinct ids \<and>
    set ids \<subseteq> expired_ids c s cutoff \<and> finite (expired_ids c s cutoff) \<and>
    length ids = min VACUUM_BATCH_LIMIT (card (expired_ids c s cutoff))"
proof -
  let ?L = "map snd (filter (\<lambda>(t, _). t \<le> cutoff) (terminal_scan s))"
  have "vacuum_scan cutoff (entries_with_prefix s TASK_TERMINAL_IDX_PREFIX) [] = take VACUUM_BATCH_LIMIT ?L"
    using vacuum_scan_spec[OF terminal_scan_parse[OF assms assms], of "[]" cutoff]
      sorted_takeWhile_le[OF terminal_scan_sorted[OF assms assms]] by (simp add: VACUUM_BATCH_LIMIT_def)
  moreover have set_L: "set ?L = expired_ids c s cutoff"
    using terminal_scan_mem[OF assms] by (force simp: expired_ids_def image_iff)
  moreover have "distinct ?L"
    using terminal_scan_ids[OF assms] by (rule distinct_map_filter)
  moreover from calculation have "length ?L = card (expired_ids c s cutoff)" by (metis distinct_card)
  moreover have "finite (expired_ids c s cutoff)" using set_L by (metis List.finite_set)
  ultimately show ?thesis using set_take_subset[of VACUUM_BATCH_LIMIT ?L]
    by (auto simp: min.commute)
qed

lemma vacuum_pass:
  assumes "index_ready c s"
  shows "\<exists>s' ids. vacuum_expired_tasks (exec_task c) retention now s = Inr s' \<and> index_ready c s' \<and>
    recs c s' = (\<lambda>i. if i \<in> set ids then None else recs c s i) \<and> set ids \<subseteq> expired_ids c s (sat_sub now retention) \<and>
    card (set ids) = min VACUUM_BATCH_LIMIT (card (expired_ids c s (sat_sub now retention)))"
proof -
  obtain ids where ids: "vacuum_scan (sat_sub now retention) (entries_with_prefix s TASK_TERMINAL_IDX_PREFIX) [] = ids"
    "distinct ids" "set ids \<subseteq> expired_ids c s (sat_sub now retention)"
    "length ids = min VACUUM_BATCH_LIMIT (card (expired_ids c s (sat_sub now retention)))"
    using vacuum_ids_spec[OF assms] by blast
  show ?thesis
  proof (cases "ids = []")
    case True
    then show ?thesis using ids assms
      by (intro exI[of _ s] exI[of _ "[]"]) (simp add: vacuum_expired_tasks_def Let_def)
  next
    case False
    obtain s' resp where s': "exec_task c s (TaskVacuum ids) = Inr (s', resp)" "queue_inv c s'"
      "abs_queue c s' = aq_next (abs_queue c s) (TaskVacuum ids)"
      using exec_task_ready[OF index_readyD(1)[OF assms], of "TaskVacuum ids"] by (auto simp: cmd_ok_def)
    have gone: "set (vacuumed (recs c s) ids) = set ids"
      using ids(3) by (auto simp: vacuumed_def expired_ids_def)
    have "recs c s' = (\<lambda>i. if i \<in> set ids then None else recs c s i)"
      using arg_cong[OF s'(3), of aq_recs] gone by (simp add: aq_next_def Let_def cong: if_cong)
    moreover have "index_ready c s'"
      using s'(1,2) exec_keys_ok[OF index_readyD(4)[OF assms], of "TaskVacuum ids"] index_readyD(3)[OF assms]
      by (simp add: index_ready_def queue_ready_def cmd_ok_def)
    ultimately show ?thesis using False s'(1) ids distinct_card[OF ids(2)]
      by (intro exI[of _ s'] exI[of _ ids]) (simp add: vacuum_expired_tasks_def Let_def)
  qed
qed

section \<open>The worker view\<close>

definition view_lease :: "(string \<Rightarrow> bool) \<Rightarrow> u64 \<Rightarrow> nat \<Rightarrow> view_acc \<Rightarrow> worker_lease_record \<Rightarrow> view_acc" where
  "view_lease alive now tick_now acc lease =
     (let n = wl_node_id lease; acc = acc\<lparr>va_leased := insert n (va_leased acc)\<rparr> in
      if wl_expires_at lease < now then acc\<lparr>va_down := (va_down acc)(n := None)\<rparr>
      else if alive n
      then acc\<lparr>va_down := (va_down acc)(n := None), va_retained := insert n (va_retained acc),
               va_assignable := va_assignable acc @ [lease]\<rparr>
      else
        (let since = (case va_down acc n of None \<Rightarrow> tick_now | Some t \<Rightarrow> t);
             acc = acc\<lparr>va_down := (va_down acc)(n \<mapsto> since)\<rparr>
         in if tick_now - since < WORKER_DISCONNECT_GRACE_SECS * 10 ^ 9
            then acc\<lparr>va_retained := insert n (va_retained acc)\<rparr> else acc))"

definition decoded_leases :: "codec \<Rightarrow> (string \<times> string) list \<Rightarrow> worker_lease_record list" where
  "decoded_leases c es = List.map_filter (\<lambda>kv. case dec_lease c (snd kv) of Inl _ \<Rightarrow> None | Inr l \<Rightarrow> Some l) es"

lemma view_fold_leases:
  "foldl (view_step c alive now tick_now) acc es = foldl (view_lease alive now tick_now) acc (decoded_leases c es)"
  by (induction es arbitrary: acc)
     (auto simp: decoded_leases_def map_filter_simps view_step_def view_lease_def split: sum.split)

text \<open>A worker whose lease is fresh and whom this leader has lost sight of for less than the grace time.\<close>

definition within_grace :: "nat \<Rightarrow> (string \<Rightarrow> nat option) \<Rightarrow> string \<Rightarrow> bool" where
  "within_grace tick_now down n \<longleftrightarrow>
     (case down n of None \<Rightarrow> True | Some t \<Rightarrow> tick_now - t < WORKER_DISCONNECT_GRACE_SECS * 10 ^ 9)"

lemma view_fold_spec:
  assumes "distinct (map wl_node_id ls)"
  shows "va_assignable (foldl (view_lease alive now tick_now) acc ls) =
      va_assignable acc @ filter (\<lambda>l. now \<le> wl_expires_at l \<and> alive (wl_node_id l)) ls \<and>
    va_retained (foldl (view_lease alive now tick_now) acc ls) = va_retained acc \<union>
      wl_node_id ` {l \<in> set ls. now \<le> wl_expires_at l \<and>
        (alive (wl_node_id l) \<or> within_grace tick_now (va_down acc) (wl_node_id l))}"
  using assms
proof (induction ls arbitrary: acc)
  case (Cons l ls)
  let ?acc = "view_lease alive now tick_now acc l"
  have down: "va_down ?acc n = va_down acc n" if "n \<noteq> wl_node_id l" for n
    using that by (simp add: view_lease_def Let_def)
  have "within_grace tick_now (va_down ?acc) (wl_node_id k) = within_grace tick_now (va_down acc) (wl_node_id k)"
    if "k \<in> set ls" for k
  proof -
    have "wl_node_id l \<notin> wl_node_id ` set ls" using Cons.prems by simp
    then have "wl_node_id k \<noteq> wl_node_id l" using imageI[OF that, of wl_node_id] by auto
    then show ?thesis by (simp add: within_grace_def down)
  qed
  then have cong: "{k \<in> set ls. now \<le> wl_expires_at k \<and> (alive (wl_node_id k) \<or> within_grace tick_now (va_down ?acc) (wl_node_id k))} =
      {k \<in> set ls. now \<le> wl_expires_at k \<and> (alive (wl_node_id k) \<or> within_grace tick_now (va_down acc) (wl_node_id k))}"
    by blast
  have head: "va_retained ?acc = va_retained acc \<union> (if now \<le> wl_expires_at l \<and>
      (alive (wl_node_id l) \<or> within_grace tick_now (va_down acc) (wl_node_id l)) then {wl_node_id l} else {})"
    by (auto simp: view_lease_def Let_def within_grace_def WORKER_DISCONNECT_GRACE_SECS_def not_less split: option.split)
  have a: "va_assignable ?acc = va_assignable acc @ (if now \<le> wl_expires_at l \<and> alive (wl_node_id l) then [l] else [])"
    by (auto simp: view_lease_def Let_def not_less)
  have IH: "va_assignable (foldl (view_lease alive now tick_now) ?acc ls) =
      va_assignable ?acc @ filter (\<lambda>l. now \<le> wl_expires_at l \<and> alive (wl_node_id l)) ls"
    "va_retained (foldl (view_lease alive now tick_now) ?acc ls) = va_retained ?acc \<union>
      wl_node_id ` {l \<in> set ls. now \<le> wl_expires_at l \<and>
        (alive (wl_node_id l) \<or> within_grace tick_now (va_down acc) (wl_node_id l))}"
    using Cons.IH[of ?acc] Cons.prems unfolding cong by simp_all
  show ?case unfolding foldl_Cons IH a head by auto
qed simp

lemma worker_entries:
  assumes "index_ready c s"
  shows "distinct (map wl_node_id (decoded_leases c (entries_with_prefix s TASK_WORKER_PREFIX)))"
    and "l \<in> set (decoded_leases c (entries_with_prefix s TASK_WORKER_PREFIX)) \<longleftrightarrow> leases c s (wl_node_id l) = Some l"
proof -
  let ?es = "entries_with_prefix s TASK_WORKER_PREFIX"
  have lease: "\<exists>l. dec_lease c v = Inr l \<and> k = worker_key (wl_node_id l) \<and> leases c s (wl_node_id l) = Some l"
    if "(k, v) \<in> set ?es" for k v
  proof -
    have get: "cf_get s k = Some v" and pre: "starts_with k TASK_WORKER_PREFIX"
      using that by (simp_all add: entries_with_prefix_iff[OF index_readyD(5)[OF assms]])
    then obtain n where n: "k = worker_key n" using keys_okD(5)[OF index_readyD(4)[OF assms]] by blast
    then obtain l where "dec_lease c v = Inr l" "wl_node_id l = n"
      using queue_invD(4)[OF index_readyD(2)[OF assms]] get unfolding leases_ok_def by blast
    then show ?thesis using n get by (auto simp: leases_def)
  qed
  have dec: "map (\<lambda>l. worker_key (wl_node_id l)) (decoded_leases c es) = map fst es" if "set es \<subseteq> set ?es" for es
    using that
  proof (induction es)
    case Nil
    then show ?case by (simp add: decoded_leases_def map_filter_simps)
  next
    case (Cons kv es)
    then show ?case using lease[of "fst kv" "snd kv"] by (auto simp: decoded_leases_def map_filter_simps)
  qed
  have "distinct (map fst ?es)"
    using entries_with_prefix_sorted[OF index_readyD(5)[OF assms]] strict_sorted_iff by blast
  then have "distinct (map worker_key (map wl_node_id (decoded_leases c ?es)))" using dec[of ?es] by (simp add: comp_def)
  then show "distinct (map wl_node_id (decoded_leases c ?es))" by (rule distinct_map[THEN iffD1, THEN conjunct1])
  have mem: "l \<in> set (decoded_leases c ?es) \<longleftrightarrow> (\<exists>k v. (k, v) \<in> set ?es \<and> dec_lease c v = Inr l)"
    by (force simp: decoded_leases_def map_filter_def split: sum.splits)
  show "l \<in> set (decoded_leases c ?es) \<longleftrightarrow> leases c s (wl_node_id l) = Some l"
  proof
    assume "l \<in> set (decoded_leases c ?es)"
    then show "leases c s (wl_node_id l) = Some l" using mem lease by fastforce
  next
    assume "leases c s (wl_node_id l) = Some l"
    then obtain raw where "cf_get s (worker_key (wl_node_id l)) = Some raw" "dec_lease c raw = Inr l"
      by (auto simp: leases_def split: option.splits sum.splits)
    then have "(worker_key (wl_node_id l), raw) \<in> set ?es"
      by (simp add: entries_with_prefix_iff[OF index_readyD(5)[OF assms]] worker_key_def)
    then show "l \<in> set (decoded_leases c ?es)" using mem \<open>dec_lease c raw = Inr l\<close> by blast
  qed
qed

lemma worker_view_spec:
  assumes "index_ready c s" "worker_view_of c alive now tick_now s down = (view, down')"
  shows "set (wv_assignable view) = {l. leases c s (wl_node_id l) = Some l \<and> now \<le> wl_expires_at l \<and> alive (wl_node_id l)}"
    and "wv_retained view = {n. \<exists>l. leases c s n = Some l \<and> now \<le> wl_expires_at l \<and> (alive n \<or> within_grace tick_now down n)}"
    and "sorted (map wl_node_id (wv_assignable view))"
proof -
  let ?ls = "decoded_leases c (entries_with_prefix s TASK_WORKER_PREFIX)"
  let ?start = "\<lparr>va_assignable = [], va_retained = {}, va_leased = {}, va_down = down\<rparr>"
  let ?acc = "foldl (view_lease alive now tick_now) ?start ?ls"
  have view: "view = \<lparr>wv_assignable = sort_key wl_node_id (va_assignable ?acc), wv_retained = va_retained ?acc\<rparr>"
    using assms(2) by (auto simp: worker_view_of_def view_fold_leases Let_def)
  have spec: "va_assignable ?acc = filter (\<lambda>l. now \<le> wl_expires_at l \<and> alive (wl_node_id l)) ?ls"
    "va_retained ?acc = wl_node_id ` {l \<in> set ?ls. now \<le> wl_expires_at l \<and>
        (alive (wl_node_id l) \<or> within_grace tick_now down (wl_node_id l))}"
    using view_fold_spec[OF worker_entries(1)[OF assms(1)], of alive now tick_now ?start] by simp_all
  have "set (wv_assignable view) = {l. l \<in> set ?ls \<and> now \<le> wl_expires_at l \<and> alive (wl_node_id l)}"
    by (auto simp: view spec)
  then show "set (wv_assignable view) = {l. leases c s (wl_node_id l) = Some l \<and> now \<le> wl_expires_at l \<and> alive (wl_node_id l)}"
    unfolding worker_entries(2)[OF assms(1)] .
  have node: "wl_node_id l = n" if "leases c s n = Some l" for l n
    using that queue_invD(4)[OF index_readyD(2)[OF assms(1)]]
    by (fastforce simp: leases_ok_def leases_def split: option.splits sum.splits)
  have "n \<in> wv_retained view \<longleftrightarrow> (\<exists>l. l \<in> set ?ls \<and> wl_node_id l = n \<and> now \<le> wl_expires_at l \<and>
      (alive n \<or> within_grace tick_now down n))" for n
    by (auto simp: view spec)
  then have "n \<in> wv_retained view \<longleftrightarrow> (\<exists>l. leases c s n = Some l \<and> now \<le> wl_expires_at l \<and>
      (alive n \<or> within_grace tick_now down n))" for n
  proof -
    assume *: "\<And>n. n \<in> wv_retained view \<longleftrightarrow> (\<exists>l. l \<in> set ?ls \<and> wl_node_id l = n \<and> now \<le> wl_expires_at l \<and>
      (alive n \<or> within_grace tick_now down n))"
    have "l \<in> set ?ls \<and> wl_node_id l = n \<longleftrightarrow> leases c s n = Some l" for l
      using node[of n l] worker_entries(2)[OF assms(1), of l] by auto
    then show ?thesis unfolding * by (metis (no_types, lifting))
  qed
  then show "wv_retained view = {n. \<exists>l. leases c s n = Some l \<and> now \<le> wl_expires_at l \<and> (alive n \<or> within_grace tick_now down n)}"
    by blast
  show "sorted (map wl_node_id (wv_assignable view))" by (simp add: view)
qed

section \<open>The whole pass\<close>

lemma tick_spec:
  assumes "index_ready c s" "ids_ok c s" "\<forall>n l. leases c s n = Some l \<longrightarrow> no_colon n"
    and "worker_view_of c alive now tick_now s down = (view, down')"
  shows "\<exists>s' due ws. scheduler_tick c (exec_task c) xxh3 alive now tick_now stuck_secs s down = (Inr (s', due, ws), down') \<and>
    index_ready c s' \<and> recs c s' = (let R = sched_requeue now stuck_secs (wv_retained view) (recs c s) in
      if wv_assignable view = [] then R else sched_assign xxh3 now (wv_assignable view) R)"
proof -
  obtain s1 where s1: "requeue_loop c (exec_task c) now stuck_secs (wv_retained view) s
      (entries_with_prefix s TASK_ASSIGNED_IDX_PREFIX) = Inr s1"
    "index_ready c s1" "recs c s1 = sched_requeue now stuck_secs (wv_retained view) (recs c s)"
    using requeue_pass[OF assms(1,2)] by blast
  show ?thesis
  proof (cases "wv_assignable view = []")
    case True
    then show ?thesis using s1 assms(4) by (auto simp: scheduler_tick_def)
  next
    case False
    have "\<forall>w \<in> set (wv_assignable view). no_colon (wl_node_id w)"
      using worker_view_spec(1)[OF assms(1,4)] assms(3) by blast
    from assign_pass[OF False this s1(2), of xxh3 now] obtain s' due ws where
      "assign_loop c (exec_task c) xxh3 now (wv_assignable view) s1 (entries_with_prefix s1 TASK_QUEUED_IDX_PREFIX) = Inr (s', due, ws)"
      "index_ready c s'" "recs c s' = sched_assign xxh3 now (wv_assignable view) (recs c s1)"
      by blast
    then show ?thesis using False s1 assms(4) by (auto simp: scheduler_tick_def)
  qed
qed

end
