(* ===== verification/SchedulerClaims.thy ===== *)
theory SchedulerClaims
  imports Scheduler TaskClaims
begin

text \<open>
  The properties of the scheduling pass, of the worker view and of the retention pass, for the
  proposal function that is the state machine; and the properties of the key space and of the
  metrics that the readers of the queue rely on.
\<close>

section \<open>An example\<close>

definition demo_sched_log :: "task_request list" where
  "demo_sched_log = [WorkerLease ''n1'' ''w1'' 7 100, WorkerLease ''n2'' ''w2'' 3 20,
     TaskEnqueue ''t1'' ''job'' 5 None 3, TaskEnqueue ''t2'' ''job'' 6 None 4, TaskEnqueue ''t3'' ''job'' 90 None 4,
     TaskAssign ''t1'' ''n2'' 3 8, TaskEnqueue ''t4'' ''job'' 7 None 4, TaskAssign ''t4'' ''n1'' 7 8,
     TaskClaim ''t4'' ''n1'' 7 8, TaskDone ''t4'' ''n1'' 7 1 9 None]"

definition demo_sched_store :: kv where
  "demo_sched_store = run_tasks demo_codec [] demo_sched_log"

lemma demo_sched_ok: "list_all cmd_ok demo_sched_log"
  by (simp add: demo_sched_log_def cmd_ok_def no_colon_def)

lemma demo_sched_ready [simp]: "index_ready demo_codec demo_sched_store"
  unfolding demo_sched_store_def run_tasks_def
  by (rule ix.run_inv) (simp_all add: index_ready_empty demo_sched_ok)

lemma demo_sched_inv [simp]: "queue_inv demo_codec demo_sched_store" "keys_ok demo_sched_store"
  using demo_sched_ready index_readyD by blast+

lemma demo_sched_abs: "abs_queue demo_codec demo_sched_store = foldl aq_next
   \<lparr>aq_recs = Map.empty, aq_idem = Map.empty, aq_leases = Map.empty\<rparr> demo_sched_log"
  unfolding demo_sched_store_def
  by (simp add: run_tasks_abs queue_ready_empty demo_sched_ok abs_queue_empty)

lemma demo_sched_recs: "dom (recs demo_codec demo_sched_store) = {''t1'', ''t2'', ''t3'', ''t4''}"
proof -
  have "dom (aq_recs (abs_queue demo_codec demo_sched_store)) = {''t1'', ''t2'', ''t3'', ''t4''}"
    unfolding demo_sched_abs by (simp add: demo_sched_log_def aq_next_def new_record_def ack_matches_def Let_def) auto
  then show ?thesis by simp
qed

lemma demo_sched_leases: "dom (leases demo_codec demo_sched_store) = {''n1'', ''n2''}"
proof -
  have "dom (aq_leases (abs_queue demo_codec demo_sched_store)) = {''n1'', ''n2''}"
    unfolding demo_sched_abs by (simp add: demo_sched_log_def aq_next_def new_record_def ack_matches_def Let_def) auto
  then show ?thesis by (simp add: aq_leases_abs)
qed

lemma demo_sched_names: "ids_ok demo_codec demo_sched_store"
  "\<forall>n l. leases demo_codec demo_sched_store n = Some l \<longrightarrow> no_colon n"
  using demo_sched_recs demo_sched_leases
  by (auto simp: ids_ok_def no_colon_def dom_def set_eq_iff)

section \<open>The scheduling pass\<close>

text \<open>C19: a scheduling pass on a consistent store succeeds and keeps it consistent. It first gives up
  every task in flight on a worker that is not retained or that is stuck, then, when there are workers,
  assigns every due task to the worker its hash selects. Afterwards no task is in flight outside the
  retained workers and, when there are workers, no due task is left in the queue; nothing else changes.\<close>

theorem scheduler_pass:
  assumes "codec_ok c" "queue_inv c s" "keys_ok s" "ids_ok c s" "\<forall>n l. leases c s n = Some l \<longrightarrow> no_colon n"
    and "worker_view_of c alive now tick_now s down = (view, down')"
  shows "\<exists>s' due ws. scheduler_tick c (exec_task c) xxh3 alive now tick_now stuck_secs s down =
      (Inr (s', due, ws), down') \<and> queue_inv c s' \<and> keys_ok s' \<and>
    recs c s' = (let R = sched_requeue now stuck_secs (wv_retained view) (recs c s) in
      if wv_assignable view = [] then R else sched_assign xxh3 now (wv_assignable view) R) \<and>
    {(i, n). \<exists>r. recs c s' i = Some r \<and> in_flight_on r n \<and> n \<notin> wv_retained view} = {} \<and>
    (wv_assignable view = [] \<or> {i. \<exists>r. recs c s' i = Some r \<and> tr_status r = Queued \<and> tr_run_at r \<le> now} = {})"
proof -
  have ready: "index_ready c s" using assms(1-3) by (simp add: index_ready_def queue_ready_def)
  let ?R = "sched_requeue now stuck_secs (wv_retained view) (recs c s)"
  obtain s' due ws where s': "scheduler_tick c (exec_task c) xxh3 alive now tick_now stuck_secs s down = (Inr (s', due, ws), down')"
    "index_ready c s'" "recs c s' = (let R = ?R in
      if wv_assignable view = [] then R else sched_assign xxh3 now (wv_assignable view) R)"
    using tick_spec[OF ready assms(4-6)] by blast
  have sub: "l \<in> set (wv_assignable view) \<Longrightarrow> wl_node_id l \<in> wv_retained view" for l
    using worker_view_spec(1,2)[OF ready assms(6)] by blast
  have R: "n \<in> wv_retained view" if r: "?R i = Some r" "in_flight_on r n" for i r n
  proof -
    obtain r0 where r0: "r = (if lost now stuck_secs (wv_retained view) r0 then next_record (TaskRequeue i) r0 else r0)"
      using r(1) by (auto simp: sched_requeue_def)
    moreover have "\<not> in_flight_on (next_record (TaskRequeue i) r0) n" if "lost now stuck_secs (wv_retained view) r0"
      using that by (auto simp: next_record_def lost_def in_flight_on_def Let_def)
    ultimately show ?thesis using r(2) by (auto simp: lost_def in_flight_on_def split: if_splits)
  qed
  have fl: "n \<in> wv_retained view" if r: "recs c s' i = Some r" "in_flight_on r n" for i r n
  proof (cases "wv_assignable view = []")
    case True
    then show ?thesis using r R s'(3) by simp
  next
    case False
    then obtain r0 where "?R i = Some r0" "r = r0 \<or> r = assigned_record now (chosen xxh3 (wv_assignable view) i) r0"
      using r(1) s'(3) by (auto simp: sched_assign_def split: option.splits)
    then show ?thesis using r(2) R sub chosen_mem[OF False, of xxh3 i]
      by (auto simp: in_flight_on_def assigned_record_def)
  qed
  have "tr_status r \<noteq> Queued \<or> \<not> tr_run_at r \<le> now" if r: "wv_assignable view \<noteq> []" "recs c s' i = Some r" for i r
  proof -
    obtain q where "r = (if tr_status q = Queued \<and> tr_run_at q \<le> now
        then assigned_record now (chosen xxh3 (wv_assignable view) i) q else q)"
      using r s'(3) by (auto simp: sched_assign_def split: option.splits)
    then show ?thesis by (cases "tr_status q = Queued \<and> tr_run_at q \<le> now") (auto simp: assigned_record_def)
  qed
  then show ?thesis using s' fl index_readyD[OF s'(2)] by blast
qed

theorem scheduler_pass_witness:
  "\<exists>s' due ws. scheduler_tick demo_codec (exec_task demo_codec) (\<lambda>_. 5) (\<lambda>n. n = ''n1'') 50 0 300 demo_sched_store Map.empty =
      (Inr (s', due, ws), snd (worker_view_of demo_codec (\<lambda>n. n = ''n1'') 50 0 demo_sched_store Map.empty)) \<and>
    queue_inv demo_codec s' \<and> keys_ok s' \<and>
    recs demo_codec s' = (let R = sched_requeue 50 300
        (wv_retained (fst (worker_view_of demo_codec (\<lambda>n. n = ''n1'') 50 0 demo_sched_store Map.empty)))
        (recs demo_codec demo_sched_store) in
      if wv_assignable (fst (worker_view_of demo_codec (\<lambda>n. n = ''n1'') 50 0 demo_sched_store Map.empty)) = [] then R
      else sched_assign (\<lambda>_. 5) 50
        (wv_assignable (fst (worker_view_of demo_codec (\<lambda>n. n = ''n1'') 50 0 demo_sched_store Map.empty))) R) \<and>
    {(i, n). \<exists>r. recs demo_codec s' i = Some r \<and> in_flight_on r n \<and>
       n \<notin> wv_retained (fst (worker_view_of demo_codec (\<lambda>n. n = ''n1'') 50 0 demo_sched_store Map.empty))} = {} \<and>
    (wv_assignable (fst (worker_view_of demo_codec (\<lambda>n. n = ''n1'') 50 0 demo_sched_store Map.empty)) = [] \<or>
     {i. \<exists>r. recs demo_codec s' i = Some r \<and> tr_status r = Queued \<and> tr_run_at r \<le> 50} = {})"
  by (rule scheduler_pass) (simp_all add: demo_sched_names)

text \<open>Two-phase failover. New work goes only to workers whose lease has not expired and who are
  alive, in node id order; tasks in flight are kept on these and on workers with a fresh lease who have
  been out of sight for less than the grace time; an expired lease always loses its tasks.\<close>

theorem worker_view_two_phase:
  assumes "codec_ok c" "queue_inv c s" "keys_ok s" "worker_view_of c alive now tick_now s down = (view, down')"
  shows "set (wv_assignable view) = {l. leases c s (wl_node_id l) = Some l \<and> now \<le> wl_expires_at l \<and> alive (wl_node_id l)} \<and>
    sorted (map wl_node_id (wv_assignable view)) \<and>
    wv_retained view = {n. \<exists>l. leases c s n = Some l \<and> now \<le> wl_expires_at l \<and> (alive n \<or> within_grace tick_now down n)} \<and>
    wl_node_id ` set (wv_assignable view) \<subseteq> wv_retained view"
proof -
  have ready: "index_ready c s" using assms(1-3) by (simp add: index_ready_def queue_ready_def)
  show ?thesis using worker_view_spec[OF ready assms(4)] by blast
qed

theorem worker_view_two_phase_witness:
  "set (wv_assignable (fst (worker_view_of demo_codec (\<lambda>n. n = ''n1'') 50 0 demo_sched_store Map.empty))) =
     {l. leases demo_codec demo_sched_store (wl_node_id l) = Some l \<and> 50 \<le> wl_expires_at l \<and> wl_node_id l = ''n1''} \<and>
   sorted (map wl_node_id (wv_assignable (fst (worker_view_of demo_codec (\<lambda>n. n = ''n1'') 50 0 demo_sched_store Map.empty)))) \<and>
   wv_retained (fst (worker_view_of demo_codec (\<lambda>n. n = ''n1'') 50 0 demo_sched_store Map.empty)) =
     {n. \<exists>l. leases demo_codec demo_sched_store n = Some l \<and> 50 \<le> wl_expires_at l \<and>
        (n = ''n1'' \<or> within_grace 0 Map.empty n)} \<and>
   wl_node_id ` set (wv_assignable (fst (worker_view_of demo_codec (\<lambda>n. n = ''n1'') 50 0 demo_sched_store Map.empty))) \<subseteq>
     wv_retained (fst (worker_view_of demo_codec (\<lambda>n. n = ''n1'') 50 0 demo_sched_store Map.empty))"
  by (rule worker_view_two_phase[where down' = "snd (worker_view_of demo_codec (\<lambda>n. n = ''n1'') 50 0 demo_sched_store Map.empty)"])
     simp_all

text \<open>A retention pass succeeds, keeps the store consistent and deletes only terminal tasks whose
  completion is at least the retention time ago: all of them when there are no more than the batch
  limit, and as many as the limit otherwise.\<close>

theorem retention_pass:
  assumes "codec_ok c" "queue_inv c s" "keys_ok s"
  shows "\<exists>s' ids. vacuum_expired_tasks (exec_task c) retention now s = Inr s' \<and> queue_inv c s' \<and> keys_ok s' \<and>
    recs c s' = (\<lambda>i. if i \<in> set ids then None else recs c s i) \<and>
    set ids \<subseteq> {i. \<exists>r. recs c s i = Some r \<and> is_terminal r \<and> tr_completed_at r \<le> sat_sub now retention} \<and>
    card (set ids) = min VACUUM_BATCH_LIMIT
      (card {i. \<exists>r. recs c s i = Some r \<and> is_terminal r \<and> tr_completed_at r \<le> sat_sub now retention})"
proof -
  have ready: "index_ready c s" using assms(1-3) by (simp add: index_ready_def queue_ready_def)
  show ?thesis using vacuum_pass[OF ready, of retention now] index_readyD unfolding expired_ids_def by blast
qed

theorem retention_pass_witness:
  "\<exists>s' ids. vacuum_expired_tasks (exec_task demo_codec) 10 50 demo_sched_store = Inr s' \<and>
    queue_inv demo_codec s' \<and> keys_ok s' \<and>
    recs demo_codec s' = (\<lambda>i. if i \<in> set ids then None else recs demo_codec demo_sched_store i) \<and>
    set ids \<subseteq> {i. \<exists>r. recs demo_codec demo_sched_store i = Some r \<and> is_terminal r \<and> tr_completed_at r \<le> sat_sub 50 10} \<and>
    card (set ids) = min VACUUM_BATCH_LIMIT
      (card {i. \<exists>r. recs demo_codec demo_sched_store i = Some r \<and> is_terminal r \<and> tr_completed_at r \<le> sat_sub 50 10})"
  by (rule retention_pass) simp_all

section \<open>Keys and metrics\<close>

text \<open>After any log of commands every index scan lists exactly the tasks in its state: the queued
  index in order of due time, the terminal index in order of completion, and the assigned index, when
  task ids have no colon, with the owning node.\<close>

theorem index_scans_exact:
  assumes "codec_ok c" "list_all cmd_ok cmds" "ids_ok c (run_tasks c [] cmds)"
  shows "set (queued_scan (run_tasks c [] cmds)) =
      {(t, i). \<exists>r. recs c (run_tasks c [] cmds) i = Some r \<and> tr_status r = Queued \<and> tr_run_at r = t} \<and>
    sorted (map fst (queued_scan (run_tasks c [] cmds))) \<and> distinct (map snd (queued_scan (run_tasks c [] cmds))) \<and>
    set (terminal_scan (run_tasks c [] cmds)) =
      {(t, i). \<exists>r. recs c (run_tasks c [] cmds) i = Some r \<and> is_terminal r \<and> tr_completed_at r = t} \<and>
    sorted (map fst (terminal_scan (run_tasks c [] cmds))) \<and>
    set (assigned_scan (run_tasks c [] cmds)) =
      {(n, i). \<exists>r. recs c (run_tasks c [] cmds) i = Some r \<and> in_flight_on r n}"
proof -
  have ready: "index_ready c (run_tasks c [] cmds)"
    unfolding run_tasks_def by (rule ix.run_inv) (simp_all add: index_ready_empty assms)
  show ?thesis
    using queued_scan_mem[OF ready] queued_scan_sorted[OF ready ready] queued_scan_ids[OF ready]
      terminal_scan_mem[OF ready] terminal_scan_sorted[OF ready ready] assigned_scan_mem[OF ready assms(3)]
    by auto
qed

theorem index_scans_exact_witness:
  "set (queued_scan (run_tasks demo_codec [] demo_sched_log)) =
      {(t, i). \<exists>r. recs demo_codec (run_tasks demo_codec [] demo_sched_log) i = Some r \<and> tr_status r = Queued \<and> tr_run_at r = t} \<and>
    sorted (map fst (queued_scan (run_tasks demo_codec [] demo_sched_log))) \<and>
    distinct (map snd (queued_scan (run_tasks demo_codec [] demo_sched_log))) \<and>
    set (terminal_scan (run_tasks demo_codec [] demo_sched_log)) =
      {(t, i). \<exists>r. recs demo_codec (run_tasks demo_codec [] demo_sched_log) i = Some r \<and> is_terminal r \<and> tr_completed_at r = t} \<and>
    sorted (map fst (terminal_scan (run_tasks demo_codec [] demo_sched_log))) \<and>
    set (assigned_scan (run_tasks demo_codec [] demo_sched_log)) =
      {(n, i). \<exists>r. recs demo_codec (run_tasks demo_codec [] demo_sched_log) i = Some r \<and> in_flight_on r n}"
  by (rule index_scans_exact) (simp_all add: demo_sched_ok demo_sched_names(1)[unfolded demo_sched_store_def])

text \<open>The metrics count every record once by status, the oldest due age is the largest age of a due
  queued task, and, when the latencies and their number fit the counters, the reported maximum bounds
  the average.\<close>

theorem metrics_sound:
  assumes "sum_list (latencies rs) < 2 ^ 64" "length rs < 2 ^ 64" "m = compute_metrics rs ls now"
  shows "qm_queued m + qm_assigned m + qm_running m + qm_done m + qm_failed m = qm_total m \<and> qm_total m = length rs \<and>
    qm_queued m = count_status Queued rs \<and> qm_done m = count_status Done rs \<and> qm_failed m = count_status Failed rs \<and>
    qm_retried_tasks m = length (filter (\<lambda>r. tr_attempts r > 1) rs) \<and>
    qm_oldest_due_queued_age_secs m = Max (insert 0 (due_ages now rs)) \<and>
    qm_active_workers m = length (filter (\<lambda>l. now \<le> wl_expires_at l) ls) \<and>
    qm_avg_completion_latency_secs m \<le> qm_max_completion_latency_secs m"
proof -
  let ?m = "\<lparr>qm_total = length rs, qm_queued = 0, qm_assigned = 0, qm_running = 0,
     qm_done = 0, qm_failed = 0, qm_total_attempts = 0, qm_retried_tasks = 0, qm_oldest_due_queued_age_secs = 0,
     qm_active_workers = length (filter (\<lambda>l. now \<le> wl_expires_at l) ls),
     qm_total_worker_leases = length ls, qm_avg_completion_latency_secs = 0,
     qm_max_completion_latency_secs = 0, qm_computed_at = now\<rparr>"
  obtain t n l where lat: "foldl latency_step (0, 0, 0) rs = (t, n, l)" by (cases "foldl latency_step (0, 0, 0) rs")
  have spec: "unat t = sum_list (latencies rs)" "unat n = length (latencies rs)" "unat l = foldl max 0 (latencies rs)"
    using latency_fold[OF _ _ lat] assms(1,2) by simp_all
  have "unat (t div n) \<le> unat l"
  proof (cases "unat n = 0")
    case True
    then show ?thesis by (simp add: unat_div)
  next
    case False
    have "unat t \<le> unat n * unat l" using sum_list_le_max[of "latencies rs"] spec by simp
    then have "unat t div unat n \<le> (unat n * unat l) div unat n" by (rule div_le_mono)
    then show ?thesis using False by (simp add: unat_div)
  qed
  then have avg: "t div n \<le> l" by (simp add: word_le_nat_alt)
  have m: "m = (let m2 = foldl (metrics_count_step now) ?m rs\<lparr>qm_max_completion_latency_secs := l\<rparr>
      in if 0 < n then m2\<lparr>qm_avg_completion_latency_secs := t div n\<rparr> else m2)"
    unfolding assms(3) compute_metrics_def lat by (simp add: Let_def)
  show ?thesis
    unfolding m Let_def using avg count_status_partition[of rs]
    by (simp add: metrics_fold_counts metrics_fold_oldest metrics_fold_other)
qed

theorem metrics_sound_witness:
  "qm_queued (compute_metrics [new_record ''a'' ''p'' 4 None 1, (new_record ''b'' ''p'' 4 None 1)\<lparr>tr_status := Done, tr_completed_at := 9\<rparr>] [] 10) +
   qm_assigned (compute_metrics [new_record ''a'' ''p'' 4 None 1, (new_record ''b'' ''p'' 4 None 1)\<lparr>tr_status := Done, tr_completed_at := 9\<rparr>] [] 10) +
   qm_running (compute_metrics [new_record ''a'' ''p'' 4 None 1, (new_record ''b'' ''p'' 4 None 1)\<lparr>tr_status := Done, tr_completed_at := 9\<rparr>] [] 10) +
   qm_done (compute_metrics [new_record ''a'' ''p'' 4 None 1, (new_record ''b'' ''p'' 4 None 1)\<lparr>tr_status := Done, tr_completed_at := 9\<rparr>] [] 10) +
   qm_failed (compute_metrics [new_record ''a'' ''p'' 4 None 1, (new_record ''b'' ''p'' 4 None 1)\<lparr>tr_status := Done, tr_completed_at := 9\<rparr>] [] 10) = 2"
  using metrics_sound[of "[new_record ''a'' ''p'' 4 None 1, (new_record ''b'' ''p'' 4 None 1)\<lparr>tr_status := Done, tr_completed_at := 9\<rparr>]"
      _ "[]" 10, OF _ _ refl]
  by (simp add: latencies_def has_latency_def new_record_def compute_metrics_def)

end
