(* ===== verification/PeerGuard.thy ===== *)
theory PeerGuard
  imports Prelude
begin

text \<open>
  The guard of outbound remote calls, \<open>network/peer_guard.rs\<close>: a limit on the calls in flight per
  protocol and peer, a limit over all of them, and a circuit breaker per protocol and peer. A peer id
  is its string form. A tokio semaphore is its number of free permits; a permit in flight holds one
  slot of its key and one of the node, which dropping it gives back. The states are never removed from
  the table, so a permit refers to its state by the key. The clock readings, milliseconds since the
  guard was made, are arguments; each method is one atomic step.
\<close>

section \<open>Data\<close>

datatype rpc_kind = Raft | SqliteSync | TaskRpc | WasmSync | Kv

datatype peer_rpc_rejection = CircuitOpen (retry_in: u64) | BulkheadFull | GlobalLimitFull

definition PER_PEER_MAX_CONCURRENT_RPCS :: nat where "PER_PEER_MAX_CONCURRENT_RPCS = 32"
definition CIRCUIT_BREAKER_FAILURE_THRESHOLD :: u32 where "CIRCUIT_BREAKER_FAILURE_THRESHOLD = 5"
definition GLOBAL_MAX_CONCURRENT_RPCS_DEFAULT :: u64 where "GLOBAL_MAX_CONCURRENT_RPCS_DEFAULT = 256"
definition CIRCUIT_BREAKER_OPEN_DURATION :: u64 where "CIRCUIT_BREAKER_OPEN_DURATION = 10 * 1000"

text \<open>The argument is the environment variable, when it is set.\<close>

definition global_max_concurrent_rpcs :: "string option \<Rightarrow> u64" where
  "global_max_concurrent_rpcs var =
     (case Option.bind var parse_u64 of
        Some cap \<Rightarrow> if 0 < cap then cap else GLOBAL_MAX_CONCURRENT_RPCS_DEFAULT
      | None \<Rightarrow> GLOBAL_MAX_CONCURRENT_RPCS_DEFAULT)"

definition show_rejection :: "peer_rpc_rejection \<Rightarrow> string" where
  "show_rejection e =
     (case e of
        CircuitOpen t \<Rightarrow> ''circuit open after repeated failures; retry_in_ms='' @ show_u64 t
      | BulkheadFull \<Rightarrow> ''per-peer rpc concurrency limit ('' @ show_nat PER_PEER_MAX_CONCURRENT_RPCS @ '') exhausted''
      | GlobalLimitFull \<Rightarrow> ''node-wide outbound rpc concurrency limit exhausted'')"

type_synonym peer_key = "rpc_kind \<times> string"

record peer_guard_state =
  gs_bulkhead :: nat
  gs_consecutive_failures :: u32
  gs_open_until_ms :: u64

definition peer_guard_state_new :: peer_guard_state where
  "peer_guard_state_new = \<lparr>gs_bulkhead = PER_PEER_MAX_CONCURRENT_RPCS, gs_consecutive_failures = 0, gs_open_until_ms = 0\<rparr>"

record peer_rpc_guard =
  rg_peers :: "peer_key \<Rightarrow> peer_guard_state option"
  rg_global_bulkhead :: nat

definition with_global_limit :: "nat \<Rightarrow> peer_rpc_guard" where
  "with_global_limit limit = \<lparr>rg_peers = Map.empty, rg_global_bulkhead = limit\<rparr>"

record peer_rpc_permit =
  pp_key :: peer_key
  pp_open_at_ms :: u64

section \<open>Operations\<close>

definition state_for :: "peer_rpc_guard \<Rightarrow> peer_key \<Rightarrow> peer_rpc_guard \<times> peer_guard_state" where
  "state_for g k =
     (case rg_peers g k of
        Some st \<Rightarrow> (g, st)
      | None \<Rightarrow> (g\<lparr>rg_peers := (rg_peers g)(k \<mapsto> peer_guard_state_new)\<rparr>, peer_guard_state_new))"

definition upd_state :: "(peer_guard_state \<Rightarrow> peer_guard_state) \<Rightarrow> peer_key \<Rightarrow> peer_rpc_guard \<Rightarrow> peer_rpc_guard" where
  "upd_state f k g = g\<lparr>rg_peers := (rg_peers g)(k := map_option f (rg_peers g k))\<rparr>"

definition release_slot :: "peer_key \<Rightarrow> peer_rpc_guard \<Rightarrow> peer_rpc_guard" where
  "release_slot k = upd_state (\<lambda>st. st\<lparr>gs_bulkhead := gs_bulkhead st + 1\<rparr>) k"

text \<open>\<open>now_ms\<close> is read for the test of an open circuit and \<open>later_ms\<close> when the permit is made. When the
  node-wide limit is exhausted the slot of the peer, already taken, is dropped again.\<close>

definition try_acquire ::
  "peer_rpc_guard \<Rightarrow> rpc_kind \<Rightarrow> string \<Rightarrow> u64 \<Rightarrow> u64 \<Rightarrow> peer_rpc_guard \<times> (peer_rpc_rejection + peer_rpc_permit)" where
  "try_acquire g kind peer now_ms later_ms =
     (let (g1, st) = state_for g (kind, peer) in
      if gs_open_until_ms st \<noteq> 0 \<and> now_ms < gs_open_until_ms st
        then (g1, Inl (CircuitOpen (gs_open_until_ms st - now_ms)))
      else if gs_bulkhead st = 0 then (g1, Inl BulkheadFull)
      else let g2 = upd_state (\<lambda>st. st\<lparr>gs_bulkhead := gs_bulkhead st - 1\<rparr>) (kind, peer) g1 in
        if rg_global_bulkhead g2 = 0 then (release_slot (kind, peer) g2, Inl GlobalLimitFull)
        else (g2\<lparr>rg_global_bulkhead := rg_global_bulkhead g2 - 1\<rparr>,
          Inr \<lparr>pp_key = (kind, peer), pp_open_at_ms = later_ms + CIRCUIT_BREAKER_OPEN_DURATION\<rparr>))"

definition record_success :: "peer_rpc_permit \<Rightarrow> peer_rpc_guard \<Rightarrow> peer_rpc_guard" where
  "record_success p = upd_state (\<lambda>st. st\<lparr>gs_consecutive_failures := 0, gs_open_until_ms := 0\<rparr>) (pp_key p)"

definition fail_state :: "u64 \<Rightarrow> peer_guard_state \<Rightarrow> peer_guard_state" where
  "fail_state open_at st =
     (let half_open = gs_open_until_ms st \<noteq> 0;
          failures = gs_consecutive_failures st + 1 in
      if half_open \<or> CIRCUIT_BREAKER_FAILURE_THRESHOLD \<le> failures
        then st\<lparr>gs_open_until_ms := open_at, gs_consecutive_failures := 0\<rparr>
      else st\<lparr>gs_consecutive_failures := failures\<rparr>)"

definition record_failure :: "peer_rpc_permit \<Rightarrow> peer_rpc_guard \<Rightarrow> peer_rpc_guard" where
  "record_failure p = upd_state (fail_state (pp_open_at_ms p)) (pp_key p)"

definition drop_permit :: "peer_rpc_permit \<Rightarrow> peer_rpc_guard \<Rightarrow> peer_rpc_guard" where
  "drop_permit p g = (release_slot (pp_key p) g)\<lparr>rg_global_bulkhead := rg_global_bulkhead g + 1\<rparr>"

section \<open>Runs of a guard\<close>

text \<open>A run is a history of calls with the permits in flight. The clock stays below the range of its
  counter, so the time a permit carries does not wrap.\<close>

datatype guard_event = Admitted peer_rpc_permit | Rejected peer_key peer_rpc_rejection
  | Succeeded peer_rpc_permit | FailedCall peer_rpc_permit | Dropped peer_rpc_permit

inductive guard_run :: "nat \<Rightarrow> guard_event list \<Rightarrow> peer_rpc_guard \<Rightarrow> peer_rpc_permit list \<Rightarrow> bool" for limit where
  start: "guard_run limit [] (with_global_limit limit) []"
| admit: "guard_run limit es g live \<Longrightarrow> try_acquire g kind peer t u = (g', Inr p) \<Longrightarrow>
    unat u + unat CIRCUIT_BREAKER_OPEN_DURATION < 2 ^ 64 \<Longrightarrow> guard_run limit (es @ [Admitted p]) g' (p # live)"
| reject: "guard_run limit es g live \<Longrightarrow> try_acquire g kind peer t u = (g', Inl e) \<Longrightarrow>
    guard_run limit (es @ [Rejected (kind, peer) e]) g' live"
| succeed: "guard_run limit es g live \<Longrightarrow> p \<in> set live \<Longrightarrow>
    guard_run limit (es @ [Succeeded p]) (record_success p g) live"
| fail: "guard_run limit es g live \<Longrightarrow> p \<in> set live \<Longrightarrow>
    guard_run limit (es @ [FailedCall p]) (record_failure p g) live"
| drop: "guard_run limit es g live \<Longrightarrow> p \<in> set live \<Longrightarrow>
    guard_run limit (es @ [Dropped p]) (drop_permit p g) (remove1 p live)"

definition in_flight :: "peer_key \<Rightarrow> peer_rpc_permit list \<Rightarrow> nat" where
  "in_flight k live = length (filter (\<lambda>p. pp_key p = k) live)"

text \<open>The state of a key that has no entry yet is the new one.\<close>

definition key_state :: "peer_rpc_guard \<Rightarrow> peer_key \<Rightarrow> peer_guard_state" where
  "key_state g k = (case rg_peers g k of Some st \<Rightarrow> st | None \<Rightarrow> peer_guard_state_new)"

definition guard_keys :: "peer_rpc_guard \<Rightarrow> peer_key set" where
  "guard_keys g = dom (rg_peers g)"

lemma key_state_limit [simp]: "key_state (with_global_limit n) k = peer_guard_state_new"
  by (simp add: key_state_def with_global_limit_def)

lemma key_state_upd:
  "k \<in> guard_keys g \<Longrightarrow> key_state (upd_state f k g) j = (if j = k then f (key_state g k) else key_state g j)"
  by (auto simp: key_state_def upd_state_def guard_keys_def)

lemma upd_state_frame [simp]:
  "rg_global_bulkhead (upd_state f k g) = rg_global_bulkhead g" "guard_keys (upd_state f k g) = guard_keys g"
  by (auto simp: upd_state_def guard_keys_def)

lemma key_state_global [simp]:
  "key_state (g\<lparr>rg_global_bulkhead := n\<rparr>) = key_state g" "guard_keys (g\<lparr>rg_global_bulkhead := n\<rparr>) = guard_keys g"
  by (simp_all add: key_state_def guard_keys_def fun_eq_iff)

lemma state_for_spec:
  assumes "state_for g k = (g', st)"
  shows "st = key_state g k" "key_state g' = key_state g" "rg_global_bulkhead g' = rg_global_bulkhead g"
    "guard_keys g' = insert k (guard_keys g)"
  using assms by (auto simp: state_for_def key_state_def guard_keys_def fun_eq_iff split: option.splits if_splits)

text \<open>What an attempt does to the states, seen through \<^const>\<open>key_state\<close>.\<close>

lemma try_acquire_spec:
  "snd (try_acquire g kind peer t u) =
     (let st = key_state g (kind, peer) in
      if gs_open_until_ms st \<noteq> 0 \<and> t < gs_open_until_ms st then Inl (CircuitOpen (gs_open_until_ms st - t))
      else if gs_bulkhead st = 0 then Inl BulkheadFull
      else if rg_global_bulkhead g = 0 then Inl GlobalLimitFull
      else Inr \<lparr>pp_key = (kind, peer), pp_open_at_ms = u + CIRCUIT_BREAKER_OPEN_DURATION\<rparr>)"
proof -
  obtain g1 st where st: "state_for g (kind, peer) = (g1, st)" by fastforce
  show ?thesis using state_for_spec[OF st] by (simp add: try_acquire_def st Let_def)
qed

lemma try_acquire_admit:
  assumes "try_acquire g kind peer t u = (g', Inr p)"
  shows "p = \<lparr>pp_key = (kind, peer), pp_open_at_ms = u + CIRCUIT_BREAKER_OPEN_DURATION\<rparr>"
    "key_state g' = (key_state g)((kind, peer) := key_state g (kind, peer)\<lparr>gs_bulkhead := gs_bulkhead (key_state g (kind, peer)) - 1\<rparr>)"
    "0 < gs_bulkhead (key_state g (kind, peer))" "rg_global_bulkhead g = rg_global_bulkhead g' + 1"
    "guard_keys g' = insert (kind, peer) (guard_keys g)"
proof -
  obtain g1 st where st: "state_for g (kind, peer) = (g1, st)" by fastforce
  note sp = state_for_spec[OF st]
  have some: "(kind, peer) \<in> guard_keys g1" using sp(4) by simp
  note unf = assms[unfolded try_acquire_def st Let_def]
  show "p = \<lparr>pp_key = (kind, peer), pp_open_at_ms = u + CIRCUIT_BREAKER_OPEN_DURATION\<rparr>"
    "0 < gs_bulkhead (key_state g (kind, peer))" "rg_global_bulkhead g = rg_global_bulkhead g' + 1"
    "guard_keys g' = insert (kind, peer) (guard_keys g)"
    using unf sp by (auto split: if_splits)
  show "key_state g' = (key_state g)((kind, peer) := key_state g (kind, peer)\<lparr>gs_bulkhead := gs_bulkhead (key_state g (kind, peer)) - 1\<rparr>)"
    using unf sp key_state_upd[OF some] by (auto simp: fun_eq_iff split: if_splits)
qed

lemma try_acquire_reject:
  assumes "try_acquire g kind peer t u = (g', Inl e)"
  shows "key_state g' = key_state g" "rg_global_bulkhead g' = rg_global_bulkhead g"
    "guard_keys g' = insert (kind, peer) (guard_keys g)"
proof -
  obtain g1 st where st: "state_for g (kind, peer) = (g1, st)" by fastforce
  note sp = state_for_spec[OF st]
  let ?take = "\<lambda>st. st\<lparr>gs_bulkhead := gs_bulkhead st - 1\<rparr>"
  let ?k = "(kind, peer)"
  have some: "?k \<in> guard_keys g1" "?k \<in> guard_keys (upd_state ?take ?k g1)"
    using sp(4) by simp_all
  note unf = assms[unfolded try_acquire_def st Let_def]
  show "rg_global_bulkhead g' = rg_global_bulkhead g" "guard_keys g' = insert ?k (guard_keys g)"
    using unf sp by (auto simp: release_slot_def split: if_splits)
  have "key_state (release_slot ?k (upd_state ?take ?k g1)) j = key_state g1 j" if "gs_bulkhead (key_state g1 ?k) \<noteq> 0" for j
    using that unfolding release_slot_def key_state_upd[OF some(2)] key_state_upd[OF some(1)] by simp
  then show "key_state g' = key_state g"
    using unf sp by (auto simp: fun_eq_iff split: if_splits)
qed

section \<open>Capacity\<close>

definition guard_ok :: "nat \<Rightarrow> peer_rpc_guard \<Rightarrow> peer_rpc_permit list \<Rightarrow> bool" where
  "guard_ok limit g live \<longleftrightarrow> rg_global_bulkhead g + length live = limit \<and> pp_key ` set live \<subseteq> guard_keys g \<and>
     (\<forall>k. gs_bulkhead (key_state g k) + in_flight k live = PER_PEER_MAX_CONCURRENT_RPCS) \<and>
     (\<forall>p \<in> set live. pp_open_at_ms p \<noteq> 0)"

lemma in_flight_Cons [simp]: "in_flight k (p # live) = (if pp_key p = k then 1 else 0) + in_flight k live"
  by (simp add: in_flight_def)

lemma in_flight_remove1:
  assumes "p \<in> set live"
  shows "in_flight k live = (if pp_key p = k then 1 else 0) + in_flight k (remove1 p live)"
  using assms by (induction live) auto

lemma open_time_nonzero: "unat u + unat CIRCUIT_BREAKER_OPEN_DURATION < 2 ^ 64 \<Longrightarrow> u + CIRCUIT_BREAKER_OPEN_DURATION \<noteq> 0"
  by (auto simp: word_unat_eq_iff unat_word_ariths CIRCUIT_BREAKER_OPEN_DURATION_def)

lemma fail_state_bulkhead [simp]: "gs_bulkhead (fail_state t st) = gs_bulkhead st"
  by (simp add: fail_state_def Let_def)

lemma guard_run_ok: "guard_run limit es g live \<Longrightarrow> guard_ok limit g live"
proof (induction rule: guard_run.induct)
  case start
  then show ?case by (simp add: guard_ok_def with_global_limit_def[of limit] in_flight_def peer_guard_state_new_def key_state_def)
next
  case (admit es g live kind peer t u g' p)
  note sp = try_acquire_admit[OF admit(2)]
  show ?case using admit.IH sp(3,4) open_time_nonzero[OF admit(3)]
    unfolding guard_ok_def sp(2,5) by (auto simp: sp(1) PER_PEER_MAX_CONCURRENT_RPCS_def)
next
  case (reject es g live kind peer t u g' e)
  note sp = try_acquire_reject[OF reject(2)]
  show ?case using reject.IH unfolding guard_ok_def sp by auto
next
  case (succeed es g live p)
  then have k: "pp_key p \<in> guard_keys g" by (auto simp: guard_ok_def)
  show ?case using succeed.IH unfolding guard_ok_def record_success_def key_state_upd[OF k] by (simp del: split_paired_All)
next
  case (fail es g live p)
  then have k: "pp_key p \<in> guard_keys g" by (auto simp: guard_ok_def)
  show ?case using fail.IH unfolding guard_ok_def record_failure_def key_state_upd[OF k] by (simp del: split_paired_All)
next
  case (drop es g live p)
  then have k: "pp_key p \<in> guard_keys g" by (auto simp: guard_ok_def)
  have "length (remove1 p live) = length live - 1" "0 < length live" "set (remove1 p live) \<subseteq> set live"
    "pp_key ` set (remove1 p live) \<subseteq> guard_keys g"
    using drop.hyps drop.IH set_remove1_subset[of p live]
    by (auto simp: length_remove1 guard_ok_def simp del: split_paired_All intro: length_pos_if_in_set)
  moreover have "gs_bulkhead (key_state (drop_permit p g) k) + in_flight k (remove1 p live) =
      gs_bulkhead (key_state g k) + in_flight k live" for k
    using in_flight_remove1[OF drop.hyps(2), of k] by (auto simp: drop_permit_def release_slot_def key_state_upd[OF k])
  ultimately show ?case using drop.IH
    by (auto simp: guard_ok_def drop_permit_def release_slot_def simp del: split_paired_All)
qed

section \<open>The circuit\<close>

text \<open>The circuit of a key is closed with a count of failures or opened until a time. Its reference is a
  function of the outcomes reported for the key, oldest first: a success, or a failure with the time
  its permit carries.\<close>

datatype circuit = Closed nat | Opened u64

definition circuit_of :: "peer_guard_state \<Rightarrow> circuit" where
  "circuit_of st = (if gs_open_until_ms st = 0 then Closed (unat (gs_consecutive_failures st)) else Opened (gs_open_until_ms st))"

fun outcome_of :: "peer_key \<Rightarrow> guard_event \<Rightarrow> u64 option list" where
  "outcome_of k (Succeeded p) = (if pp_key p = k then [None] else [])"
| "outcome_of k (FailedCall p) = (if pp_key p = k then [Some (pp_open_at_ms p)] else [])"
| "outcome_of k _ = []"

definition outcomes :: "peer_key \<Rightarrow> guard_event list \<Rightarrow> u64 option list" where
  "outcomes k es = concat (map (outcome_of k) es)"

definition failure_streak :: "u64 option list \<Rightarrow> u64 option list" where
  "failure_streak os = takeWhile (\<lambda>x. x \<noteq> None) (rev os)"

definition circuit_after :: "u64 option list \<Rightarrow> circuit" where
  "circuit_after os = (let fs = failure_streak os in
     if length fs < unat CIRCUIT_BREAKER_FAILURE_THRESHOLD then Closed (length fs) else Opened (the (hd fs)))"

lemma outcomes_simps [simp]: "outcomes k [] = []" "outcomes k (es @ [e]) = outcomes k es @ outcome_of k e"
  by (simp_all add: outcomes_def)

lemma circuit_after_success: "circuit_after (os @ [None]) = Closed 0"
  by (simp add: circuit_after_def failure_streak_def CIRCUIT_BREAKER_FAILURE_THRESHOLD_def)

lemma circuit_after_failure:
  assumes "circuit_of st = circuit_after os" "t \<noteq> 0"
  shows "circuit_of (fail_state t st) = circuit_after (os @ [Some t])"
proof -
  have fs: "failure_streak (os @ [Some t]) = Some t # failure_streak os" by (simp add: failure_streak_def)
  show ?thesis
  proof (cases "gs_open_until_ms st = 0")
    case True
    then have n: "unat (gs_consecutive_failures st) = length (failure_streak os)" "length (failure_streak os) < 5"
      using assms(1) by (auto simp: circuit_of_def circuit_after_def Let_def CIRCUIT_BREAKER_FAILURE_THRESHOLD_def split: if_splits)
    then have "unat (gs_consecutive_failures st + 1) = length (failure_streak os) + 1"
      by (simp add: unat_word_ariths)
    then show ?thesis using True assms(2) unfolding circuit_after_def Let_def fs
      by (simp add: circuit_of_def fail_state_def Let_def CIRCUIT_BREAKER_FAILURE_THRESHOLD_def word_le_nat_alt not_le)
  next
    case False
    then have "5 \<le> length (failure_streak os)"
      using assms(1) by (auto simp: circuit_of_def circuit_after_def Let_def CIRCUIT_BREAKER_FAILURE_THRESHOLD_def split: if_splits)
    then show ?thesis using False assms(2) unfolding circuit_after_def Let_def fs
      by (simp add: circuit_of_def fail_state_def Let_def CIRCUIT_BREAKER_FAILURE_THRESHOLD_def)
  qed
qed

lemma circuit_of_bulkhead [simp]: "circuit_of (st\<lparr>gs_bulkhead := n\<rparr>) = circuit_of st"
  by (simp add: circuit_of_def)

lemma guard_run_circuit: "guard_run limit es g live \<Longrightarrow> circuit_of (key_state g k) = circuit_after (outcomes k es)"
proof (induction rule: guard_run.induct)
  case start
  then show ?case
    by (simp add: circuit_of_def circuit_after_def failure_streak_def peer_guard_state_new_def CIRCUIT_BREAKER_FAILURE_THRESHOLD_def)
next
  case (admit es g live kind peer t u g' p)
  then show ?case using try_acquire_admit(2)[OF admit(2)] by auto
next
  case (reject es g live kind peer t u g' e)
  then show ?case using try_acquire_reject(1)[OF reject(2)] by simp
next
  case (succeed es g live p)
  then have k: "pp_key p \<in> guard_keys g" using guard_run_ok by (fastforce simp: guard_ok_def)
  show ?case using succeed.IH circuit_after_success by (simp add: record_success_def key_state_upd[OF k] circuit_of_def[of "_\<lparr>gs_consecutive_failures := _, gs_open_until_ms := _\<rparr>"])
next
  case (fail es g live p)
  then have k: "pp_key p \<in> guard_keys g" "pp_open_at_ms p \<noteq> 0" using guard_run_ok by (fastforce simp: guard_ok_def)+
  show ?case using fail.IH circuit_after_failure[OF fail.IH k(2)] by (auto simp: record_failure_def key_state_upd[OF k(1)])
next
  case (drop es g live p)
  then have k: "pp_key p \<in> guard_keys g" using guard_run_ok by (fastforce simp: guard_ok_def)
  show ?case using drop.IH by (auto simp: drop_permit_def release_slot_def key_state_upd[OF k])
qed

end
