(* ===== verification/SnapshotSync.thy ===== *)
theory SnapshotSync
  imports LogStore Snapshots
begin

unbundle bit_operations_syntax

text \<open>
  The gossip transfer of raft snapshots, \<open>network/openraft_sync.rs\<close>: a snapshot payload is cut into
  parts, the parts a node holds are described by a metadata block with a bitmap, a node answers the
  metadata of another with parts it lacks, and received parts are merged until the snapshot is
  complete. Buffers are lists of bytes; a Rust string is its bytes, so \<open>as_bytes\<close> and
  \<open>from_utf8\<close> convert between the two. The serialisation of the payload (\<open>sonic_rs\<close>) is
  \<open>sync_api\<close>; the publication id (\<open>uuid\<close>) is an argument.
\<close>

section \<open>Bytes\<close>

definition as_bytes :: "string \<Rightarrow> u8 list" where
  "as_bytes s = map (\<lambda>c. word_of_nat (of_char c)) s"

definition from_utf8 :: "u8 list \<Rightarrow> string option" where
  "from_utf8 bs = (let s = map (\<lambda>b. char_of (unat b)) bs in if utf8_ok s then Some s else None)"

definition u16_to_be :: "u16 \<Rightarrow> u8 list" where
  "u16_to_be x = [ucast (drop_bit 8 x), ucast x]"

definition u16_from_be :: "u8 \<Rightarrow> u8 \<Rightarrow> u16" where
  "u16_from_be a b = word_of_nat (be_val [a, b])"

text \<open>\<open>slice::chunks\<close>.\<close>

function chunks :: "nat \<Rightarrow> 'a list \<Rightarrow> 'a list list" where
  "chunks n xs = (if xs = [] \<or> n = 0 then [] else take n xs # chunks n (drop n xs))"
  by auto
termination by (relation "measure (length \<circ> snd)") auto

declare chunks.simps [simp del]

definition div_ceil :: "nat \<Rightarrow> nat \<Rightarrow> nat" where
  "div_ceil a b = a div b + (if a mod b = 0 then 0 else 1)"

section \<open>Data\<close>

definition PART_SIZE :: nat where "PART_SIZE = 8 * 1024"
definition MAX_PARTS_PER_MESSAGE :: nat where "MAX_PARTS_PER_MESSAGE = 4"
definition GROUP_ID_LEN :: nat where "GROUP_ID_LEN = 16"
definition MAX_PARTS :: nat where "MAX_PARTS = 65535"
definition METADATA_MAGIC :: "u8 list" where "METADATA_MAGIC = as_bytes ''ORS1''"

datatype partial_error = InvalidFormat | WrongGroup "u8 list" | OutOfRange

record snapshot_metadata =
  md_group_id :: string
  md_snapshot_id :: string
  md_snapshot_size :: u64
  md_total_parts :: u16
  md_bitmap :: "u8 list"

record ('i, 'sm, 'v) snapshot_payload =
  pl_group_id :: string
  pl_vote :: 'v
  pl_meta :: "('i, 'sm) snapshot_meta"
  pl_data :: "u8 list"

type_synonym parts = "u8 list option list"

record snapshot_partial =
  sp_group_id :: "u8 list"
  sp_raft_group_id :: string
  sp_snapshot_id :: string
  sp_snapshot_size :: u64
  sp_parts :: parts

record ('i, 'sm, 'v) sync_api =
  ser_payload :: "('i, 'sm, 'v) snapshot_payload \<Rightarrow> u8 list result"
  de_payload :: "u8 list \<Rightarrow> ('i, 'sm, 'v) snapshot_payload result"

section \<open>Partials\<close>

definition from_payload ::
  "('i, 'sm, 'v) sync_api \<Rightarrow> u8 list \<Rightarrow> string \<Rightarrow> ('i, 'sm, 'v) snapshot_payload \<Rightarrow> snapshot_partial option result" where
  "from_payload a uuid uuid_text payload =
     rbind (ser_payload a payload) (\<lambda>bytes.
       let total_parts = max (div_ceil (length bytes) PART_SIZE) 1 in
       if MAX_PARTS < total_parts
         then Inl (''snapshot needs '' @ show_nat total_parts @ '' parts; max supported is '' @ show_nat MAX_PARTS)
       else let parts = (if bytes = [] then [Some []] else map Some (chunks PART_SIZE bytes)) in
         Inr (Some \<lparr>sp_group_id = uuid, sp_raft_group_id = pl_group_id payload, sp_snapshot_id = uuid_text,
           sp_snapshot_size = word_of_nat (length bytes), sp_parts = parts\<rparr>))"

definition empty_partial :: "u8 list \<Rightarrow> snapshot_metadata \<Rightarrow> snapshot_partial" where
  "empty_partial group_id md = \<lparr>sp_group_id = group_id, sp_raft_group_id = md_group_id md,
     sp_snapshot_id = md_snapshot_id md, sp_snapshot_size = md_snapshot_size md,
     sp_parts = replicate (unat (md_total_parts md)) None\<rparr>"

definition total_parts :: "snapshot_partial \<Rightarrow> u16" where
  "total_parts p = word_of_nat (length (sp_parts p))"

definition present_parts :: "snapshot_partial \<Rightarrow> nat" where
  "present_parts p = length (filter (\<lambda>x. x \<noteq> None) (sp_parts p))"

definition is_complete :: "snapshot_partial \<Rightarrow> bool" where
  "is_complete p = list_all (\<lambda>x. x \<noteq> None) (sp_parts p)"

definition has_part :: "u8 list \<Rightarrow> nat \<Rightarrow> bool" where
  "has_part bitmap index =
     (if index div 8 < length bitmap then (bitmap ! (index div 8)) AND push_bit (index mod 8) 1 \<noteq> 0 else False)"

definition bitmap_len :: "snapshot_partial \<Rightarrow> nat" where
  "bitmap_len p = div_ceil (length (sp_parts p)) 8"

definition set_bit_at :: "nat \<Rightarrow> u8 list \<Rightarrow> u8 list" where
  "set_bit_at index bm = bm[index div 8 := (bm ! (index div 8)) OR push_bit (index mod 8) 1]"

definition bitmap :: "snapshot_partial \<Rightarrow> u8 list" where
  "bitmap p = foldl (\<lambda>bm (index, part). if part \<noteq> None then set_bit_at index bm else bm)
     (replicate (bitmap_len p) 0) (enumerate 0 (sp_parts p))"

section \<open>Metadata blocks\<close>

definition metadata_bytes :: "snapshot_partial \<Rightarrow> u8 list" where
  "metadata_bytes p =
     (let group_id = as_bytes (sp_raft_group_id p); snapshot_id = as_bytes (sp_snapshot_id p) in
      METADATA_MAGIC @ u16_to_be (total_parts p) @ id_to_bin (sp_snapshot_size p) @
      u16_to_be (word_of_nat (length group_id)) @ group_id @
      u16_to_be (word_of_nat (length snapshot_id)) @ snapshot_id @ bitmap p)"

definition metadata_header_len :: "u8 list \<Rightarrow> partial_error + nat" where
  "metadata_header_len md =
     (if length md < 18 \<or> take 4 md \<noteq> METADATA_MAGIC then Inl InvalidFormat
      else let group_id_len = unat (u16_from_be (md ! 14) (md ! 15));
               snapshot_len_pos = 16 + group_id_len in
        if length md < snapshot_len_pos + 2 then Inl InvalidFormat
        else let snapshot_id_len = unat (u16_from_be (md ! snapshot_len_pos) (md ! (snapshot_len_pos + 1)));
                 header_len = snapshot_len_pos + 2 + snapshot_id_len in
          if length md < header_len then Inl InvalidFormat else Inr header_len)"

definition utf8_field :: "u8 list \<Rightarrow> partial_error + string" where
  "utf8_field bs = (case from_utf8 bs of None \<Rightarrow> Inl InvalidFormat | Some s \<Rightarrow> Inr s)"

definition parse_metadata :: "u8 list \<Rightarrow> partial_error + snapshot_metadata" where
  "parse_metadata md =
     rbind (metadata_header_len md) (\<lambda>header_len.
     let total = u16_from_be (md ! 4) (md ! 5) in
     if total = 0 then Inl InvalidFormat
     else let size = word_of_nat (be_val (take 8 (drop 6 md)));
              group_id_len = unat (u16_from_be (md ! 14) (md ! 15)) in
       rbind (utf8_field (take group_id_len (drop 16 md))) (\<lambda>group_id.
       rbind (utf8_field (take (header_len - (18 + group_id_len)) (drop (18 + group_id_len) md))) (\<lambda>snapshot_id.
         if group_id = [] \<or> snapshot_id = [] then Inl InvalidFormat
         else if length md \<noteq> header_len + div_ceil (unat total) 8 then Inl InvalidFormat
         else Inr \<lparr>md_group_id = group_id, md_snapshot_id = snapshot_id, md_snapshot_size = size,
           md_total_parts = total, md_bitmap = drop header_len md\<rparr>)))"

definition metadata_matches :: "snapshot_partial \<Rightarrow> snapshot_metadata \<Rightarrow> bool" where
  "metadata_matches p md \<longleftrightarrow> sp_raft_group_id p = md_group_id md \<and> sp_snapshot_id p = md_snapshot_id md \<and>
     sp_snapshot_size p = md_snapshot_size md \<and> total_parts p = md_total_parts md"

definition merge_metadata :: "u8 list \<Rightarrow> u8 list \<Rightarrow> partial_error + (u8 list \<times> bool)" where
  "merge_metadata left right =
     rbind (metadata_header_len left) (\<lambda>lh. rbind (metadata_header_len right) (\<lambda>rh.
       if lh \<noteq> rh \<or> length left \<noteq> length right \<or> take lh left \<noteq> take rh right then Inl InvalidFormat
       else let merged = map2 (OR) (drop lh left) (drop rh right) in
         Inr (take lh left @ merged, merged \<noteq> drop lh left)))"

section \<open>Bodies\<close>

text \<open>The bytes of the body between the offset of the loop and the trailer are its argument. Parts merged
  before an error stay merged.\<close>

fun merge_loop :: "parts \<Rightarrow> bool \<Rightarrow> u8 list \<Rightarrow> parts \<times> (partial_error + bool)" where
  "merge_loop parts updated [] = (parts, Inr updated)"
| "merge_loop parts updated (a # b # c # d # rest) =
     (let index = unat (u16_from_be a b); len = unat (u16_from_be c d) in
      if length parts \<le> index \<or> length rest < len then (parts, Inl OutOfRange)
      else if parts ! index = None then merge_loop (parts[index := Some (take len rest)]) True (drop len rest)
      else merge_loop parts updated (drop len rest))"
| "merge_loop parts updated _ = (parts, Inl InvalidFormat)"

definition merge_body :: "snapshot_partial \<Rightarrow> u8 list \<Rightarrow> snapshot_partial \<times> (partial_error + bool)" where
  "merge_body p body =
     (if length body < GROUP_ID_LEN + 2 then (p, Inl InvalidFormat)
      else let trailer_start = length body - GROUP_ID_LEN - 2;
               total = u16_from_be (body ! trailer_start) (body ! (trailer_start + 1));
               received_group_id = drop (trailer_start + 2) body in
        if total \<noteq> total_parts p then (p, Inl InvalidFormat)
        else if received_group_id \<noteq> sp_group_id p then (p, Inl (WrongGroup received_group_id))
        else let (parts, res) = merge_loop (sp_parts p) False (take trailer_start body) in
          (p\<lparr>sp_parts := parts\<rparr>, res))"

fun encode_loop :: "u8 list \<Rightarrow> nat \<Rightarrow> (nat \<times> u8 list option) list \<Rightarrow> u8 list" where
  "encode_loop requested sent [] = []"
| "encode_loop requested sent ((index, part) # ps) =
     (if has_part requested index then encode_loop requested sent ps
      else case part of None \<Rightarrow> encode_loop requested sent ps
        | Some bytes \<Rightarrow>
            (let item = u16_to_be (word_of_nat index) @ u16_to_be (word_of_nat (length bytes)) @ bytes in
             if MAX_PARTS_PER_MESSAGE \<le> sent + 1 then item
             else item @ encode_loop requested (sent + 1) ps))"

definition encode_parts_for :: "snapshot_partial \<Rightarrow> u8 list option \<Rightarrow> partial_error + u8 list option" where
  "encode_parts_for p peer_metadata =
     rbind (case peer_metadata of
        Some md \<Rightarrow> rbind (parse_metadata md) (\<lambda>m. if \<not> metadata_matches p m then Inl InvalidFormat else Inr (md_bitmap m))
      | None \<Rightarrow> Inr (replicate (bitmap_len p) 0)) (\<lambda>requested.
     let body = encode_loop requested 0 (enumerate 0 (sp_parts p)) in
     if body = [] then Inr None
     else Inr (Some (body @ u16_to_be (total_parts p) @ sp_group_id p)))"

text \<open>The answer to the metadata of a peer: whether it has parts this node needs, and the body to send
  with this node's own metadata.\<close>

definition remote_useful :: "snapshot_partial \<Rightarrow> u8 list \<Rightarrow> bool" where
  "remote_useful p bm = list_ex (\<lambda>(index, part). part = None \<and> has_part bm index) (enumerate 0 (sp_parts p))"

definition partial_action_from_metadata ::
  "snapshot_partial \<Rightarrow> u8 list option \<Rightarrow> partial_error + (bool \<times> (u8 list \<times> u8 list) option)" where
  "partial_action_from_metadata p metadata =
     rbind (case metadata of
        Some md \<Rightarrow> rbind (parse_metadata md) (\<lambda>m. if \<not> metadata_matches p m then Inl InvalidFormat
          else Inr (remote_useful p (md_bitmap m)))
      | None \<Rightarrow> Inr False) (\<lambda>need.
     rbind (encode_parts_for p metadata) (\<lambda>send. Inr (need, map_option (\<lambda>body. (body, metadata_bytes p)) send)))"

fun update_loop :: "nat \<Rightarrow> nat \<Rightarrow> u8 list \<Rightarrow> u8 list \<Rightarrow> partial_error + u8 list" where
  "update_loop n_parts header_len update [] = Inr update"
| "update_loop n_parts header_len update (a # b # c # d # rest) =
     (let index = unat (u16_from_be a b); len = unat (u16_from_be c d) in
      if n_parts \<le> index \<or> length rest < len then Inl OutOfRange
      else update_loop n_parts header_len
        (update[header_len + index div 8 := (update ! (header_len + index div 8)) OR push_bit (index mod 8) 1])
        (drop len rest))"
| "update_loop n_parts header_len update _ = Inl InvalidFormat"

definition update_from_data :: "u8 list \<Rightarrow> u8 list \<Rightarrow> partial_error + u8 list" where
  "update_from_data md data =
     (let trailer_len = 2 + GROUP_ID_LEN in
      if length data < trailer_len then Inl InvalidFormat
      else let payload_end = length data - trailer_len in
        rbind (parse_metadata md) (\<lambda>m.
        if u16_from_be (data ! payload_end) (data ! (payload_end + 1)) \<noteq> md_total_parts m then Inl InvalidFormat
        else rbind (metadata_header_len md) (\<lambda>header_len.
          rbind (update_loop (unat (md_total_parts m)) header_len
              (take header_len md @ replicate (length md - header_len) 0) (take payload_end data)) (\<lambda>update.
            rbind (merge_metadata md update) (\<lambda>(md', _). Inr md')))))"

section \<open>Assembling and installing\<close>

fun collect_parts :: "parts \<Rightarrow> u8 list result" where
  "collect_parts [] = Inr []"
| "collect_parts (None # ps) = Inl ''snapshot is missing parts''"
| "collect_parts (Some x # ps) = rbind (collect_parts ps) (\<lambda>r. Inr (x @ r))"

definition to_payload :: "('i, 'sm, 'v) sync_api \<Rightarrow> snapshot_partial \<Rightarrow> ('i, 'sm, 'v) snapshot_payload result" where
  "to_payload a p =
     rbind (collect_parts (sp_parts p)) (\<lambda>bytes.
       if (word_of_nat (length bytes) :: u64) \<noteq> sp_snapshot_size p
         then Inl (''assembled snapshot size mismatch: expected '' @ show_u64 (sp_snapshot_size p) @ '', got '' @ show_nat (length bytes))
       else de_payload a bytes)"

text \<open>What the local raft group reports, and what installing does to it, come from openraft: the state of
  the group when it is known (\<open>is_leader\<close>, \<open>last_applied\<close>), and the full snapshot call.\<close>

definition install_partial ::
  "('i::linorder, 'sm, 'v) sync_api \<Rightarrow> (string \<Rightarrow> (bool \<times> 'i option) option) \<Rightarrow>
   ('v \<Rightarrow> ('i, 'sm) snapshot_meta \<Rightarrow> u8 list \<Rightarrow> 'r) \<Rightarrow> snapshot_partial \<Rightarrow> 'r option result" where
  "install_partial a registry install_full_snapshot p =
     rbind (to_payload a p) (\<lambda>payload.
       case registry (pl_group_id payload) of
         None \<Rightarrow> Inl (''unknown group_id='' @ pl_group_id payload)
       | Some (is_leader, last_applied) \<Rightarrow>
           if is_leader then Inr None
           else if last_log_id (pl_meta payload) \<le> last_applied then Inr None
           else Inr (Some (install_full_snapshot (pl_vote payload) (pl_meta payload) (pl_data payload))))"

definition snapshot_covers_target :: "('i::linorder, 'sm) snapshot_meta \<Rightarrow> 'i option \<Rightarrow> bool" where
  "snapshot_covers_target meta target =
     (case target of
        Some t \<Rightarrow> (case last_log_id meta of Some l \<Rightarrow> t \<le> l | None \<Rightarrow> False)
      | None \<Rightarrow> True)"

section \<open>The sync state of a node\<close>

record announcement =
  an_group_id :: "u8 list"
  an_metadata :: "u8 list"

definition available_announcement :: "snapshot_partial \<Rightarrow> announcement" where
  "available_announcement p = \<lparr>an_group_id = sp_group_id p, an_metadata = metadata_bytes p\<rparr>"

record sync_state =
  sy_partials :: "u8 list \<Rightarrow> snapshot_partial option"
  sy_installed :: "u8 list set"

definition insert_local :: "snapshot_partial \<Rightarrow> sync_state \<Rightarrow> sync_state" where
  "insert_local p st = st\<lparr>sy_partials := (sy_partials st)(sp_group_id p \<mapsto> p)\<rparr>"

definition partial_entry :: "sync_state \<Rightarrow> u8 list \<Rightarrow> snapshot_metadata \<Rightarrow> snapshot_partial" where
  "partial_entry st group_id md = (case sy_partials st group_id of Some p \<Rightarrow> p | None \<Rightarrow> empty_partial group_id md)"

definition handle_available_announcement ::
  "announcement \<Rightarrow> sync_state \<Rightarrow> sync_state \<times> (partial_error + snapshot_partial option)" where
  "handle_available_announcement ann st =
     (if an_group_id ann \<in> sy_installed st then (st, Inr None)
      else case parse_metadata (an_metadata ann) of Inl e \<Rightarrow> (st, Inl e)
        | Inr md \<Rightarrow>
            let p = partial_entry st (an_group_id ann) md;
                st1 = st\<lparr>sy_partials := (sy_partials st)(an_group_id ann \<mapsto> p)\<rparr> in
            if \<not> metadata_matches p md then (st1, Inl InvalidFormat)
            else if is_complete p then (st1, Inr None)
            else (st1, Inr (Some p)))"

record sync_update =
  su_partial :: snapshot_partial
  su_should_republish :: bool
  su_first_complete :: bool

definition handle_partial ::
  "u8 list \<Rightarrow> u8 list \<Rightarrow> u8 list option \<Rightarrow> sync_state \<Rightarrow> sync_state \<times> (partial_error + sync_update)" where
  "handle_partial group_id metadata message st =
     (case parse_metadata metadata of Inl e \<Rightarrow> (st, Inl e)
      | Inr md \<Rightarrow>
          let p = partial_entry st group_id md;
              st1 = st\<lparr>sy_partials := (sy_partials st)(group_id \<mapsto> p)\<rparr> in
          if \<not> metadata_matches p md then (st1, Inl InvalidFormat)
          else let (p', res) = (case message of None \<Rightarrow> (p, Inr False) | Some body \<Rightarrow> merge_body p body);
                   st2 = st1\<lparr>sy_partials := (sy_partials st1)(group_id \<mapsto> p')\<rparr> in
            case res of Inl e \<Rightarrow> (st2, Inl e)
            | Inr updated \<Rightarrow>
                let remote_has_useful_data = remote_useful p' (md_bitmap md);
                    complete = is_complete p';
                    first_complete = (complete \<and> group_id \<notin> sy_installed st2);
                    st3 = (if complete then st2\<lparr>sy_installed := insert group_id (sy_installed st2)\<rparr> else st2) in
                (st3, Inr \<lparr>su_partial = p', su_should_republish = (updated \<or> remote_has_useful_data),
                   su_first_complete = first_complete\<rparr>))"

section \<open>Bytes and bits\<close>

lemma length_u16_to_be [simp]: "length (u16_to_be x) = 2"
  by (simp add: u16_to_be_def)

lemma u16_from_to_be: "u16_from_be (u16_to_be x ! 0) (u16_to_be x ! 1) = x"
proof -
  have "unat x < 65536" using unat_lt_2p[of x] by simp
  moreover have "unat (ucast (drop_bit 8 x) :: u8) = unat x div 256 mod 256" "unat (ucast x :: u8) = unat x mod 256"
    by (simp_all add: unsigned_ucast_eq take_bit_eq_mod unat_drop_bit_eq) (simp add: drop_bit_eq_div)
  ultimately have "be_val (u16_to_be x) = unat x"
    by (simp add: be_val_def u16_to_be_def)
  then show ?thesis by (simp add: u16_from_be_def u16_to_be_def)
qed

lemma u16_to_be_Cons: "u16_to_be x = [u16_to_be x ! 0, u16_to_be x ! 1]"
  by (simp add: u16_to_be_def)

lemma unat_u16 [simp]: "n < 65536 \<Longrightarrow> unat (word_of_nat n :: u16) = n"
  by (simp add: unsigned_of_nat take_bit_eq_mod)

lemma length_as_bytes [simp]: "length (as_bytes s) = length s"
  by (simp add: as_bytes_def)

lemma from_utf8_as_bytes [simp]: "utf8_ok s \<Longrightarrow> from_utf8 (as_bytes s) = Some s"
proof -
  have "unat (word_of_nat (of_char c) :: u8) = of_char c" for c
    by (simp add: unsigned_of_nat take_bit_eq_mod)
  then have "map (\<lambda>b. char_of (unat b)) (as_bytes s) = s" by (simp add: as_bytes_def o_def)
  then show "utf8_ok s \<Longrightarrow> ?thesis" by (simp add: from_utf8_def)
qed

lemma has_part_bit: "has_part bm i \<longleftrightarrow> i div 8 < length bm \<and> bit (bm ! (i div 8)) (i mod 8)"
  by (simp add: has_part_def push_bit_eq_mult and_exp_eq_0_iff_not_bit)

lemma length_set_bit_at [simp]: "length (set_bit_at i bm) = length bm"
  by (simp add: set_bit_at_def)

lemma has_part_set_bit_at:
  assumes "i div 8 < length bm"
  shows "has_part (set_bit_at i bm) j \<longleftrightarrow> j = i \<or> has_part bm j"
proof (cases "j div 8 = i div 8")
  case True
  have "j = i \<longleftrightarrow> j mod 8 = i mod 8" using True by (metis div_mult_mod_eq)
  then show ?thesis using True assms by (auto simp: has_part_bit set_bit_at_def bit_or_iff bit_push_bit_iff bit_1_iff bit_exp_iff)
next
  case False
  then show ?thesis by (auto simp: has_part_bit set_bit_at_def)
qed

lemma div_ceil_bound: "i < n \<Longrightarrow> 0 < k \<Longrightarrow> i div k < div_ceil n k"
proof (cases "n mod k = 0")
  case True
  assume "i < n" "0 < k"
  then have "i div k * k < n div k * k" using True by (metis div_mult_mod_eq add.right_neutral le_less_trans div_times_less_eq_dividend)
  then show ?thesis using True by (simp add: div_ceil_def)
next
  case False
  assume "i < n" "0 < k"
  then show ?thesis using False by (simp add: div_ceil_def div_le_mono le_imp_less_Suc)
qed

lemma has_part_zero [simp]: "\<not> has_part (replicate n 0) i"
  by (auto simp: has_part_bit)

lemma bitmap_fold:
  assumes "div_ceil (k + length ps) 8 \<le> length bm"
  shows "length (foldl (\<lambda>bm (i, part). if part \<noteq> None then set_bit_at i bm else bm) bm (enumerate k ps)) = length bm \<and>
    has_part (foldl (\<lambda>bm (i, part). if part \<noteq> None then set_bit_at i bm else bm) bm (enumerate k ps)) j =
    (has_part bm j \<or> (k \<le> j \<and> j < k + length ps \<and> ps ! (j - k) \<noteq> None))"
  using assms
proof (induction ps arbitrary: k bm)
  case (Cons x ps)
  have lt: "k div 8 < length bm" using Cons.prems div_ceil_bound[of k "k + length (x # ps)" 8] by simp
  let ?bm = "if x \<noteq> None then set_bit_at k bm else bm"
  have "has_part ?bm j \<longleftrightarrow> has_part bm j \<or> (j = k \<and> x \<noteq> None)" "length ?bm = length bm"
    using has_part_set_bit_at[OF lt] by auto
  then show ?case using Cons.IH[of "Suc k" ?bm] Cons.prems
    by (auto simp: nth_Cons' Suc_le_eq)
qed auto

lemma has_part_bitmap: "has_part (bitmap p) i \<longleftrightarrow> i < length (sp_parts p) \<and> sp_parts p ! i \<noteq> None"
  using bitmap_fold[of 0 "sp_parts p" "replicate (bitmap_len p) 0" i] by (simp add: bitmap_def bitmap_len_def)

lemma length_bitmap [simp]: "length (bitmap p) = bitmap_len p"
  using bitmap_fold[of 0 "sp_parts p" "replicate (bitmap_len p) 0"] by (simp add: bitmap_def bitmap_len_def)

section \<open>Metadata round trip\<close>

definition partial_ok :: "snapshot_partial \<Rightarrow> bool" where
  "partial_ok p \<longleftrightarrow> length (sp_group_id p) = GROUP_ID_LEN \<and>
     utf8_ok (sp_raft_group_id p) \<and> sp_raft_group_id p \<noteq> [] \<and> length (sp_raft_group_id p) < 65536 \<and>
     utf8_ok (sp_snapshot_id p) \<and> sp_snapshot_id p \<noteq> [] \<and> length (sp_snapshot_id p) < 65536 \<and>
     0 < length (sp_parts p) \<and> length (sp_parts p) \<le> MAX_PARTS \<and>
     (\<forall>x. Some x \<in> set (sp_parts p) \<longrightarrow> length x < 65536)"

definition metadata_of :: "snapshot_partial \<Rightarrow> snapshot_metadata" where
  "metadata_of p = \<lparr>md_group_id = sp_raft_group_id p, md_snapshot_id = sp_snapshot_id p,
     md_snapshot_size = sp_snapshot_size p, md_total_parts = total_parts p, md_bitmap = bitmap p\<rparr>"

lemma length_magic [simp]: "length METADATA_MAGIC = 4"
  by (simp add: METADATA_MAGIC_def)

lemma u16_at:
  assumes "length xs = n"
  shows "u16_from_be ((xs @ u16_to_be x @ ys) ! n) ((xs @ u16_to_be x @ ys) ! Suc n) = x"
  using assms u16_from_to_be[of x] by (simp add: nth_append)

lemma metadata_shape:
  "metadata_bytes p = METADATA_MAGIC @ u16_to_be (total_parts p) @ id_to_bin (sp_snapshot_size p) @
     u16_to_be (word_of_nat (length (sp_raft_group_id p))) @ as_bytes (sp_raft_group_id p) @
     u16_to_be (word_of_nat (length (sp_snapshot_id p))) @ as_bytes (sp_snapshot_id p) @ bitmap p"
  by (simp add: metadata_bytes_def)

lemma metadata_fields:
  assumes "partial_ok p"
  shows "u16_from_be (metadata_bytes p ! 4) (metadata_bytes p ! 5) = total_parts p"
    "be_val (take 8 (drop 6 (metadata_bytes p))) = unat (sp_snapshot_size p)"
    "u16_from_be (metadata_bytes p ! 14) (metadata_bytes p ! 15) = word_of_nat (length (sp_raft_group_id p))"
    "u16_from_be (metadata_bytes p ! (16 + length (sp_raft_group_id p))) (metadata_bytes p ! (16 + length (sp_raft_group_id p) + 1)) =
       word_of_nat (length (sp_snapshot_id p))"
    "take (length (sp_raft_group_id p)) (drop 16 (metadata_bytes p)) = as_bytes (sp_raft_group_id p)"
    "take (length (sp_snapshot_id p)) (drop (18 + length (sp_raft_group_id p)) (metadata_bytes p)) = as_bytes (sp_snapshot_id p)"
    "drop (18 + length (sp_raft_group_id p) + length (sp_snapshot_id p)) (metadata_bytes p) = bitmap p"
    "length (metadata_bytes p) = 18 + length (sp_raft_group_id p) + length (sp_snapshot_id p) + bitmap_len p"
    "take 4 (metadata_bytes p) = METADATA_MAGIC"
proof -
  let ?A = "METADATA_MAGIC @ u16_to_be (total_parts p) @ id_to_bin (sp_snapshot_size p)"
  let ?B = "?A @ u16_to_be (word_of_nat (length (sp_raft_group_id p))) @ as_bytes (sp_raft_group_id p)"
  show "u16_from_be (metadata_bytes p ! 4) (metadata_bytes p ! 5) = total_parts p"
    using u16_at[of METADATA_MAGIC 4 "total_parts p"] by (simp add: metadata_shape)
  show "u16_from_be (metadata_bytes p ! 14) (metadata_bytes p ! 15) = word_of_nat (length (sp_raft_group_id p))"
    using u16_at[of ?A 14 "word_of_nat (length (sp_raft_group_id p))"] by (simp add: metadata_shape)
  show "u16_from_be (metadata_bytes p ! (16 + length (sp_raft_group_id p))) (metadata_bytes p ! (16 + length (sp_raft_group_id p) + 1)) =
       word_of_nat (length (sp_snapshot_id p))"
    using u16_at[of ?B "16 + length (sp_raft_group_id p)" "word_of_nat (length (sp_snapshot_id p))"] by (simp add: metadata_shape)
  show "be_val (take 8 (drop 6 (metadata_bytes p))) = unat (sp_snapshot_size p)"
    by (simp add: metadata_shape be_val_id_to_bin)
qed (simp_all add: metadata_shape)

lemma metadata_header_len_bytes:
  assumes "partial_ok p"
  shows "metadata_header_len (metadata_bytes p) = Inr (18 + length (sp_raft_group_id p) + length (sp_snapshot_id p))"
proof -
  have "length (sp_raft_group_id p) < 65536" "length (sp_snapshot_id p) < 65536" using assms by (simp_all add: partial_ok_def)
  then show ?thesis using metadata_fields[OF assms] by (simp add: metadata_header_len_def Let_def)
qed

lemma parse_metadata_bytes:
  assumes "partial_ok p"
  shows "parse_metadata (metadata_bytes p) = Inr (metadata_of p)"
proof -
  have ok: "length (sp_raft_group_id p) < 65536" "utf8_ok (sp_raft_group_id p)" "utf8_ok (sp_snapshot_id p)"
    "sp_raft_group_id p \<noteq> []" "sp_snapshot_id p \<noteq> []" "0 < length (sp_parts p)" "length (sp_parts p) < 65536"
    using assms by (simp_all add: partial_ok_def MAX_PARTS_def)
  have n: "total_parts p \<noteq> 0" "unat (total_parts p) = length (sp_parts p)"
    using ok(6,7) by (simp_all add: total_parts_def word_unat_eq_iff)
  show ?thesis using metadata_fields[OF assms] ok n
    by (simp add: parse_metadata_def metadata_header_len_bytes[OF assms] Let_def utf8_field_def metadata_of_def bitmap_len_def)
qed

section \<open>Exchanging parts\<close>

definition item_bytes :: "nat \<times> u8 list \<Rightarrow> u8 list" where
  "item_bytes = (\<lambda>(i, x). u16_to_be (word_of_nat i) @ u16_to_be (word_of_nat (length x)) @ x)"

definition wanted :: "u8 list \<Rightarrow> (nat \<times> u8 list option) list \<Rightarrow> (nat \<times> u8 list) list" where
  "wanted requested ps = map (\<lambda>(i, x). (i, the x)) (filter (\<lambda>(i, x). x \<noteq> None \<and> \<not> has_part requested i) ps)"

lemma encode_loop_wanted:
  "sent < MAX_PARTS_PER_MESSAGE \<Longrightarrow>
   encode_loop requested sent ps = concat (map item_bytes (take (MAX_PARTS_PER_MESSAGE - sent) (wanted requested ps)))"
proof (induction requested sent ps rule: encode_loop.induct)
  case (2 requested sent index part ps)
  show ?case
  proof (cases "has_part requested index \<or> part = None")
    case True
    then show ?thesis using 2 by (auto simp: wanted_def)
  next
    case False
    then obtain x where x: "part = Some x" "\<not> has_part requested index" by auto
    obtain k where k: "MAX_PARTS_PER_MESSAGE - sent = Suc k" using "2.prems" by (metis Suc_diff_Suc)
    then have "MAX_PARTS_PER_MESSAGE \<le> Suc sent \<longleftrightarrow> k = 0" "MAX_PARTS_PER_MESSAGE - Suc sent = k" by auto
    then show ?thesis using 2 x k by (auto simp: wanted_def item_bytes_def Let_def)
  qed
qed (simp add: wanted_def)

fun merge_items :: "parts \<Rightarrow> (nat \<times> u8 list) list \<Rightarrow> parts" where
  "merge_items parts [] = parts"
| "merge_items parts ((i, x) # sel) = merge_items (if parts ! i = None then parts[i := Some x] else parts) sel"

definition items_ok :: "nat \<Rightarrow> (nat \<times> u8 list) list \<Rightarrow> bool" where
  "items_ok n sel \<longleftrightarrow> (\<forall>(i, x) \<in> set sel. i < n \<and> i < 65536 \<and> length x < 65536)"

lemma merge_loop_item:
  assumes "i < length parts" "i < 65536" "length x < 65536"
  shows "merge_loop parts upd (item_bytes (i, x) @ rest) =
    (if parts ! i = None then merge_loop (parts[i := Some x]) True rest else merge_loop parts upd rest)"
proof -
  let ?i = "u16_to_be (word_of_nat i)" and ?l = "u16_to_be (word_of_nat (length x))"
  have eq: "item_bytes (i, x) @ rest = ?i ! 0 # ?i ! 1 # ?l ! 0 # ?l ! 1 # (x @ rest)"
    by (simp add: item_bytes_def u16_to_be_def)
  show ?thesis unfolding eq using assms by (simp only: merge_loop.simps u16_from_to_be Let_def) simp
qed

lemma merge_loop_items:
  assumes "items_ok (length parts) sel"
  shows "merge_loop parts upd (concat (map item_bytes sel)) =
    (merge_items parts sel, Inr (upd \<or> (\<exists>(i, x) \<in> set sel. parts ! i = None)))"
  using assms
proof (induction sel arbitrary: parts upd)
  case (Cons ix sel)
  obtain i x where ix: "ix = (i, x)" by fastforce
  have ok: "i < length parts" "i < 65536" "length x < 65536" "items_ok (length parts) sel"
    using Cons.prems by (auto simp: items_ok_def ix)
  then show ?case using Cons.IH[of "parts[i := Some x]" True] Cons.IH[of parts upd]
    by (cases "parts ! i") (simp_all add: ix merge_loop_item)
qed simp

lemma length_merge_items [simp]: "length (merge_items parts sel) = length parts"
  by (induction parts sel rule: merge_items.induct) auto

lemma merge_items_nth:
  assumes "j < length parts" "distinct (map fst sel)"
  shows "merge_items parts sel ! j = (if parts ! j = None then map_of sel j else parts ! j)"
  using assms
proof (induction parts sel rule: merge_items.induct)
  case (2 parts i x sel)
  then show ?case by (cases "i = j") (auto simp: nth_list_update map_of_eq_None_iff[symmetric])
qed simp

lemma wanted_mem:
  "(i, x) \<in> set (wanted requested (enumerate 0 ps)) \<longleftrightarrow> i < length ps \<and> ps ! i = Some x \<and> \<not> has_part requested i"
  by (force simp: wanted_def in_set_enumerate_eq)

lemma wanted_distinct: "distinct (map fst (wanted requested (enumerate 0 ps)))"
proof -
  have "map fst (wanted requested (enumerate 0 ps)) = map fst (filter (\<lambda>(i, x). x \<noteq> None \<and> \<not> has_part requested i) (enumerate 0 ps))"
    by (simp add: wanted_def o_def case_prod_beta)
  then show ?thesis by (simp add: distinct_map_filter)
qed

definition same_snapshot :: "snapshot_partial \<Rightarrow> snapshot_partial \<Rightarrow> bool" where
  "same_snapshot p q \<longleftrightarrow> sp_group_id p = sp_group_id q \<and> sp_raft_group_id p = sp_raft_group_id q \<and>
     sp_snapshot_id p = sp_snapshot_id q \<and> sp_snapshot_size p = sp_snapshot_size q \<and>
     length (sp_parts p) = length (sp_parts q)"

lemma same_snapshot_matches: "same_snapshot p q \<Longrightarrow> metadata_matches p (metadata_of q)"
  by (simp add: same_snapshot_def metadata_matches_def metadata_of_def total_parts_def)

lemma merge_body_items:
  assumes "partial_ok r" "tp = total_parts r" "items_ok (length (sp_parts r)) sel"
  shows "merge_body r (concat (map item_bytes sel) @ u16_to_be tp @ sp_group_id r) =
    (r\<lparr>sp_parts := merge_items (sp_parts r) sel\<rparr>, Inr (\<exists>(i, x) \<in> set sel. sp_parts r ! i = None))"
proof -
  let ?c = "concat (map item_bytes sel)"
  let ?b = "?c @ u16_to_be tp @ sp_group_id r"
  have len: "length (sp_group_id r) = GROUP_ID_LEN" using assms(1) by (simp add: partial_ok_def)
  have n: "length ?b - GROUP_ID_LEN - 2 = length ?c" using len by simp
  have t: "u16_from_be (?b ! length ?c) (?b ! (length ?c + 1)) = tp"
    using u16_at[of ?c _ tp "sp_group_id r"] by simp
  show ?thesis
    unfolding merge_body_def n Let_def t using len assms(2) merge_loop_items[OF assms(3), of False] by simp
qed

text \<open>The parts that \<open>s\<close> holds and \<open>r\<close> lacks, and what one exchange leaves at the receiver.\<close>

definition missing :: "snapshot_partial \<Rightarrow> snapshot_partial \<Rightarrow> nat list" where
  "missing s r = filter (\<lambda>i. sp_parts s ! i \<noteq> None \<and> sp_parts r ! i = None) [0..<length (sp_parts s)]"

definition offered :: "snapshot_partial \<Rightarrow> snapshot_partial \<Rightarrow> nat list" where
  "offered s r = take MAX_PARTS_PER_MESSAGE (missing s r)"

definition received :: "snapshot_partial \<Rightarrow> snapshot_partial \<Rightarrow> snapshot_partial" where
  "received s r = r\<lparr>sp_parts := map (\<lambda>i. if i \<in> set (offered s r) then sp_parts s ! i else sp_parts r ! i) [0..<length (sp_parts r)]\<rparr>"

definition offered_items :: "snapshot_partial \<Rightarrow> snapshot_partial \<Rightarrow> (nat \<times> u8 list) list" where
  "offered_items s r = map (\<lambda>i. (i, the (sp_parts s ! i))) (offered s r)"

lemma wanted_missing:
  assumes "same_snapshot s r"
  shows "wanted (bitmap r) (enumerate 0 (sp_parts s)) = map (\<lambda>i. (i, the (sp_parts s ! i))) (missing s r)"
proof -
  have "enumerate 0 (sp_parts s) = map (\<lambda>i. (i, sp_parts s ! i)) [0..<length (sp_parts s)]"
    by (rule nth_equalityI) (simp_all add: nth_enumerate_eq)
  moreover have "filter (\<lambda>i. sp_parts s ! i \<noteq> None \<and> \<not> has_part (bitmap r) i) [0..<length (sp_parts s)] = missing s r"
    using assms unfolding missing_def by (intro filter_cong) (auto simp: has_part_bitmap same_snapshot_def)
  ultimately show ?thesis by (simp add: wanted_def filter_map o_def)
qed

lemma encode_parts_for_offered:
  assumes "partial_ok r" "same_snapshot s r"
  shows "encode_parts_for s (Some (metadata_bytes r)) = Inr
    (if offered s r = [] then None
     else Some (concat (map item_bytes (offered_items s r)) @ u16_to_be (total_parts r) @ sp_group_id r))"
proof -
  have "encode_loop (bitmap r) 0 (enumerate 0 (sp_parts s)) = concat (map item_bytes (offered_items s r))"
    unfolding offered_items_def offered_def
    using encode_loop_wanted[of 0 "bitmap r" "enumerate 0 (sp_parts s)"] wanted_missing[OF assms(2)]
    by (simp add: take_map MAX_PARTS_PER_MESSAGE_def)
  moreover have "concat (map item_bytes (offered_items s r)) = [] \<longleftrightarrow> offered s r = []"
    by (cases "offered s r") (simp_all add: offered_items_def item_bytes_def u16_to_be_def)
  moreover have "total_parts s = total_parts r" "sp_group_id s = sp_group_id r"
    using assms(2) by (simp_all add: same_snapshot_def total_parts_def)
  ultimately show ?thesis
    using same_snapshot_matches[OF assms(2)] parse_metadata_bytes[OF assms(1)]
    by (simp add: encode_parts_for_def metadata_of_def Let_def)
qed

lemma offered_mem: "i \<in> set (offered s r) \<Longrightarrow> i < length (sp_parts s) \<and> (\<exists>x. sp_parts s ! i = Some x) \<and> sp_parts r ! i = None"
  by (auto simp: offered_def missing_def dest: in_set_takeD)

lemma offered_distinct: "distinct (offered s r)"
  by (simp add: offered_def missing_def)

lemma offered_items_ok:
  assumes "partial_ok s"
  shows "items_ok (length (sp_parts s)) (offered_items s r)"
proof -
  have "length (the (sp_parts s ! i)) < 65536 \<and> i < 65536" if i: "i \<in> set (offered s r)" for i
  proof -
    obtain x where "i < length (sp_parts s)" "sp_parts s ! i = Some x" using offered_mem[OF i] by blast
    then show ?thesis using assms nth_mem[of i "sp_parts s"] by (auto simp: partial_ok_def MAX_PARTS_def)
  qed
  then show ?thesis using offered_mem by (auto simp: items_ok_def offered_items_def)
qed

lemma merge_offered:
  assumes "partial_ok s" "partial_ok r" "same_snapshot s r"
  shows "merge_body r (concat (map item_bytes (offered_items s r)) @ u16_to_be (total_parts r) @ sp_group_id r) =
    (received s r, Inr (offered s r \<noteq> []))"
proof -
  have n: "length (sp_parts s) = length (sp_parts r)" using assms(3) by (simp add: same_snapshot_def)
  have mo: "map_of (offered_items s r) j = (if j \<in> set (offered s r) then sp_parts s ! j else None)" for j
    using offered_mem[of j s r] by (auto simp: offered_items_def map_of_map_restrict)
  have "distinct (map fst (offered_items s r))" using offered_distinct by (simp add: offered_items_def o_def)
  then have "merge_items (sp_parts r) (offered_items s r) = sp_parts (received s r)"
    using offered_mem[of _ s r] by (intro nth_equalityI) (auto simp: merge_items_nth mo received_def)
  moreover have "(\<exists>(i, x) \<in> set (offered_items s r). sp_parts r ! i = None) \<longleftrightarrow> offered s r \<noteq> []"
    using offered_mem[of _ s r] by (cases "offered s r") (auto simp: offered_items_def)
  ultimately show ?thesis
    using merge_body_items[OF assms(2) refl offered_items_ok[OF assms(1), of r, unfolded n]]
    by (simp add: received_def)
qed

section \<open>Repeated exchanges\<close>

text \<open>The metadata of \<open>r\<close> goes to \<open>s\<close> and the answer of \<open>s\<close> is merged at \<open>r\<close>.\<close>

definition exchange :: "snapshot_partial \<Rightarrow> snapshot_partial \<Rightarrow> snapshot_partial" where
  "exchange s r = (case encode_parts_for s (Some (metadata_bytes r)) of
     Inr (Some body) \<Rightarrow> fst (merge_body r body) | _ \<Rightarrow> r)"

definition copy_of :: "snapshot_partial \<Rightarrow> snapshot_partial \<Rightarrow> bool" where
  "copy_of src p \<longleftrightarrow> same_snapshot src p \<and>
     (\<forall>i < length (sp_parts src). sp_parts p ! i = None \<or> sp_parts p ! i = sp_parts src ! i)"

lemma copy_of_refl [simp]: "copy_of src src"
  by (simp add: copy_of_def same_snapshot_def)

lemma copy_of_ok:
  assumes "partial_ok src" "copy_of src p"
  shows "partial_ok p"
proof -
  have "length x < 65536" if x: "Some x \<in> set (sp_parts p)" for x
  proof -
    obtain i where "i < length (sp_parts p)" "sp_parts p ! i = Some x" using x by (auto simp: in_set_conv_nth)
    then have "i < length (sp_parts src)" "sp_parts src ! i = Some x" using assms(2) by (auto simp: copy_of_def same_snapshot_def)
    then show ?thesis using assms(1) nth_mem[of i "sp_parts src"] by (auto simp: partial_ok_def)
  qed
  then show ?thesis using assms by (auto simp: partial_ok_def copy_of_def same_snapshot_def)
qed

lemma copy_of_same: "copy_of src p \<Longrightarrow> copy_of src q \<Longrightarrow> same_snapshot p q"
  by (simp add: copy_of_def same_snapshot_def)

lemma is_complete_iff: "is_complete p \<longleftrightarrow> (\<forall>i < length (sp_parts p). sp_parts p ! i \<noteq> None)"
  by (simp add: is_complete_def list_all_length)

lemma complete_copy:
  assumes "copy_of src p" "is_complete p"
  shows "p = src"
proof -
  have "length (sp_parts p) = length (sp_parts src)" using assms(1) by (simp add: copy_of_def same_snapshot_def)
  moreover have "sp_parts p ! i = sp_parts src ! i" if "i < length (sp_parts p)" for i
    using assms that unfolding copy_of_def same_snapshot_def is_complete_iff by metis
  ultimately have "sp_parts p = sp_parts src" by (rule nth_equalityI)
  then show ?thesis using assms(1) by (simp add: copy_of_def same_snapshot_def)
qed

lemma received_copy:
  assumes "copy_of src s" "copy_of src r"
  shows "copy_of src (received s r)"
  using assms by (auto simp: copy_of_def same_snapshot_def received_def)

lemma exchange_received:
  assumes "partial_ok src" "copy_of src s" "copy_of src r"
  shows "exchange s r = received s r"
proof -
  note ok = copy_of_ok[OF assms(1,2)] copy_of_ok[OF assms(1,3)] copy_of_same[OF assms(2,3)]
  have "received s r = r" if "offered s r = []"
    using that by (simp add: received_def map_nth)
  then show ?thesis
    using encode_parts_for_offered[OF ok(2,3)] merge_offered[OF ok] by (simp add: exchange_def)
qed

lemma filter_notin_take: "distinct ys \<Longrightarrow> filter (\<lambda>i. i \<notin> set (take n ys)) ys = drop n ys"
proof (induction ys arbitrary: n)
  case (Cons y ys)
  then show ?case
  proof (cases n)
    case (Suc m)
    have "filter (\<lambda>i. i \<noteq> y \<and> i \<notin> set (take m ys)) ys = filter (\<lambda>i. i \<notin> set (take m ys)) ys"
      using Cons.prems by (intro filter_cong) auto
    then show ?thesis using Cons Suc by simp
  qed simp
qed simp

lemma missing_received:
  assumes "same_snapshot s r"
  shows "missing s (received s r) = drop MAX_PARTS_PER_MESSAGE (missing s r)"
proof -
  have n: "length (sp_parts s) = length (sp_parts r)" using assms by (simp add: same_snapshot_def)
  have "missing s (received s r) = filter (\<lambda>i. i \<notin> set (offered s r)) (missing s r)"
    unfolding missing_def filter_filter using offered_mem[of _ s r]
    by (intro filter_cong) (auto simp: received_def n)
  moreover have "distinct (missing s r)" by (simp add: missing_def)
  ultimately show ?thesis by (simp add: offered_def filter_notin_take)
qed

lemma exchange_rounds:
  assumes "partial_ok src" "copy_of src s" "copy_of src r"
  shows "copy_of src ((exchange s ^^ k) r) \<and> missing s ((exchange s ^^ k) r) = drop (MAX_PARTS_PER_MESSAGE * k) (missing s r)"
proof (induction k)
  case (Suc k)
  let ?r = "(exchange s ^^ k) r"
  have "exchange s ?r = received s ?r" using exchange_received assms(1,2) Suc by blast
  then show ?case using Suc received_copy[OF assms(2)] missing_received[OF copy_of_same[OF assms(2)], of ?r]
    by (simp add: add.commute)
qed (use assms in simp)

lemma complete_missing:
  assumes "copy_of src r"
  shows "missing src r = [] \<Longrightarrow> is_complete src \<Longrightarrow> is_complete r"
  using assms unfolding missing_def is_complete_iff filter_empty_conv copy_of_def same_snapshot_def by auto

lemma missing_self [simp]: "missing src src = []"
  unfolding missing_def filter_empty_conv by blast

section \<open>From payload to payload\<close>

lemma concat_chunks: "0 < n \<Longrightarrow> concat (chunks n xs) = xs"
proof (induction n xs rule: chunks.induct)
  case (1 n xs)
  then show ?case by (subst chunks.simps) auto
qed

lemma chunk_bound: "c \<in> set (chunks n xs) \<Longrightarrow> length c \<le> n"
proof (induction n xs rule: chunks.induct)
  case (1 n xs)
  then show ?case by (subst (asm) (2) chunks.simps) (auto split: if_splits)
qed

lemma div_ceil_diff: "0 < n \<Longrightarrow> 0 < k \<Longrightarrow> div_ceil n k = Suc (div_ceil (n - k) k)"
proof (cases "k \<le> n")
  case True
  assume "0 < k"
  then show ?thesis using True by (simp add: div_ceil_def le_div_geq le_mod_geq)
next
  case False
  assume "0 < n"
  then show ?thesis using False by (simp add: div_ceil_def)
qed

lemma length_chunks: "0 < n \<Longrightarrow> length (chunks n xs) = div_ceil (length xs) n"
proof (induction n xs rule: chunks.induct)
  case (1 n xs)
  show ?case
  proof (cases "xs = []")
    case True
    then show ?thesis by (simp add: chunks.simps div_ceil_def)
  next
    case False
    then show ?thesis using 1 div_ceil_diff[of "length xs" n] by (subst chunks.simps) simp
  qed
qed

lemma collect_parts_Some: "collect_parts (map Some xs) = Inr (concat xs)"
  by (induction xs) simp_all

lemma collect_parts_missing: "list_ex (\<lambda>x. x = None) ps \<Longrightarrow> collect_parts ps = Inl ''snapshot is missing parts''"
  by (induction ps rule: collect_parts.induct) auto

definition sync_ok :: "('i, 'sm, 'v) sync_api \<Rightarrow> bool" where
  "sync_ok a \<longleftrightarrow> (\<forall>pl bytes. ser_payload a pl = Inr bytes \<longrightarrow> de_payload a bytes = Inr pl)"

lemma from_payload_source:
  assumes "sync_ok a" "from_payload a uuid uuid_text pl = Inr (Some src)"
    "length uuid = GROUP_ID_LEN" "utf8_ok uuid_text" "uuid_text \<noteq> []" "length uuid_text < 65536"
    "utf8_ok (pl_group_id pl)" "pl_group_id pl \<noteq> []" "length (pl_group_id pl) < 65536"
  shows "partial_ok src" "is_complete src" "to_payload a src = Inr pl"
proof -
  obtain bytes where b: "ser_payload a pl = Inr bytes" using assms(2) by (auto simp: from_payload_def rbind_Inr_iff)
  define cs where "cs = (if bytes = [] then [[]] else chunks PART_SIZE bytes)"
  have src: "src = \<lparr>sp_group_id = uuid, sp_raft_group_id = pl_group_id pl, sp_snapshot_id = uuid_text,
      sp_snapshot_size = word_of_nat (length bytes), sp_parts = map Some cs\<rparr>"
    "max (div_ceil (length bytes) PART_SIZE) 1 \<le> MAX_PARTS"
    using assms(2) by (auto simp: from_payload_def b Let_def cs_def split: if_splits)
  have ps: "0 < PART_SIZE" by (simp add: PART_SIZE_def)
  have cs: "concat cs = bytes" "length cs = max (div_ceil (length bytes) PART_SIZE) 1"
    using concat_chunks[OF ps] length_chunks[OF ps, of bytes] div_ceil_bound[of 0 "length bytes" PART_SIZE]
    by (auto simp: cs_def div_ceil_def ps)
  have cs3: "c \<in> set cs \<Longrightarrow> length c \<le> PART_SIZE" for c
    using chunk_bound[of c PART_SIZE bytes] by (simp add: cs_def split: if_splits)
  show "partial_ok src" using src cs(2) assms(3-9) by (auto simp: partial_ok_def PART_SIZE_def dest!: cs3)
  show "is_complete src" by (simp add: src is_complete_def list_all_iff)
  show "to_payload a src = Inr pl"
    using assms(1) b by (simp add: to_payload_def src collect_parts_Some cs(1) sync_ok_def)
qed

end
