(* ===== verification/SnapshotGossip.thy ===== *)
theory SnapshotGossip
  imports SnapshotSync WitnessCodec
begin

text \<open>
  A cluster that gossips one snapshot: nodes with their sync states and the set of messages ever sent.
  Messages may be delivered late, repeatedly, in any order or never. The properties of the snapshot
  transfer.
\<close>

section \<open>The network\<close>

type_synonym gossip_message = "u8 list \<times> u8 list option"

inductive gossip :: "snapshot_partial \<Rightarrow> (nat \<Rightarrow> sync_state) \<Rightarrow> gossip_message set \<Rightarrow> bool" for src where
  start: "gossip src (\<lambda>_. \<lparr>sy_partials = Map.empty, sy_installed = {}\<rparr>) {}"
| publish: "gossip src N M \<Longrightarrow> gossip src (N(i := insert_local src (N i))) M"
| advertise: "gossip src N M \<Longrightarrow> sy_partials (N i) (sp_group_id src) = Some p \<Longrightarrow>
    gossip src N (insert (metadata_bytes p, None) M)"
| answer: "gossip src N M \<Longrightarrow> sy_partials (N i) (sp_group_id src) = Some p \<Longrightarrow> (md, m) \<in> M \<Longrightarrow>
    partial_action_from_metadata p (Some md) = Inr (need, Some (body, md')) \<Longrightarrow>
    gossip src N (insert (md', Some body) M)"
| announced: "gossip src N M \<Longrightarrow> (md, m) \<in> M \<Longrightarrow>
    handle_available_announcement \<lparr>an_group_id = sp_group_id src, an_metadata = md\<rparr> (N j) = (st', res) \<Longrightarrow>
    gossip src (N(j := st')) M"
| deliver: "gossip src N M \<Longrightarrow> (md, m) \<in> M \<Longrightarrow> handle_partial (sp_group_id src) md m (N j) = (st', res) \<Longrightarrow>
    gossip src (N(j := st')) M"

text \<open>What holds of every node and of every message.\<close>

definition node_ok :: "snapshot_partial \<Rightarrow> sync_state \<Rightarrow> bool" where
  "node_ok src st \<longleftrightarrow> (\<forall>p. sy_partials st (sp_group_id src) = Some p \<longrightarrow> copy_of src p) \<and>
     (sp_group_id src \<in> sy_installed st \<longrightarrow> sy_partials st (sp_group_id src) = Some src)"

definition body_ok :: "snapshot_partial \<Rightarrow> u8 list \<Rightarrow> bool" where
  "body_ok src b \<longleftrightarrow> (\<exists>sel. b = concat (map item_bytes sel) @ u16_to_be (total_parts src) @ sp_group_id src \<and>
     items_ok (length (sp_parts src)) sel \<and> (\<forall>(i, x) \<in> set sel. sp_parts src ! i = Some x))"

definition message_ok :: "snapshot_partial \<Rightarrow> gossip_message \<Rightarrow> bool" where
  "message_ok src m \<longleftrightarrow> (\<exists>q. copy_of src q \<and> fst m = metadata_bytes q) \<and>
     (\<forall>b. snd m = Some b \<longrightarrow> body_ok src b)"

lemma merge_items_copy:
  assumes "items_ok (length ps) sel" "\<forall>(i, x) \<in> set sel. orig ! i = Some x"
    "\<forall>i < length ps. ps ! i = None \<or> ps ! i = orig ! i"
  shows "\<forall>i < length ps. merge_items ps sel ! i = None \<or> merge_items ps sel ! i = orig ! i"
  using assms
proof (induction ps sel rule: merge_items.induct)
  case (2 ps i x sel)
  let ?ps = "if ps ! i = None then ps[i := Some x] else ps"
  have "items_ok (length ?ps) sel" using "2.prems"(1) by (simp add: items_ok_def)
  moreover have "\<forall>j < length ?ps. ?ps ! j = None \<or> ?ps ! j = orig ! j"
    using "2.prems" by (auto simp: nth_list_update items_ok_def)
  ultimately show ?case using "2.IH" "2.prems"(2) by simp
qed simp

lemma merge_items_keep: "ps ! i = Some x \<Longrightarrow> merge_items ps sel ! i = Some x"
proof (induction ps sel rule: merge_items.induct)
  case (2 ps j y sel)
  have "(if ps ! j = None then ps[j := Some y] else ps) ! i = Some x"
    using "2.prems" by (cases "j = i") auto
  then show ?case using "2.IH" by simp
qed simp

lemma merge_body_copy:
  assumes "partial_ok src" "copy_of src p" "body_ok src b"
  shows "\<exists>p' u. merge_body p b = (p', Inr u) \<and> copy_of src p' \<and> (is_complete p \<longrightarrow> is_complete p')"
proof -
  obtain sel where sel: "b = concat (map item_bytes sel) @ u16_to_be (total_parts src) @ sp_group_id src"
    "items_ok (length (sp_parts src)) sel" "\<forall>(i, x) \<in> set sel. sp_parts src ! i = Some x"
    using assms(3) by (auto simp: body_ok_def)
  have same: "total_parts src = total_parts p" "sp_group_id src = sp_group_id p" "length (sp_parts src) = length (sp_parts p)"
    using assms(2) by (simp_all add: copy_of_def same_snapshot_def total_parts_def)
  have "merge_body p b = (p\<lparr>sp_parts := merge_items (sp_parts p) sel\<rparr>, Inr (\<exists>(i, x) \<in> set sel. sp_parts p ! i = None))"
    unfolding sel(1) same by (rule merge_body_items[OF copy_of_ok[OF assms(1,2)] refl]) (use sel(2) same in simp)
  moreover have "copy_of src (p\<lparr>sp_parts := merge_items (sp_parts p) sel\<rparr>)"
    using merge_items_copy[of "sp_parts p" sel "sp_parts src"] sel(2,3) assms(2) same
    by (auto simp: copy_of_def same_snapshot_def)
  moreover have "is_complete p \<longrightarrow> is_complete (p\<lparr>sp_parts := merge_items (sp_parts p) sel\<rparr>)"
    by (auto simp: is_complete_iff merge_items_keep)
  ultimately show ?thesis by blast
qed

lemma empty_partial_copy:
  assumes "partial_ok src" "copy_of src q"
  shows "copy_of src (empty_partial (sp_group_id src) (metadata_of q))"
proof -
  have "length (sp_parts q) < 65536" using copy_of_ok[OF assms] by (simp add: partial_ok_def MAX_PARTS_def)
  then show ?thesis using assms(2)
    by (simp add: copy_of_def same_snapshot_def empty_partial_def metadata_of_def total_parts_def)
qed

lemma partial_entry_copy:
  assumes "partial_ok src" "copy_of src q" "node_ok src st"
  shows "copy_of src (partial_entry st (sp_group_id src) (metadata_of q))"
  using assms empty_partial_copy[OF assms(1,2)] by (auto simp: partial_entry_def node_ok_def split: option.splits)

text \<open>A delivered message never fails; it leaves the node consistent, and reports a first completion
  exactly when the snapshot becomes complete and was not installed before.\<close>

lemma handle_partial_ok:
  assumes "partial_ok src" "node_ok src st" "message_ok src (md, m)" "is_complete src"
  shows "\<exists>st' u. handle_partial (sp_group_id src) md m st = (st', Inr u) \<and> node_ok src st' \<and>
    sy_partials st' (sp_group_id src) = Some (su_partial u) \<and>
    (su_first_complete u \<longleftrightarrow> is_complete (su_partial u) \<and> sp_group_id src \<notin> sy_installed st) \<and>
    sy_installed st' = (if is_complete (su_partial u) then insert (sp_group_id src) (sy_installed st) else sy_installed st)"
proof -
  obtain q where q: "copy_of src q" "md = metadata_bytes q" "\<forall>b. m = Some b \<longrightarrow> body_ok src b"
    using assms(3) by (auto simp: message_ok_def)
  let ?p = "partial_entry st (sp_group_id src) (metadata_of q)"
  have p: "copy_of src ?p" by (rule partial_entry_copy[OF assms(1) q(1) assms(2)])
  have parse: "parse_metadata md = Inr (metadata_of q)" using parse_metadata_bytes copy_of_ok[OF assms(1) q(1)] q(2) by simp
  have match: "metadata_matches ?p (metadata_of q)" using same_snapshot_matches copy_of_same[OF p q(1)] by blast
  obtain p' u where p': "(case m of None \<Rightarrow> (?p, Inr False) | Some body \<Rightarrow> merge_body ?p body) = (p', Inr u)" "copy_of src p'"
    "is_complete ?p \<longrightarrow> is_complete p'"
    using merge_body_copy[OF assms(1) p] p q(3) by (cases m) fastforce+
  have inst: "p' = src" if "is_complete p' \<or> sp_group_id src \<in> sy_installed st"
  proof -
    have "is_complete ?p" if "sp_group_id src \<in> sy_installed st"
      using that assms(2,4) by (auto simp: node_ok_def partial_entry_def)
    then show ?thesis using that p'(2,3) complete_copy by blast
  qed
  show ?thesis using p' match inst assms(2)
    by (auto simp: handle_partial_def parse Let_def node_ok_def)
qed

lemma answer_ok:
  assumes "partial_ok src" "copy_of src p" "message_ok src (md, m)"
    "partial_action_from_metadata p (Some md) = Inr (need, Some (body, md'))"
  shows "message_ok src (md', Some body)"
proof -
  obtain q where q: "copy_of src q" "md = metadata_bytes q" using assms(3) by (auto simp: message_ok_def)
  note ok = copy_of_ok[OF assms(1,2)] copy_of_ok[OF assms(1) q(1)] copy_of_same[OF assms(2) q(1)]
  have enc: "encode_parts_for p (Some md) = Inr (Some body)" "md' = metadata_bytes p"
    using assms(4) by (auto simp: partial_action_from_metadata_def rbind_Inr_iff)
  then have b: "body = concat (map item_bytes (offered_items p q)) @ u16_to_be (total_parts q) @ sp_group_id q"
    using encode_parts_for_offered[OF ok(2,3)] q(2) by (auto split: if_splits)
  have same: "total_parts q = total_parts src" "sp_group_id q = sp_group_id src" "length (sp_parts p) = length (sp_parts src)"
    using q(1) assms(2) by (simp_all add: copy_of_def same_snapshot_def total_parts_def)
  have "sp_parts src ! i = Some x" if "(i, x) \<in> set (offered_items p q)" for i x
    using that assms(2) by (auto simp: offered_items_def copy_of_def same_snapshot_def dest!: offered_mem)
  then have "body_ok src body"
    unfolding body_ok_def b same using offered_items_ok[OF ok(1), of q, unfolded same] by fastforce
  then show ?thesis using assms(2) enc(2) by (auto simp: message_ok_def)
qed

lemma announced_ok:
  assumes "partial_ok src" "node_ok src st" "message_ok src (md, m)"
    "handle_available_announcement \<lparr>an_group_id = sp_group_id src, an_metadata = md\<rparr> st = (st', res)"
  shows "node_ok src st'"
proof -
  obtain q where q: "copy_of src q" "md = metadata_bytes q" using assms(3) by (auto simp: message_ok_def)
  have parse: "parse_metadata md = Inr (metadata_of q)" using parse_metadata_bytes copy_of_ok[OF assms(1) q(1)] q(2) by simp
  show ?thesis using assms(2,4) partial_entry_copy[OF assms(1) q(1) assms(2)]
    by (auto simp: handle_available_announcement_def parse node_ok_def Let_def split: if_splits)
qed

lemma gossip_inv:
  assumes "gossip src N M" "partial_ok src" "is_complete src"
  shows "node_ok src (N i)" "m \<in> M \<Longrightarrow> message_ok src m"
proof -
  have "(\<forall>i. node_ok src (N i)) \<and> (\<forall>m \<in> M. message_ok src m)"
    using assms(1)
  proof (induction rule: gossip.induct)
    case start
    then show ?case by (simp add: node_ok_def)
  next
    case (publish N M i)
    then show ?case by (auto simp: node_ok_def insert_local_def)
  next
    case (advertise N M i p)
    then have "copy_of src p" by (auto simp: node_ok_def)
    then show ?case using advertise.IH by (auto simp: message_ok_def)
  next
    case (answer N M i p md m need body md')
    then have "copy_of src p" "message_ok src (md, m)" by (auto simp: node_ok_def)
    then show ?case using answer answer_ok[OF assms(2)] by auto
  next
    case (announced N M md m j st' res)
    then have "node_ok src (N j)" "message_ok src (md, m)" by auto
    then have "node_ok src st'" using announced.hyps(3) announced_ok[OF assms(2)] by metis
    then show ?case using announced.IH by simp
  next
    case (deliver N M md m j st' res)
    then have "node_ok src (N j)" "message_ok src (md, m)" by auto
    then have "node_ok src st'" using deliver.hyps(3) handle_partial_ok[OF assms(2) _ _ assms(3)] by fastforce
    then show ?case using deliver.IH by simp
  qed
  then show "node_ok src (N i)" "m \<in> M \<Longrightarrow> message_ok src m" by blast+
qed

lemma present_missing:
  assumes "is_complete src" "copy_of src r"
  shows "present_parts r + length (missing src r) = length (sp_parts src)"
proof -
  let ?n = "length (sp_parts r)"
  have n: "length (sp_parts src) = ?n" using assms(2) by (simp add: copy_of_def same_snapshot_def)
  have "present_parts r = length (filter (\<lambda>i. sp_parts r ! i \<noteq> None) [0..<?n])"
    unfolding present_parts_def by (subst (1) map_nth[of "sp_parts r", symmetric]) (simp only: filter_map length_map o_def)
  moreover have "missing src r = filter (\<lambda>i. \<not> sp_parts r ! i \<noteq> None) [0..<?n]"
    using assms(1) unfolding missing_def n is_complete_iff by (intro filter_cong) auto
  ultimately show ?thesis using sum_length_filter_compl[of "\<lambda>i. sp_parts r ! i \<noteq> None" "[0..<?n]"] n by simp
qed

section \<open>An example\<close>

definition demo_sync_api :: "(nat, unit, unit) sync_api" where
  "demo_sync_api = \<lparr>ser_payload = (\<lambda>pl. if length (pl_group_id pl) < 65536 \<and> last_log_id (pl_meta pl) = None
       then Inr (u16_to_be (word_of_nat (length (pl_group_id pl))) @ as_bytes (pl_group_id pl) @ pl_data pl)
       else Inl ''not supported''),
     de_payload = (\<lambda>bs. case bs of
         a # b # rest \<Rightarrow> let n = unat (u16_from_be a b) in
           Inr \<lparr>pl_group_id = map (\<lambda>b. char_of (unat b)) (take n rest), pl_vote = (),
             pl_meta = \<lparr>last_log_id = None, last_membership = ()\<rparr>, pl_data = drop n rest\<rparr>
       | _ \<Rightarrow> Inl ''too short'')\<rparr>"

definition demo_payload :: "(nat, unit, unit) snapshot_payload" where
  "demo_payload = \<lparr>pl_group_id = ''g1'', pl_vote = (), pl_meta = \<lparr>last_log_id = None, last_membership = ()\<rparr>, pl_data = [1, 2, 3]\<rparr>"

definition demo_source :: snapshot_partial where
  "demo_source = \<lparr>sp_group_id = replicate 16 7, sp_raft_group_id = ''g1'', sp_snapshot_id = ''u'',
     sp_snapshot_size = 7, sp_parts = [Some [0, 2, 103, 49, 1, 2, 3]]\<rparr>"

lemma demo_sync_ok: "sync_ok demo_sync_api"
proof -
  have byte: "unat (word_of_nat (of_char c) :: u8) = of_char c" for c :: char
    by (simp add: unsigned_of_nat take_bit_eq_mod)
  have "de_payload demo_sync_api bytes = Inr pl" if ser: "ser_payload demo_sync_api pl = Inr bytes" for pl bytes
  proof -
    let ?g = "pl_group_id pl"
    have l: "length ?g < 65536" "last_log_id (pl_meta pl) = None"
      and b: "bytes = u16_to_be (word_of_nat (length ?g)) @ as_bytes ?g @ pl_data pl"
      using ser by (auto simp: demo_sync_api_def split: if_splits)
    have b2: "bytes = u16_to_be (word_of_nat (length ?g)) ! 0 # u16_to_be (word_of_nat (length ?g)) ! 1 # as_bytes ?g @ pl_data pl"
      unfolding b by (simp add: u16_to_be_def)
    have "map (\<lambda>b. char_of (unat b)) (as_bytes ?g) = ?g" by (simp add: as_bytes_def byte o_def)
    moreover obtain g d where "pl = \<lparr>pl_group_id = g, pl_vote = (), pl_meta = \<lparr>last_log_id = None, last_membership = ()\<rparr>, pl_data = d\<rparr>"
      using l(2) by (cases pl, cases "pl_meta pl") auto
    ultimately show ?thesis using l unfolding b2 demo_sync_api_def
      by (simp only: sync_api.simps list.case u16_from_to_be Let_def) simp
  qed
  then show ?thesis by (simp add: sync_ok_def)
qed

lemma demo_source_from: "from_payload demo_sync_api (replicate 16 7) ''u'' demo_payload = Inr (Some demo_source)"
proof -
  have "chunks PART_SIZE [0, 2, 103, 49, 1, 2, 3 :: u8] = [[0, 2, 103, 49, 1, 2, 3]]"
    by (simp add: chunks.simps PART_SIZE_def)
  then show ?thesis
    by (simp add: from_payload_def demo_sync_api_def demo_payload_def demo_source_def Let_def u16_to_be_def as_bytes_def
        div_ceil_def PART_SIZE_def MAX_PARTS_def)
qed

lemma demo_source_ok:
  "length (replicate 16 (7 :: u8)) = GROUP_ID_LEN" "utf8_ok ''u''" "''u'' \<noteq> []" "length ''u'' < 65536"
  "utf8_ok (pl_group_id demo_payload)" "pl_group_id demo_payload \<noteq> []" "length (pl_group_id demo_payload) < 65536"
  by (simp_all add: utf8_ok_def demo_payload_def GROUP_ID_LEN_def)

end
