(* ===== verification/NetworkClaims.thy ===== *)
theory NetworkClaims
  imports PeerGuard SnapshotGossip
begin

text \<open>
  The properties of the network components.
\<close>

section \<open>The guard of outbound calls\<close>

definition demo_permit :: peer_rpc_permit where
  "demo_permit = \<lparr>pp_key = (Raft, ''p''), pp_open_at_ms = 10005\<rparr>"

definition demo_guard :: peer_rpc_guard where
  "demo_guard = record_failure demo_permit (fst (try_acquire (with_global_limit 2) Raft ''p'' 5 5))"

lemma demo_guard_run: "guard_run 2 [Admitted demo_permit, FailedCall demo_permit] demo_guard [demo_permit]"
proof -
  have p: "snd (try_acquire (with_global_limit 2) Raft ''p'' 5 5) = Inr demo_permit"
    by (simp add: try_acquire_spec Let_def peer_guard_state_new_def PER_PEER_MAX_CONCURRENT_RPCS_def
        with_global_limit_def demo_permit_def CIRCUIT_BREAKER_OPEN_DURATION_def key_state_def)
  then have "try_acquire (with_global_limit 2) Raft ''p'' 5 5 =
      (fst (try_acquire (with_global_limit 2) Raft ''p'' 5 5), Inr demo_permit)"
    by (metis prod.collapse)
  then have "guard_run 2 ([] @ [Admitted demo_permit]) (fst (try_acquire (with_global_limit 2) Raft ''p'' 5 5)) [demo_permit]"
    by (rule guard_run.admit[OF guard_run.start]) (simp add: CIRCUIT_BREAKER_OPEN_DURATION_def)
  then have "guard_run 2 (([] @ [Admitted demo_permit]) @ [FailedCall demo_permit]) demo_guard [demo_permit]"
    unfolding demo_guard_def by (rule guard_run.fail) simp
  then show ?thesis by simp
qed

text \<open>C24: in every run of the guard the calls in flight stay within the limit of each protocol and peer
  and within the limit of the node, and the answer to an attempt is determined by the circuit of its
  key and by the calls in flight: an open circuit, a full key and a full node are rejected in that
  order, everything else is admitted.\<close>

theorem rpc_admission:
  assumes "guard_run limit es g live"
  shows "length live \<le> limit \<and> (\<forall>k. in_flight k live \<le> PER_PEER_MAX_CONCURRENT_RPCS) \<and>
    snd (try_acquire g kind peer now_ms later_ms) =
      (case circuit_of (key_state g (kind, peer)) of
         Opened until \<Rightarrow> if now_ms < until then Inl (CircuitOpen (until - now_ms))
           else if in_flight (kind, peer) live = PER_PEER_MAX_CONCURRENT_RPCS then Inl BulkheadFull
           else if length live = limit then Inl GlobalLimitFull
           else Inr \<lparr>pp_key = (kind, peer), pp_open_at_ms = later_ms + CIRCUIT_BREAKER_OPEN_DURATION\<rparr>
       | Closed _ \<Rightarrow> if in_flight (kind, peer) live = PER_PEER_MAX_CONCURRENT_RPCS then Inl BulkheadFull
           else if length live = limit then Inl GlobalLimitFull
           else Inr \<lparr>pp_key = (kind, peer), pp_open_at_ms = later_ms + CIRCUIT_BREAKER_OPEN_DURATION\<rparr>)"
proof -
  have ok: "rg_global_bulkhead g + length live = limit"
    "gs_bulkhead (key_state g k) + in_flight k live = PER_PEER_MAX_CONCURRENT_RPCS" for k
    using guard_run_ok[OF assms] by (simp_all add: guard_ok_def del: split_paired_All)
  have "gs_bulkhead (key_state g k) = 0 \<longleftrightarrow> in_flight k live = PER_PEER_MAX_CONCURRENT_RPCS"
    "rg_global_bulkhead g = 0 \<longleftrightarrow> length live = limit" for k
    using ok(1) ok(2)[of k] by auto
  moreover have "length live \<le> limit" "in_flight k live \<le> PER_PEER_MAX_CONCURRENT_RPCS" for k
    using ok(1) ok(2)[of k] by simp_all
  ultimately show ?thesis
    by (simp add: try_acquire_spec circuit_of_def Let_def cong: if_cong)
qed

theorem rpc_admission_witness:
  "length [demo_permit] \<le> 2 \<and> (\<forall>k. in_flight k [demo_permit] \<le> PER_PEER_MAX_CONCURRENT_RPCS) \<and>
   snd (try_acquire demo_guard Raft ''p'' 20 20) = Inr \<lparr>pp_key = (Raft, ''p''), pp_open_at_ms = 10020\<rparr>"
  using rpc_admission[OF demo_guard_run, of Raft "''p''" 20 20] guard_run_circuit[OF demo_guard_run, of "(Raft, ''p'')"]
  by (simp add: outcomes_def circuit_after_def failure_streak_def demo_permit_def CIRCUIT_BREAKER_FAILURE_THRESHOLD_def
      in_flight_def PER_PEER_MAX_CONCURRENT_RPCS_def CIRCUIT_BREAKER_OPEN_DURATION_def)

text \<open>The circuit of a protocol and peer depends only on the outcomes reported for it: it is open
  exactly when at least five failures were reported since the last success, and then until the time
  carried by the permit that failed last, ten seconds after that call was admitted. No other
  protocol, peer, rejection or drop has any influence.\<close>

theorem circuit_history:
  assumes "guard_run limit es g live"
  shows "circuit_of (key_state g k) =
    (let streak = takeWhile (\<lambda>x. x \<noteq> None) (rev (outcomes k es)) in
     if length streak < 5 then Closed (length streak) else Opened (the (hd streak)))"
  using guard_run_circuit[OF assms, of k]
  by (simp add: circuit_after_def failure_streak_def CIRCUIT_BREAKER_FAILURE_THRESHOLD_def)

theorem circuit_history_witness:
  "circuit_of (key_state demo_guard (Raft, ''p'')) = Closed 1 \<and> circuit_of (key_state demo_guard (TaskRpc, ''p'')) = Closed 0"
  using circuit_history[OF demo_guard_run, of "(Raft, ''p'')"] circuit_history[OF demo_guard_run, of "(TaskRpc, ''p'')"]
  by (simp add: outcomes_def demo_permit_def)

text \<open>The time until which a circuit opens is fixed when the failing call is admitted, not when it fails:
  after a failure reported ten seconds or more after its admission, the fifth in a row or a later one, no
  call is rejected by the circuit, even when it was open until a later time.\<close>

theorem late_failure_rejects_nothing:
  assumes "guard_run limit es g live" "p \<in> set live" "pp_key p = (kind, peer)" "pp_open_at_ms p \<le> now_ms"
    "4 \<le> length (failure_streak (outcomes (kind, peer) es))"
  shows "circuit_of (key_state (record_failure p g) (kind, peer)) = Opened (pp_open_at_ms p) \<and>
    snd (try_acquire (record_failure p g) kind peer now_ms later_ms) \<noteq> Inl (CircuitOpen t)"
proof -
  have "circuit_of (key_state (record_failure p g) (kind, peer)) = Opened (pp_open_at_ms p)"
    using guard_run_circuit[OF guard_run.fail[OF assms(1,2)], of "(kind, peer)"] assms(3,5)
    by (simp add: circuit_after_def failure_streak_def CIRCUIT_BREAKER_FAILURE_THRESHOLD_def)
  then show ?thesis using assms(4)
    by (auto simp: try_acquire_spec circuit_of_def Let_def split: if_splits)
qed

lemma demo_guard_failures: "guard_run 2 ([Admitted demo_permit, FailedCall demo_permit] @ replicate k (FailedCall demo_permit))
    ((record_failure demo_permit ^^ k) demo_guard) [demo_permit]"
proof (induction k)
  case (Suc k)
  then show ?case using guard_run.fail[OF Suc, of demo_permit] by (simp add: replicate_append_same)
qed (simp add: demo_guard_run)

lemma demo_guard_streak:
  "length (failure_streak (outcomes (Raft, ''p'') ([Admitted demo_permit, FailedCall demo_permit] @ replicate k (FailedCall demo_permit)))) = Suc k"
proof -
  have "outcomes (Raft, ''p'') (replicate k (FailedCall demo_permit)) = replicate k (Some 10005)"
    by (induction k) (simp_all add: outcomes_def demo_permit_def)
  then have "outcomes (Raft, ''p'') ([Admitted demo_permit, FailedCall demo_permit] @ replicate k (FailedCall demo_permit)) =
      replicate (Suc k) (Some 10005)"
    by (simp add: outcomes_def demo_permit_def)
  then show ?thesis by (simp add: failure_streak_def del: replicate_Suc)
qed

theorem late_failure_rejects_nothing_witness:
  "circuit_of (key_state (record_failure demo_permit ((record_failure demo_permit ^^ 3) demo_guard)) (Raft, ''p'')) =
      Opened (pp_open_at_ms demo_permit) \<and>
    snd (try_acquire (record_failure demo_permit ((record_failure demo_permit ^^ 3) demo_guard)) Raft ''p'' 20000 20000) \<noteq> Inl (CircuitOpen 1)"
  by (rule late_failure_rejects_nothing[OF demo_guard_failures[of 3]])
     (simp_all only: demo_guard_streak, simp_all add: demo_permit_def)

section \<open>The snapshot transfer\<close>

text \<open>The metadata block of a partial parses back to its identifiers, size and number of parts, and its
  bitmap has exactly the bits of the parts that are present.\<close>

theorem metadata_roundtrip:
  assumes "partial_ok p"
  shows "\<exists>md. parse_metadata (metadata_bytes p) = Inr md \<and> metadata_matches p md \<and>
    {i. has_part (md_bitmap md) i} = {i. i < length (sp_parts p) \<and> sp_parts p ! i \<noteq> None}"
  using parse_metadata_bytes[OF assms] by (auto simp: metadata_of_def metadata_matches_def has_part_bitmap)

theorem metadata_roundtrip_witness:
  "\<exists>md. parse_metadata (metadata_bytes demo_source) = Inr md \<and> metadata_matches demo_source md \<and>
    {i. has_part (md_bitmap md) i} = {i. i < length (sp_parts demo_source) \<and> sp_parts demo_source ! i \<noteq> None}"
  by (rule metadata_roundtrip) (simp add: partial_ok_def demo_source_def GROUP_ID_LEN_def MAX_PARTS_def utf8_ok_def)

text \<open>C27: a node that learns of a snapshot from its announcement and exchanges metadata and parts with the
  publisher holds four more parts after every round, is complete exactly when the rounds cover all
  parts, and then assembles the payload that was published.\<close>

theorem snapshot_transfer_converges:
  assumes "sync_ok a" "from_payload a uuid uuid_text pl = Inr (Some src)"
    "length uuid = GROUP_ID_LEN" "utf8_ok uuid_text" "uuid_text \<noteq> []" "length uuid_text < 65536"
    "utf8_ok (pl_group_id pl)" "pl_group_id pl \<noteq> []" "length (pl_group_id pl) < 65536"
  shows "\<exists>md r. parse_metadata (an_metadata (available_announcement src)) = Inr md \<and>
    r = (exchange src ^^ k) (empty_partial (an_group_id (available_announcement src)) md) \<and>
    present_parts r = min (4 * k) (length (sp_parts src)) \<and>
    (is_complete r \<longleftrightarrow> length (sp_parts src) \<le> 4 * k) \<and>
    (if is_complete r then to_payload a r = Inr pl else to_payload a r = Inl ''snapshot is missing parts'')"
proof -
  note src = from_payload_source[OF assms]
  let ?e = "empty_partial (sp_group_id src) (metadata_of src)"
  let ?r = "(exchange src ^^ k) ?e"
  have e: "copy_of src ?e" by (rule empty_partial_copy[OF src(1) copy_of_refl])
  have r: "copy_of src ?r" "missing src ?r = drop (4 * k) (missing src ?e)"
    using exchange_rounds[OF src(1) copy_of_refl e, of k] by (simp_all add: MAX_PARTS_PER_MESSAGE_def)
  have n: "unat (total_parts src) = length (sp_parts src)" using src(1) by (simp add: partial_ok_def MAX_PARTS_def total_parts_def)
  then have "present_parts ?e = 0" by (simp add: present_parts_def empty_partial_def metadata_of_def)
  then have "length (missing src ?e) = length (sp_parts src)" using present_missing[OF src(2) e] by simp
  then have m: "length (missing src ?r) = length (sp_parts src) - 4 * k" using r(2) by simp
  have pr: "present_parts ?r = min (4 * k) (length (sp_parts src))" using present_missing[OF src(2) r(1)] m by auto
  have c: "is_complete ?r \<longleftrightarrow> length (sp_parts src) \<le> 4 * k"
    using m complete_missing[OF r(1) _ src(2)] complete_copy[OF r(1)] by auto
  have "to_payload a ?r = Inl ''snapshot is missing parts''" if "\<not> is_complete ?r"
    using that collect_parts_missing[of "sp_parts ?r"] by (simp add: to_payload_def is_complete_def list_ex_iff list_all_iff)
  then show ?thesis using parse_metadata_bytes[OF src(1)] pr c complete_copy[OF r(1)] src(3)
    by (auto simp: available_announcement_def)
qed

theorem snapshot_transfer_converges_witness:
  "\<exists>md r. parse_metadata (an_metadata (available_announcement demo_source)) = Inr md \<and>
    r = (exchange demo_source ^^ 1) (empty_partial (an_group_id (available_announcement demo_source)) md) \<and>
    present_parts r = min (4 * 1) (length (sp_parts demo_source)) \<and>
    (is_complete r \<longleftrightarrow> length (sp_parts demo_source) \<le> 4 * 1) \<and>
    (if is_complete r then to_payload demo_sync_api r = Inr demo_payload
     else to_payload demo_sync_api r = Inl ''snapshot is missing parts'')"
  by (rule snapshot_transfer_converges[OF demo_sync_ok demo_source_from demo_source_ok])

text \<open>C28: however the metadata and the parts of a published snapshot are gossiped, delivered in any order,
  late, repeatedly or not at all, every node that holds a complete snapshot holds the published one,
  installs only that, no message is refused, and the first completion is reported exactly when the
  snapshot enters the installed set.\<close>

theorem gossip_integrity:
  assumes "sync_ok a" "from_payload a uuid uuid_text pl = Inr (Some src)"
    "length uuid = GROUP_ID_LEN" "utf8_ok uuid_text" "uuid_text \<noteq> []" "length uuid_text < 65536"
    "utf8_ok (pl_group_id pl)" "pl_group_id pl \<noteq> []" "length (pl_group_id pl) < 65536"
    "gossip src N M"
  shows "{i. \<exists>p. sy_partials (N i) (sp_group_id src) = Some p \<and> is_complete p \<and> to_payload a p \<noteq> Inr pl} = {} \<and>
    {i. sp_group_id src \<in> sy_installed (N i) \<and> sy_partials (N i) (sp_group_id src) \<noteq> Some src} = {} \<and>
    {(md, m) \<in> M. \<exists>j. \<not> (\<exists>st' u. handle_partial (sp_group_id src) md m (N j) = (st', Inr u) \<and>
      (su_first_complete u \<longleftrightarrow> sp_group_id src \<in> sy_installed st' - sy_installed (N j)))} = {}"
proof -
  note src = from_payload_source[OF assms(1-9)]
  note inv = gossip_inv[OF assms(10) src(1,2)]
  have "to_payload a p = Inr pl" if "sy_partials (N i) (sp_group_id src) = Some p" "is_complete p" for i p
    using that inv(1)[of i] complete_copy[of src p] src(3) by (auto simp: node_ok_def)
  moreover have "\<exists>st' u. handle_partial (sp_group_id src) md m (N j) = (st', Inr u) \<and>
      (su_first_complete u \<longleftrightarrow> sp_group_id src \<in> sy_installed st' - sy_installed (N j))" if "(md, m) \<in> M" for md m j
    using handle_partial_ok[OF src(1) inv(1)[of j] inv(2)[OF that] src(2)] by (auto split: if_splits)
  ultimately show ?thesis using inv(1) by (auto simp: node_ok_def)
qed

theorem gossip_integrity_witness:
  "{i :: nat. \<exists>p. sy_partials (((\<lambda>_. \<lparr>sy_partials = Map.empty, sy_installed = {}\<rparr>)(0 := insert_local demo_source
       \<lparr>sy_partials = Map.empty, sy_installed = {}\<rparr>)) i) (sp_group_id demo_source) = Some p \<and>
     is_complete p \<and> to_payload demo_sync_api p \<noteq> Inr demo_payload} = {}"
  using gossip_integrity[OF demo_sync_ok demo_source_from demo_source_ok gossip.publish[OF gossip.start, of demo_source 0]]
  by (rule conjunct1)

end
