(* ===== verification/MembershipGuard.thy ===== *)
theory MembershipGuard
  imports Prelude
begin

text \<open>
  The self-healing membership of a raft group, \<open>membership_guard.rs\<close>: the leader tracks how long
  each member has been unreachable and replaces a voter, or removes a learner, that stayed
  unreachable past a timeout. Node ids are strings, instants are milliseconds. What openraft
  and libp2p report at a tick is the record \<open>observation\<close>: the raft metrics, which peers are alive,
  the age of the last raft acknowledgement of each member, the known nodes, whether the fence of
  membership changes is free, and the order in which the hash map of down times is iterated.
  Membership calls of openraft are the argument \<open>submit\<close>.
\<close>

section \<open>Data\<close>

record guard_metrics =
  gm_id :: string
  gm_is_leader :: bool
  gm_voters :: "string list"
  gm_learners :: "string list"
  gm_nodes :: "string list"
  gm_heartbeat :: "(string \<times> nat option) list option"

record observation =
  ob_metrics :: guard_metrics
  ob_peer_id :: "string \<Rightarrow> string option"
  ob_peer_alive :: "string \<Rightarrow> bool"
  ob_ack_timeout :: nat
  ob_now :: nat
  ob_replace_timeout :: nat
  ob_fence_free :: bool
  ob_order :: "string list"

type_synonym down_clock = "string \<Rightarrow> nat option"

datatype guard_action = NoAction | Deferred string | NoPromotable string
  | ChangeMember string nat "string option"

definition RAFT_ACK_FRESH_TIMEOUT :: nat where "RAFT_ACK_FRESH_TIMEOUT = 10 * 1000"

section \<open>Observers\<close>

definition node_alive :: "observation \<Rightarrow> string \<Rightarrow> bool" where
  "node_alive ob node_id = (case ob_peer_id ob node_id of Some peer_id \<Rightarrow> ob_peer_alive ob peer_id | None \<Rightarrow> False)"

definition fresh_raft_acks :: "guard_metrics \<Rightarrow> nat \<Rightarrow> string set" where
  "fresh_raft_acks m ack_timeout =
     (case gm_heartbeat m of None \<Rightarrow> {}
      | Some heartbeat \<Rightarrow> set (map fst (filter (\<lambda>(_, last_ack).
          case last_ack of Some elapsed \<Rightarrow> elapsed < ack_timeout | None \<Rightarrow> False) heartbeat)))"

fun pick_loop :: "observation \<Rightarrow> string set \<Rightarrow> string option \<Rightarrow> string list \<Rightarrow> string option" where
  "pick_loop ob fresh connected_only [] = connected_only"
| "pick_loop ob fresh connected_only (learner # ls) =
     (if \<not> node_alive ob learner then pick_loop ob fresh connected_only ls
      else if learner \<in> fresh then Some learner
      else pick_loop ob fresh (if connected_only = None then Some learner else connected_only) ls)"

definition pick_promotable_learner :: "observation \<Rightarrow> string set \<Rightarrow> string list \<Rightarrow> string option" where
  "pick_promotable_learner ob fresh learners = pick_loop ob fresh None learners"

section \<open>A tick of the guard\<close>

definition track_member :: "observation \<Rightarrow> string set \<Rightarrow> down_clock \<Rightarrow> string \<Rightarrow> down_clock" where
  "track_member ob fresh down member =
     (if member = gm_id (ob_metrics ob) then down
      else if node_alive ob member \<or> member \<in> fresh then down(member := None)
      else (case down member of Some _ \<Rightarrow> down | None \<Rightarrow> down(member \<mapsto> ob_now ob)))"

definition track_members :: "observation \<Rightarrow> string set \<Rightarrow> down_clock \<Rightarrow> down_clock" where
  "track_members ob fresh down =
     (let members = sorted_list_of_set (set (gm_nodes (ob_metrics ob)));
          down1 = foldl (track_member ob fresh) down members in
      (\<lambda>i. if i \<in> set members \<and> i \<noteq> gm_id (ob_metrics ob) then down1 i else None))"

text \<open>\<open>max_by_key\<close>: the last of the entries with the largest key.\<close>

definition later_max :: "(string \<times> nat) option \<Rightarrow> string \<times> nat \<Rightarrow> (string \<times> nat) option" where
  "later_max best e = (case best of None \<Rightarrow> Some e | Some b \<Rightarrow> if snd b \<le> snd e then Some e else Some b)"

definition expired_member :: "observation \<Rightarrow> down_clock \<Rightarrow> (string \<times> nat) option" where
  "expired_member ob down =
     foldl later_max None
       (filter (\<lambda>(_, downtime). ob_replace_timeout ob \<le> downtime)
         (concat (map (\<lambda>i. case down i of Some since \<Rightarrow> [(i, ob_now ob - since)] | None \<Rightarrow> []) (ob_order ob))))"

definition guard_tick :: "observation \<Rightarrow> down_clock \<Rightarrow> down_clock \<times> guard_action" where
  "guard_tick ob down_since =
     (let m = ob_metrics ob in
      if \<not> gm_is_leader m then (Map.empty, NoAction)
      else let fresh = fresh_raft_acks m (ob_ack_timeout ob);
               down = track_members ob fresh down_since in
        case expired_member ob down of None \<Rightarrow> (down, NoAction)
        | Some (dead, downtime) \<Rightarrow>
            if \<not> ob_fence_free ob then (down, Deferred dead)
            else if dead \<in> set (gm_voters m) then
              (case pick_promotable_learner ob fresh (gm_learners m) of
                 None \<Rightarrow> (down, NoPromotable dead)
               | Some p \<Rightarrow> (down, ChangeMember dead downtime (Some p)))
            else (down, ChangeMember dead downtime None))"

section \<open>The membership change\<close>

datatype membership_request = ChangeVoters "string set" | RemoveNodes "string set" | AddLearner string string

definition replacement_request :: "string list \<Rightarrow> string \<Rightarrow> string option \<Rightarrow> membership_request" where
  "replacement_request voters dead promoted =
     (case promoted of
        Some p \<Rightarrow> ChangeVoters (insert p (set voters - {dead}))
      | None \<Rightarrow> RemoveNodes {dead})"

text \<open>The known nodes come with their peer id and address; the candidates are sorted by node id.\<close>

definition spare_candidates ::
  "(string \<times> string \<times> string) list \<Rightarrow> (string \<Rightarrow> bool) \<Rightarrow> string set \<Rightarrow> string \<Rightarrow> (string \<times> string) list" where
  "spare_candidates known alive member_ids dead =
     map (\<lambda>(n, _, addr). (n, addr)) (filter (\<lambda>(n, peer, _). \<not> (n \<in> member_ids \<or> n = dead) \<and> alive peer) known)"

definition pick_spare_worker ::
  "(string \<times> string \<times> string) list \<Rightarrow> (string \<Rightarrow> bool) \<Rightarrow> string set \<Rightarrow> string \<Rightarrow> (string \<times> string) option" where
  "pick_spare_worker known alive member_ids dead =
     (case sort_key fst (spare_candidates known alive member_ids dead) of [] \<Rightarrow> None | c # _ \<Rightarrow> Some c)"

definition backfill_learner ::
  "('r \<Rightarrow> membership_request \<Rightarrow> 'r \<times> unit result) \<Rightarrow> (string \<times> string \<times> string) list \<Rightarrow> (string \<Rightarrow> bool) \<Rightarrow>
   string set \<Rightarrow> string \<Rightarrow> 'r \<Rightarrow> 'r" where
  "backfill_learner submit known alive member_ids dead raft =
     (case pick_spare_worker known alive member_ids dead of
        Some (n, addr) \<Rightarrow> fst (submit raft (AddLearner n addr))
      | None \<Rightarrow> raft)"

definition execute_membership_change ::
  "('r \<Rightarrow> membership_request \<Rightarrow> 'r \<times> unit result) \<Rightarrow> (string \<times> string \<times> string) list \<Rightarrow> (string \<Rightarrow> bool) \<Rightarrow>
   string list \<Rightarrow> string set \<Rightarrow> string \<Rightarrow> string option \<Rightarrow> 'r \<Rightarrow> 'r \<times> unit result" where
  "execute_membership_change submit known alive voters member_ids dead promoted raft =
     (case submit raft (replacement_request voters dead promoted) of
        (raft1, Inl e) \<Rightarrow> (raft1,
          Inl ((case promoted of Some _ \<Rightarrow> ''change_membership failed: '' | None \<Rightarrow> ''remove learner failed: '') @ e))
      | (raft1, Inr _) \<Rightarrow> (backfill_learner submit known alive member_ids dead raft1, Inr ()))"

section \<open>The down clock\<close>

definition unreachable :: "observation \<Rightarrow> string \<Rightarrow> bool" where
  "unreachable ob i \<longleftrightarrow> gm_is_leader (ob_metrics ob) \<and> i \<in> set (gm_nodes (ob_metrics ob)) \<and> i \<noteq> gm_id (ob_metrics ob) \<and>
     \<not> node_alive ob i \<and> i \<notin> fresh_raft_acks (ob_metrics ob) (ob_ack_timeout ob)"

lemma track_fold:
  assumes "distinct ms"
  shows "foldl (track_member ob fresh) down ms i =
    (if i \<in> set ms \<and> i \<noteq> gm_id (ob_metrics ob) then
       (if node_alive ob i \<or> i \<in> fresh then None
        else Some (case down i of Some t \<Rightarrow> t | None \<Rightarrow> ob_now ob))
     else down i)"
  using assms
proof (induction ms arbitrary: down)
  case (Cons m ms)
  then show ?case by (auto simp: track_member_def split: option.splits)
qed simp

lemma track_members_eq:
  "track_members ob fresh down i =
    (if i \<in> set (gm_nodes (ob_metrics ob)) \<and> i \<noteq> gm_id (ob_metrics ob) \<and> \<not> node_alive ob i \<and> i \<notin> fresh
     then Some (case down i of Some t \<Rightarrow> t | None \<Rightarrow> ob_now ob) else None)"
  by (simp add: track_members_def Let_def track_fold)

lemma guard_tick_clock:
  "fst (guard_tick ob down) i =
    (if unreachable ob i then Some (case down i of Some t \<Rightarrow> t | None \<Rightarrow> ob_now ob) else None)"
  by (auto simp: guard_tick_def Let_def track_members_eq unreachable_def split: option.splits)

definition guard_clock :: "observation list \<Rightarrow> down_clock" where
  "guard_clock obs = foldl (\<lambda>down ob. fst (guard_tick ob down)) Map.empty obs"

text \<open>A running clock was started at a tick since which every tick saw the member unreachable.\<close>

lemma guard_clock_history:
  "guard_clock obs i = Some t \<Longrightarrow>
    \<exists>pre ob suf. obs = pre @ ob # suf \<and> ob_now ob = t \<and> (\<forall>o' \<in> set (ob # suf). unreachable o' i)"
proof (induction obs arbitrary: t rule: rev_induct)
  case Nil
  then show ?case by (simp add: guard_clock_def)
next
  case (snoc ob obs)
  have eq: "guard_clock (obs @ [ob]) i =
      (if unreachable ob i then Some (case guard_clock obs i of Some t \<Rightarrow> t | None \<Rightarrow> ob_now ob) else None)"
    by (simp add: guard_clock_def guard_tick_clock)
  then have u: "unreachable ob i" using snoc.prems by (simp split: if_splits)
  show ?case
  proof (cases "guard_clock obs i")
    case None
    then show ?thesis using eq u snoc.prems by (intro exI[of _ obs] exI[of _ ob] exI[of _ "[]"]) simp
  next
    case (Some t0)
    then obtain pre o1 suf where "obs = pre @ o1 # suf" "ob_now o1 = t0" "\<forall>o' \<in> set (o1 # suf). unreachable o' i"
      using snoc.IH by blast
    then show ?thesis using eq u snoc.prems Some
      by (intro exI[of _ pre] exI[of _ o1] exI[of _ "suf @ [ob]"]) auto
  qed
qed

section \<open>The choice\<close>

lemma later_max_Some:
  "\<exists>y. later_max b x = Some y \<and> (y = x \<or> b = Some y) \<and> snd x \<le> snd y \<and> (\<forall>z. b = Some z \<longrightarrow> snd z \<le> snd y)"
  by (cases b; cases x) (auto simp: later_max_def)

lemma later_max_fold:
  "foldl later_max b es = Some e \<Longrightarrow> (b = Some e \<or> e \<in> set es) \<and>
    (\<forall>x \<in> set es. snd x \<le> snd e) \<and> (\<forall>x. b = Some x \<longrightarrow> snd x \<le> snd e)"
proof (induction es arbitrary: b)
  case (Cons x es)
  obtain y where y: "later_max b x = Some y" "y = x \<or> b = Some y" "snd x \<le> snd y" "\<forall>z. b = Some z \<longrightarrow> snd z \<le> snd y"
    using later_max_Some by blast
  then have "foldl later_max (Some y) es = Some e" using Cons.prems by simp
  then have "y = e \<or> e \<in> set es" "\<forall>x \<in> set es. snd x \<le> snd e" "snd y \<le> snd e" using Cons.IH[of "Some y"] by blast+
  then show ?case using y(2-4) by (auto simp del: split_paired_All dest: order_trans)
qed simp

definition down_entries :: "observation \<Rightarrow> down_clock \<Rightarrow> (string \<times> nat) list" where
  "down_entries ob down = filter (\<lambda>(_, downtime). ob_replace_timeout ob \<le> downtime)
     (concat (map (\<lambda>i. case down i of Some since \<Rightarrow> [(i, ob_now ob - since)] | None \<Rightarrow> []) (ob_order ob)))"

lemma down_entries_mem:
  "(i, d) \<in> set (down_entries ob down) \<longleftrightarrow>
    (\<exists>since. i \<in> set (ob_order ob) \<and> down i = Some since \<and> d = ob_now ob - since) \<and> ob_replace_timeout ob \<le> d"
  by (cases "down i") (force simp: down_entries_def split: option.splits)+

lemma expired_member_spec:
  assumes "expired_member ob down = Some (dead, downtime)"
  shows "\<exists>since. down dead = Some since \<and> downtime = ob_now ob - since" "ob_replace_timeout ob \<le> downtime"
    "\<And>i since. i \<in> set (ob_order ob) \<Longrightarrow> down i = Some since \<Longrightarrow> ob_now ob - since \<le> downtime"
proof -
  note m = later_max_fold[OF assms[unfolded expired_member_def down_entries_def[symmetric]]]
  then have mem: "(dead, downtime) \<in> set (down_entries ob down)" by simp
  then show "\<exists>since. down dead = Some since \<and> downtime = ob_now ob - since" and le: "ob_replace_timeout ob \<le> downtime"
    by (auto simp: down_entries_mem)
  show "ob_now ob - since \<le> downtime" if i: "i \<in> set (ob_order ob)" "down i = Some since" for i since
  proof (cases "ob_replace_timeout ob \<le> ob_now ob - since")
    case True
    then have "(i, ob_now ob - since) \<in> set (down_entries ob down)" using i by (auto simp: down_entries_mem)
    then show ?thesis using m by fastforce
  next
    case False
    then show ?thesis using le by simp
  qed
qed

lemma pick_loop_spec:
  "pick_loop ob fresh c ls = Some p \<Longrightarrow>
    (c = Some p \<or> (p \<in> set ls \<and> node_alive ob p)) \<and> (p \<in> fresh \<or> {l \<in> set ls. node_alive ob l \<and> l \<in> fresh} = {})"
proof (induction ob fresh c ls rule: pick_loop.induct)
  case (2 ob fresh c learner ls)
  then show ?case by (auto split: if_splits)
qed auto

lemma pick_promotable_None:
  "pick_promotable_learner ob fresh learners = None \<longleftrightarrow> {l \<in> set learners. node_alive ob l} = {}"
proof -
  have "pick_loop ob fresh c ls = None \<longleftrightarrow> c = None \<and> {l \<in> set ls. node_alive ob l} = {}" for c ls
    by (induction ob fresh c ls rule: pick_loop.induct) auto
  then show ?thesis by (simp add: pick_promotable_learner_def)
qed

lemma guard_tick_change:
  assumes "guard_tick ob down = (down', ChangeMember dead downtime promoted)"
  shows "unreachable ob dead" "\<exists>since. down' dead = Some since \<and> downtime = ob_now ob - since"
    "ob_replace_timeout ob \<le> downtime" "ob_fence_free ob"
    "promoted = None \<longleftrightarrow> dead \<notin> set (gm_voters (ob_metrics ob))"
    "\<And>p. promoted = Some p \<Longrightarrow> p \<in> set (gm_learners (ob_metrics ob)) \<and> node_alive ob p"
proof -
  let ?fresh = "fresh_raft_acks (ob_metrics ob) (ob_ack_timeout ob)"
  have d: "down' = track_members ob ?fresh down" "expired_member ob down' = Some (dead, downtime)" "ob_fence_free ob"
    "gm_is_leader (ob_metrics ob)"
    using assms by (fastforce simp: guard_tick_def Let_def split: if_splits option.splits prod.splits)+
  have p: "\<exists>p. promoted = Some p \<and> pick_promotable_learner ob ?fresh (gm_learners (ob_metrics ob)) = Some p"
    if "dead \<in> set (gm_voters (ob_metrics ob))"
    using that assms d by (cases "pick_promotable_learner ob ?fresh (gm_learners (ob_metrics ob))") (auto simp: guard_tick_def Let_def)
  have np: "promoted = None" if "dead \<notin> set (gm_voters (ob_metrics ob))"
    using that assms d by (simp add: guard_tick_def Let_def)
  note e = expired_member_spec[OF d(2)]
  show "\<exists>since. down' dead = Some since \<and> downtime = ob_now ob - since" "ob_replace_timeout ob \<le> downtime" "ob_fence_free ob"
    by (rule e(1), rule e(2), rule d(3))
  show "unreachable ob dead" using e(1) d(1,4) by (auto simp: track_members_eq unreachable_def split: if_splits)
  show "promoted = None \<longleftrightarrow> dead \<notin> set (gm_voters (ob_metrics ob))" using p np by auto
  show "p \<in> set (gm_learners (ob_metrics ob)) \<and> node_alive ob p" if "promoted = Some p" for p
    using that p np pick_loop_spec[of ob ?fresh None "gm_learners (ob_metrics ob)" p]
    by (auto simp: pick_promotable_learner_def)
qed

end
