(* ===== verification/ClusterClaims.thy ===== *)
theory ClusterClaims
  imports MembershipGuard
begin

text \<open>
  The properties of the components that keep the cluster together.
\<close>

section \<open>The membership guard\<close>

definition demo_ob :: "nat \<Rightarrow> observation" where
  "demo_ob t = \<lparr>ob_metrics = \<lparr>gm_id = ''a'', gm_is_leader = True, gm_voters = [''a'', ''b'', ''c''], gm_learners = [''d'', ''e''],
       gm_nodes = [''a'', ''b'', ''c'', ''d'', ''e''], gm_heartbeat = Some [(''e'', Some 100), (''c'', Some 20)]\<rparr>,
     ob_peer_id = Some, ob_peer_alive = (\<lambda>p. p \<in> {''d'', ''e''}), ob_ack_timeout = 10000, ob_now = t,
     ob_replace_timeout = 60000, ob_fence_free = True, ob_order = [''b'']\<rparr>"

lemma demo_ob_change: "snd (guard_tick (demo_ob 70000) (guard_clock [demo_ob 0, demo_ob 5000])) = ChangeMember ''b'' 70000 (Some ''e'')"
proof -
  have u: "unreachable (demo_ob t) i \<longleftrightarrow> i = ''b''" for t i
    by (auto simp: unreachable_def demo_ob_def fresh_raft_acks_def node_alive_def)
  have c: "guard_clock [demo_ob 0, demo_ob 5000] = [''b'' \<mapsto> 0]"
    by (auto simp: guard_clock_def guard_tick_clock u fun_eq_iff) (simp add: demo_ob_def)
  have "track_members (demo_ob 70000) (fresh_raft_acks (ob_metrics (demo_ob 70000)) (ob_ack_timeout (demo_ob 70000))) [''b'' \<mapsto> 0] = [''b'' \<mapsto> 0]"
    by (auto simp: fun_eq_iff track_members_eq demo_ob_def fresh_raft_acks_def node_alive_def)
  then show ?thesis unfolding c
    by (simp add: guard_tick_def Let_def expired_member_def later_max_def demo_ob_def pick_promotable_learner_def
        node_alive_def fresh_raft_acks_def)
qed

text \<open>C29: when the guard decides on a membership change, the member was seen unreachable by both observers
  at every tick of an unbroken stretch that began at least the replace timeout ago, it is a member other
  than the leader itself, and the fence is free. A dead voter is replaced by a live learner: the
  requested voters are as many as before, keep every other voter and no longer include the dead one. A
  dead learner is removed, and nothing else.\<close>

theorem membership_change_justified:
  assumes "snd (guard_tick ob (guard_clock obs)) = ChangeMember dead downtime promoted"
    "distinct (gm_voters (ob_metrics ob))" "set (gm_voters (ob_metrics ob)) \<inter> set (gm_learners (ob_metrics ob)) = {}"
  shows "\<exists>pre first suf voters'. obs @ [ob] = pre @ first # suf \<and> {o' \<in> set (first # suf). \<not> unreachable o' dead} = {} \<and>
    downtime = ob_now ob - ob_now first \<and> ob_replace_timeout ob \<le> downtime \<and>
    dead \<in> set (gm_nodes (ob_metrics ob)) \<and> dead \<noteq> gm_id (ob_metrics ob) \<and> ob_fence_free ob \<and>
    (if dead \<in> set (gm_voters (ob_metrics ob)) then
       replacement_request (gm_voters (ob_metrics ob)) dead promoted = ChangeVoters voters' \<and>
       card voters' = length (gm_voters (ob_metrics ob)) \<and> dead \<notin> voters' \<and> set (gm_voters (ob_metrics ob)) - {dead} \<subseteq> voters' \<and>
       voters' - set (gm_voters (ob_metrics ob)) \<subseteq> {l \<in> set (gm_learners (ob_metrics ob)). node_alive ob l}
     else replacement_request (gm_voters (ob_metrics ob)) dead promoted = RemoveNodes {dead})"
proof -
  let ?V = "gm_voters (ob_metrics ob)"
  obtain down' where tick: "guard_tick ob (guard_clock obs) = (down', ChangeMember dead downtime promoted)"
    using assms(1) by (cases "guard_tick ob (guard_clock obs)") auto
  note ch = guard_tick_change[OF tick]
  have clock: "guard_clock (obs @ [ob]) = down'" using tick by (simp add: guard_clock_def)
  obtain since where since: "down' dead = Some since" "downtime = ob_now ob - since" using ch(2) by blast
  obtain pre first suf where h: "obs @ [ob] = pre @ first # suf" "ob_now first = since" "\<forall>o' \<in> set (first # suf). unreachable o' dead"
    using guard_clock_history[of "obs @ [ob]" dead since] since(1) clock by auto
  let ?r = "replacement_request ?V dead promoted"
  have req: "\<exists>voters'. (if dead \<in> set ?V then ?r = ChangeVoters voters' \<and> card voters' = length ?V \<and> dead \<notin> voters' \<and>
      set ?V - {dead} \<subseteq> voters' \<and> voters' - set ?V \<subseteq> {l \<in> set (gm_learners (ob_metrics ob)). node_alive ob l}
     else ?r = RemoveNodes {dead})"
  proof (cases "dead \<in> set ?V")
    case True
    then obtain p where p: "promoted = Some p" using ch(5) by auto
    then have pl: "p \<in> set (gm_learners (ob_metrics ob))" "node_alive ob p" using ch(6) by auto
    then have "p \<notin> set ?V" using assms(3) by blast
    then have "card (insert p (set ?V - {dead})) = length ?V" "dead \<notin> insert p (set ?V - {dead})"
      using True assms(2) by (auto simp: distinct_card card_gt_0_iff card.insert_remove intro: Suc_pred)
    then show ?thesis using True pl by (auto simp: replacement_request_def p)
  next
    case False
    then show ?thesis using ch(5) by (simp add: replacement_request_def)
  qed
  moreover have "dead \<in> set (gm_nodes (ob_metrics ob))" "dead \<noteq> gm_id (ob_metrics ob)" using ch(1) by (simp_all add: unreachable_def)
  ultimately show ?thesis using h since(2) ch(3,4) by auto
qed

theorem membership_change_justified_witness:
  "\<exists>pre first suf voters'. [demo_ob 0, demo_ob 5000] @ [demo_ob 70000] = pre @ first # suf \<and> {o' \<in> set (first # suf). \<not> unreachable o' ''b''} = {} \<and>
    70000 = ob_now (demo_ob 70000) - ob_now first \<and> ob_replace_timeout (demo_ob 70000) \<le> 70000 \<and>
    ''b'' \<in> set (gm_nodes (ob_metrics (demo_ob 70000))) \<and> ''b'' \<noteq> gm_id (ob_metrics (demo_ob 70000)) \<and> ob_fence_free (demo_ob 70000) \<and>
    (if ''b'' \<in> set (gm_voters (ob_metrics (demo_ob 70000))) then
       replacement_request (gm_voters (ob_metrics (demo_ob 70000))) ''b'' (Some ''e'') = ChangeVoters voters' \<and>
       card voters' = length (gm_voters (ob_metrics (demo_ob 70000))) \<and> ''b'' \<notin> voters' \<and> set (gm_voters (ob_metrics (demo_ob 70000))) - {''b''} \<subseteq> voters' \<and>
       voters' - set (gm_voters (ob_metrics (demo_ob 70000))) \<subseteq> {l \<in> set (gm_learners (ob_metrics (demo_ob 70000))). node_alive (demo_ob 70000) l}
     else replacement_request (gm_voters (ob_metrics (demo_ob 70000))) ''b'' (Some ''e'') = RemoveNodes {''b''})"
  by (rule membership_change_justified[OF demo_ob_change]) (simp_all add: demo_ob_def)

end
