(* ===== verification/TaskService.thy ===== *)
theory TaskService
  imports Scheduler "HOL-Library.Multiset"
begin

text \<open>
  The task service that control nodes offer, \<open>tasks/rpc.rs\<close>, the parts of \<open>store.rs\<close> it reads through,
  and the client's table of control nodes. A group that a registry knows is its store together
  with the outcome of openraft's linearizable read; \<open>client_write\<close> is openraft's, with the
  cluster as the state it acts on. The tarpc envelope
  around requests and replies is in \<open>TaskApi\<close>.
\<close>

section \<open>Replies\<close>

record task_write_reply =
  wr_ok :: bool
  wr_value :: "string option"
  wr_error :: "string option"
  wr_leader_id :: "string option"
  wr_leader_addr :: "string option"

definition write_error :: "string \<Rightarrow> task_write_reply" where
  "write_error message = \<lparr>wr_ok = False, wr_value = None, wr_error = Some message, wr_leader_id = None, wr_leader_addr = None\<rparr>"

record assigned_task =
  at_id :: string
  at_lease_epoch :: u64

record task_ids_reply =
  ti_ok :: bool
  ti_assigned :: "assigned_task list"
  ti_error :: "string option"

record task_records_reply =
  tk_ok :: bool
  tk_tasks :: "task_record list"
  tk_error :: "string option"

record worker_leases_reply =
  wk_ok :: bool
  wk_workers :: "worker_lease_record list"
  wk_error :: "string option"

record task_metrics_reply =
  mt_ok :: bool
  mt_metrics :: "task_queue_metrics option"
  mt_error :: "string option"

definition MAX_TASK_ATTEMPTS :: u32 where "MAX_TASK_ATTEMPTS = 3"
definition MAX_TASK_PAYLOAD_BYTES :: nat where "MAX_TASK_PAYLOAD_BYTES = 256 * 1024"

section \<open>Writes\<close>

text \<open>An error of \<open>client_write\<close>: its text and, when the node is not the leader, the leader it names.\<close>

record client_write_error =
  ce_text :: string
  ce_forward :: "(string option \<times> string option) option"

definition payload_too_large :: "request \<Rightarrow> nat option" where
  "payload_too_large cmd =
     (case cmd of
        ReqTask (TaskEnqueue _ payload _ _ _) \<Rightarrow> if MAX_TASK_PAYLOAD_BYTES < length payload then Some (length payload) else None
      | _ \<Rightarrow> None)"

definition submit ::
  "(string \<Rightarrow> ('w \<Rightarrow> request \<Rightarrow> 'w \<times> (client_write_error + response)) option) \<Rightarrow> string \<Rightarrow> request \<Rightarrow> 'w \<Rightarrow> 'w \<times> task_write_reply" where
  "submit registry group_id cmd w =
     (case registry group_id of
        None \<Rightarrow> (w, write_error (''unknown group_id='' @ group_id))
      | Some client_write \<Rightarrow>
          (case payload_too_large cmd of
             Some n \<Rightarrow> (w, write_error (''task payload is '' @ show_nat n @ '' bytes, over the '' @
               show_nat MAX_TASK_PAYLOAD_BYTES @ '' byte limit''))
           | None \<Rightarrow>
               (case client_write w cmd of
                  (w', Inr resp) \<Rightarrow> (w', \<lparr>wr_ok = True, wr_value = rs_value resp, wr_error = None, wr_leader_id = None, wr_leader_addr = None\<rparr>)
                | (w', Inl err) \<Rightarrow>
                    let reply = write_error (''client_write failed: '' @ ce_text err) in
                    (w', case ce_forward err of
                       Some (leader_id, leader_addr) \<Rightarrow> reply\<lparr>wr_leader_id := leader_id, wr_leader_addr := leader_addr\<rparr>
                     | None \<Rightarrow> reply))))"

section \<open>Reads\<close>

type_synonym read_registry = "string \<Rightarrow> (kv \<times> unit result) option"

definition read_entries :: "read_registry \<Rightarrow> string \<Rightarrow> string \<Rightarrow> (string \<times> string) list result" where
  "read_entries registry group_id prefix =
     (case registry group_id of
        None \<Rightarrow> Inl (''unknown group_id='' @ group_id)
      | Some (kv, Inl e) \<Rightarrow> Inl (''linearizable read failed: '' @ e)
      | Some (kv, Inr _) \<Rightarrow> Inr (entries_with_prefix kv prefix))"

definition assigned_entry :: "string \<times> string \<Rightarrow> assigned_task option" where
  "assigned_entry = (\<lambda>(key, value).
     case parse_assigned_idx_key key of None \<Rightarrow> None
     | Some (_, task_id) \<Rightarrow> (case parse_u64 value of None \<Rightarrow> None
         | Some lease_epoch \<Rightarrow> Some \<lparr>at_id = task_id, at_lease_epoch = lease_epoch\<rparr>))"

definition list_assigned :: "read_registry \<Rightarrow> string \<Rightarrow> string \<Rightarrow> task_ids_reply" where
  "list_assigned registry group_id node_id =
     (case read_entries registry group_id (assigned_idx_node_prefix node_id) of
        Inr entries \<Rightarrow> \<lparr>ti_ok = True, ti_assigned = List.map_filter assigned_entry entries, ti_error = None\<rparr>
      | Inl err \<Rightarrow> \<lparr>ti_ok = False, ti_assigned = [], ti_error = Some err\<rparr>)"

definition decode_entries :: "(string \<Rightarrow> 'a result) \<Rightarrow> (string \<times> string) list \<Rightarrow> 'a list" where
  "decode_entries dec es = List.map_filter (\<lambda>(_, value). case dec value of Inl _ \<Rightarrow> None | Inr x \<Rightarrow> Some x) es"

definition read_records :: "codec \<Rightarrow> read_registry \<Rightarrow> string \<Rightarrow> task_record list result" where
  "read_records c registry group_id =
     rbind (read_entries registry group_id TASK_REC_PREFIX) (\<lambda>es. Inr (decode_entries (dec_record c) es))"

definition read_leases :: "codec \<Rightarrow> read_registry \<Rightarrow> string \<Rightarrow> worker_lease_record list result" where
  "read_leases c registry group_id =
     rbind (read_entries registry group_id TASK_WORKER_PREFIX) (\<lambda>es. Inr (decode_entries (dec_lease c) es))"

definition list_tasks :: "codec \<Rightarrow> read_registry \<Rightarrow> string \<Rightarrow> task_records_reply" where
  "list_tasks c registry group_id =
     (case read_entries registry group_id TASK_REC_PREFIX of
        Inr entries \<Rightarrow> \<lparr>tk_ok = True, tk_tasks = sort_key tr_id (decode_entries (dec_record c) entries), tk_error = None\<rparr>
      | Inl err \<Rightarrow> \<lparr>tk_ok = False, tk_tasks = [], tk_error = Some err\<rparr>)"

definition list_workers :: "codec \<Rightarrow> read_registry \<Rightarrow> string \<Rightarrow> worker_leases_reply" where
  "list_workers c registry group_id =
     (case read_entries registry group_id TASK_WORKER_PREFIX of
        Inr entries \<Rightarrow> \<lparr>wk_ok = True, wk_workers = sort_key wl_node_id (decode_entries (dec_lease c) entries), wk_error = None\<rparr>
      | Inl err \<Rightarrow> \<lparr>wk_ok = False, wk_workers = [], wk_error = Some err\<rparr>)"

definition service_metrics :: "codec \<Rightarrow> read_registry \<Rightarrow> string \<Rightarrow> u64 \<Rightarrow> task_metrics_reply" where
  "service_metrics c registry group_id now =
     (case read_records c registry group_id of
        Inl err \<Rightarrow> \<lparr>mt_ok = False, mt_metrics = None, mt_error = Some err\<rparr>
      | Inr records \<Rightarrow>
          (case read_leases c registry group_id of
             Inl err \<Rightarrow> \<lparr>mt_ok = False, mt_metrics = None, mt_error = Some err\<rparr>
           | Inr ls \<Rightarrow> \<lparr>mt_ok = True, mt_metrics = Some (compute_metrics records ls now), mt_error = None\<rparr>))"

section \<open>Control nodes\<close>

record control_nodes =
  cn_known :: "string list"
  cn_leader :: "string option"

definition control_nodes_new :: "string list \<Rightarrow> control_nodes" where
  "control_nodes_new known = \<lparr>cn_known = known, cn_leader = None\<rparr>"

fun position :: "'a \<Rightarrow> 'a list \<Rightarrow> nat option" where
  "position x [] = None"
| "position x (y # ys) = (if y = x then Some 0 else map_option Suc (position x ys))"

definition swap_at :: "nat \<Rightarrow> nat \<Rightarrow> 'a list \<Rightarrow> 'a list" where
  "swap_at i j xs = xs[i := xs ! j, j := xs ! i]"

definition targets :: "control_nodes \<Rightarrow> string list" where
  "targets cn =
     (case cn_leader cn of None \<Rightarrow> cn_known cn
      | Some leader \<Rightarrow> (case position leader (cn_known cn) of None \<Rightarrow> cn_known cn
          | Some pos \<Rightarrow> swap_at 0 pos (cn_known cn)))"

definition report_leader :: "string \<Rightarrow> control_nodes \<Rightarrow> control_nodes" where
  "report_leader leader cn =
     (let cn = (if leader \<in> set (cn_known cn) then cn else cn\<lparr>cn_known := cn_known cn @ [leader]\<rparr>) in
      cn\<lparr>cn_leader := Some leader\<rparr>)"

lemma position_Some: "position x xs = Some i \<Longrightarrow> i < length xs \<and> xs ! i = x"
  by (induction xs arbitrary: i) (auto split: if_splits)

lemma position_None: "position x xs = None \<longleftrightarrow> x \<notin> set xs"
  by (induction xs) auto

lemma mset_swap_at: "i < length xs \<Longrightarrow> j < length xs \<Longrightarrow> mset (swap_at i j xs) = mset xs"
  by (simp add: swap_at_def mset_swap)

lemma targets_mset: "mset (targets cn) = mset (cn_known cn)"
  by (auto simp: targets_def mset_swap_at split: option.splits dest!: position_Some intro!: mset_swap_at)

lemma targets_leader:
  assumes "cn_leader cn = Some l" "l \<in> set (cn_known cn)"
  shows "\<exists>ts. targets cn = l # ts"
proof -
  obtain i where i: "position l (cn_known cn) = Some i" using assms(2) position_None by fastforce
  have "i < length (cn_known cn)" "cn_known cn ! i = l" using position_Some[OF i] by auto
  then show ?thesis using assms(1) i
    by (cases "cn_known cn"; cases i) (auto simp: targets_def swap_at_def)
qed

lemma report_leader_known: "l \<in> set (cn_known (report_leader l cn)) \<and> cn_leader (report_leader l cn) = Some l"
  by (simp add: report_leader_def Let_def)

section \<open>What the reads return\<close>

lemma starts_with_assigned_prefix:
  assumes "no_colon n" "no_colon m"
  shows "starts_with (assigned_idx_key m i) (assigned_idx_node_prefix n) \<longleftrightarrow> m = n"
proof
  assume "starts_with (assigned_idx_key m i) (assigned_idx_node_prefix n)"
  then obtain r where "m @ CHR '':'' # i = n @ CHR '':'' # r"
    by (auto simp: starts_with_iff assigned_idx_key_def assigned_idx_node_prefix_def)
  then have "split_once (CHR '':'') (m @ CHR '':'' # i) = split_once (CHR '':'') (n @ CHR '':'' # r)" by simp
  then show "m = n" using assms by (simp add: split_once_append no_colon_def)
next
  assume "m = n"
  then show "starts_with (assigned_idx_key m i) (assigned_idx_node_prefix n)"
    by (auto simp: starts_with_iff assigned_idx_key_def assigned_idx_node_prefix_def)
qed

lemma decode_entries_mem: "x \<in> set (decode_entries dec es) \<longleftrightarrow> (\<exists>k v. (k, v) \<in> set es \<and> dec v = Inr x)"
  by (force simp: decode_entries_def map_filter_def split: sum.splits)

lemma list_tasks_records:
  assumes "index_ready c s"
  shows "set (decode_entries (dec_record c) (entries_with_prefix s TASK_REC_PREFIX)) = ran (recs c s)"
proof -
  note ok = index_readyD[OF assms]
  have "r \<in> set (decode_entries (dec_record c) (entries_with_prefix s TASK_REC_PREFIX)) \<longleftrightarrow> (\<exists>i. recs c s i = Some r)" for r
  proof
    assume "r \<in> set (decode_entries (dec_record c) (entries_with_prefix s TASK_REC_PREFIX))"
    then obtain k v where kv: "cf_get s k = Some v" "starts_with k TASK_REC_PREFIX" "dec_record c v = Inr r"
      by (auto simp: decode_entries_mem entries_with_prefix_iff[OF ok(5)])
    then obtain i where "k = rec_key i" using keys_okD(4)[OF ok(4)] by blast
    then show "\<exists>i. recs c s i = Some r" using kv by (intro exI[of _ i]) (simp add: recs_def)
  next
    assume "\<exists>i. recs c s i = Some r"
    then obtain i where i: "recs c s i = Some r" by blast
    then obtain raw where raw: "cf_get s (rec_key i) = Some raw" by (cases "cf_get s (rec_key i)") (auto simp: recs_def)
    with i have "dec_record c raw = Inr r" by (cases "dec_record c raw") (auto simp: recs_def)
    with raw show "r \<in> set (decode_entries (dec_record c) (entries_with_prefix s TASK_REC_PREFIX))"
      unfolding decode_entries_mem entries_with_prefix_iff[OF ok(5)]
      by (intro exI[of _ "rec_key i"] exI[of _ raw]) (simp add: rec_key_def)
  qed
  then show ?thesis by (auto simp: ran_def)
qed

lemma decode_leases: "decode_entries (dec_lease c) es = decoded_leases c es"
  by (induction es) (auto simp: decode_entries_def decoded_leases_def map_filter_simps split: sum.splits option.splits)

lemma assigned_entries:
  assumes "index_ready c s" "ids_ok c s" "no_colon n"
  shows "set (List.map_filter assigned_entry (entries_with_prefix s (assigned_idx_node_prefix n))) =
    {\<lparr>at_id = i, at_lease_epoch = e\<rparr> |i e. \<exists>r. recs c s i = Some r \<and> in_flight_on r n \<and> tr_lease_epoch r = Some e}"
proof -
  note ok = index_readyD[OF assms(1)]
  let ?es = "entries_with_prefix s (assigned_idx_node_prefix n)"
  have get: "cf_get s (assigned_idx_key n i) = Some v \<longleftrightarrow>
      (\<exists>r e. recs c s i = Some r \<and> in_flight_on r n \<and> tr_lease_epoch r = Some e \<and> v = show_u64 e)" for i v
    using queue_inv_index(2)[OF ok(2) assms(3), of i] by (auto simp: expect_assigned_def in_flight_on_def split: option.splits)
  have key: "\<exists>i. no_colon i \<and> k = assigned_idx_key n i \<and> cf_get s (assigned_idx_key n i) = Some v" if kv: "(k, v) \<in> set ?es" for k v
  proof -
    have g: "cf_get s k = Some v" "starts_with k (assigned_idx_node_prefix n)"
      using kv by (simp_all add: entries_with_prefix_iff[OF ok(5)])
    then have "starts_with k TASK_ASSIGNED_IDX_PREFIX" by (auto simp: starts_with_iff assigned_idx_node_prefix_def)
    then obtain m i where mi: "no_colon m" "k = assigned_idx_key m i" using keys_okD(3)[OF ok(4) g(1)] by blast
    then have "m = n" using starts_with_assigned_prefix[OF assms(3) mi(1)] g(2) by simp
    then show ?thesis using mi g(1) get[of i v] assms(2) by (auto simp: ids_ok_def)
  qed
  have "x \<in> set (List.map_filter assigned_entry ?es) \<longleftrightarrow>
      (\<exists>i e. x = \<lparr>at_id = i, at_lease_epoch = e\<rparr> \<and> no_colon i \<and> cf_get s (assigned_idx_key n i) = Some (show_u64 e))" for x
  proof
    assume "x \<in> set (List.map_filter assigned_entry ?es)"
    then obtain k v where kv: "(k, v) \<in> set ?es" "assigned_entry (k, v) = Some x" by (auto simp: map_filter_def)
    then obtain i where "no_colon i" "k = assigned_idx_key n i" "cf_get s (assigned_idx_key n i) = Some v" using key by blast
    moreover then obtain e where "v = show_u64 e" using get by blast
    ultimately show "\<exists>i e. x = \<lparr>at_id = i, at_lease_epoch = e\<rparr> \<and> no_colon i \<and> cf_get s (assigned_idx_key n i) = Some (show_u64 e)"
      using kv(2) by (auto simp: assigned_entry_def parse_assigned_idx_key_build)
  next
    assume "\<exists>i e. x = \<lparr>at_id = i, at_lease_epoch = e\<rparr> \<and> no_colon i \<and> cf_get s (assigned_idx_key n i) = Some (show_u64 e)"
    then obtain i e where x: "x = \<lparr>at_id = i, at_lease_epoch = e\<rparr>" "no_colon i" "cf_get s (assigned_idx_key n i) = Some (show_u64 e)" by blast
    then have "(assigned_idx_key n i, show_u64 e) \<in> set ?es"
      using starts_with_assigned_prefix[OF assms(3) assms(3)] by (simp add: entries_with_prefix_iff[OF ok(5)])
    moreover have "assigned_entry (assigned_idx_key n i, show_u64 e) = Some x"
      using x by (simp add: assigned_entry_def parse_assigned_idx_key_build)
    ultimately show "x \<in> set (List.map_filter assigned_entry ?es)" by (force simp: map_filter_def)
  qed
  then show ?thesis using get assms(2) by (fastforce simp: ids_ok_def)
qed

end
