(* ===== verification/Worker.thy ===== *)
theory Worker
  imports TaskService
begin

text \<open>
  The worker side of the queue, \<open>tasks/worker.rs\<close>: submitting commands to the control plane along leader
  hints, claiming, executing and acknowledging a task, the retry delay, the lease renewal and the
  table of tasks in flight. The remote call \<open>rpc\<close>, the address book, the clock, the hash and the
  delays of the \<open>retry\<close> crate are arguments; the cluster behind the calls is the state they act on.
\<close>

section \<open>Retry delay\<close>

definition RETRY_BACKOFF_BASE_SECS :: u64 where "RETRY_BACKOFF_BASE_SECS = 5"
definition MAX_LEADER_REDIRECTS :: nat where "MAX_LEADER_REDIRECTS = 3"
definition WORKER_MAX_CONCURRENT_TASKS :: nat where "WORKER_MAX_CONCURRENT_TASKS = 4"
definition TASK_WAKE_CHANNEL_CAPACITY_DEFAULT :: u64 where "TASK_WAKE_CHANNEL_CAPACITY_DEFAULT = 512"

definition wake_channel_capacity :: "string option \<Rightarrow> u64" where
  "wake_channel_capacity var =
     (case Option.bind var parse_u64 of
        Some capacity \<Rightarrow> if 0 < capacity then capacity else TASK_WAKE_CHANNEL_CAPACITY_DEFAULT
      | None \<Rightarrow> TASK_WAKE_CHANNEL_CAPACITY_DEFAULT)"

text \<open>\<open>exponential base_ms n\<close> is the delay number \<open>n\<close> of the \<open>retry\<close> crate, in seconds.\<close>

definition retry_backoff_secs :: "(u64 \<Rightarrow> nat \<Rightarrow> u64) \<Rightarrow> (string \<Rightarrow> u64) \<Rightarrow> string \<Rightarrow> u32 \<Rightarrow> u64" where
  "retry_backoff_secs exponential xxh3 task_id attempts =
     (let backoff = exponential (RETRY_BACKOFF_BASE_SECS * 1000) (unat (min attempts 6));
          jitter = xxh3 (task_id @ '':'' @ show_nat (unat attempts)) mod (backoff div 2 + 1) in
      backoff + jitter)"

section \<open>Submitting commands\<close>

type_synonym 'w rpc = "'w \<Rightarrow> string \<Rightarrow> request \<Rightarrow> 'w \<times> task_write_reply result"

text \<open>The result is the node to try next, with the hint recorded and its address registered.\<close>

definition follow_leader_hint ::
  "('w \<Rightarrow> string \<Rightarrow> string \<Rightarrow> 'w) \<Rightarrow> string \<Rightarrow> task_write_reply \<Rightarrow> 'w \<Rightarrow> control_nodes \<Rightarrow> 'w \<times> control_nodes \<times> string option" where
  "follow_leader_hint register current_target reply w cn =
     (case wr_leader_id reply of None \<Rightarrow> (w, cn, None)
      | Some leader_id \<Rightarrow>
          if leader_id = current_target then (w, cn, None)
          else let w' = (case wr_leader_addr reply of Some addr \<Rightarrow> register w leader_id addr | None \<Rightarrow> w) in
            (w', report_leader leader_id cn, Some leader_id))"

text \<open>The inner loop, with the number of calls left: either the accepted reply, or the last error.\<close>

fun redirect_loop ::
  "nat \<Rightarrow> 'w rpc \<Rightarrow> ('w \<Rightarrow> string \<Rightarrow> string \<Rightarrow> 'w) \<Rightarrow> request \<Rightarrow> string \<Rightarrow> 'w \<Rightarrow> control_nodes \<Rightarrow> string option \<Rightarrow>
   'w \<times> control_nodes \<times> (string option + task_write_reply)" where
  "redirect_loop 0 rpc register cmd target w cn last_error = (w, cn, Inl last_error)"
| "redirect_loop (Suc n) rpc register cmd target w cn last_error =
     (case rpc w target cmd of
        (w1, Inl err) \<Rightarrow> (w1, cn, Inl (Some err))
      | (w1, Inr reply) \<Rightarrow>
          if wr_ok reply then (w1, cn, Inr reply)
          else (case follow_leader_hint register target reply w1 cn of
             (w2, cn2, Some nxt) \<Rightarrow> redirect_loop n rpc register cmd nxt w2 cn2 last_error
           | (w2, cn2, None) \<Rightarrow> (w2, cn2, Inl (wr_error reply))))"

fun submit_loop ::
  "'w rpc \<Rightarrow> ('w \<Rightarrow> string \<Rightarrow> string \<Rightarrow> 'w) \<Rightarrow> request \<Rightarrow> string list \<Rightarrow> 'w \<Rightarrow> control_nodes \<Rightarrow> string option \<Rightarrow>
   'w \<times> control_nodes \<times> (string option + task_write_reply)" where
  "submit_loop rpc register cmd [] w cn last_error = (w, cn, Inl last_error)"
| "submit_loop rpc register cmd (t # ts) w cn last_error =
     (case redirect_loop (MAX_LEADER_REDIRECTS + 1) rpc register cmd t w cn last_error of
        (w1, cn1, Inr reply) \<Rightarrow> (w1, cn1, Inr reply)
      | (w1, cn1, Inl e) \<Rightarrow> submit_loop rpc register cmd ts w1 cn1 e)"

definition submit_reply ::
  "'w rpc \<Rightarrow> ('w \<Rightarrow> string \<Rightarrow> string \<Rightarrow> 'w) \<Rightarrow> request \<Rightarrow> 'w \<Rightarrow> control_nodes \<Rightarrow> 'w \<times> control_nodes \<times> task_write_reply result" where
  "submit_reply rpc register cmd w cn =
     (case submit_loop rpc register cmd (targets cn) w cn None of
        (w1, cn1, Inr reply) \<Rightarrow> (w1, cn1, Inr reply)
      | (w1, cn1, Inl e) \<Rightarrow> (w1, cn1, Inl (''task command failed on all control nodes: '' @
          (case e of Some t \<Rightarrow> t | None \<Rightarrow> ''no reachable control node''))))"

definition submit_command ::
  "codec \<Rightarrow> 'w rpc \<Rightarrow> ('w \<Rightarrow> string \<Rightarrow> string \<Rightarrow> 'w) \<Rightarrow> request \<Rightarrow> 'w \<Rightarrow> control_nodes \<Rightarrow> 'w \<times> control_nodes \<times> task_op_result result" where
  "submit_command c rpc register cmd w cn =
     (case submit_reply rpc register cmd w cn of
        (w1, cn1, Inl e) \<Rightarrow> (w1, cn1, Inl e)
      | (w1, cn1, Inr reply) \<Rightarrow> (w1, cn1,
          (case wr_value reply of None \<Rightarrow> Inl ''task command accepted but returned no result''
           | Some value \<Rightarrow> (case dec_result c value of None \<Rightarrow> Inl ''decode task op result''
               | Some r \<Rightarrow> Inr r))))"

fun read_loop :: "('w \<Rightarrow> string \<Rightarrow> 'w \<times> 'm result) \<Rightarrow> string list \<Rightarrow> 'w \<Rightarrow> string option \<Rightarrow> 'w \<times> (string option + 'm)" where
  "read_loop rpc [] w last_error = (w, Inl last_error)"
| "read_loop rpc (t # ts) w last_error =
     (case rpc w t of (w1, Inr m) \<Rightarrow> (w1, Inr m) | (w1, Inl e) \<Rightarrow> read_loop rpc ts w1 (Some e))"

definition call_read :: "('w \<Rightarrow> string \<Rightarrow> 'w \<times> 'm result) \<Rightarrow> control_nodes \<Rightarrow> 'w \<Rightarrow> 'w \<times> 'm result" where
  "call_read rpc cn w =
     (case read_loop rpc (targets cn) w None of
        (w1, Inr m) \<Rightarrow> (w1, Inr m)
      | (w1, Inl e) \<Rightarrow> (w1, Inl (''task rpc read failed on all control nodes: '' @
          (case e of Some t \<Rightarrow> t | None \<Rightarrow> ''no reachable control node''))))"

section \<open>Claim, execute, acknowledge\<close>

text \<open>A handler that does not finish in time has no outcome; it may act on the cluster.\<close>

type_synonym 'w handler = "task_record \<Rightarrow> 'w \<Rightarrow> 'w \<times> string option result option"

definition execute_task_with_timeout :: "'w handler \<Rightarrow> task_record \<Rightarrow> 'w \<Rightarrow> 'w \<times> string option result" where
  "execute_task_with_timeout execute_payload record w =
     (case execute_payload record w of
        (w1, Some result) \<Rightarrow> (w1, result)
      | (w1, None) \<Rightarrow> (w1, Inl ''task execution timed out after 30s''))"

definition retry_at_for :: "(string \<Rightarrow> u32 \<Rightarrow> u64) \<Rightarrow> task_record \<Rightarrow> u64 \<Rightarrow> u64" where
  "retry_at_for backoff record now =
     (if MAX_TASK_ATTEMPTS \<le> tr_attempts record then 0 else now + backoff (tr_id record) (tr_attempts record))"

definition ack_for :: "(string \<Rightarrow> u32 \<Rightarrow> u64) \<Rightarrow> string \<Rightarrow> u64 \<Rightarrow> u64 \<Rightarrow> task_record \<Rightarrow> string option result \<Rightarrow> task_request" where
  "ack_for backoff node_id lease_epoch now record outcome =
     (case outcome of
        Inr result \<Rightarrow> TaskDone (tr_id record) node_id lease_epoch (tr_attempts record) now result
      | Inl error \<Rightarrow> TaskFail (tr_id record) node_id lease_epoch (tr_attempts record) error (retry_at_for backoff record now) now)"

text \<open>The clock is read for the claim and for the acknowledgement. The third component of the result
  lists the records the handler was run on.\<close>

definition claim_and_execute ::
  "codec \<Rightarrow> 'w rpc \<Rightarrow> ('w \<Rightarrow> string \<Rightarrow> string \<Rightarrow> 'w) \<Rightarrow> 'w handler \<Rightarrow> (string \<Rightarrow> u32 \<Rightarrow> u64) \<Rightarrow> u64 \<Rightarrow> u64 \<Rightarrow>
   string \<Rightarrow> string \<Rightarrow> u64 \<Rightarrow> 'w \<Rightarrow> control_nodes \<Rightarrow> 'w \<times> control_nodes \<times> task_record list \<times> unit result" where
  "claim_and_execute c rpc register execute_payload backoff claim_now ack_now node_id task_id lease_epoch w cn =
     (case submit_command c rpc register (ReqTask (TaskClaim task_id node_id lease_epoch claim_now)) w cn of
        (w1, cn1, Inl e) \<Rightarrow> (w1, cn1, [], Inl e)
      | (w1, cn1, Inr claim) \<Rightarrow>
          if \<not> op_ok claim then (w1, cn1, [], Inr ())
          else (case op_record claim of
             None \<Rightarrow> (w1, cn1, [], Inl ''claim succeeded but returned no record'')
           | Some record \<Rightarrow>
               let (w2, outcome) = execute_task_with_timeout execute_payload record w1 in
               (case submit_command c rpc register (ReqTask (ack_for backoff node_id lease_epoch ack_now record outcome)) w2 cn1 of
                  (w3, cn3, Inl e) \<Rightarrow> (w3, cn3, [record], Inl e)
                | (w3, cn3, Inr acked) \<Rightarrow> (w3, cn3, [record], Inr ()))))"

section \<open>Tasks in flight and lease renewal\<close>

text \<open>Whether an execution is spawned, and the table of tasks in flight afterwards.\<close>

definition spawn_execution :: "string \<Rightarrow> string set \<Rightarrow> string set \<times> bool" where
  "spawn_execution task_id in_flight = (if task_id \<in> in_flight then (in_flight, False) else (insert task_id in_flight, True))"

fun spawn_all :: "assigned_task list \<Rightarrow> string set \<Rightarrow> string set \<times> assigned_task list" where
  "spawn_all [] in_flight = (in_flight, [])"
| "spawn_all (t # ts) in_flight =
     (let (fl, spawned) = spawn_execution (at_id t) in_flight;
          (fl2, rest) = spawn_all ts fl in
      (fl2, if spawned then t # rest else rest))"

definition drain_assigned_tasks :: "task_ids_reply result \<Rightarrow> string set \<Rightarrow> (string set \<times> assigned_task list) result" where
  "drain_assigned_tasks response in_flight =
     rbind response (\<lambda>reply.
       if \<not> ti_ok reply then Inl (''list_assigned failed: '' @ (case ti_error reply of Some e \<Rightarrow> e | None \<Rightarrow> []))
       else Inr (spawn_all (ti_assigned reply) in_flight))"

text \<open>One round of \<open>run_lease_renewal\<close>: the next epoch and the command it submits.\<close>

definition lease_round :: "string \<Rightarrow> string \<Rightarrow> u64 \<Rightarrow> u64 \<Rightarrow> u64 \<Rightarrow> u64 \<times> task_request" where
  "lease_round node_id worker_name ttl_secs now lease_epoch =
     (let lease_epoch = sat_add lease_epoch 1 in
      (lease_epoch, WorkerLease node_id worker_name lease_epoch (now + ttl_secs)))"

section \<open>Reaching the leader\<close>

text \<open>What openraft does with a write, for control nodes that all answer: the leader's \<open>client_write\<close> runs
  the command on the state machine and returns its response, any other node changes nothing and
  names the leader. The call of a node is the service's \<^const>\<open>submit\<close>.\<close>

type_synonym cluster_nodes = "string \<Rightarrow> string \<Rightarrow> (kv \<Rightarrow> request \<Rightarrow> kv \<times> (client_write_error + response)) option"

definition raft_leads :: "codec \<Rightarrow> string \<Rightarrow> string \<Rightarrow> cluster_nodes \<Rightarrow> bool" where
  "raft_leads c group_id leader nodes \<longleftrightarrow> (\<forall>n. \<exists>cw. nodes n group_id = Some cw \<and>
     (if n = leader then (\<forall>s cmd s' resp. exec_task c s cmd = Inr (s', resp) \<longrightarrow> cw s (ReqTask cmd) = (s', Inr resp))
      else (\<forall>s req. \<exists>t addr. cw s req = (s, Inl \<lparr>ce_text = t, ce_forward = Some (Some leader, addr)\<rparr>))))"

definition service_rpc :: "cluster_nodes \<Rightarrow> string \<Rightarrow> kv rpc" where
  "service_rpc nodes group_id s target req = (let (s', reply) = submit (nodes target) group_id req s in (s', Inr reply))"

abbreviation no_register :: "kv \<Rightarrow> string \<Rightarrow> string \<Rightarrow> kv" where
  "no_register s _ _ \<equiv> s"

definition accepted_reply :: "response \<Rightarrow> task_write_reply" where
  "accepted_reply resp = \<lparr>wr_ok = True, wr_value = rs_value resp, wr_error = None, wr_leader_id = None, wr_leader_addr = None\<rparr>"

lemma leader_rpc:
  assumes "raft_leads c g leader nodes" "payload_too_large (ReqTask cmd) = None" "exec_task c s cmd = Inr (s', resp)"
  shows "service_rpc nodes g s leader (ReqTask cmd) = (s', Inr (accepted_reply resp))"
proof -
  obtain cw where "nodes leader g = Some cw" "cw s (ReqTask cmd) = (s', Inr resp)"
    using assms(1,3) unfolding raft_leads_def by metis
  then show ?thesis using assms(2) by (simp add: service_rpc_def submit_def accepted_reply_def)
qed

lemma follower_rpc:
  assumes "raft_leads c g leader nodes" "payload_too_large (ReqTask cmd) = None" "n \<noteq> leader"
  shows "\<exists>reply. service_rpc nodes g s n (ReqTask cmd) = (s, Inr reply) \<and> \<not> wr_ok reply \<and> wr_leader_id reply = Some leader"
proof -
  obtain cw t addr where "nodes n g = Some cw" "cw s (ReqTask cmd) = (s, Inl \<lparr>ce_text = t, ce_forward = Some (Some leader, addr)\<rparr>)"
    using assms(1,3) unfolding raft_leads_def by metis
  then show ?thesis using assms(2) by (simp add: service_rpc_def submit_def write_error_def)
qed

lemma redirect_reaches_leader:
  assumes "raft_leads c g leader nodes" "payload_too_large (ReqTask cmd) = None" "exec_task c s cmd = Inr (s', resp)"
  shows "\<exists>cn'. redirect_loop (Suc (Suc n)) (service_rpc nodes g) no_register (ReqTask cmd) t s cn le =
      (s', cn', Inr (accepted_reply resp)) \<and> set (cn_known cn) \<subseteq> set (cn_known cn')"
proof (cases "t = leader")
  case True
  then show ?thesis using leader_rpc[OF assms] by (simp add: accepted_reply_def)
next
  case False
  obtain reply where "service_rpc nodes g s t (ReqTask cmd) = (s, Inr reply)" "\<not> wr_ok reply" "wr_leader_id reply = Some leader"
    using follower_rpc[OF assms(1,2) False] by blast
  then show ?thesis using leader_rpc[OF assms] False
    by (auto simp: follow_leader_hint_def accepted_reply_def report_leader_def Let_def split: option.splits)
qed

lemma submit_reaches_leader:
  assumes "raft_leads c g leader nodes" "codec_ok c" "payload_too_large (ReqTask cmd) = None" "cn_known cn \<noteq> []"
    "exec_task c s cmd = Inr (s', into_response c r)"
  shows "\<exists>cn'. submit_command c (service_rpc nodes g) no_register (ReqTask cmd) s cn = (s', cn', Inr r) \<and> cn_known cn' \<noteq> []"
proof -
  have "set (targets cn) = set (cn_known cn)" using targets_mset mset_eq_setD by blast
  then obtain t ts where ts: "targets cn = t # ts" using assms(4) by (cases "targets cn") auto
  obtain cn' where r: "redirect_loop (MAX_LEADER_REDIRECTS + 1) (service_rpc nodes g) no_register (ReqTask cmd) t s cn None =
      (s', cn', Inr (accepted_reply (into_response c r)))" "set (cn_known cn) \<subseteq> set (cn_known cn')"
    using redirect_reaches_leader[OF assms(1,3,5), of 2 t cn None] by (auto simp: MAX_LEADER_REDIRECTS_def eval_nat_numeral)
  obtain v where "enc_result c r = Some v" "dec_result c v = Some r" using assms(2) unfolding codec_ok_def by blast
  then show ?thesis using r assms(4)
    by (auto simp: submit_command_def submit_reply_def ts accepted_reply_def into_response_def)
qed

end
