(* ===== verification/WorkerClaims.thy ===== *)
theory WorkerClaims
  imports Worker SchedulerClaims
begin

text \<open>
  The properties of the worker and of the task service.
\<close>

section \<open>One round of a worker\<close>

definition claimed_record :: "u64 \<Rightarrow> task_record \<Rightarrow> task_record" where
  "claimed_record now r = r\<lparr>tr_status := Running, tr_attempts := sat_add (tr_attempts r) 1, tr_updated_at := now\<rparr>"

text \<open>What the acknowledgement makes of the record \<open>q\<close> that the queue holds then, when the handler ran on \<open>r\<close>:
  nothing when the lease does not match any more; else done, or failed, or queued again.\<close>

definition acked :: "(string \<Rightarrow> u32 \<Rightarrow> u64) \<Rightarrow> u64 \<Rightarrow> string \<Rightarrow> u64 \<Rightarrow> task_record \<Rightarrow> string option result \<Rightarrow> task_record \<Rightarrow> task_record" where
  "acked backoff now n e r outcome q =
     (if \<not> (tr_status q = Running \<and> tr_assigned_node_id q = Some n \<and> tr_lease_epoch q = Some e) then q
      else case outcome of
        Inr v \<Rightarrow> q\<lparr>tr_status := Done, tr_attempts := tr_attempts r, tr_error := None, tr_result := v, tr_updated_at := now, tr_completed_at := now\<rparr>
      | Inl err \<Rightarrow>
          let retry_at = now + backoff (tr_id r) (tr_attempts r);
              retry = (tr_attempts r < MAX_TASK_ATTEMPTS \<and> retry_at \<noteq> 0);
              f = q\<lparr>tr_attempts := tr_attempts r, tr_error := Some (if retry \<and> tr_committed q then err @ retry_suppressed_note else err),
                    tr_assigned_node_id := None, tr_lease_epoch := None, tr_updated_at := now\<rparr> in
          if retry \<and> \<not> tr_committed q then f\<lparr>tr_status := Queued, tr_run_at := retry_at\<rparr>
          else f\<lparr>tr_status := Failed, tr_completed_at := now\<rparr>)"

lemma ack_record: "next_record (ack_for backoff n e now r outcome) q = acked backoff now n e r outcome q"
  by (auto simp: ack_for_def acked_def ack_matches_def next_record_def retry_at_for_def Let_def word_gt_0 not_le not_less split: sum.split)

lemma task_cmd_step:
  assumes "index_ready c s" "cmd_ok cmd" "cmd_id cmd = Some i"
  shows "\<exists>x. exec_task c s cmd = Inr (task_step c s cmd, into_response c x) \<and> index_ready c (task_step c s cmd) \<and>
    recs c (task_step c s cmd) = (recs c s)(i := map_option (next_record cmd) (recs c s i)) \<and>
    (case recs c s i of None \<Rightarrow> \<not> op_ok x | Some r \<Rightarrow> x = snd (rec_step cmd r))"
proof (cases "recs c s i")
  case None
  have ready: "queue_ready c s" using assms(1) by (simp add: index_ready_def)
  obtain x where x: "exec_task c s cmd = Inr (task_step c s cmd, into_response c x)" "x = snd (aq_step (abs_queue c s) cmd)"
    using ready_stepD[OF ready assms(2)] by blast
  have none: "aq_recs (abs_queue c s) i = None" using None by simp
  have "aq_next (abs_queue c s) cmd = abs_queue c s" "\<not> op_ok x"
    unfolding x(2) using assms(3) none by (cases cmd; auto simp: aq_next_def op_result_rejected_def)+
  moreover have "abs_queue c (task_step c s cmd) = aq_next (abs_queue c s) cmd" using ready assms(2) by (simp add: tq.step_abs)
  ultimately have "recs c (task_step c s cmd) = recs c s" "\<not> op_ok x" by (metis aq_recs_abs)+
  moreover have "(recs c s)(i := None) = recs c s" using None by (metis fun_upd_triv)
  ultimately show ?thesis using None x(1) ix.step_inv[OF assms(1,2)] by auto
next
  case (Some r)
  obtain s' where s': "exec_task c s cmd = Inr (s', into_response c (snd (rec_step cmd r)))" "index_ready c s'"
    "recs c s' = (recs c s)(i \<mapsto> next_record cmd r)"
    using exec_record[OF assms Some] by blast
  moreover have "task_step c s cmd = s'" using s'(1) by (simp add: task_step_def)
  ultimately show ?thesis using Some by auto
qed

text \<open>C31: one round of a worker, while control nodes answer of which one leads and the others point to it. The
  worker claims the task; exactly when the task exists and is assigned to it under its lease, it runs the
  handler, once, on the record with the attempt counted, and acknowledges; otherwise nothing happens. Any
  well-formed commands may reach the queue while the handler runs: its own commit mark and those of others. The task
  ends as \<open>acked\<close> says of the record that is there by then, done with the result, failed when it is past
  the commit point or out of attempts, queued again at the retry time otherwise, or unchanged when the
  lease is gone; the round changes no other task and the store stays consistent.\<close>

theorem worker_round:
  assumes "codec_ok c" "queue_inv c s" "keys_ok s" "raft_leads c g leader nodes" "cn_known cn \<noteq> []"
    and "\<And>r. list_all cmd_ok (during r)"
  shows "\<exists>s' cn' ran. claim_and_execute c (service_rpc nodes g) no_register (\<lambda>r st. (run_tasks c st (during r), outcome r)) backoff
      t1 t2 n i e s cn = (s', cn', ran, Inr ()) \<and> queue_inv c s' \<and> keys_ok s' \<and>
    (case recs c s i of
       Some r \<Rightarrow>
         if tr_status r = Assigned \<and> tr_assigned_node_id r = Some n \<and> tr_lease_epoch r = Some e then
           let r1 = claimed_record t1 r; before = recs c (run_tasks c s (TaskClaim i n e t1 # during r1));
               out = (case outcome r1 of Some res \<Rightarrow> res | None \<Rightarrow> Inl ''task execution timed out after 30s'') in
           ran = [r1] \<and> recs c s' = before(i := map_option (acked backoff t2 n e r1 out) (before i))
         else ran = [] \<and> recs c s' = recs c s
     | None \<Rightarrow> ran = [] \<and> recs c s' = recs c s)"
proof -
  have ready: "index_ready c s" using assms(1-3) by (simp add: index_ready_def queue_ready_def)
  let ?claim = "TaskClaim i n e t1" and ?s1 = "task_step c s (TaskClaim i n e t1)"
  obtain x where x: "exec_task c s ?claim = Inr (?s1, into_response c x)" "index_ready c ?s1"
      "recs c ?s1 = (recs c s)(i := map_option (next_record ?claim) (recs c s i))"
      "case recs c s i of None \<Rightarrow> \<not> op_ok x | Some r \<Rightarrow> x = snd (rec_step ?claim r)"
    using task_cmd_step[OF ready, of ?claim i] by (auto simp: cmd_ok_def)
  obtain cn1 where cn1: "submit_command c (service_rpc nodes g) no_register (ReqTask ?claim) s cn = (?s1, cn1, Inr x)"
    "cn_known cn1 \<noteq> []"
    using submit_reaches_leader[OF assms(4,1) _ assms(5) x(1)] by (auto simp: payload_too_large_def)
  show ?thesis
  proof (cases "\<exists>r. recs c s i = Some r \<and> tr_status r = Assigned \<and> tr_assigned_node_id r = Some n \<and> tr_lease_epoch r = Some e")
    case False
    then have "\<not> op_ok x" "recs c ?s1 = recs c s"
      using x(3,4) by (auto simp: next_record_def op_result_rejected_def fun_eq_iff split: option.splits)
    then have "claim_and_execute c (service_rpc nodes g) no_register (\<lambda>r st. (run_tasks c st (during r), outcome r)) backoff
        t1 t2 n i e s cn = (?s1, cn1, [], Inr ())" using cn1(1) by (simp add: claim_and_execute_def)
    then show ?thesis using False \<open>recs c ?s1 = recs c s\<close> index_readyD[OF x(2)] by (auto split: option.split)
  next
    case True
    then obtain r where r: "recs c s i = Some r" "tr_status r = Assigned" "tr_assigned_node_id r = Some n" "tr_lease_epoch r = Some e"
      by blast
    let ?r1 = "claimed_record t1 r"
    let ?s2 = "run_tasks c ?s1 (during ?r1)"
    let ?out = "case outcome ?r1 of Some res \<Rightarrow> res | None \<Rightarrow> Inl ''task execution timed out after 30s''"
    let ?ack = "ack_for backoff n e t2 ?r1 ?out"
    have claim: "op_ok x" "op_record x = Some ?r1"
      using r x(4) by (simp_all add: claimed_record_def op_result_id_def Let_def)
    have "tr_id ?r1 = i" using queue_inv_wf[OF assms(2) r(1)] by (simp add: claimed_record_def wf_record_def)
    then have ack: "cmd_ok ?ack" "cmd_id ?ack = Some i" "payload_too_large (ReqTask ?ack) = None"
      by (simp_all add: ack_for_def cmd_ok_def payload_too_large_def split: sum.split)
    have s2: "index_ready c ?s2" using ix.run_inv[OF x(2) assms(6)] by (simp add: run_tasks_def)
    obtain y where y: "exec_task c ?s2 ?ack = Inr (task_step c ?s2 ?ack, into_response c y)" "index_ready c (task_step c ?s2 ?ack)"
        "recs c (task_step c ?s2 ?ack) = (recs c ?s2)(i := map_option (next_record ?ack) (recs c ?s2 i))"
      using task_cmd_step[OF s2 ack(1,2)] by blast
    obtain cn2 where "submit_command c (service_rpc nodes g) no_register (ReqTask ?ack) ?s2 cn1 = (task_step c ?s2 ?ack, cn2, Inr y)"
      using submit_reaches_leader[OF assms(4,1) ack(3) cn1(2) y(1)] by auto
    moreover have "execute_task_with_timeout (\<lambda>r st. (run_tasks c st (during r), outcome r)) ?r1 ?s1 = (?s2, ?out)"
      by (simp add: execute_task_with_timeout_def split: option.split)
    ultimately have "claim_and_execute c (service_rpc nodes g) no_register (\<lambda>r st. (run_tasks c st (during r), outcome r)) backoff
        t1 t2 n i e s cn = (task_step c ?s2 ?ack, cn2, [?r1], Inr ())"
      using cn1(1) claim by (simp add: claim_and_execute_def)
    moreover have "run_tasks c s (?claim # during ?r1) = ?s2" by (simp add: run_tasks_def)
    moreover have "next_record ?ack = acked backoff t2 n e ?r1 ?out" by (rule ext) (rule ack_record)
    ultimately show ?thesis using r y(3) index_readyD[OF y(2)] by (simp add: Let_def)
  qed
qed

definition demo_nodes :: cluster_nodes where
  "demo_nodes n g = Some (\<lambda>s req. if n = ''L'' then
       (case req of ReqTask cmd \<Rightarrow> (case exec_task demo_codec s cmd of Inr (s', resp) \<Rightarrow> (s', Inr resp)
            | Inl e \<Rightarrow> (s, Inl \<lparr>ce_text = e, ce_forward = None\<rparr>))
        | _ \<Rightarrow> (s, Inl \<lparr>ce_text = ''not a task command'', ce_forward = None\<rparr>))
     else (s, Inl \<lparr>ce_text = ''has to forward'', ce_forward = Some (Some ''L'', None)\<rparr>))"

lemma demo_nodes_lead: "raft_leads demo_codec ''g'' ''L'' demo_nodes"
  by (simp add: raft_leads_def demo_nodes_def)

definition demo_t1 :: task_record where
  "demo_t1 = (new_record ''t1'' ''job'' 5 None 3)\<lparr>tr_status := Assigned, tr_assigned_node_id := Some ''n2'',
     tr_lease_epoch := Some 3, tr_updated_at := 8\<rparr>"

lemma demo_sched_t1: "recs demo_codec demo_sched_store ''t1'' = Some demo_t1"
proof -
  have "aq_recs (abs_queue demo_codec demo_sched_store) ''t1'' = Some demo_t1"
    unfolding demo_sched_abs
    by (simp add: demo_sched_log_def aq_next_def new_record_def ack_matches_def Let_def demo_t1_def)
  then show ?thesis by simp
qed

text \<open>The handler marks the commit point and then fails: the task is failed, not queued again.\<close>

abbreviation demo_during :: "task_record \<Rightarrow> task_request list" where
  "demo_during r \<equiv> [TaskMarkCommitted ''t1'' ''n2'' 3 21]"

theorem worker_round_witness:
  "\<exists>s' cn' ran. claim_and_execute demo_codec (service_rpc demo_nodes ''g'') no_register
      (\<lambda>r st. (run_tasks demo_codec st (demo_during r), Some (Inl ''boom''))) (\<lambda>_ _. 10) 20 22 ''n2'' ''t1'' 3 demo_sched_store
      \<lparr>cn_known = [''a'', ''L''], cn_leader = None\<rparr> = (s', cn', ran, Inr ()) \<and>
    ran = [claimed_record 20 demo_t1] \<and> (\<exists>r. recs demo_codec s' ''t1'' = Some r \<and> tr_status r = Failed \<and> tr_attempts r = 1 \<and> tr_committed r)"
proof -
  have run: "recs demo_codec (run_tasks demo_codec demo_sched_store [TaskClaim ''t1'' ''n2'' 3 20, TaskMarkCommitted ''t1'' ''n2'' 3 21]) ''t1'' =
      Some ((claimed_record 20 demo_t1)\<lparr>tr_committed := True, tr_updated_at := 21\<rparr>)"
    using demo_sched_t1 demo_sched_ready
    by (simp add: recs_run index_readyD(1) cmd_ok_def aq_next_def claimed_record_def demo_t1_def new_record_def ack_matches_def sat_add_def Let_def)
  have at: "tr_status demo_t1 = Assigned" "tr_assigned_node_id demo_t1 = Some ''n2''" "tr_lease_epoch demo_t1 = Some 3"
    by (simp_all add: demo_t1_def)
  have ended: "acked (\<lambda>_ _. 10) 22 ''n2'' 3 (claimed_record 20 demo_t1) (Inl ''boom'')
      ((claimed_record 20 demo_t1)\<lparr>tr_committed := True, tr_updated_at := 21\<rparr>) = q \<Longrightarrow> tr_status q = Failed \<and> tr_attempts q = 1 \<and> tr_committed q" for q
    by (auto simp: acked_def claimed_record_def demo_t1_def new_record_def sat_add_def Let_def)
  have "list_all cmd_ok (demo_during r)" for r by (simp add: cmd_ok_def)
  from worker_round[OF _ _ _ demo_nodes_lead _ this, of demo_sched_store "\<lparr>cn_known = [''a'', ''L''], cn_leader = None\<rparr>"
      "\<lambda>_. Some (Inl ''boom'')" "\<lambda>_ _. 10" 20 22 "''n2''" "''t1''" 3]
  show ?thesis using ended by (simp add: demo_sched_t1 at run Let_def) (metis fun_upd_same)
qed

section \<open>The task service\<close>

text \<open>The reads of the service return exactly what the queue holds: a worker gets the tasks in flight on
  it with their lease epochs, the administrator all records in order of their id and all leases in
  order of the node.\<close>

theorem service_reads_exact:
  assumes "codec_ok c" "queue_inv c s" "keys_ok s" "ids_ok c s" "no_colon n" "registry g = Some (s, Inr ())"
  shows "ti_ok (list_assigned registry g n) \<and> set (ti_assigned (list_assigned registry g n)) =
      {\<lparr>at_id = i, at_lease_epoch = e\<rparr> |i e. \<exists>r. recs c s i = Some r \<and> in_flight_on r n \<and> tr_lease_epoch r = Some e} \<and>
    tk_ok (list_tasks c registry g) \<and> set (tk_tasks (list_tasks c registry g)) = ran (recs c s) \<and>
      sorted (map tr_id (tk_tasks (list_tasks c registry g))) \<and>
    wk_ok (list_workers c registry g) \<and>
      set (wk_workers (list_workers c registry g)) = {l. leases c s (wl_node_id l) = Some l} \<and>
      sorted (map wl_node_id (wk_workers (list_workers c registry g))) \<and>
      distinct (map wl_node_id (wk_workers (list_workers c registry g)))"
proof -
  have ready: "index_ready c s" using assms(1-3) by (simp add: index_ready_def queue_ready_def)
  have d: "distinct (map wl_node_id (sort_key wl_node_id ls))" if "distinct (map wl_node_id ls)" for ls
    using that by (simp add: distinct_map)
  have r: "read_entries registry g p = Inr (entries_with_prefix s p)" for p
    using assms(6) by (simp add: read_entries_def)
  have "set (wk_workers (list_workers c registry g)) = {l. leases c s (wl_node_id l) = Some l}"
    using worker_entries(2)[OF ready] by (auto simp: list_workers_def r decode_leases)
  then show ?thesis
    using assigned_entries[OF ready assms(4,5)] list_tasks_records[OF ready] d[OF worker_entries(1)[OF ready]]
    by (simp add: list_assigned_def list_tasks_def list_workers_def r decode_leases)
qed

theorem service_reads_exact_witness:
  "ti_ok (list_assigned [''g'' \<mapsto> (demo_sched_store, Inr ())] ''g'' ''n2'') \<and>
   set (ti_assigned (list_assigned [''g'' \<mapsto> (demo_sched_store, Inr ())] ''g'' ''n2'')) =
      {\<lparr>at_id = i, at_lease_epoch = e\<rparr> |i e. \<exists>r. recs demo_codec demo_sched_store i = Some r \<and> in_flight_on r ''n2'' \<and> tr_lease_epoch r = Some e} \<and>
    tk_ok (list_tasks demo_codec [''g'' \<mapsto> (demo_sched_store, Inr ())] ''g'') \<and>
      set (tk_tasks (list_tasks demo_codec [''g'' \<mapsto> (demo_sched_store, Inr ())] ''g'')) = ran (recs demo_codec demo_sched_store) \<and>
      sorted (map tr_id (tk_tasks (list_tasks demo_codec [''g'' \<mapsto> (demo_sched_store, Inr ())] ''g''))) \<and>
    wk_ok (list_workers demo_codec [''g'' \<mapsto> (demo_sched_store, Inr ())] ''g'') \<and>
      set (wk_workers (list_workers demo_codec [''g'' \<mapsto> (demo_sched_store, Inr ())] ''g'')) =
        {l. leases demo_codec demo_sched_store (wl_node_id l) = Some l} \<and>
      sorted (map wl_node_id (wk_workers (list_workers demo_codec [''g'' \<mapsto> (demo_sched_store, Inr ())] ''g''))) \<and>
      distinct (map wl_node_id (wk_workers (list_workers demo_codec [''g'' \<mapsto> (demo_sched_store, Inr ())] ''g'')))"
  by (rule service_reads_exact) (simp_all add: demo_sched_names(1) no_colon_def)

section \<open>Retry delay and control nodes\<close>

lemma jitter_sum:
  fixes b x :: u64
  assumes "unat b \<le> 320"
  shows "\<exists>j. unat (b + x mod (b div 2 + 1)) = unat b + j \<and> 2 * j \<le> unat b"
proof -
  define j where "j = x mod (b div 2 + 1)"
  have "unat (b div 2 + 1) = unat b div 2 + 1" using assms by (simp add: unat_word_ariths unat_div)
  then have "unat j \<le> unat b div 2" by (simp add: j_def unat_mod_distrib less_Suc_eq_le[symmetric])
  moreover then have "unat (b + j) = unat b + unat j" using assms by (simp add: unat_word_ariths)
  ultimately show ?thesis unfolding j_def[symmetric] by (intro exI[of _ "unat j"]) simp
qed

lemma unat_backoff:
  assumes "k \<le> 6"
  shows "unat (5 * 2 ^ k :: u64) = 5 * 2 ^ k \<and> (5 * 2 ^ k :: nat) \<le> 320"
proof -
  have "k \<in> {0, 1, 2, 3, 4, 5, 6}" using assms by auto
  then show ?thesis by auto
qed

lemma retry_delay:
  assumes "\<forall>k. exponential 5000 k = 5 * 2 ^ k"
  shows "5 * 2 ^ min (unat a) 6 \<le> unat (retry_backoff_secs exponential xxh3 i a) \<and>
    2 * unat (retry_backoff_secs exponential xxh3 i a) \<le> 15 * 2 ^ min (unat a) 6"
proof -
  let ?k = "min (unat a) 6"
  have k: "unat (min a 6) = ?k" by (auto simp: min_def word_le_nat_alt)
  have b: "exponential (RETRY_BACKOFF_BASE_SECS * 1000) ?k = 5 * 2 ^ ?k" using assms by (simp add: RETRY_BACKOFF_BASE_SECS_def)
  have u: "unat (5 * 2 ^ ?k :: u64) = 5 * 2 ^ ?k" "unat (5 * 2 ^ ?k :: u64) \<le> 320" using unat_backoff[of ?k] by simp_all
  show ?thesis unfolding retry_backoff_secs_def Let_def k b
    using jitter_sum[OF u(2), of "xxh3 (i @ '':'' @ show_nat (unat a))"] u(1) by auto
qed

text \<open>When the delays of the \<open>retry\<close> crate double from five seconds, the retry delay is at least the
  delay of the attempt and at most half as much again, whatever the hash, it does not wrap, and a later
  attempt, up to the sixth, waits strictly longer, for whatever tasks.\<close>

lemma retry_delay_grows:
  assumes "\<forall>k. exponential 5000 k = 5 * 2 ^ k" "unat a < unat b" "unat b \<le> 6"
  shows "5 * 2 ^ unat a \<le> unat (retry_backoff_secs exponential xxh3 i a) \<and>
    2 * unat (retry_backoff_secs exponential xxh3 i a) \<le> 15 * 2 ^ unat a \<and>
    retry_backoff_secs exponential xxh3 i a < retry_backoff_secs exponential xxh3 j b"
proof -
  have ab: "min (unat a) 6 = unat a" "min (unat b) 6 = unat b" using assms(2,3) by simp_all
  have a: "5 * 2 ^ unat a \<le> unat (retry_backoff_secs exponential xxh3 i a)"
    "2 * unat (retry_backoff_secs exponential xxh3 i a) \<le> 15 * 2 ^ unat a"
    using retry_delay[of exponential a xxh3 i] assms(1) ab(1) by simp_all
  have b: "5 * 2 ^ unat b \<le> unat (retry_backoff_secs exponential xxh3 j b)"
    using retry_delay[of exponential b xxh3 j] assms(1) ab(2) by simp
  have "(2 :: nat) ^ Suc (unat a) \<le> 2 ^ unat b" by (rule power_increasing) (use assms(2) in simp_all)
  moreover have "(0 :: nat) < 2 ^ unat a" by simp
  ultimately have "15 * 2 ^ unat a < 2 * (5 * (2 :: nat) ^ unat b)" unfolding power_Suc by linarith
  then have "2 * unat (retry_backoff_secs exponential xxh3 i a) < 2 * unat (retry_backoff_secs exponential xxh3 j b)"
    using a(2) b by linarith
  then show ?thesis using a by (simp add: word_less_nat_alt)
qed

lemma retry_delay_grows_example:
  "5 * 2 ^ 1 \<le> unat (retry_backoff_secs (\<lambda>_ k. 5 * 2 ^ k) (\<lambda>s. word_of_nat (length s)) ''t1'' 1) \<and>
    2 * unat (retry_backoff_secs (\<lambda>_ k. 5 * 2 ^ k) (\<lambda>s. word_of_nat (length s)) ''t1'' 1) \<le> 15 * 2 ^ 1 \<and>
    retry_backoff_secs (\<lambda>_ k. 5 * 2 ^ k) (\<lambda>s. word_of_nat (length s)) ''t1'' 1 <
    retry_backoff_secs (\<lambda>_ k. 5 * 2 ^ k) (\<lambda>s. word_of_nat (length s)) ''t2'' 2"
  using retry_delay_grows[of "\<lambda>_ k. 5 * 2 ^ k" 1 2 "\<lambda>s. word_of_nat (length s)" "''t1''" "''t2''"] by simp

text \<open>A command is tried on every known control node, each once, and after a leader hint the hinted node
  is known and is tried first.\<close>

lemma targets_leader_first:
  "mset (targets cn) = mset (cn_known cn) \<and> hd (targets (report_leader l cn)) = l \<and>
   set (targets (report_leader l cn)) = insert l (set (targets cn))"
proof -
  obtain ts where "targets (report_leader l cn) = l # ts"
    using targets_leader[of "report_leader l cn" l] report_leader_known by blast
  moreover have "set (targets cn') = set (cn_known cn')" for cn' using targets_mset mset_eq_setD by blast
  moreover have "set (cn_known (report_leader l cn)) = insert l (set (cn_known cn))" by (auto simp: report_leader_def Let_def)
  ultimately show ?thesis using targets_mset by (metis list.sel(1))
qed

end
