(* ===== verification/Swarm.thy ===== *)
theory Swarm
  imports OrderedStore "HOL-Library.Multiset"
begin

text \<open>
  The bookkeeping of the libp2p event loop: the tables of callers that wait for an answer
  (\<open>network/swarm/state.rs\<close>), the commands and events that fill and empty them
  (\<open>commands.rs\<close>, \<open>dial.rs\<close>, \<open>events/connection.rs\<close>, \<open>events/kad.rs\<close>, \<open>events/ping.rs\<close>,
  \<open>events/rpc.rs\<close>), and the upkeep of connections on the reconnect tick (\<open>reconnect.rs\<close>).
  The sender of a oneshot channel is the number of its caller, and sending is the output
  \<open>Reply\<close>. Peers are strings, instants milliseconds. What libp2p answers (ids of requests and
  queries, its own view of a connection, mesh peers) comes with the command or event.
\<close>

section \<open>State\<close>

datatype 'r reply = RpcReply 'r | DoneReply | ProvidersReply "string set" | ReportReply string

datatype 'r swarm_out =
    Reply nat "'r reply result"
  | DialPeer string "string option"
  | DialAddress string
  | AddKadAddress string string
  | Disconnect string
  | CloseConnection nat
  | SetMode string
  | StopProviding string
  | Publish string string
  | Respond nat 'r
  | PeerConnected string
  | PeerDisconnected string

record providers_state =
  gp_providers :: "string set"
  gp_resp :: nat

record swarm_state =
  sw_rpc :: "(nat, nat) cf"
  sw_connect :: "(string, nat list) cf"
  sw_start :: "(nat, nat) cf"
  sw_get :: "(nat, providers_state) cf"
  sw_connected :: "string set"
  sw_activity :: "(string, nat) cf"
  sw_dial_backoff :: "(string, nat) cf"
  sw_reconnect_backoff :: "(string, nat) cf"
  sw_failure_log :: "(string, nat) cf"
  sw_ping :: "(nat, u32) cf"

definition swarm_default :: swarm_state where
  "swarm_default = \<lparr>sw_rpc = [], sw_connect = [], sw_start = [], sw_get = [], sw_connected = {}, sw_activity = [],
     sw_dial_backoff = [], sw_reconnect_backoff = [], sw_failure_log = [], sw_ping = []\<rparr>"

definition DIAL_RETRY_BACKOFF :: nat where "DIAL_RETRY_BACKOFF = 2000"
definition RECONNECT_RETRY_BACKOFF :: nat where "RECONNECT_RETRY_BACKOFF = 30000"
definition OUTGOING_FAILURE_LOG_BACKOFF :: nat where "OUTGOING_FAILURE_LOG_BACKOFF = 30000"
definition ACTIVITY_PROTECT_WINDOW :: nat where "ACTIVITY_PROTECT_WINDOW = 20000"
definition ACTIVITY_RETENTION :: nat where "ACTIVITY_RETENTION = 900000"
definition OVERLAY_DIALS_PER_TICK :: nat where "OVERLAY_DIALS_PER_TICK = 4"
definition PING_FAILURE_DISCONNECT_THRESHOLD :: u32 where "PING_FAILURE_DISCONNECT_THRESHOLD = 3"

section \<open>Pending tables\<close>

definition rpc_insert :: "(nat, nat) cf \<Rightarrow> nat \<Rightarrow> nat \<Rightarrow> (nat, nat) cf" where
  "rpc_insert t i tx = cf_put t i tx"

definition rpc_complete :: "(nat, nat) cf \<Rightarrow> nat \<Rightarrow> 'r result \<Rightarrow> (nat, nat) cf \<times> 'r swarm_out list" where
  "rpc_complete t i res =
     (case cf_get t i of
        Some tx \<Rightarrow> (cf_del t i, [Reply tx (case res of Inl e \<Rightarrow> Inl e | Inr r \<Rightarrow> Inr (RpcReply r))])
      | None \<Rightarrow> (t, []))"

definition rpc_fail_all :: "(nat, nat) cf \<Rightarrow> string \<Rightarrow> (nat, nat) cf \<times> 'r swarm_out list" where
  "rpc_fail_all t reason = ([], map (\<lambda>(_, tx). Reply tx (Inl reason)) t)"

definition add_waiter :: "(string, nat list) cf \<Rightarrow> string \<Rightarrow> nat \<Rightarrow> (string, nat list) cf \<times> bool" where
  "add_waiter t peer tx =
     (case cf_get t peer of
        Some waiters \<Rightarrow> (cf_put t peer (waiters @ [tx]), False)
      | None \<Rightarrow> (cf_put t peer [tx], True))"

definition connect_finish :: "(string, nat list) cf \<Rightarrow> string \<Rightarrow> unit result \<Rightarrow> (string, nat list) cf \<times> 'r swarm_out list" where
  "connect_finish t peer res =
     (case cf_get t peer of
        None \<Rightarrow> (t, [])
      | Some waiters \<Rightarrow> (cf_del t peer, map (\<lambda>w. Reply w (case res of Inl e \<Rightarrow> Inl e | Inr _ \<Rightarrow> Inr DoneReply)) waiters))"

definition connect_fail_all :: "(string, nat list) cf \<Rightarrow> string \<Rightarrow> (string, nat list) cf \<times> 'r swarm_out list" where
  "connect_fail_all t reason = ([], concat (map (\<lambda>(_, waiters). map (\<lambda>w. Reply w (Inl reason)) waiters) t))"

definition kad_fail_all :: "swarm_state \<Rightarrow> string \<Rightarrow> swarm_state \<times> 'r swarm_out list" where
  "kad_fail_all st reason =
     (st\<lparr>sw_start := [], sw_get := []\<rparr>,
      map (\<lambda>(_, resp). Reply resp (Inl reason)) (sw_start st) @ map (\<lambda>(_, s). Reply (gp_resp s) (Inl reason)) (sw_get st))"

definition fail_all_pending :: "swarm_state \<Rightarrow> string \<Rightarrow> swarm_state \<times> 'r swarm_out list" where
  "fail_all_pending st reason =
     (case rpc_fail_all (sw_rpc st) reason of (rpc, out1) \<Rightarrow>
      case connect_fail_all (sw_connect st) reason of (con, out2) \<Rightarrow>
      case kad_fail_all (st\<lparr>sw_rpc := rpc, sw_connect := con\<rparr>) reason of (st, out3) \<Rightarrow>
      (st, out1 @ out2 @ out3))"

section \<open>Commands\<close>

text \<open>\<open>p2p\<close> is the peer at the end of a multiaddress, if it has one.\<close>

definition add_kad_address_from_p2p :: "(string \<Rightarrow> string option) \<Rightarrow> string \<Rightarrow> 'r swarm_out list" where
  "add_kad_address_from_p2p p2p addr = (case p2p addr of Some peer \<Rightarrow> [AddKadAddress peer addr] | None \<Rightarrow> [])"

definition dial_peer_addr :: "(string \<Rightarrow> string option) \<Rightarrow> string \<Rightarrow> string \<Rightarrow> 'r swarm_out list" where
  "dial_peer_addr p2p local addr =
     (case p2p addr of
        Some peer \<Rightarrow> if peer = local then [] else [DialPeer peer (Some addr)]
      | None \<Rightarrow> [DialAddress addr])"

definition leave_kad :: "string list \<Rightarrow> 'r swarm_out list" where
  "leave_kad provider_keys = map StopProviding provider_keys @ [SetMode ''Client'']"

definition ensure_peer_connection :: "(string \<Rightarrow> string option) \<Rightarrow> string \<Rightarrow> nat \<Rightarrow> bool \<Rightarrow> swarm_state \<Rightarrow> string \<Rightarrow> string option \<Rightarrow> nat \<Rightarrow>
    swarm_state \<times> 'r swarm_out list" where
  "ensure_peer_connection p2p local now is_connected st peer addr resp =
     (if peer = local then (st, [Reply resp (Inl (''self dial blocked: peer='' @ peer))])
      else if is_connected then (st, [Reply resp (Inr DoneReply)])
      else
        (case cf_get (sw_dial_backoff st) peer of
           Some until \<Rightarrow>
             if now < until then
               (st, [Reply resp (Inl (''dial backoff active: peer='' @ peer @ '', retry_in_ms='' @ show_nat (until - now)))])
             else
               (case add_waiter (sw_connect st) peer resp of (t, should_dial) \<Rightarrow>
                  (st\<lparr>sw_dial_backoff := cf_del (sw_dial_backoff st) peer, sw_connect := t\<rparr>,
                   (case addr of Some a \<Rightarrow> add_kad_address_from_p2p p2p a | None \<Rightarrow> []) @ (if should_dial then [DialPeer peer addr] else [])))
         | None \<Rightarrow>
             (case add_waiter (sw_connect st) peer resp of (t, should_dial) \<Rightarrow>
                (st\<lparr>sw_connect := t\<rparr>,
                 (case addr of Some a \<Rightarrow> add_kad_address_from_p2p p2p a | None \<Rightarrow> []) @ (if should_dial then [DialPeer peer addr] else [])))))"

text \<open>The commands, with what libp2p returned for them: the id of a query or a request, or the
  report of its state.\<close>

datatype 'r swarm_command =
    SetKadMode string
  | StartProviding "nat result" nat
  | LeaveKad "string list" nat
  | GetProviders nat nat
  | DialCommand string
  | EnsureConnection string "string option" nat
  | GossipsubPublish string string
  | GetLibp2pInfo string nat
  | PublishOpenRaftSnapshotBuilt nat
  | RpcRequest nat nat
  | RpcRespond nat 'r

definition handle_command :: "(string \<Rightarrow> string option) \<Rightarrow> string \<Rightarrow> nat \<Rightarrow> (string \<Rightarrow> bool) \<Rightarrow> swarm_state \<Rightarrow> 'r swarm_command \<Rightarrow>
    swarm_state \<times> 'r swarm_out list" where
  "handle_command p2p local now is_connected st cmd =
     (case cmd of
        SetKadMode mode \<Rightarrow> (st, [SetMode mode])
      | StartProviding (Inr query_id) resp \<Rightarrow> (st\<lparr>sw_start := cf_put (sw_start st) query_id resp\<rparr>, [])
      | StartProviding (Inl e) resp \<Rightarrow> (st, [Reply resp (Inl (''start_providing failed: '' @ e))])
      | LeaveKad provider_keys resp \<Rightarrow> (st, leave_kad provider_keys @ [Reply resp (Inr DoneReply)])
      | GetProviders query_id resp \<Rightarrow>
          (st\<lparr>sw_get := cf_put (sw_get st) query_id \<lparr>gp_providers = {}, gp_resp = resp\<rparr>\<rparr>, [])
      | DialCommand addr \<Rightarrow> (st, dial_peer_addr p2p local addr @ add_kad_address_from_p2p p2p addr)
      | EnsureConnection peer addr resp \<Rightarrow> ensure_peer_connection p2p local now (is_connected peer) st peer addr resp
      | GossipsubPublish topic data \<Rightarrow> (st, [Publish topic data])
      | GetLibp2pInfo report resp \<Rightarrow> (st, [Reply resp (Inr (ReportReply report))])
      | PublishOpenRaftSnapshotBuilt resp \<Rightarrow>
          (st, [Reply resp (Inl ''openraft snapshot sync is not available in this swarm loop'')])
      | RpcRequest request_id resp \<Rightarrow> (st\<lparr>sw_rpc := rpc_insert (sw_rpc st) request_id resp\<rparr>, [])
      | RpcRespond channel resp \<Rightarrow> (st, [Respond channel resp]))"

section \<open>Events\<close>

definition handle_connection_established :: "nat \<Rightarrow> swarm_state \<Rightarrow> string \<Rightarrow> swarm_state \<times> 'r swarm_out list" where
  "handle_connection_established now st peer =
     (case connect_finish (sw_connect st) peer (Inr ()) of (t, out) \<Rightarrow>
        (st\<lparr>sw_connected := insert peer (sw_connected st), sw_dial_backoff := cf_del (sw_dial_backoff st) peer, sw_connect := t,
            sw_reconnect_backoff := cf_del (sw_reconnect_backoff st) peer,
            sw_failure_log := cf_del (sw_failure_log st) peer,
            sw_activity := cf_put (sw_activity st) peer now\<rparr>, out @ [PeerConnected peer]))"

definition handle_connection_closed :: "swarm_state \<Rightarrow> string \<Rightarrow> nat \<Rightarrow> nat \<Rightarrow> swarm_state \<times> 'r swarm_out list" where
  "handle_connection_closed st peer connection num_established =
     (let st = st\<lparr>sw_ping := cf_del (sw_ping st) connection\<rparr> in
      if num_established = 0
      then (st\<lparr>sw_connected := sw_connected st - {peer}, sw_activity := cf_del (sw_activity st) peer\<rparr>, [PeerDisconnected peer])
      else (st, []))"

definition should_log_outgoing_failure :: "nat \<Rightarrow> string \<Rightarrow> (string, nat) cf \<Rightarrow> (string, nat) cf \<times> bool" where
  "should_log_outgoing_failure now peer t =
     (case cf_get t peer of
        Some until \<Rightarrow>
          if now < until then (t, False)
          else (cf_put (cf_del t peer) peer (now + OUTGOING_FAILURE_LOG_BACKOFF), True)
      | None \<Rightarrow> (cf_put t peer (now + OUTGOING_FAILURE_LOG_BACKOFF), True))"

definition handle_outgoing_connection_error :: "nat \<Rightarrow> (string \<Rightarrow> bool) \<Rightarrow> swarm_state \<Rightarrow> string option \<Rightarrow> string \<Rightarrow>
    swarm_state \<times> 'r swarm_out list" where
  "handle_outgoing_connection_error now is_connected st peer_id error =
     (case peer_id of
        None \<Rightarrow> (st, [])
      | Some peer \<Rightarrow>
          if is_connected peer then (st, [])
          else
            let has_waiters = (cf_get (sw_connect st) peer \<noteq> None);
                st = st\<lparr>sw_dial_backoff := cf_put (sw_dial_backoff st) peer (now + DIAL_RETRY_BACKOFF)\<rparr>;
                st = (if has_waiters then st\<lparr>sw_failure_log := fst (should_log_outgoing_failure now peer (sw_failure_log st))\<rparr> else st) in
            (case connect_finish (sw_connect st) peer (Inl (''dial failed: '' @ error)) of (t, out) \<Rightarrow>
               (st\<lparr>sw_connect := t\<rparr>, out)))"

datatype 'e kad_result = StartProvidingResult "unit + 'e" | FoundProviders "string set" | FinishedProviders | ProvidersFailed 'e

definition handle_kad_progress :: "swarm_state \<Rightarrow> nat \<Rightarrow> string kad_result \<Rightarrow> swarm_state \<times> 'r swarm_out list" where
  "handle_kad_progress st i res =
     (case res of
        StartProvidingResult r \<Rightarrow>
          (case cf_get (sw_start st) i of
             Some resp \<Rightarrow>
               (st\<lparr>sw_start := cf_del (sw_start st) i\<rparr>,
                [Reply resp (case r of Inl _ \<Rightarrow> Inr DoneReply | Inr e \<Rightarrow> Inl (''kademlia start_providing failed: '' @ e))])
           | None \<Rightarrow> (st, []))
      | FoundProviders ps \<Rightarrow>
          (case cf_get (sw_get st) i of
             Some s \<Rightarrow> (st\<lparr>sw_get := cf_put (sw_get st) i (s\<lparr>gp_providers := gp_providers s \<union> ps\<rparr>)\<rparr>, [])
           | None \<Rightarrow> (st, []))
      | FinishedProviders \<Rightarrow>
          (case cf_get (sw_get st) i of
             Some s \<Rightarrow> (st\<lparr>sw_get := cf_del (sw_get st) i\<rparr>, [Reply (gp_resp s) (Inr (ProvidersReply (gp_providers s)))])
           | None \<Rightarrow> (st, []))
      | ProvidersFailed e \<Rightarrow>
          (case cf_get (sw_get st) i of
             Some s \<Rightarrow> (st\<lparr>sw_get := cf_del (sw_get st) i\<rparr>, [Reply (gp_resp s) (Inl (''kademlia get_providers failed: '' @ e))])
           | None \<Rightarrow> (st, [])))"

definition handle_ping_event :: "swarm_state \<Rightarrow> nat \<Rightarrow> bool \<Rightarrow> swarm_state \<times> 'r swarm_out list" where
  "handle_ping_event st connection ok =
     (if ok then (st\<lparr>sw_ping := cf_del (sw_ping st) connection\<rparr>, [])
      else
        let failures = (case cf_get (sw_ping st) connection of Some n \<Rightarrow> n | None \<Rightarrow> 0) + 1 in
        if PING_FAILURE_DISCONNECT_THRESHOLD \<le> failures
        then (st\<lparr>sw_ping := cf_del (sw_ping st) connection\<rparr>, [CloseConnection connection])
        else (st\<lparr>sw_ping := cf_put (sw_ping st) connection failures\<rparr>, []))"

text \<open>The events of the loop; \<open>EvRpcMessage\<close> is an answer to a request of this node, \<open>EvRpcInbound\<close> a
  request of another, \<open>EvUnrelated\<close> stands for the events whose handlers do not get these tables
  (mDNS, gossipsub, routing updates, new listen addresses).\<close>

datatype 'r swarm_event =
    EvRpcMessage string nat 'r
  | EvRpcInbound string
  | EvOutboundFailure nat string
  | EvPing nat bool
  | EvKad nat "string kad_result"
  | EvConnectionEstablished string
  | EvConnectionClosed string nat nat
  | EvOutgoingConnectionError "string option" string
  | EvUnrelated

definition handle_swarm_event :: "nat \<Rightarrow> (string \<Rightarrow> bool) \<Rightarrow> swarm_state \<Rightarrow> 'r swarm_event \<Rightarrow> swarm_state \<times> 'r swarm_out list" where
  "handle_swarm_event now is_connected st ev =
     (case ev of
        EvRpcMessage peer i r \<Rightarrow>
          (case rpc_complete (sw_rpc st) i (Inr r) of (t, out) \<Rightarrow>
             (st\<lparr>sw_activity := cf_put (sw_activity st) peer now, sw_rpc := t\<rparr>, out))
      | EvRpcInbound peer \<Rightarrow> (st\<lparr>sw_activity := cf_put (sw_activity st) peer now\<rparr>, [])
      | EvOutboundFailure i e \<Rightarrow>
          (case rpc_complete (sw_rpc st) i (Inl (''outbound failure: '' @ e)) of (t, out) \<Rightarrow> (st\<lparr>sw_rpc := t\<rparr>, out))
      | EvPing connection ok \<Rightarrow> handle_ping_event st connection ok
      | EvKad i res \<Rightarrow> handle_kad_progress st i res
      | EvConnectionEstablished peer \<Rightarrow> handle_connection_established now st peer
      | EvConnectionClosed peer connection n \<Rightarrow> handle_connection_closed st peer connection n
      | EvOutgoingConnectionError peer_id e \<Rightarrow> handle_outgoing_connection_error now is_connected st peer_id e
      | EvUnrelated \<Rightarrow> (st, []))"

section \<open>The reconnect tick\<close>

text \<open>\<open>order\<close> is the order in which the hash set of connected peers is iterated, \<open>rank\<close> the
  random key of the overlay.\<close>

definition redial_step :: "(string \<Rightarrow> string option) \<Rightarrow> string \<Rightarrow> nat \<Rightarrow> swarm_state \<times> string set \<times> 'r swarm_out list \<Rightarrow> string \<times> string \<Rightarrow>
    swarm_state \<times> string set \<times> 'r swarm_out list" where
  "redial_step p2p local now acc target =
     (case (acc, target) of ((st, pinned, out), (peer, addr)) \<Rightarrow>
        if peer = local then (st, pinned, out)
        else
          let pinned = insert peer pinned in
          if peer \<in> sw_connected st then (st, pinned, out)
          else if (case cf_get (sw_reconnect_backoff st) peer of Some until \<Rightarrow> now < until | None \<Rightarrow> False) then (st, pinned, out)
          else
            (st\<lparr>sw_reconnect_backoff := cf_put (cf_del (sw_reconnect_backoff st) peer) peer (now + RECONNECT_RETRY_BACKOFF)\<rparr>,
             pinned, out @ dial_peer_addr p2p local addr @ add_kad_address_from_p2p p2p addr))"

definition redial_pinned_peers :: "(string \<Rightarrow> string option) \<Rightarrow> string \<Rightarrow> nat \<Rightarrow> swarm_state \<Rightarrow> (string \<times> string) list \<Rightarrow> swarm_state \<times> string set \<times> 'r swarm_out list" where
  "redial_pinned_peers p2p local now st nodes = foldl (redial_step p2p local now) (st, {}, []) nodes"

definition overlay_candidates :: "string \<Rightarrow> nat \<Rightarrow> (string \<Rightarrow> bool) \<Rightarrow> swarm_state \<Rightarrow> (string \<times> string) list \<Rightarrow> (string \<times> string) list" where
  "overlay_candidates local now alive st nodes =
     filter (\<lambda>(peer, _). peer \<noteq> local \<and> peer \<notin> sw_connected st \<and>
       \<not> (case cf_get (sw_dial_backoff st) peer of Some until \<Rightarrow> now < until | None \<Rightarrow> False) \<and> alive peer) nodes"

definition maintain_overlay_floor :: "(string \<Rightarrow> string option) \<Rightarrow> string \<Rightarrow> nat \<Rightarrow> (string \<Rightarrow> bool) \<Rightarrow> (string \<Rightarrow> u64) \<Rightarrow> swarm_state \<Rightarrow> nat \<Rightarrow> (string \<times> string) list \<Rightarrow>
    'r swarm_out list" where
  "maintain_overlay_floor p2p local now alive rank st overlay_min nodes =
     (if overlay_min = 0 \<or> overlay_min \<le> card (sw_connected st) then []
      else
        let want = min (overlay_min - card (sw_connected st)) OVERLAY_DIALS_PER_TICK;
            candidates = sort_key (\<lambda>(peer, _). rank peer) (overlay_candidates local now alive st nodes) in
        concat (map (\<lambda>(_, addr). dial_peer_addr p2p local addr @ add_kad_address_from_p2p p2p addr) (take want candidates)))"

definition select_peers_to_close :: "string list \<Rightarrow> string set \<Rightarrow> (string, nat) cf \<Rightarrow> nat \<Rightarrow> string list" where
  "select_peers_to_close order protected last_activity budget =
     (let excess = length order - budget in
      if excess = 0 then []
      else take excess (sort_key (\<lambda>peer. cf_get last_activity peer) (filter (\<lambda>peer. peer \<notin> protected) order)))"

definition recent_activity :: "nat \<Rightarrow> (string, nat) cf \<Rightarrow> (string, nat) cf" where
  "recent_activity now activity = filter (\<lambda>(_, at). now - at < ACTIVITY_RETENTION) activity"

definition protected_peers :: "nat \<Rightarrow> swarm_state \<Rightarrow> string set \<Rightarrow> string set \<Rightarrow> string set" where
  "protected_peers now st pinned mesh =
     pinned \<union> mesh \<union> set (map fst (sw_connect st)) \<union>
     set (map fst (filter (\<lambda>(_, at). now - at < ACTIVITY_PROTECT_WINDOW) (sw_activity st)))"

definition enforce_connection_budget :: "nat \<Rightarrow> swarm_state \<Rightarrow> string list \<Rightarrow> string set \<Rightarrow> string set \<Rightarrow> nat \<Rightarrow> swarm_state \<times> 'r swarm_out list" where
  "enforce_connection_budget now st order pinned mesh max_peer_connections =
     (let st = st\<lparr>sw_activity := recent_activity now (sw_activity st)\<rparr> in
      if max_peer_connections = 0 \<or> length order \<le> max_peer_connections then (st, [])
      else
        (st, map Disconnect
          (select_peers_to_close order (protected_peers now st pinned mesh) (sw_activity st) max_peer_connections)))"

definition handle_reconnect_tick :: "(string \<Rightarrow> string option) \<Rightarrow> string \<Rightarrow> nat \<Rightarrow> (string \<Rightarrow> bool) \<Rightarrow> (string \<Rightarrow> u64) \<Rightarrow> swarm_state \<Rightarrow> string list \<Rightarrow>
    (string \<times> string) list \<Rightarrow> (string \<times> string) list \<Rightarrow> string set \<Rightarrow> nat \<Rightarrow> nat \<Rightarrow> swarm_state \<times> 'r swarm_out list" where
  "handle_reconnect_tick p2p local now alive rank st order targets nodes mesh max_peer_connections overlay_min =
     (case redial_pinned_peers p2p local now st targets of (st, pinned, out1) \<Rightarrow>
        let out2 = maintain_overlay_floor p2p local now alive rank st overlay_min nodes in
        (case enforce_connection_budget now st order pinned mesh max_peer_connections of (st, out3) \<Rightarrow>
           (st, out1 @ out2 @ out3)))"

section \<open>Every caller is answered once\<close>

text \<open>The callers of a table, as a multiset, and what one write or removal does to it.\<close>

definition callers :: "('v \<Rightarrow> nat multiset) \<Rightarrow> ('k, 'v) cf \<Rightarrow> nat multiset" where
  "callers f t = sum_list (map (f \<circ> snd) t)"

definition callers_at :: "('v \<Rightarrow> nat multiset) \<Rightarrow> 'v option \<Rightarrow> nat multiset" where
  "callers_at f v = (case v of Some x \<Rightarrow> f x | None \<Rightarrow> {#})"

lemma callers_simps [simp]: "callers f [] = {#}" "callers f ((k, v) # t) = f v + callers f t"
  "callers_at f None = {#}" "callers_at f (Some v) = f v"
  by (simp_all add: callers_def callers_at_def)

lemma cf_ok_Cons: "cf_ok ((k, v) # t) \<longleftrightarrow> cf_ok t \<and> (\<forall>k' \<in> fst ` set t. k < k')"
  by (auto simp: cf_ok_def)

lemma callers_put: "cf_ok t \<Longrightarrow> callers f (cf_put t k v) + callers_at f (cf_get t k) = callers f t + f v"
proof (induction t k v rule: cf_put.induct)
  case (2 k' v' m k v)
  have none: "cf_get m k = None" if "k < k'" using 2 that by (auto simp: cf_ok_Cons cf_get_def map_of_eq_None_iff)
  show ?case using 2 none by (auto simp: cf_ok_Cons cf_get_def ac_simps)
qed (simp add: cf_get_def)

lemma callers_del: "cf_ok t \<Longrightarrow> callers f (cf_del t k) + callers_at f (cf_get t k) = callers f t"
proof (induction t)
  case (Cons e t)
  obtain k' v' where e: "e = (k', v')" by fastforce
  have "cf_del t k = t \<and> cf_get t k = None" if "k' = k"
    using Cons.prems that unfolding e cf_ok_Cons
    by (auto simp: cf_del_def cf_get_def map_of_eq_None_iff filter_id_conv)
  then show ?case using Cons by (auto simp: e cf_ok_Cons cf_del_def cf_get_def ac_simps)
qed (simp add: cf_del_def cf_get_def)

abbreviation lone :: "nat \<Rightarrow> nat multiset" where
  "lone w \<equiv> {#w#}"

definition waiting :: "swarm_state \<Rightarrow> nat multiset" where
  "waiting st = callers lone (sw_rpc st) + callers mset (sw_connect st) + callers lone (sw_start st) +
     callers (\<lambda>s. {#gp_resp s#}) (sw_get st)"

fun reply_to :: "'r swarm_out \<Rightarrow> nat multiset" where
  "reply_to (Reply w _) = {#w#}"
| "reply_to _ = {#}"

definition answered :: "'r swarm_out list \<Rightarrow> nat multiset" where
  "answered out = sum_list (map reply_to out)"

lemma answered_simps [simp]: "answered [] = {#}" "answered (e # out) = reply_to e + answered out"
  "answered (out @ out') = answered out + answered out'"
  by (simp_all add: answered_def)

definition tables_ok :: "swarm_state \<Rightarrow> bool" where
  "tables_ok st \<longleftrightarrow> cf_ok (sw_rpc st) \<and> cf_ok (sw_connect st) \<and> cf_ok (sw_start st) \<and> cf_ok (sw_get st)"

lemma answered_waiters: "answered (map (\<lambda>w. Reply w (g w)) ws) = mset ws"
  by (induction ws) auto

lemma rpc_complete_callers:
  "cf_ok t \<Longrightarrow> rpc_complete t i res = (t', out) \<Longrightarrow> cf_ok t' \<and> callers lone t' + answered out = callers lone t"
  using callers_del[of t lone i] by (auto simp: rpc_complete_def cf_ok_del split: option.splits)

lemma connect_finish_callers:
  "cf_ok t \<Longrightarrow> connect_finish t peer res = (t', out) \<Longrightarrow> cf_ok t' \<and> callers mset t' + answered out = callers mset t"
  using callers_del[of t mset peer] by (auto simp: connect_finish_def cf_ok_del answered_waiters split: option.splits)

lemma add_waiter_callers:
  "cf_ok t \<Longrightarrow> add_waiter t peer w = (t', b) \<Longrightarrow> cf_ok t' \<and> callers mset t' = callers mset t + {#w#}"
  using callers_put[of t mset peer "[w]"] callers_put[of t mset peer "the (cf_get t peer) @ [w]"]
  by (auto simp: add_waiter_def cf_ok_put split: option.splits)

lemma callers_put_new: "cf_ok t \<Longrightarrow> cf_get t k = None \<Longrightarrow> callers f (cf_put t k v) = callers f t + f v"
  using callers_put[of t f k v] by simp

lemma callers_put_same: "cf_ok t \<Longrightarrow> cf_get t k = Some u \<Longrightarrow> f v = f u \<Longrightarrow> callers f (cf_put t k v) = callers f t"
  using callers_put[of t f k v] by simp

lemma map_reply_rpc: "answered (map (\<lambda>(_, tx). Reply tx (Inl reason)) t) = callers lone t"
  by (induction t) auto

lemma map_reply_get: "answered (map (\<lambda>(_, s). Reply (gp_resp s) (Inl reason)) t) = callers (\<lambda>s. {#gp_resp s#}) t"
  by (induction t) auto

lemma map_reply_connect: "answered (concat (map (\<lambda>(_, ws). map (\<lambda>w. Reply w (Inl reason)) ws) t)) = callers mset t"
  by (induction t) (auto simp: answered_waiters)

lemma fail_all_pending_callers:
  "fail_all_pending st reason = (st', out) \<Longrightarrow> tables_ok st' \<and> waiting st' = {#} \<and> answered out = waiting st"
  by (auto simp: fail_all_pending_def rpc_fail_all_def connect_fail_all_def kad_fail_all_def tables_ok_def waiting_def
      map_reply_rpc map_reply_get map_reply_connect cf_ok_def)

fun callers_of :: "'r swarm_command \<Rightarrow> nat list" where
  "callers_of (StartProviding _ w) = [w]"
| "callers_of (LeaveKad _ w) = [w]"
| "callers_of (GetProviders _ w) = [w]"
| "callers_of (EnsureConnection _ _ w) = [w]"
| "callers_of (GetLibp2pInfo _ w) = [w]"
| "callers_of (PublishOpenRaftSnapshotBuilt w) = [w]"
| "callers_of (RpcRequest _ w) = [w]"
| "callers_of _ = []"

text \<open>libp2p does not give a new request or query the id of one that is still pending.\<close>

fun fresh_id :: "swarm_state \<Rightarrow> 'r swarm_command \<Rightarrow> bool" where
  "fresh_id st (StartProviding (Inr q) _) = (cf_get (sw_start st) q = None)"
| "fresh_id st (GetProviders q _) = (cf_get (sw_get st) q = None)"
| "fresh_id st (RpcRequest i _) = (cf_get (sw_rpc st) i = None)"
| "fresh_id st _ = True"

lemma no_replies: "(\<And>e. e \<in> set out \<Longrightarrow> reply_to e = {#}) \<Longrightarrow> answered out = {#}"
  by (induction out) auto

lemma dial_no_reply [simp]: "answered (add_kad_address_from_p2p p2p addr) = {#}" "answered (dial_peer_addr p2p local addr) = {#}"
  "answered (leave_kad keys) = {#}"
  by (auto simp: add_kad_address_from_p2p_def dial_peer_addr_def leave_kad_def intro!: no_replies split: option.splits)

lemma ensure_callers:
  assumes "tables_ok st" "ensure_peer_connection p2p local now conn st peer addr w = (st', out)"
  shows "tables_ok st' \<and> waiting st' + answered out = waiting st + {#w#}"
proof -
  obtain t b where a: "add_waiter (sw_connect st) peer w = (t, b)" by fastforce
  have t: "cf_ok t" "callers mset t = callers mset (sw_connect st) + {#w#}"
    using add_waiter_callers[OF _ a] assms(1) by (auto simp: tables_ok_def)
  show ?thesis using assms(2) a t assms(1)
    by (auto simp: ensure_peer_connection_def tables_ok_def waiting_def ac_simps split: if_splits option.splits)
qed

lemma handle_command_callers:
  fixes out :: "'r swarm_out list"
  assumes "tables_ok st" "fresh_id st cmd" "handle_command p2p local now conn st cmd = (st', out)"
  shows "tables_ok st' \<and> waiting st' + answered out = waiting st + mset (callers_of cmd)"
proof (cases "\<exists>peer addr w. cmd = EnsureConnection peer addr w")
  case True
  then obtain peer addr w where cmd: "cmd = EnsureConnection peer addr w" by blast
  then have "ensure_peer_connection p2p local now (conn peer) st peer addr w = (st', out)"
    using assms(3) by (simp add: handle_command_def)
  from ensure_callers[OF assms(1) this] show ?thesis by (simp add: cmd)
next
  case False
  then show ?thesis using assms
    by (cases "(st, cmd)" rule: fresh_id.cases)
      (auto simp: handle_command_def rpc_insert_def tables_ok_def waiting_def cf_ok_put callers_put_new)
qed

lemma kad_progress_callers:
  assumes "tables_ok st" "handle_kad_progress st i res = (st', out)"
  shows "tables_ok st' \<and> waiting st' + answered out = waiting st"
  using assms callers_del[of "sw_start st" lone i] callers_del[of "sw_get st" "\<lambda>s. {#gp_resp s#}" i]
  by (auto simp: handle_kad_progress_def tables_ok_def waiting_def cf_ok_put cf_ok_del callers_put_same ac_simps
      split: kad_result.splits option.splits)

lemma established_callers:
  assumes "tables_ok st" "handle_connection_established now st peer = (st', out)"
  shows "tables_ok st' \<and> waiting st' + answered out = waiting st"
proof -
  obtain t o1 where c: "connect_finish (sw_connect st) peer (Inr ()) = (t, o1 :: 'a swarm_out list)" by fastforce
  have "cf_ok t \<and> callers mset t + answered o1 = callers mset (sw_connect st)"
    using connect_finish_callers[OF _ c] assms(1) by (simp add: tables_ok_def)
  then show ?thesis using assms c by (auto simp: handle_connection_established_def tables_ok_def waiting_def ac_simps)
qed

lemma outgoing_error_callers:
  assumes "tables_ok st" "handle_outgoing_connection_error now conn st p e = (st', out)"
  shows "tables_ok st' \<and> waiting st' + answered out = waiting st"
proof (cases p)
  case (Some peer)
  obtain t o1 where c: "connect_finish (sw_connect st) peer (Inl (''dial failed: '' @ e)) = (t, o1 :: 'a swarm_out list)" by fastforce
  have "cf_ok t \<and> callers mset t + answered o1 = callers mset (sw_connect st)"
    using connect_finish_callers[OF _ c] assms(1) by (simp add: tables_ok_def)
  then show ?thesis using assms c Some
    by (auto simp: handle_outgoing_connection_error_def Let_def tables_ok_def waiting_def ac_simps split: if_splits)
qed (use assms in \<open>auto simp: handle_outgoing_connection_error_def\<close>)

lemma rpc_event_callers:
  assumes "tables_ok st" "rpc_complete (sw_rpc st) i res = (t, out)"
  shows "tables_ok (st\<lparr>sw_activity := x, sw_rpc := t\<rparr>) \<and> waiting (st\<lparr>sw_activity := x, sw_rpc := t\<rparr>) + answered out = waiting st"
  using rpc_complete_callers[OF _ assms(2)] assms(1) by (auto simp: tables_ok_def waiting_def ac_simps)

lemma handle_swarm_event_callers:
  assumes "tables_ok st" "handle_swarm_event now conn st ev = (st', out)"
  shows "tables_ok st' \<and> waiting st' + answered out = waiting st"
proof (cases ev)
  case (EvRpcMessage peer i r)
  obtain t o1 where c: "rpc_complete (sw_rpc st) i (Inr r) = (t, o1 :: 'a swarm_out list)" by fastforce
  show ?thesis using EvRpcMessage assms(2) c rpc_event_callers[OF assms(1) c, of "cf_put (sw_activity st) peer now"]
    by (auto simp: handle_swarm_event_def)
next
  case (EvOutboundFailure i e)
  obtain t o1 where c: "rpc_complete (sw_rpc st) i (Inl (''outbound failure: '' @ e)) = (t, o1 :: 'a swarm_out list)" by fastforce
  show ?thesis using EvOutboundFailure assms(2) c rpc_event_callers[OF assms(1) c, of "sw_activity st"]
    by (auto simp: handle_swarm_event_def)
next
  case (EvConnectionClosed peer c n)
  then show ?thesis using assms by (auto simp: handle_swarm_event_def handle_connection_closed_def Let_def tables_ok_def waiting_def split: if_splits)
next
  case (EvPing c ok)
  then show ?thesis using assms
    by (auto simp: handle_swarm_event_def handle_ping_event_def Let_def tables_ok_def waiting_def split: if_splits)
next
  case (EvKad i res)
  then have "handle_kad_progress st i res = (st', out)" using assms(2) by (simp add: handle_swarm_event_def)
  from kad_progress_callers[OF assms(1) this] show ?thesis .
next
  case (EvConnectionEstablished peer)
  then have "handle_connection_established now st peer = (st', out)" using assms(2) by (simp add: handle_swarm_event_def)
  from established_callers[OF assms(1) this] show ?thesis .
next
  case (EvOutgoingConnectionError p e)
  then have "handle_outgoing_connection_error now conn st p e = (st', out)" using assms(2) by (simp add: handle_swarm_event_def)
  from outgoing_error_callers[OF assms(1) this] show ?thesis .
qed (use assms in \<open>auto simp: handle_swarm_event_def tables_ok_def waiting_def\<close>)

lemma redial_step_callers:
  "redial_step p2p local now (st, pinned, out) target = (st', pinned', out') \<Longrightarrow>
    (tables_ok st' \<longleftrightarrow> tables_ok st) \<and> waiting st' = waiting st \<and> answered out' = answered out"
  by (auto simp: redial_step_def Let_def tables_ok_def waiting_def split: prod.splits if_splits)

lemma redial_fold_callers:
  "foldl (redial_step p2p local now) (st, pinned, out) nodes = (st', pinned', out') \<Longrightarrow>
    (tables_ok st' \<longleftrightarrow> tables_ok st) \<and> waiting st' = waiting st \<and> answered out' = answered out"
proof (induction nodes arbitrary: st pinned out)
  case (Cons t nodes)
  obtain st1 p1 o1 where s: "redial_step p2p local now (st, pinned, out) t = (st1, p1, o1)" by (metis prod_cases3)
  show ?case using Cons.IH[of st1 p1 o1] Cons.prems redial_step_callers[OF s] s by auto
qed simp

lemma answered_concat_none: "(\<And>out. out \<in> set outs \<Longrightarrow> answered out = {#}) \<Longrightarrow> answered (concat outs) = {#}"
  by (induction outs) auto

lemma tick_callers:
  fixes out :: "'r swarm_out list"
  assumes "handle_reconnect_tick p2p local now alive rank st order targets nodes mesh most least = (st', out)" "tables_ok st"
  shows "tables_ok st' \<and> waiting st' = waiting st \<and> answered out = {#}"
proof -
  obtain st1 p1 and o1 :: "'r swarm_out list" where r: "redial_pinned_peers p2p local now st targets = (st1, p1, o1)" by (metis prod_cases3)
  note r1 = redial_fold_callers[OF r[unfolded redial_pinned_peers_def]]
  obtain st2 and o3 :: "'r swarm_out list" where e: "enforce_connection_budget now st1 order p1 mesh most = (st2, o3)" by fastforce
  have "tables_ok st2 = tables_ok st1" "waiting st2 = waiting st1" "answered o3 = {#}"
    using e by (auto simp: enforce_connection_budget_def Let_def tables_ok_def waiting_def intro!: no_replies split: if_splits)
  moreover have "answered (maintain_overlay_floor p2p local now alive rank st1 least nodes :: 'r swarm_out list) = {#}"
    by (auto simp: maintain_overlay_floor_def Let_def intro!: answered_concat_none)
  ultimately show ?thesis using assms r r1 e by (auto simp: handle_reconnect_tick_def)
qed

text \<open>A run of the event loop: the callers that were registered, in order, and all outputs.\<close>

inductive swarm_run :: "string \<Rightarrow> swarm_state \<Rightarrow> nat list \<Rightarrow> 'r swarm_out list \<Rightarrow> bool" for local where
  start: "swarm_run local swarm_default [] []"
| command: "swarm_run local st ws out \<Longrightarrow> fresh_id st cmd \<Longrightarrow> handle_command p2p local now conn st cmd = (st', out') \<Longrightarrow>
    swarm_run local st' (ws @ callers_of cmd) (out @ out')"
| event: "swarm_run local st ws out \<Longrightarrow> handle_swarm_event now conn st ev = (st', out') \<Longrightarrow>
    swarm_run local st' ws (out @ out')"
| tick: "swarm_run local st ws out \<Longrightarrow>
    handle_reconnect_tick p2p local now alive rank st order targets nodes mesh most least = (st', out') \<Longrightarrow>
    swarm_run local st' ws (out @ out')"
| stop: "swarm_run local st ws out \<Longrightarrow> fail_all_pending st reason = (st', out') \<Longrightarrow>
    swarm_run local st' ws (out @ out')"

lemma swarm_run_conserves:
  assumes "swarm_run local st ws out"
  shows "tables_ok st \<and> mset ws = waiting st + answered out"
  using assms
proof (induction rule: swarm_run.induct)
  case start
  show ?case by (simp add: swarm_default_def tables_ok_def waiting_def cf_ok_def)
next
  case (command st ws out cmd p2p now conn st' out')
  then show ?case using handle_command_callers[OF _ command(2,3)] by (auto simp: ac_simps)
next
  case (event st ws out now conn ev st' out')
  then show ?case using handle_swarm_event_callers[OF _ event(2)] by (auto simp: ac_simps)
next
  case (tick st ws out p2p now alive rank order targets nodes mesh most least st' out')
  then show ?case using tick_callers[OF tick(2)] by auto
next
  case (stop st ws out reason st' out')
  then show ?case using fail_all_pending_callers[OF stop(2)] by (auto simp: ac_simps)
qed

section \<open>The peers that are closed\<close>

lemma sorted_take_drop:
  assumes "p \<in> set (take n (sort_key f xs))" "q \<in> set xs" "q \<notin> set (take n (sort_key f xs))"
  shows "f p \<le> f q"
proof -
  let ?ys = "sort_key f xs"
  have "q \<in> set (drop n ?ys)" using assms(2,3) by (metis Un_iff append_take_drop_id set_append set_sort)
  moreover have "sorted (map f (take n ?ys @ drop n ?ys))" by simp
  ultimately show ?thesis using assms(1) by (auto simp only: map_append sorted_append set_map)
qed

lemma select_peers_spec:
  assumes "distinct order" and r_def: "r = select_peers_to_close order protected act budget"
  shows "set r \<subseteq> set order - protected" "card (set r) = min (length order - budget) (card (set order - protected))"
    "p \<in> set r \<Longrightarrow> q \<in> set order - protected - set r \<Longrightarrow> cf_get act p \<le> cf_get act q"
proof -
  let ?f = "\<lambda>peer. cf_get act peer" and ?xs = "filter (\<lambda>peer. peer \<notin> protected) order"
  have r: "r = take (length order - budget) (sort_key ?f ?xs)" by (simp add: r_def select_peers_to_close_def Let_def)
  have xs: "set ?xs = set order - protected" "distinct ?xs" using assms(1) by auto
  have "set r \<subseteq> set ?xs" unfolding r by (metis set_sort set_take_subset)
  then show "set r \<subseteq> set order - protected" using xs(1) by simp
  have "distinct r" using xs(2) unfolding r by simp
  then have "card (set r) = length r" by (rule distinct_card)
  also have "\<dots> = min (length order - budget) (length ?xs)" unfolding r by simp
  also have "length ?xs = card (set order - protected)" using distinct_card[OF xs(2)] xs(1) by simp
  finally show "card (set r) = min (length order - budget) (card (set order - protected))" .
  show "cf_get act p \<le> cf_get act q" if "p \<in> set r" "q \<in> set order - protected - set r"
    using sorted_take_drop[of p "length order - budget" ?f ?xs q] that xs(1) unfolding r by auto
qed

end
