(* ===== verification/SwarmClaims.thy ===== *)
theory SwarmClaims
  imports Swarm
begin

text \<open>
  The properties of the libp2p event loop.
\<close>

section \<open>Callers\<close>

text \<open>C40: in every run of the event loop the callers that registered are those still waiting and those
  answered, each counted once: no caller is answered twice or forgotten, and after the loop has
  stopped every caller has been answered exactly once. A caller that asks for a connection starts a
  dial exactly when the peer is another node, not connected, not in back-off and no other caller waits
  for it; otherwise it joins them or is answered. (The dial command and the redialling of pinned peers
  do not look at the callers.)\<close>

theorem callers_answered_once:
  fixes out :: "'r swarm_out list"
  assumes "swarm_run local st ws out"
  shows "mset ws = waiting st + answered out \<and>
    waiting (fst (fail_all_pending st reason :: swarm_state \<times> 'r swarm_out list)) = {#} \<and>
    mset ws = answered (out @ snd (fail_all_pending st reason)) \<and>
    {q. \<exists>a. DialPeer q a \<in> set (snd (handle_command p2p local now conn st (EnsureConnection peer addr w) :: swarm_state \<times> 'r swarm_out list))} =
      (if peer \<noteq> local \<and> \<not> conn peer \<and> cf_get (sw_connect st) peer = None \<and>
          (case cf_get (sw_dial_backoff st) peer of Some until \<Rightarrow> until \<le> now | None \<Rightarrow> True) then {peer} else {})"
proof -
  have c: "mset ws = waiting st + answered out" using swarm_run_conserves[OF assms] by simp
  obtain st' and out' :: "'r swarm_out list" where f: "fail_all_pending st reason = (st', out')" by fastforce
  have "{q. \<exists>a. DialPeer q a \<in> set (snd (handle_command p2p local now conn st (EnsureConnection peer addr w) :: swarm_state \<times> 'r swarm_out list))} =
      (if peer \<noteq> local \<and> \<not> conn peer \<and> cf_get (sw_connect st) peer = None \<and>
          (case cf_get (sw_dial_backoff st) peer of Some until \<Rightarrow> until \<le> now | None \<Rightarrow> True) then {peer} else {})"
    by (auto simp: handle_command_def ensure_peer_connection_def add_waiter_def add_kad_address_from_p2p_def not_less split: option.splits)
  then show ?thesis using c fail_all_pending_callers[OF f] f by simp
qed

definition demo_swarm :: swarm_state where
  "demo_swarm = swarm_default\<lparr>sw_rpc := [(7, 1)], sw_connect := [(''p'', [2, 3])]\<rparr>"

lemma demo_swarm_run: "swarm_run ''me'' demo_swarm [1, 2, 3] [DialPeer ''p'' None :: nat swarm_out]"
proof -
  have "swarm_run ''me'' (swarm_default\<lparr>sw_rpc := [(7, 1)]\<rparr>) [1] ([] :: nat swarm_out list)"
    using swarm_run.command[OF swarm_run.start, of "RpcRequest 7 1" "\<lambda>_. None" "''me''" 0 "\<lambda>_. False"]
    by (simp add: handle_command_def rpc_insert_def swarm_default_def cf_get_def)
  then have "swarm_run ''me'' (swarm_default\<lparr>sw_rpc := [(7, 1)], sw_connect := [(''p'', [2])]\<rparr>) [1, 2] [DialPeer ''p'' None :: nat swarm_out]"
    using swarm_run.command[of "''me''" _ "[1]" "[]" "EnsureConnection ''p'' None 2" "\<lambda>_. None" 0 "\<lambda>_. False"]
    by (fastforce simp: handle_command_def ensure_peer_connection_def add_waiter_def swarm_default_def cf_get_def)
  then show ?thesis
    using swarm_run.command[of "''me''" _ "[1, 2]" _ "EnsureConnection ''p'' None 3" "\<lambda>_. None" 0 "\<lambda>_. False"]
    by (fastforce simp: handle_command_def ensure_peer_connection_def add_waiter_def swarm_default_def cf_get_def demo_swarm_def)
qed

theorem callers_answered_once_witness:
  "mset [1, 2, 3] = waiting demo_swarm + answered [DialPeer ''p'' None :: nat swarm_out] \<and>
    waiting (fst (fail_all_pending demo_swarm ''shutdown'' :: swarm_state \<times> nat swarm_out list)) = {#} \<and>
    mset [1, 2, 3] = answered ([DialPeer ''p'' None :: nat swarm_out] @ snd (fail_all_pending demo_swarm ''shutdown'')) \<and>
    {q. \<exists>a. DialPeer q a \<in> set (snd (handle_command (\<lambda>_. None) ''me'' 5 (\<lambda>_. False) demo_swarm
      (EnsureConnection ''p'' None 4) :: swarm_state \<times> nat swarm_out list))} = {} \<and>
    {q. \<exists>a. DialPeer q a \<in> set (snd (handle_command (\<lambda>_. None) ''me'' 5 (\<lambda>_. False) demo_swarm
      (EnsureConnection ''q'' None 4) :: swarm_state \<times> nat swarm_out list))} = {''q''}"
  using callers_answered_once[OF demo_swarm_run, of "''shutdown''" "\<lambda>_. None" 5 "\<lambda>_. False" "''p''" None 4]
    callers_answered_once[OF demo_swarm_run, of "''shutdown''" "\<lambda>_. None" 5 "\<lambda>_. False" "''q''" None 4]
  by (simp add: demo_swarm_def swarm_default_def cf_get_def)

section \<open>Connections\<close>

text \<open>C34: the janitor closes only connected peers that are not pinned, not in a gossip mesh, not awaited
  by a caller and silent for twenty seconds, those without activity and the least recently active
  first. What stays connected is the budget, or all that is protected when that is more; with a
  budget of zero, or below the budget, nothing is closed.\<close>

theorem connection_budget:
  fixes out :: "'r swarm_out list"
  assumes "distinct order" "set order = sw_connected st"
    "enforce_connection_budget now st order pinned mesh most = (st', out)"
  shows "let closed = {p. Disconnect p \<in> set out}; act = sw_activity st';
      spare = sw_connected st - protected_peers now st' pinned mesh in
    closed \<subseteq> spare \<and> closed \<inter> (pinned \<union> mesh \<union> dom (cf_get (sw_connect st))) = {} \<and>
    {p \<in> closed. \<exists>at. (p, at) \<in> set act \<and> now - at < ACTIVITY_PROTECT_WINDOW} = {} \<and>
    {(p, q). p \<in> closed \<and> q \<in> spare - closed \<and> cf_get act q < cf_get act p} = {} \<and>
    (if most = 0 then closed = {}
     else card (sw_connected st - closed) = max (min (card (sw_connected st)) most) (card (sw_connected st - spare)))"
proof -
  let ?st = "st\<lparr>sw_activity := recent_activity now (sw_activity st)\<rparr>"
  define prot where "prot = protected_peers now ?st pinned mesh"
  define sel where "sel = select_peers_to_close order prot (sw_activity ?st) most"
  have st': "st' = ?st" and out: "{p. Disconnect p \<in> set out} = (if most = 0 \<or> length order \<le> most then {} else set sel)"
    using assms(3) by (auto simp: enforce_connection_budget_def Let_def sel_def prot_def split: if_splits)
  note spec = select_peers_spec[OF assms(1) sel_def]
  define closed where "closed = {p. Disconnect p \<in> set out}"
  have n: "length order = card (sw_connected st)" using distinct_card[OF assms(1)] assms(2) by simp
  have fin: "finite (sw_connected st)" using assms(2) by (metis finite_set)
  have sub: "closed \<subseteq> sw_connected st - prot" using spec(1) out assms(2) by (auto simp: closed_def split: if_splits)
  have prot_sub: "pinned \<union> mesh \<union> dom (cf_get (sw_connect st)) \<subseteq> prot"
    "{p. \<exists>at. (p, at) \<in> set (sw_activity ?st) \<and> now - at < ACTIVITY_PROTECT_WINDOW} \<subseteq> prot"
    by (force simp: prot_def protected_peers_def dom_def cf_get_def dest: map_of_SomeD)+
  have ord: "{(p, q). p \<in> closed \<and> q \<in> sw_connected st - prot - closed \<and> cf_get (sw_activity ?st) q < cf_get (sw_activity ?st) p} = {}"
  proof -
    have "cf_get (sw_activity ?st) p \<le> cf_get (sw_activity ?st) q"
      if "p \<in> closed" "q \<in> sw_connected st - prot - closed" for p q
      using that spec(3)[of p q] out assms(2) by (auto simp: closed_def split: if_splits)
    then show ?thesis by (auto simp: not_less[symmetric])
  qed
  have cnt: "card (sw_connected st - closed) = max (min (card (sw_connected st)) most) (card (sw_connected st \<inter> prot))" if "most \<noteq> 0"
  proof -
    have "card (sw_connected st \<inter> prot) + card (sw_connected st - prot) = card (sw_connected st)"
      using card_Int_Diff[OF fin, of prot] by simp
    moreover have "card closed = (if length order \<le> most then 0 else min (length order - most) (card (sw_connected st - prot)))"
      using spec(2) out that assms(2) by (simp add: closed_def)
    moreover have "card (sw_connected st - closed) = card (sw_connected st) - card closed"
      using sub fin by (intro card_Diff_subset) (auto intro: finite_subset)
    ultimately show ?thesis using n by (auto split: if_splits)
  qed
  have inter: "sw_connected st - (sw_connected st - prot) = sw_connected st \<inter> prot" by blast
  have zero: "most = 0 \<Longrightarrow> closed = {}" using out by (simp add: closed_def)
  show ?thesis unfolding Let_def st' closed_def[symmetric] prot_def[symmetric] inter
    using sub prot_sub ord cnt zero by (auto split: if_split)
qed

definition janitor_state :: swarm_state where
  "janitor_state = swarm_default\<lparr>sw_connected := {''a'', ''b'', ''c''}, sw_activity := [(''a'', 1000), (''b'', 90000)], sw_connect := [(''c'', [5])]\<rparr>"

theorem connection_budget_witness:
  "let closed = {p. Disconnect p \<in> set (snd (enforce_connection_budget 100000 janitor_state [''c'', ''a'', ''b''] {} {} 1 :: swarm_state \<times> nat swarm_out list))};
      act = sw_activity (fst (enforce_connection_budget 100000 janitor_state [''c'', ''a'', ''b''] {} {} 1 :: swarm_state \<times> nat swarm_out list));
      spare = sw_connected janitor_state - protected_peers 100000 (fst (enforce_connection_budget 100000 janitor_state [''c'', ''a'', ''b''] {} {} 1 :: swarm_state \<times> nat swarm_out list)) {} {} in
    closed \<subseteq> spare \<and> closed \<inter> ({} \<union> {} \<union> dom (cf_get (sw_connect janitor_state))) = {} \<and>
    {p \<in> closed. \<exists>at. (p, at) \<in> set act \<and> 100000 - at < ACTIVITY_PROTECT_WINDOW} = {} \<and>
    {(p, q). p \<in> closed \<and> q \<in> spare - closed \<and> cf_get act q < cf_get act p} = {} \<and>
    (if (1 :: nat) = 0 then closed = {}
     else card (sw_connected janitor_state - closed) = max (min (card (sw_connected janitor_state)) 1) (card (sw_connected janitor_state - spare)))"
  by (rule connection_budget) (auto simp: janitor_state_def)

end
