(* ===== verification/RuntimeConfig.thy ===== *)
theory RuntimeConfig
  imports OrderedStore
begin

text \<open>
  The hot-reloadable settings, \<open>runtime_config.rs\<close>. The process-wide \<open>ArcSwap\<close> is the value of
  the configuration; \<open>apply_patch\<close> is modelled twice: as one step (a caller that runs alone), and
  as the two atomic steps the code has, the load that the validation reads and the \<open>rcu\<close> that
  stores, so that concurrent callers interleave between them.
\<close>

section \<open>Data\<close>

definition MIN_NODE_ANNOUNCE_INTERVAL_SECS :: u64 where "MIN_NODE_ANNOUNCE_INTERVAL_SECS = 1"
definition MIN_VOTER_REPLACE_TIMEOUT_SECS :: u64 where "MIN_VOTER_REPLACE_TIMEOUT_SECS = 5"
definition MIN_WORKER_LEASE_INTERVAL_SECS :: u64 where "MIN_WORKER_LEASE_INTERVAL_SECS = 1"
definition MIN_TASK_STUCK_REQUEUE_SECS :: u64 where "MIN_TASK_STUCK_REQUEUE_SECS = 5"
definition MIN_WASM_SYNC_ANNOUNCE_INTERVAL_SECS :: u64 where "MIN_WASM_SYNC_ANNOUNCE_INTERVAL_SECS = 1"

definition NODE_ANNOUNCE_INTERVAL :: u64 where "NODE_ANNOUNCE_INTERVAL = 20"
definition WASM_SYNC_ANNOUNCE_INTERVAL :: u64 where "WASM_SYNC_ANNOUNCE_INTERVAL = 30"

lemmas config_minima_defs = MIN_NODE_ANNOUNCE_INTERVAL_SECS_def MIN_VOTER_REPLACE_TIMEOUT_SECS_def
  MIN_WORKER_LEASE_INTERVAL_SECS_def MIN_TASK_STUCK_REQUEUE_SECS_def MIN_WASM_SYNC_ANNOUNCE_INTERVAL_SECS_def

record runtime_config =
  node_announce_interval_secs :: u64
  voter_replace_timeout_secs :: u64
  rocksdb_sync_writes :: bool
  worker_lease_ttl_secs :: u64
  worker_lease_interval_secs :: u64
  task_stuck_requeue_secs :: u64
  wasm_sync_announce_interval_secs :: u64

definition runtime_config_default :: runtime_config where
  "runtime_config_default = \<lparr>
     node_announce_interval_secs = NODE_ANNOUNCE_INTERVAL,
     voter_replace_timeout_secs = 300,
     rocksdb_sync_writes = True,
     worker_lease_ttl_secs = 30,
     worker_lease_interval_secs = 10,
     task_stuck_requeue_secs = 60,
     wasm_sync_announce_interval_secs = WASM_SYNC_ANNOUNCE_INTERVAL\<rparr>"

record runtime_config_patch =
  p_node_announce_interval_secs :: "u64 option"
  p_voter_replace_timeout_secs :: "u64 option"
  p_rocksdb_sync_writes :: "bool option"
  p_worker_lease_ttl_secs :: "u64 option"
  p_worker_lease_interval_secs :: "u64 option"
  p_task_stuck_requeue_secs :: "u64 option"
  p_wasm_sync_announce_interval_secs :: "u64 option"

definition empty_patch :: runtime_config_patch where
  "empty_patch = \<lparr>p_node_announce_interval_secs = None, p_voter_replace_timeout_secs = None,
     p_rocksdb_sync_writes = None, p_worker_lease_ttl_secs = None, p_worker_lease_interval_secs = None,
     p_task_stuck_requeue_secs = None, p_wasm_sync_announce_interval_secs = None\<rparr>"

text \<open>\<open>Option::unwrap_or\<close>.\<close>

definition unwrap_or :: "'a option \<Rightarrow> 'a \<Rightarrow> 'a" where
  "unwrap_or v d = (case v of Some x \<Rightarrow> x | None \<Rightarrow> d)"

lemma unwrap_or_simps [simp]: "unwrap_or None d = d" "unwrap_or (Some x) d = x"
  by (simp_all add: unwrap_or_def)

section \<open>\<open>apply_patch\<close>\<close>

definition below_minimum :: "string \<Rightarrow> u64 \<Rightarrow> u64 option \<Rightarrow> string option" where
  "below_minimum field least v =
     (case v of
        Some secs \<Rightarrow> if secs < least then Some (field @ '' must be >= '' @ show_u64 least @ '', got '' @ show_u64 secs) else None
      | None \<Rightarrow> None)"

definition lease_conflict :: "runtime_config \<Rightarrow> runtime_config_patch \<Rightarrow> string option" where
  "lease_conflict cur patch =
     (let ttl = unwrap_or (p_worker_lease_ttl_secs patch) (worker_lease_ttl_secs cur);
          interval = unwrap_or (p_worker_lease_interval_secs patch) (worker_lease_interval_secs cur) in
      if ttl \<le> interval
      then Some (''worker_lease_ttl_secs ('' @ show_u64 ttl @ '') must be greater than worker_lease_interval_secs          (''
                 @ show_u64 interval @ '')'')
      else None)"

text \<open>The checks in the order of the code: the first that fails is the error.\<close>

definition patch_checks :: "runtime_config \<Rightarrow> runtime_config_patch \<Rightarrow> string option list" where
  "patch_checks cur patch =
     [below_minimum ''node_announce_interval_secs'' MIN_NODE_ANNOUNCE_INTERVAL_SECS (p_node_announce_interval_secs patch),
      below_minimum ''voter_replace_timeout_secs'' MIN_VOTER_REPLACE_TIMEOUT_SECS (p_voter_replace_timeout_secs patch),
      below_minimum ''worker_lease_interval_secs'' MIN_WORKER_LEASE_INTERVAL_SECS (p_worker_lease_interval_secs patch),
      below_minimum ''task_stuck_requeue_secs'' MIN_TASK_STUCK_REQUEUE_SECS (p_task_stuck_requeue_secs patch),
      below_minimum ''wasm_sync_announce_interval_secs'' MIN_WASM_SYNC_ANNOUNCE_INTERVAL_SECS (p_wasm_sync_announce_interval_secs patch),
      lease_conflict cur patch]"

fun first_error :: "string option list \<Rightarrow> string option" where
  "first_error [] = None"
| "first_error (None # es) = first_error es"
| "first_error (Some e # es) = Some e"

definition rcu_update :: "runtime_config_patch \<Rightarrow> runtime_config \<Rightarrow> runtime_config" where
  "rcu_update patch cur =
     (let next = cur;
          next = next\<lparr>node_announce_interval_secs := unwrap_or (p_node_announce_interval_secs patch) (node_announce_interval_secs next)\<rparr>;
          next = next\<lparr>voter_replace_timeout_secs := unwrap_or (p_voter_replace_timeout_secs patch) (voter_replace_timeout_secs next)\<rparr>;
          next = next\<lparr>rocksdb_sync_writes := unwrap_or (p_rocksdb_sync_writes patch) (rocksdb_sync_writes next)\<rparr>;
          next = next\<lparr>worker_lease_ttl_secs := unwrap_or (p_worker_lease_ttl_secs patch) (worker_lease_ttl_secs next)\<rparr>;
          next = next\<lparr>worker_lease_interval_secs := unwrap_or (p_worker_lease_interval_secs patch) (worker_lease_interval_secs next)\<rparr>;
          next = next\<lparr>task_stuck_requeue_secs := unwrap_or (p_task_stuck_requeue_secs patch) (task_stuck_requeue_secs next)\<rparr>
      in next\<lparr>wasm_sync_announce_interval_secs := unwrap_or (p_wasm_sync_announce_interval_secs patch) (wasm_sync_announce_interval_secs next)\<rparr>)"

text \<open>The configuration afterwards and the reply.\<close>

definition apply_patch :: "runtime_config \<Rightarrow> runtime_config_patch \<Rightarrow> runtime_config \<times> runtime_config result" where
  "apply_patch cur patch =
     (case first_error (patch_checks cur patch) of
        Some e \<Rightarrow> (cur, Inl e)
      | None \<Rightarrow> (let new = rcu_update patch cur in (new, Inr new)))"

section \<open>Callers that interleave\<close>

text \<open>
  A call that passed its validation holds only its patch until its \<open>rcu\<close>; \<open>rcu\<close> retries until no
  other store came between, so it is one atomic step on the configuration of that moment. \<open>Validated\<close>
  and \<open>Refused\<close> are the validation of a call, \<open>Stored\<close> is its \<open>rcu\<close>.
\<close>

datatype config_event = Validated runtime_config_patch | Refused runtime_config_patch string | Stored runtime_config_patch

inductive config_run :: "runtime_config \<Rightarrow> runtime_config_patch list \<Rightarrow> config_event list \<Rightarrow>
    runtime_config \<Rightarrow> runtime_config_patch list \<Rightarrow> bool" where
  start: "config_run cfg ps [] cfg ps"
| validated: "config_run c0 p0 es cfg ps \<Longrightarrow> first_error (patch_checks cfg p) = None \<Longrightarrow>
    config_run c0 p0 (es @ [Validated p]) cfg (ps @ [p])"
| refused: "config_run c0 p0 es cfg ps \<Longrightarrow> first_error (patch_checks cfg p) = Some e \<Longrightarrow>
    config_run c0 p0 (es @ [Refused p e]) cfg ps"
| stored: "config_run c0 p0 es cfg (ps1 @ p # ps2) \<Longrightarrow>
    config_run c0 p0 (es @ [Stored p]) (rcu_update p cfg) (ps1 @ ps2)"

section \<open>What is kept\<close>

definition config_minima :: "runtime_config \<Rightarrow> bool" where
  "config_minima c \<longleftrightarrow>
     MIN_NODE_ANNOUNCE_INTERVAL_SECS \<le> node_announce_interval_secs c \<and>
     MIN_VOTER_REPLACE_TIMEOUT_SECS \<le> voter_replace_timeout_secs c \<and>
     MIN_WORKER_LEASE_INTERVAL_SECS \<le> worker_lease_interval_secs c \<and>
     MIN_TASK_STUCK_REQUEUE_SECS \<le> task_stuck_requeue_secs c \<and>
     MIN_WASM_SYNC_ANNOUNCE_INTERVAL_SECS \<le> wasm_sync_announce_interval_secs c"

definition config_ok :: "runtime_config \<Rightarrow> bool" where
  "config_ok c \<longleftrightarrow> config_minima c \<and> worker_lease_interval_secs c < worker_lease_ttl_secs c"

definition patch_minima :: "runtime_config_patch \<Rightarrow> bool" where
  "patch_minima p \<longleftrightarrow>
     pred_option (\<lambda>x. MIN_NODE_ANNOUNCE_INTERVAL_SECS \<le> x) (p_node_announce_interval_secs p) \<and>
     pred_option (\<lambda>x. MIN_VOTER_REPLACE_TIMEOUT_SECS \<le> x) (p_voter_replace_timeout_secs p) \<and>
     pred_option (\<lambda>x. MIN_WORKER_LEASE_INTERVAL_SECS \<le> x) (p_worker_lease_interval_secs p) \<and>
     pred_option (\<lambda>x. MIN_TASK_STUCK_REQUEUE_SECS \<le> x) (p_task_stuck_requeue_secs p) \<and>
     pred_option (\<lambda>x. MIN_WASM_SYNC_ANNOUNCE_INTERVAL_SECS \<le> x) (p_wasm_sync_announce_interval_secs p)"

lemma default_config_ok: "config_ok runtime_config_default"
  by (simp add: config_ok_def config_minima_def runtime_config_default_def config_minima_defs
      NODE_ANNOUNCE_INTERVAL_def WASM_SYNC_ANNOUNCE_INTERVAL_def)

lemma first_error_None: "first_error es = None \<longleftrightarrow> set es \<subseteq> {None}"
  by (induction es rule: first_error.induct) auto

lemma below_minimum_None: "below_minimum f least v = None \<longleftrightarrow> pred_option (\<lambda>x. least \<le> x) v"
  by (cases v) (auto simp: below_minimum_def)

lemma rcu_update_sel [simp]:
  "node_announce_interval_secs (rcu_update p c) = unwrap_or (p_node_announce_interval_secs p) (node_announce_interval_secs c)"
  "voter_replace_timeout_secs (rcu_update p c) = unwrap_or (p_voter_replace_timeout_secs p) (voter_replace_timeout_secs c)"
  "rocksdb_sync_writes (rcu_update p c) = unwrap_or (p_rocksdb_sync_writes p) (rocksdb_sync_writes c)"
  "worker_lease_ttl_secs (rcu_update p c) = unwrap_or (p_worker_lease_ttl_secs p) (worker_lease_ttl_secs c)"
  "worker_lease_interval_secs (rcu_update p c) = unwrap_or (p_worker_lease_interval_secs p) (worker_lease_interval_secs c)"
  "task_stuck_requeue_secs (rcu_update p c) = unwrap_or (p_task_stuck_requeue_secs p) (task_stuck_requeue_secs c)"
  "wasm_sync_announce_interval_secs (rcu_update p c) = unwrap_or (p_wasm_sync_announce_interval_secs p) (wasm_sync_announce_interval_secs c)"
  by (simp_all add: rcu_update_def Let_def)

text \<open>A patch is accepted exactly when its own fields meet the minima and the lease that results
  outlives its renewal interval.\<close>

lemma patch_accepted_iff:
  "first_error (patch_checks c p) = None \<longleftrightarrow>
    patch_minima p \<and> worker_lease_interval_secs (rcu_update p c) < worker_lease_ttl_secs (rcu_update p c)"
  by (auto simp: first_error_None patch_checks_def below_minimum_None lease_conflict_def Let_def patch_minima_def not_le)

lemma minima_update: "config_minima c \<Longrightarrow> patch_minima p \<Longrightarrow> config_minima (rcu_update p c)"
  by (auto simp: config_minima_def patch_minima_def unwrap_or_def split: option.splits)

lemma apply_patch_ok: "config_ok c \<Longrightarrow> config_ok (fst (apply_patch c p))"
  using minima_update[of c p] patch_accepted_iff[of c p]
  by (auto simp: apply_patch_def Let_def config_ok_def split: option.splits)

definition patch_step :: "runtime_config \<Rightarrow> runtime_config_patch \<Rightarrow> runtime_config" where
  "patch_step c p = fst (apply_patch c p)"

interpretation cfg: invariant_machine patch_step "\<lambda>_. True" config_ok
  by unfold_locales (simp add: patch_step_def apply_patch_ok)

lemma config_run_minima:
  assumes "config_run c0 p0 es c ps" "config_minima c0" "list_all patch_minima p0"
  shows "config_minima c \<and> list_all patch_minima ps"
  using assms by (induction rule: config_run.induct) (auto simp: patch_accepted_iff minima_update)

end
