(* ===== verification/NodeClaims.thy ===== *)
theory NodeClaims
  imports RuntimeConfig
begin

text \<open>
  The properties of the parts that run on every node beside the raft groups.
\<close>

section \<open>Runtime settings\<close>

text \<open>The settings after a patch, field by field: what the patch gives, the rest as it was.\<close>

definition patched :: "runtime_config_patch \<Rightarrow> runtime_config \<Rightarrow> runtime_config" where
  "patched p c = \<lparr>
     node_announce_interval_secs = (case p_node_announce_interval_secs p of Some x \<Rightarrow> x | None \<Rightarrow> node_announce_interval_secs c),
     voter_replace_timeout_secs = (case p_voter_replace_timeout_secs p of Some x \<Rightarrow> x | None \<Rightarrow> voter_replace_timeout_secs c),
     rocksdb_sync_writes = (case p_rocksdb_sync_writes p of Some x \<Rightarrow> x | None \<Rightarrow> rocksdb_sync_writes c),
     worker_lease_ttl_secs = (case p_worker_lease_ttl_secs p of Some x \<Rightarrow> x | None \<Rightarrow> worker_lease_ttl_secs c),
     worker_lease_interval_secs = (case p_worker_lease_interval_secs p of Some x \<Rightarrow> x | None \<Rightarrow> worker_lease_interval_secs c),
     task_stuck_requeue_secs = (case p_task_stuck_requeue_secs p of Some x \<Rightarrow> x | None \<Rightarrow> task_stuck_requeue_secs c),
     wasm_sync_announce_interval_secs =
       (case p_wasm_sync_announce_interval_secs p of Some x \<Rightarrow> x | None \<Rightarrow> wasm_sync_announce_interval_secs c)\<rparr>"

lemma rcu_update_patched: "rcu_update p c = patched p c"
  by (rule runtime_config.equality) (simp_all add: patched_def unwrap_or_def)

text \<open>C35: from valid settings every sequence of patches, applied one after the other, leads to valid
  settings: all minima hold and the lease outlives its renewal interval. A patch is accepted exactly
  when each of its own fields meets its minimum and the lease that results outlives its interval; an
  accepted patch sets each field it gives to the value given, leaves every other field and answers the
  new settings; a refused one changes nothing.\<close>

theorem patches_keep_config_valid:
  assumes "config_ok c"
  shows "config_ok (foldl patch_step c ps) \<and>
    (let cur = foldl patch_step c ps; new = patched p cur;
         accept = (patch_minima p \<and> worker_lease_interval_secs new < worker_lease_ttl_secs new) in
     if accept then apply_patch cur p = (new, Inr new) \<and> config_ok new
     else \<exists>e. apply_patch cur p = (cur, Inl e))"
proof -
  define d where "d = foldl patch_step c ps"
  have ok: "config_ok d" unfolding d_def by (rule cfg.run_inv[OF assms]) (simp add: list_all_iff)
  have acc: "first_error (patch_checks d p) = None \<longleftrightarrow>
      patch_minima p \<and> worker_lease_interval_secs (patched p d) < worker_lease_ttl_secs (patched p d)"
    unfolding patch_accepted_iff rcu_update_patched ..
  have "config_ok (fst (apply_patch d p))" using apply_patch_ok[OF ok] .
  then show ?thesis using ok acc unfolding d_def[symmetric] Let_def
    by (auto simp: apply_patch_def rcu_update_patched Let_def split: option.splits)
qed

definition lease_patch :: "u64 option \<Rightarrow> u64 option \<Rightarrow> runtime_config_patch" where
  "lease_patch ttl interval = empty_patch\<lparr>p_worker_lease_ttl_secs := ttl, p_worker_lease_interval_secs := interval\<rparr>"

text \<open>The first patch leaves a lease of fifteen seconds, so an interval of twenty is refused then; writes
  without sync are accepted.\<close>

theorem patches_keep_config_valid_witness:
  "(\<exists>e. apply_patch (foldl patch_step runtime_config_default [lease_patch (Some 15) None]) (lease_patch None (Some 20)) =
      (patched (lease_patch (Some 15) None) runtime_config_default, Inl e)) \<and>
   fst (apply_patch runtime_config_default (empty_patch\<lparr>p_rocksdb_sync_writes := Some False\<rparr>)) =
     runtime_config_default\<lparr>rocksdb_sync_writes := False\<rparr>"
proof -
  note valid = patches_keep_config_valid[OF default_config_ok, unfolded Let_def]
  have one: "foldl patch_step runtime_config_default [lease_patch (Some 15) None] = patched (lease_patch (Some 15) None) runtime_config_default"
    using valid[of "[]" "lease_patch (Some 15) None"]
    by (simp add: patch_step_def patched_def lease_patch_def empty_patch_def patch_minima_def config_minima_defs runtime_config_default_def)
  then show ?thesis
    using valid[of "[lease_patch (Some 15) None]" "lease_patch None (Some 20)"] valid[of "[]" "empty_patch\<lparr>p_rocksdb_sync_writes := Some False\<rparr>"]
    by (simp add: patched_def lease_patch_def empty_patch_def patch_minima_def config_minima_defs runtime_config_default_def)
qed

text \<open>When calls interleave, the minima hold in every state that is reached, but two patches that
  both pass their validation against the same settings can leave a lease that expires before it is
  renewed: the validation reads the settings before, and apart from, the atomic update.\<close>

theorem concurrent_patches_can_conflict:
  "{c. \<exists>es ps. config_run runtime_config_default [] es c ps} \<subseteq> {c. config_minima c} \<and>
   (\<exists>es c. config_run runtime_config_default [] es c [] \<and> {e. \<exists>p. Refused p e \<in> set es} = {} \<and>
      worker_lease_ttl_secs c < worker_lease_interval_secs c)"
proof (intro conjI subsetI)
  fix c assume "c \<in> {c. \<exists>es ps. config_run runtime_config_default [] es c ps}"
  then show "c \<in> {c. config_minima c}" using config_run_minima default_config_ok by (fastforce simp: config_ok_def)
next
  let ?A = "lease_patch (Some 15) None" and ?B = "lease_patch None (Some 20)"
  let ?c0 = runtime_config_default
  have a: "first_error (patch_checks ?c0 ?A) = None" and b: "first_error (patch_checks ?c0 ?B) = None"
    by (simp_all add: patch_accepted_iff patch_minima_def lease_patch_def empty_patch_def runtime_config_default_def config_minima_defs)
  have "config_run ?c0 [] [Validated ?A, Validated ?B] ?c0 [?A, ?B]"
    using config_run.validated[OF config_run.validated[OF config_run.start[of ?c0 "[]"] a] b] by simp
  then have "config_run ?c0 [] [Validated ?A, Validated ?B, Stored ?A] (rcu_update ?A ?c0) [?B]"
    using config_run.stored[where ?ps1.0 = "[]" and p = ?A and ?ps2.0 = "[?B]"] by fastforce
  then have "config_run ?c0 [] [Validated ?A, Validated ?B, Stored ?A, Stored ?B] (rcu_update ?B (rcu_update ?A ?c0)) []"
    using config_run.stored[where ?ps1.0 = "[]" and p = ?B and ?ps2.0 = "[]"] by fastforce
  moreover have "worker_lease_ttl_secs (rcu_update ?B (rcu_update ?A ?c0)) < worker_lease_interval_secs (rcu_update ?B (rcu_update ?A ?c0))"
    by (simp add: lease_patch_def empty_patch_def runtime_config_default_def)
  ultimately show "\<exists>es c. config_run ?c0 [] es c [] \<and> {e. \<exists>p. Refused p e \<in> set es} = {} \<and>
      worker_lease_ttl_secs c < worker_lease_interval_secs c"
    by (intro exI[of _ "[Validated ?A, Validated ?B, Stored ?A, Stored ?B]"] exI) auto
qed

end
