(* ===== verification/WasmManifest.thy ===== *)
theory WasmManifest
  imports SnapshotSync
begin

text \<open>
  Manifests of WASM modules, the first part of \<open>wasm_sync/mod.rs\<close>: the size and the hash of a
  module and the hash of each of its chunks, with the arithmetic of chunks, the check of a chunk
  and the check of a manifest that came over the network. The hash functions (\<open>xxh3_64\<close> and the
  digest of \<open>sha2\<close>) and the JSON codec of \<open>sonic_rs\<close> are the record \<open>wasm_api\<close>.
\<close>

section \<open>Data\<close>

definition WASM_SYNC_CHUNK_SIZE :: u32 where "WASM_SYNC_CHUNK_SIZE = 256 * 1024"
definition MAX_WASM_SYNC_MODULE_BYTES :: u64 where "MAX_WASM_SYNC_MODULE_BYTES = 256 * 1024 * 1024"
definition PARTIAL_SUBDIR :: string where "PARTIAL_SUBDIR = ''.partial''"

type_synonym bytes = "u8 list"

record wasm_manifest =
  wm_name :: string
  wm_sha256 :: string
  wm_size :: u64
  wm_chunk_size :: u32
  wm_chunk_hashes :: "u64 list"

record partial_meta =
  pm_manifest :: wasm_manifest
  pm_received :: "u32 set"

record wasm_api =
  wa_xxh3 :: "bytes \<Rightarrow> u64"
  wa_sha256 :: "bytes \<Rightarrow> bytes"
  wa_encode :: "partial_meta \<Rightarrow> string result"
  wa_decode :: "string \<Rightarrow> partial_meta result"

datatype manifest_error =
    InvalidModuleName string
  | SizeOutside u64
  | InvalidChunkSize u32
  | ChunkCountMismatch nat u64 u32
  | InvalidSha256 string

section \<open>Hashes and names\<close>

definition hex_char :: "nat \<Rightarrow> char" where
  "hex_char d = (if d < 10 then char_of (48 + d) else char_of (87 + d))"

definition hex_byte :: "u8 \<Rightarrow> string" where
  "hex_byte b = [hex_char (unat b div 16), hex_char (unat b mod 16)]"

definition module_hash :: "wasm_api \<Rightarrow> bytes \<Rightarrow> string" where
  "module_hash api source = concat (map hex_byte (wa_sha256 api source))"

definition is_ascii_hexdigit :: "char \<Rightarrow> bool" where
  "is_ascii_hexdigit c = (let n = of_char c :: nat in 48 \<le> n \<and> n \<le> 57 \<or> 65 \<le> n \<and> n \<le> 70 \<or> 97 \<le> n \<and> n \<le> 102)"

definition is_sha256 :: "string \<Rightarrow> bool" where
  "is_sha256 s \<longleftrightarrow> length s = 64 \<and> list_all is_ascii_hexdigit s"

definition ends_with :: "string \<Rightarrow> string \<Rightarrow> bool" where
  "ends_with s p = starts_with (rev s) (rev p)"

fun contains_str :: "string \<Rightarrow> string \<Rightarrow> bool" where
  "contains_str [] p = (p = [])"
| "contains_str (c # s) p = (starts_with (c # s) p \<or> contains_str s p)"

definition is_valid_module_name :: "string \<Rightarrow> bool" where
  "is_valid_module_name name \<longleftrightarrow>
     name \<noteq> [] \<and> \<not> starts_with name ''.'' \<and>
     CHR ''/'' \<notin> set name \<and> CHR 0x5C \<notin> set name \<and>
     \<not> contains_str name ''..'' \<and>
     (ends_with name ''.wasm'' \<or> ends_with name ''.wat'')"

section \<open>Operations\<close>

definition from_bytes :: "wasm_api \<Rightarrow> string \<Rightarrow> bytes \<Rightarrow> wasm_manifest" where
  "from_bytes api name bs = \<lparr>
     wm_name = name,
     wm_sha256 = module_hash api bs,
     wm_size = word_of_nat (length bs),
     wm_chunk_size = WASM_SYNC_CHUNK_SIZE,
     wm_chunk_hashes = map (wa_xxh3 api) (chunks (unat WASM_SYNC_CHUNK_SIZE) bs)\<rparr>"

definition chunk_count :: "wasm_manifest \<Rightarrow> u32" where
  "chunk_count m = word_of_nat (length (wm_chunk_hashes m))"

definition chunk_offset :: "wasm_manifest \<Rightarrow> u32 \<Rightarrow> u64" where
  "chunk_offset m index = ucast index * ucast (wm_chunk_size m)"

definition chunk_len :: "wasm_manifest \<Rightarrow> u32 \<Rightarrow> nat" where
  "chunk_len m index = unat (min (sat_sub (wm_size m) (chunk_offset m index)) (ucast (wm_chunk_size m)))"

definition verify_chunk :: "wasm_api \<Rightarrow> wasm_manifest \<Rightarrow> u32 \<Rightarrow> bytes \<Rightarrow> bool" where
  "verify_chunk api m index data =
     (if unat index < length (wm_chunk_hashes m)
      then length data = chunk_len m index \<and> wa_xxh3 api data = wm_chunk_hashes m ! unat index
      else False)"

definition validate_manifest :: "wasm_manifest \<Rightarrow> manifest_error + unit" where
  "validate_manifest m =
     (if \<not> is_valid_module_name (wm_name m) then Inl (InvalidModuleName (wm_name m))
      else if wm_size m = 0 \<or> MAX_WASM_SYNC_MODULE_BYTES < wm_size m then Inl (SizeOutside (wm_size m))
      else if wm_chunk_size m = 0 \<or> WASM_SYNC_CHUNK_SIZE < wm_chunk_size m then Inl (InvalidChunkSize (wm_chunk_size m))
      else if length (wm_chunk_hashes m) \<noteq> div_ceil (unat (wm_size m)) (unat (wm_chunk_size m))
        then Inl (ChunkCountMismatch (length (wm_chunk_hashes m)) (wm_size m) (wm_chunk_size m))
      else if \<not> is_sha256 (wm_sha256 m) then Inl (InvalidSha256 (wm_sha256 m))
      else Inr ())"

section \<open>Chunk arithmetic\<close>

lemma unat_ucast_u32 [simp]: "unat (ucast (x :: u32) :: u64) = unat x"
  using unat_lt_2p[of x] by (simp add: unsigned_ucast_eq take_bit_nat_eq_self)

lemma unat_chunk_offset: "unat (chunk_offset m i) = unat i * unat (wm_chunk_size m)"
proof -
  have "unat i < 2 ^ 32" "unat (wm_chunk_size m) < 2 ^ 32" using unat_lt_2p[of i] unat_lt_2p[of "wm_chunk_size m"] by simp_all
  then have "unat i * unat (wm_chunk_size m) < 2 ^ 32 * 2 ^ 32" by (intro mult_strict_mono) simp_all
  then show ?thesis by (simp add: chunk_offset_def unat_word_ariths)
qed

lemma chunk_len_nat:
  "chunk_len m i = min (unat (wm_size m) - unat i * unat (wm_chunk_size m)) (unat (wm_chunk_size m))"
proof -
  have "unat (min a b) = min (unat a) (unat b)" for a b :: u64 by (auto simp: min_def word_le_nat_alt)
  then show ?thesis by (simp add: chunk_len_def unat_sat_sub unat_chunk_offset)
qed

text \<open>The part of a file that chunk \<open>i\<close> is.\<close>

definition chunk_slice :: "wasm_manifest \<Rightarrow> bytes \<Rightarrow> u32 \<Rightarrow> bytes" where
  "chunk_slice m b i = take (chunk_len m i) (drop (unat (chunk_offset m i)) b)"

lemma chunks_nth:
  "0 < n \<Longrightarrow> i < length (chunks n xs) \<Longrightarrow> chunks n xs ! i = take n (drop (i * n) xs)"
proof (induction n xs arbitrary: i rule: chunks.induct)
  case (1 n xs)
  show ?case
  proof (cases "xs = []")
    case True
    with "1.prems" show ?thesis by (simp add: chunks.simps)
  next
    case False
    then have unf: "chunks n xs = take n xs # chunks n (drop n xs)" using "1.prems" by (subst chunks.simps) simp
    show ?thesis
    proof (cases i)
      case 0
      then show ?thesis by (simp add: unf)
    next
      case (Suc j)
      then have "j < length (chunks n (drop n xs))" using "1.prems"(2) unf by simp
      then show ?thesis using "1.IH"[of j] False "1.prems"(1) Suc by (simp add: unf add.commute)
    qed
  qed
qed

text \<open>Facts of a manifest that passed \<open>validate\<close>.\<close>

definition manifest_ok :: "wasm_manifest \<Rightarrow> bool" where
  "manifest_ok m \<longleftrightarrow> validate_manifest m = Inr ()"

lemma manifest_okD:
  assumes "manifest_ok m"
  shows "is_valid_module_name (wm_name m)" "is_sha256 (wm_sha256 m)"
    "0 < unat (wm_size m)" "unat (wm_size m) \<le> 268435456" "0 < unat (wm_chunk_size m)"
    "length (wm_chunk_hashes m) = div_ceil (unat (wm_size m)) (unat (wm_chunk_size m))"
  using assms
  by (auto simp: manifest_ok_def validate_manifest_def MAX_WASM_SYNC_MODULE_BYTES_def word_less_nat_alt
      unat_gt_0 split: if_splits)

lemma div_ceil_le: "div_ceil a b \<le> a"
proof (cases "b = 0 \<or> b = 1")
  case True
  then show ?thesis by (auto simp: div_ceil_def)
next
  case False
  obtain q r where qr: "q = a div b" "r = a mod b" by simp
  then have "a = b * q + r" by simp
  moreover have "2 * q \<le> b * q" using False by (intro mult_le_mono1) auto
  ultimately have "q \<le> a" "r \<noteq> 0 \<Longrightarrow> q + 1 \<le> a" by linarith+
  then show ?thesis by (simp add: div_ceil_def qr)
qed

lemma unat_chunk_count: "manifest_ok m \<Longrightarrow> unat (chunk_count m) = length (wm_chunk_hashes m)"
  using manifest_okD[of m] div_ceil_le[of "unat (wm_size m)" "unat (wm_chunk_size m)"]
  by (simp add: chunk_count_def unat_of_nat)

lemma less_chunk_count: "manifest_ok m \<Longrightarrow> i < chunk_count m \<longleftrightarrow> unat i < length (wm_chunk_hashes m)"
  by (simp add: word_less_nat_alt unat_chunk_count)

lemma div_ceil_less_iff: "0 < b \<Longrightarrow> i < div_ceil a b \<longleftrightarrow> i * b < a"
proof -
  assume b: "0 < b"
  have "i < div_ceil a b \<longleftrightarrow> \<not> a \<le> i * b"
  proof (cases "a mod b = 0")
    case True
    then have "a = (a div b) * b" by auto
    then have "a \<le> i * b \<longleftrightarrow> a div b \<le> i" using b by (metis mult_le_cancel2)
    then show ?thesis using True by (auto simp: div_ceil_def)
  next
    case False
    then have "a div b * b < a" by (metis b div_times_less_eq_dividend le_neq_implies_less mod_mult_self2_is_0 mult.commute)
    then have "a \<le> i * b \<longleftrightarrow> a div b < i" using b
      by (metis div_le_mono div_mult_self_is_m less_le_not_le mult.commute not_le_imp_less
          div_less_iff_less_mult order_le_imp_less_or_eq order_less_imp_le False mod_mult_self2_is_0)
    then show ?thesis using False by (auto simp: div_ceil_def)
  qed
  then show ?thesis by auto
qed

lemma chunk_begins: "manifest_ok m \<Longrightarrow> i < chunk_count m \<Longrightarrow> unat i * unat (wm_chunk_size m) < unat (wm_size m)"
  using manifest_okD[of m] by (simp add: less_chunk_count div_ceil_less_iff)

lemma chunk_ends: "manifest_ok m \<Longrightarrow> i < chunk_count m \<Longrightarrow> unat (chunk_offset m i) + chunk_len m i \<le> unat (wm_size m)"
  using chunk_begins[of m i] by (simp add: unat_chunk_offset chunk_len_nat)

section \<open>Slices of a file\<close>

text \<open>Two files of the size of the manifest that agree on every chunk are equal.\<close>

lemma slices_determine:
  assumes m: "manifest_ok m" and len: "length b = unat (wm_size m)" "length b' = unat (wm_size m)"
    and eq: "\<And>i. i < chunk_count m \<Longrightarrow> chunk_slice m b i = chunk_slice m b' i"
  shows "b = b'"
proof (rule nth_equalityI)
  show "length b = length b'" using len by simp
next
  fix k assume k: "k < length b"
  let ?c = "unat (wm_chunk_size m)"
  define j where "j = k div ?c"
  have c: "0 < ?c" using manifest_okD(5)[OF m] .
  have jk: "j * ?c \<le> k" "k - j * ?c < ?c" using c
    by (simp_all add: j_def minus_div_mult_eq_mod)
  have "j < length (wm_chunk_hashes m)" using manifest_okD[OF m] jk k len by (simp add: div_ceil_less_iff)
  moreover have "length (wm_chunk_hashes m) < 2 ^ 32"
    using unat_chunk_count[OF m] unat_lt_2p[of "chunk_count m"] by simp
  ultimately have ju: "unat (word_of_nat j :: u32) = j" by (simp add: unat_of_nat)
  then have "chunk_slice m b (word_of_nat j) = chunk_slice m b' (word_of_nat j)"
    using eq less_chunk_count[OF m] \<open>j < length (wm_chunk_hashes m)\<close> by simp
  then have "take (chunk_len m (word_of_nat j)) (drop (j * ?c) b) ! (k - j * ?c) =
      take (chunk_len m (word_of_nat j)) (drop (j * ?c) b') ! (k - j * ?c)"
    by (simp add: chunk_slice_def unat_chunk_offset ju)
  moreover have "k - j * ?c < chunk_len m (word_of_nat j)" using jk k len by (simp add: chunk_len_nat ju)
  ultimately show "b ! k = b' ! k" using jk k len by simp
qed

text \<open>Storing \<open>data\<close> at an offset, past the end with zeros between.\<close>

definition write_span :: "bytes \<Rightarrow> nat \<Rightarrow> bytes \<Rightarrow> bytes" where
  "write_span b off data = take off b @ replicate (off - length b) 0 @ data @ drop (off + length data) b"

lemma length_write_span: "off + length data \<le> length b \<Longrightarrow> length (write_span b off data) = length b"
  by (simp add: write_span_def)

lemma write_span_same: "off + length data \<le> length b \<Longrightarrow> take (length data) (drop off (write_span b off data)) = data"
  by (simp add: write_span_def)

lemma write_span_other:
  assumes "off + length data \<le> length b" "k + n \<le> off \<or> off + length data \<le> k"
  shows "take n (drop k (write_span b off data)) = take n (drop k b)"
proof (rule nth_equalityI)
  show "length (take n (drop k (write_span b off data))) = length (take n (drop k b))"
    using assms(1) by (simp add: length_write_span)
next
  fix x assume "x < length (take n (drop k (write_span b off data)))"
  then have x: "x < n" "k + x < length b" using assms(1) by (auto simp: length_write_span)
  show "take n (drop k (write_span b off data)) ! x = take n (drop k b) ! x"
    using x assms by (auto simp: write_span_def nth_append)
qed

lemma chunk_ranges_disjoint:
  assumes "i \<noteq> j"
  shows "unat (chunk_offset m i) + chunk_len m i \<le> unat (chunk_offset m j) \<or>
    unat (chunk_offset m j) + chunk_len m j \<le> unat (chunk_offset m i)"
proof -
  let ?c = "unat (wm_chunk_size m)"
  have before: "unat (chunk_offset m x) + chunk_len m x \<le> unat (chunk_offset m y)" if "unat x < unat y" for x y
  proof -
    have "Suc (unat x) * ?c \<le> unat y * ?c" using that by (intro mult_le_mono1) simp
    then show ?thesis by (simp add: unat_chunk_offset chunk_len_nat)
  qed
  have "unat i < unat j \<or> unat j < unat i" using assms by (metis nat_neq_iff word_unat_eq_iff)
  then show ?thesis using before by blast
qed

text \<open>Writing (a prefix of) one chunk leaves every other chunk of the file as it was.\<close>

lemma write_span_other_chunk:
  assumes "manifest_ok m" "j < chunk_count m" "length b = unat (wm_size m)" "length data \<le> chunk_len m j" "i \<noteq> j"
  shows "chunk_slice m (write_span b (unat (chunk_offset m j)) data) i = chunk_slice m b i"
  unfolding chunk_slice_def
  using chunk_ends[OF assms(1,2)] assms(3,4) chunk_ranges_disjoint[OF assms(5), of m]
  by (intro write_span_other) auto

lemma write_span_same_chunk:
  assumes "manifest_ok m" "j < chunk_count m" "length b = unat (wm_size m)" "length data = chunk_len m j"
  shows "chunk_slice m (write_span b (unat (chunk_offset m j)) data) j = data"
  using write_span_same[of "unat (chunk_offset m j)" data b] chunk_ends[OF assms(1,2)] assms(3,4)
  by (simp add: chunk_slice_def)

section \<open>The manifest of a module\<close>

lemma from_bytes_sel [simp]:
  "wm_name (from_bytes api n bs) = n" "wm_sha256 (from_bytes api n bs) = module_hash api bs"
  by (simp_all add: from_bytes_def)

text \<open>Only the name of a manifest depends on the name of its file.\<close>

lemma chunk_rename [simp]:
  "chunk_count (m\<lparr>wm_name := n\<rparr>) = chunk_count m" "chunk_offset (m\<lparr>wm_name := n\<rparr>) i = chunk_offset m i"
  "chunk_len (m\<lparr>wm_name := n\<rparr>) i = chunk_len m i" "verify_chunk api (m\<lparr>wm_name := n\<rparr>) i data = verify_chunk api m i data"
  "chunk_slice (m\<lparr>wm_name := n\<rparr>) b i = chunk_slice m b i"
  by (simp_all add: chunk_count_def chunk_offset_def chunk_len_def verify_chunk_def chunk_slice_def)

lemma from_bytes_rename: "from_bytes api n bs = (from_bytes api n' bs)\<lparr>wm_name := n\<rparr>"
  by (simp add: from_bytes_def)

lemma unat_chunk_size_const: "unat WASM_SYNC_CHUNK_SIZE = 262144"
  by (simp add: WASM_SYNC_CHUNK_SIZE_def)

lemma hex_char_ok: "d < 16 \<Longrightarrow> is_ascii_hexdigit (hex_char d)"
  by (auto simp: is_ascii_hexdigit_def hex_char_def Let_def)

lemma module_hash_is_sha256:
  assumes "length (wa_sha256 api bs) = 32"
  shows "is_sha256 (module_hash api bs)"
proof -
  have "length (concat (map hex_byte ds)) = 2 * length ds \<and> list_all is_ascii_hexdigit (concat (map hex_byte ds))" for ds
  proof (induction ds)
    case (Cons d ds)
    have "unat d < 256" using unat_lt_2p[of d] by simp
    then have "unat d div 16 < 16" "unat d mod 16 < 16" by auto
    with Cons show ?case by (simp add: hex_byte_def hex_char_ok)
  qed simp
  then show ?thesis using assms by (simp add: is_sha256_def module_hash_def)
qed

lemma from_bytes_ok:
  assumes "is_valid_module_name name" "bs \<noteq> []" "length bs \<le> 268435456" "length (wa_sha256 api bs) = 32"
  shows "manifest_ok (from_bytes api name bs)" "unat (wm_size (from_bytes api name bs)) = length bs"
proof -
  show size: "unat (wm_size (from_bytes api name bs)) = length bs"
    using assms(3) by (simp add: from_bytes_def unat_of_nat)
  have "wm_size (from_bytes api name bs) \<noteq> 0" using size assms(2) by auto
  moreover have "\<not> MAX_WASM_SYNC_MODULE_BYTES < wm_size (from_bytes api name bs)"
    using size assms(3) by (simp add: word_less_nat_alt MAX_WASM_SYNC_MODULE_BYTES_def)
  ultimately show "manifest_ok (from_bytes api name bs)"
    using assms(1) size module_hash_is_sha256[OF assms(4)] unat_chunk_size_const
      length_chunks[of "unat WASM_SYNC_CHUNK_SIZE" bs]
    by (simp add: manifest_ok_def validate_manifest_def) (auto simp: from_bytes_def WASM_SYNC_CHUNK_SIZE_def)
qed

text \<open>Each chunk of the module passes the check of its manifest.\<close>

lemma from_bytes_verifies:
  assumes "is_valid_module_name name" "bs \<noteq> []" "length bs \<le> 268435456" "length (wa_sha256 api bs) = 32"
    and i: "i < chunk_count (from_bytes api name bs)"
  shows "verify_chunk api (from_bytes api name bs) i (chunk_slice (from_bytes api name bs) bs i)"
proof -
  let ?m = "from_bytes api name bs"
  have ok: "manifest_ok ?m" and size: "unat (wm_size ?m) = length bs" using from_bytes_ok[OF assms(1-4)] .
  have lt: "unat i < length (wm_chunk_hashes ?m)" using i less_chunk_count[OF ok] by simp
  have c: "wm_chunk_size ?m = WASM_SYNC_CHUNK_SIZE" by (simp add: from_bytes_def)
  have "wm_chunk_hashes ?m ! unat i = wa_xxh3 api (take 262144 (drop (unat i * 262144) bs))"
    using lt chunks_nth[of "unat WASM_SYNC_CHUNK_SIZE" "unat i" bs] by (simp add: from_bytes_def unat_chunk_size_const)
  also have "take 262144 (drop (unat i * 262144) bs) = chunk_slice ?m bs i"
    by (simp add: chunk_slice_def chunk_len_nat unat_chunk_offset c unat_chunk_size_const size min_def)
  finally show ?thesis using lt chunk_ends[OF ok i] size by (simp add: verify_chunk_def chunk_slice_def)
qed

end
