(* ===== verification/WasmDownload.thy ===== *)
theory WasmDownload
  imports WasmManifest
begin

text \<open>
  Persistent downloads of WASM modules, \<open>wasm_sync/downloader.rs\<close>. The file system is a map from
  paths to the bytes of regular files. What the operating system answers is the record \<open>os\<close>: each
  call can fail with an error, and a write that fails may have stored a prefix of its bytes, so an
  interrupted operation leaves every state the code can leave. Operations return the file system
  with their result.
\<close>

section \<open>Files\<close>

type_synonym fs = "string \<Rightarrow> bytes option"

datatype fs_call =
    CreateDirAll string
  | ReadToString string
  | OpenRead string
  | OpenWrite string
  | SetLen string nat
  | SeekTo string nat
  | ReadExact string nat nat
  | WriteAll string nat
  | SyncData string
  | WriteWhole string
  | RenameTo string string
  | ReadWhole string
  | RemoveFile string
  | StatFile string

record os =
  os_error :: "fs_call \<Rightarrow> string option"
  os_written :: "fs_call \<Rightarrow> nat option"

definition os_works :: os where
  "os_works = \<lparr>os_error = (\<lambda>_. None), os_written = (\<lambda>_. None)\<rparr>"

datatype download_error =
    IoError string string string
  | CodecError string string
  | StoredManifestDiffers
  | ChunkOutOfRange u32 u32
  | ChunkHashMismatch u32
  | DownloadIncomplete u32 u32
  | PartFileSize nat u64
  | Sha256Mismatch string string
  | ModuleAppeared string

definition NOT_FOUND :: string where "NOT_FOUND = ''No such file or directory (os error 2)''"

definition path_join :: "string \<Rightarrow> string \<Rightarrow> string" where
  "path_join d n =
     (if starts_with n ''/'' then n
      else if d = [] \<or> ends_with d ''/'' then d @ n
      else d @ ''/'' @ n)"

definition with_extension :: "string \<Rightarrow> string \<Rightarrow> string" where
  "with_extension p ext =
     (case rsplit_once (CHR ''.'') p of
        Some (stem, old) \<Rightarrow>
          if CHR ''/'' \<in> set old \<or> stem = [] \<or> ends_with stem ''/'' then p @ ''.'' @ ext else stem @ ''.'' @ ext
      | None \<Rightarrow> p @ ''.'' @ ext)"

definition io_fail :: "os \<Rightarrow> fs_call \<Rightarrow> string \<Rightarrow> string \<Rightarrow> download_error option" where
  "io_fail os call what path = map_option (IoError what path) (os_error os call)"

fun fbind :: "fs \<times> ('e + 'a) \<Rightarrow> (fs \<Rightarrow> 'a \<Rightarrow> fs \<times> ('e + 'b)) \<Rightarrow> fs \<times> ('e + 'b)" where
  "fbind (fs, Inl e) f = (fs, Inl e)"
| "fbind (fs, Inr x) f = f fs x"

definition is_file :: "fs \<Rightarrow> string \<Rightarrow> bool" where
  "is_file fs p \<longleftrightarrow> fs p \<noteq> None"

text \<open>\<open>std::fs::write\<close>, \<open>std::fs::rename\<close>, \<open>std::fs::read\<close>, \<open>read_to_string\<close>, \<open>remove_file\<close>.\<close>

definition fs_write :: "os \<Rightarrow> fs \<Rightarrow> string \<Rightarrow> bytes \<Rightarrow> fs \<times> (download_error + unit)" where
  "fs_write os fs p b =
     (case io_fail os (WriteWhole p) ''write'' p of
        Some e \<Rightarrow> (case os_written os (WriteWhole p) of None \<Rightarrow> fs | Some k \<Rightarrow> fs(p \<mapsto> take k b), Inl e)
      | None \<Rightarrow> (fs(p \<mapsto> b), Inr ()))"

definition fs_rename :: "os \<Rightarrow> string \<Rightarrow> fs \<Rightarrow> string \<Rightarrow> string \<Rightarrow> fs \<times> (download_error + unit)" where
  "fs_rename os what fs a b =
     (case io_fail os (RenameTo a b) what b of
        Some e \<Rightarrow> (fs, Inl e)
      | None \<Rightarrow>
          (case fs a of
             None \<Rightarrow> (fs, Inl (IoError what b NOT_FOUND))
           | Some c \<Rightarrow> ((fs(a := None))(b \<mapsto> c), Inr ())))"

definition fs_read :: "os \<Rightarrow> fs \<Rightarrow> fs_call \<Rightarrow> string \<Rightarrow> download_error + bytes" where
  "fs_read os fs call p =
     (case io_fail os call ''read'' p of
        Some e \<Rightarrow> Inl e
      | None \<Rightarrow> (case fs p of None \<Rightarrow> Inl (IoError ''read'' p NOT_FOUND) | Some b \<Rightarrow> Inr b))"

definition fs_read_to_string :: "os \<Rightarrow> fs \<Rightarrow> string \<Rightarrow> download_error + string" where
  "fs_read_to_string os fs p =
     rbind (fs_read os fs (ReadToString p) p) (\<lambda>b.
       case from_utf8 b of
         None \<Rightarrow> Inl (IoError ''read'' p ''stream did not contain valid UTF-8'')
       | Some s \<Rightarrow> Inr s)"

definition fs_remove :: "os \<Rightarrow> fs \<Rightarrow> string \<Rightarrow> fs" where
  "fs_remove os fs p = (if os_error os (RemoveFile p) = None then fs(p := None) else fs)"

text \<open>\<open>File::open\<close>; \<open>seek\<close> with \<open>read_exact\<close>; and \<open>OpenOptions::write\<close> with \<open>seek\<close>, \<open>write_all\<close>
  and \<open>sync_data\<close>.\<close>

definition file_open :: "os \<Rightarrow> fs \<Rightarrow> fs_call \<Rightarrow> string \<Rightarrow> download_error + bytes" where
  "file_open os fs call p =
     (case io_fail os call ''open'' p of
        Some e \<Rightarrow> Inl e
      | None \<Rightarrow> (case fs p of None \<Rightarrow> Inl (IoError ''open'' p NOT_FOUND) | Some b \<Rightarrow> Inr b))"

definition read_exact_at :: "os \<Rightarrow> string \<Rightarrow> bytes \<Rightarrow> nat \<Rightarrow> nat \<Rightarrow> download_error + bytes" where
  "read_exact_at os p b off n =
     (case io_fail os (SeekTo p off) ''seek'' p of
        Some e \<Rightarrow> Inl e
      | None \<Rightarrow>
          (case io_fail os (ReadExact p off n) ''read chunk'' p of
             Some e \<Rightarrow> Inl e
           | None \<Rightarrow>
               if n = 0 \<or> off + n \<le> length b then Inr (take n (drop off b))
               else Inl (IoError ''read chunk'' p ''failed to fill whole buffer'')))"

definition write_sync_at :: "os \<Rightarrow> fs \<Rightarrow> string \<Rightarrow> nat \<Rightarrow> bytes \<Rightarrow> fs \<times> (download_error + unit)" where
  "write_sync_at os fs p off data =
     (case file_open os fs (OpenWrite p) p of
        Inl e \<Rightarrow> (fs, Inl e)
      | Inr b \<Rightarrow>
          (case io_fail os (SeekTo p off) ''seek'' p of
             Some e \<Rightarrow> (fs, Inl e)
           | None \<Rightarrow>
               (case io_fail os (WriteAll p off) ''write chunk'' p of
                  Some e \<Rightarrow> (case os_written os (WriteAll p off) of None \<Rightarrow> fs | Some k \<Rightarrow> fs(p \<mapsto> write_span b off (take k data)), Inl e)
                | None \<Rightarrow>
                    (fs(p \<mapsto> write_span b off data),
                     case io_fail os (SyncData p) ''sync'' p of Some e \<Rightarrow> Inl e | None \<Rightarrow> Inr ()))))"

text \<open>\<open>create(true).write(true).truncate(false).open\<close> with \<open>set_len\<close>.\<close>

definition resize_bytes :: "nat \<Rightarrow> bytes \<Rightarrow> bytes" where
  "resize_bytes n b = take n b @ replicate (n - length b) 0"

definition create_with_len :: "os \<Rightarrow> fs \<Rightarrow> string \<Rightarrow> nat \<Rightarrow> fs \<times> (download_error + unit)" where
  "create_with_len os fs p n =
     (case io_fail os (OpenWrite p) ''open'' p of
        Some e \<Rightarrow> (fs, Inl e)
      | None \<Rightarrow>
          (let b = (case fs p of None \<Rightarrow> [] | Some b \<Rightarrow> b) in
           case io_fail os (SetLen p n) ''resize'' p of
             Some e \<Rightarrow> (fs(p \<mapsto> b), Inl e)
           | None \<Rightarrow> (fs(p \<mapsto> resize_bytes n b), Inr ())))"

section \<open>The partial download\<close>

record partial_download =
  pd_manifest :: wasm_manifest
  pd_part_path :: string
  pd_meta_path :: string
  pd_received :: "u32 set"

definition partial_dir :: "string \<Rightarrow> string" where
  "partial_dir store_dir = path_join store_dir PARTIAL_SUBDIR"

definition part_path :: "string \<Rightarrow> string \<Rightarrow> string" where
  "part_path store_dir sha = path_join (partial_dir store_dir) (sha @ ''.part'')"

definition meta_path :: "string \<Rightarrow> string \<Rightarrow> string" where
  "meta_path store_dir sha = path_join (partial_dir store_dir) (sha @ ''.meta.json'')"

definition decode_meta :: "wasm_api \<Rightarrow> string \<Rightarrow> download_error + partial_meta" where
  "decode_meta api raw = (case wa_decode api raw of Inl e \<Rightarrow> Inl (CodecError ''decode partial meta'' e) | Inr m \<Rightarrow> Inr m)"

definition chunk_verified :: "wasm_api \<Rightarrow> os \<Rightarrow> partial_download \<Rightarrow> bytes \<Rightarrow> u32 \<Rightarrow> bool" where
  "chunk_verified api os d b index =
     (index < chunk_count (pd_manifest d) \<and>
      (case read_exact_at os (pd_part_path d) b (unat (chunk_offset (pd_manifest d) index)) (chunk_len (pd_manifest d) index) of
         Inl _ \<Rightarrow> False
       | Inr data \<Rightarrow> verify_chunk api (pd_manifest d) index data))"

definition load_and_verify_meta :: "wasm_api \<Rightarrow> os \<Rightarrow> fs \<Rightarrow> partial_download \<Rightarrow> download_error + u32 set" where
  "load_and_verify_meta api os fs d =
     (if \<not> is_file fs (pd_meta_path d) \<or> \<not> is_file fs (pd_part_path d) then Inr {}
      else
        rbind (fs_read_to_string os fs (pd_meta_path d)) (\<lambda>raw.
        rbind (decode_meta api raw) (\<lambda>meta.
        if pm_manifest meta \<noteq> pd_manifest d then Inl StoredManifestDiffers
        else
          rbind (file_open os fs (OpenRead (pd_part_path d)) (pd_part_path d)) (\<lambda>b.
          Inr {index \<in> pm_received meta. chunk_verified api os d b index}))))"

definition persist_meta :: "wasm_api \<Rightarrow> os \<Rightarrow> fs \<Rightarrow> partial_download \<Rightarrow> fs \<times> (download_error + unit)" where
  "persist_meta api os fs d =
     (case wa_encode api \<lparr>pm_manifest = pd_manifest d, pm_received = pd_received d\<rparr> of
        Inl e \<Rightarrow> (fs, Inl (CodecError ''encode partial meta'' e))
      | Inr raw \<Rightarrow>
          let tmp = with_extension (pd_meta_path d) ''json.tmp'' in
          fbind (fs_write os fs tmp (as_bytes raw)) (\<lambda>fs _. fs_rename os ''rename'' fs tmp (pd_meta_path d)))"

definition open_download :: "wasm_api \<Rightarrow> os \<Rightarrow> fs \<Rightarrow> string \<Rightarrow> wasm_manifest \<Rightarrow> fs \<times> (download_error + partial_download)" where
  "open_download api os fs store_dir m =
     (let dir = partial_dir store_dir in
      case io_fail os (CreateDirAll dir) ''create'' dir of
        Some e \<Rightarrow> (fs, Inl e)
      | None \<Rightarrow>
          let d = \<lparr>pd_manifest = m, pd_part_path = part_path store_dir (wm_sha256 m),
                   pd_meta_path = meta_path store_dir (wm_sha256 m), pd_received = {}\<rparr>;
              d = (case load_and_verify_meta api os fs d of Inr recovered \<Rightarrow> d\<lparr>pd_received := recovered\<rparr> | Inl _ \<Rightarrow> d) in
          fbind (create_with_len os fs (pd_part_path d) (unat (wm_size m))) (\<lambda>fs _.
          fbind (persist_meta api os fs d) (\<lambda>fs _. (fs, Inr d))))"

definition received_count :: "partial_download \<Rightarrow> u32" where
  "received_count d = word_of_nat (card (pd_received d))"

definition download_complete :: "partial_download \<Rightarrow> bool" where
  "download_complete d \<longleftrightarrow> received_count d = chunk_count (pd_manifest d)"

definition missing_chunks :: "partial_download \<Rightarrow> u32 list" where
  "missing_chunks d =
     filter (\<lambda>i. i \<notin> pd_received d) (map word_of_nat [0 ..< unat (chunk_count (pd_manifest d))])"

definition write_chunk :: "wasm_api \<Rightarrow> os \<Rightarrow> fs \<Rightarrow> partial_download \<Rightarrow> u32 \<Rightarrow> bytes \<Rightarrow>
    fs \<times> partial_download \<times> (download_error + unit)" where
  "write_chunk api os fs d index data =
     (if chunk_count (pd_manifest d) \<le> index then (fs, d, Inl (ChunkOutOfRange index (chunk_count (pd_manifest d))))
      else if index \<in> pd_received d then (fs, d, Inr ())
      else if \<not> verify_chunk api (pd_manifest d) index data then (fs, d, Inl (ChunkHashMismatch index))
      else
        (case write_sync_at os fs (pd_part_path d) (unat (chunk_offset (pd_manifest d) index)) data of
           (fs, Inl e) \<Rightarrow> (fs, d, Inl e)
         | (fs, Inr _) \<Rightarrow>
             let d = d\<lparr>pd_received := insert index (pd_received d)\<rparr> in
             (case persist_meta api os fs d of (fs, r) \<Rightarrow> (fs, d, r))))"

definition discard :: "os \<Rightarrow> fs \<Rightarrow> partial_download \<Rightarrow> fs" where
  "discard os fs d = fs_remove os (fs_remove os fs (pd_part_path d)) (pd_meta_path d)"

definition install_module :: "wasm_api \<Rightarrow> os \<Rightarrow> fs \<Rightarrow> string \<Rightarrow> partial_download \<Rightarrow> fs \<times> (download_error + string)" where
  "install_module api os fs store_dir d =
     (if \<not> download_complete d then (fs, Inl (DownloadIncomplete (received_count d) (chunk_count (pd_manifest d))))
      else
        (case fs_read os fs (ReadWhole (pd_part_path d)) (pd_part_path d) of
           Inl e \<Rightarrow> (fs, Inl e)
         | Inr bs \<Rightarrow>
             if word_of_nat (length bs) \<noteq> wm_size (pd_manifest d) then (fs, Inl (PartFileSize (length bs) (wm_size (pd_manifest d))))
             else
               let actual = module_hash api bs in
               if actual \<noteq> wm_sha256 (pd_manifest d) then (discard os fs d, Inl (Sha256Mismatch (wm_sha256 (pd_manifest d)) actual))
               else
                 let final_path = path_join store_dir (wm_name (pd_manifest d)) in
                 if is_file fs final_path then (discard os fs d, Inl (ModuleAppeared (wm_name (pd_manifest d))))
                 else
                   let tmp = path_join store_dir (''.'' @ wm_sha256 (pd_manifest d) @ ''.installing'') in
                   fbind (fs_write os fs tmp bs) (\<lambda>fs _.
                   fbind (fs_rename os ''rename into'' fs tmp final_path) (\<lambda>fs _.
                   (discard os fs d, Inr final_path)))))"

definition read_partial_chunk :: "wasm_api \<Rightarrow> os \<Rightarrow> fs \<Rightarrow> string \<Rightarrow> string \<Rightarrow> u32 \<Rightarrow> download_error + bytes option" where
  "read_partial_chunk api os fs store_dir sha index =
     (if \<not> is_file fs (meta_path store_dir sha) \<or> \<not> is_file fs (part_path store_dir sha) then Inr None
      else
        rbind (fs_read_to_string os fs (meta_path store_dir sha)) (\<lambda>raw.
        rbind (decode_meta api raw) (\<lambda>meta.
        if wm_sha256 (pm_manifest meta) \<noteq> sha \<or> index \<notin> pm_received meta then Inr None
        else
          rbind (file_open os fs (OpenRead (part_path store_dir sha)) (part_path store_dir sha)) (\<lambda>b.
          rbind (read_exact_at os (part_path store_dir sha) b (unat (chunk_offset (pm_manifest meta) index)) (chunk_len (pm_manifest meta) index)) (\<lambda>data.
          Inr (if verify_chunk api (pm_manifest meta) index data then Some data else None))))))"

end
