(* ===== verification/WasmResume.thy ===== *)
theory WasmResume
  imports WasmDownload
begin

text \<open>
  Why a download survives failures: the paths it uses are its own, the meta file is replaced in one
  step, and writing one chunk leaves the others alone. A run is a sequence of deliveries of chunks
  and of restarts of the process, in which calls to the operating system fail anywhere.
\<close>

section \<open>Paths\<close>

definition store_base :: "string \<Rightarrow> string" where
  "store_base d = (if d = [] \<or> ends_with d ''/'' then d else d @ ''/'')"

lemma path_join_base: "\<not> starts_with n ''/'' \<Longrightarrow> path_join d n = store_base d @ n"
  by (simp add: path_join_def store_base_def)

lemma starts_with_char: "starts_with s [c] \<longleftrightarrow> (case s of [] \<Rightarrow> False | x # _ \<Rightarrow> x = c)"
  by (cases s) (auto simp: starts_with_def)

lemma ends_with_char: "ends_with s [c] \<longleftrightarrow> s \<noteq> [] \<and> last s = c"
  by (cases s rule: rev_cases) (auto simp: ends_with_def starts_with_char)

lemma partial_dir_base: "partial_dir d = store_base d @ ''.partial''"
  by (simp add: partial_dir_def PARTIAL_SUBDIR_def path_join_base starts_with_char)

lemma sha_no_sep: "is_sha256 sha \<Longrightarrow> c \<in> set sha \<Longrightarrow> is_ascii_hexdigit c"
  by (auto simp: is_sha256_def list_all_iff)

lemma sha_chars: "is_sha256 sha \<Longrightarrow> CHR ''/'' \<notin> set sha" "is_sha256 sha \<Longrightarrow> CHR ''.'' \<notin> set sha" "is_sha256 sha \<Longrightarrow> sha \<noteq> []"
  using sha_no_sep[of sha "CHR ''/''"] sha_no_sep[of sha "CHR ''.''"] by (auto simp: is_ascii_hexdigit_def is_sha256_def)

lemma partial_paths:
  assumes "is_sha256 sha"
  shows "part_path d sha = store_base d @ ''.partial/'' @ sha @ ''.part''"
    "meta_path d sha = store_base d @ ''.partial/'' @ sha @ ''.meta.json''"
    "with_extension (meta_path d sha) ''json.tmp'' = store_base d @ ''.partial/'' @ sha @ ''.meta.json.tmp''"
proof -
  have join: "path_join (partial_dir d) (sha @ x) = store_base d @ ''.partial/'' @ sha @ x" for x
    using sha_chars[OF assms] by (cases sha) (auto simp: path_join_def starts_with_char ends_with_char partial_dir_base)
  show "part_path d sha = store_base d @ ''.partial/'' @ sha @ ''.part''"
    "meta_path d sha = store_base d @ ''.partial/'' @ sha @ ''.meta.json''"
    by (simp_all add: part_path_def meta_path_def join)
  have "rsplit_once (CHR ''.'') (meta_path d sha) = Some (store_base d @ ''.partial/'' @ sha @ ''.meta'', ''json'')"
    using rsplit_once_append[of "CHR ''.''" "''json''" "store_base d @ ''.partial/'' @ sha @ ''.meta''"]
    by (simp add: meta_path_def join)
  then show "with_extension (meta_path d sha) ''json.tmp'' = store_base d @ ''.partial/'' @ sha @ ''.meta.json.tmp''"
    by (simp add: with_extension_def ends_with_char)
qed

definition in_partial :: "string \<Rightarrow> string \<Rightarrow> bool" where
  "in_partial d p = starts_with p (store_base d @ ''.partial/'')"

lemma in_partial_paths [simp]:
  assumes "is_sha256 sha"
  shows "in_partial d (part_path d sha)" "in_partial d (meta_path d sha)"
    "in_partial d (with_extension (meta_path d sha) ''json.tmp'')"
  using partial_paths[OF assms, of d] by (auto simp: in_partial_def starts_with_iff)

lemma partial_paths_distinct [simp]:
  assumes "is_sha256 sha"
  shows "part_path d sha \<noteq> meta_path d sha" "meta_path d sha \<noteq> part_path d sha"
    "with_extension (meta_path d sha) ''json.tmp'' \<noteq> part_path d sha"
    "with_extension (meta_path d sha) ''json.tmp'' \<noteq> meta_path d sha"
    "part_path d sha \<noteq> with_extension (meta_path d sha) ''json.tmp''"
    "meta_path d sha \<noteq> with_extension (meta_path d sha) ''json.tmp''"
  using partial_paths[OF assms, of d] by auto

text \<open>A module of the store is a file directly in the store directory: never in \<open>.partial\<close>, and
  never the temporary file of an installation.\<close>

lemma module_path:
  assumes "is_valid_module_name name"
  shows "path_join d name = store_base d @ name" "\<not> in_partial d (path_join d name)"
    "path_join d name \<noteq> path_join d (''.'' @ x)"
proof -
  have n: "CHR ''/'' \<notin> set name" "name \<noteq> []" "\<not> starts_with name ''.''" using assms by (auto simp: is_valid_module_name_def)
  then have "\<not> starts_with name ''/''" by (cases name) (auto simp: starts_with_char)
  then show eq: "path_join d name = store_base d @ name" by (rule path_join_base)
  show "\<not> in_partial d (path_join d name)" using n by (auto simp: eq in_partial_def starts_with_iff)
  show "path_join d name \<noteq> path_join d (''.'' @ x)"
    using n eq path_join_base[of "''.'' @ x" d] by (cases name) (auto simp: starts_with_char)
qed

section \<open>What each operation touches\<close>

lemma fs_write_frame: "fs_write os fs p b = (fs', r) \<Longrightarrow> q \<noteq> p \<Longrightarrow> fs' q = fs q"
  by (auto simp: fs_write_def split: option.splits)

lemma fs_rename_frame: "fs_rename os w fs a b = (fs', r) \<Longrightarrow> q \<noteq> a \<Longrightarrow> q \<noteq> b \<Longrightarrow> fs' q = fs q"
  by (auto simp: fs_rename_def split: option.splits)

lemma write_sync_at_frame: "write_sync_at os fs p off data = (fs', r) \<Longrightarrow> q \<noteq> p \<Longrightarrow> fs' q = fs q"
  by (auto simp: write_sync_at_def split: option.splits sum.splits)

lemma create_with_len_frame: "create_with_len os fs p n = (fs', r) \<Longrightarrow> q \<noteq> p \<Longrightarrow> fs' q = fs q"
  by (auto simp: create_with_len_def Let_def split: option.splits)

lemma fbind_cases:
  assumes "fbind m f = (fs', r)"
  obtains (fail) e where "m = (fs', Inl e)" "r = Inl e" | (ok) fs1 x where "m = (fs1, Inr x)" "f fs1 x = (fs', r)"
  using assms by (cases m; cases "snd m") auto

lemma persist_meta_frame:
  assumes "persist_meta api os fs d = (fs', r)" "q \<noteq> pd_meta_path d" "q \<noteq> with_extension (pd_meta_path d) ''json.tmp''"
  shows "fs' q = fs q"
proof (cases "wa_encode api \<lparr>pm_manifest = pd_manifest d, pm_received = pd_received d\<rparr>")
  case (Inl e)
  then show ?thesis using assms(1) by (simp add: persist_meta_def)
next
  case (Inr raw)
  then have "fbind (fs_write os fs (with_extension (pd_meta_path d) ''json.tmp'') (as_bytes raw))
      (\<lambda>fs _. fs_rename os ''rename'' fs (with_extension (pd_meta_path d) ''json.tmp'') (pd_meta_path d)) = (fs', r)"
    using assms(1) by (simp add: persist_meta_def Let_def)
  then show ?thesis using assms(2,3)
    by (cases rule: fbind_cases) (metis fs_write_frame, metis fs_write_frame fs_rename_frame)
qed

text \<open>After \<open>persist_meta\<close> the meta file is the old one or the whole new one.\<close>

lemma persist_meta_atomic:
  assumes "persist_meta api os fs d = (fs', r)" "with_extension (pd_meta_path d) ''json.tmp'' \<noteq> pd_meta_path d"
  shows "fs' (pd_meta_path d) = fs (pd_meta_path d) \<and> r \<noteq> Inr () \<or>
    (\<exists>raw. wa_encode api \<lparr>pm_manifest = pd_manifest d, pm_received = pd_received d\<rparr> = Inr raw \<and>
      fs' (pd_meta_path d) = Some (as_bytes raw) \<and> r = Inr ())"
proof (cases "wa_encode api \<lparr>pm_manifest = pd_manifest d, pm_received = pd_received d\<rparr>")
  case (Inl e)
  then show ?thesis using assms(1) by (auto simp: persist_meta_def)
next
  case (Inr raw)
  then have "fbind (fs_write os fs (with_extension (pd_meta_path d) ''json.tmp'') (as_bytes raw))
      (\<lambda>fs _. fs_rename os ''rename'' fs (with_extension (pd_meta_path d) ''json.tmp'') (pd_meta_path d)) = (fs', r)"
    using assms(1) by (simp add: persist_meta_def Let_def)
  then show ?thesis
  proof (cases rule: fbind_cases)
    case (fail e)
    then show ?thesis using fs_write_frame[OF fail(1), of "pd_meta_path d"] assms(2) by auto
  next
    case (ok fs1 x)
    have "fs1 (pd_meta_path d) = fs (pd_meta_path d)" using fs_write_frame[OF ok(1)] assms(2) by metis
    moreover have "fs1 (with_extension (pd_meta_path d) ''json.tmp'') = Some (as_bytes raw)"
      using ok(1) by (auto simp: fs_write_def split: option.splits)
    ultimately show ?thesis using ok(2) Inr assms(2) by (auto simp: fs_rename_def split: option.splits)
  qed
qed

section \<open>The invariant of a download\<close>

definition chunk_on_disk :: "wasm_api \<Rightarrow> wasm_manifest \<Rightarrow> bytes \<Rightarrow> u32 \<Rightarrow> bool" where
  "chunk_on_disk api m b i \<longleftrightarrow> i < chunk_count m \<and> verify_chunk api m i (chunk_slice m b i)"

definition download_inv :: "wasm_api \<Rightarrow> string \<Rightarrow> fs \<Rightarrow> partial_download \<Rightarrow> bool" where
  "download_inv api dir fs d \<longleftrightarrow>
     manifest_ok (pd_manifest d) \<and>
     pd_part_path d = part_path dir (wm_sha256 (pd_manifest d)) \<and>
     pd_meta_path d = meta_path dir (wm_sha256 (pd_manifest d)) \<and>
     (\<exists>b. fs (pd_part_path d) = Some b \<and> length b = unat (wm_size (pd_manifest d)) \<and>
       (\<forall>i \<in> pd_received d. chunk_on_disk api (pd_manifest d) b i))"

text \<open>Progress that a restart recovers: chunks \<open>A\<close> of \<open>m\<close> that the meta file claims and the part
  file has.\<close>

definition durable :: "wasm_api \<Rightarrow> string \<Rightarrow> fs \<Rightarrow> wasm_manifest \<Rightarrow> u32 set \<Rightarrow> bool" where
  "durable api dir fs m A \<longleftrightarrow> A = {} \<or>
     (\<exists>b raw R. fs (part_path dir (wm_sha256 m)) = Some b \<and> length b = unat (wm_size m) \<and>
       fs (meta_path dir (wm_sha256 m)) = Some (as_bytes raw) \<and> utf8_ok raw \<and>
       wa_decode api raw = Inr \<lparr>pm_manifest = m, pm_received = R\<rparr> \<and> A \<subseteq> R \<and>
       (\<forall>i \<in> A. chunk_on_disk api m b i))"

definition meta_codec_ok :: "wasm_api \<Rightarrow> bool" where
  "meta_codec_ok api \<longleftrightarrow>
     (\<forall>meta raw. wa_encode api meta = Inr raw \<longrightarrow> utf8_ok raw \<and> wa_decode api raw = Inr meta)"

lemma write_sync_at_cases:
  assumes "write_sync_at os fs p off data = (fs', r)" "fs p = Some b"
  shows "(\<exists>k. fs' p = Some (write_span b off (take k data)) \<and> r \<noteq> Inr ()) \<or>
    fs' p = Some b \<and> r \<noteq> Inr () \<or> fs' p = Some (write_span b off data)"
  using assms by (auto simp: write_sync_at_def file_open_def split: option.splits)

lemma write_span_frame:
  assumes "manifest_ok m" "j < chunk_count m" "length b = unat (wm_size m)" "length data \<le> chunk_len m j"
  shows "length (write_span b (unat (chunk_offset m j)) data) = unat (wm_size m)"
    "i \<noteq> j \<Longrightarrow> chunk_on_disk api m b i \<Longrightarrow> chunk_on_disk api m (write_span b (unat (chunk_offset m j)) data) i"
  using assms chunk_ends[OF assms(1,2)]
  by (auto simp: length_write_span chunk_on_disk_def write_span_other_chunk)

text \<open>What \<open>write_chunk\<close> does to the part file, whatever the operating system answers.\<close>

lemma write_chunk_part:
  assumes inv: "download_inv api dir fs d" and w: "write_chunk api os fs d j data = (fs', d', r)"
  obtains b b' where "fs (pd_part_path d) = Some b" "fs' (pd_part_path d) = Some b'"
    "length b' = unat (wm_size (pd_manifest d))"
    "\<And>i. i \<in> pd_received d' \<Longrightarrow> chunk_on_disk api (pd_manifest d) b' i"
    "\<And>i. i \<in> pd_received d \<Longrightarrow> chunk_on_disk api (pd_manifest d) b' i"
    "r = Inr () \<Longrightarrow> j \<in> pd_received d'" "pd_received d \<subseteq> pd_received d'"
    "d' = d\<lparr>pd_received := pd_received d'\<rparr>"
proof -
  let ?m = "pd_manifest d" and ?off = "unat (chunk_offset (pd_manifest d) j)"
  have m: "manifest_ok ?m" and sha: "is_sha256 (wm_sha256 ?m)"
    and pp: "pd_part_path d = part_path dir (wm_sha256 ?m)" and mp: "pd_meta_path d = meta_path dir (wm_sha256 ?m)"
    using inv manifest_okD(2)[of ?m] by (auto simp: download_inv_def)
  obtain b where b: "fs (pd_part_path d) = Some b" "length b = unat (wm_size ?m)"
    "\<And>i. i \<in> pd_received d \<Longrightarrow> chunk_on_disk api ?m b i" using inv by (auto simp: download_inv_def)
  show thesis
  proof (cases "j < chunk_count ?m \<and> j \<notin> pd_received d \<and> verify_chunk api ?m j data")
    case False
    then have "fs' = fs" "d' = d" "r = Inr () \<Longrightarrow> j \<in> pd_received d"
      using w by (auto simp: write_chunk_def split: if_splits)
    then show thesis using that b by auto
  next
    case True
    then have j: "j < chunk_count ?m" and nle: "\<not> chunk_count ?m \<le> j" and len: "length data = chunk_len ?m j"
      by (auto simp: verify_chunk_def split: if_splits)
    obtain fs1 r1 where s: "write_sync_at os fs (pd_part_path d) ?off data = (fs1, r1)" by fastforce
    have other: "fs1 q = fs q" if "q \<noteq> pd_part_path d" for q using write_sync_at_frame[OF s that] .
    have same: "chunk_on_disk api ?m (write_span b ?off data) j"
      using True write_span_same_chunk[OF m j b(2) len] by (simp add: chunk_on_disk_def)
    have torn: "length (write_span b ?off (take k data)) = unat (wm_size ?m)"
      "i \<noteq> j \<Longrightarrow> chunk_on_disk api ?m b i \<Longrightarrow> chunk_on_disk api ?m (write_span b ?off (take k data)) i" for k i
      using write_span_frame[OF m j b(2), of "take k data"] len by auto
    have whole: "length (write_span b ?off data) = unat (wm_size ?m)"
      "i \<noteq> j \<Longrightarrow> chunk_on_disk api ?m b i \<Longrightarrow> chunk_on_disk api ?m (write_span b ?off data) i" for i
      using torn(1)[of "length data"] torn(2)[where k = "length data"] by simp_all
    show thesis
    proof (cases r1)
      case (Inl e)
      then have "fs' = fs1" "d' = d" "r \<noteq> Inr ()" using w True nle s by (auto simp: write_chunk_def)
      moreover obtain b' where "fs1 (pd_part_path d) = Some b'" "length b' = unat (wm_size ?m)"
        "\<And>i. i \<in> pd_received d \<Longrightarrow> chunk_on_disk api ?m b' i"
        using write_sync_at_cases[OF s b(1)] torn whole b True by (metis (no_types, lifting))
      ultimately show thesis using that b(1) by auto
    next
      case (Inr u)
      let ?d = "d\<lparr>pd_received := insert j (pd_received d)\<rparr>"
      have part1: "fs1 (pd_part_path d) = Some (write_span b ?off data)"
        using write_sync_at_cases[OF s b(1)] Inr by auto
      have d': "d' = ?d" and p: "persist_meta api os fs1 ?d = (fs', r)"
        using w True nle s Inr by (auto simp: write_chunk_def Let_def split: prod.splits)
      have "fs' (pd_part_path d) = fs1 (pd_part_path d)"
        using persist_meta_frame[OF p, of "pd_part_path d"] by (simp add: pp mp sha)
      moreover have "chunk_on_disk api ?m (write_span b ?off data) i" if "i = j \<or> i \<in> pd_received d" for i
        using that same whole(2) b(3) by (cases "i = j") auto
      ultimately show thesis using that[of b "write_span b ?off data"] b(1) part1 d' whole(1) by auto
    qed
  qed
qed

lemma write_chunk_inv:
  assumes "download_inv api dir fs d" "write_chunk api os fs d j data = (fs', d', r)"
  shows "download_inv api dir fs' d'" "pd_manifest d' = pd_manifest d" "pd_received d \<subseteq> pd_received d'"
    "r = Inr () \<Longrightarrow> j \<in> pd_received d'"
proof -
  obtain b b' where w: "fs (pd_part_path d) = Some b" "fs' (pd_part_path d) = Some b'"
    "length b' = unat (wm_size (pd_manifest d))"
    "\<And>i. i \<in> pd_received d' \<Longrightarrow> chunk_on_disk api (pd_manifest d) b' i"
    "r = Inr () \<Longrightarrow> j \<in> pd_received d'" "pd_received d \<subseteq> pd_received d'"
    "d' = d\<lparr>pd_received := pd_received d'\<rparr>"
    using write_chunk_part[OF assms] by metis
  have same: "pd_manifest d' = pd_manifest d" "pd_part_path d' = pd_part_path d" "pd_meta_path d' = pd_meta_path d"
    by (subst w(7), simp)+
  show "download_inv api dir fs' d'" using assms(1) w by (auto simp: download_inv_def same)
  show "pd_manifest d' = pd_manifest d" by (rule same)
  show "pd_received d \<subseteq> pd_received d'" "r = Inr () \<Longrightarrow> j \<in> pd_received d'" using w by auto
qed

section \<open>Durability\<close>

text \<open>Everything received by a handle becomes durable when its meta file is written, and a failed
  operation keeps what was durable.\<close>

lemma durable_mono: "durable api dir fs m A \<Longrightarrow> B \<subseteq> A \<Longrightarrow> durable api dir fs m B"
  unfolding durable_def by (elim disjE exE conjE) (blast, blast)

lemma durable_part:
  assumes "durable api dir fs m A" "fs' (meta_path dir (wm_sha256 m)) = fs (meta_path dir (wm_sha256 m))"
    "fs' (part_path dir (wm_sha256 m)) = Some b" "length b = unat (wm_size m)" "\<And>i. i \<in> A \<Longrightarrow> chunk_on_disk api m b i"
  shows "durable api dir fs' m A"
proof (cases "A = {}")
  case True
  then show ?thesis by (simp add: durable_def)
next
  case False
  then obtain raw R where "fs (meta_path dir (wm_sha256 m)) = Some (as_bytes raw)" "utf8_ok raw"
    "wa_decode api raw = Inr \<lparr>pm_manifest = m, pm_received = R\<rparr>" "A \<subseteq> R"
    using assms(1) by (auto simp: durable_def)
  then show ?thesis using assms(2-5) unfolding durable_def by metis
qed

lemma persisted_durable:
  assumes "download_inv api dir fs d" "meta_codec_ok api"
    "wa_encode api \<lparr>pm_manifest = pd_manifest d, pm_received = pd_received d\<rparr> = Inr raw"
    "fs (pd_meta_path d) = Some (as_bytes raw)"
  shows "durable api dir fs (pd_manifest d) (pd_received d)"
  using assms unfolding durable_def download_inv_def meta_codec_ok_def by (metis subset_refl)

lemma persist_meta_inv:
  assumes "download_inv api dir fs d" "persist_meta api os fs d = (fs', r)"
  shows "download_inv api dir fs' d"
proof -
  have "fs' (pd_part_path d) = fs (pd_part_path d)"
    using persist_meta_frame[OF assms(2), of "pd_part_path d"] assms(1) manifest_okD(2)[of "pd_manifest d"]
    by (simp add: download_inv_def)
  then show ?thesis using assms(1) by (auto simp: download_inv_def)
qed

lemma persist_durable:
  assumes inv: "download_inv api dir fs d" and codec: "meta_codec_ok api"
    and p: "persist_meta api os fs d = (fs', r)" and A: "durable api dir fs (pd_manifest d) A" "A \<subseteq> pd_received d"
  shows "durable api dir fs' (pd_manifest d) A" "r = Inr () \<Longrightarrow> durable api dir fs' (pd_manifest d) (pd_received d)"
proof -
  let ?m = "pd_manifest d"
  have sha: "is_sha256 (wm_sha256 ?m)" and pp: "pd_part_path d = part_path dir (wm_sha256 ?m)"
    and mp: "pd_meta_path d = meta_path dir (wm_sha256 ?m)"
    using inv manifest_okD(2)[of ?m] by (auto simp: download_inv_def)
  have part: "fs' (part_path dir (wm_sha256 ?m)) = fs (part_path dir (wm_sha256 ?m))"
    using persist_meta_frame[OF p, of "part_path dir (wm_sha256 ?m)"] sha by (simp add: mp)
  note new = persisted_durable[OF persist_meta_inv[OF inv p] codec]
  have cases: "fs' (pd_meta_path d) = fs (pd_meta_path d) \<and> r \<noteq> Inr () \<or>
      (\<exists>raw. wa_encode api \<lparr>pm_manifest = ?m, pm_received = pd_received d\<rparr> = Inr raw \<and>
        fs' (pd_meta_path d) = Some (as_bytes raw) \<and> r = Inr ())"
    using persist_meta_atomic[OF p] sha by (simp add: mp)
  show "r = Inr () \<Longrightarrow> durable api dir fs' ?m (pd_received d)" using cases new by auto
  show "durable api dir fs' ?m A"
  proof (cases "fs' (pd_meta_path d) = fs (pd_meta_path d)")
    case True
    then show ?thesis using A(1) part by (simp add: durable_def mp)
  next
    case False
    then show ?thesis using cases new durable_mono[OF _ A(2)] by auto
  qed
qed

text \<open>A chunk that is stored makes everything the handle has received durable. (For a chunk the
  handle already has, \<open>write_chunk\<close> answers without touching the disk.)\<close>

lemma write_chunk_durable:
  assumes inv: "download_inv api dir fs d" and codec: "meta_codec_ok api"
    and w: "write_chunk api os fs d j data = (fs', d', r)" and A: "durable api dir fs (pd_manifest d) A" "A \<subseteq> pd_received d"
  shows "durable api dir fs' (pd_manifest d) (if r = Inr () \<and> j \<notin> pd_received d then pd_received d' else A)"
proof -
  let ?m = "pd_manifest d" and ?off = "unat (chunk_offset (pd_manifest d) j)"
  have sha: "is_sha256 (wm_sha256 ?m)" and pp: "pd_part_path d = part_path dir (wm_sha256 ?m)"
    and mp: "pd_meta_path d = meta_path dir (wm_sha256 ?m)"
    using inv manifest_okD(2)[of ?m] by (auto simp: download_inv_def)
  obtain b b' where part: "fs' (pd_part_path d) = Some b'" "length b' = unat (wm_size ?m)"
    "\<And>i. i \<in> pd_received d \<Longrightarrow> chunk_on_disk api ?m b' i" and inv': "download_inv api dir fs' d'"
    using write_chunk_part[OF inv w] write_chunk_inv[OF inv w] by metis
  have kept: "durable api dir fs' ?m A" if "fs' (pd_meta_path d) = fs (pd_meta_path d)"
    by (rule durable_part[OF A(1)]) (use that A(2) part in \<open>auto simp: pp mp\<close>)
  obtain fs1 r1 where s: "write_sync_at os fs (pd_part_path d) ?off data = (fs1, r1)" by fastforce
  have meta1: "fs1 (pd_meta_path d) = fs (pd_meta_path d)"
    using write_sync_at_frame[OF s, of "pd_meta_path d"] sha by (simp add: pp mp)
  consider (none) "fs' = fs" "r = Inr () \<Longrightarrow> j \<in> pd_received d" | (torn) "fs' = fs1" "r \<noteq> Inr ()"
    | (stored) "persist_meta api os fs1 d' = (fs', r)" "pd_manifest d' = ?m" "pd_meta_path d' = pd_meta_path d"
    using w s by (auto simp: write_chunk_def Let_def split: if_splits sum.splits prod.splits)
  then show ?thesis
  proof cases
    case none
    then show ?thesis using kept by auto
  next
    case torn
    then show ?thesis using kept meta1 by simp
  next
    case stored
    have "with_extension (pd_meta_path d') ''json.tmp'' \<noteq> pd_meta_path d'" using sha stored by (simp add: mp)
    from persist_meta_atomic[OF stored(1) this] show ?thesis
    proof (elim disjE exE conjE)
      assume "fs' (pd_meta_path d') = fs1 (pd_meta_path d')" "r \<noteq> Inr ()"
      then show ?thesis using kept meta1 stored(3) by simp
    next
      fix raw assume raw: "wa_encode api \<lparr>pm_manifest = pd_manifest d', pm_received = pd_received d'\<rparr> = Inr raw"
        "fs' (pd_meta_path d') = Some (as_bytes raw)" "r = Inr ()"
      have "durable api dir fs' (pd_manifest d') (pd_received d')" using persisted_durable[OF inv' codec raw(1,2)] .
      moreover from this have "durable api dir fs' (pd_manifest d') A"
        by (rule durable_mono) (use A(2) write_chunk_inv(3)[OF inv w] in auto)
      ultimately show ?thesis using stored(2) by simp
    qed
  qed
qed

text \<open>Opening again: with readable files nothing durable is lost.\<close>

definition reads_work :: "os \<Rightarrow> bool" where
  "reads_work os \<longleftrightarrow> (\<forall>p off n. os_error os (ReadToString p) = None \<and> os_error os (OpenRead p) = None \<and>
     os_error os (SeekTo p off) = None \<and> os_error os (ReadExact p off n) = None)"

lemma chunk_verified_iff:
  assumes "manifest_ok (pd_manifest d)" "reads_work os" "length b = unat (wm_size (pd_manifest d))"
  shows "chunk_verified api os d b i \<longleftrightarrow> chunk_on_disk api (pd_manifest d) b i"
  using assms chunk_ends[OF assms(1), of i]
  by (auto simp: chunk_verified_def chunk_on_disk_def read_exact_at_def io_fail_def reads_work_def chunk_slice_def)

lemma load_recovers:
  assumes "durable api dir fs (pd_manifest d) A" "manifest_ok (pd_manifest d)" "reads_work os"
    "pd_part_path d = part_path dir (wm_sha256 (pd_manifest d))" "pd_meta_path d = meta_path dir (wm_sha256 (pd_manifest d))"
    and A: "A \<noteq> {}"
  shows "\<exists>rec. load_and_verify_meta api os fs d = Inr rec \<and> A \<subseteq> rec"
proof -
  obtain b raw R where "fs (pd_part_path d) = Some b" "length b = unat (wm_size (pd_manifest d))"
    "fs (pd_meta_path d) = Some (as_bytes raw)" "utf8_ok raw"
    "wa_decode api raw = Inr \<lparr>pm_manifest = pd_manifest d, pm_received = R\<rparr>" "A \<subseteq> R"
    "\<forall>i \<in> A. chunk_on_disk api (pd_manifest d) b i"
    using assms(1,4,5) A by (auto simp: durable_def)
  then show ?thesis
    using assms(2,3) chunk_verified_iff[OF assms(2,3), of b api]
    by (auto simp: load_and_verify_meta_def is_file_def fs_read_to_string_def fs_read_def io_fail_def reads_work_def
        decode_meta_def file_open_def)
qed

lemma load_sound:
  assumes "load_and_verify_meta api os fs d = Inr rec" "manifest_ok (pd_manifest d)" "i \<in> rec"
  shows "\<exists>b. fs (pd_part_path d) = Some b \<and> unat (chunk_offset (pd_manifest d) i) + chunk_len (pd_manifest d) i \<le> length b \<and>
    chunk_on_disk api (pd_manifest d) b i"
proof -
  obtain b where b: "fs (pd_part_path d) = Some b" "chunk_verified api os d b i"
    using assms(1,3)
    by (auto simp: load_and_verify_meta_def rbind_Inr_iff file_open_def split: if_splits option.splits)
  then have i: "i < chunk_count (pd_manifest d)" by (simp add: chunk_verified_def)
  have "0 < chunk_len (pd_manifest d) i"
    using chunk_begins[OF assms(2) i] manifest_okD(5)[OF assms(2)] by (simp add: chunk_len_nat)
  then show ?thesis using b
    by (auto simp: chunk_verified_def read_exact_at_def chunk_on_disk_def chunk_slice_def split: option.splits if_splits)
qed

lemma chunk_slice_resize:
  assumes "unat (chunk_offset m i) + chunk_len m i \<le> length b" "unat (chunk_offset m i) + chunk_len m i \<le> n"
  shows "chunk_slice m (resize_bytes n b) i = chunk_slice m b i"
  using assms by (auto simp: chunk_slice_def resize_bytes_def intro!: nth_equalityI simp: nth_append)

text \<open>A handle is sound from the moment it is opened, over whatever files were there.\<close>

lemma create_with_len_part:
  assumes "create_with_len os fs p n = (fs', r)" "fs p = Some b"
  shows "fs' p = Some b \<and> r \<noteq> Inr () \<or> fs' p = Some (resize_bytes n b)"
  using assms by (auto simp: create_with_len_def Let_def split: option.splits)

lemma create_with_len_ok:
  assumes "create_with_len os fs p n = (fs', Inr ())"
  shows "fs' p = Some (resize_bytes n (case fs p of None \<Rightarrow> [] | Some b \<Rightarrow> b))"
  using assms by (auto simp: create_with_len_def Let_def split: option.splits)

text \<open>The handle that \<open>open_download\<close> prepares, and the run of its two writes.\<close>

definition opened :: "wasm_api \<Rightarrow> os \<Rightarrow> fs \<Rightarrow> string \<Rightarrow> wasm_manifest \<Rightarrow> partial_download" where
  "opened api os fs dir m =
     (let d = \<lparr>pd_manifest = m, pd_part_path = part_path dir (wm_sha256 m),
                pd_meta_path = meta_path dir (wm_sha256 m), pd_received = {}\<rparr> in
      case load_and_verify_meta api os fs d of Inr recovered \<Rightarrow> d\<lparr>pd_received := recovered\<rparr> | Inl _ \<Rightarrow> d)"

lemma opened_sel [simp]:
  "pd_manifest (opened api os fs dir m) = m" "pd_part_path (opened api os fs dir m) = part_path dir (wm_sha256 m)"
  "pd_meta_path (opened api os fs dir m) = meta_path dir (wm_sha256 m)"
  by (auto simp: opened_def Let_def split: sum.split)

lemma opened_received:
  assumes "manifest_ok m" "i \<in> pd_received (opened api os fs dir m)"
  shows "\<exists>b. fs (part_path dir (wm_sha256 m)) = Some b \<and> unat (chunk_offset m i) + chunk_len m i \<le> length b \<and> chunk_on_disk api m b i"
  using assms load_sound[of api os fs "\<lparr>pd_manifest = m, pd_part_path = part_path dir (wm_sha256 m),
      pd_meta_path = meta_path dir (wm_sha256 m), pd_received = {}\<rparr>" _ i]
  by (auto simp: opened_def Let_def split: sum.splits)

lemma opened_recovers:
  assumes "manifest_ok m" "durable api dir fs m A" "reads_work os"
  shows "A \<subseteq> pd_received (opened api os fs dir m)"
  using assms load_recovers[of api dir fs "\<lparr>pd_manifest = m, pd_part_path = part_path dir (wm_sha256 m),
      pd_meta_path = meta_path dir (wm_sha256 m), pd_received = {}\<rparr>" A os]
  by (cases "A = {}") (auto simp: opened_def)

lemma open_download_cases:
  assumes "open_download api os fs dir m = (fs', r)"
  obtains (refused) x where "fs' = fs" "r = Inl x"
    | (not_created) x where "create_with_len os fs (part_path dir (wm_sha256 m)) (unat (wm_size m)) = (fs', Inl x)" "r = Inl x"
    | (not_stored) fs1 x where "create_with_len os fs (part_path dir (wm_sha256 m)) (unat (wm_size m)) = (fs1, Inr ())"
        "persist_meta api os fs1 (opened api os fs dir m) = (fs', Inl x)" "r = Inl x"
    | (ready) fs1 where "create_with_len os fs (part_path dir (wm_sha256 m)) (unat (wm_size m)) = (fs1, Inr ())"
        "persist_meta api os fs1 (opened api os fs dir m) = (fs', Inr ())" "r = Inr (opened api os fs dir m)"
proof (cases "io_fail os (CreateDirAll (partial_dir dir)) ''create'' (partial_dir dir)")
  case (Some x)
  then show thesis using assms refused by (auto simp: open_download_def Let_def)
next
  case None
  then have "fbind (create_with_len os fs (part_path dir (wm_sha256 m)) (unat (wm_size m))) (\<lambda>fs1 _.
      fbind (persist_meta api os fs1 (opened api os fs dir m)) (\<lambda>fs2 _. (fs2, Inr (opened api os fs dir m)))) = (fs', r)"
    using assms by (simp add: open_download_def opened_def Let_def split: sum.splits)
  then show thesis
  proof (cases rule: fbind_cases)
    case (fail x)
    then show thesis using not_created by simp
  next
    case (ok fs1 u)
    from ok(2) show thesis by (cases rule: fbind_cases) (use ok(1) not_stored ready in auto)
  qed
qed

text \<open>The part file after it was given its size still has the chunks that were recovered.\<close>

lemma opened_inv:
  assumes m: "manifest_ok m" and c: "create_with_len os fs (part_path dir (wm_sha256 m)) (unat (wm_size m)) = (fs1, Inr ())"
  shows "download_inv api dir fs1 (opened api os fs dir m)"
proof -
  define b where "b = (case fs (part_path dir (wm_sha256 m)) of None \<Rightarrow> [] | Some b \<Rightarrow> b)"
  have "fs1 (part_path dir (wm_sha256 m)) = Some (resize_bytes (unat (wm_size m)) b)"
    using create_with_len_ok[OF c] by (simp add: b_def)
  moreover have "chunk_on_disk api m (resize_bytes (unat (wm_size m)) b) i" if "i \<in> pd_received (opened api os fs dir m)" for i
    using opened_received[OF m that] chunk_ends[OF m, of i] by (auto simp: b_def chunk_on_disk_def chunk_slice_resize)
  ultimately show ?thesis using m by (simp add: download_inv_def) (simp add: resize_bytes_def)
qed

lemma create_with_len_durable:
  assumes A: "durable api dir fs m A" and sha: "is_sha256 (wm_sha256 m)"
    and c: "create_with_len os fs (part_path dir (wm_sha256 m)) (unat (wm_size m)) = (fs1, r)"
  shows "durable api dir fs1 m A"
proof (cases "A = {}")
  case False
  let ?pp = "part_path dir (wm_sha256 m)" and ?mp = "meta_path dir (wm_sha256 m)"
  obtain b where b: "fs ?pp = Some b" "length b = unat (wm_size m)" "\<forall>i \<in> A. chunk_on_disk api m b i"
    using A False by (auto simp: durable_def)
  have "fs1 ?pp = Some b" using create_with_len_part[OF c b(1)] b by (auto simp: resize_bytes_def)
  moreover have "fs1 ?mp = fs ?mp" using create_with_len_frame[OF c, of ?mp] sha by simp
  ultimately show ?thesis using durable_part[OF A, of fs1 b] b by simp
qed (simp add: durable_def)

lemma open_download_sound:
  assumes ok: "manifest_ok m" and codec: "meta_codec_ok api" and op: "open_download api os fs dir m = (fs', r)"
    and A: "durable api dir fs m A" "reads_work os"
  shows "durable api dir fs' m A \<and> (\<forall>d. r = Inr d \<longrightarrow> download_inv api dir fs' d \<and> pd_manifest d = m \<and> A \<subseteq> pd_received d \<and>
    durable api dir fs' m (pd_received d))"
  using op
proof (cases rule: open_download_cases)
  case (not_created x)
  then show ?thesis using create_with_len_durable[OF A(1) manifest_okD(2)[OF ok]] by auto
next
  case (not_stored fs1 x)
  note dur = create_with_len_durable[OF A(1) manifest_okD(2)[OF ok] not_stored(1)]
  show ?thesis using persist_durable(1)[OF opened_inv[OF ok not_stored(1)] codec not_stored(2)] dur
      opened_recovers[OF ok A] not_stored(3) by simp
next
  case (ready fs1)
  note dur = create_with_len_durable[OF A(1) manifest_okD(2)[OF ok] ready(1)]
  note inv = opened_inv[OF ok ready(1), of api]
  show ?thesis using persist_durable[OF inv codec ready(2)] persist_meta_inv[OF inv ready(2)] dur
      opened_recovers[OF ok A] ready(3) by auto
qed (use A in auto)

end
