(* ===== verification/WasmInstall.thy ===== *)
theory WasmInstall
  imports WasmResume
begin

text \<open>
  Runs of downloads and installations: chunks arrive, the process restarts, modules are installed,
  files of the \<open>.partial\<close> directory are damaged from outside, in any order and with failures of the
  operating system anywhere.
\<close>

section \<open>Runs\<close>

datatype dl_event =
    Deliver os u32 bytes
  | Reopen os wasm_manifest
  | Install os
  | Damage string "bytes option"

text \<open>The files, the open handle, and the chunks that were received when a chunk was last stored or
  a handle opened.\<close>

record dl_state =
  ds_fs :: fs
  ds_handle :: "partial_download option"
  ds_durable :: "u32 set"

fun dl_step :: "wasm_api \<Rightarrow> string \<Rightarrow> dl_state \<Rightarrow> dl_event \<Rightarrow> dl_state" where
  "dl_step api dir st (Deliver os i data) =
     (case ds_handle st of
        None \<Rightarrow> st
      | Some d \<Rightarrow>
          (case write_chunk api os (ds_fs st) d i data of (fs, d', r) \<Rightarrow>
             st\<lparr>ds_fs := fs, ds_handle := Some d',
                ds_durable := if r = Inr () \<and> i \<notin> pd_received d then pd_received d' else ds_durable st\<rparr>))"
| "dl_step api dir st (Reopen os m) =
     (case open_download api os (ds_fs st) dir m of
        (fs, Inl _) \<Rightarrow> st\<lparr>ds_fs := fs, ds_handle := None\<rparr>
      | (fs, Inr d) \<Rightarrow> st\<lparr>ds_fs := fs, ds_handle := Some d, ds_durable := pd_received d\<rparr>)"
| "dl_step api dir st (Install os) =
     (case ds_handle st of
        None \<Rightarrow> st
      | Some d \<Rightarrow> st\<lparr>ds_fs := fst (install_module api os (ds_fs st) dir d), ds_handle := None\<rparr>)"
| "dl_step api dir st (Damage p c) = st\<lparr>ds_fs := (ds_fs st)(p := c)\<rparr>"

definition dl_start :: "fs \<Rightarrow> dl_state" where
  "dl_start fs = \<lparr>ds_fs = fs, ds_handle = None, ds_durable = {}\<rparr>"

section \<open>Restarts lose nothing\<close>

fun resumable :: "wasm_manifest \<Rightarrow> dl_event \<Rightarrow> bool" where
  "resumable m (Deliver _ _ _) = True"
| "resumable m (Reopen os m') = (m' = m \<and> reads_work os)"
| "resumable m (Install _) = False"
| "resumable m (Damage _ _) = False"

definition resume_inv :: "wasm_api \<Rightarrow> string \<Rightarrow> wasm_manifest \<Rightarrow> dl_state \<Rightarrow> bool" where
  "resume_inv api dir m st \<longleftrightarrow>
     meta_codec_ok api \<and> manifest_ok m \<and> durable api dir (ds_fs st) m (ds_durable st) \<and>
     (\<forall>d. ds_handle st = Some d \<longrightarrow>
        download_inv api dir (ds_fs st) d \<and> pd_manifest d = m \<and> ds_durable st \<subseteq> pd_received d)"

lemma resume_step:
  assumes inv: "resume_inv api dir m st" and ev: "resumable m ev"
  shows "resume_inv api dir m (dl_step api dir st ev)"
proof (cases ev)
  case (Deliver os i data)
  show ?thesis
  proof (cases "ds_handle st")
    case (Some d)
    then have d: "download_inv api dir (ds_fs st) d" "pd_manifest d = m" "ds_durable st \<subseteq> pd_received d" "meta_codec_ok api"
      "durable api dir (ds_fs st) (pd_manifest d) (ds_durable st)" using inv by (auto simp: resume_inv_def)
    obtain fs' d' r where w: "write_chunk api os (ds_fs st) d i data = (fs', d', r)" by (metis prod_cases3)
    have "durable api dir fs' m (if r = Inr () \<and> i \<notin> pd_received d then pd_received d' else ds_durable st)"
      using write_chunk_durable[OF d(1,4) w d(5,3)] by (simp add: d(2))
    then show ?thesis
      using inv Some Deliver w write_chunk_inv[OF d(1) w] d(2,3) by (auto simp: resume_inv_def)
  qed (use inv Deliver in auto)
next
  case (Reopen os m')
  then have m': "m' = m" "reads_work os" using ev by auto
  obtain fs' r where op: "open_download api os (ds_fs st) dir m = (fs', r)" by fastforce
  have ok: "manifest_ok m" "meta_codec_ok api" "durable api dir (ds_fs st) m (ds_durable st)"
    using inv by (auto simp: resume_inv_def)
  show ?thesis using Reopen m' op ok open_download_sound[OF ok(1,2) op ok(3) m'(2)]
    by (cases r) (auto simp: resume_inv_def)
qed (use ev in auto)

interpretation resume: invariant_machine "dl_step api dir" "resumable m" "resume_inv api dir m" for api dir m
  by unfold_locales (rule resume_step)

lemma resume_start: "meta_codec_ok api \<Longrightarrow> manifest_ok m \<Longrightarrow> resume_inv api dir m (dl_start fs)"
  by (simp add: resume_inv_def dl_start_def durable_def)

text \<open>What is missing, and when nothing is.\<close>

lemma words_below: "word_of_nat ` {0 ..< unat n} = {i :: u32. i < n}"
proof (intro set_eqI iffI)
  fix i assume "i \<in> {i :: u32. i < n}"
  then have "unat i \<in> {0 ..< unat n}" by (simp add: word_less_nat_alt)
  then show "i \<in> word_of_nat ` {0 ..< unat n}" by (rule image_eqI[rotated]) simp
next
  fix i assume "i \<in> (word_of_nat :: nat \<Rightarrow> u32) ` {0 ..< unat n}"
  then obtain k where k: "k < unat n" "i = word_of_nat k" by auto
  then have "k < 2 ^ 32" using unat_lt_2p[of n] by simp
  with k show "i \<in> {i. i < n}" by (simp add: word_less_nat_alt unat_of_nat)
qed

lemma missing_chunks_set: "set (missing_chunks d) = {i. i < chunk_count (pd_manifest d)} - pd_received d"
  using words_below[of "chunk_count (pd_manifest d)"] by (auto simp: missing_chunks_def)

lemma inj_words_below: "inj_on (word_of_nat :: nat \<Rightarrow> u32) {0 ..< unat (n :: u32)}"
proof (rule inj_onI)
  fix a b assume ab: "a \<in> {0 ..< unat n}" "b \<in> {0 ..< unat n}" "(word_of_nat a :: u32) = word_of_nat b"
  then have "a < 2 ^ 32" "b < 2 ^ 32" using unat_lt_2p[of n] by auto
  then show "a = b" using arg_cong[OF ab(3), of unat] by (simp add: unat_of_nat)
qed

lemma missing_chunks_distinct: "distinct (missing_chunks d)"
  using inj_words_below by (simp add: missing_chunks_def distinct_map)

lemma card_below_u32: "card {i :: u32. i < n} = unat n"
  using inj_words_below[of n] by (simp add: card_image flip: words_below)

lemma complete_iff:
  assumes "\<And>i. i \<in> pd_received d \<Longrightarrow> i < chunk_count (pd_manifest d)"
  shows "download_complete d \<longleftrightarrow> missing_chunks d = []"
    "download_complete d \<longleftrightarrow> pd_received d = {i. i < chunk_count (pd_manifest d)}"
proof -
  let ?all = "{i. i < chunk_count (pd_manifest d)}"
  have sub: "pd_received d \<subseteq> ?all" using assms by auto
  have fin: "finite ?all" by simp
  have le: "card (pd_received d) \<le> unat (chunk_count (pd_manifest d))"
    using card_mono[OF fin sub] by (simp add: card_below_u32)
  then have "card (pd_received d) < 2 ^ 32" using unat_lt_2p[of "chunk_count (pd_manifest d)"] by simp
  then have "download_complete d \<longleftrightarrow> card (pd_received d) = card ?all"
    by (simp add: download_complete_def received_count_def card_below_u32 word_unat_eq_iff unat_of_nat)
  also have "\<dots> \<longleftrightarrow> pd_received d = ?all" using card_subset_eq[OF fin sub] by metis
  finally show all: "download_complete d \<longleftrightarrow> pd_received d = ?all" .
  then show "download_complete d \<longleftrightarrow> missing_chunks d = []"
    using missing_chunks_set[of d] sub by (metis Diff_cancel Diff_eq_empty_iff set_empty subset_antisym)
qed

section \<open>The store holds only verified modules\<close>

definition installing_path :: "string \<Rightarrow> wasm_manifest \<Rightarrow> string" where
  "installing_path dir m = path_join dir (''.'' @ wm_sha256 m @ ''.installing'')"

definition handle_ok :: "string \<Rightarrow> partial_download \<Rightarrow> bool" where
  "handle_ok dir d \<longleftrightarrow> manifest_ok (pd_manifest d) \<and>
     pd_part_path d = part_path dir (wm_sha256 (pd_manifest d)) \<and> pd_meta_path d = meta_path dir (wm_sha256 (pd_manifest d))"

definition installed :: "wasm_api \<Rightarrow> string \<Rightarrow> wasm_manifest set \<Rightarrow> string \<Rightarrow> bytes option \<Rightarrow> bool" where
  "installed api dir Ms p c \<longleftrightarrow> (\<exists>m \<in> Ms. \<exists>b. p = path_join dir (wm_name m) \<and> c = Some b \<and>
     word_of_nat (length b) = wm_size m \<and> module_hash api b = wm_sha256 m)"

definition store_inv :: "wasm_api \<Rightarrow> string \<Rightarrow> fs \<Rightarrow> wasm_manifest set \<Rightarrow> dl_state \<Rightarrow> bool" where
  "store_inv api dir fs0 Ms st \<longleftrightarrow>
     (\<forall>d. ds_handle st = Some d \<longrightarrow> handle_ok dir d \<and> pd_manifest d \<in> Ms) \<and>
     (\<forall>p. \<not> in_partial dir p \<longrightarrow> p \<notin> installing_path dir ` Ms \<longrightarrow>
        ds_fs st p = fs0 p \<or> fs0 p = None \<and> installed api dir Ms p (ds_fs st p))"

fun benign :: "string \<Rightarrow> wasm_manifest set \<Rightarrow> dl_event \<Rightarrow> bool" where
  "benign dir Ms (Deliver _ _ _) = True"
| "benign dir Ms (Reopen os m) = (manifest_ok m \<and> m \<in> Ms)"
| "benign dir Ms (Install _) = True"
| "benign dir Ms (Damage p _) = in_partial dir p"

lemma handle_partial_paths:
  assumes "handle_ok dir d"
  shows "in_partial dir (pd_part_path d)" "in_partial dir (pd_meta_path d)"
    "in_partial dir (with_extension (pd_meta_path d) ''json.tmp'')"
  using assms manifest_okD(2)[of "pd_manifest d"] by (simp_all add: handle_ok_def)

lemma write_chunk_handle:
  assumes "handle_ok dir d" "write_chunk api os fs d i data = (fs', d', r)"
  shows "handle_ok dir d'" "pd_manifest d' = pd_manifest d" "\<not> in_partial dir p \<Longrightarrow> fs' p = fs p"
proof -
  obtain fs1 r1 where s: "write_sync_at os fs (pd_part_path d) (unat (chunk_offset (pd_manifest d) i)) data = (fs1, r1)"
    by fastforce
  have cases: "(fs' = fs \<or> fs' = fs1) \<and> d' = d \<or>
      d' = d\<lparr>pd_received := insert i (pd_received d)\<rparr> \<and> persist_meta api os fs1 d' = (fs', r)"
    using assms(2) s by (auto simp: write_chunk_def Let_def split: if_splits sum.splits prod.splits)
  then show "handle_ok dir d'" "pd_manifest d' = pd_manifest d" using assms(1) by (auto simp: handle_ok_def)
  assume p: "\<not> in_partial dir p"
  then have "fs1 p = fs p" using write_sync_at_frame[OF s] handle_partial_paths[OF assms(1)] by metis
  then show "fs' p = fs p"
    using cases persist_meta_frame[of api os fs1 d' fs' r p] handle_partial_paths[OF \<open>handle_ok dir d'\<close>] p by metis
qed

lemma open_download_handle:
  assumes "manifest_ok m" "open_download api os fs dir m = (fs', r)"
  shows "r = Inr d \<Longrightarrow> handle_ok dir d \<and> pd_manifest d = m" "\<not> in_partial dir p \<Longrightarrow> fs' p = fs p"
proof -
  have h: "handle_ok dir (opened api os fs dir m)" using assms(1) by (simp add: handle_ok_def)
  note out = handle_partial_paths[OF h, simplified]
  show "r = Inr d \<Longrightarrow> handle_ok dir d \<and> pd_manifest d = m" using assms(2) h by (cases rule: open_download_cases) auto
  assume p: "\<not> in_partial dir p"
  have created: "fs1 p = fs p" if "create_with_len os fs (part_path dir (wm_sha256 m)) n = (fs1, x)" for fs1 n x
    using create_with_len_frame[OF that] out p by metis
  have stored: "fs2 p = fs1 p" if "persist_meta api os fs1 (opened api os fs dir m) = (fs2, x)" for fs1 fs2 x
    using persist_meta_frame[OF that] out p by (metis opened_sel(3))
  show "fs' p = fs p" using assms(2) by (cases rule: open_download_cases) (metis created stored)+
qed

lemma discard_frame: "handle_ok dir d \<Longrightarrow> \<not> in_partial dir p \<Longrightarrow> discard os fs d p = fs p"
  using handle_partial_paths[of dir d] by (auto simp: discard_def fs_remove_def)

lemma install_effect:
  assumes h: "handle_ok dir d" and i: "install_module api os fs dir d = (fs', r)"
    and p: "\<not> in_partial dir p" "p \<noteq> installing_path dir (pd_manifest d)"
  shows "fs' p = fs p \<or> fs p = None \<and> installed api dir {pd_manifest d} p (fs' p)"
proof -
  let ?m = "pd_manifest d" and ?tmp = "installing_path dir (pd_manifest d)" and ?final = "path_join dir (wm_name (pd_manifest d))"
  have name: "is_valid_module_name (wm_name ?m)" using h manifest_okD(1) by (auto simp: handle_ok_def)
  consider (same) "fs' = fs" | (dropped) "fs' = discard os fs d"
    | (moved) bs where "fs ?final = None" "word_of_nat (length bs) = wm_size ?m" "module_hash api bs = wm_sha256 ?m"
      "fbind (fs_write os fs ?tmp bs) (\<lambda>fs _. fbind (fs_rename os ''rename into'' fs ?tmp ?final) (\<lambda>fs _.
        (discard os fs d, Inr ?final))) = (fs', r)"
    using i by (auto simp: install_module_def Let_def installing_path_def is_file_def split: if_splits sum.splits)
  then show ?thesis
  proof cases
    case moved
    note frame = discard_frame[OF h p(1)]
    from moved(4) show ?thesis
    proof (cases rule: fbind_cases)
      case (fail e)
      then show ?thesis using fs_write_frame[OF fail(1)] p(2) by metis
    next
      case (ok fs1 x)
      have fs1: "fs1 p = fs p" using fs_write_frame[OF ok(1)] p(2) by metis
      have tmp: "fs1 ?tmp = Some bs" using ok(1) by (auto simp: fs_write_def split: option.splits)
      from ok(2) show ?thesis
      proof (cases rule: fbind_cases)
        case (fail e)
        then show ?thesis using fs1 by (auto simp: fs_rename_def split: option.splits)
      next
        case (ok fs2 y)
        then have "fs2 = (fs1(?tmp := None))(?final \<mapsto> bs)" "fs' = discard os fs2 d"
          using tmp by (auto simp: fs_rename_def split: option.splits)
        then show ?thesis using frame fs1 p(2) moved(1-3) by (auto simp: installed_def)
      qed
    qed
  qed (use discard_frame[OF h p(1)] in auto)
qed

lemma store_inv_frame:
  assumes "store_inv api dir fs0 Ms st" "\<And>p. \<not> in_partial dir p \<Longrightarrow> ds_fs st' p = ds_fs st p"
    "\<And>d. ds_handle st' = Some d \<Longrightarrow> handle_ok dir d \<and> pd_manifest d \<in> Ms"
  shows "store_inv api dir fs0 Ms st'"
  using assms by (simp add: store_inv_def)

lemma store_step:
  assumes inv: "store_inv api dir fs0 Ms st" and ev: "benign dir Ms ev"
  shows "store_inv api dir fs0 Ms (dl_step api dir st ev)"
proof -
  have handle: "handle_ok dir d \<and> pd_manifest d \<in> Ms" if "ds_handle st = Some d" for d using inv that by (simp add: store_inv_def)
  have keep: "ds_fs st p = fs0 p \<or> fs0 p = None \<and> installed api dir Ms p (ds_fs st p)"
    if "\<not> in_partial dir p" "p \<notin> installing_path dir ` Ms" for p using inv that by (simp add: store_inv_def)
  show ?thesis
  proof (cases ev)
    case (Deliver os i data)
    show ?thesis
    proof (cases "ds_handle st")
      case (Some d)
      obtain fs' d' r where w: "write_chunk api os (ds_fs st) d i data = (fs', d', r)" by (metis prod_cases3)
      note h = conjunct1[OF handle[OF Some]]
      show ?thesis by (rule store_inv_frame[OF inv])
        (use handle[OF Some] write_chunk_handle[OF h w] Some Deliver w in auto)
    qed (use inv Deliver in auto)
  next
    case (Reopen os m)
    obtain fs' r where op: "open_download api os (ds_fs st) dir m = (fs', r)" by fastforce
    have m: "manifest_ok m" "m \<in> Ms" using Reopen ev by auto
    show ?thesis by (rule store_inv_frame[OF inv])
      (use open_download_handle[OF m(1) op] m(2) Reopen op in \<open>auto split: sum.splits\<close>)
  next
    case (Install os)
    show ?thesis
    proof (cases "ds_handle st")
      case (Some d)
      obtain fs' r where i: "install_module api os (ds_fs st) dir d = (fs', r)" by fastforce
      have "fs' p = fs0 p \<or> fs0 p = None \<and> installed api dir Ms p (fs' p)"
        if "\<not> in_partial dir p" "p \<notin> installing_path dir ` Ms" for p
        using install_effect[OF _ i that(1)] handle[OF Some] keep[OF that] that(2) unfolding installed_def by fastforce
      then show ?thesis using Install Some i by (simp add: store_inv_def)
    qed (use inv Install in auto)
  next
    case (Damage p c)
    then show ?thesis using inv ev by (auto simp: store_inv_def)
  qed
qed

interpretation store: invariant_machine "dl_step api dir" "benign dir Ms" "store_inv api dir fs0 Ms" for api dir fs0 Ms
  by unfold_locales (rule store_step)

lemma store_start: "store_inv api dir fs0 Ms (dl_start fs0)"
  by (simp add: store_inv_def dl_start_def)

end
