(* ===== verification/WasmServe.thy ===== *)
theory WasmServe
  imports WasmInstall
begin

text \<open>
  The server side of WASM module distribution, the second part of \<open>wasm_sync/mod.rs\<close>, with
  \<open>WasmModuleStore\<close> of \<open>tasks/wasm_runtime.rs\<close>: the cache of manifests with its index by content
  hash, the inventory, and the answers to the two requests. A peer's disk is its files with their
  modification times, the entries \<open>read_dir\<close> lists, and what the operating system answers.
\<close>

section \<open>Data\<close>

record disk =
  dk_fs :: fs
  dk_mtime :: "string \<Rightarrow> nat option"
  dk_entries :: "string list"
  dk_os :: os

record cached_manifest =
  cm_mtime :: "nat option"
  cm_size :: u64
  cm_manifest :: wasm_manifest

record manifest_cache =
  mc_by_path :: "string \<Rightarrow> cached_manifest option"
  mc_by_sha256 :: "string \<Rightarrow> string option"

definition empty_cache :: manifest_cache where
  "empty_cache = \<lparr>mc_by_path = (\<lambda>_. None), mc_by_sha256 = (\<lambda>_. None)\<rparr>"

datatype wasm_sync_request = ReqManifest string | ReqChunk string u32

datatype wasm_sync_response =
    RespManifest "wasm_manifest option"
  | RespChunk string u32 bytes
  | RespNotFound
  | RespInvalid string
  | RespError download_error

record module_summary =
  su_name :: string
  su_sha256 :: string
  su_size :: u64

record inventory_announcement =
  ia_node_id :: string
  ia_modules :: "module_summary list"

section \<open>The module store\<close>

definition is_module_file :: "string \<Rightarrow> bool" where
  "is_module_file name \<longleftrightarrow> ends_with name ''.wasm'' \<or> ends_with name ''.wat''"

definition store_list :: "disk \<Rightarrow> string \<Rightarrow> string list" where
  "store_list dk dir =
     sort (filter is_module_file (filter utf8_ok (filter (\<lambda>n. is_file (dk_fs dk) (path_join dir n)) (dk_entries dk))))"

definition bare_name :: "string \<Rightarrow> bool" where
  "bare_name name \<longleftrightarrow>
     \<not> (name = [] \<or> name = ''..'' \<or> starts_with name ''.'' \<or> CHR ''/'' \<in> set name \<or> CHR 0x5C \<in> set name \<or> contains_str name ''..'')"

datatype store_load_error = NotBareName string | ReadFailed string download_error | NoSuchModule string

definition store_load :: "disk \<Rightarrow> string \<Rightarrow> string \<Rightarrow> store_load_error + bytes" where
  "store_load dk dir name =
     (if \<not> bare_name name then Inl (NotBareName name)
      else
        (case find (is_file (dk_fs dk)) [path_join dir name, path_join dir (name @ ''.wasm''), path_join dir (name @ ''.wat'')] of
           Some candidate \<Rightarrow>
             (case fs_read (dk_os dk) (dk_fs dk) (ReadWhole candidate) candidate of
                Inl e \<Rightarrow> Inl (ReadFailed candidate e) | Inr b \<Rightarrow> Inr b)
         | None \<Rightarrow> Inl (NoSuchModule name)))"

section \<open>The manifest cache\<close>

text \<open>\<open>Path::file_name\<close> and the test \<open>path.parent() == Some(store.dir())\<close>.\<close>

definition file_name :: "string \<Rightarrow> string option" where
  "file_name p =
     (let n = (case rsplit_once (CHR ''/'') p of Some (_, n) \<Rightarrow> n | None \<Rightarrow> p) in
      if n = [] \<or> n = ''..'' then None else Some n)"

definition parent_is :: "string \<Rightarrow> string \<Rightarrow> bool" where
  "parent_is p dir = (case file_name p of None \<Rightarrow> False | Some n \<Rightarrow> p = path_join dir n)"

definition cache_lookup :: "manifest_cache \<Rightarrow> string \<Rightarrow> nat option \<Rightarrow> u64 \<Rightarrow> wasm_manifest option" where
  "cache_lookup cache path mtime fsize =
     (case mc_by_path cache path of
        Some cached \<Rightarrow> if cm_mtime cached = mtime \<and> cm_size cached = fsize then Some (cm_manifest cached) else None
      | None \<Rightarrow> None)"

definition cache_insert :: "manifest_cache \<Rightarrow> string \<Rightarrow> nat option \<Rightarrow> u64 \<Rightarrow> wasm_manifest \<Rightarrow> manifest_cache" where
  "cache_insert cache path mtime fsize manifest =
     (let previous = (case mc_by_path cache path of
            Some p \<Rightarrow> if wm_sha256 (cm_manifest p) \<noteq> wm_sha256 manifest then Some (wm_sha256 (cm_manifest p)) else None
          | None \<Rightarrow> None);
          index = (case previous of Some sha \<Rightarrow> (mc_by_sha256 cache)(sha := None) | None \<Rightarrow> mc_by_sha256 cache) in
      cache\<lparr>mc_by_sha256 := index(wm_sha256 manifest \<mapsto> path),
            mc_by_path := (mc_by_path cache)(path \<mapsto> \<lparr>cm_mtime = mtime, cm_size = fsize, cm_manifest = manifest\<rparr>)\<rparr>)"

definition manifest_for_file :: "wasm_api \<Rightarrow> disk \<Rightarrow> manifest_cache \<Rightarrow> string \<Rightarrow> manifest_cache \<times> (download_error + wasm_manifest)" where
  "manifest_for_file api dk cache path =
     (case io_fail (dk_os dk) (StatFile path) ''stat'' path of
        Some e \<Rightarrow> (cache, Inl e)
      | None \<Rightarrow>
     (case dk_fs dk path of
        None \<Rightarrow> (cache, Inl (IoError ''stat'' path NOT_FOUND))
      | Some content \<Rightarrow>
          let mtime = dk_mtime dk path; fsize = word_of_nat (length content) in
          (case cache_lookup cache path mtime fsize of
             Some manifest \<Rightarrow> (cache, Inr manifest)
           | None \<Rightarrow>
               (case (case file_name path of Some n \<Rightarrow> if utf8_ok n then Some n else None | None \<Rightarrow> None) of
                  None \<Rightarrow> (cache, Inl (CodecError ''non-utf8 module file name'' path))
                | Some name \<Rightarrow>
                    (case fs_read (dk_os dk) (dk_fs dk) (ReadWhole path) path of
                       Inl e \<Rightarrow> (cache, Inl e)
                     | Inr bs \<Rightarrow>
                         let manifest = from_bytes api name bs in
                         (cache_insert cache path mtime fsize manifest, Inr manifest))))))"

definition file_has_sha :: "wasm_api \<Rightarrow> disk \<Rightarrow> manifest_cache \<Rightarrow> string \<Rightarrow> string \<Rightarrow> manifest_cache \<times> bool" where
  "file_has_sha api dk cache path sha =
     (case manifest_for_file api dk cache path of
        (cache, Inl _) \<Rightarrow> (cache, False)
      | (cache, Inr manifest) \<Rightarrow> (cache, wm_sha256 manifest = sha))"

fun scan_store :: "wasm_api \<Rightarrow> disk \<Rightarrow> string \<Rightarrow> string \<Rightarrow> manifest_cache \<Rightarrow> string list \<Rightarrow> manifest_cache \<times> string option" where
  "scan_store api dk dir sha cache [] = (cache, None)"
| "scan_store api dk dir sha cache (name # names) =
     (let path = path_join dir name in
      case file_has_sha api dk cache path sha of
        (cache, True) \<Rightarrow> (cache, Some path)
      | (cache, False) \<Rightarrow> scan_store api dk dir sha cache names)"

definition module_path_by_sha256 :: "wasm_api \<Rightarrow> disk \<Rightarrow> string \<Rightarrow> manifest_cache \<Rightarrow> string \<Rightarrow> manifest_cache \<times> string option" where
  "module_path_by_sha256 api dk dir cache sha =
     (case mc_by_sha256 cache sha of
        Some path \<Rightarrow>
          if parent_is path dir then
            (case file_has_sha api dk cache path sha of
               (cache, True) \<Rightarrow> (cache, Some path)
             | (cache, False) \<Rightarrow> scan_store api dk dir sha cache (store_list dk dir))
          else scan_store api dk dir sha cache (store_list dk dir)
      | None \<Rightarrow> scan_store api dk dir sha cache (store_list dk dir))"

fun local_inventory_loop :: "wasm_api \<Rightarrow> disk \<Rightarrow> string \<Rightarrow> manifest_cache \<Rightarrow> string list \<Rightarrow> manifest_cache \<times> module_summary list" where
  "local_inventory_loop api dk dir cache [] = (cache, [])"
| "local_inventory_loop api dk dir cache (name # names) =
     (case manifest_for_file api dk cache (path_join dir name) of
        (cache, Inr manifest) \<Rightarrow>
          (case local_inventory_loop api dk dir cache names of (cache, rest) \<Rightarrow>
             (cache, \<lparr>su_name = name, su_sha256 = wm_sha256 manifest, su_size = wm_size manifest\<rparr> # rest))
      | (cache, Inl _) \<Rightarrow> local_inventory_loop api dk dir cache names)"

definition local_inventory :: "wasm_api \<Rightarrow> disk \<Rightarrow> string \<Rightarrow> manifest_cache \<Rightarrow> manifest_cache \<times> module_summary list" where
  "local_inventory api dk dir cache = local_inventory_loop api dk dir cache (store_list dk dir)"

section \<open>Requests\<close>

definition serve_manifest :: "wasm_api \<Rightarrow> disk \<Rightarrow> string \<Rightarrow> manifest_cache \<Rightarrow> string \<Rightarrow> manifest_cache \<times> wasm_sync_response" where
  "serve_manifest api dk dir cache name =
     (if \<not> is_valid_module_name name then (cache, RespInvalid name)
      else
        let path = path_join dir name in
        if \<not> is_file (dk_fs dk) path then (cache, RespManifest None)
        else
          (case manifest_for_file api dk cache path of
             (cache, Inr manifest) \<Rightarrow> (cache, RespManifest (Some manifest))
           | (cache, Inl e) \<Rightarrow> (cache, RespError e)))"

definition read_verified_chunk :: "wasm_api \<Rightarrow> disk \<Rightarrow> string \<Rightarrow> wasm_manifest \<Rightarrow> u32 \<Rightarrow> download_error + bytes option" where
  "read_verified_chunk api dk path manifest index =
     (if chunk_count manifest \<le> index then Inr None
      else
        rbind (file_open (dk_os dk) (dk_fs dk) (OpenRead path) path) (\<lambda>b.
        rbind (read_exact_at (dk_os dk) path b (unat (chunk_offset manifest index)) (chunk_len manifest index)) (\<lambda>data.
        if verify_chunk api manifest index data then Inr (Some data) else Inl (ChunkHashMismatch index))))"

definition chunk_response :: "string \<Rightarrow> u32 \<Rightarrow> download_error + bytes option \<Rightarrow> wasm_sync_response" where
  "chunk_response sha index r =
     (case r of Inr (Some data) \<Rightarrow> RespChunk sha index data | Inr None \<Rightarrow> RespNotFound | Inl e \<Rightarrow> RespError e)"

definition serve_chunk :: "wasm_api \<Rightarrow> disk \<Rightarrow> string \<Rightarrow> manifest_cache \<Rightarrow> string \<Rightarrow> u32 \<Rightarrow> manifest_cache \<times> wasm_sync_response" where
  "serve_chunk api dk dir cache sha index =
     (if \<not> is_sha256 sha then (cache, RespInvalid sha)
      else
        (case module_path_by_sha256 api dk dir cache sha of
           (cache, Some path) \<Rightarrow>
             (case manifest_for_file api dk cache path of
                (cache, Inl e) \<Rightarrow> (cache, RespError e)
              | (cache, Inr manifest) \<Rightarrow> (cache, chunk_response sha index (read_verified_chunk api dk path manifest index)))
         | (cache, None) \<Rightarrow>
             (cache, chunk_response sha index (read_partial_chunk api (dk_os dk) (dk_fs dk) dir sha index))))"

definition process_wasm_sync_request :: "wasm_api \<Rightarrow> disk \<Rightarrow> string \<Rightarrow> manifest_cache \<Rightarrow> wasm_sync_request \<Rightarrow> manifest_cache \<times> wasm_sync_response" where
  "process_wasm_sync_request api dk dir cache request =
     (case request of
        ReqManifest name \<Rightarrow> serve_manifest api dk dir cache name
      | ReqChunk sha index \<Rightarrow> serve_chunk api dk dir cache sha index)"

section \<open>The cache agrees with the files\<close>

text \<open>An entry whose modification time and size are those of the file is the manifest of the file.\<close>

definition cache_ok :: "wasm_api \<Rightarrow> disk \<Rightarrow> manifest_cache \<Rightarrow> bool" where
  "cache_ok api dk cache \<longleftrightarrow>
     (\<forall>path c content. mc_by_path cache path = Some c \<longrightarrow> dk_fs dk path = Some content \<longrightarrow>
        cm_mtime c = dk_mtime dk path \<longrightarrow> cm_size c = word_of_nat (length content) \<longrightarrow>
        (\<exists>n. file_name path = Some n \<and> cm_manifest c = from_bytes api n content))"

definition disk_works :: "disk \<Rightarrow> bool" where
  "disk_works dk \<longleftrightarrow> (\<forall>call. os_error (dk_os dk) call = None)"

definition file_manifest :: "wasm_api \<Rightarrow> disk \<Rightarrow> string \<Rightarrow> wasm_manifest \<Rightarrow> bool" where
  "file_manifest api dk path m \<longleftrightarrow>
     (\<exists>n content. file_name path = Some n \<and> dk_fs dk path = Some content \<and> m = from_bytes api n content)"

lemma cache_ok_empty: "cache_ok api dk empty_cache"
  by (simp add: cache_ok_def empty_cache_def)

lemma cache_insert_ok:
  assumes "cache_ok api dk cache" "file_name path = Some n" "dk_fs dk path = Some content"
  shows "cache_ok api dk (cache_insert cache path (dk_mtime dk path) (word_of_nat (length content)) (from_bytes api n content))"
  using assms by (auto simp: cache_ok_def cache_insert_def Let_def)

lemma cache_lookup_ok:
  assumes "cache_ok api dk cache" "dk_fs dk path = Some content"
    "cache_lookup cache path (dk_mtime dk path) (word_of_nat (length content)) = Some m"
  shows "file_manifest api dk path m"
  using assms by (fastforce simp: cache_ok_def cache_lookup_def file_manifest_def split: option.splits if_splits)

lemma manifest_for_file_ok:
  assumes "cache_ok api dk cache" "manifest_for_file api dk cache path = (cache', r)"
  shows "cache_ok api dk cache'" "r = Inr m \<Longrightarrow> file_manifest api dk path m"
  using assms cache_lookup_ok[OF assms(1)]
  by (auto simp: manifest_for_file_def Let_def file_manifest_def fs_read_def cache_insert_ok split: option.splits if_splits)

lemma manifest_for_file_total:
  assumes "cache_ok api dk cache" "disk_works dk" "dk_fs dk path = Some content" "file_name path = Some n" "utf8_ok n"
  shows "\<exists>cache'. manifest_for_file api dk cache path = (cache', Inr (from_bytes api n content))"
proof (cases "cache_lookup cache path (dk_mtime dk path) (word_of_nat (length content))")
  case (Some m)
  then have "m = from_bytes api n content"
    using cache_lookup_ok[OF assms(1,3) Some] assms(3,4) by (auto simp: file_manifest_def)
  then show ?thesis using Some assms by (simp add: manifest_for_file_def io_fail_def disk_works_def Let_def)
next
  case None
  then show ?thesis using assms by (simp add: manifest_for_file_def io_fail_def disk_works_def Let_def fs_read_def)
qed

lemma file_manifest_sha:
  "file_manifest api dk path m \<Longrightarrow> \<exists>content. dk_fs dk path = Some content \<and> module_hash api content = wm_sha256 m"
  by (auto simp: file_manifest_def from_bytes_def)

section \<open>Lookup by content hash\<close>

definition holds_sha :: "wasm_api \<Rightarrow> disk \<Rightarrow> string \<Rightarrow> string \<Rightarrow> bool" where
  "holds_sha api dk sha path \<longleftrightarrow> (\<exists>content. dk_fs dk path = Some content \<and> module_hash api content = sha)"

lemma file_has_sha_ok:
  assumes "cache_ok api dk cache" "file_has_sha api dk cache path sha = (cache', b)"
  shows "cache_ok api dk cache'" "b \<Longrightarrow> holds_sha api dk sha path"
proof -
  obtain c r where m: "manifest_for_file api dk cache path = (c, r)" by fastforce
  show "cache_ok api dk cache'" "b \<Longrightarrow> holds_sha api dk sha path"
    using manifest_for_file_ok[OF assms(1) m] assms(2) m file_manifest_sha
    by (auto simp: file_has_sha_def holds_sha_def split: sum.splits)
qed

lemma file_has_sha_total:
  assumes "cache_ok api dk cache" "disk_works dk" "file_name path = Some n" "utf8_ok n" "dk_fs dk path = Some content"
  shows "snd (file_has_sha api dk cache path (module_hash api content))"
  using manifest_for_file_total[OF assms(1,2,5,3,4)] by (auto simp: file_has_sha_def from_bytes_def)

lemma scan_store_ok:
  assumes "cache_ok api dk cache" "scan_store api dk dir sha cache names = (cache', r)"
  shows "cache_ok api dk cache' \<and> (\<forall>path. r = Some path \<longrightarrow> holds_sha api dk sha path \<and> path \<in> path_join dir ` set names)"
  using assms
proof (induction names arbitrary: cache)
  case (Cons name names)
  obtain c b where f: "file_has_sha api dk cache (path_join dir name) sha = (c, b)" by fastforce
  note ok = file_has_sha_ok[OF Cons.prems(1) f]
  show ?case using Cons.IH[OF ok(1)] Cons.prems(2) ok f by (cases b) auto
qed simp

lemma scan_store_finds:
  assumes "cache_ok api dk cache" "disk_works dk" "name \<in> set names" "file_name (path_join dir name) = Some n" "utf8_ok n"
    "dk_fs dk (path_join dir name) = Some content"
  shows "snd (scan_store api dk dir (module_hash api content) cache names) \<noteq> None"
  using assms(1,3)
proof (induction names arbitrary: cache)
  case (Cons x names)
  obtain c b where f: "file_has_sha api dk cache (path_join dir x) (module_hash api content) = (c, b)" by fastforce
  show ?case
  proof (cases b)
    case False
    then have "x \<noteq> name" using file_has_sha_total[OF Cons.prems(1) assms(2,4,5,6)] f by auto
    then show ?thesis using Cons.IH[OF file_has_sha_ok(1)[OF Cons.prems(1) f]] Cons.prems(2) f False by simp
  qed (use f in simp)
qed simp

lemma module_path_ok:
  assumes "cache_ok api dk cache" "module_path_by_sha256 api dk dir cache sha = (cache', r)"
  shows "cache_ok api dk cache'" "r = Some path \<Longrightarrow> holds_sha api dk sha path"
proof -
  have scan: "cache_ok api dk cache' \<and> (r = Some path \<longrightarrow> holds_sha api dk sha path)"
    if "cache_ok api dk c" "scan_store api dk dir sha c (store_list dk dir) = (cache', r)" for c
    using scan_store_ok[OF that] by auto
  have both: "cache_ok api dk cache' \<and> (r = Some path \<longrightarrow> holds_sha api dk sha path)"
  proof (cases "mc_by_sha256 cache sha")
    case (Some p)
    obtain c b where f: "file_has_sha api dk cache p sha = (c, b)" by fastforce
    note ok = file_has_sha_ok[OF assms(1) f]
    show ?thesis using assms Some f ok scan[of c] scan[of cache]
      by (cases b) (auto simp: module_path_by_sha256_def split: if_splits)
  qed (use assms scan[of cache] in \<open>auto simp: module_path_by_sha256_def\<close>)
  then show "cache_ok api dk cache'" "r = Some path \<Longrightarrow> holds_sha api dk sha path" by auto
qed

lemma module_path_found:
  assumes "cache_ok api dk cache" "disk_works dk" "name \<in> set (store_list dk dir)" "file_name (path_join dir name) = Some n" "utf8_ok n"
    "dk_fs dk (path_join dir name) = Some content"
  shows "snd (module_path_by_sha256 api dk dir cache (module_hash api content)) \<noteq> None"
proof -
  have scan: "snd (scan_store api dk dir (module_hash api content) c (store_list dk dir)) \<noteq> None" if "cache_ok api dk c" for c
    using scan_store_finds[OF that assms(2-6)] .
  show ?thesis
  proof (cases "mc_by_sha256 cache (module_hash api content)")
    case (Some p)
    obtain c b where f: "file_has_sha api dk cache p (module_hash api content) = (c, b)" by fastforce
    show ?thesis using Some f scan[OF assms(1)] scan[OF file_has_sha_ok(1)[OF assms(1) f]]
      by (cases b) (auto simp: module_path_by_sha256_def)
  qed (use scan[OF assms(1)] in \<open>simp add: module_path_by_sha256_def\<close>)
qed

text \<open>The path that is found has its manifest in the cache.\<close>

definition resolves :: "wasm_api \<Rightarrow> disk \<Rightarrow> manifest_cache \<Rightarrow> string \<Rightarrow> string \<Rightarrow> bool" where
  "resolves api dk cache sha path \<longleftrightarrow>
     (\<exists>m. manifest_for_file api dk cache path = (cache, Inr m) \<and> wm_sha256 m = sha)"

lemma manifest_for_file_again:
  "manifest_for_file api dk cache path = (cache', Inr m) \<Longrightarrow> manifest_for_file api dk cache' path = (cache', Inr m)"
  by (auto simp: manifest_for_file_def Let_def cache_insert_def cache_lookup_def fs_read_def split: option.splits if_splits)

lemma file_has_sha_resolves: "file_has_sha api dk cache path sha = (cache', True) \<Longrightarrow> resolves api dk cache' sha path"
  by (auto simp: file_has_sha_def resolves_def split: prod.splits sum.splits dest: manifest_for_file_again)

lemma scan_store_resolves: "scan_store api dk dir sha cache names = (cache', Some path) \<Longrightarrow> resolves api dk cache' sha path"
proof (induction names arbitrary: cache)
  case (Cons x names)
  obtain c b where f: "file_has_sha api dk cache (path_join dir x) sha = (c, b)" by fastforce
  show ?case using Cons f by (cases b) (auto dest: file_has_sha_resolves)
qed simp

lemma module_path_resolves:
  assumes "module_path_by_sha256 api dk dir cache sha = (cache', Some path)"
  shows "resolves api dk cache' sha path"
proof (cases "mc_by_sha256 cache sha")
  case (Some p)
  obtain c b where f: "file_has_sha api dk cache p sha = (c, b)" by fastforce
  show ?thesis using assms Some f
    by (cases b) (auto simp: module_path_by_sha256_def split: if_splits dest: file_has_sha_resolves scan_store_resolves)
qed (use assms in \<open>auto simp: module_path_by_sha256_def dest: scan_store_resolves\<close>)

section \<open>What a peer serves\<close>

lemma read_verified_chunk_ok:
  assumes "file_manifest api dk path m" "read_verified_chunk api dk path m i = Inr (Some data)"
  shows "\<exists>b. dk_fs dk path = Some b \<and> data = chunk_slice m b i"
  using assms
  by (auto simp: read_verified_chunk_def rbind_Inr_iff file_open_def read_exact_at_def chunk_slice_def
      split: if_splits option.splits)

text \<open>A chunk that is served is a chunk of a file with the hash that was asked for, or of the part
  file of a download with that hash.\<close>

definition from_partial :: "disk \<Rightarrow> string \<Rightarrow> string \<Rightarrow> u32 \<Rightarrow> bytes \<Rightarrow> bool" where
  "from_partial dk dir sha i data \<longleftrightarrow>
     (\<exists>b m. dk_fs dk (part_path dir sha) = Some b \<and> wm_sha256 m = sha \<and> data = chunk_slice m b i)"

lemma read_partial_chunk_ok:
  "read_partial_chunk api os fs dir sha i = Inr (Some data) \<Longrightarrow>
    \<exists>b m. fs (part_path dir sha) = Some b \<and> wm_sha256 m = sha \<and> data = chunk_slice m b i"
  by (auto simp: read_partial_chunk_def rbind_Inr_iff file_open_def read_exact_at_def chunk_slice_def
      split: if_splits option.splits)

lemma serve_chunk_ok:
  assumes c: "cache_ok api dk cache" and s: "serve_chunk api dk dir cache sha i = (cache', resp)"
  shows "cache_ok api dk cache'"
    "resp = RespChunk s j data \<Longrightarrow> s = sha \<and> j = i \<and>
      ((\<exists>path n b. dk_fs dk path = Some b \<and> module_hash api b = sha \<and> data = chunk_slice (from_bytes api n b) b i) \<or>
       from_partial dk dir sha i data)"
proof -
  obtain c1 r where mp: "module_path_by_sha256 api dk dir cache sha = (c1, r)" by fastforce
  note ok1 = module_path_ok(1)[OF c mp]
  have both: "cache_ok api dk cache' \<and> (resp = RespChunk s j data \<longrightarrow> s = sha \<and> j = i \<and>
      ((\<exists>path n b. dk_fs dk path = Some b \<and> module_hash api b = sha \<and> data = chunk_slice (from_bytes api n b) b i) \<or>
       from_partial dk dir sha i data))"
  proof (cases r)
    case None
    then show ?thesis using s mp ok1 c read_partial_chunk_ok[of api "dk_os dk" "dk_fs dk" dir sha i]
      by (auto simp: serve_chunk_def chunk_response_def from_partial_def split: if_splits sum.splits option.splits)
  next
    case (Some path)
    obtain m where m: "manifest_for_file api dk c1 path = (c1, Inr m)" "wm_sha256 m = sha"
      using module_path_resolves[OF mp[unfolded Some]] by (auto simp: resolves_def)
    note fm = manifest_for_file_ok(2)[OF ok1 m(1) refl]
    have "\<exists>path n b. dk_fs dk path = Some b \<and> module_hash api b = sha \<and> data = chunk_slice (from_bytes api n b) b i"
      if r: "read_verified_chunk api dk path m i = Inr (Some data)"
      using read_verified_chunk_ok[OF fm r] fm m(2) unfolding file_manifest_def
      by (metis from_bytes_sel(2) option.inject)
    then show ?thesis using s mp m ok1 c Some
      by (auto simp: serve_chunk_def chunk_response_def split: if_splits sum.splits option.splits)
  qed
  then show "cache_ok api dk cache'" "resp = RespChunk s j data \<Longrightarrow> s = sha \<and> j = i \<and>
      ((\<exists>path n b. dk_fs dk path = Some b \<and> module_hash api b = sha \<and> data = chunk_slice (from_bytes api n b) b i) \<or>
       from_partial dk dir sha i data)" by auto
qed

lemma serve_manifest_ok:
  assumes c: "cache_ok api dk cache" and s: "serve_manifest api dk dir cache name = (cache', resp)"
  shows "cache_ok api dk cache'" "resp = RespManifest (Some m) \<Longrightarrow> file_manifest api dk (path_join dir name) m"
proof -
  obtain c1 r where mf: "manifest_for_file api dk cache (path_join dir name) = (c1, r)" by fastforce
  show "cache_ok api dk cache'" "resp = RespManifest (Some m) \<Longrightarrow> file_manifest api dk (path_join dir name) m"
    using s c mf manifest_for_file_ok[OF c mf]
    by (auto simp: serve_manifest_def Let_def split: if_splits sum.splits)
qed

lemma process_request_ok:
  assumes "cache_ok api dk cache"
  shows "cache_ok api dk (fst (process_wasm_sync_request api dk dir cache req))"
proof (cases req)
  case (ReqManifest name)
  obtain c r where "serve_manifest api dk dir cache name = (c, r)" by fastforce
  then show ?thesis using ReqManifest serve_manifest_ok(1)[OF assms] by (simp add: process_wasm_sync_request_def)
next
  case (ReqChunk sha i)
  obtain c r where "serve_chunk api dk dir cache sha i = (c, r)" by fastforce
  then show ?thesis using ReqChunk serve_chunk_ok(1)[OF assms] by (simp add: process_wasm_sync_request_def)
qed

text \<open>A peer that has the module serves its manifest and every chunk of it.\<close>

definition seeds :: "disk \<Rightarrow> string \<Rightarrow> string \<Rightarrow> bytes \<Rightarrow> bool" where
  "seeds dk dir name bs \<longleftrightarrow>
     disk_works dk \<and> is_valid_module_name name \<and> utf8_ok name \<and> name \<in> set (dk_entries dk) \<and> dk_fs dk (path_join dir name) = Some bs"

lemma file_name_module:
  assumes "is_valid_module_name name"
  shows "file_name (path_join dir name) = Some name"
proof -
  have n: "CHR ''/'' \<notin> set name" "name \<noteq> []" "name \<noteq> ''..''"
    using assms by (auto simp: is_valid_module_name_def ends_with_def starts_with_def)
  have none: "rsplit_once (CHR ''/'') name = None" using n(1) by (simp add: rsplit_once_None)
  have "rsplit_once (CHR ''/'') (store_base dir @ name) = Some (x, name)" if "store_base dir = x @ ''/''" for x
    using rsplit_once_append[OF n(1), of x] that by simp
  moreover have "store_base dir = [] \<or> (\<exists>x. store_base dir = x @ ''/'')"
    by (cases dir rule: rev_cases) (auto simp: store_base_def ends_with_char)
  ultimately show ?thesis using n none by (auto simp: module_path(1)[OF assms] file_name_def Let_def)
qed

lemma serve_manifest_seed:
  assumes "cache_ok api dk cache" "seeds dk dir name bs"
  shows "\<exists>c. serve_manifest api dk dir cache name = (c, RespManifest (Some (from_bytes api name bs)))"
  using assms manifest_for_file_total[OF assms(1), of "path_join dir name" bs name]
  by (auto simp: seeds_def serve_manifest_def is_file_def file_name_module)

lemma read_verified_chunk_total:
  assumes "disk_works dk" "dk_fs dk path = Some b" "i < chunk_count m" "unat (chunk_offset m i) + chunk_len m i \<le> length b"
    "verify_chunk api m i (chunk_slice m b i)"
  shows "read_verified_chunk api dk path m i = Inr (Some (chunk_slice m b i))"
  using assms
  by (auto simp: read_verified_chunk_def file_open_def io_fail_def disk_works_def read_exact_at_def chunk_slice_def)

definition module_ok :: "wasm_api \<Rightarrow> string \<Rightarrow> bytes \<Rightarrow> bool" where
  "module_ok api name bs \<longleftrightarrow>
     is_valid_module_name name \<and> bs \<noteq> [] \<and> length bs \<le> 268435456 \<and> length (wa_sha256 api bs) = 32"

lemma module_okD:
  assumes "module_ok api name bs"
  shows "manifest_ok (from_bytes api name bs)" "unat (wm_size (from_bytes api name bs)) = length bs"
    "i < chunk_count (from_bytes api name bs) \<Longrightarrow> verify_chunk api (from_bytes api name bs) i (chunk_slice (from_bytes api name bs) bs i)"
  using assms from_bytes_ok[of name bs api] from_bytes_verifies[of name bs api i] by (auto simp: module_ok_def)

lemma serve_chunk_seed:
  assumes c: "cache_ok api dk cache" and sd: "seeds dk dir name bs" and bs: "module_ok api name bs"
    and i: "i < chunk_count (from_bytes api name bs)"
    and unique: "\<And>path b. dk_fs dk path = Some b \<Longrightarrow> module_hash api b = module_hash api bs \<Longrightarrow> b = bs"
  shows "\<exists>c'. serve_chunk api dk dir cache (module_hash api bs) i =
    (c', RespChunk (module_hash api bs) i (chunk_slice (from_bytes api name bs) bs i))"
proof -
  let ?m = "from_bytes api name bs" and ?sha = "module_hash api bs"
  have works: "disk_works dk" and content: "dk_fs dk (path_join dir name) = Some bs" and u: "utf8_ok name"
    and v: "is_valid_module_name name" using sd by (auto simp: seeds_def)
  have "name \<in> set (store_list dk dir)" using sd by (auto simp: seeds_def store_list_def is_module_file_def is_file_def is_valid_module_name_def)
  then have "snd (module_path_by_sha256 api dk dir cache ?sha) \<noteq> None"
    by (rule module_path_found[OF c works _ file_name_module[OF v] u content])
  then obtain c1 path where mp: "module_path_by_sha256 api dk dir cache ?sha = (c1, Some path)"
    by (metis not_None_eq prod.collapse)
  obtain m where m: "manifest_for_file api dk c1 path = (c1, Inr m)" "wm_sha256 m = ?sha"
    using module_path_resolves[OF mp] by (auto simp: resolves_def)
  obtain n where n: "dk_fs dk path = Some bs" "m = from_bytes api n bs"
    using manifest_for_file_ok(2)[OF module_path_ok(1)[OF c mp] m(1) refl] m(2) unique by (auto simp: file_manifest_def)
  note ok = module_okD[OF bs]
  have "read_verified_chunk api dk path (?m\<lparr>wm_name := n\<rparr>) i = Inr (Some (chunk_slice ?m bs i))"
    using read_verified_chunk_total[OF works n(1), of i "?m\<lparr>wm_name := n\<rparr>" api] i ok(2,3) chunk_ends[OF ok(1) i] by simp
  moreover have "m = ?m\<lparr>wm_name := n\<rparr>" using n(2) from_bytes_rename by metis
  moreover have "is_sha256 ?sha" using bs by (simp add: module_ok_def module_hash_is_sha256)
  ultimately show ?thesis using mp m(1) by (simp add: serve_chunk_def chunk_response_def)
qed

end
