(* ===== verification/WasmSync.thy ===== *)
theory WasmSync
  imports WasmServe RuntimeConfig
begin

text \<open>
  The client side of WASM module distribution, \<open>wasm_sync/service.rs\<close>: the table of providers that
  announcements fill, the plan of what to download, and the download of one module with its
  rotation over the providers. The remote call is the argument \<open>rpc\<close>, which changes the state of the
  network; instants are nanoseconds. What happens during a download (announcements that arrived
  before a chunk, the clock, a shutdown, peers known to be dead, the operating system) is the
  record \<open>sync_env\<close>.
\<close>

section \<open>Providers\<close>

record provider_entry =
  pe_name :: string
  pe_size :: u64
  pe_nodes :: "(string, nat) cf"

type_synonym providers = "(string, provider_entry) cf"

definition provider_ttl :: "runtime_config \<Rightarrow> nat" where
  "provider_ttl cfg = min (unat (wasm_sync_announce_interval_secs cfg) * 10 ^ 9 * 3) (2 ^ 64 * 10 ^ 9 - 1)"

definition record_module :: "string \<Rightarrow> nat \<Rightarrow> providers \<Rightarrow> module_summary \<Rightarrow> providers" where
  "record_module node now providers m =
     (if \<not> is_valid_module_name (su_name m) \<or> su_size m = 0 then providers
      else
        let entry = (case cf_get providers (su_sha256 m) of
               Some e \<Rightarrow> e
             | None \<Rightarrow> \<lparr>pe_name = su_name m, pe_size = su_size m, pe_nodes = []\<rparr>) in
        cf_put providers (su_sha256 m) (entry\<lparr>pe_nodes := cf_put (pe_nodes entry) node now\<rparr>))"

definition record_announcement :: "nat \<Rightarrow> providers \<Rightarrow> inventory_announcement \<Rightarrow> providers" where
  "record_announcement now providers a = foldl (record_module (ia_node_id a) now) providers (ia_modules a)"

definition prune_providers :: "nat \<Rightarrow> nat \<Rightarrow> providers \<Rightarrow> providers" where
  "prune_providers now ttl providers =
     filter (\<lambda>(_, entry). pe_nodes entry \<noteq> [])
       (map (\<lambda>(sha, entry). (sha, entry\<lparr>pe_nodes := filter (\<lambda>(_, last_seen). now - last_seen < ttl) (pe_nodes entry)\<rparr>)) providers)"

definition drain_announcements :: "string \<Rightarrow> nat \<Rightarrow> providers \<Rightarrow> inventory_announcement list \<Rightarrow> providers" where
  "drain_announcements self_id now providers pending =
     foldl (\<lambda>p a. if ia_node_id a \<noteq> self_id then record_announcement now p a else p) providers pending"

definition alive_sources :: "(string \<Rightarrow> bool) \<Rightarrow> provider_entry \<Rightarrow> string \<Rightarrow> string list" where
  "alive_sources dead entry self_id = sort (filter (\<lambda>node. node \<noteq> self_id \<and> \<not> dead node) (map fst (pe_nodes entry)))"

definition current_sources :: "(string \<Rightarrow> bool) \<Rightarrow> providers \<Rightarrow> string \<Rightarrow> string \<Rightarrow> string list" where
  "current_sources dead providers sha self_id =
     (case cf_get providers sha of Some entry \<Rightarrow> alive_sources dead entry self_id | None \<Rightarrow> [])"

section \<open>The plan\<close>

fun local_hashes :: "wasm_api \<Rightarrow> disk \<Rightarrow> string \<Rightarrow> manifest_cache \<Rightarrow> string list \<Rightarrow> manifest_cache \<times> (string \<Rightarrow> string option)" where
  "local_hashes api dk dir cache [] = (cache, Map.empty)"
| "local_hashes api dk dir cache (name # names) =
     (case manifest_for_file api dk cache (path_join dir name) of
        (cache, Inl _) \<Rightarrow> local_hashes api dk dir cache names
      | (cache, Inr m) \<Rightarrow>
          (case local_hashes api dk dir cache names of (cache, hs) \<Rightarrow> (cache, hs(name \<mapsto> wm_sha256 m))))"

definition plan_wanted_modules :: "wasm_api \<Rightarrow> disk \<Rightarrow> string \<Rightarrow> manifest_cache \<Rightarrow> providers \<Rightarrow>
    manifest_cache \<times> (string \<times> module_summary) list" where
  "plan_wanted_modules api dk dir cache providers =
     (case local_hashes api dk dir cache (store_list dk dir) of (cache, hs) \<Rightarrow>
        let wanted = List.map_filter (\<lambda>(sha, entry).
              case hs (pe_name entry) of
                None \<Rightarrow> Some (sha, \<lparr>su_name = pe_name entry, su_sha256 = sha, su_size = pe_size entry\<rparr>)
              | Some _ \<Rightarrow> None) providers in
        (cache, sort_key (\<lambda>(sha, s). (su_name s, sha)) wanted))"

section \<open>Downloading\<close>

datatype fetch_error =
    NoProviders
  | ManifestMismatch string
  | ManifestInvalid string manifest_error
  | NoLongerAvailable string
  | UnexpectedResponse string wasm_sync_response
  | CallFailed string string

datatype sync_error = ManifestFetchFailed fetch_error | DownloadFailed download_error

datatype download_outcome = Installed string | Stalled u32 u32 | Shutdown

fun fetch_manifest_loop :: "('n \<Rightarrow> string \<Rightarrow> wasm_sync_request \<Rightarrow> 'n \<times> wasm_sync_response result) \<Rightarrow> 'n \<Rightarrow> module_summary \<Rightarrow>
    fetch_error \<Rightarrow> string list \<Rightarrow> 'n \<times> (sync_error + wasm_manifest)" where
  "fetch_manifest_loop rpc net summary last_error [] = (net, Inl (ManifestFetchFailed last_error))"
| "fetch_manifest_loop rpc net summary last_error (source # sources) =
     (case rpc net source (ReqManifest (su_name summary)) of
        (net, Inr (RespManifest (Some m))) \<Rightarrow>
          if wm_name m \<noteq> su_name summary \<or> wm_sha256 m \<noteq> su_sha256 summary
          then fetch_manifest_loop rpc net summary (ManifestMismatch source) sources
          else (case validate_manifest m of
                  Inl e \<Rightarrow> fetch_manifest_loop rpc net summary (ManifestInvalid source e) sources
                | Inr _ \<Rightarrow> (net, Inr m))
      | (net, Inr (RespManifest None)) \<Rightarrow> fetch_manifest_loop rpc net summary (NoLongerAvailable source) sources
      | (net, Inr other) \<Rightarrow> fetch_manifest_loop rpc net summary (UnexpectedResponse source other) sources
      | (net, Inl e) \<Rightarrow> fetch_manifest_loop rpc net summary (CallFailed source e) sources)"

definition fetch_manifest :: "('n \<Rightarrow> string \<Rightarrow> wasm_sync_request \<Rightarrow> 'n \<times> wasm_sync_response result) \<Rightarrow> 'n \<Rightarrow> module_summary \<Rightarrow>
    string list \<Rightarrow> 'n \<times> (sync_error + wasm_manifest)" where
  "fetch_manifest rpc net summary sources = fetch_manifest_loop rpc net summary NoProviders sources"

record sync_env =
  se_shutdown :: "u32 \<Rightarrow> bool"
  se_pending :: "u32 \<Rightarrow> inventory_announcement list"
  se_now :: "u32 \<Rightarrow> nat"
  se_dead :: "string \<Rightarrow> bool"
  se_os :: os

text \<open>The providers in the order in which chunk \<open>i\<close> is requested from them.\<close>

definition rotated_sources :: "u32 \<Rightarrow> string list \<Rightarrow> string list" where
  "rotated_sources i sources =
     map (\<lambda>attempt. sources ! ((unat i + attempt) mod length sources)) [0 ..< length sources]"

fun try_sources :: "wasm_api \<Rightarrow> os \<Rightarrow> ('n \<Rightarrow> string \<Rightarrow> wasm_sync_request \<Rightarrow> 'n \<times> wasm_sync_response result) \<Rightarrow> 'n \<Rightarrow> fs \<Rightarrow>
    partial_download \<Rightarrow> u32 \<Rightarrow> string list \<Rightarrow> 'n \<times> fs \<times> partial_download \<times> bool" where
  "try_sources api os rpc net fs d i [] = (net, fs, d, False)"
| "try_sources api os rpc net fs d i (source # sources) =
     (case rpc net source (ReqChunk (wm_sha256 (pd_manifest d)) i) of
        (net, Inr (RespChunk _ j data)) \<Rightarrow>
          if j = i then
            (case write_chunk api os fs d i data of
               (fs, d, Inr _) \<Rightarrow> (net, fs, d, True)
             | (fs, d, Inl _) \<Rightarrow> try_sources api os rpc net fs d i sources)
          else try_sources api os rpc net fs d i sources
      | (net, _) \<Rightarrow> try_sources api os rpc net fs d i sources)"

datatype loop_end = LoopShutdown | LoopDone nat

fun chunk_loop :: "wasm_api \<Rightarrow> sync_env \<Rightarrow> ('n \<Rightarrow> string \<Rightarrow> wasm_sync_request \<Rightarrow> 'n \<times> wasm_sync_response result) \<Rightarrow> string \<Rightarrow>
    'n \<Rightarrow> fs \<Rightarrow> partial_download \<Rightarrow> providers \<Rightarrow> nat \<Rightarrow> u32 list \<Rightarrow>
    'n \<times> fs \<times> partial_download \<times> providers \<times> loop_end" where
  "chunk_loop api env rpc self_id net fs d providers unfetchable [] = (net, fs, d, providers, LoopDone unfetchable)"
| "chunk_loop api env rpc self_id net fs d providers unfetchable (i # is) =
     (if se_shutdown env i then (net, fs, d, providers, LoopShutdown)
      else
        let providers = drain_announcements self_id (se_now env i) providers (se_pending env i);
            sources = current_sources (se_dead env) providers (wm_sha256 (pd_manifest d)) self_id in
        if sources = [] then chunk_loop api env rpc self_id net fs d providers (unfetchable + 1) is
        else
          (case try_sources api (se_os env) rpc net fs d i (rotated_sources i sources) of
             (net, fs, d, fetched) \<Rightarrow>
               chunk_loop api env rpc self_id net fs d providers (if fetched then unfetchable else unfetchable + 1) is))"

definition download_module :: "wasm_api \<Rightarrow> sync_env \<Rightarrow> ('n \<Rightarrow> string \<Rightarrow> wasm_sync_request \<Rightarrow> 'n \<times> wasm_sync_response result) \<Rightarrow> string \<Rightarrow>
    string \<Rightarrow> 'n \<Rightarrow> fs \<Rightarrow> providers \<Rightarrow> module_summary \<Rightarrow> 'n \<times> fs \<times> providers \<times> (sync_error + download_outcome)" where
  "download_module api env rpc self_id dir net fs providers summary =
     (case fetch_manifest rpc net summary (current_sources (se_dead env) providers (su_sha256 summary) self_id) of
        (net, Inl e) \<Rightarrow> (net, fs, providers, Inl e)
      | (net, Inr manifest) \<Rightarrow>
          (case open_download api (se_os env) fs dir manifest of
             (fs, Inl e) \<Rightarrow> (net, fs, providers, Inl (DownloadFailed e))
           | (fs, Inr d) \<Rightarrow>
               (case chunk_loop api env rpc self_id net fs d providers 0 (missing_chunks d) of
                  (net, fs, d, providers, LoopShutdown) \<Rightarrow> (net, fs, providers, Inr Shutdown)
                | (net, fs, d, providers, LoopDone unfetchable) \<Rightarrow>
                    if 0 < unfetchable then (net, fs, providers, Inr (Stalled (received_count d) (chunk_count manifest)))
                    else
                      (case install_module api (se_os env) fs dir d of
                         (fs, Inl e) \<Rightarrow> (net, fs, providers, Inl (DownloadFailed e))
                       | (fs, Inr path) \<Rightarrow> (net, fs, providers, Inr (Installed path))))))"

end
