(* ===== verification/WasmSpread.thy ===== *)
theory WasmSpread
  imports WasmSync
begin

text \<open>
  Why a module spreads: a download that reaches a node with the module completes and installs it.
  The locale \<open>module_source\<close> is what a download relies on; it is interpreted on the server side of
  the peers, among others that answer differently, so the theorem about downloads holds for a network
  in which some nodes run this code.
\<close>

section \<open>A download that proceeds\<close>

definition os_ok :: "os \<Rightarrow> bool" where
  "os_ok os \<longleftrightarrow> (\<forall>call. os_error os call = None)"

definition encodes :: "wasm_api \<Rightarrow> wasm_manifest \<Rightarrow> bool" where
  "encodes api m \<longleftrightarrow> (\<forall>R. \<exists>raw. wa_encode api \<lparr>pm_manifest = m, pm_received = R\<rparr> = Inr raw)"

text \<open>The chunks \<open>R\<close> of the module \<open>bs\<close> are in the part file, and nothing outside \<open>.partial\<close> has changed.\<close>

definition fetched :: "wasm_api \<Rightarrow> string \<Rightarrow> wasm_manifest \<Rightarrow> bytes \<Rightarrow> fs \<Rightarrow> u32 set \<Rightarrow> fs \<Rightarrow> partial_download \<Rightarrow> bool" where
  "fetched api dir m bs fs0 R fs d \<longleftrightarrow>
     download_inv api dir fs d \<and> pd_manifest d = m \<and> pd_received d = R \<and>
     (\<forall>b. fs (pd_part_path d) = Some b \<longrightarrow> (\<forall>i \<in> R. chunk_slice m b i = chunk_slice m bs i)) \<and>
     (\<forall>p. \<not> in_partial dir p \<longrightarrow> fs p = fs0 p)"

lemma download_inv_handle: "download_inv api dir fs d \<Longrightarrow> handle_ok dir d"
  by (simp add: download_inv_def handle_ok_def)

lemma persist_meta_works:
  assumes "os_ok os" "encodes api (pd_manifest d)"
  shows "snd (persist_meta api os fs d) = Inr ()"
proof -
  obtain raw where "wa_encode api \<lparr>pm_manifest = pd_manifest d, pm_received = pd_received d\<rparr> = Inr raw"
    using assms(2) by (auto simp: encodes_def)
  then show ?thesis using assms(1)
    by (simp add: persist_meta_def Let_def fs_write_def fs_rename_def io_fail_def os_ok_def)
qed

lemma write_chunk_fetches:
  assumes f: "fetched api dir m bs fs0 R fs d" and os: "os_ok os" and enc: "encodes api m"
    and i: "i < chunk_count m" "i \<notin> R" and w: "write_chunk api os fs d i data = (fs', d', r)"
    and true_data: "verify_chunk api m i data \<Longrightarrow> data = chunk_slice m bs i"
  shows "if verify_chunk api m i data then r = Inr () \<and> fetched api dir m bs fs0 (insert i R) fs' d'
    else r \<noteq> Inr () \<and> fetched api dir m bs fs0 R fs' d'"
proof (cases "verify_chunk api m i data")
  case False
  have "\<not> chunk_count m \<le> i" "pd_manifest d = m" "pd_received d = R" using i(1) f by (auto simp: fetched_def)
  then show ?thesis using False w f i by (auto simp: write_chunk_def)
next
  case True
  have inv: "download_inv api dir fs d" and m: "pd_manifest d = m" "pd_received d = R" and nle: "\<not> chunk_count m \<le> i"
    using f i(1) by (auto simp: fetched_def)
  have ok: "manifest_ok m" using inv m by (auto simp: download_inv_def)
  obtain b where b: "fs (pd_part_path d) = Some b" "length b = unat (wm_size m)" using inv m by (auto simp: download_inv_def)
  let ?off = "unat (chunk_offset m i)" and ?d = "d\<lparr>pd_received := insert i R\<rparr>"
  define fs1 where "fs1 = fs(pd_part_path d \<mapsto> write_span b ?off data)"
  have s: "write_sync_at os fs (pd_part_path d) ?off data = (fs1, Inr ())"
    using os b by (simp add: write_sync_at_def file_open_def io_fail_def os_ok_def fs1_def)
  have p: "persist_meta api os fs1 ?d = (fs', r)" and d': "d' = ?d"
    using w s True i nle m by (auto simp: write_chunk_def Let_def split: prod.splits)
  have r: "r = Inr ()" using persist_meta_works[OF os, of api ?d fs1] enc p m by simp
  have part: "fs' (pd_part_path d) = Some (write_span b ?off data)"
    using persist_meta_frame[OF p, of "pd_part_path d"] inv manifest_okD(2)[OF ok] by (simp add: download_inv_def m fs1_def)
  have len: "length data = chunk_len m i" using True by (simp add: verify_chunk_def split: if_splits)
  have slices: "chunk_slice m (write_span b ?off data) j = chunk_slice m bs j" if "j \<in> insert i R" for j
  proof (cases "j = i")
    case True
    then show ?thesis using write_span_same_chunk[OF ok i(1) b(2) len] true_data \<open>verify_chunk api m i data\<close> by simp
  next
    case False
    then show ?thesis using write_span_other_chunk[OF ok i(1) b(2), of data j] len that f b(1) m by (auto simp: fetched_def)
  qed
  have "fetched api dir m bs fs0 (insert i R) fs' d'"
    using write_chunk_inv[OF inv w] write_chunk_handle(3)[OF download_inv_handle[OF inv] w] slices part f d' m
    by (auto simp: fetched_def)
  then show ?thesis using True r by simp
qed

text \<open>When all chunks are there the part file is the module, and it is installed.\<close>

lemma fetched_complete:
  assumes f: "fetched api dir (from_bytes api name bs) bs fs0 {i. i < chunk_count (from_bytes api name bs)} fs d"
    and bs: "module_ok api name bs"
  shows "fs (pd_part_path d) = Some bs" "download_complete d"
proof -
  let ?m = "from_bytes api name bs"
  note ok = module_okD[OF bs]
  obtain b where b: "fs (pd_part_path d) = Some b" "length b = unat (wm_size ?m)"
    using f by (auto simp: fetched_def download_inv_def)
  have "b = bs" by (rule slices_determine[OF ok(1) b(2)]) (use ok(2) f b(1) in \<open>auto simp: fetched_def\<close>)
  then show "fs (pd_part_path d) = Some bs" using b by simp
  show "download_complete d" using complete_iff(2)[of d] f by (auto simp: fetched_def)
qed

lemma install_works:
  assumes f: "fetched api dir (from_bytes api name bs) bs fs0 {i. i < chunk_count (from_bytes api name bs)} fs d"
    and bs: "module_ok api name bs" and os: "os_ok os" and absent: "fs0 (path_join dir name) = None"
  shows "\<exists>fs'. install_module api os fs dir d = (fs', Inr (path_join dir name)) \<and> fs' (path_join dir name) = Some bs \<and>
    (\<forall>p. \<not> in_partial dir p \<longrightarrow> p \<noteq> path_join dir name \<longrightarrow> p \<noteq> installing_path dir (from_bytes api name bs) \<longrightarrow> fs' p = fs0 p)"
proof -
  let ?m = "from_bytes api name bs" and ?final = "path_join dir name"
  let ?tmp = "path_join dir (''.'' @ module_hash api bs @ ''.installing'')"
  have m: "pd_manifest d = ?m" and h: "handle_ok dir d" and outside: "\<And>p. \<not> in_partial dir p \<Longrightarrow> fs p = fs0 p"
    using f download_inv_handle by (auto simp: fetched_def)
  have v: "is_valid_module_name name" using bs by (simp add: module_ok_def)
  note path = module_path[OF v, of dir]
  have size: "word_of_nat (length bs) = wm_size ?m" by (simp add: from_bytes_def)
  have final: "\<not> is_file fs ?final" using outside[OF path(2)] absent by (simp add: is_file_def)
  define fs2 where "fs2 = ((fs(?tmp \<mapsto> bs))(?tmp := None))(?final \<mapsto> bs)"
  have inst: "install_module api os fs dir d = (discard os fs2 d, Inr ?final)"
    using fetched_complete[OF f bs] os m size final
    by (simp add: install_module_def Let_def fs_read_def io_fail_def os_ok_def fs_write_def fs_rename_def fs2_def)
  have "discard os fs2 d p = fs2 p" if "\<not> in_partial dir p" for p by (rule discard_frame[OF h that])
  then show ?thesis using inst path outside by (auto simp: fs2_def installing_path_def)
qed

lemma open_works:
  assumes os: "os_ok os" and enc: "encodes api m"
  obtains fs1 fs2 where "create_with_len os fs (part_path dir (wm_sha256 m)) (unat (wm_size m)) = (fs1, Inr ())"
    "persist_meta api os fs1 (opened api os fs dir m) = (fs2, Inr ())"
    "open_download api os fs dir m = (fs2, Inr (opened api os fs dir m))"
proof -
  obtain fs1 where c: "create_with_len os fs (part_path dir (wm_sha256 m)) (unat (wm_size m)) = (fs1, Inr ())"
    using os by (simp add: create_with_len_def io_fail_def os_ok_def Let_def)
  let ?d = "opened api os fs dir m"
  obtain fs2 where p: "persist_meta api os fs1 ?d = (fs2, Inr ())"
    using persist_meta_works[OF os, of api ?d fs1] enc by (metis opened_sel(1) prod.collapse)
  have "io_fail os (CreateDirAll (partial_dir dir)) ''create'' (partial_dir dir) = None"
    using os by (simp add: io_fail_def os_ok_def)
  then have "open_download api os fs dir m = (fs2, Inr ?d)"
    using c p by (auto simp: open_download_def opened_def Let_def split: sum.splits)
  then show thesis using that c p by blast
qed

text \<open>A download over part files in which the checksums do not lie starts with chunks of the module.\<close>

definition honest_part :: "wasm_api \<Rightarrow> wasm_manifest \<Rightarrow> bytes \<Rightarrow> bytes option \<Rightarrow> bool" where
  "honest_part api m bs part \<longleftrightarrow>
     (\<forall>b i. part = Some b \<longrightarrow> chunk_on_disk api m b i \<longrightarrow> chunk_slice m b i = chunk_slice m bs i)"

lemma open_fetches:
  assumes ok: "manifest_ok m" and os: "os_ok os" and enc: "encodes api m"
    and part: "honest_part api m bs (fs (part_path dir (wm_sha256 m)))"
  shows "\<exists>fs' d. open_download api os fs dir m = (fs', Inr d) \<and> fetched api dir m bs fs (pd_received d) fs' d"
proof -
  let ?d = "opened api os fs dir m"
  obtain fs1 fs2 where c: "create_with_len os fs (part_path dir (wm_sha256 m)) (unat (wm_size m)) = (fs1, Inr ())"
    and p: "persist_meta api os fs1 ?d = (fs2, Inr ())" and op2: "open_download api os fs dir m = (fs2, Inr ?d)"
    using open_works[OF os enc] .
  have inv: "download_inv api dir fs2 ?d" using persist_meta_inv[OF opened_inv[OF ok c] p] .
  have "fs2 (part_path dir (wm_sha256 m)) = fs1 (part_path dir (wm_sha256 m))"
    using persist_meta_frame[OF p, of "part_path dir (wm_sha256 m)"] manifest_okD(2)[OF ok] by simp
  moreover have "chunk_slice m (resize_bytes (unat (wm_size m)) b) i = chunk_slice m bs i"
    if "fs (part_path dir (wm_sha256 m)) = Some b" "i \<in> pd_received ?d" for b i
    using opened_received[OF ok that(2)] that(1) part chunk_slice_resize[of m i b "unat (wm_size m)"] chunk_ends[OF ok, of i]
    by (auto simp: honest_part_def chunk_on_disk_def)
  ultimately have "\<forall>b. fs2 (part_path dir (wm_sha256 m)) = Some b \<longrightarrow> (\<forall>i \<in> pd_received ?d. chunk_slice m b i = chunk_slice m bs i)"
    using create_with_len_ok[OF c] opened_received[OF ok] by (fastforce split: option.splits)
  then have "fetched api dir m bs fs (pd_received ?d) fs2 ?d"
    using inv open_download_handle(2)[OF ok op2] by (simp add: fetched_def)
  then show ?thesis using op2 by blast
qed

section \<open>Providers stay known\<close>

definition provides :: "providers \<Rightarrow> string \<Rightarrow> string \<Rightarrow> bool" where
  "provides providers sha node \<longleftrightarrow>
     (\<exists>entry. cf_get providers sha = Some entry \<and> node \<in> fst ` set (pe_nodes entry))"

lemma cf_put_dom: "fst ` set (cf_put m k v) = insert k (fst ` set m)"
  using cf_put_keys[of m k v] by simp

lemma provides_record: "provides providers sha node \<Longrightarrow> provides (record_module n now providers m) sha node"
  by (auto simp: provides_def record_module_def Let_def cf_get_put cf_put_dom)

lemma provides_announcement: "provides providers sha node \<Longrightarrow> provides (record_announcement now providers a) sha node"
proof -
  have "provides providers sha node \<Longrightarrow> provides (foldl (record_module n now) providers ms) sha node" for n ms
    by (induction ms arbitrary: providers) (auto simp: provides_record)
  then show "provides providers sha node \<Longrightarrow> ?thesis" by (simp add: record_announcement_def)
qed

lemma provides_drain: "provides providers sha node \<Longrightarrow> provides (drain_announcements self now providers pending) sha node"
  unfolding drain_announcements_def
  by (induction pending arbitrary: providers) (auto simp: provides_announcement)

lemma current_sources_provides:
  "provides providers sha node \<Longrightarrow> node \<noteq> self \<Longrightarrow> \<not> dead node \<Longrightarrow> node \<in> set (current_sources dead providers sha self)"
  by (auto simp: provides_def current_sources_def alive_sources_def)

text \<open>Every provider is tried once for a chunk.\<close>

lemma rotated_sources_set: "set (rotated_sources i sources) = set sources"
proof (cases "sources = []")
  case False
  let ?n = "length sources"
  have n: "0 < ?n" using False by simp
  have shift: "(u + x mod k) mod k = (u mod k + x) mod k" for u x k :: nat by (simp add: mod_simps)
  have "x \<in> set (rotated_sources i sources)" if "x \<in> set sources" for x
  proof -
    obtain k where k: "k < ?n" "sources ! k = x" using \<open>x \<in> set sources\<close> by (auto simp: in_set_conv_nth)
    define a where "a = (k + (?n - unat i mod ?n)) mod ?n"
    have "(unat i + a) mod ?n = (unat i mod ?n + (k + (?n - unat i mod ?n))) mod ?n"
      unfolding a_def by (rule shift)
    also have "unat i mod ?n + (k + (?n - unat i mod ?n)) = k + ?n" using mod_less_divisor[OF n, of "unat i"] by linarith
    finally have "(unat i + a) mod ?n = k" using k(1) by simp
    moreover have "a < ?n" using n by (simp add: a_def)
    ultimately show ?thesis using k(2) by (force simp: rotated_sources_def)
  qed
  moreover have "set (rotated_sources i sources) \<subseteq> set sources" using n by (auto simp: rotated_sources_def)
  ultimately show ?thesis by blast
qed (simp add: rotated_sources_def)

section \<open>What a download relies on\<close>

text \<open>
  The contract between a download and the network, for one module: calls keep the invariant of the
  network, a manifest with the announced name and hash is the manifest of the module, chunks that
  pass the check are chunks of the module, and a seeder answers with the manifest and every chunk.
\<close>

locale module_source =
  fixes rpc :: "'n \<Rightarrow> string \<Rightarrow> wasm_sync_request \<Rightarrow> 'n \<times> wasm_sync_response result"
    and net_ok :: "'n \<Rightarrow> bool"
    and api :: wasm_api
    and name :: string
    and bs :: bytes
    and seeder :: "string \<Rightarrow> bool"
  assumes module_bytes: "net_ok net \<Longrightarrow> module_ok api name bs"
    and rpc_ok: "net_ok net \<Longrightarrow> net_ok (fst (rpc net node req))"
    and true_manifest: "net_ok net \<Longrightarrow> snd (rpc net node (ReqManifest name)) = Inr (RespManifest (Some m)) \<Longrightarrow>
      wm_name m = name \<Longrightarrow> wm_sha256 m = module_hash api bs \<Longrightarrow> m = from_bytes api name bs"
    and true_chunk: "net_ok net \<Longrightarrow> snd (rpc net node (ReqChunk (module_hash api bs) i)) = Inr (RespChunk s i data) \<Longrightarrow>
      verify_chunk api (from_bytes api name bs) i data \<Longrightarrow> data = chunk_slice (from_bytes api name bs) bs i"
    and seeder_manifest: "net_ok net \<Longrightarrow> seeder node \<Longrightarrow>
      snd (rpc net node (ReqManifest name)) = Inr (RespManifest (Some (from_bytes api name bs)))"
    and seeder_chunk: "net_ok net \<Longrightarrow> seeder node \<Longrightarrow> i < chunk_count (from_bytes api name bs) \<Longrightarrow>
      \<exists>s. snd (rpc net node (ReqChunk (module_hash api bs) i)) = Inr (RespChunk s i (chunk_slice (from_bytes api name bs) bs i))"
begin

lemma manifest_fetched:
  assumes "net_ok net" "\<exists>s \<in> set sources. seeder s" "su_name summary = name" "su_sha256 summary = module_hash api bs"
  shows "\<exists>net'. fetch_manifest_loop rpc net summary e sources = (net', Inr (from_bytes api name bs)) \<and> net_ok net'"
  using assms
proof (induction sources arbitrary: net e)
  case (Cons s sources)
  obtain net' r where r: "rpc net s (ReqManifest name) = (net', r)" by fastforce
  have ok: "net_ok net'" using rpc_ok[OF Cons.prems(1), of s "ReqManifest name"] r by simp
  have valid: "validate_manifest (from_bytes api name bs) = Inr ()"
    using module_okD(1)[OF module_bytes[OF Cons.prems(1)]] by (simp add: manifest_ok_def)
  show ?case
  proof (cases "r = Inr (RespManifest (Some (from_bytes api name bs)))")
    case True
    then show ?thesis using r ok valid Cons.prems by simp
  next
    case False
    then have "\<not> seeder s" using seeder_manifest[OF Cons.prems(1), of s] r by auto
    then have IH: "\<exists>net''. fetch_manifest_loop rpc net' summary e' sources = (net'', Inr (from_bytes api name bs)) \<and> net_ok net''" for e'
      using Cons.IH[OF ok] Cons.prems by auto
    have "wm_name m \<noteq> name \<or> wm_sha256 m \<noteq> module_hash api bs" if "r = Inr (RespManifest (Some m))" for m
      using true_manifest[OF Cons.prems(1), of s m] r that False by auto
    then show ?thesis using r IH Cons.prems(3,4)
      by (auto split: sum.splits wasm_sync_response.splits option.splits)
  qed
qed simp

lemma sources_tried:
  assumes "net_ok net" "fetched api dir (from_bytes api name bs) bs fs0 R fs d" "i < chunk_count (from_bytes api name bs)" "i \<notin> R"
    "os_ok os" "encodes api (from_bytes api name bs)" "try_sources api os rpc net fs d i sources = (net', fs', d', got)"
  shows "net_ok net' \<and> fetched api dir (from_bytes api name bs) bs fs0 (if got then insert i R else R) fs' d' \<and>
    ((\<exists>s \<in> set sources. seeder s) \<longrightarrow> got)"
  using assms
proof (induction sources arbitrary: net fs d)
  case (Cons s sources)
  let ?m = "from_bytes api name bs" and ?sha = "module_hash api bs"
  have m: "pd_manifest d = ?m" using Cons.prems(2) by (simp add: fetched_def)
  obtain net1 r where r: "rpc net s (ReqChunk ?sha i) = (net1, r)" by fastforce
  have ok: "net_ok net1" using rpc_ok[OF Cons.prems(1), of s "ReqChunk ?sha i"] r by simp
  have next_source: "net_ok net' \<and> fetched api dir ?m bs fs0 (if got then insert i R else R) fs' d' \<and>
      ((\<exists>s \<in> set sources. seeder s) \<longrightarrow> got)"
    if "try_sources api os rpc net1 fs1 d1 i sources = (net', fs', d', got)" "fetched api dir ?m bs fs0 R fs1 d1" for fs1 d1
    using Cons.IH[OF ok that(2) Cons.prems(3-6) that(1)] .
  show ?case
  proof (cases "\<exists>x data. r = Inr (RespChunk x i data)")
    case True
    then obtain x data where x: "r = Inr (RespChunk x i data)" by auto
    obtain fs1 d1 w where w: "write_chunk api os fs d i data = (fs1, d1, w)" by (metis prod_cases3)
    have genuine: "verify_chunk api ?m i data \<Longrightarrow> data = chunk_slice ?m bs i"
      using true_chunk[OF Cons.prems(1), of s i x data] r x by simp
    note wr = write_chunk_fetches[OF Cons.prems(2,5,6,3,4) w genuine]
    have seed: "seeder s \<Longrightarrow> verify_chunk api ?m i data"
      using seeder_chunk[OF Cons.prems(1) _ Cons.prems(3), of s] r x module_okD(3)[OF module_bytes[OF Cons.prems(1)] Cons.prems(3)] by auto
    show ?thesis
    proof (cases "verify_chunk api ?m i data")
      case True
      then show ?thesis using wr w r x m ok Cons.prems(7) by auto
    next
      case False
      then have "\<exists>e. w = Inl e" "fetched api dir ?m bs fs0 R fs1 d1" using wr by (cases w; auto)+
      then show ?thesis using next_source[of fs1 d1] w r x m Cons.prems(7) False seed by auto
    qed
  next
    case False
    then have "\<not> seeder s" using seeder_chunk[OF Cons.prems(1) _ Cons.prems(3), of s] r by auto
    moreover have "try_sources api os rpc net1 fs d i sources = (net', fs', d', got)"
      using Cons.prems(7) r m False by (auto split: sum.splits wasm_sync_response.splits if_splits)
    ultimately show ?thesis using next_source[OF _ Cons.prems(2)] by auto
  qed
qed simp

lemma chunks_fetched:
  assumes "net_ok net" "fetched api dir (from_bytes api name bs) bs fs0 R fs d" "distinct is" "set is \<inter> R = {}"
    "\<And>i. i \<in> set is \<Longrightarrow> i < chunk_count (from_bytes api name bs)" "\<And>i. \<not> se_shutdown env i"
    "os_ok (se_os env)" "encodes api (from_bytes api name bs)"
    "provides providers (module_hash api bs) s" "seeder s" "s \<noteq> self" "\<not> se_dead env s"
  shows "\<exists>net' fs' d' providers'. chunk_loop api env rpc self net fs d providers u is = (net', fs', d', providers', LoopDone u) \<and>
    net_ok net' \<and> fetched api dir (from_bytes api name bs) bs fs0 (R \<union> set is) fs' d'"
  using assms
proof (induction "is" arbitrary: net fs d providers R)
  case (Cons i rest)
  let ?m = "from_bytes api name bs" and ?sha = "module_hash api bs"
  let ?prov = "drain_announcements self (se_now env i) providers (se_pending env i)"
  let ?sources = "current_sources (se_dead env) ?prov ?sha self"
  have m: "wm_sha256 (pd_manifest d) = ?sha" using Cons.prems(2) by (simp add: fetched_def)
  have prov: "provides ?prov ?sha s" using Cons.prems(9) by (rule provides_drain)
  have s: "s \<in> set ?sources" using current_sources_provides[of ?prov ?sha s self "se_dead env"] prov Cons.prems(11,12) by simp
  have ne: "?sources \<noteq> []" using s by auto
  obtain net1 fs1 d1 got where t: "try_sources api (se_os env) rpc net fs d i (rotated_sources i ?sources) = (net1, fs1, d1, got)"
    by (metis prod_cases4)
  have i: "i < chunk_count ?m" "i \<notin> R" using Cons.prems(4,5) by auto
  have step: "net_ok net1" "got" "fetched api dir ?m bs fs0 (insert i R) fs1 d1"
    using sources_tried[OF Cons.prems(1,2) i Cons.prems(7,8) t] s Cons.prems(10) by (auto simp: rotated_sources_set split: if_splits)
  have "\<exists>net' fs' d' providers'. chunk_loop api env rpc self net1 fs1 d1 ?prov u rest = (net', fs', d', providers', LoopDone u) \<and>
      net_ok net' \<and> fetched api dir ?m bs fs0 (insert i R \<union> set rest) fs' d'"
    by (rule Cons.IH[OF step(1,3)]) (use Cons.prems prov in auto)
  then show ?case using ne t step(2) Cons.prems(6) m by (simp add: Let_def)
qed simp

lemma module_downloaded:
  assumes "net_ok net" "su_name summary = name" "su_sha256 summary = module_hash api bs"
    "\<And>i. \<not> se_shutdown env i" "os_ok (se_os env)" "encodes api (from_bytes api name bs)"
    "provides providers (module_hash api bs) s" "seeder s" "s \<noteq> self" "\<not> se_dead env s"
    "fs0 (path_join dir name) = None" "honest_part api (from_bytes api name bs) bs (fs0 (part_path dir (module_hash api bs)))"
  shows "\<exists>net' fs' providers'. download_module api env rpc self dir net fs0 providers summary =
      (net', fs', providers', Inr (Installed (path_join dir name))) \<and> net_ok net' \<and> fs' (path_join dir name) = Some bs \<and>
    (\<forall>p. \<not> in_partial dir p \<longrightarrow> p \<noteq> path_join dir name \<longrightarrow> p \<noteq> installing_path dir (from_bytes api name bs) \<longrightarrow> fs' p = fs0 p)"
proof -
  let ?m = "from_bytes api name bs" and ?sha = "module_hash api bs"
  note ok = module_okD[OF module_bytes[OF assms(1)]]
  have "s \<in> set (current_sources (se_dead env) providers ?sha self)"
    using current_sources_provides[of providers ?sha s self "se_dead env"] assms(7,9,10) by simp
  then obtain net1 where man: "fetch_manifest rpc net summary (current_sources (se_dead env) providers ?sha self) = (net1, Inr ?m)" "net_ok net1"
    using manifest_fetched[OF assms(1) _ assms(2,3)] assms(8) unfolding fetch_manifest_def by blast
  obtain fs1 d1 where op: "open_download api (se_os env) fs0 dir ?m = (fs1, Inr d1)" "fetched api dir ?m bs fs0 (pd_received d1) fs1 d1"
    using open_fetches[OF ok(1) assms(5,6), of bs fs0 dir] assms(12) by auto
  have md: "pd_manifest d1 = ?m" and sub: "pd_received d1 \<subseteq> {i. i < chunk_count ?m}"
    using op(2) by (auto simp: fetched_def download_inv_def chunk_on_disk_def)
  have miss: "set (missing_chunks d1) = {i. i < chunk_count ?m} - pd_received d1" using missing_chunks_set[of d1] md by simp
  have disjoint: "set (missing_chunks d1) \<inter> pd_received d1 = {}" using miss by blast
  have in_range: "\<And>i. i \<in> set (missing_chunks d1) \<Longrightarrow> i < chunk_count ?m" using miss by simp
  obtain net2 fs2 d2 prov2 where loop: "chunk_loop api env rpc self net1 fs1 d1 providers 0 (missing_chunks d1) =
      (net2, fs2, d2, prov2, LoopDone 0)" "net_ok net2" "fetched api dir ?m bs fs0 (pd_received d1 \<union> set (missing_chunks d1)) fs2 d2"
    using chunks_fetched[OF man(2) op(2) missing_chunks_distinct disjoint in_range assms(4-10)] by blast
  then have "fetched api dir ?m bs fs0 {i. i < chunk_count ?m} fs2 d2" using miss sub by (simp add: Un_absorb1 Un_commute)
  from install_works[OF this module_bytes[OF assms(1)] assms(5,11)] show ?thesis
    using man op(1) loop(1,2) assms(3) by (auto simp: download_module_def)
qed

end

section \<open>Peers that serve from their stores\<close>

record peer =
  pr_disk :: disk
  pr_dir :: string
  pr_cache :: manifest_cache

type_synonym network = "string \<Rightarrow> peer option"

text \<open>A remote call answered by the server side of the node it is sent to.\<close>

definition peer_rpc :: "wasm_api \<Rightarrow> network \<Rightarrow> string \<Rightarrow> wasm_sync_request \<Rightarrow> network \<times> wasm_sync_response result" where
  "peer_rpc api net node req =
     (case net node of
        None \<Rightarrow> (net, Inl ''unreachable'')
      | Some p \<Rightarrow>
          (case process_wasm_sync_request api (pr_disk p) (pr_dir p) (pr_cache p) req of
             (cache, resp) \<Rightarrow> (net(node \<mapsto> p\<lparr>pr_cache := cache\<rparr>), Inr resp)))"

text \<open>On this disk the hashes of the module do not collide: another file has another sha256, and
  what passes the checksum of a chunk is that chunk.\<close>

definition honest_disk :: "wasm_api \<Rightarrow> string \<Rightarrow> bytes \<Rightarrow> disk \<Rightarrow> string \<Rightarrow> bool" where
  "honest_disk api name bs dk dir \<longleftrightarrow>
     (\<forall>path b. dk_fs dk path = Some b \<longrightarrow> module_hash api b = module_hash api bs \<longrightarrow> b = bs) \<and>
     (\<forall>b m i. dk_fs dk (part_path dir (module_hash api bs)) = Some b \<longrightarrow>
        verify_chunk api (from_bytes api name bs) i (chunk_slice m b i) \<longrightarrow>
        chunk_slice m b i = chunk_slice (from_bytes api name bs) bs i)"

definition peers_ok :: "wasm_api \<Rightarrow> string \<Rightarrow> bytes \<Rightarrow> (string \<Rightarrow> (disk \<times> string) option) \<Rightarrow> network \<Rightarrow> bool" where
  "peers_ok api name bs disks net \<longleftrightarrow>
     module_ok api name bs \<and>
     (\<forall>node. map_option (\<lambda>p. (pr_disk p, pr_dir p)) (net node) = disks node) \<and>
     (\<forall>node p. net node = Some p \<longrightarrow> cache_ok api (pr_disk p) (pr_cache p) \<and> honest_disk api name bs (pr_disk p) (pr_dir p))"

definition seeder_of :: "string \<Rightarrow> bytes \<Rightarrow> (string \<Rightarrow> (disk \<times> string) option) \<Rightarrow> string \<Rightarrow> bool" where
  "seeder_of name bs disks node \<longleftrightarrow> (\<exists>dk dir. disks node = Some (dk, dir) \<and> seeds dk dir name bs)"

lemma peers_seeder:
  assumes "peers_ok api name bs disks net" "seeder_of name bs disks node"
  obtains p where "net node = Some p" "seeds (pr_disk p) (pr_dir p) name bs" "cache_ok api (pr_disk p) (pr_cache p)"
    "honest_disk api name bs (pr_disk p) (pr_dir p)"
proof -
  obtain dk dir where d: "disks node = Some (dk, dir)" "seeds dk dir name bs" using assms(2) by (auto simp: seeder_of_def)
  have "map_option (\<lambda>p. (pr_disk p, pr_dir p)) (net node) = Some (dk, dir)" using assms(1) d(1) by (simp add: peers_ok_def)
  then obtain p where "net node = Some p" "pr_disk p = dk" "pr_dir p = dir" by auto
  then show thesis using that d(2) assms(1) by (auto simp: peers_ok_def)
qed

lemma peer_rpc_ok:
  assumes "peers_ok api name bs disks net"
  shows "peers_ok api name bs disks (fst (peer_rpc api net node req))"
proof (cases "net node")
  case (Some p)
  obtain c r where pr: "process_wasm_sync_request api (pr_disk p) (pr_dir p) (pr_cache p) req = (c, r)" by fastforce
  have "cache_ok api (pr_disk p) (pr_cache p)" using assms Some by (auto simp: peers_ok_def)
  moreover have "disks node = map_option (\<lambda>p. (pr_disk p, pr_dir p)) (net node)" using assms unfolding peers_ok_def by metis
  ultimately have "cache_ok api (pr_disk p) c" "disks node = Some (pr_disk p, pr_dir p)"
    using process_request_ok[of api "pr_disk p" "pr_cache p" "pr_dir p" req] pr Some by auto
  then show ?thesis using assms Some pr by (auto simp: peers_ok_def peer_rpc_def)
qed (use assms in \<open>simp add: peer_rpc_def\<close>)

lemma peer_manifest_true:
  assumes ok: "peers_ok api name bs disks net" and r: "snd (peer_rpc api net node (ReqManifest name)) = Inr (RespManifest (Some m))"
    and sha: "wm_sha256 m = module_hash api bs" and n: "wm_name m = name"
  shows "m = from_bytes api name bs"
proof -
  obtain p where p: "net node = Some p" using r by (auto simp: peer_rpc_def split: option.splits)
  have c: "cache_ok api (pr_disk p) (pr_cache p)" "honest_disk api name bs (pr_disk p) (pr_dir p)" using ok p by (auto simp: peers_ok_def)
  obtain c' where s: "serve_manifest api (pr_disk p) (pr_dir p) (pr_cache p) name = (c', RespManifest (Some m))"
    using r p by (auto simp: peer_rpc_def process_wasm_sync_request_def split: prod.splits)
  obtain n' b where b: "dk_fs (pr_disk p) (path_join (pr_dir p) name) = Some b" "m = from_bytes api n' b"
    using serve_manifest_ok(2)[OF c(1) s refl] by (auto simp: file_manifest_def)
  then have "b = bs" using c(2) sha unfolding honest_disk_def by auto
  then show ?thesis using b n by simp
qed

lemma peer_chunk_true:
  assumes ok: "peers_ok api name bs disks net" and r: "snd (peer_rpc api net node (ReqChunk (module_hash api bs) i)) = Inr (RespChunk s i data)"
    and v: "verify_chunk api (from_bytes api name bs) i data"
  shows "data = chunk_slice (from_bytes api name bs) bs i"
proof -
  obtain p where p: "net node = Some p" using r by (auto simp: peer_rpc_def split: option.splits)
  have c: "cache_ok api (pr_disk p) (pr_cache p)" "honest_disk api name bs (pr_disk p) (pr_dir p)" using ok p by (auto simp: peers_ok_def)
  obtain c' where s: "serve_chunk api (pr_disk p) (pr_dir p) (pr_cache p) (module_hash api bs) i = (c', RespChunk s i data)"
    using r p by (auto simp: peer_rpc_def process_wasm_sync_request_def split: prod.splits)
  show ?thesis using serve_chunk_ok(2)[OF c(1) s refl]
  proof (elim conjE disjE exE)
    fix path n b assume b: "dk_fs (pr_disk p) path = Some b" "module_hash api b = module_hash api bs"
      "data = chunk_slice (from_bytes api n b) b i"
    then have "b = bs" using c(2) by (auto simp: honest_disk_def)
    then show ?thesis using b(3) from_bytes_rename[of api n bs name] by simp
  next
    assume "from_partial (pr_disk p) (pr_dir p) (module_hash api bs) i data"
    then show ?thesis using c(2) v by (auto simp: honest_disk_def from_partial_def)
  qed
qed

text \<open>Calls in a network where other nodes do not run this code or are broken: such a node answers what it
  likes, another thing at every call, as long as a manifest that it sends under the name and the hash of
  the module is the manifest of the module and a chunk that passes the checksum is that chunk. The
  number counts the calls.\<close>

type_synonym faults = "string \<Rightarrow> (nat \<Rightarrow> wasm_sync_request \<Rightarrow> wasm_sync_response result) option"

definition mixed_rpc :: "wasm_api \<Rightarrow> faults \<Rightarrow> network \<times> nat \<Rightarrow> string \<Rightarrow> wasm_sync_request \<Rightarrow>
    (network \<times> nat) \<times> wasm_sync_response result" where
  "mixed_rpc api faults st node req =
     (case faults node of
        Some answer \<Rightarrow> ((fst st, Suc (snd st)), answer (snd st) req)
      | None \<Rightarrow> (case peer_rpc api (fst st) node req of (net, r) \<Rightarrow> ((net, Suc (snd st)), r)))"

definition plausible :: "wasm_api \<Rightarrow> string \<Rightarrow> bytes \<Rightarrow> faults \<Rightarrow> bool" where
  "plausible api name bs faults \<longleftrightarrow> (\<forall>node answer k. faults node = Some answer \<longrightarrow>
     (\<forall>m. answer k (ReqManifest name) = Inr (RespManifest (Some m)) \<longrightarrow> wm_name m = name \<longrightarrow> wm_sha256 m = module_hash api bs \<longrightarrow>
        m = from_bytes api name bs) \<and>
     (\<forall>i s data. answer k (ReqChunk (module_hash api bs) i) = Inr (RespChunk s i data) \<longrightarrow>
        verify_chunk api (from_bytes api name bs) i data \<longrightarrow> data = chunk_slice (from_bytes api name bs) bs i))"

definition mixed_ok :: "wasm_api \<Rightarrow> string \<Rightarrow> bytes \<Rightarrow> (string \<Rightarrow> (disk \<times> string) option) \<Rightarrow> faults \<Rightarrow> network \<times> nat \<Rightarrow> bool" where
  "mixed_ok api name bs disks faults st \<longleftrightarrow> peers_ok api name bs disks (fst st) \<and> plausible api name bs faults"

definition honest_seeder :: "string \<Rightarrow> bytes \<Rightarrow> (string \<Rightarrow> (disk \<times> string) option) \<Rightarrow> faults \<Rightarrow> string \<Rightarrow> bool" where
  "honest_seeder name bs disks faults node \<longleftrightarrow> seeder_of name bs disks node \<and> faults node = None"

lemma seeder_serves:
  assumes ok: "peers_ok api name bs disks net" and sd: "seeder_of name bs disks node"
  shows "snd (peer_rpc api net node (ReqManifest name)) = Inr (RespManifest (Some (from_bytes api name bs)))"
    and "i < chunk_count (from_bytes api name bs) \<Longrightarrow>
      \<exists>s. snd (peer_rpc api net node (ReqChunk (module_hash api bs) i)) = Inr (RespChunk s i (chunk_slice (from_bytes api name bs) bs i))"
proof -
  obtain p where p: "net node = Some p" "seeds (pr_disk p) (pr_dir p) name bs" "cache_ok api (pr_disk p) (pr_cache p)"
    "honest_disk api name bs (pr_disk p) (pr_dir p)" using peers_seeder[OF ok sd] .
  show "snd (peer_rpc api net node (ReqManifest name)) = Inr (RespManifest (Some (from_bytes api name bs)))"
    using serve_manifest_seed[OF p(3,2)] p(1) by (auto simp: peer_rpc_def process_wasm_sync_request_def)
  assume i: "i < chunk_count (from_bytes api name bs)"
  have "module_ok api name bs" using ok by (simp add: peers_ok_def)
  from serve_chunk_seed[OF p(3,2) this i] p(4)
  show "\<exists>s. snd (peer_rpc api net node (ReqChunk (module_hash api bs) i)) = Inr (RespChunk s i (chunk_slice (from_bytes api name bs) bs i))"
    using p(1) by (auto simp: peer_rpc_def process_wasm_sync_request_def honest_disk_def)
qed

lemma mixed_answer:
  assumes "snd (mixed_rpc api faults st node req) = x"
  shows "(\<exists>answer. faults node = Some answer \<and> answer (snd st) req = x) \<or>
    faults node = None \<and> snd (peer_rpc api (fst st) node req) = x"
  using assms by (auto simp: mixed_rpc_def split: option.splits prod.splits)

interpretation swarm: module_source "mixed_rpc api faults" "mixed_ok api name bs disks faults" api name bs "honest_seeder name bs disks faults"
  for api faults name bs disks
proof unfold_locales
  fix st node assume ok: "mixed_ok api name bs disks faults st"
  then have peers: "peers_ok api name bs disks (fst st)" and pl: "plausible api name bs faults" by (simp_all add: mixed_ok_def)
  show "module_ok api name bs" using peers by (simp add: peers_ok_def)
  show "mixed_ok api name bs disks faults (fst (mixed_rpc api faults st node req))" for req
    using peer_rpc_ok[OF peers, of node req] peers pl by (auto simp: mixed_ok_def mixed_rpc_def split: option.split prod.split)
  show "m = from_bytes api name bs"
    if "snd (mixed_rpc api faults st node (ReqManifest name)) = Inr (RespManifest (Some m))" "wm_name m = name"
      "wm_sha256 m = module_hash api bs" for m
    using mixed_answer[OF that(1)] pl peer_manifest_true[OF peers _ that(3,2)] that(2,3) unfolding plausible_def by blast
  show "data = chunk_slice (from_bytes api name bs) bs i"
    if "snd (mixed_rpc api faults st node (ReqChunk (module_hash api bs) i)) = Inr (RespChunk s i data)"
      "verify_chunk api (from_bytes api name bs) i data" for i s data
    using mixed_answer[OF that(1)] pl peer_chunk_true[OF peers _ that(2)] that(2) unfolding plausible_def by blast
  assume "honest_seeder name bs disks faults node"
  then have sd: "seeder_of name bs disks node" and none: "faults node = None" by (simp_all add: honest_seeder_def)
  have same: "snd (mixed_rpc api faults st node req) = snd (peer_rpc api (fst st) node req)" for req
    using none by (simp add: mixed_rpc_def split: prod.split)
  show "snd (mixed_rpc api faults st node (ReqManifest name)) = Inr (RespManifest (Some (from_bytes api name bs)))"
    unfolding same by (rule seeder_serves(1)[OF peers sd])
  show "\<exists>s. snd (mixed_rpc api faults st node (ReqChunk (module_hash api bs) i)) = Inr (RespChunk s i (chunk_slice (from_bytes api name bs) bs i))"
    if "i < chunk_count (from_bytes api name bs)" for i
    unfolding same by (rule seeder_serves(2)[OF peers sd that])
qed

end
