(* ===== verification/WasmClaims.thy ===== *)
theory WasmClaims
  imports WasmSpread
begin

text \<open>
  The properties of WASM module distribution.
\<close>

section \<open>A small module\<close>

text \<open>Concrete hash functions, a codec that knows two meta files, and a module of two chunks.\<close>

definition demo_sha :: "bytes \<Rightarrow> bytes" where
  "demo_sha b = replicate 32 (sum_list b)"

definition demo_hash :: string where
  "demo_hash = concat (map hex_byte (replicate 32 6))"

definition two_chunks :: wasm_manifest where
  "two_chunks = \<lparr>wm_name = ''a.wasm'', wm_sha256 = demo_hash, wm_size = 3, wm_chunk_size = 2, wm_chunk_hashes = [2, 1]\<rparr>"

definition demo_wasm :: wasm_api where
  "demo_wasm = \<lparr>wa_xxh3 = (\<lambda>b. word_of_nat (length b)), wa_sha256 = demo_sha,
     wa_encode = (\<lambda>meta. if meta = \<lparr>pm_manifest = two_chunks, pm_received = {}\<rparr> then Inr ''0''
        else if meta = \<lparr>pm_manifest = two_chunks, pm_received = {1}\<rparr> then Inr ''1'' else Inl ''unsupported''),
     wa_decode = (\<lambda>raw. if raw = ''0'' then Inr \<lparr>pm_manifest = two_chunks, pm_received = {}\<rparr>
        else if raw = ''1'' then Inr \<lparr>pm_manifest = two_chunks, pm_received = {1}\<rparr> else Inl ''bad'')\<rparr>"

lemma demo_codec: "meta_codec_ok demo_wasm"
  by (simp add: meta_codec_ok_def demo_wasm_def utf8_ok_def)

lemma demo_hash_sha: "is_sha256 demo_hash"
  using module_hash_is_sha256[of demo_wasm "[1, 2, 3]"] by (simp add: module_hash_def demo_wasm_def demo_sha_def demo_hash_def)

lemma two_chunks_ok: "manifest_ok two_chunks"
  using demo_hash_sha
  by (simp add: manifest_ok_def validate_manifest_def two_chunks_def is_valid_module_name_def starts_with_def ends_with_def
      MAX_WASM_SYNC_MODULE_BYTES_def WASM_SYNC_CHUNK_SIZE_def div_ceil_def)

section \<open>Downloads\<close>

lemma open_refused:
  assumes "open_download api os fs dir m = (fs', Inl e)"
  shows "(\<exists>call x. os_error os call = Some x) \<or> (\<exists>R x. wa_encode api \<lparr>pm_manifest = m, pm_received = R\<rparr> = Inl x)"
proof (rule ccontr)
  assume none: "\<not> ?thesis"
  then have os: "os_ok os" unfolding os_ok_def by (metis not_Some_eq)
  have enc: "encodes api m" unfolding encodes_def using none by (metis sum.exhaust)
  show False using open_works[OF os enc, of fs dir] assms by auto
qed

text \<open>C37: however often the process restarts, and whatever calls of the operating system fail while
  chunks are written, opening the download again finds every chunk that was received when a chunk was
  last stored; every chunk it counts as received is in the part file with the right checksum, exactly
  the others are requested, and the download counts as complete when none is missing. Opening fails
  only when a call or the encoding of the meta file fails.\<close>

theorem downloads_resume:
  assumes "meta_codec_ok api" "manifest_ok m" "list_all (resumable m) es" "reads_work os"
  shows "let st = foldl (dl_step api dir) (dl_start fs0) es in
    case open_download api os (ds_fs st) dir m of
      (fs, Inr d) \<Rightarrow>
        (\<exists>b. fs (part_path dir (wm_sha256 m)) = Some b \<and> length b = unat (wm_size m) \<and>
          pd_received d \<subseteq> {i. i < chunk_count m \<and> verify_chunk api m i (chunk_slice m b i)}) \<and>
        ds_durable st \<subseteq> pd_received d \<and>
        set (missing_chunks d) = {i. i < chunk_count m} - pd_received d \<and>
        (download_complete d \<longleftrightarrow> missing_chunks d = [])
    | (fs, Inl e) \<Rightarrow> (\<exists>call x. os_error os call = Some x) \<or> (\<exists>R x. wa_encode api \<lparr>pm_manifest = m, pm_received = R\<rparr> = Inl x)"
proof -
  define st where "st = foldl (dl_step api dir) (dl_start fs0) es"
  have inv: "resume_inv api dir m st"
    unfolding st_def by (rule resume.run_inv[OF resume_start[OF assms(1,2)] assms(3)])
  obtain fs r where op: "open_download api os (ds_fs st) dir m = (fs, r)" by fastforce
  have dur: "durable api dir (ds_fs st) m (ds_durable st)" using inv by (simp add: resume_inv_def)
  show ?thesis
  proof (cases r)
    case (Inl e)
    then show ?thesis using open_refused op by (auto simp flip: st_def)
  next
    case (Inr d)
    then have d: "download_inv api dir fs d" "pd_manifest d = m" "ds_durable st \<subseteq> pd_received d"
      using open_download_sound[OF assms(2,1) op dur assms(4)] by auto
    then have "\<exists>b. fs (part_path dir (wm_sha256 m)) = Some b \<and> length b = unat (wm_size m) \<and>
        pd_received d \<subseteq> {i. i < chunk_count m \<and> verify_chunk api m i (chunk_slice m b i)}"
      and lt: "\<And>i. i \<in> pd_received d \<Longrightarrow> i < chunk_count (pd_manifest d)"
      by (auto simp: download_inv_def chunk_on_disk_def)
    then show ?thesis using Inr op d(2,3) missing_chunks_set[of d] complete_iff(1)[OF lt] by (simp flip: st_def)
  qed
qed

definition torn_os :: os where
  "torn_os = \<lparr>os_error = (\<lambda>call. case call of WriteAll _ _ \<Rightarrow> Some ''disk full'' | _ \<Rightarrow> None), os_written = (\<lambda>_. Some 1)\<rparr>"

definition demo_run :: "dl_event list" where
  "demo_run = [Reopen os_works two_chunks, Deliver os_works 1 [9], Deliver torn_os 0 [7, 8], Reopen os_works two_chunks]"

lemma demo_reads: "reads_work os_works"
  by (simp add: reads_work_def os_works_def)

theorem downloads_resume_witness:
  "let st = foldl (dl_step demo_wasm ''mods'') (dl_start (\<lambda>_. None)) demo_run in
    case open_download demo_wasm os_works (ds_fs st) ''mods'' two_chunks of
      (fs, Inr d) \<Rightarrow>
        (\<exists>b. fs (part_path ''mods'' (wm_sha256 two_chunks)) = Some b \<and> length b = unat (wm_size two_chunks) \<and>
          pd_received d \<subseteq> {i. i < chunk_count two_chunks \<and> verify_chunk demo_wasm two_chunks i (chunk_slice two_chunks b i)}) \<and>
        ds_durable st \<subseteq> pd_received d \<and>
        set (missing_chunks d) = {i. i < chunk_count two_chunks} - pd_received d \<and>
        (download_complete d \<longleftrightarrow> missing_chunks d = [])
    | (fs, Inl e) \<Rightarrow> (\<exists>call x. os_error os_works call = Some x) \<or>
        (\<exists>R x. wa_encode demo_wasm \<lparr>pm_manifest = two_chunks, pm_received = R\<rparr> = Inl x)"
  by (rule downloads_resume[OF demo_codec two_chunks_ok _ demo_reads]) (simp add: demo_run_def demo_reads)

section \<open>The store\<close>

definition run_manifests :: "dl_event list \<Rightarrow> wasm_manifest set" where
  "run_manifests es = {m. \<exists>os. Reopen os m \<in> set es}"

text \<open>C38: in every run of downloads, restarts and installations, with failing calls, damaged part files
  and chunks from anywhere, a file outside the \<open>.partial\<close> directory (and the temporary file of an
  installation) never changes once it exists, and a file that appears is a module with the name,
  the size and the sha256 of a manifest that was opened.\<close>

theorem store_stays_sound:
  assumes "list_all (benign dir (run_manifests es)) es" "\<not> in_partial dir p" "p \<notin> installing_path dir ` run_manifests es"
  shows "ds_fs (foldl (dl_step api dir) (dl_start fs0) es) p = fs0 p \<or>
    fs0 p = None \<and> (\<exists>m b. m \<in> run_manifests es \<and> p = path_join dir (wm_name m) \<and>
      ds_fs (foldl (dl_step api dir) (dl_start fs0) es) p = Some b \<and>
      word_of_nat (length b) = wm_size m \<and> module_hash api b = wm_sha256 m)"
proof -
  have "store_inv api dir fs0 (run_manifests es) (foldl (dl_step api dir) (dl_start fs0) es)"
    by (rule store.run_inv[OF store_start assms(1)])
  then have "ds_fs (foldl (dl_step api dir) (dl_start fs0) es) p = fs0 p \<or>
      fs0 p = None \<and> installed api dir (run_manifests es) p (ds_fs (foldl (dl_step api dir) (dl_start fs0) es) p)"
    using assms(2,3) by (simp add: store_inv_def)
  then show ?thesis unfolding installed_def by blast
qed

definition install_run :: "dl_event list" where
  "install_run = demo_run @ [Deliver os_works 0 [7, 8], Damage ''mods/.partial/x'' None, Install os_works]"

lemma install_run_facts:
  "list_all (benign ''mods'' (run_manifests install_run)) install_run" "\<not> in_partial ''mods'' ''mods/a.wasm''"
  "''mods/a.wasm'' \<notin> installing_path ''mods'' ` run_manifests install_run"
proof -
  have ms: "run_manifests install_run = {two_chunks}" by (auto simp: run_manifests_def demo_run_def install_run_def)
  show "list_all (benign ''mods'' (run_manifests install_run)) install_run"
    unfolding ms by (simp add: install_run_def demo_run_def two_chunks_ok in_partial_def store_base_def ends_with_def starts_with_def)
  show "\<not> in_partial ''mods'' ''mods/a.wasm''" by (simp add: in_partial_def store_base_def ends_with_def starts_with_def)
  show "''mods/a.wasm'' \<notin> installing_path ''mods'' ` run_manifests install_run"
    unfolding ms by (simp add: installing_path_def path_join_def starts_with_def ends_with_def)
qed

theorem store_stays_sound_witness:
  "ds_fs (foldl (dl_step demo_wasm ''mods'') (dl_start (\<lambda>_. None)) install_run) ''mods/a.wasm'' = None \<or>
    (\<exists>m b. m \<in> run_manifests install_run \<and> ''mods/a.wasm'' = path_join ''mods'' (wm_name m) \<and>
      ds_fs (foldl (dl_step demo_wasm ''mods'') (dl_start (\<lambda>_. None)) install_run) ''mods/a.wasm'' = Some b \<and>
      word_of_nat (length b) = wm_size m \<and> module_hash demo_wasm b = wm_sha256 m)"
  using store_stays_sound[of "''mods''" install_run "''mods/a.wasm''" demo_wasm "\<lambda>_. None", OF install_run_facts] by blast

section \<open>Modules spread\<close>

text \<open>C39: a node that knows an alive provider which runs this code and has the module downloads it and
  installs exactly its bytes under its name, and changes no other file of its store, whatever is left of
  an earlier download. Other providers may be down, fail or answer with garbage, differently at every
  call, but a manifest that they send under the name and hash of the module is its manifest (the code
  cannot tell, since the hash does not cover the list of chunk hashes) and no wrong chunk passes a
  checksum; the same hashes do not collide on the disks of the nodes that run this code. The calls of the
  downloading node to its file system succeed and it is not shut down meanwhile.\<close>

theorem module_spreads:
  assumes "peers_ok api name bs disks net" "plausible api name bs faults" "seeder_of name bs disks s" "faults s = None"
    "provides providers (module_hash api bs) s" "s \<noteq> self" "\<not> se_dead env s"
    "su_name summary = name" "su_sha256 summary = module_hash api bs"
    "se_shutdown env = (\<lambda>_. False)" "os_ok (se_os env)" "encodes api (from_bytes api name bs)"
    "fs (path_join dir name) = None" "honest_part api (from_bytes api name bs) bs (fs (part_path dir (module_hash api bs)))"
  shows "\<exists>st' fs' providers'. download_module api env (mixed_rpc api faults) self dir (net, k) fs providers summary =
      (st', fs', providers', Inr (Installed (path_join dir name))) \<and> fs' (path_join dir name) = Some bs \<and>
    {p. \<not> in_partial dir p \<and> p \<noteq> path_join dir name \<and> p \<noteq> installing_path dir (from_bytes api name bs) \<and> fs' p \<noteq> fs p} = {}"
proof -
  have run: "\<not> se_shutdown env i" for i using assms(10) by simp
  have ok: "mixed_ok api name bs disks faults (net, k)" "honest_seeder name bs disks faults s"
    using assms(1-4) by (simp_all add: mixed_ok_def honest_seeder_def)
  from swarm.module_downloaded[OF ok(1) assms(8,9) run assms(11,12,5) ok(2) assms(6,7,13,14)] show ?thesis by blast
qed

text \<open>A network of one seeder, one node without the module, and one that times out or sends short chunks.\<close>

definition spread_api :: wasm_api where
  "spread_api = demo_wasm\<lparr>wa_encode := (\<lambda>_. Inr ''{}'')\<rparr>"

definition seeder_disk :: disk where
  "seeder_disk = \<lparr>dk_fs = [''store/a.wasm'' \<mapsto> [1, 2, 3]], dk_mtime = (\<lambda>_. Some 5), dk_entries = [''a.wasm'', ''notes.txt''], dk_os = os_works\<rparr>"

definition spread_disks :: "string \<Rightarrow> (disk \<times> string) option" where
  "spread_disks = [''s'' \<mapsto> (seeder_disk, ''store''), ''t'' \<mapsto> (seeder_disk\<lparr>dk_fs := Map.empty\<rparr>, ''store'')]"

definition spread_net :: network where
  "spread_net node = map_option (\<lambda>(dk, dir). \<lparr>pr_disk = dk, pr_dir = dir, pr_cache = empty_cache\<rparr>) (spread_disks node)"

definition spread_providers :: providers where
  "spread_providers = [(module_hash spread_api [1, 2, 3], \<lparr>pe_name = ''a.wasm'', pe_size = 3, pe_nodes = [(''x'', 1), (''s'', 1), (''t'', 1)]\<rparr>)]"

definition spread_faults :: faults where
  "spread_faults = [''x'' \<mapsto> (\<lambda>k req. if even k then Inl ''timeout'' else Inr (RespChunk [] 0 [9]))]"

definition spread_env :: sync_env where
  "spread_env = \<lparr>se_shutdown = (\<lambda>_. False), se_pending = (\<lambda>_. []), se_now = (\<lambda>_. 2), se_dead = (\<lambda>_. False), se_os = os_works\<rparr>"

definition spread_summary :: module_summary where
  "spread_summary = \<lparr>su_name = ''a.wasm'', su_sha256 = module_hash spread_api [1, 2, 3], su_size = 3\<rparr>"

lemma spread_seeds: "seeds seeder_disk ''store'' ''a.wasm'' [1, 2, 3]"
  by (simp add: seeds_def seeder_disk_def disk_works_def os_works_def is_valid_module_name_def starts_with_def ends_with_def
      utf8_ok_def path_join_def)

lemma spread_module: "module_ok spread_api ''a.wasm'' [1, 2, 3]"
  by (simp add: module_ok_def is_valid_module_name_def starts_with_def ends_with_def spread_api_def demo_wasm_def demo_sha_def)

lemma spread_part: "part_path ''store'' (module_hash spread_api [1, 2, 3]) \<noteq> ''store/a.wasm''"
proof -
  have "is_sha256 (module_hash spread_api [1, 2, 3])"
    by (rule module_hash_is_sha256) (simp add: spread_api_def demo_wasm_def demo_sha_def)
  then show ?thesis by (simp add: partial_paths store_base_def ends_with_def starts_with_def)
qed

lemma spread_ok: "peers_ok spread_api ''a.wasm'' [1, 2, 3] spread_disks spread_net"
proof -
  have "map_option (\<lambda>p. (pr_disk p, pr_dir p)) (spread_net node) = spread_disks node" for node
    by (cases "spread_disks node") (auto simp: spread_net_def)
  moreover have "honest_disk spread_api ''a.wasm'' [1, 2, 3] seeder_disk ''store''"
    using spread_part by (auto simp: honest_disk_def seeder_disk_def split: if_splits)
  moreover have "honest_disk spread_api ''a.wasm'' [1, 2, 3] (seeder_disk\<lparr>dk_fs := Map.empty\<rparr>) ''store''"
    by (simp add: honest_disk_def)
  ultimately show ?thesis
    using spread_module by (auto simp: peers_ok_def spread_net_def spread_disks_def cache_ok_empty split: if_splits)
qed

theorem module_spreads_witness:
  "\<exists>st' fs' providers'. download_module spread_api spread_env (mixed_rpc spread_api spread_faults) ''me'' ''mods'' (spread_net, 0) (\<lambda>_. None) spread_providers spread_summary =
      (st', fs', providers', Inr (Installed (path_join ''mods'' ''a.wasm''))) \<and> fs' (path_join ''mods'' ''a.wasm'') = Some [1, 2, 3] \<and>
    {p. \<not> in_partial ''mods'' p \<and> p \<noteq> path_join ''mods'' ''a.wasm'' \<and>
      p \<noteq> installing_path ''mods'' (from_bytes spread_api ''a.wasm'' [1, 2, 3]) \<and> fs' p \<noteq> None} = {}"
proof (rule module_spreads[OF spread_ok])
  show "seeder_of ''a.wasm'' [1, 2, 3] spread_disks ''s''" using spread_seeds by (simp add: seeder_of_def spread_disks_def)
  show "plausible spread_api ''a.wasm'' [1, 2, 3] spread_faults"
    by (auto simp: plausible_def spread_faults_def verify_chunk_def chunk_len_def from_bytes_def chunk_offset_def sat_sub_def
        WASM_SYNC_CHUNK_SIZE_def min_def split: if_splits)
  show "provides spread_providers (module_hash spread_api [1, 2, 3]) ''s''"
    by (simp add: provides_def spread_providers_def cf_get_def)
  show "encodes spread_api (from_bytes spread_api ''a.wasm'' [1, 2, 3])" by (simp add: encodes_def spread_api_def)
  show "os_ok (se_os spread_env)" by (simp add: os_ok_def spread_env_def os_works_def)
qed (simp_all add: spread_env_def spread_summary_def spread_faults_def honest_part_def)

end
