(* ===== verification/LeaderWorks.thy ===== *)
theory LeaderWorks
  imports Prelude "HOL-Library.Multiset"
begin

text \<open>
  The work a node does while it leads a raft group, \<open>leader_controller.rs\<close>, and the layout of the
  groups, \<open>lib.rs\<close>. A running task is its group and the name of its work; what joining a stopped
  task returns is the argument \<open>join\<close> (an error, or nothing). Starting and stopping are recorded in
  the order in which they happen.
\<close>

section \<open>Groups\<close>

definition TASKS :: string where "TASKS = ''tasks''"
definition USERS :: string where "USERS = ''users''"
definition ORDERS :: string where "ORDERS = ''orders''"
definition PRODUCTS :: string where "PRODUCTS = ''products''"

text \<open>\<open>str::split(',')\<close>, \<open>str::trim\<close> on ASCII blanks, and \<open>Vec::dedup\<close>, which drops an element
  equal to the one before it.\<close>

fun split_comma :: "string \<Rightarrow> string list" where
  "split_comma [] = [[]]"
| "split_comma (c # s) =
     (if c = CHR '','' then [] # split_comma s
      else (case split_comma s of [] \<Rightarrow> [[c]] | w # ws \<Rightarrow> (c # w) # ws))"

definition trim :: "string \<Rightarrow> string" where
  "trim s = (let blank = (\<lambda>c. c \<in> {CHR '' '', CHR 0x09, CHR 0x0A, CHR 0x0B, CHR 0x0C, CHR 0x0D}) in
     rev (dropWhile blank (rev (dropWhile blank s))))"

fun dedup :: "'a list \<Rightarrow> 'a list" where
  "dedup [] = []"
| "dedup [x] = [x]"
| "dedup (x # y # xs) = (if x = y then dedup (x # xs) else x # dedup (y # xs))"

definition groups_all :: "string option \<Rightarrow> string list" where
  "groups_all env =
     (let ids = (case env of
            Some raw \<Rightarrow> filter (\<lambda>i. i \<noteq> []) (map trim (split_comma raw))
          | None \<Rightarrow> [USERS, ORDERS, PRODUCTS]);
          ids = (if TASKS \<in> set ids then ids else ids @ [TASKS]) in
      dedup ids)"

lemma set_dedup: "set (dedup xs) = set xs"
  by (induction xs rule: dedup.induct) auto

text \<open>The tasks group is always served and no id is empty.\<close>

lemma groups_all_tasks: "TASKS \<in> set (groups_all env) \<and> [] \<notin> set (groups_all env)"
  by (auto simp: groups_all_def Let_def set_dedup TASKS_def USERS_def ORDERS_def PRODUCTS_def split: option.splits)

text \<open>An id that is listed twice with another between is kept twice.\<close>

lemma groups_all_duplicate: "groups_all (Some ''users,orders,users'') = [''users'', ''orders'', ''users'', ''tasks'']"
  by (simp add: groups_all_def trim_def TASKS_def Let_def)

section \<open>The works of a group\<close>

datatype leader_work = TaskScheduler | MembershipGuardWork

fun work_name :: "leader_work \<Rightarrow> string" where
  "work_name TaskScheduler = ''task-scheduler''"
| "work_name MembershipGuardWork = ''membership-guard''"

record running_work =
  rw_group :: string
  rw_name :: string

definition start_work :: "string \<Rightarrow> leader_work \<Rightarrow> running_work" where
  "start_work group_id work = \<lparr>rw_group = group_id, rw_name = work_name work\<rparr>"

definition leader_works_for_group :: "string \<Rightarrow> bool \<Rightarrow> leader_work list" where
  "leader_works_for_group group_id guard_configured =
     (if guard_configured then [MembershipGuardWork] else []) @ (if group_id = TASKS then [TaskScheduler] else [])"

datatype controller_error = OneError string | ManyErrors "string list" | MetricsClosed string

datatype work_log = Started running_work | Stopped running_work

definition stop_running_works :: "(running_work \<Rightarrow> string option) \<Rightarrow> running_work list \<Rightarrow> work_log list \<times> (controller_error + unit)" where
  "stop_running_works join running =
     (map Stopped running,
      case List.map_filter join running of
        [] \<Rightarrow> Inr ()
      | [e] \<Rightarrow> Inl (OneError e)
      | es \<Rightarrow> Inl (ManyErrors es))"

definition apply_group_role :: "string \<Rightarrow> leader_work list \<Rightarrow> (running_work \<Rightarrow> string option) \<Rightarrow> bool \<Rightarrow> running_work list \<Rightarrow>
    running_work list \<times> work_log list \<times> (controller_error + unit)" where
  "apply_group_role group_id works join is_leader running =
     (if is_leader then
        (if running = [] then
           (let new = map (start_work group_id) works in (new, map Started new, Inr ()))
         else (running, [], Inr ()))
      else if running \<noteq> [] then
        (case stop_running_works join running of (log, r) \<Rightarrow> ([], log, r))
      else (running, [], Inr ()))"

datatype controller_event = RoleChanged bool | StreamClosed | ShutdownSignal

fun group_controller_loop :: "string \<Rightarrow> leader_work list \<Rightarrow> (running_work \<Rightarrow> string option) \<Rightarrow> running_work list \<Rightarrow> controller_event list \<Rightarrow>
    running_work list \<times> work_log list \<times> (controller_error + unit) option" where
  "group_controller_loop group_id works join running [] = (running, [], None)"
| "group_controller_loop group_id works join running (ShutdownSignal # evs) =
     (case stop_running_works join running of (log, r) \<Rightarrow> ([], log, Some r))"
| "group_controller_loop group_id works join running (StreamClosed # evs) =
     (case stop_running_works join running of
        (log, Inl e) \<Rightarrow> ([], log, Some (Inl e))
      | (log, Inr _) \<Rightarrow> ([], log, Some (Inl (MetricsClosed group_id))))"
| "group_controller_loop group_id works join running (RoleChanged is_leader # evs) =
     (case apply_group_role group_id works join is_leader running of
        (running, log, Inl e) \<Rightarrow> (running, log, Some (Inl e))
      | (running, log, Inr _) \<Rightarrow>
          (case group_controller_loop group_id works join running evs of (running, log', r) \<Rightarrow> (running, log @ log', r)))"

definition run_group_leader_controller :: "string \<Rightarrow> leader_work list \<Rightarrow> (running_work \<Rightarrow> string option) \<Rightarrow> bool \<Rightarrow> controller_event list \<Rightarrow>
    running_work list \<times> work_log list \<times> (controller_error + unit) option" where
  "run_group_leader_controller group_id works join is_leader evs =
     group_controller_loop group_id works join [] (RoleChanged is_leader # evs)"

section \<open>Works run while the node leads\<close>

fun started :: "work_log list \<Rightarrow> running_work multiset" where
  "started [] = {#}"
| "started (Started w # log) = {#w#} + started log"
| "started (Stopped w # log) = started log"

fun stopped :: "work_log list \<Rightarrow> running_work multiset" where
  "stopped [] = {#}"
| "stopped (Stopped w # log) = {#w#} + stopped log"
| "stopped (Started w # log) = stopped log"

lemma log_append [simp]: "started (a @ b) = started a + started b" "stopped (a @ b) = stopped a + stopped b"
  by (induction a rule: started.induct) auto

lemma log_map [simp]: "started (map Started ws) = mset ws" "stopped (map Started ws) = {#}"
  "started (map Stopped ws) = {#}" "stopped (map Stopped ws) = mset ws"
  by (induction ws) auto

lemma log_map_comp [simp]: "started (map (Started \<circ> f) ws) = image_mset f (mset ws)" "stopped (map (Started \<circ> f) ws) = {#}"
  "started (map (Stopped \<circ> f) ws) = {#}" "stopped (map (Stopped \<circ> f) ws) = image_mset f (mset ws)"
  by (induction ws) auto

fun final_role :: "bool \<Rightarrow> controller_event list \<Rightarrow> bool" where
  "final_role b [] = b"
| "final_role b (RoleChanged l # evs) = final_role l evs"
| "final_role b (_ # evs) = final_role b evs"

lemma apply_role_running:
  assumes "apply_group_role g works join l running = (running', log, r)" "running \<in> {[], map (start_work g) works}"
  shows "running' = (if l then map (start_work g) works else [])" "mset running + started log = mset running' + stopped log"
  using assms by (auto simp: apply_group_role_def stop_running_works_def Let_def split: if_splits)

text \<open>What was started is running or was stopped, each task once; while the controller runs, all works
  of the group run exactly when the node leads it, and when it has ended none does.\<close>

lemma works_follow_leadership:
  assumes "run_group_leader_controller g works join l evs = (running, log, r)"
  shows "started log = stopped log + mset running \<and>
    running = (if r = None \<and> final_role l evs then map (start_work g) works else [])"
proof -
  have "mset run0 + started log = stopped log + mset running \<and>
      running = (if r = None \<and> final_role b evs then map (start_work g) works else [])"
    if "group_controller_loop g works join run0 evs = (running, log, r)" "run0 = (if b then map (start_work g) works else [])"
    for run0 b evs running log r
    using that
  proof (induction g works join run0 evs arbitrary: b running log r rule: group_controller_loop.induct)
    case (4 g works join run0 l evs)
    obtain run1 log1 r1 where a: "apply_group_role g works join l run0 = (run1, log1, r1)" by (metis prod_cases3)
    have run0: "run0 \<in> {[], map (start_work g) works}" using "4.prems"(2) by auto
    note a' = apply_role_running[OF a run0]
    show ?case
    proof (cases r1)
      case (Inl e)
      then have "\<not> l" using a by (auto simp: apply_group_role_def Let_def split: if_splits)
      then show ?thesis using Inl a a' "4.prems"(1) by (auto simp: ac_simps)
    next
      case (Inr u)
      obtain run2 log2 r2 where b: "group_controller_loop g works join run1 evs = (run2, log2, r2)" by (metis prod_cases3)
      have "mset run1 + started log2 = stopped log2 + mset run2 \<and>
          run2 = (if r2 = None \<and> final_role l evs then map (start_work g) works else [])"
        using "4.IH"[OF a[symmetric] refl Inr b a'(1)] .
      then show ?thesis using Inr a a'(2) b "4.prems"(1) by (auto simp: ac_simps) (metis (no_types, lifting) add.assoc add.commute)+
    qed
  qed (auto simp: stop_running_works_def split: sum.splits list.splits)
  from this[of "[]" "RoleChanged l # evs" running log r False] assms show ?thesis
    by (auto simp: run_group_leader_controller_def)
qed

end
