(* ===== verification/AddressBook.thy ===== *)
theory AddressBook
  imports PeerGuard
begin

text \<open>
  The address book of a node, \<open>network/transport.rs\<close>: which peer and address a node id has, which
  peers are connected, pinned or known to be alive by their announcements, and the membership views
  that leaders gossip; with the event handlers that feed it (\<open>network/swarm/events/gossipsub.rs\<close>,
  \<open>events/mdns.rs\<close>) and the pruner and the announcer of \<open>app/node_maintenance.rs\<close>. Parsing a string
  to a multiaddress is libp2p's, the argument \<open>parse\<close>; a multiaddress is the list of its protocols.
  Instants and durations are milliseconds. Where the code iterates over a hash map the argument
  \<open>order\<close> lists its keys in the order of the iteration.
\<close>

section \<open>Addresses\<close>

datatype ip_addr = V4 u8 u8 u8 u8 | V6 "u16 list"

datatype protocol = Ip ip_addr | Dns string | Dns4 string | Dns6 string | P2p string | OtherProto string

type_synonym multiaddr = "protocol list"

fun addr_ip :: "multiaddr \<Rightarrow> ip_addr option" where
  "addr_ip [] = None"
| "addr_ip (Ip ip # ps) = Some ip"
| "addr_ip (_ # ps) = addr_ip ps"

definition ascii_lower :: "char \<Rightarrow> char" where
  "ascii_lower c = (let n = (of_char c :: nat) in if 65 \<le> n \<and> n \<le> 90 then char_of (n + 32) else c)"

definition eq_ignore_ascii_case :: "string \<Rightarrow> string \<Rightarrow> bool" where
  "eq_ignore_ascii_case a b \<longleftrightarrow> map ascii_lower a = map ascii_lower b"

fun has_localhost_dns :: "multiaddr \<Rightarrow> bool" where
  "has_localhost_dns [] = False"
| "has_localhost_dns (Dns host # ps) = eq_ignore_ascii_case host ''localhost''"
| "has_localhost_dns (Dns4 host # ps) = eq_ignore_ascii_case host ''localhost''"
| "has_localhost_dns (Dns6 host # ps) = eq_ignore_ascii_case host ''localhost''"
| "has_localhost_dns (_ # ps) = has_localhost_dns ps"

fun ip_is_loopback :: "ip_addr \<Rightarrow> bool" where
  "ip_is_loopback (V4 a b c d) = (a = 127)"
| "ip_is_loopback (V6 s) = (s = [0, 0, 0, 0, 0, 0, 0, 1])"

fun ip_is_unspecified :: "ip_addr \<Rightarrow> bool" where
  "ip_is_unspecified (V4 a b c d) = (a = 0 \<and> b = 0 \<and> c = 0 \<and> d = 0)"
| "ip_is_unspecified (V6 s) = (s = [0, 0, 0, 0, 0, 0, 0, 0])"

definition is_loopback_addr :: "multiaddr \<Rightarrow> bool" where
  "is_loopback_addr addr \<longleftrightarrow>
     (case addr_ip addr of Some ip \<Rightarrow> ip_is_loopback ip | None \<Rightarrow> False) \<or> has_localhost_dns addr"

definition is_unspecified_addr :: "multiaddr \<Rightarrow> bool" where
  "is_unspecified_addr addr \<longleftrightarrow> (case addr_ip addr of Some ip \<Rightarrow> ip_is_unspecified ip | None \<Rightarrow> False)"

unbundle bit_operations_syntax

definition is_link_local_addr :: "multiaddr \<Rightarrow> bool" where
  "is_link_local_addr addr \<longleftrightarrow> (case addr_ip addr of
      Some (V4 a b c d) \<Rightarrow> a = 169 \<and> b = 254
    | Some (V6 (s # ss)) \<Rightarrow> (s AND 0xffc0) = 0xfe80
    | _ \<Rightarrow> False)"

definition is_undialable_discovered_addr :: "multiaddr \<Rightarrow> bool" where
  "is_undialable_discovered_addr addr \<longleftrightarrow> is_unspecified_addr addr \<or> is_link_local_addr addr"

definition should_use_discovered_addr :: "multiaddr \<Rightarrow> multiaddr \<Rightarrow> bool" where
  "should_use_discovered_addr stored_addr candidate =
     (if is_unspecified_addr candidate then False
      else if is_loopback_addr stored_addr then is_loopback_addr candidate
      else if is_loopback_addr candidate then False
      else if is_link_local_addr candidate then False
      else if \<not> is_link_local_addr stored_addr \<and> is_link_local_addr candidate then False
      else True)"

fun first_p2p :: "multiaddr \<Rightarrow> string option" where
  "first_p2p [] = None"
| "first_p2p (P2p pid # ps) = Some pid"
| "first_p2p (_ # ps) = first_p2p ps"

definition parse_p2p_addr :: "(string \<Rightarrow> multiaddr option) \<Rightarrow> string \<Rightarrow> (string \<times> multiaddr) result" where
  "parse_p2p_addr parse s = (case parse s of
      None \<Rightarrow> Inl ''invalid multiaddr''
    | Some addr \<Rightarrow> (case first_p2p addr of
         None \<Rightarrow> Inl (''multiaddr must include /p2p/<peerid>: '' @ s)
       | Some peer \<Rightarrow> Inr (peer, addr)))"

fun is_p2p :: "protocol \<Rightarrow> bool" where
  "is_p2p (P2p _) = True"
| "is_p2p _ = False"

definition ensure_p2p_addr :: "multiaddr \<Rightarrow> string \<Rightarrow> multiaddr" where
  "ensure_p2p_addr addr peer =
     (if addr \<noteq> [] \<and> is_p2p (last addr) then addr else addr @ [P2p peer])"

section \<open>The book\<close>

datatype peer_pin = Permanent | Until nat

record gossip_membership =
  gv_voters :: "string set"
  gv_leader_id :: string
  gv_log_index :: u64

record address_book =
  ab_nodes :: "string \<Rightarrow> (string \<times> multiaddr) option"
  ab_connected :: "string set"
  ab_pins :: "string \<Rightarrow> peer_pin option"
  ab_announced :: "string \<Rightarrow> (nat \<times> nat) option"
  ab_gossip :: "string \<Rightarrow> gossip_membership option"

definition address_book_new :: address_book where
  "address_book_new = \<lparr>ab_nodes = Map.empty, ab_connected = {}, ab_pins = Map.empty,
     ab_announced = Map.empty, ab_gossip = Map.empty\<rparr>"

definition RAFT_PEER_PIN_TTL :: nat where "RAFT_PEER_PIN_TTL = 600 * 1000"
definition BOOTSTRAP_PEER_PIN_TTL :: nat where "BOOTSTRAP_PEER_PIN_TTL = 600 * 1000"
definition PEER_ALIVE_TTL_INTERVALS :: nat where "PEER_ALIVE_TTL_INTERVALS = 3"
definition NODE_ANNOUNCE_INTERVAL_MS :: nat where "NODE_ANNOUNCE_INTERVAL_MS = 20 * 1000"
definition PEER_ALIVE_TTL :: nat where "PEER_ALIVE_TTL = NODE_ANNOUNCE_INTERVAL_MS * PEER_ALIVE_TTL_INTERVALS"

definition peer_alive_ttl :: "u64 \<Rightarrow> nat" where
  "peer_alive_ttl announce_interval_ms = max (unat announce_interval_ms * PEER_ALIVE_TTL_INTERVALS) PEER_ALIVE_TTL"

definition apply_gossip_membership :: "address_book \<Rightarrow> string \<Rightarrow> gossip_membership \<Rightarrow> address_book" where
  "apply_gossip_membership b group_id m =
     (let stale = (case ab_gossip b group_id of Some current \<Rightarrow> gv_log_index m \<le> gv_log_index current | None \<Rightarrow> False) in
      if stale then b else b\<lparr>ab_gossip := (ab_gossip b)(group_id \<mapsto> m)\<rparr>)"

definition register_configured_node_addr :: "address_book \<Rightarrow> string \<Rightarrow> string \<Rightarrow> multiaddr \<Rightarrow> address_book \<times> bool" where
  "register_configured_node_addr b node_id peer addr =
     (if ab_nodes b node_id = Some (peer, addr) then (b, False)
      else (b\<lparr>ab_nodes := (ab_nodes b)(node_id \<mapsto> (peer, addr))\<rparr>, True))"

text \<open>The result of \<open>register_node\<close> with the address it dials, if any.\<close>

definition register_node ::
  "(string \<Rightarrow> multiaddr option) \<Rightarrow> string \<Rightarrow> address_book \<Rightarrow> string \<Rightarrow> string \<Rightarrow> address_book \<times> multiaddr option result" where
  "register_node parse local b node_id addr =
     (case parse_p2p_addr parse addr of
        Inl e \<Rightarrow> (b, Inl e)
      | Inr (peer, maddr) \<Rightarrow>
          (let (b1, should_dial) = register_configured_node_addr b node_id peer maddr in
           if peer = local then (b1, Inr None)
           else if should_dial then (b1, Inr (Some maddr)) else (b1, Inr None)))"

definition register_node_addr :: "address_book \<Rightarrow> string \<Rightarrow> string \<Rightarrow> multiaddr \<Rightarrow> address_book \<times> bool" where
  "register_node_addr b node_id peer addr =
     (case ab_nodes b node_id of
        Some (stored_peer, stored_addr) \<Rightarrow>
          if stored_peer = peer \<and> stored_addr = addr then (b, False)
          else if stored_peer = peer \<and> \<not> is_loopback_addr stored_addr \<and> is_loopback_addr addr then (b, False)
          else (b\<lparr>ab_nodes := (ab_nodes b)(node_id \<mapsto> (peer, addr))\<rparr>, True)
      | None \<Rightarrow> (b\<lparr>ab_nodes := (ab_nodes b)(node_id \<mapsto> (peer, addr))\<rparr>, True))"

datatype scan_outcome = NotFound | Keep | Ignore | Updated

text \<open>The first entry of the peer, in the order of the iteration.\<close>

fun find_peer :: "(string \<Rightarrow> (string \<times> multiaddr) option) \<Rightarrow> string \<Rightarrow> string list \<Rightarrow> (string \<times> multiaddr) option" where
  "find_peer nodes peer [] = None"
| "find_peer nodes peer (n # ns) = (case nodes n of
      Some (p, addr) \<Rightarrow> if p = peer then Some (n, addr) else find_peer nodes peer ns
    | None \<Rightarrow> find_peer nodes peer ns)"

definition scan_discovered :: "address_book \<Rightarrow> string list \<Rightarrow> string \<Rightarrow> multiaddr \<Rightarrow> address_book \<times> scan_outcome" where
  "scan_discovered b order peer addr = (case find_peer (ab_nodes b) peer order of
      None \<Rightarrow> (b, NotFound)
    | Some (n, stored_addr) \<Rightarrow>
        if stored_addr = addr then (b, Keep)
        else if \<not> should_use_discovered_addr stored_addr addr then (b, Ignore)
        else if is_unspecified_addr stored_addr then (b\<lparr>ab_nodes := (ab_nodes b)(n \<mapsto> (peer, addr))\<rparr>, Updated)
        else (b, Keep))"

definition register_discovered_peer ::
  "string \<Rightarrow> address_book \<Rightarrow> string list \<Rightarrow> string \<Rightarrow> multiaddr \<Rightarrow> address_book \<times> bool" where
  "register_discovered_peer local b order peer addr0 =
     (if peer = local then (b, False)
      else let addr = ensure_p2p_addr addr0 peer in
        if is_undialable_discovered_addr addr then (b, False)
        else (case scan_discovered b order peer addr of
            (b1, NotFound) \<Rightarrow> register_node_addr b1 peer peer addr
          | (b1, Keep) \<Rightarrow> (b1, True)
          | (b1, Ignore) \<Rightarrow> (b1, False)
          | (b1, Updated) \<Rightarrow> (b1, True)))"

definition update_peer_addr_from_mdns ::
  "address_book \<Rightarrow> string list \<Rightarrow> string \<Rightarrow> multiaddr \<Rightarrow> address_book \<times> bool" where
  "update_peer_addr_from_mdns b order peer addr0 =
     (let candidate = ensure_p2p_addr addr0 peer in
      case scan_discovered b order peer candidate of
        (b1, NotFound) \<Rightarrow> (b1, \<not> is_undialable_discovered_addr candidate)
      | (b1, Keep) \<Rightarrow> (b1, True)
      | (b1, Ignore) \<Rightarrow> (b1, False)
      | (b1, Updated) \<Rightarrow> (b1, True))"

definition mark_peer_announced :: "address_book \<Rightarrow> nat \<Rightarrow> string \<Rightarrow> nat \<Rightarrow> address_book" where
  "mark_peer_announced b now peer ttl = b\<lparr>ab_announced := (ab_announced b)(peer \<mapsto> (now, ttl))\<rparr>"

definition register_announced_node ::
  "(string \<Rightarrow> multiaddr option) \<Rightarrow> string \<Rightarrow> nat \<Rightarrow> address_book \<Rightarrow> string \<Rightarrow> string \<Rightarrow> u64 \<Rightarrow> address_book \<times> unit result" where
  "register_announced_node parse local now b node_id addr announce_interval_ms =
     (case parse_p2p_addr parse addr of
        Inl e \<Rightarrow> (b, Inl e)
      | Inr (peer, maddr) \<Rightarrow>
          if peer = local then (b, Inr ())
          else
            (let b1 = mark_peer_announced b now peer (peer_alive_ttl announce_interval_ms) in
             if ab_nodes b1 node_id = Some (peer, maddr) then (b1, Inr ())
             else (fst (register_configured_node_addr b1 node_id peer maddr), Inr ())))"

subsection \<open>Pins\<close>

definition pin_peer :: "string \<Rightarrow> address_book \<Rightarrow> string \<Rightarrow> address_book" where
  "pin_peer local b peer = (if peer = local then b else b\<lparr>ab_pins := (ab_pins b)(peer \<mapsto> Permanent)\<rparr>)"

definition pin_peer_with_ttl :: "string \<Rightarrow> nat \<Rightarrow> address_book \<Rightarrow> string \<Rightarrow> nat \<Rightarrow> address_book" where
  "pin_peer_with_ttl local now b peer ttl =
     (if peer = local then b
      else let until = now + ttl in
        case ab_pins b peer of
          Some Permanent \<Rightarrow> b
        | Some (Until existing) \<Rightarrow>
            if until < existing then b else b\<lparr>ab_pins := (ab_pins b)(peer \<mapsto> Until until)\<rparr>
        | None \<Rightarrow> b\<lparr>ab_pins := (ab_pins b)(peer \<mapsto> Until until)\<rparr>)"

definition pin_raft_peer :: "string \<Rightarrow> nat \<Rightarrow> address_book \<Rightarrow> string \<Rightarrow> address_book" where
  "pin_raft_peer local now b peer = pin_peer_with_ttl local now b peer RAFT_PEER_PIN_TTL"

definition pin_bootstrap_peer :: "string \<Rightarrow> nat \<Rightarrow> address_book \<Rightarrow> string \<Rightarrow> address_book" where
  "pin_bootstrap_peer local now b peer = pin_peer_with_ttl local now b peer BOOTSTRAP_PEER_PIN_TTL"

definition pin_live :: "nat \<Rightarrow> peer_pin \<Rightarrow> bool" where
  "pin_live now pin = (case pin of Permanent \<Rightarrow> True | Until until \<Rightarrow> now < until)"

subsection \<open>Reads, connections and removal\<close>

definition known_nodes :: "address_book \<Rightarrow> string list \<Rightarrow> (string \<times> string \<times> multiaddr) list" where
  "known_nodes b order = concat (map (\<lambda>n. case ab_nodes b n of Some (p, a) \<Rightarrow> [(n, p, a)] | None \<Rightarrow> []) order)"

definition reconnect_targets :: "nat \<Rightarrow> address_book \<Rightarrow> string list \<Rightarrow> address_book \<times> (string \<times> string \<times> multiaddr) list" where
  "reconnect_targets now b order =
     (let b1 = b\<lparr>ab_pins := (\<lambda>p. case ab_pins b p of Some pin \<Rightarrow> if pin_live now pin then Some pin else None | None \<Rightarrow> None)\<rparr> in
      (b1, filter (\<lambda>(_, peer, _). ab_pins b1 peer \<noteq> None) (known_nodes b1 order)))"

definition remove_known_node :: "address_book \<Rightarrow> string \<Rightarrow> address_book \<times> bool" where
  "remove_known_node b node_id = (case ab_nodes b node_id of
      None \<Rightarrow> (b, False)
    | Some (peer, _) \<Rightarrow>
        (b\<lparr>ab_nodes := (ab_nodes b)(node_id := None), ab_pins := (ab_pins b)(peer := None),
           ab_announced := (ab_announced b)(peer := None)\<rparr>, True))"

definition set_peer_connected :: "string \<Rightarrow> address_book \<Rightarrow> string \<Rightarrow> address_book" where
  "set_peer_connected local b peer = (if peer = local then b else b\<lparr>ab_connected := insert peer (ab_connected b)\<rparr>)"

definition set_peer_disconnected :: "address_book \<Rightarrow> string \<Rightarrow> address_book" where
  "set_peer_disconnected b peer = b\<lparr>ab_connected := ab_connected b - {peer}\<rparr>"

definition is_peer_connected :: "string \<Rightarrow> address_book \<Rightarrow> string \<Rightarrow> bool" where
  "is_peer_connected local b peer \<longleftrightarrow> peer = local \<or> peer \<in> ab_connected b"

definition is_peer_alive :: "string \<Rightarrow> nat \<Rightarrow> address_book \<Rightarrow> string \<Rightarrow> bool" where
  "is_peer_alive local now b peer \<longleftrightarrow> is_peer_connected local b peer \<or>
     (case ab_announced b peer of Some (at, ttl) \<Rightarrow> now - at < ttl | None \<Rightarrow> False)"

section \<open>Outbound requests\<close>

definition peer_addr_for :: "address_book \<Rightarrow> string \<Rightarrow> (string \<times> multiaddr) result" where
  "peer_addr_for b node_id = (case ab_nodes b node_id of
      Some pa \<Rightarrow> Inr pa | None \<Rightarrow> Inl (''unknown target node_id='' @ node_id))"

text \<open>The client of the event loop: its two ways to connect, and a request on a connected peer.\<close>

record ('q, 'a) rpc_client =
  rc_connect :: "string \<Rightarrow> multiaddr \<Rightarrow> unit result"
  rc_connect_any :: "string \<Rightarrow> unit result"
  rc_request :: "string \<Rightarrow> 'q \<Rightarrow> 'a result"

definition guarded ::
  "peer_rpc_guard \<Rightarrow> rpc_kind \<Rightarrow> string \<Rightarrow> u64 \<Rightarrow> u64 \<Rightarrow> 'a result \<Rightarrow> peer_rpc_guard \<times> 'a result" where
  "guarded g kind peer now_ms later_ms rpc = (case try_acquire g kind peer now_ms later_ms of
      (g1, Inl rejection) \<Rightarrow> (g1, Inl (''peer='' @ peer @ '': '' @ show_rejection rejection))
    | (g1, Inr permit) \<Rightarrow>
        (drop_permit permit (case rpc of Inr _ \<Rightarrow> record_success permit g1 | Inl _ \<Rightarrow> record_failure permit g1), rpc))"

definition connected_request :: "('q, 'a) rpc_client \<Rightarrow> string \<Rightarrow> multiaddr \<Rightarrow> 'q \<Rightarrow> 'a result" where
  "connected_request cl peer addr req =
     rbind (case rc_connect cl peer addr of
              Inl err \<Rightarrow> if is_loopback_addr addr \<or> is_link_local_addr addr then Inl err else rc_connect_any cl peer
            | Inr _ \<Rightarrow> Inr ())
       (\<lambda>_. rc_request cl peer req)"

definition request_node ::
  "('q, 'a) rpc_client \<Rightarrow> string \<Rightarrow> nat \<Rightarrow> u64 \<Rightarrow> u64 \<Rightarrow> rpc_kind \<Rightarrow> address_book \<Rightarrow> peer_rpc_guard \<Rightarrow> string \<Rightarrow> 'q \<Rightarrow>
   address_book \<times> peer_rpc_guard \<times> 'a result" where
  "request_node cl local now now_ms later_ms kind b g node_id req = (case peer_addr_for b node_id of
      Inl e \<Rightarrow> (b, g, Inl e)
    | Inr (peer, addr) \<Rightarrow>
        if peer = local then (b, g, Inl (''self dial blocked: node_id='' @ node_id @ '', peer='' @ peer))
        else (let b1 = (if kind = Raft then pin_raft_peer local now b peer else b) in
          case guarded g kind peer now_ms later_ms (connected_request cl peer addr req) of (g1, r) \<Rightarrow> (b1, g1, r)))"

section \<open>Event handlers\<close>

record node_announcement =
  na_node_id :: string
  na_addr :: string
  na_interval_ms :: u64

text \<open>A batch of announcements: the newest of each node, then their registration in the order of the map.\<close>

definition latest_announcements ::
  "('d \<Rightarrow> node_announcement option) \<Rightarrow> 'd list \<Rightarrow> string \<Rightarrow> node_announcement option" where
  "latest_announcements decode raw =
     foldl (\<lambda>latest data. case decode data of Some a \<Rightarrow> latest(na_node_id a \<mapsto> a) | None \<Rightarrow> latest) Map.empty raw"

definition process_announcements ::
  "('d \<Rightarrow> node_announcement option) \<Rightarrow> (string \<Rightarrow> multiaddr option) \<Rightarrow> string \<Rightarrow> nat \<Rightarrow> 'd list \<Rightarrow> string list \<Rightarrow> address_book \<Rightarrow> address_book" where
  "process_announcements decode parse local now raw order b =
     foldl (\<lambda>b n. case latest_announcements decode raw n of
        Some a \<Rightarrow> fst (register_announced_node parse local now b (na_node_id a) (na_addr a) (na_interval_ms a))
      | None \<Rightarrow> b) b order"

record membership_announcement =
  ma_group_id :: string
  ma_voter_ids :: "string list"
  ma_leader_id :: string
  ma_log_index :: u64

definition handle_membership_announcement ::
  "('d \<Rightarrow> membership_announcement option) \<Rightarrow> address_book \<Rightarrow> 'd \<Rightarrow> address_book" where
  "handle_membership_announcement decode b data = (case decode data of
      None \<Rightarrow> b
    | Some a \<Rightarrow> if ma_group_id a = [] then b
        else apply_gossip_membership b (ma_group_id a)
          \<lparr>gv_voters = set (ma_voter_ids a), gv_leader_id = ma_leader_id a, gv_log_index = ma_log_index a\<rparr>)"

text \<open>A discovered address, with whether it enters the routing table of kademlia.\<close>

definition handle_mdns_discovered :: "string \<Rightarrow> address_book \<Rightarrow> string list \<Rightarrow> string list \<Rightarrow> string \<Rightarrow> multiaddr \<Rightarrow> address_book \<times> bool" where
  "handle_mdns_discovered local b order order' peer addr =
     (if is_undialable_discovered_addr addr then (b, False)
      else let (b1, use1) = update_peer_addr_from_mdns b order peer addr;
               (b2, use2) = register_discovered_peer local b1 order' peer addr in
        (b2, use1 \<or> use2))"

section \<open>The announcer and the pruner\<close>

definition NODE_ANNOUNCE_SCALE_THRESHOLD :: nat where "NODE_ANNOUNCE_SCALE_THRESHOLD = 64"
definition NODE_ANNOUNCE_MAX_INTERVAL :: nat where "NODE_ANNOUNCE_MAX_INTERVAL = 300 * 1000"

definition adaptive_announce_interval_with_base :: "nat \<Rightarrow> nat \<Rightarrow> nat" where
  "adaptive_announce_interval_with_base base known =
     (let factor = max ((known + NODE_ANNOUNCE_SCALE_THRESHOLD - 1) div NODE_ANNOUNCE_SCALE_THRESHOLD) 1 in
      min (base * min factor (2 ^ 32 - 1)) NODE_ANNOUNCE_MAX_INTERVAL)"

definition adaptive_announce_interval :: "nat \<Rightarrow> nat" where
  "adaptive_announce_interval known = adaptive_announce_interval_with_base NODE_ANNOUNCE_INTERVAL_MS known"

text \<open>The groups of the registry, by their member ids.\<close>

definition is_openraft_member_of_any_group :: "string set list \<Rightarrow> string \<Rightarrow> bool" where
  "is_openraft_member_of_any_group groups node_id \<longleftrightarrow> list_ex (\<lambda>members. node_id \<in> members) groups"

type_synonym prune_state = "address_book \<times> (string \<Rightarrow> nat option) \<times> string set"

definition prune_node :: "string \<Rightarrow> string \<Rightarrow> nat \<Rightarrow> nat \<Rightarrow> string set list \<Rightarrow> prune_state \<Rightarrow> string \<times> string \<times> multiaddr \<Rightarrow> prune_state" where
  "prune_node self local now timeout groups st entry =
     (case (st, entry) of ((b, down, present), (node_id, peer, _)) \<Rightarrow>
        if node_id = self then st
        else if is_peer_alive local now b peer then (b, down(node_id := None), insert node_id present)
        else if is_openraft_member_of_any_group groups node_id then (b, down(node_id := None), insert node_id present)
        else (let since = (case down node_id of Some s \<Rightarrow> s | None \<Rightarrow> now) in
          if timeout \<le> now - since then (fst (remove_known_node b node_id), down(node_id := None), insert node_id present)
          else (b, down(node_id \<mapsto> since), insert node_id present)))"

definition prune_tick :: "string \<Rightarrow> string \<Rightarrow> nat \<Rightarrow> nat \<Rightarrow> string set list \<Rightarrow> string list \<Rightarrow> address_book \<Rightarrow> (string \<Rightarrow> nat option) \<Rightarrow>
    address_book \<times> (string \<Rightarrow> nat option)" where
  "prune_tick self local now timeout groups order b down =
     (case foldl (prune_node self local now timeout groups) (b, down, {}) (known_nodes b order) of
        (b1, down1, present) \<Rightarrow> (b1, \<lambda>n. if n \<in> present then down1 n else None))"

section \<open>Addresses that discovery may store\<close>

lemma ip_of_ensured [simp]: "addr_ip (ensure_p2p_addr a peer) = addr_ip a"
  by (induction a rule: addr_ip.induct) (auto simp: ensure_p2p_addr_def split: if_splits)

lemma undialable_of_ensured [simp]:
  "is_undialable_discovered_addr (ensure_p2p_addr a peer) = is_undialable_discovered_addr a"
  by (simp add: is_undialable_discovered_addr_def is_unspecified_addr_def is_link_local_addr_def)

lemma find_peer_Some: "find_peer nodes peer order = Some (n, a) \<Longrightarrow> n \<in> set order \<and> nodes n = Some (peer, a)"
  by (induction order) (auto split: option.splits if_splits)

lemma find_peer_None: "find_peer nodes peer order = None \<longleftrightarrow> (\<forall>n\<in>set order. \<forall>a. nodes n \<noteq> Some (peer, a))"
  by (induction order) (auto split: option.splits)

text \<open>What a scan may do to an entry: fill in an unspecified address of the same peer.\<close>

lemma scan_discovered_entry:
  assumes "scan_discovered b order peer addr = (b', out)"
  shows "ab_nodes b' n = ab_nodes b n \<or>
    (\<exists>a. ab_nodes b n = Some (peer, a) \<and> is_unspecified_addr a \<and> ab_nodes b' n = Some (peer, addr))"
proof (cases "find_peer (ab_nodes b) peer order")
  case None
  with assms show ?thesis by (simp add: scan_discovered_def)
next
  case (Some na)
  obtain m a where [simp]: "na = (m, a)" by (cases na)
  from Some have "ab_nodes b m = Some (peer, a)" using find_peer_Some by force
  with assms Some show ?thesis by (auto simp: scan_discovered_def split: if_splits)
qed

lemma scan_discovered_NotFound:
  "scan_discovered b order peer addr = (b', NotFound) \<longleftrightarrow> find_peer (ab_nodes b) peer order = None \<and> b' = b"
  by (auto simp: scan_discovered_def split: option.splits if_splits prod.splits)

lemma update_from_mdns_entry:
  assumes "update_peer_addr_from_mdns b order peer addr = (b', used)"
  shows "ab_nodes b' n = ab_nodes b n \<or>
    (\<exists>a. ab_nodes b n = Some (peer, a) \<and> is_unspecified_addr a \<and> ab_nodes b' n = Some (peer, ensure_p2p_addr addr peer))"
proof -
  obtain b1 out where sc: "scan_discovered b order peer (ensure_p2p_addr addr peer) = (b1, out)"
    by (cases "scan_discovered b order peer (ensure_p2p_addr addr peer)")
  with assms have "b' = b1" by (cases out) (auto simp: update_peer_addr_from_mdns_def)
  with scan_discovered_entry[OF sc] show ?thesis by simp
qed

lemma register_node_addr_entry:
  "register_node_addr b node_id peer addr = (b', r) \<Longrightarrow> n \<noteq> node_id \<Longrightarrow> ab_nodes b' n = ab_nodes b n"
  "register_node_addr b node_id peer addr = (b', r) \<Longrightarrow> ab_nodes b' node_id = ab_nodes b node_id \<or> ab_nodes b' node_id = Some (peer, addr)"
  by (auto simp: register_node_addr_def split: option.splits if_splits)

lemma register_discovered_entry:
  assumes "register_discovered_peer local b order peer addr = (b', used)"
  shows "ab_nodes b' n = ab_nodes b n \<or>
    ab_nodes b' n = Some (peer, ensure_p2p_addr addr peer) \<and>
      ((\<exists>a. ab_nodes b n = Some (peer, a) \<and> is_unspecified_addr a) \<or>
       n = peer \<and> find_peer (ab_nodes b) peer order = None)"
proof (cases "peer = local \<or> is_undialable_discovered_addr addr")
  case True
  with assms show ?thesis by (simp add: register_discovered_peer_def Let_def split: if_splits)
next
  case False
  obtain b1 out where sc: "scan_discovered b order peer (ensure_p2p_addr addr peer) = (b1, out)"
    by (cases "scan_discovered b order peer (ensure_p2p_addr addr peer)")
  show ?thesis
  proof (cases "out = NotFound")
    case True
    with sc have nf: "find_peer (ab_nodes b) peer order = None" "b1 = b" by (simp_all add: scan_discovered_NotFound)
    with assms False sc True have "register_node_addr b peer peer (ensure_p2p_addr addr peer) = (b', used)"
      by (simp add: register_discovered_peer_def)
    with nf register_node_addr_entry show ?thesis by (cases "n = peer") blast+
  next
    case out: False
    with assms False sc have "b' = b1" by (cases out) (auto simp: register_discovered_peer_def)
    with scan_discovered_entry[OF sc, of n] show ?thesis by auto
  qed
qed

section \<open>Histories\<close>

text \<open>A component of a state that some events set and all others leave alone holds what the last of
  those events set.\<close>

locale last_writer =
  fixes step :: "'s \<Rightarrow> 'e \<Rightarrow> 's" and get :: "'s \<Rightarrow> 'v" and touch :: "'s \<Rightarrow> 'e \<Rightarrow> 'v option"
  assumes get_step: "get (step s e) = (case touch s e of Some v \<Rightarrow> v | None \<Rightarrow> get s)"
begin

definition untouched :: "'s \<Rightarrow> 'e list \<Rightarrow> bool" where
  "untouched s es \<longleftrightarrow> (\<forall>xs e ys. es = xs @ e # ys \<longrightarrow> touch (foldl step s xs) e = None)"

lemma untouched_Nil: "untouched s []"
  by (simp add: untouched_def)

lemma untouched_snoc: "untouched s (es @ [e]) \<longleftrightarrow> untouched s es \<and> touch (foldl step s es) e = None"
proof
  assume u: "untouched s (es @ [e])"
  have "touch (foldl step s xs) x = None" if "es = xs @ x # ys" for xs x ys
  proof -
    from that have "es @ [e] = xs @ x # (ys @ [e])" by simp
    with u show ?thesis unfolding untouched_def by blast
  qed
  moreover have "touch (foldl step s es) e = None" using u unfolding untouched_def by blast
  ultimately show "untouched s es \<and> touch (foldl step s es) e = None" by (auto simp: untouched_def)
next
  assume u: "untouched s es \<and> touch (foldl step s es) e = None"
  show "untouched s (es @ [e])"
    unfolding untouched_def
  proof (intro allI impI)
    fix xs x ys
    assume eq: "es @ [e] = xs @ x # ys"
    show "touch (foldl step s xs) x = None"
    proof (cases ys rule: rev_cases)
      case Nil
      with eq u show ?thesis by simp
    next
      case (snoc zs z)
      with eq have "es = xs @ x # zs" by simp
      with u show ?thesis by (auto simp: untouched_def)
    qed
  qed
qed

lemma get_untouched: "untouched s es \<Longrightarrow> get (foldl step s es) = get s"
  by (induction es rule: rev_induct) (auto simp: untouched_snoc get_step)

lemma last_write:
  "untouched s es \<or> (\<exists>xs e ys v. es = xs @ e # ys \<and> touch (foldl step s xs) e = Some v \<and>
     untouched (foldl step s (xs @ [e])) ys)"
proof (induction es rule: rev_induct)
  case Nil
  show ?case by (simp add: untouched_Nil)
next
  case (snoc e es)
  show ?case
  proof (cases "touch (foldl step s es) e")
    case (Some v)
    then show ?thesis using untouched_Nil by blast
  next
    case None
    from snoc.IH show ?thesis
    proof (elim disjE exE conjE)
      assume "untouched s es"
      with None show ?thesis by (simp add: untouched_snoc)
    next
      fix xs x ys v
      assume h: "es = xs @ x # ys" "touch (foldl step s xs) x = Some v" "untouched (foldl step s (xs @ [x])) ys"
      with None have "untouched (foldl step s (xs @ [x])) (ys @ [e])" by (simp add: untouched_snoc)
      with h show ?thesis by (metis append_Cons append_assoc)
    qed
  qed
qed

lemma get_after_write:
  assumes "touch (foldl step s xs) e = Some v" and "untouched (foldl step s (xs @ [e])) ys"
  shows "get (foldl step s (xs @ e # ys)) = v"
proof -
  have "get (foldl step s (xs @ e # ys)) = get (foldl step s (xs @ [e]))"
    using get_untouched[OF assms(2)] by simp
  also have "\<dots> = v" using assms(1) by (simp add: get_step)
  finally show ?thesis .
qed

theorem history:
  "get (foldl step s es) = v \<longleftrightarrow> untouched s es \<and> get s = v \<or>
     (\<exists>xs e ys. es = xs @ e # ys \<and> touch (foldl step s xs) e = Some v \<and> untouched (foldl step s (xs @ [e])) ys)"
  (is "?l \<longleftrightarrow> ?r")
proof
  assume l: ?l
  from last_write[of s es] show ?r
  proof (elim disjE exE conjE)
    assume "untouched s es"
    with l get_untouched show ?r by auto
  next
    fix xs e ys w
    assume h: "es = xs @ e # ys" "touch (foldl step s xs) e = Some w" "untouched (foldl step s (xs @ [e])) ys"
    with get_after_write l have "w = v" by metis
    with h show ?r by blast
  qed
next
  assume ?r
  then show ?l using get_untouched get_after_write by blast
qed

end

section \<open>Runs of the book\<close>

text \<open>Each event with its time: the handlers of the event loop, of the gossip topics, of discovery, of
  the HTTP interface and of the maintenance tasks.\<close>

datatype book_event = Connect string | Disconnect string | Announce string string u64
  | Configure string string | Discover "string list" "string list" string multiaddr | Forget string
  | PinForever string | PinUntil string nat | Redial "string list" | View string gossip_membership

fun book_step :: "(string \<Rightarrow> multiaddr option) \<Rightarrow> string \<Rightarrow> address_book \<Rightarrow> nat \<times> book_event \<Rightarrow> address_book" where
  "book_step parse local b (t, Connect p) = set_peer_connected local b p"
| "book_step parse local b (t, Disconnect p) = set_peer_disconnected b p"
| "book_step parse local b (t, Announce n a i) = fst (register_announced_node parse local t b n a i)"
| "book_step parse local b (t, Configure n a) = fst (register_node parse local b n a)"
| "book_step parse local b (t, Discover o1 o2 p a) = fst (handle_mdns_discovered local b o1 o2 p a)"
| "book_step parse local b (t, Forget n) = fst (remove_known_node b n)"
| "book_step parse local b (t, PinForever p) = pin_peer local b p"
| "book_step parse local b (t, PinUntil p ttl) = pin_peer_with_ttl local t b p ttl"
| "book_step parse local b (t, Redial order) = fst (reconnect_targets t b order)"
| "book_step parse local b (t, View g m) = apply_gossip_membership b g m"

abbreviation book_run :: "(string \<Rightarrow> multiaddr option) \<Rightarrow> string \<Rightarrow> (nat \<times> book_event) list \<Rightarrow> address_book" where
  "book_run parse local es \<equiv> foldl (book_step parse local) address_book_new es"

text \<open>What an event says about the liveness of a peer: an announcement of it, or that the node entered
  under it is forgotten.\<close>

fun announcement_of :: "(string \<Rightarrow> multiaddr option) \<Rightarrow> string \<Rightarrow> string \<Rightarrow> book_event \<Rightarrow> nat option" where
  "announcement_of parse local p (Announce n a i) = (case parse_p2p_addr parse a of
      Inr (peer, _) \<Rightarrow> if peer = p \<and> p \<noteq> local then Some (peer_alive_ttl i) else None
    | Inl _ \<Rightarrow> None)"
| "announcement_of parse local p _ = None"

fun forgets :: "address_book \<Rightarrow> string \<Rightarrow> book_event \<Rightarrow> bool" where
  "forgets b p (Forget n) = (case ab_nodes b n of Some (peer, _) \<Rightarrow> peer = p | None \<Rightarrow> False)"
| "forgets b p _ = False"

fun heard_touch :: "(string \<Rightarrow> multiaddr option) \<Rightarrow> string \<Rightarrow> string \<Rightarrow> address_book \<Rightarrow> nat \<times> book_event \<Rightarrow> (nat \<times> nat) option option" where
  "heard_touch parse local p b (t, ev) =
     (case announcement_of parse local p ev of Some ttl \<Rightarrow> Some (Some (t, ttl))
      | None \<Rightarrow> if forgets b p ev then Some None else None)"

fun link_touch :: "string \<Rightarrow> string \<Rightarrow> nat \<times> book_event \<Rightarrow> bool option" where
  "link_touch local p (t, Connect q) = (if q = p \<and> p \<noteq> local then Some True else None)"
| "link_touch local p (t, Disconnect q) = (if q = p then Some False else None)"
| "link_touch local p (t, _) = None"

lemma scan_discovered_rest:
  "scan_discovered b order peer addr = (b', out) \<Longrightarrow>
   ab_announced b' = ab_announced b \<and> ab_connected b' = ab_connected b"
  by (auto simp: scan_discovered_def split: option.splits if_splits prod.splits)

lemma register_node_addr_rest:
  "ab_announced (fst (register_node_addr b n p a)) = ab_announced b \<and>
   ab_connected (fst (register_node_addr b n p a)) = ab_connected b"
  by (auto simp: register_node_addr_def split: option.splits if_splits prod.splits)

lemma register_discovered_rest:
  "ab_announced (fst (register_discovered_peer local b order p a)) = ab_announced b \<and>
   ab_connected (fst (register_discovered_peer local b order p a)) = ab_connected b"
  by (auto simp: register_discovered_peer_def Let_def register_node_addr_rest
      dest!: scan_discovered_rest split: prod.splits scan_outcome.splits)

lemma update_from_mdns_rest:
  "ab_announced (fst (update_peer_addr_from_mdns b order p a)) = ab_announced b \<and>
   ab_connected (fst (update_peer_addr_from_mdns b order p a)) = ab_connected b"
  by (auto simp: update_peer_addr_from_mdns_def Let_def dest!: scan_discovered_rest
      split: prod.splits scan_outcome.splits)

lemma handle_mdns_rest:
  "ab_announced (fst (handle_mdns_discovered local b o1 o2 p a)) = ab_announced b \<and>
   ab_connected (fst (handle_mdns_discovered local b o1 o2 p a)) = ab_connected b"
  using update_from_mdns_rest[of b o1 p a]
    register_discovered_rest[of local "fst (update_peer_addr_from_mdns b o1 p a)" o2 p a]
  by (simp add: handle_mdns_discovered_def split_beta)

lemma register_configured_rest:
  "ab_announced (fst (register_configured_node_addr b n p a)) = ab_announced b \<and>
   ab_connected (fst (register_configured_node_addr b n p a)) = ab_connected b"
  by (simp add: register_configured_node_addr_def)

lemma register_announced_rest:
  "ab_connected (fst (register_announced_node parse local t b n a i)) = ab_connected b"
  by (simp add: register_announced_node_def mark_peer_announced_def register_configured_rest Let_def
      split: sum.split prod.split)

lemma register_node_rest:
  "ab_announced (fst (register_node parse local b n a)) = ab_announced b \<and>
   ab_connected (fst (register_node parse local b n a)) = ab_connected b"
  by (simp add: register_node_def register_configured_rest split_beta split: sum.split)

lemma pin_rest:
  "ab_announced (pin_peer local b p) = ab_announced b \<and> ab_connected (pin_peer local b p) = ab_connected b \<and>
   ab_announced (pin_peer_with_ttl local t b p ttl) = ab_announced b \<and>
   ab_connected (pin_peer_with_ttl local t b p ttl) = ab_connected b"
  by (auto simp: pin_peer_def pin_peer_with_ttl_def Let_def split: option.split peer_pin.split)

lemma apply_gossip_rest:
  "ab_announced (apply_gossip_membership b g m) = ab_announced b \<and>
   ab_connected (apply_gossip_membership b g m) = ab_connected b"
  by (simp add: apply_gossip_membership_def Let_def)

lemma remove_known_rest:
  "ab_connected (fst (remove_known_node b n)) = ab_connected b"
  by (auto simp: remove_known_node_def split: option.split)

lemmas book_rest = handle_mdns_rest register_announced_rest register_node_rest pin_rest apply_gossip_rest
  remove_known_rest

interpretation heard: last_writer "book_step parse local" "\<lambda>b. ab_announced b p" "heard_touch parse local p"
  for parse local p
proof unfold_locales
  fix b e
  show "ab_announced (book_step parse local b e) p =
    (case heard_touch parse local p b e of Some v \<Rightarrow> v | None \<Rightarrow> ab_announced b p)"
  proof (cases e)
    case (Pair t ev)
    show ?thesis
    proof (cases ev)
      case (Announce n a i)
      with Pair show ?thesis
        by (auto simp: register_announced_node_def mark_peer_announced_def register_configured_rest Let_def
            split: sum.split prod.split)
    next
      case (Forget n)
      with Pair show ?thesis by (auto simp: remove_known_node_def split: option.split)
    qed (use Pair in \<open>auto simp: book_rest set_peer_connected_def set_peer_disconnected_def reconnect_targets_def Let_def\<close>)
  qed
qed

interpretation link: last_writer "book_step parse local" "\<lambda>b. p \<in> ab_connected b" "\<lambda>_. link_touch local p"
  for parse local p
proof unfold_locales
  fix b e
  show "(p \<in> ab_connected (book_step parse local b e)) =
    (case link_touch local p e of Some v \<Rightarrow> v | None \<Rightarrow> p \<in> ab_connected b)"
  proof (cases e)
    case (Pair t ev)
    show ?thesis
      by (cases ev) (use Pair in \<open>auto simp: book_rest set_peer_connected_def set_peer_disconnected_def reconnect_targets_def Let_def\<close>)
  qed
qed

end
