(* ===== verification/BookUpkeep.thy ===== *)
theory BookUpkeep
  imports AddressBook
begin

text \<open>
  What keeps the address book usable: the newest membership view of each group, pins that only get
  longer, an announcement interval that bounds the traffic, and a pruner that removes only nodes that
  stayed dead.
\<close>

section \<open>Membership views\<close>

definition announced_view :: "('d \<Rightarrow> membership_announcement option) \<Rightarrow> 'd \<Rightarrow> (string \<times> gossip_membership) option" where
  "announced_view decode data = (case decode data of
      None \<Rightarrow> None
    | Some a \<Rightarrow> if ma_group_id a = [] then None
        else Some (ma_group_id a,
          \<lparr>gv_voters = set (ma_voter_ids a), gv_leader_id = ma_leader_id a, gv_log_index = ma_log_index a\<rparr>))"

lemma handle_announcement_view:
  "handle_membership_announcement decode b data = (case announced_view decode data of
     Some (g, m) \<Rightarrow> apply_gossip_membership b g m | None \<Rightarrow> b)"
  by (simp add: handle_membership_announcement_def announced_view_def split: option.split)

abbreviation hear :: "('d \<Rightarrow> membership_announcement option) \<Rightarrow> 'd list \<Rightarrow> address_book" where
  "hear decode ds \<equiv> foldl (handle_membership_announcement decode) address_book_new ds"

section \<open>Pins\<close>

definition pin_le :: "peer_pin option \<Rightarrow> peer_pin option \<Rightarrow> bool" where
  "pin_le p q \<longleftrightarrow> (case p of None \<Rightarrow> True | Some Permanent \<Rightarrow> q = Some Permanent
     | Some (Until t) \<Rightarrow> (case q of Some (Until u) \<Rightarrow> t \<le> u | Some Permanent \<Rightarrow> True | None \<Rightarrow> False))"

lemma pin_with_ttl_extends: "pin_le (ab_pins b q) (ab_pins (pin_peer_with_ttl local now b p ttl) q)"
  by (auto simp: pin_peer_with_ttl_def pin_le_def Let_def split: option.split peer_pin.split)

lemma pin_peer_extends: "pin_le (ab_pins b q) (ab_pins (pin_peer local b p) q)"
  by (auto simp: pin_peer_def pin_le_def split: option.split peer_pin.split)

lemma pinned_until:
  "p \<noteq> local \<Longrightarrow> t < now + ttl \<Longrightarrow> \<exists>pin. ab_pins (pin_peer_with_ttl local now b p ttl) p = Some pin \<and> pin_live t pin"
  by (auto simp: pin_peer_with_ttl_def pin_live_def Let_def split: option.split peer_pin.split)

lemma known_nodes_mem: "(n, p, a) \<in> set (known_nodes b order) \<longleftrightarrow> n \<in> set order \<and> ab_nodes b n = Some (p, a)"
  by (auto simp: known_nodes_def split: option.splits)

lemma reconnect_targets_exact:
  "(n, p, a) \<in> set (snd (reconnect_targets now b order)) \<longleftrightarrow>
     n \<in> set order \<and> ab_nodes b n = Some (p, a) \<and> (\<exists>pin. ab_pins b p = Some pin \<and> pin_live now pin)"
  by (auto simp: reconnect_targets_def Let_def known_nodes_mem split: option.splits if_splits)

section \<open>The announcement interval\<close>

lemma adaptive_interval_bounds:
  assumes "base \<le> NODE_ANNOUNCE_MAX_INTERVAL"
  shows "base \<le> adaptive_announce_interval_with_base base known"
    and "adaptive_announce_interval_with_base base known \<le> NODE_ANNOUNCE_MAX_INTERVAL"
  using assms by (auto simp: adaptive_announce_interval_with_base_def Let_def)

lemma adaptive_interval_mono:
  "known \<le> known' \<Longrightarrow> adaptive_announce_interval_with_base base known \<le> adaptive_announce_interval_with_base base known'"
  unfolding adaptive_announce_interval_with_base_def Let_def
  by (intro min.mono mult_le_mono max.mono div_le_mono diff_le_mono add_le_mono) auto

text \<open>Below the cap, all nodes together send at most as many announcements as a full threshold of
  nodes does at the base interval.\<close>

lemma adaptive_interval_rate:
  assumes "adaptive_announce_interval_with_base base known < NODE_ANNOUNCE_MAX_INTERVAL" and "known < 2 ^ 32"
  shows "base * known \<le> NODE_ANNOUNCE_SCALE_THRESHOLD * adaptive_announce_interval_with_base base known"
proof -
  define f where "f = max ((63 + known) div 64) 1"
  have fle: "f \<le> 2 ^ 32 - 1" using assms(2) by (auto simp: f_def)
  have "known \<le> 64 * f" by (simp add: f_def)
  then have "base * known \<le> 64 * (base * f)" by (metis mult.left_commute mult_le_mono2)
  moreover have "adaptive_announce_interval_with_base base known = base * f"
    using assms(1) fle by (simp add: adaptive_announce_interval_with_base_def NODE_ANNOUNCE_SCALE_THRESHOLD_def f_def Let_def)
  ultimately show ?thesis by (simp add: NODE_ANNOUNCE_SCALE_THRESHOLD_def)
qed

section \<open>The pruner\<close>

text \<open>A node that a tick may prune: another node, in no group, in the book under a peer that is neither
  connected nor announced lately.\<close>

definition prunable :: "string \<Rightarrow> string \<Rightarrow> nat \<Rightarrow> string set list \<Rightarrow> address_book \<Rightarrow> string \<Rightarrow> bool" where
  "prunable self local now groups b n \<longleftrightarrow> n \<noteq> self \<and> \<not> is_openraft_member_of_any_group groups n \<and>
     (\<exists>p a. ab_nodes b n = Some (p, a) \<and> \<not> is_peer_alive local now b p)"

definition since_of :: "nat \<Rightarrow> nat option \<Rightarrow> nat" where
  "since_of now c = (case c of Some s \<Rightarrow> s | None \<Rightarrow> now)"

lemma remove_known_nodes: "ab_nodes (fst (remove_known_node b n)) m = (if m = n then None else ab_nodes b m)"
  by (auto simp: remove_known_node_def split: option.split)

lemma remove_known_alive:
  assumes "ab_nodes b n = Some (p, a)" and "\<not> is_peer_alive local now b p"
  shows "is_peer_alive local now (fst (remove_known_node b n)) q = is_peer_alive local now b q"
  using assms by (auto simp: remove_known_node_def is_peer_alive_def is_peer_connected_def)

text \<open>The entry and the clock that a tick leaves for a node of the book.\<close>

definition fate :: "string \<Rightarrow> string \<Rightarrow> nat \<Rightarrow> nat \<Rightarrow> string set list \<Rightarrow> address_book \<Rightarrow> nat option \<Rightarrow> string \<Rightarrow>
    (string \<times> multiaddr) option \<times> nat option" where
  "fate self local now timeout groups b clock n =
     (if prunable self local now groups b n
      then (if timeout \<le> now - since_of now clock then (None, None) else (ab_nodes b n, Some (since_of now clock)))
      else (ab_nodes b n, None))"

lemma fate_cong:
  assumes "is_peer_alive local now b' = is_peer_alive local now b" and "ab_nodes b' n = ab_nodes b n"
  shows "fate self local now timeout groups b' clock n = fate self local now timeout groups b clock n"
proof -
  have "prunable self local now groups b' n = prunable self local now groups b n"
    unfolding prunable_def assms ..
  with assms(2) show ?thesis unfolding fate_def by presburger
qed

text \<open>One entry: liveness stays, the other nodes are untouched, and the fate of this one is decided by
  its clock.\<close>

lemma prune_node_effect:
  assumes "prune_node self local now timeout groups (b, down, present) (n, p, a) = (b', down', present')"
    and "ab_nodes b n = Some (p, a)"
  shows "is_peer_alive local now b' = is_peer_alive local now b"
    and "m \<noteq> n \<Longrightarrow> ab_nodes b' m = ab_nodes b m \<and> down' m = down m \<and> (m \<in> present' \<longleftrightarrow> m \<in> present)"
    and "n \<noteq> self \<Longrightarrow> n \<in> present' \<and> (ab_nodes b' n, down' n) = fate self local now timeout groups b (down n) n"
    and "n = self \<Longrightarrow> ab_nodes b' n = ab_nodes b n \<and> (n \<in> present' \<longleftrightarrow> n \<in> present)"
  using assms remove_known_alive[OF assms(2), of local now]
  by (auto simp: prune_node_def prunable_def since_of_def fate_def Let_def remove_known_nodes fun_eq_iff
      split: if_splits option.splits)

definition pruned_to :: "string \<Rightarrow> string \<Rightarrow> nat \<Rightarrow> nat \<Rightarrow> string set list \<Rightarrow> prune_state \<Rightarrow> string set \<Rightarrow> prune_state \<Rightarrow> string \<Rightarrow> bool" where
  "pruned_to self local now timeout groups st ns st' n =
     (case (st, st') of ((b, down, present), (b', down', present')) \<Rightarrow>
        if n \<in> ns \<and> n \<noteq> self
        then n \<in> present' \<and> (ab_nodes b' n, down' n) = fate self local now timeout groups b (down n) n
        else ab_nodes b' n = ab_nodes b n \<and> (n \<in> present' \<longleftrightarrow> n \<in> present) \<and> (n \<noteq> self \<longrightarrow> down' n = down n))"

lemma prune_fold:
  assumes "distinct (map fst es)" and "\<forall>(n, p, a)\<in>set es. ab_nodes (fst st) n = Some (p, a)"
  shows "pruned_to self local now timeout groups st (fst ` set es)
    (foldl (prune_node self local now timeout groups) st es) n"
  using assms
proof (induction es arbitrary: st)
  case Nil
  then show ?case by (cases st) (simp add: pruned_to_def)
next
  case (Cons e es)
  obtain m p a where [simp]: "e = (m, p, a)" by (cases e)
  obtain b down present where [simp]: "st = (b, down, present)" by (cases st)
  obtain b1 d1 pr1 where st: "prune_node self local now timeout groups (b, down, present) (m, p, a) = (b1, d1, pr1)"
    by (cases "prune_node self local now timeout groups (b, down, present) (m, p, a)")
  have bm: "ab_nodes b m = Some (p, a)" using Cons.prems(2) by simp
  note eff = prune_node_effect[OF st bm]
  have mes: "m \<notin> fst ` set es" using Cons.prems(1) by simp
  have "\<forall>(n, p, a)\<in>set es. ab_nodes b1 n = Some (p, a)"
    using Cons.prems(2) eff(2) mes by force
  then have IH: "pruned_to self local now timeout groups (b1, d1, pr1) (fst ` set es)
      (foldl (prune_node self local now timeout groups) (b1, d1, pr1) es) n"
    by (intro Cons.IH) (use Cons.prems(1) in \<open>auto simp del: foldl_append\<close>)
  have fold: "foldl (prune_node self local now timeout groups) st (e # es) =
    foldl (prune_node self local now timeout groups) (b1, d1, pr1) es" using st by simp
  obtain b' d' pr' where res: "foldl (prune_node self local now timeout groups) (b1, d1, pr1) es = (b', d', pr')"
    by (cases "foldl (prune_node self local now timeout groups) (b1, d1, pr1) es")
  show ?case
  proof (cases "n = m")
    case True
    show ?thesis
    proof (cases "m = self")
      case True
      with \<open>n = m\<close> IH eff(4) show ?thesis unfolding fold res by (simp add: pruned_to_def)
    next
      case False
      with \<open>n = m\<close> IH mes eff(3) show ?thesis unfolding fold res by (simp add: pruned_to_def)
    qed
  next
    case False
    then have "fate self local now timeout groups b1 (d1 n) n = fate self local now timeout groups b (down n) n"
      using fate_cong[OF eff(1)] eff(2) by simp
    with False IH eff(2)[OF False] show ?thesis unfolding fold res
      by (cases "n \<in> fst ` set es \<and> n \<noteq> self") (auto simp: pruned_to_def)
  qed
qed

lemma known_nodes_keys: "fst ` set (known_nodes b order) = set order \<inter> dom (ab_nodes b)"
proof (intro set_eqI iffI)
  fix n
  assume "n \<in> set order \<inter> dom (ab_nodes b)"
  then obtain p a where "(n, p, a) \<in> set (known_nodes b order)" by (auto simp: known_nodes_mem)
  then show "n \<in> fst ` set (known_nodes b order)" by force
qed (auto simp: known_nodes_mem)

lemma known_nodes_distinct: "distinct order \<Longrightarrow> distinct (map fst (known_nodes b order))"
proof (induction order)
  case (Cons n order)
  have "n \<notin> fst ` set (known_nodes b order)" using Cons.prems known_nodes_keys[of b order] by simp
  with Cons show ?case by (cases "ab_nodes b n") (simp_all add: known_nodes_def split_beta)
qed (simp add: known_nodes_def)

text \<open>A whole tick.\<close>

lemma prune_tick_effect:
  assumes "prune_tick self local now timeout groups order b down = (b', down')"
    and "distinct order" and "set order = dom (ab_nodes b)"
  shows "(ab_nodes b' n, down' n) =
    (if n = self then (ab_nodes b n, None) else fate self local now timeout groups b (down n) n)"
proof -
  obtain b1 d1 pr where f: "foldl (prune_node self local now timeout groups) (b, down, {}) (known_nodes b order) = (b1, d1, pr)"
    by (cases "foldl (prune_node self local now timeout groups) (b, down, {}) (known_nodes b order)")
  with assms(1) have r: "b' = b1" "down' = (\<lambda>n. if n \<in> pr then d1 n else None)" by (auto simp: prune_tick_def)
  have keys: "fst ` set (known_nodes b order) = dom (ab_nodes b)" using known_nodes_keys assms(3) by simp
  have ent: "\<forall>(n, p, a)\<in>set (known_nodes b order). ab_nodes (fst (b, down, {})) n = Some (p, a)"
    by (auto simp: known_nodes_mem)
  note eff = prune_fold[OF known_nodes_distinct[OF assms(2)] ent,
    where n = n and self = self and local = local and now = now and timeout = timeout and groups = groups, unfolded f keys]
  show ?thesis
  proof (cases "n \<in> dom (ab_nodes b) \<and> n \<noteq> self")
    case True
    with eff r show ?thesis by (simp add: pruned_to_def)
  next
    case False
    then have "n = self \<or> ab_nodes b n = None" by blast
    with False eff r show ?thesis by (auto simp: pruned_to_def fate_def prunable_def)
  qed
qed

section \<open>Runs of the pruner\<close>

text \<open>What the pruner sees at a tick: the time, the timeout of the settings, the groups, and the book,
  which other tasks change between the ticks.\<close>

record prune_view =
  pv_now :: nat
  pv_timeout :: nat
  pv_groups :: "string set list"
  pv_order :: "string list"
  pv_book :: address_book

definition view_ok :: "prune_view \<Rightarrow> bool" where
  "view_ok v \<longleftrightarrow> distinct (pv_order v) \<and> set (pv_order v) = dom (ab_nodes (pv_book v))"

definition prune_view_tick :: "string \<Rightarrow> string \<Rightarrow> prune_view \<Rightarrow> (string \<Rightarrow> nat option) \<Rightarrow> address_book \<times> (string \<Rightarrow> nat option)" where
  "prune_view_tick self local v down = prune_tick self local (pv_now v) (pv_timeout v) (pv_groups v) (pv_order v) (pv_book v) down"

definition prune_clock :: "string \<Rightarrow> string \<Rightarrow> prune_view list \<Rightarrow> string \<Rightarrow> nat option" where
  "prune_clock self local vs = foldl (\<lambda>down v. snd (prune_view_tick self local v down)) Map.empty vs"

abbreviation dead_at :: "string \<Rightarrow> string \<Rightarrow> string \<Rightarrow> prune_view \<Rightarrow> bool" where
  "dead_at self local n v \<equiv> prunable self local (pv_now v) (pv_groups v) (pv_book v) n"

lemma prune_view_tick_effect:
  assumes "prune_view_tick self local v down = (b', down')" and "view_ok v"
  shows "ab_nodes b' n = (if dead_at self local n v \<and> pv_timeout v \<le> pv_now v - since_of (pv_now v) (down n) then None
      else ab_nodes (pv_book v) n)"
    and "down' n = Some s \<Longrightarrow> dead_at self local n v \<and> s = since_of (pv_now v) (down n)"
  using prune_tick_effect[OF assms(1)[unfolded prune_view_tick_def], of n] assms(2)
  by (auto simp: view_ok_def fate_def prunable_def split: if_splits)

lemma prune_clock_dead:
  "list_all view_ok vs \<Longrightarrow> prune_clock self local vs n = Some s \<Longrightarrow>
   \<exists>pre v0 post. vs = pre @ v0 # post \<and> pv_now v0 = s \<and> list_all (dead_at self local n) (v0 # post)"
proof (induction vs arbitrary: s rule: rev_induct)
  case Nil
  then show ?case by (simp add: prune_clock_def)
next
  case (snoc v vs)
  obtain b' d' where t: "prune_view_tick self local v (prune_clock self local vs) = (b', d')"
    by (cases "prune_view_tick self local v (prune_clock self local vs)")
  with snoc.prems(2) have "d' n = Some s" by (simp add: prune_clock_def)
  with prune_view_tick_effect(2)[OF t] snoc.prems(1)
  have dead: "dead_at self local n v" and s: "s = since_of (pv_now v) (prune_clock self local vs n)" by auto
  show ?case
  proof (cases "prune_clock self local vs n")
    case None
    with dead s show ?thesis by (intro exI[of _ vs] exI[of _ v] exI[of _ "[]"]) (simp add: since_of_def)
  next
    case (Some s0)
    with snoc.IH snoc.prems(1) s obtain pre v0 post where
      "vs = pre @ v0 # post" "pv_now v0 = s" "list_all (dead_at self local n) (v0 # post)"
      by (auto simp: since_of_def)
    with dead show ?thesis by (intro exI[of _ pre] exI[of _ v0] exI[of _ "post @ [v]"]) simp
  qed
qed

end
