(* ===== verification/AddressClaims.thy ===== *)
theory AddressClaims
  imports BookUpkeep
begin

text \<open>
  The properties of the address book.
\<close>

section \<open>Discovery\<close>

text \<open>
  Whatever mDNS reports about a peer, an entry of the book changes only to a dialable address of that
  peer, and only if it was an unspecified address of the peer, or the peer had no entry at all and
  gets one under its own id. Addresses that were configured or announced are never replaced.
\<close>

theorem discovery_keeps_addresses:
  assumes "handle_mdns_discovered local b o1 o2 peer addr = (b', used)"
    and "set o2 = dom (ab_nodes b)"
  shows "ab_nodes b' n = ab_nodes b n \<or>
    (\<exists>a'. ab_nodes b' n = Some (peer, a') \<and> \<not> is_undialable_discovered_addr a' \<and>
      ((\<exists>a. ab_nodes b n = Some (peer, a) \<and> is_unspecified_addr a) \<or>
       n = peer \<and> (\<forall>m a. ab_nodes b m \<noteq> Some (peer, a))))"
proof (cases "is_undialable_discovered_addr addr")
  case True
  with assms show ?thesis by (simp add: handle_mdns_discovered_def)
next
  case False
  obtain b1 u1 where u: "update_peer_addr_from_mdns b o1 peer addr = (b1, u1)"
    by (cases "update_peer_addr_from_mdns b o1 peer addr")
  obtain b2 u2 where r: "register_discovered_peer local b1 o2 peer addr = (b2, u2)"
    by (cases "register_discovered_peer local b1 o2 peer addr")
  have b': "b' = b2" using assms(1) False u r by (simp add: handle_mdns_discovered_def)
  have dial: "\<not> is_undialable_discovered_addr (ensure_p2p_addr addr peer)" using False by simp
  note s1 = update_from_mdns_entry[OF u]
  have absent: "\<forall>m a. ab_nodes b m \<noteq> Some (peer, a)" if "find_peer (ab_nodes b1) peer o2 = None"
  proof (intro allI notI)
    fix m a
    assume m: "ab_nodes b m = Some (peer, a)"
    then have "m \<in> set o2" using assms(2) by blast
    moreover have "\<exists>a'. ab_nodes b1 m = Some (peer, a')" using m s1[of m] by auto
    ultimately show False using that by (auto simp: find_peer_None)
  qed
  from register_discovered_entry[OF r, of n] show ?thesis
  proof (elim disjE conjE)
    assume "ab_nodes b2 n = ab_nodes b1 n"
    with s1[of n] dial b' show ?thesis by auto
  next
    assume e: "ab_nodes b2 n = Some (peer, ensure_p2p_addr addr peer)"
      and "\<exists>a. ab_nodes b1 n = Some (peer, a) \<and> is_unspecified_addr a"
    with s1[of n] dial b' show ?thesis by auto
  next
    assume e: "ab_nodes b2 n = Some (peer, ensure_p2p_addr addr peer)" and "n = peer"
      and "find_peer (ab_nodes b1) peer o2 = None"
    with absent dial b' show ?thesis by auto
  qed
qed

section \<open>Liveness\<close>

lemma link_touch_False: "link_touch local p e = Some False \<longleftrightarrow> snd e = Disconnect p"
  by (cases "(local, p, e)" rule: link_touch.cases) auto

lemma link_touch_True: "link_touch local p e = Some True \<longleftrightarrow> snd e = Connect p \<and> p \<noteq> local"
  by (cases "(local, p, e)" rule: link_touch.cases) auto

lemma connected_stays:
  assumes "p \<in> ab_connected b" and "\<forall>u. (u, Disconnect p) \<notin> set ys"
  shows "p \<in> ab_connected (foldl (book_step parse local) b ys)"
  using assms
proof (induction ys arbitrary: b)
  case (Cons e ys)
  have "link_touch local p e \<noteq> Some False" using Cons.prems(2) by (cases e) (auto simp: link_touch_False)
  then have "p \<in> ab_connected (book_step parse local b e)"
    using Cons.prems(1) by (auto simp: link.get_step split: option.split)
  with Cons show ?case by simp
qed simp

lemma last_connect:
  assumes "p \<in> ab_connected (book_run parse local es)"
  shows "\<exists>xs t ys. es = xs @ (t, Connect p) # ys \<and> (\<forall>u. (u, Disconnect p) \<notin> set ys)"
proof -
  have "p \<notin> ab_connected address_book_new" by (simp add: address_book_new_def)
  then obtain xs e ys where h: "es = xs @ e # ys" "link_touch local p e = Some True"
      "link.untouched parse local p (foldl (book_step parse local) address_book_new (xs @ [e])) ys"
    using assms link.history[of p parse local address_book_new es True] by auto
  have "(u, Disconnect p) \<notin> set ys" for u
  proof
    assume "(u, Disconnect p) \<in> set ys"
    then obtain us vs where "ys = us @ (u, Disconnect p) # vs" by (meson split_list)
    with h(3) have "link_touch local p (u, Disconnect p) = None" unfolding link.untouched_def by blast
    then show False by simp
  qed
  with h(1,2) show ?thesis by (cases e) (auto simp: link_touch_True)
qed

lemma heard_touch_None:
  "heard_touch parse local p b (t, ev) = None \<longleftrightarrow> announcement_of parse local p ev = None \<and> \<not> forgets b p ev"
  by (simp split: option.split)

lemma heard_touch_Some:
  "heard_touch parse local p b (u, ev) = Some (Some (t, ttl)) \<longleftrightarrow> u = t \<and> announcement_of parse local p ev = Some ttl"
  by (auto split: option.split)

lemma announcement_of_Some: "announcement_of parse local p ev = Some ttl \<Longrightarrow> \<exists>n a i. ev = Announce n a i"
  by (cases ev) auto

lemma last_announcement:
  "ab_announced (book_run parse local es) p = Some (t, ttl) \<longleftrightarrow>
   (\<exists>xs n a i ys. es = xs @ (t, Announce n a i) # ys \<and> announcement_of parse local p (Announce n a i) = Some ttl \<and>
     (\<forall>us u ev vs. ys = us @ (u, ev) # vs \<longrightarrow> announcement_of parse local p ev = None \<and>
        \<not> forgets (book_run parse local (xs @ (t, Announce n a i) # us)) p ev))"
proof -
  have new: "ab_announced address_book_new p \<noteq> Some (t, ttl)" by (simp add: address_book_new_def)
  have unt: "heard.untouched parse local p (foldl (book_step parse local) address_book_new (xs @ [e])) ys \<longleftrightarrow>
    (\<forall>us u ev vs. ys = us @ (u, ev) # vs \<longrightarrow> announcement_of parse local p ev = None \<and>
        \<not> forgets (book_run parse local (xs @ e # us)) p ev)" for xs e ys
    unfolding heard.untouched_def by (auto simp: heard_touch_None simp del: heard_touch.simps)
  have pick: "(\<exists>xs e ys. es = xs @ e # ys \<and> heard_touch parse local p (B xs) e = Some (Some (t, ttl)) \<and> Q xs e ys) \<longleftrightarrow>
    (\<exists>xs n a i ys. es = xs @ (t, Announce n a i) # ys \<and> announcement_of parse local p (Announce n a i) = Some ttl \<and>
      Q xs (t, Announce n a i) ys)" (is "?l \<longleftrightarrow> ?r") for B Q
  proof
    assume ?l
    then obtain xs u ev ys where h: "es = xs @ (u, ev) # ys" "u = t" "announcement_of parse local p ev = Some ttl" "Q xs (u, ev) ys"
      unfolding split_paired_Ex heard_touch_Some by blast
    moreover obtain n a i where "ev = Announce n a i" using announcement_of_Some[OF h(3)] by blast
    ultimately show ?r by blast
  next
    assume ?r
    then show ?l unfolding split_paired_Ex heard_touch_Some by blast
  qed
  show ?thesis
    unfolding heard.history[where s = address_book_new and es = es and v = "Some (t, ttl)"] unt pick
    using new by blast
qed

text \<open>Whether a node takes a peer for running is determined by the history of its address book: the
  peer is alive at a time exactly if it is the node itself, or its last connection event opened a
  connection, or its last announcement that has not been forgotten since is younger than three of the
  intervals it declared, and than a minute at least. Announcements of others, discovery, configured
  addresses, pins, redials and membership views have no influence.
\<close>

theorem liveness_from_history:
  "is_peer_alive local now (book_run parse local es) p \<longleftrightarrow>
     p = local \<or>
     (\<exists>xs t ys. es = xs @ (t, Connect p) # ys \<and> (\<forall>u. (u, Disconnect p) \<notin> set ys)) \<or>
     (\<exists>t ttl. now - t < ttl \<and>
        (\<exists>xs n a i ys. es = xs @ (t, Announce n a i) # ys \<and> announcement_of parse local p (Announce n a i) = Some ttl \<and>
          (\<forall>us u ev vs. ys = us @ (u, ev) # vs \<longrightarrow> announcement_of parse local p ev = None \<and>
             \<not> forgets (book_run parse local (xs @ (t, Announce n a i) # us)) p ev)))"
  (is "_ \<longleftrightarrow> _ \<or> ?linked \<or> ?heard")
proof -
  have "?linked" if "p \<in> ab_connected (book_run parse local es)"
    using that last_connect by blast
  moreover have "p \<in> ab_connected (book_run parse local es)" if "?linked" "p \<noteq> local"
    using that connected_stays by (force simp: set_peer_connected_def)
  ultimately have "p \<noteq> local \<Longrightarrow> p \<in> ab_connected (book_run parse local es) \<longleftrightarrow> ?linked" by blast
  moreover have "(\<exists>t ttl. now - t < ttl \<and> ab_announced (book_run parse local es) p = Some (t, ttl)) \<longleftrightarrow> ?heard"
    unfolding last_announcement ..
  moreover have "is_peer_alive local now (book_run parse local es) p \<longleftrightarrow> p = local \<or>
      p \<in> ab_connected (book_run parse local es) \<or>
      (\<exists>t ttl. now - t < ttl \<and> ab_announced (book_run parse local es) p = Some (t, ttl))"
    by (auto simp: is_peer_alive_def is_peer_connected_def split: option.splits)
  ultimately show ?thesis by argo
qed

text \<open>A connected peer and one that announced itself at 100.\<close>

definition example_parse :: "string \<Rightarrow> multiaddr option" where
  "example_parse s = Some [Ip (V4 10 0 0 1), P2p s]"

definition example_events :: "(nat \<times> book_event) list" where
  "example_events = [(5, Connect ''pq''), (100, Announce ''w'' ''pw'' 0)]"

theorem liveness_from_history_witness:
  "is_peer_alive ''pa'' 60000 (book_run example_parse ''pa'' example_events) ''pw''"
proof (subst liveness_from_history, intro disjI2 exI conjI)
  show "example_events = [(5, Connect ''pq'')] @ (100, Announce ''w'' ''pw'' 0) # []" by (simp add: example_events_def)
  show "announcement_of example_parse ''pa'' ''pw'' (Announce ''w'' ''pw'' 0) = Some 60000"
    by (simp add: parse_p2p_addr_def example_parse_def peer_alive_ttl_def PEER_ALIVE_TTL_def
        NODE_ANNOUNCE_INTERVAL_MS_def PEER_ALIVE_TTL_INTERVALS_def)
qed simp_all

section \<open>Membership views\<close>

text \<open>What was announced about a group, in the order heard, and the first of the newest of it.\<close>

definition heard_views :: "('d \<Rightarrow> membership_announcement option) \<Rightarrow> string \<Rightarrow> 'd list \<Rightarrow> gossip_membership list" where
  "heard_views decode g ds = List.map_filter (\<lambda>d. case announced_view decode d of
     Some (h, v) \<Rightarrow> if h = g then Some v else None | None \<Rightarrow> None) ds"

definition first_newest :: "gossip_membership list \<Rightarrow> gossip_membership option" where
  "first_newest vs = find (\<lambda>v. \<forall>w\<in>set vs. gv_log_index w \<le> gv_log_index v) vs"

lemma first_newest_None: "first_newest vs = None \<longleftrightarrow> vs = []"
proof
  assume none: "first_newest vs = None"
  show "vs = []"
  proof (rule ccontr)
    assume "vs \<noteq> []"
    then have "Max (gv_log_index ` set vs) \<in> gv_log_index ` set vs" by (intro Max_in) auto
    then obtain v where "v \<in> set vs" "gv_log_index v = Max (gv_log_index ` set vs)" by (metis imageE)
    then have "\<forall>w\<in>set vs. gv_log_index w \<le> gv_log_index v" by simp
    with none \<open>v \<in> set vs\<close> show False by (auto simp: first_newest_def find_None_iff)
  qed
qed (simp add: first_newest_def)

lemma first_newest_Some:
  "first_newest vs = Some v \<Longrightarrow> v \<in> set vs \<and> (\<forall>w\<in>set vs. gv_log_index w \<le> gv_log_index v)"
  by (auto simp: first_newest_def find_Some_iff)

lemma first_newest_snoc:
  "first_newest (vs @ [m]) = (case first_newest vs of None \<Rightarrow> Some m
     | Some c \<Rightarrow> if gv_log_index m \<le> gv_log_index c then Some c else Some m)"
proof (cases "first_newest vs")
  case None
  then show ?thesis by (simp add: first_newest_None) (simp add: first_newest_def)
next
  case (Some c)
  note c = first_newest_Some[OF Some]
  show ?thesis
  proof (cases "gv_log_index m \<le> gv_log_index c")
    case True
    from Some obtain k where k: "k < length vs" "c = vs ! k" "\<forall>l<k. \<not> (\<forall>w\<in>set vs. gv_log_index w \<le> gv_log_index (vs ! l))"
      by (auto simp: first_newest_def find_Some_iff)
    have "first_newest (vs @ [m]) = Some c"
      unfolding first_newest_def find_Some_iff
      using k c True by (intro exI[of _ k]) (auto simp: nth_append)
    then show ?thesis using Some True by simp
  next
    case False
    then have "find (\<lambda>v. \<forall>w\<in>set (vs @ [m]). gv_log_index w \<le> gv_log_index v) vs = None"
      using c by (fastforce simp: find_None_iff)
    moreover have "\<forall>w\<in>set (vs @ [m]). gv_log_index w \<le> gv_log_index m" using c False by fastforce
    ultimately have "first_newest (vs @ [m]) = Some m"
      unfolding first_newest_def find_Some_iff find_None_iff
      by (intro exI[of _ "length vs"]) (auto simp: nth_append)
    then show ?thesis using Some False by simp
  qed
qed

lemma heard_views_snoc:
  "heard_views decode g (ds @ [d]) = heard_views decode g ds @
     (case announced_view decode d of Some (h, v) \<Rightarrow> if h = g then [v] else [] | None \<Rightarrow> [])"
  by (simp add: heard_views_def map_filter_def split: option.split)

lemma hear_first_newest: "ab_gossip (hear decode ds) g = first_newest (heard_views decode g ds)"
proof (induction ds rule: rev_induct)
  case Nil
  show ?case by (simp add: heard_views_def map_filter_def first_newest_def address_book_new_def)
next
  case (snoc d ds)
  then show ?case
    by (cases "announced_view decode d")
       (auto simp: heard_views_snoc first_newest_snoc handle_announcement_view apply_gossip_membership_def Let_def split: option.split)
qed

lemma heard_views_set: "set xs = set ys \<Longrightarrow> set (heard_views decode g xs) = set (heard_views decode g ys)"
  by (auto simp: heard_views_def map_filter_def)

text \<open>C12: what a node holds of a group is, of all it heard about the group, the first of those with the
  largest log index; a late, repeated or reordered announcement never rolls the view back. So nodes that
  heard the same announcements, in any order and any number of times, hold views of the same log index
  (or none), each of which was announced, and of the same voters when the announcements of one index name
  the same voters. The leader in the view is the one that the first of them named: a new leader
  announces the same index under its own name, which receivers drop.\<close>

theorem gossip_views_converge:
  assumes "set xs = set ys"
  shows "ab_gossip (hear decode xs) g = first_newest (heard_views decode g xs) \<and>
    map_option gv_log_index (ab_gossip (hear decode xs) g) = map_option gv_log_index (ab_gossip (hear decode ys) g) \<and>
    set_option (ab_gossip (hear decode ys) g) \<subseteq> set (heard_views decode g xs) \<and>
    ((\<forall>u\<in>set (heard_views decode g xs). \<forall>w\<in>set (heard_views decode g xs).
        gv_log_index u = gv_log_index w \<longrightarrow> gv_voters u = gv_voters w) \<longrightarrow>
      map_option gv_voters (ab_gossip (hear decode xs) g) = map_option gv_voters (ab_gossip (hear decode ys) g))"
proof -
  note same = heard_views_set[OF assms, of decode g]
  show ?thesis
  proof (cases "heard_views decode g xs = []")
    case True
    then have "heard_views decode g ys = []" using same by simp
    with True show ?thesis by (simp add: hear_first_newest first_newest_None[THEN iffD2])
  next
    case False
    then obtain v w where vw: "first_newest (heard_views decode g xs) = Some v" "first_newest (heard_views decode g ys) = Some w"
      using same by (metis first_newest_None not_None_eq set_empty)
    have v: "v \<in> set (heard_views decode g xs)" "\<And>u. u \<in> set (heard_views decode g xs) \<Longrightarrow> gv_log_index u \<le> gv_log_index v"
      using first_newest_Some[OF vw(1)] by auto
    have w: "w \<in> set (heard_views decode g xs)" "\<And>u. u \<in> set (heard_views decode g xs) \<Longrightarrow> gv_log_index u \<le> gv_log_index w"
      using first_newest_Some[OF vw(2)] same by auto
    have "gv_log_index v = gv_log_index w" by (rule order.antisym[OF w(2)[OF v(1)] v(2)[OF w(1)]])
    moreover have "gv_voters v = gv_voters w"
      if "\<forall>u\<in>set (heard_views decode g xs). \<forall>w\<in>set (heard_views decode g xs). gv_log_index u = gv_log_index w \<longrightarrow> gv_voters u = gv_voters w"
      using that v(1) w(1) calculation by blast
    ultimately show ?thesis using w(1) unfolding hear_first_newest vw option.map option.set by blast
  qed
qed

definition example_view :: "u64 \<Rightarrow> membership_announcement" where
  "example_view i = \<lparr>ma_group_id = ''tasks'', ma_voter_ids = [''a'', ''b''], ma_leader_id = (if i = 5 then ''a'' else ''b''),
     ma_log_index = (if i = 3 then 3 else 5)\<rparr>"

text \<open>Announcements 5 and 6 have one index and name different leaders.\<close>

theorem gossip_views_converge_witness:
  "map_option gv_voters (ab_gossip (hear (\<lambda>i. Some (example_view i)) [3, 5, 6]) ''tasks'') =
     map_option gv_voters (ab_gossip (hear (\<lambda>i. Some (example_view i)) [6, 5, 3, 5]) ''tasks'')"
proof -
  have "set (heard_views (\<lambda>i. Some (example_view i)) ''tasks'' [3, 5, 6]) = (\<lambda>i. \<lparr>gv_voters = {''a'', ''b''},
      gv_leader_id = ma_leader_id (example_view i), gv_log_index = ma_log_index (example_view i)\<rparr>) ` {3, 5, 6}"
    by (auto simp: heard_views_def map_filter_def announced_view_def example_view_def)
  then show ?thesis
    using gossip_views_converge[of "[3, 5, 6]" "[6, 5, 3, 5]" "\<lambda>i. Some (example_view i)" "''tasks''"] by auto
qed

text \<open>The new leader of a group whose membership did not change is not learned from its announcement.\<close>

lemma new_leader_not_learned:
  assumes "ab_gossip b g = Some v" "gv_log_index m = gv_log_index v"
  shows "apply_gossip_membership b g m = b"
  using assms by (simp add: apply_gossip_membership_def)

section \<open>The pruner\<close>

text \<open>C32: a node disappears from the address book at a tick of the pruner only after every tick of a span of at
  least the timeout found it dead: not the node itself, member of no raft group, its peer neither
  connected nor announced lately. Every other entry stays.
\<close>

theorem pruning_justified:
  assumes "list_all view_ok (vs @ [v])"
    and "prune_view_tick self local v (prune_clock self local vs) = (b', down')"
    and "ab_nodes b' n \<noteq> ab_nodes (pv_book v) n"
  shows "ab_nodes b' n = None \<and>
    (\<exists>pre v0 post. vs @ [v] = pre @ v0 # post \<and> pv_timeout v \<le> pv_now v - pv_now v0 \<and>
       list_all (dead_at self local n) (v0 # post))"
proof -
  note eff = prune_view_tick_effect(1)[OF assms(2)]
  from assms(1,3) eff[of n] have dead: "dead_at self local n v" "ab_nodes b' n = None"
    and t: "pv_timeout v \<le> pv_now v - since_of (pv_now v) (prune_clock self local vs n)"
    by (auto split: if_splits)
  show ?thesis
  proof (cases "prune_clock self local vs n")
    case None
    with dead t show ?thesis
      by (intro conjI exI[of _ vs] exI[of _ v] exI[of _ "[]"]) (simp_all add: since_of_def)
  next
    case (Some s)
    with prune_clock_dead assms(1) obtain pre v0 post where
      h: "vs = pre @ v0 # post" "pv_now v0 = s" "list_all (dead_at self local n) (v0 # post)"
      by (metis list_all_append)
    with Some dead t show ?thesis
      by (intro conjI exI[of _ pre] exI[of _ v0] exI[of _ "post @ [v]"]) (simp_all add: since_of_def)
  qed
qed

definition example_book :: address_book where
  "example_book = address_book_new\<lparr>ab_nodes := [''w'' \<mapsto> (''pw'', [P2p ''pw''])]\<rparr>"

definition example_tick :: "nat \<Rightarrow> prune_view" where
  "example_tick t = \<lparr>pv_now = t, pv_timeout = 10, pv_groups = [{''a''}], pv_order = [''w''], pv_book = example_book\<rparr>"

lemma example_prunable: "dead_at ''a'' ''pa'' ''w'' (example_tick t)"
  by (simp add: prunable_def example_tick_def example_book_def address_book_new_def is_peer_alive_def
      is_peer_connected_def is_openraft_member_of_any_group_def)

lemma example_ok: "view_ok (example_tick t)" "ab_nodes (pv_book (example_tick t)) ''w'' \<noteq> None"
  "pv_now (example_tick t) = t" "pv_timeout (example_tick t) = 10"
  by (auto simp: view_ok_def example_tick_def example_book_def address_book_new_def)

lemma example_clock: "prune_clock ''a'' ''pa'' [example_tick 5] ''w'' = Some 5"
proof -
  obtain b' d' where t: "prune_view_tick ''a'' ''pa'' (example_tick 5) Map.empty = (b', d')"
    by (cases "prune_view_tick ''a'' ''pa'' (example_tick 5) Map.empty")
  from prune_tick_effect[OF t[unfolded prune_view_tick_def], of "''w''"] example_ok(1)[of 5] example_prunable[of 5]
  have "d' ''w'' = Some 5" by (simp add: view_ok_def fate_def since_of_def example_ok)
  with t show ?thesis by (simp add: prune_clock_def)
qed

theorem pruning_justified_witness:
  "\<exists>b' down'. prune_view_tick ''a'' ''pa'' (example_tick 15) (prune_clock ''a'' ''pa'' [example_tick 5]) = (b', down') \<and>
     ab_nodes b' ''w'' = None \<and>
     (\<exists>pre v0 post. [example_tick 5, example_tick 15] = pre @ v0 # post \<and> 10 \<le> 15 - pv_now v0)"
proof -
  obtain b' d' where t: "prune_view_tick ''a'' ''pa'' (example_tick 15) (prune_clock ''a'' ''pa'' [example_tick 5]) = (b', d')"
    by (cases "prune_view_tick ''a'' ''pa'' (example_tick 15) (prune_clock ''a'' ''pa'' [example_tick 5])")
  have gone: "ab_nodes b' ''w'' = None"
    using prune_view_tick_effect(1)[OF t example_ok(1), of "''w''"] example_prunable[of 15]
    by (simp add: example_ok example_clock since_of_def)
  have "list_all view_ok ([example_tick 5] @ [example_tick 15])" by (simp add: example_ok)
  from pruning_justified[OF this t, of "''w''"] gone example_ok(2)[of 15] t show ?thesis
    by (auto simp: example_ok)
qed

end
