(* ===== verification/MembershipOps.thy ===== *)
theory MembershipOps
  imports AddressBook
begin

text \<open>
  Changes of the membership of a raft group on request: the HTTP operations of \<open>http/membership.rs\<close>,
  the remote calls \<open>JoinCluster\<close> and \<open>AddLearner\<close> of \<open>network/openraft_dispatcher.rs\<close>, and the
  joining node of \<open>app/membership_join.rs\<close>. A group is an openraft node with the fence that serialises
  the changes on this node. openraft is the record \<open>raft_calls\<close>: its metrics, its two calls that change
  the membership, and what happens to the group while the code sleeps between two polls of the metrics,
  with how much longer than asked the sleep took. Times are milliseconds.
\<close>

section \<open>Data\<close>

record raft_metrics =
  rm_id :: string
  rm_is_leader :: bool
  rm_current_leader :: "string option"
  rm_voters :: "string set"
  rm_nodes :: "string \<Rightarrow> string option"
  rm_last_log_index :: "u64 option"
  rm_replication :: "(string \<Rightarrow> u64 option option) option"

record 'r raft_calls =
  rc_metrics :: "'r \<Rightarrow> raft_metrics"
  rc_add_learner :: "string \<Rightarrow> string \<Rightarrow> 'r \<Rightarrow> 'r \<times> u64 result"
  rc_change_membership :: "string set \<Rightarrow> 'r \<Rightarrow> 'r \<times> unit result"
  rc_sleep :: "'r \<Rightarrow> 'r \<times> nat"
  rc_registered :: "'r \<Rightarrow> bool"

record 'r group_handle =
  gh_raft :: 'r
  gh_fence_held :: bool

record member_reply =
  mr_group_id :: string
  mr_ok :: bool
  mr_before_voters :: "string list"
  mr_after_voters :: "string list"
  mr_leader_id :: "string option"
  mr_error :: "string option"

record add_reply = member_reply +
  ar_learner_added :: bool
  ar_promoted :: bool

record join_request =
  jq_node_id :: string
  jq_addr :: string
  jq_max_voters :: nat
  jq_catch_up_timeout_ms :: nat

record join_response =
  js_ok :: bool
  js_joined :: bool
  js_already_member :: bool
  js_voter_count :: nat
  js_max_voters :: nat
  js_leader_id :: "string option"
  js_leader_addr :: "string option"
  js_error :: "string option"

record learner_response =
  lr_ok :: bool
  lr_leader_id :: "string option"
  lr_leader_addr :: "string option"
  lr_error :: "string option"

datatype rpc_reply = JoinReply join_response | LearnerReply learner_response | MetricsReply raft_metrics
  | ErrorReply string | OtherReply

abbreviation listed :: "string set \<Rightarrow> string list" where
  "listed V \<equiv> sorted_list_of_set V"

abbreviation voters_of :: "'r raft_calls \<Rightarrow> 'r \<Rightarrow> string set" where
  "voters_of api r \<equiv> rm_voters (rc_metrics api r)"

section \<open>Waiting for a learner\<close>

text \<open>The log index that the leader knows the node to have.\<close>

definition matched_index :: "raft_metrics \<Rightarrow> string \<Rightarrow> u64" where
  "matched_index m target = (case Option.bind (Option.bind (rm_replication m) (\<lambda>rep. rep target)) (\<lambda>x. x) of
      Some i \<Rightarrow> i | None \<Rightarrow> 0)"

definition required_index :: "raft_metrics \<Rightarrow> u64 \<Rightarrow> u64" where
  "required_index m min_matched = max (case rm_last_log_index m of Some i \<Rightarrow> i | None \<Rightarrow> 0) min_matched"

text \<open>The polls of the metrics every 500 milliseconds. \<open>gone\<close> is the additional test at a poll.\<close>

function wait_polls ::
  "'r raft_calls \<Rightarrow> ('r \<Rightarrow> string option) \<Rightarrow> string \<Rightarrow> u64 \<Rightarrow> nat \<Rightarrow> nat \<Rightarrow> 'r \<Rightarrow> 'r \<times> unit result" where
  "wait_polls api gone target min_matched deadline now r =
     (case gone r of
        Some e \<Rightarrow> (r, Inl e)
      | None \<Rightarrow>
          let m = rc_metrics api r in
          if \<not> rm_is_leader m then (r, Inl ''local node is no longer the leader'')
          else if required_index m min_matched \<le> matched_index m target then (r, Inr ())
          else if deadline \<le> now then
            (r, Inl (''learner did not catch up before timeout: matched_index='' @ show_u64 (matched_index m target) @
               '', required_index='' @ show_u64 (required_index m min_matched)))
          else (case rc_sleep api r of (r1, late) \<Rightarrow>
            wait_polls api gone target min_matched deadline (now + 500 + late) r1))"
  by pat_completeness auto
termination
  by (relation "measure (\<lambda>(_, _, _, _, deadline, now, _). deadline - now)") auto

declare wait_polls.simps [simp del]

definition wait_for_openraft_member_rpc :: "'r raft_calls \<Rightarrow> string \<Rightarrow> string \<Rightarrow> u64 \<Rightarrow> nat \<Rightarrow> 'r \<Rightarrow> 'r \<times> unit result" where
  "wait_for_openraft_member_rpc api group_id target min_matched timeout =
     wait_polls api (\<lambda>r. if rc_registered api r then None else Some (''unknown group_id='' @ group_id)) target min_matched timeout 0"

definition wait_for_join_member_rpc :: "'r raft_calls \<Rightarrow> string \<Rightarrow> u64 \<Rightarrow> nat \<Rightarrow> 'r \<Rightarrow> 'r \<times> unit result" where
  "wait_for_join_member_rpc api target min_matched timeout = wait_polls api (\<lambda>_. None) target min_matched timeout 0"

section \<open>The fence\<close>

text \<open>\<open>try_lock\<close>: the body runs with the fence held, which its end releases; a busy fence refuses.\<close>

definition with_fence :: "('r \<Rightarrow> 'r \<times> 'a) \<Rightarrow> 'a \<Rightarrow> 'r group_handle \<Rightarrow> 'r group_handle \<times> 'a" where
  "with_fence body busy g =
     (if gh_fence_held g then (g, busy)
      else (case body (gh_raft g) of (r, a) \<Rightarrow> (\<lparr>gh_raft = r, gh_fence_held = False\<rparr>, a)))"

definition fence_busy :: "string \<Rightarrow> string" where
  "fence_busy group_id = ''another membership change is in progress for group '' @ group_id @ ''; retry later''"

definition must_lead :: string where
  "must_lead = ''membership changes must be submitted to the leader node''"

section \<open>Removing a voter\<close>

definition remove_body :: "'r raft_calls \<Rightarrow> string \<Rightarrow> string \<Rightarrow> 'r \<Rightarrow> 'r \<times> member_reply" where
  "remove_body api group_id target r =
     (let m = rc_metrics api r; before = rm_voters m; after = before - {target};
          reply = (\<lambda>ok after err. \<lparr>mr_group_id = group_id, mr_ok = ok, mr_before_voters = listed before,
             mr_after_voters = listed after, mr_leader_id = rm_current_leader m, mr_error = err\<rparr>) in
      if \<not> rm_is_leader m then (r, reply False after (Some must_lead))
      else if target \<notin> before then (r, reply True before None)
      else if after = {} then (r, reply False {} (Some ''refusing to remove the last openraft voter''))
      else (case rc_change_membership api after r of
          (r1, Inr _) \<Rightarrow> (r1, reply True after None)
        | (r1, Inl err) \<Rightarrow> (r1, reply False after (Some (''change_membership failed: '' @ err)))))"

definition no_reply :: "string \<Rightarrow> string \<Rightarrow> member_reply" where
  "no_reply group_id err = \<lparr>mr_group_id = group_id, mr_ok = False, mr_before_voters = [], mr_after_voters = [],
     mr_leader_id = None, mr_error = Some err\<rparr>"

definition remove_openraft_member_from_group ::
  "'r raft_calls \<Rightarrow> string \<Rightarrow> string \<Rightarrow> 'r group_handle \<Rightarrow> 'r group_handle \<times> member_reply" where
  "remove_openraft_member_from_group api group_id target g =
     (if \<not> rc_registered api (gh_raft g) then (g, no_reply group_id (''unknown group_id='' @ group_id))
      else with_fence (remove_body api group_id target) (no_reply group_id (fence_busy group_id)) g)"

section \<open>Replacing a voter\<close>

definition replace_body ::
  "'r raft_calls \<Rightarrow> string \<Rightarrow> string \<Rightarrow> string \<Rightarrow> string \<Rightarrow> nat \<Rightarrow> 'r \<Rightarrow> 'r \<times> member_reply" where
  "replace_body api group_id old_id new_id new_addr timeout r =
     (let m = rc_metrics api r; before = rm_voters m;
          reply = (\<lambda>ok after err. \<lparr>mr_group_id = group_id, mr_ok = ok, mr_before_voters = listed before,
             mr_after_voters = listed after, mr_leader_id = rm_current_leader m, mr_error = err\<rparr>);
          fail = (\<lambda>err. reply False before (Some err)) in
      if \<not> rm_is_leader m then (r, fail must_lead)
      else if old_id \<notin> before \<and> new_id \<in> before then (r, reply True before None)
      else if old_id \<notin> before then (r, fail (''old node '' @ old_id @ '' is not a voter of group '' @ group_id))
      else (case rc_add_learner api new_id new_addr r of
          (r1, Inl err) \<Rightarrow> (r1, fail (''add_learner failed: '' @ err))
        | (r1, Inr learner_log_index) \<Rightarrow>
            (case wait_for_openraft_member_rpc api group_id new_id learner_log_index timeout r1 of
               (r2, Inl err) \<Rightarrow> (r2, fail err)
             | (r2, Inr _) \<Rightarrow>
                 (let after = insert new_id (before - {old_id}) in
                  case rc_change_membership api after r2 of
                    (r3, Inr _) \<Rightarrow> (r3, reply True after None)
                  | (r3, Inl err) \<Rightarrow> (r3, fail (''change_membership failed: '' @ err))))))"

definition replace_openraft_member_in_group ::
  "'r raft_calls \<Rightarrow> string \<Rightarrow> string \<Rightarrow> string \<Rightarrow> string \<Rightarrow> nat \<Rightarrow> 'r group_handle \<Rightarrow> 'r group_handle \<times> member_reply" where
  "replace_openraft_member_in_group api group_id old_id new_id new_addr timeout g =
     (if \<not> rc_registered api (gh_raft g) then (g, no_reply group_id (''unknown group_id='' @ group_id))
      else with_fence (replace_body api group_id old_id new_id new_addr timeout) (no_reply group_id (fence_busy group_id)) g)"

section \<open>Adding a member\<close>

text \<open>A learner-only addition on a node that does not lead the group is passed on to its leader;
  \<open>request\<close> is that remote call, which leaves the local group alone, \<open>debug\<close> the debug form of an answer.\<close>

definition forward_add_learner_to_leader ::
  "(rpc_reply \<Rightarrow> string) \<Rightarrow> (string \<Rightarrow> rpc_reply result) \<Rightarrow> string \<Rightarrow> string \<Rightarrow> string set \<Rightarrow> add_reply" where
  "forward_add_learner_to_leader debug request group_id leader_id before =
     (let (ok, learner_added, err) = (case request leader_id of
          Inr (LearnerReply resp) \<Rightarrow> if lr_ok resp then (True, True, None)
            else (False, False, Some (case lr_error resp of Some e \<Rightarrow> e | None \<Rightarrow> ''add_learner forwarding rejected''))
        | Inr (ErrorReply message) \<Rightarrow> (False, False, Some (''forward add_learner to leader failed: '' @ message))
        | Inr other \<Rightarrow> (False, False, Some (''unexpected add_learner forwarding response: '' @ debug other))
        | Inl err \<Rightarrow> (False, False, Some (''forward add_learner to leader failed: '' @ err))) in
      \<lparr>mr_group_id = group_id, mr_ok = ok, mr_before_voters = listed before, mr_after_voters = listed before,
       mr_leader_id = Some leader_id, mr_error = err, ar_learner_added = learner_added, ar_promoted = False\<rparr>)"

definition add_body ::
  "'r raft_calls \<Rightarrow> (rpc_reply \<Rightarrow> string) \<Rightarrow> (string \<Rightarrow> rpc_reply result) \<Rightarrow> string \<Rightarrow> string \<Rightarrow> string \<Rightarrow> bool \<Rightarrow> nat \<Rightarrow> 'r \<Rightarrow> 'r \<times> add_reply" where
  "add_body api debug request group_id target addr promote timeout r =
     (let m = rc_metrics api r; before = rm_voters m;
          reply = (\<lambda>ok after leader added promoted err. \<lparr>mr_group_id = group_id, mr_ok = ok,
             mr_before_voters = listed before, mr_after_voters = listed after, mr_leader_id = leader, mr_error = err,
             ar_learner_added = added, ar_promoted = promoted\<rparr>) in
      if \<not> rm_is_leader m then
        (r, if \<not> promote \<and> rm_current_leader m \<noteq> None
            then forward_add_learner_to_leader debug request group_id (the (rm_current_leader m)) before
            else reply False before (rm_current_leader m) False False (Some must_lead))
      else if target \<in> before then (r, reply True before (rm_current_leader m) False False None)
      else (case rc_add_learner api target addr r of
          (r1, Inl err) \<Rightarrow> (r1, reply False before (rm_current_leader m) False False (Some (''add_learner failed: '' @ err)))
        | (r1, Inr learner_log_index) \<Rightarrow>
            if \<not> promote then
              (let m1 = rc_metrics api r1 in (r1, reply True (rm_voters m1) (rm_current_leader m1) True False None))
            else (case wait_for_openraft_member_rpc api group_id target learner_log_index timeout r1 of
                (r2, Inl err) \<Rightarrow>
                  (let m2 = rc_metrics api r2 in (r2, reply False (rm_voters m2) (rm_current_leader m2) True False (Some err)))
              | (r2, Inr _) \<Rightarrow>
                  (let voters = insert target (rm_voters (rc_metrics api r2)) in
                   case rc_change_membership api voters r2 of
                     (r3, Inr _) \<Rightarrow> (r3, reply True voters (rm_current_leader m) True True None)
                   | (r3, Inl err) \<Rightarrow> (r3, reply False voters (rm_current_leader m) True False
                        (Some (''change_membership failed: '' @ err)))))))"

definition no_add_reply :: "string \<Rightarrow> string \<Rightarrow> add_reply" where
  "no_add_reply group_id err = \<lparr>mr_group_id = group_id, mr_ok = False, mr_before_voters = [], mr_after_voters = [],
     mr_leader_id = None, mr_error = Some err, ar_learner_added = False, ar_promoted = False\<rparr>"

definition add_openraft_member_to_group ::
  "'r raft_calls \<Rightarrow> (rpc_reply \<Rightarrow> string) \<Rightarrow> (string \<Rightarrow> rpc_reply result) \<Rightarrow> string \<Rightarrow> string \<Rightarrow> string \<Rightarrow> bool \<Rightarrow> nat \<Rightarrow>
   'r group_handle \<Rightarrow> 'r group_handle \<times> add_reply" where
  "add_openraft_member_to_group api debug request group_id target addr promote timeout g =
     (if \<not> rc_registered api (gh_raft g) then (g, no_add_reply group_id (''unknown group_id='' @ group_id))
      else with_fence (add_body api debug request group_id target addr promote timeout) (no_add_reply group_id (fence_busy group_id)) g)"

section \<open>The remote calls\<close>

definition leader_addr_of :: "raft_metrics \<Rightarrow> string option" where
  "leader_addr_of m = Option.bind (rm_current_leader m) (rm_nodes m)"

definition handle_add_learner :: "'r raft_calls \<Rightarrow> string \<Rightarrow> string \<Rightarrow> 'r \<Rightarrow> 'r \<times> learner_response" where
  "handle_add_learner api node_id addr r =
     (let m = rc_metrics api r;
          reply = (\<lambda>ok err. \<lparr>lr_ok = ok, lr_leader_id = rm_current_leader m, lr_leader_addr = leader_addr_of m, lr_error = err\<rparr>) in
      if \<not> rm_is_leader m then (r, reply False (Some ''add_learner must be submitted to the leader node''))
      else (case rc_add_learner api node_id addr r of
          (r1, Inr _) \<Rightarrow> (r1, reply True None)
        | (r1, Inl err) \<Rightarrow> (r1, reply False (Some (''add_learner failed: '' @ err)))))"

definition handle_join_cluster :: "'r raft_calls \<Rightarrow> join_request \<Rightarrow> 'r \<Rightarrow> 'r \<times> join_response" where
  "handle_join_cluster api req r =
     (let m = rc_metrics api r; before = rm_voters m;
          reply = (\<lambda>ok joined already count leader err. \<lparr>js_ok = ok, js_joined = joined, js_already_member = already,
             js_voter_count = count, js_max_voters = jq_max_voters req, js_leader_id = leader,
             js_leader_addr = leader_addr_of m, js_error = err\<rparr>);
          leader = rm_current_leader m in
      if \<not> rm_is_leader m then (r, reply False False False (card before) leader (Some must_lead))
      else if jq_node_id req \<in> before then (r, reply True False True (card before) leader None)
      else if jq_max_voters req \<le> card before
        then (r, reply True False False (card before) leader (Some ''openraft control membership is full''))
      else (case rc_add_learner api (jq_node_id req) (jq_addr req) r of
          (r1, Inl err) \<Rightarrow> (r1, reply False False False (card before) leader (Some (''add_learner failed: '' @ err)))
        | (r1, Inr learner_log_index) \<Rightarrow>
            (case wait_for_join_member_rpc api (jq_node_id req) learner_log_index (jq_catch_up_timeout_ms req) r1 of
               (r2, Inl err) \<Rightarrow>
                 (let m2 = rc_metrics api r2 in
                  (r2, reply False False False (card (rm_voters m2)) (rm_current_leader m2) (Some err)))
             | (r2, Inr _) \<Rightarrow>
                 (let voters = insert (jq_node_id req) (rm_voters (rc_metrics api r2)) in
                  case rc_change_membership api voters r2 of
                    (r3, Inr _) \<Rightarrow> (r3, reply True True False (card voters) leader None)
                  | (r3, Inl err) \<Rightarrow> (r3, reply False False False (card voters) leader
                       (Some (''change_membership failed: '' @ err)))))))"

datatype membership_op = JoinCluster join_request | AddLearnerOp string string | GetMetrics

definition rpc_fence_busy :: string where
  "rpc_fence_busy = ''another membership change is in progress for this group; retry later''"

fun handle_inbound_rpc :: "'r raft_calls \<Rightarrow> membership_op \<Rightarrow> 'r group_handle \<Rightarrow> 'r group_handle \<times> rpc_reply" where
  "handle_inbound_rpc api GetMetrics g = (g, MetricsReply (rc_metrics api (gh_raft g)))"
| "handle_inbound_rpc api (JoinCluster req) g =
     with_fence (\<lambda>r. apsnd JoinReply (handle_join_cluster api req r)) (ErrorReply rpc_fence_busy) g"
| "handle_inbound_rpc api (AddLearnerOp node_id addr) g =
     with_fence (\<lambda>r. apsnd LearnerReply (handle_add_learner api node_id addr r)) (ErrorReply rpc_fence_busy) g"

section \<open>The HTTP operations\<close>

record 'r http_state =
  hs_group_ids :: "string list"
  hs_groups :: "string \<Rightarrow> 'r group_handle"
  hs_book :: address_book

record 'a op_reply =
  or_ok :: bool
  or_groups :: "'a list"
  or_error :: "string option"

definition resolve_membership_group_ids :: "'r http_state \<Rightarrow> string option \<Rightarrow> string list" where
  "resolve_membership_group_ids st group_id = (case group_id of Some g \<Rightarrow> [g] | None \<Rightarrow> hs_group_ids st)"

text \<open>A group after the other.\<close>

fun each_group ::
  "(string \<Rightarrow> 'r group_handle \<Rightarrow> 'r group_handle \<times> 'a) \<Rightarrow> string list \<Rightarrow> 'r http_state \<Rightarrow> 'r http_state \<times> 'a list" where
  "each_group f [] st = (st, [])"
| "each_group f (i # is) st = (case f i (hs_groups st i) of
      (g, a) \<Rightarrow> (case each_group f is (st\<lparr>hs_groups := (hs_groups st)(i := g)\<rparr>) of (st1, as) \<Rightarrow> (st1, a # as)))"

definition op_result :: "('a \<Rightarrow> bool) \<Rightarrow> string \<Rightarrow> 'a list \<Rightarrow> 'a op_reply" where
  "op_result ok_of err as = (let ok = list_all ok_of as in
     \<lparr>or_ok = ok, or_groups = as, or_error = (if ok then None else Some err)\<rparr>)"

definition op_refused :: "string \<Rightarrow> 'a op_reply" where
  "op_refused err = \<lparr>or_ok = False, or_groups = [], or_error = Some err\<rparr>"

definition apply_remove_openraft_member ::
  "'r raft_calls \<Rightarrow> string \<Rightarrow> string list \<Rightarrow> 'r http_state \<Rightarrow> 'r http_state \<times> member_reply op_reply" where
  "apply_remove_openraft_member api node_id group_ids st =
     (if group_ids = [] then (st, op_refused ''openraft groups are not initialized'')
      else apsnd (op_result mr_ok ''one or more openraft membership changes failed'')
        (each_group (\<lambda>i g. remove_openraft_member_from_group api i node_id g) group_ids st))"

definition resolve_openraft_member_addr ::
  "(string \<Rightarrow> multiaddr option) \<Rightarrow> (multiaddr \<Rightarrow> string) \<Rightarrow> address_book \<Rightarrow> string \<Rightarrow> string option \<Rightarrow> string result" where
  "resolve_openraft_member_addr parse show_addr b node_id requested_addr = (case requested_addr of
      Some addr \<Rightarrow> (case parse_p2p_addr parse addr of
          Inl err \<Rightarrow> Inl (''invalid target addr: '' @ err)
        | Inr (peer, _) \<Rightarrow>
            if node_id \<noteq> peer
            then Inl (''target node_id must match addr /p2p peer id: node_id='' @ node_id @ '', peer='' @ peer)
            else Inr addr)
    | None \<Rightarrow> (case ab_nodes b node_id of
          Some (_, addr) \<Rightarrow> Inr (show_addr addr)
        | None \<Rightarrow> Inl ''target addr is required for an unknown libp2p node''))"

definition apply_add_openraft_member ::
  "'r raft_calls \<Rightarrow> (string \<Rightarrow> multiaddr option) \<Rightarrow> (multiaddr \<Rightarrow> string) \<Rightarrow> string \<Rightarrow> (rpc_reply \<Rightarrow> string) \<Rightarrow>
   (string \<Rightarrow> string \<Rightarrow> string \<Rightarrow> string \<Rightarrow> rpc_reply result) \<Rightarrow> string \<Rightarrow> string option \<Rightarrow> string list \<Rightarrow> bool \<Rightarrow> nat \<Rightarrow>
   'r http_state \<Rightarrow> 'r http_state \<times> add_reply op_reply" where
  "apply_add_openraft_member api parse show_addr local debug request node_id addr group_ids promote timeout st =
     (if group_ids = [] then (st, op_refused ''openraft groups are not initialized'')
      else (case resolve_openraft_member_addr parse show_addr (hs_book st) node_id addr of
          Inl err \<Rightarrow> (st, op_refused err)
        | Inr target_addr \<Rightarrow> (case register_node parse local (hs_book st) node_id target_addr of
             (b, Inl err) \<Rightarrow> (st\<lparr>hs_book := b\<rparr>, op_refused (''register target node failed: '' @ err))
           | (b, Inr _) \<Rightarrow>
               apsnd (op_result mr_ok ''one or more openraft membership changes failed'')
                 (each_group (\<lambda>i g. add_openraft_member_to_group api debug (request i node_id target_addr) i node_id target_addr promote timeout g)
                   group_ids (st\<lparr>hs_book := b\<rparr>)))))"

text \<open>The batch: all additions, then all removals, whatever became of the additions.\<close>

fun each_request :: "('q \<Rightarrow> 's \<Rightarrow> 's \<times> 'a) \<Rightarrow> 'q list \<Rightarrow> 's \<Rightarrow> 's \<times> 'a list" where
  "each_request f [] st = (st, [])"
| "each_request f (q # qs) st = (case f q st of (st1, a) \<Rightarrow> (case each_request f qs st1 of (st2, as) \<Rightarrow> (st2, a # as)))"

record batch_reply =
  br_ok :: bool
  br_added :: "add_reply op_reply list"
  br_removed :: "member_reply op_reply list"
  br_error :: "string option"

definition batch_openraft_membership ::
  "'r raft_calls \<Rightarrow> (string \<Rightarrow> multiaddr option) \<Rightarrow> (multiaddr \<Rightarrow> string) \<Rightarrow> string \<Rightarrow> (rpc_reply \<Rightarrow> string) \<Rightarrow>
   (string \<Rightarrow> string \<Rightarrow> string \<Rightarrow> string \<Rightarrow> rpc_reply result) \<Rightarrow> (string \<times> string option) list \<Rightarrow> string list \<Rightarrow>
   string option \<Rightarrow> bool \<Rightarrow> nat option \<Rightarrow> 'r http_state \<Rightarrow> 'r http_state \<times> batch_reply" where
  "batch_openraft_membership api parse show_addr local debug request add rem group_id promote timeout_secs st =
     (let group_ids = resolve_membership_group_ids st group_id;
          timeout = 1000 * (case timeout_secs of Some t \<Rightarrow> t | None \<Rightarrow> 30);
          (st1, added) = each_request (\<lambda>(n, a) st.
             apply_add_openraft_member api parse show_addr local debug request n a group_ids promote timeout st) add st;
          (st2, removed) = each_request (\<lambda>n st. apply_remove_openraft_member api n group_ids st) rem st1;
          ok = (list_all or_ok added \<and> list_all or_ok removed) in
      (st2, \<lparr>br_ok = ok, br_added = added, br_removed = removed,
         br_error = (if ok then None else Some ''one or more batched openraft membership changes failed'')\<rparr>))"

definition replace_openraft_member ::
  "'r raft_calls \<Rightarrow> (string \<Rightarrow> multiaddr option) \<Rightarrow> (multiaddr \<Rightarrow> string) \<Rightarrow> string \<Rightarrow> string \<Rightarrow> string \<Rightarrow> string option \<Rightarrow>
   string option \<Rightarrow> nat option \<Rightarrow> 'r http_state \<Rightarrow> 'r http_state \<times> member_reply op_reply" where
  "replace_openraft_member api parse show_addr local old_id new_id new_addr group_id timeout_secs st =
     (let group_ids = resolve_membership_group_ids st group_id;
          timeout = 1000 * (case timeout_secs of Some t \<Rightarrow> t | None \<Rightarrow> 30) in
      if group_ids = [] then (st, op_refused ''openraft groups are not initialized'')
      else if old_id = new_id then (st, op_refused ''old_node_id and new_node_id must differ'')
      else (case resolve_openraft_member_addr parse show_addr (hs_book st) new_id new_addr of
          Inl err \<Rightarrow> (st, op_refused err)
        | Inr addr \<Rightarrow> (case register_node parse local (hs_book st) new_id addr of
             (b, Inl err) \<Rightarrow> (st\<lparr>hs_book := b\<rparr>, op_refused (''register replacement node failed: '' @ err))
           | (b, Inr _) \<Rightarrow>
               apsnd (op_result mr_ok ''one or more openraft membership replacements failed'')
                 (each_group (\<lambda>i g. replace_openraft_member_in_group api i old_id new_id addr timeout g)
                   group_ids (st\<lparr>hs_book := b\<rparr>)))))"

section \<open>The joining node\<close>

text \<open>The network as the joining node sees it: a call to a node about a group, the registration of an
  address, and the known nodes in the order of the address book.\<close>

record 'n join_net =
  jn_request :: "string \<Rightarrow> string \<Rightarrow> membership_op \<Rightarrow> 'n \<Rightarrow> 'n \<times> rpc_reply result"
  jn_register :: "string \<Rightarrow> string \<Rightarrow> 'n \<Rightarrow> 'n"
  jn_known :: "'n \<Rightarrow> string list"

datatype join_outcome = Joined | AlreadyMember | Full

definition CONTROL_JOIN_MAX_LEADER_REDIRECTS :: nat where "CONTROL_JOIN_MAX_LEADER_REDIRECTS = 3"
definition CONTROL_JOIN_CATCH_UP_TIMEOUT_SECS :: nat where "CONTROL_JOIN_CATCH_UP_TIMEOUT_SECS = 30"

definition request_join_control_group ::
  "'n join_net \<Rightarrow> (rpc_reply \<Rightarrow> string) \<Rightarrow> string \<Rightarrow> string \<Rightarrow> nat \<Rightarrow> string \<Rightarrow> string \<Rightarrow> 'n \<Rightarrow> 'n \<times> join_response result" where
  "request_join_control_group net debug self advertise_addr max_nodes target group_id n =
     (case jn_request net target group_id (JoinCluster \<lparr>jq_node_id = self, jq_addr = advertise_addr,
          jq_max_voters = max_nodes, jq_catch_up_timeout_ms = CONTROL_JOIN_CATCH_UP_TIMEOUT_SECS * 1000\<rparr>) n of
        (n1, Inl e) \<Rightarrow> (n1, Inl e)
      | (n1, Inr (JoinReply response)) \<Rightarrow> (n1, Inr response)
      | (n1, Inr (ErrorReply message)) \<Rightarrow> (n1, Inl (''join request failed: '' @ message))
      | (n1, Inr other) \<Rightarrow> (n1, Inl (''unexpected join response: '' @ debug other)))"

text \<open>One group, following at most \<open>left\<close> more leader hints. The result is whether the node joined now,
  or the outcome that ends the whole request.\<close>

fun join_group ::
  "'n join_net \<Rightarrow> (rpc_reply \<Rightarrow> string) \<Rightarrow> string \<Rightarrow> string \<Rightarrow> nat \<Rightarrow> string \<Rightarrow> nat \<Rightarrow> string \<Rightarrow> 'n \<Rightarrow>
   'n \<times> (join_outcome + bool) result" where
  "join_group net debug self addr max_nodes group_id left target n =
     (case request_join_control_group net debug self addr max_nodes target group_id n of
        (n1, Inl e) \<Rightarrow> (n1, Inl e)
      | (n1, Inr response) \<Rightarrow>
          if js_already_member response then (n1, Inr (Inr False))
          else if js_joined response then (n1, Inr (Inr True))
          else (case (js_leader_id response, left) of
              (Some leader_id, Suc left') \<Rightarrow>
                if leader_id \<noteq> target \<and> leader_id \<noteq> self
                then join_group net debug self addr max_nodes group_id left' leader_id
                  (case js_leader_addr response of Some a \<Rightarrow> jn_register net leader_id a n1 | None \<Rightarrow> n1)
                else if js_max_voters response \<le> js_voter_count response then (n1, Inr (Inl Full))
                else (n1, Inl (''join group '' @ group_id @ '' failed: '' @
                  (case js_error response of Some e \<Rightarrow> e | None \<Rightarrow> ''unknown error'')))
            | _ \<Rightarrow>
                if js_max_voters response \<le> js_voter_count response then (n1, Inr (Inl Full))
                else (n1, Inl (''join group '' @ group_id @ '' failed: '' @
                  (case js_error response of Some e \<Rightarrow> e | None \<Rightarrow> ''unknown error'')))))"

declare join_group.simps [simp del]

fun join_groups ::
  "'n join_net \<Rightarrow> (rpc_reply \<Rightarrow> string) \<Rightarrow> string \<Rightarrow> string \<Rightarrow> nat \<Rightarrow> string \<Rightarrow> bool \<Rightarrow> string list \<Rightarrow> 'n \<Rightarrow> 'n \<times> join_outcome result" where
  "join_groups net debug self addr max_nodes target joined_any [] n = (n, Inr (if joined_any then Joined else AlreadyMember))"
| "join_groups net debug self addr max_nodes target joined_any (i # is) n =
     (case join_group net debug self addr max_nodes i CONTROL_JOIN_MAX_LEADER_REDIRECTS target n of
        (n1, Inl e) \<Rightarrow> (n1, Inl e)
      | (n1, Inr (Inl outcome)) \<Rightarrow> (n1, Inr outcome)
      | (n1, Inr (Inr joined)) \<Rightarrow> join_groups net debug self addr max_nodes target (joined_any \<or> joined) is n1)"

definition request_join_all_groups ::
  "'n join_net \<Rightarrow> (rpc_reply \<Rightarrow> string) \<Rightarrow> string \<Rightarrow> string \<Rightarrow> nat \<Rightarrow> string \<Rightarrow> string list \<Rightarrow> 'n \<Rightarrow> 'n \<times> join_outcome result" where
  "request_join_all_groups net debug self addr max_nodes target group_ids n =
     join_groups net debug self addr max_nodes target False group_ids n"

fun fetch_from ::
  "'n join_net \<Rightarrow> string \<Rightarrow> string \<Rightarrow> bool \<Rightarrow> string list \<Rightarrow> 'n \<Rightarrow> 'n \<times> raft_metrics option" where
  "fetch_from net group_id self require_leader [] n = (n, None)"
| "fetch_from net group_id self require_leader (i # is) n =
     (if i = self then fetch_from net group_id self require_leader is n
      else (case jn_request net i group_id GetMetrics n of
          (n1, Inr (MetricsReply m)) \<Rightarrow>
            if require_leader \<and> \<not> rm_is_leader m then fetch_from net group_id self require_leader is n1 else (n1, Some m)
        | (n1, _) \<Rightarrow> fetch_from net group_id self require_leader is n1))"

definition fetch_group_metrics_inner :: "'n join_net \<Rightarrow> string \<Rightarrow> string \<Rightarrow> bool \<Rightarrow> 'n \<Rightarrow> 'n \<times> raft_metrics option" where
  "fetch_group_metrics_inner net group_id self require_leader n =
     fetch_from net group_id self require_leader (jn_known net n) n"

definition fetch_remote_group_metrics :: "'n join_net \<Rightarrow> string \<Rightarrow> string \<Rightarrow> 'n \<Rightarrow> 'n \<times> raft_metrics option" where
  "fetch_remote_group_metrics net group_id self n = fetch_group_metrics_inner net group_id self False n"

definition fetch_authoritative_group_metrics :: "'n join_net \<Rightarrow> string \<Rightarrow> string \<Rightarrow> 'n \<Rightarrow> 'n \<times> raft_metrics option" where
  "fetch_authoritative_group_metrics net group_id self n = fetch_group_metrics_inner net group_id self True n"

fun voter_of_all :: "'n join_net \<Rightarrow> string \<Rightarrow> string list \<Rightarrow> 'n \<Rightarrow> 'n \<times> bool" where
  "voter_of_all net self [] n = (n, True)"
| "voter_of_all net self (i # is) n = (case fetch_remote_group_metrics net i self n of
      (n1, None) \<Rightarrow> (n1, False)
    | (n1, Some m) \<Rightarrow> if self \<notin> rm_voters m then (n1, False) else voter_of_all net self is n1)"

definition remote_openraft_voters_contain_self :: "'n join_net \<Rightarrow> string \<Rightarrow> string list \<Rightarrow> 'n \<Rightarrow> 'n \<times> bool" where
  "remote_openraft_voters_contain_self net self group_ids n =
     (if group_ids = [] then (n, False) else voter_of_all net self group_ids n)"

text \<open>The groups of the node are \<open>group0\<close> and \<open>groups\<close>; the list of groups is never empty.\<close>

fun try_join_control_cluster ::
  "'n join_net \<Rightarrow> (rpc_reply \<Rightarrow> string) \<Rightarrow> string \<Rightarrow> string \<Rightarrow> nat \<Rightarrow> string \<Rightarrow> string list \<Rightarrow> string list \<Rightarrow> 'n \<Rightarrow>
   'n \<times> join_outcome option" where
  "try_join_control_cluster net debug self addr max_nodes group0 groups [] n = (n, None)"
| "try_join_control_cluster net debug self addr max_nodes group0 groups (b # bs) n =
     (if b = self then try_join_control_cluster net debug self addr max_nodes group0 groups bs n
      else (case fetch_remote_group_metrics net group0 self n of
          (n1, None) \<Rightarrow> try_join_control_cluster net debug self addr max_nodes group0 groups bs n1
        | (n1, Some m) \<Rightarrow>
            (let join = (\<lambda>n. case request_join_all_groups net debug self addr max_nodes
                   (case rm_current_leader m of Some l \<Rightarrow> if l \<noteq> self then l else b | None \<Rightarrow> b) (group0 # groups) n of
                 (n1, Inr outcome) \<Rightarrow> (n1, Some outcome)
               | (n1, Inl _) \<Rightarrow> try_join_control_cluster net debug self addr max_nodes group0 groups bs n1) in
             if rm_nodes m self \<noteq> None
             then (case remote_openraft_voters_contain_self net self (group0 # groups) n1 of
                 (n2, True) \<Rightarrow> (n2, Some AlreadyMember)
               | (n2, False) \<Rightarrow> join n2)
             else if max_nodes \<le> card (rm_voters m) then (n1, Some Full)
             else join n1)))"

end
