(* ===== verification/MembershipClaims.thy ===== *)
theory MembershipClaims
  imports MembershipOps "HOL-Library.FSet"
begin

text \<open>
  The properties of membership changes on request. What they rely on of openraft is \<open>raft_ok\<close>: adding
  a learner keeps the voters, an accepted change of the membership installs exactly the voters asked for,
  a failed one leaves the old voters, those asked for, or a joint configuration of old and new, and while
  this node leads the voters change by its calls only.
\<close>

section \<open>Waiting for a learner\<close>

abbreviation leads :: "'r raft_calls \<Rightarrow> 'r \<Rightarrow> bool" where
  "leads api r \<equiv> rm_is_leader (rc_metrics api r)"

definition caught_up :: "'r raft_calls \<Rightarrow> string \<Rightarrow> u64 \<Rightarrow> 'r \<Rightarrow> bool" where
  "caught_up api target min_matched r \<longleftrightarrow>
     required_index (rc_metrics api r) min_matched \<le> matched_index (rc_metrics api r) target"

text \<open>The group after a number of sleeps, and the time they took.\<close>

fun slept :: "'r raft_calls \<Rightarrow> nat \<Rightarrow> 'r \<Rightarrow> 'r" where
  "slept api 0 r = r"
| "slept api (Suc k) r = slept api k (fst (rc_sleep api r))"

fun sleep_time :: "'r raft_calls \<Rightarrow> nat \<Rightarrow> 'r \<Rightarrow> nat" where
  "sleep_time api 0 r = 0"
| "sleep_time api (Suc k) r = 500 + snd (rc_sleep api r) + sleep_time api k (fst (rc_sleep api r))"

text \<open>Whether a poll ends the wait before the deadline, and with which result.\<close>

definition decided :: "'r raft_calls \<Rightarrow> ('r \<Rightarrow> string option) \<Rightarrow> string \<Rightarrow> u64 \<Rightarrow> 'r \<Rightarrow> bool" where
  "decided api gone target min_matched r \<longleftrightarrow> gone r \<noteq> None \<or> \<not> leads api r \<or> caught_up api target min_matched r"

definition success :: "'r raft_calls \<Rightarrow> ('r \<Rightarrow> string option) \<Rightarrow> string \<Rightarrow> u64 \<Rightarrow> 'r \<Rightarrow> bool" where
  "success api gone target min_matched r \<longleftrightarrow> gone r = None \<and> leads api r \<and> caught_up api target min_matched r"

lemma wait_step:
  "decided api gone target mi r \<Longrightarrow>
     \<exists>x. wait_polls api gone target mi d t r = (r, x) \<and> (x = Inr () \<longleftrightarrow> success api gone target mi r)"
  "\<not> decided api gone target mi r \<Longrightarrow> d \<le> t \<Longrightarrow> \<exists>e. wait_polls api gone target mi d t r = (r, Inl e)"
  "\<not> decided api gone target mi r \<Longrightarrow> \<not> d \<le> t \<Longrightarrow>
     wait_polls api gone target mi d t r =
     wait_polls api gone target mi d (t + 500 + snd (rc_sleep api r)) (fst (rc_sleep api r))"
  by (auto simp: wait_polls.simps[of api gone target mi d t r] decided_def success_def caught_up_def Let_def
      split: option.split prod.split)

lemma not_decided_success: "\<not> decided api gone target mi r \<Longrightarrow> \<not> success api gone target mi r"
  by (auto simp: decided_def success_def)

lemma wait_polls_outcome:
  "\<exists>k x. wait_polls api gone target mi d t r = (slept api k r, x) \<and>
     (\<forall>j<k. \<not> decided api gone target mi (slept api j r)) \<and>
     (decided api gone target mi (slept api k r) \<or> d \<le> t + sleep_time api k r) \<and>
     (x = Inr () \<longleftrightarrow> success api gone target mi (slept api k r)) \<and> (k = 0 \<or> 500 * k < d - t + 500)"
proof (induction api gone target mi d t r rule: wait_polls.induct)
  case (1 api gone target mi d t r)
  show ?case
  proof (cases "decided api gone target mi r \<or> d \<le> t")
    case True
    then obtain x where "wait_polls api gone target mi d t r = (r, x)" "x = Inr () \<longleftrightarrow> success api gone target mi r"
      using wait_step(1,2) not_decided_success by (metis Inl_Inr_False)
    with True show ?thesis by (intro exI[of _ 0] exI[of _ x]) auto
  next
    case False
    obtain r1 late where s: "rc_sleep api r = (r1, late)" by (cases "rc_sleep api r")
    from False have "gone r = None" "leads api r" "\<not> required_index (rc_metrics api r) mi \<le> matched_index (rc_metrics api r) target" "\<not> d \<le> t"
      by (auto simp: decided_def caught_up_def)
    from "1.IH"[OF this(1) refl _ this(3,4) s[symmetric]] this(2) obtain k x where
      IH: "wait_polls api gone target mi d (t + 500 + late) r1 = (slept api k r1, x)"
      "\<forall>j<k. \<not> decided api gone target mi (slept api j r1)"
      "decided api gone target mi (slept api k r1) \<or> d \<le> t + 500 + late + sleep_time api k r1"
      "x = Inr () \<longleftrightarrow> success api gone target mi (slept api k r1)" "k = 0 \<or> 500 * k < d - (t + 500 + late) + 500"
      by auto
    have "\<forall>j<Suc k. \<not> decided api gone target mi (slept api j r)"
    proof (intro allI impI)
      fix j
      assume "j < Suc k"
      with IH(2) False s show "\<not> decided api gone target mi (slept api j r)" by (cases j) auto
    qed
    moreover have count: "500 * Suc k < d - t + 500"
    proof (cases "k = 0")
      case True
      with False show ?thesis by (simp, arith)
    next
      case k: False
      then have "500 \<le> 500 * k" by (cases k) auto
      with IH(5) k have "t + 500 + late < d" by auto
      then obtain e where "d = t + 500 + late + e" by (metis less_imp_add_positive)
      with IH(5) k show ?thesis by simp
    qed
    ultimately show ?thesis
      using IH(1,3,4) wait_step(3)[of api gone target mi r d t] False s
      by (intro exI[of _ "Suc k"] exI[of _ x]) (auto simp: add.assoc)
  qed
qed

text \<open>C30: a wait for a joining node always ends. It polls the metrics until the leadership is lost or the node
  has caught up with the log of the leader, or until the timeout has passed, sleeps at most once per
  half second of the timeout and once more, and succeeds exactly if the last poll found this node
  leading and the joining one caught up.
\<close>

theorem catch_up_wait_ends:
  "\<exists>k x. wait_for_join_member_rpc api target mi timeout r = (slept api k r, x) \<and>
     500 * k < timeout + 500 \<and>
     list_all (\<lambda>j. leads api (slept api j r) \<and> \<not> caught_up api target mi (slept api j r)) [0..<k] \<and>
     (\<not> leads api (slept api k r) \<or> caught_up api target mi (slept api k r) \<or> timeout \<le> sleep_time api k r) \<and>
     (x = Inr () \<longleftrightarrow> leads api (slept api k r) \<and> caught_up api target mi (slept api k r))"
proof -
  obtain k x where "wait_polls api (\<lambda>_. None) target mi timeout 0 r = (slept api k r, x)"
    "\<forall>j<k. \<not> decided api (\<lambda>_. None) target mi (slept api j r)"
    "decided api (\<lambda>_. None) target mi (slept api k r) \<or> timeout \<le> 0 + sleep_time api k r"
    "x = Inr () \<longleftrightarrow> success api (\<lambda>_. None) target mi (slept api k r)" "k = 0 \<or> 500 * k < timeout - 0 + 500"
    using wait_polls_outcome[of api "\<lambda>_. None" target mi timeout 0 r] by blast
  then show ?thesis
    unfolding wait_for_join_member_rpc_def
    by (intro exI[of _ k] exI[of _ x]) (auto simp: decided_def success_def list_all_iff)
qed

text \<open>A group as the set of its voters: every node is known to have the whole log.\<close>

definition example_metrics :: "string set \<Rightarrow> raft_metrics" where
  "example_metrics V = \<lparr>rm_id = ''a'', rm_is_leader = True, rm_current_leader = Some ''a'', rm_voters = V,
     rm_nodes = Map.empty, rm_last_log_index = Some 7, rm_replication = Some (\<lambda>_. Some (Some 7))\<rparr>"

definition example_api :: "string set raft_calls" where
  "example_api = \<lparr>rc_metrics = example_metrics, rc_add_learner = (\<lambda>n a V. (V, Inr 7)),
     rc_change_membership = (\<lambda>W V. if finite W then (W, Inr ()) else (V, Inl ''infinite'')),
     rc_sleep = (\<lambda>V. (V, 0)), rc_registered = (\<lambda>_. True)\<rparr>"

theorem catch_up_wait_ends_witness:
  "\<exists>k x. wait_for_join_member_rpc example_api ''c'' 7 1000 {''a''} = (slept example_api k {''a''}, x) \<and> 500 * k < 1500"
  using catch_up_wait_ends[of example_api "''c''" 7 1000 "{''a''}"] by auto

section \<open>Requests\<close>

text \<open>A change goes through a joint configuration, whose voters are those of both of its sides; a failed call
  can stop before, in or after it. Nothing is said of a node that lost the leadership. While a request waits
  it holds the fence of the group, which the guard and the other requests take too, so the voters of a node
  that leads stay.\<close>

definition raft_ok :: "'r raft_calls \<Rightarrow> bool" where
  "raft_ok api \<longleftrightarrow>
     (\<forall>n a r. case rc_add_learner api n a r of (r', x) \<Rightarrow>
        (case x of Inr _ \<Rightarrow> True | Inl _ \<Rightarrow> leads api r') \<longrightarrow> voters_of api r' = voters_of api r) \<and>
     (\<forall>V r. case rc_change_membership api V r of (r', Inr _) \<Rightarrow> voters_of api r' = V
        | (r', Inl _) \<Rightarrow> leads api r' \<longrightarrow>
            voters_of api r' = voters_of api r \<or> V \<subseteq> voters_of api r' \<and> voters_of api r' \<subseteq> voters_of api r \<union> V) \<and>
     (\<forall>r. leads api (fst (rc_sleep api r)) \<longrightarrow> voters_of api (fst (rc_sleep api r)) = voters_of api r) \<and>
     (\<forall>r. finite (voters_of api r))"

lemma raft_okD:
  assumes "raft_ok api"
  shows "rc_add_learner api n a r = (r', x) \<Longrightarrow> (\<forall>e. x \<noteq> Inl e) \<or> leads api r' \<Longrightarrow> voters_of api r' = voters_of api r"
    and "rc_change_membership api V r = (r', Inr u) \<Longrightarrow> voters_of api r' = V"
    and "rc_change_membership api V r = (r', Inl e) \<Longrightarrow> leads api r' \<Longrightarrow>
      voters_of api r' = voters_of api r \<or> V \<subseteq> voters_of api r' \<and> voters_of api r' \<subseteq> voters_of api r \<union> V"
    and "leads api (fst (rc_sleep api r)) \<Longrightarrow> voters_of api (fst (rc_sleep api r)) = voters_of api r"
    and "finite (voters_of api r)"
proof -
  note ok = assms[unfolded raft_ok_def]
  note add = ok[THEN conjunct1, rule_format]
  note change = ok[THEN conjunct2, THEN conjunct1, rule_format]
  note sleep = ok[THEN conjunct2, THEN conjunct2, THEN conjunct1, rule_format]
  note fin = ok[THEN conjunct2, THEN conjunct2, THEN conjunct2, rule_format]
  show "rc_add_learner api n a r = (r', x) \<Longrightarrow> (\<forall>e. x \<noteq> Inl e) \<or> leads api r' \<Longrightarrow> voters_of api r' = voters_of api r"
    using add[where n = n and a = a and r = r] by (cases x) auto
  show "rc_change_membership api V r = (r', Inr u) \<Longrightarrow> voters_of api r' = V"
    using change[where V = V and r = r] by simp
  show "rc_change_membership api V r = (r', Inl e) \<Longrightarrow> leads api r' \<Longrightarrow>
      voters_of api r' = voters_of api r \<or> V \<subseteq> voters_of api r' \<and> voters_of api r' \<subseteq> voters_of api r \<union> V"
    using change[where V = V and r = r] by simp
  show "leads api (fst (rc_sleep api r)) \<Longrightarrow> voters_of api (fst (rc_sleep api r)) = voters_of api r"
    by (rule sleep)
  show "finite (voters_of api r)" by (rule fin)
qed

lemma slept_voters:
  assumes "raft_ok api" and "\<forall>j<k. leads api (slept api j r)" and "leads api (slept api k r)"
  shows "voters_of api (slept api k r) = voters_of api r"
  using assms(2,3)
proof (induction k arbitrary: r)
  case (Suc k)
  have "leads api (slept api 0 (fst (rc_sleep api r)))" if "0 < k" using Suc.prems(1) that
    by (metis Suc_less_eq slept.simps(2))
  then have "leads api (fst (rc_sleep api r))" using Suc.prems(2) by (cases k) auto
  moreover have "\<forall>j<k. leads api (slept api j (fst (rc_sleep api r)))"
    using Suc.prems(1) by (metis Suc_less_eq slept.simps(2))
  ultimately show ?case using Suc.IH Suc.prems(2) raft_okD(4)[OF assms(1)] by simp
qed simp

text \<open>What the rest of the request relies on after a wait.\<close>

lemma wait_polls_voters:
  assumes "raft_ok api" and "wait_polls api gone target mi d t r = (r', x)"
  shows "leads api r' \<Longrightarrow> voters_of api r' = voters_of api r"
    and "x = Inr u \<Longrightarrow> leads api r' \<and> caught_up api target mi r'"
proof -
  obtain k where k: "r' = slept api k r" "\<forall>j<k. \<not> decided api gone target mi (slept api j r)"
    "x = Inr () \<longleftrightarrow> success api gone target mi (slept api k r)"
    using wait_polls_outcome[of api gone target mi d t r] assms(2) by auto
  then show "leads api r' \<Longrightarrow> voters_of api r' = voters_of api r"
    using slept_voters[OF assms(1), of k r] by (auto simp: decided_def)
  show "x = Inr u \<Longrightarrow> leads api r' \<and> caught_up api target mi r'"
    using k by (auto simp: success_def)
qed

text \<open>The requests, the voters each asks for, and the node it makes a voter.\<close>

datatype change_request = Remove string | Add string string bool nat | Replace string string string nat | Join join_request

fun goal :: "change_request \<Rightarrow> string set \<Rightarrow> string set" where
  "goal (Remove t) V = V - {t}"
| "goal (Add t a promote timeout) V = (if promote then insert t V else V)"
| "goal (Replace old new a timeout) V = (if old \<in> V then insert new (V - {old}) else V)"
| "goal (Join q) V = (if card V < jq_max_voters q then insert (jq_node_id q) V else V)"

fun new_voter :: "change_request \<Rightarrow> string option" where
  "new_voter (Remove t) = None"
| "new_voter (Add t a promote timeout) = Some t"
| "new_voter (Replace old new a timeout) = Some new"
| "new_voter (Join q) = Some (jq_node_id q)"

fun run_request :: "'r raft_calls \<Rightarrow> (rpc_reply \<Rightarrow> string) \<Rightarrow> (string \<Rightarrow> rpc_reply result) \<Rightarrow> string \<Rightarrow> change_request \<Rightarrow>
    'r group_handle \<Rightarrow> 'r group_handle \<times> bool" where
  "run_request api debug req gid (Remove t) g = apsnd mr_ok (remove_openraft_member_from_group api gid t g)"
| "run_request api debug req gid (Add t a promote timeout) g =
     apsnd mr_ok (add_openraft_member_to_group api debug req gid t a promote timeout g)"
| "run_request api debug req gid (Replace old new a timeout) g =
     apsnd mr_ok (replace_openraft_member_in_group api gid old new a timeout g)"
| "run_request api debug req gid (Join q) g =
     apsnd (\<lambda>reply. case reply of JoinReply resp \<Rightarrow> js_ok resp | _ \<Rightarrow> False) (handle_inbound_rpc api (JoinCluster q) g)"

text \<open>What a request with the fence free does to the raft group: nothing to the voters, or the change it
  asks for, made while this node leads and the new voter is caught up.\<close>

definition changed :: "'r raft_calls \<Rightarrow> change_request \<Rightarrow> 'r \<Rightarrow> 'r \<Rightarrow> bool \<Rightarrow> bool" where
  "changed api q r r' ok \<longleftrightarrow>
     (\<exists>r0. leads api r0 \<and> voters_of api r0 = voters_of api r \<and> fst (rc_change_membership api (goal q (voters_of api r)) r0) = r' \<and>
        (ok \<longrightarrow> voters_of api r' = goal q (voters_of api r)) \<and> goal q (voters_of api r) \<noteq> {} \<and>
        (case new_voter q of Some t \<Rightarrow> \<exists>mi. caught_up api t mi r0 | None \<Rightarrow> True))"

definition unchanged :: "'r raft_calls \<Rightarrow> change_request \<Rightarrow> 'r \<Rightarrow> 'r \<Rightarrow> bool \<Rightarrow> bool" where
  "unchanged api q r r' ok \<longleftrightarrow> (leads api r' \<or> ok \<longrightarrow> voters_of api r' = voters_of api r) \<and>
     (ok \<longrightarrow> goal q (voters_of api r) = voters_of api r)"

lemma changedI:
  assumes "raft_ok api" and "leads api r0" and "voters_of api r0 = voters_of api r"
    and "rc_change_membership api (goal q (voters_of api r)) r0 = (r', y)"
    and "goal q (voters_of api r) \<noteq> {}" and "\<And>t. new_voter q = Some t \<Longrightarrow> caught_up api t mi r0"
    and "ok \<Longrightarrow> y = Inr ()"
  shows "changed api q r r' ok"
  unfolding changed_def
proof (intro exI[of _ r0] conjI impI)
  show "voters_of api r' = goal q (voters_of api r)" if ok
    using raft_okD(2)[OF assms(1)] assms(4,7) that by blast
  show "case new_voter q of Some t \<Rightarrow> \<exists>mi. caught_up api t mi r0 | None \<Rightarrow> True"
    using assms(6) by (auto split: option.split)
qed (use assms in auto)

lemma unchangedI:
  "(leads api r' \<or> ok \<Longrightarrow> voters_of api r' = voters_of api r) \<Longrightarrow> (ok \<Longrightarrow> goal q (voters_of api r) = voters_of api r) \<Longrightarrow>
   unchanged api q r r' ok"
  by (auto simp: unchanged_def)

lemma remove_effect:
  assumes "raft_ok api" and "remove_body api gid t r = (r', m)"
  shows "unchanged api (Remove t) r r' (mr_ok m) \<or> changed api (Remove t) r r' (mr_ok m)"
proof (cases "leads api r \<and> t \<in> voters_of api r \<and> voters_of api r - {t} \<noteq> {}")
  case True
  obtain r1 y where y: "rc_change_membership api (goal (Remove t) (voters_of api r)) r = (r1, y)"
    by (cases "rc_change_membership api (goal (Remove t) (voters_of api r)) r")
  with True assms(2) have "r' = r1" "mr_ok m \<Longrightarrow> y = Inr ()"
    by (auto simp: remove_body_def Let_def split: sum.splits)
  with changedI[OF assms(1) _ refl y] True show ?thesis by simp
next
  case False
  with assms(2) have "r' = r" "mr_ok m \<Longrightarrow> t \<notin> voters_of api r"
    by (auto simp: remove_body_def Let_def split: if_splits)
  then show ?thesis by (intro disjI1 unchangedI) auto
qed

lemma replace_effect:
  assumes "raft_ok api" and "replace_body api gid old new a timeout r = (r', m)"
  shows "unchanged api (Replace old new a timeout) r r' (mr_ok m) \<or> changed api (Replace old new a timeout) r r' (mr_ok m)"
proof (cases "leads api r \<and> old \<in> voters_of api r")
  case True
  obtain r1 y where add: "rc_add_learner api new a r = (r1, y)" by (cases "rc_add_learner api new a r")
  note v1 = raft_okD(1)[OF assms(1) add]
  show ?thesis
  proof (cases y)
    case (Inl e)
    with True assms(2) add have "r' = r1" "\<not> mr_ok m" by (auto simp: replace_body_def Let_def)
    with v1 show ?thesis by (intro disjI1 unchangedI) auto
  next
    case (Inr i)
    obtain r2 z where wt: "wait_for_openraft_member_rpc api gid new i timeout r1 = (r2, z)"
      by (cases "wait_for_openraft_member_rpc api gid new i timeout r1")
    note w = wait_polls_voters[OF assms(1) wt[unfolded wait_for_openraft_member_rpc_def]]
    show ?thesis
    proof (cases z)
      case (Inl e)
      with True assms(2) add Inr wt have "r' = r2" "\<not> mr_ok m" by (auto simp: replace_body_def Let_def)
      with v1 w(1) Inr show ?thesis by (intro disjI1 unchangedI) auto
    next
      case z: (Inr u)
      have goal: "goal (Replace old new a timeout) (voters_of api r) = insert new (voters_of api r - {old})"
        using True by simp
      obtain r3 x where ch: "rc_change_membership api (insert new (voters_of api r - {old})) r2 = (r3, x)"
        by (cases "rc_change_membership api (insert new (voters_of api r - {old})) r2")
      from True assms(2) add Inr wt z ch have "r' = r3" "mr_ok m \<Longrightarrow> x = Inr ()"
        by (auto simp: replace_body_def Let_def split: sum.splits)
      moreover have "changed api (Replace old new a timeout) r r3 (mr_ok m)"
        by (rule changedI[OF assms(1) _ _ ch[folded goal], where mi = i]) (use w z v1 Inr goal calculation in auto)
      ultimately show ?thesis by simp
    qed
  qed
next
  case False
  with assms(2) have "r' = r" "mr_ok m \<Longrightarrow> old \<notin> voters_of api r"
    by (auto simp: replace_body_def Let_def split: if_splits)
  then show ?thesis by (intro disjI1 unchangedI) auto
qed

lemma add_effect:
  assumes "raft_ok api" and "add_body api debug req gid t a promote timeout r = (r', m)"
  shows "unchanged api (Add t a promote timeout) r r' (mr_ok m) \<or> changed api (Add t a promote timeout) r r' (mr_ok m)"
proof (cases "leads api r \<and> t \<notin> voters_of api r")
  case True
  obtain r1 y where add: "rc_add_learner api t a r = (r1, y)" by (cases "rc_add_learner api t a r")
  note v1 = raft_okD(1)[OF assms(1) add]
  show ?thesis
  proof (cases "y \<in> range Inl \<or> \<not> promote")
    case stop: True
    with True assms(2) add have "r' = r1" "mr_ok m \<Longrightarrow> \<not> promote \<and> (\<forall>e. y \<noteq> Inl e)" by (auto simp: add_body_def Let_def split: sum.splits)
    with v1 show ?thesis by (intro disjI1 unchangedI) auto
  next
    case go: False
    then obtain i where y: "y = Inr i" and promote by (cases y) auto
    obtain r2 z where wt: "wait_for_openraft_member_rpc api gid t i timeout r1 = (r2, z)"
      by (cases "wait_for_openraft_member_rpc api gid t i timeout r1")
    note w = wait_polls_voters[OF assms(1) wt[unfolded wait_for_openraft_member_rpc_def]]
    show ?thesis
    proof (cases z)
      case (Inl e)
      with True assms(2) add y \<open>promote\<close> wt have "r' = r2" "\<not> mr_ok m" by (auto simp: add_body_def Let_def)
      with v1 w(1) y show ?thesis by (intro disjI1 unchangedI) auto
    next
      case z: (Inr u)
      have v2: "voters_of api r2 = voters_of api r" using w z v1 y by simp
      have goal: "goal (Add t a promote timeout) (voters_of api r) = insert t (voters_of api r2)"
        using v2 \<open>promote\<close> by simp
      obtain r3 x where ch: "rc_change_membership api (insert t (voters_of api r2)) r2 = (r3, x)"
        by (cases "rc_change_membership api (insert t (voters_of api r2)) r2")
      from True assms(2) add y \<open>promote\<close> wt z ch have "r' = r3" "mr_ok m \<Longrightarrow> x = Inr ()"
        by (auto simp: add_body_def Let_def split: sum.splits)
      moreover have "changed api (Add t a promote timeout) r r3 (mr_ok m)"
        by (rule changedI[OF assms(1) _ v2 ch[folded goal], where mi = i]) (use w z goal calculation in auto)
      ultimately show ?thesis by simp
    qed
  qed
next
  case False
  with assms(2) have "r' = r" "mr_ok m \<Longrightarrow> \<not> promote \<or> t \<in> voters_of api r"
    by (auto simp: add_body_def Let_def split: if_splits)
  then show ?thesis by (intro disjI1 unchangedI) auto
qed

lemma join_effect:
  assumes "raft_ok api" and "handle_join_cluster api q r = (r', m)"
  shows "unchanged api (Join q) r r' (js_ok m) \<or> changed api (Join q) r r' (js_ok m)"
proof (cases "leads api r \<and> jq_node_id q \<notin> voters_of api r \<and> card (voters_of api r) < jq_max_voters q")
  case True
  obtain r1 y where add: "rc_add_learner api (jq_node_id q) (jq_addr q) r = (r1, y)"
    by (cases "rc_add_learner api (jq_node_id q) (jq_addr q) r")
  note v1 = raft_okD(1)[OF assms(1) add]
  show ?thesis
  proof (cases y)
    case (Inl e)
    with True assms(2) add have "r' = r1" "\<not> js_ok m" by (auto simp: handle_join_cluster_def Let_def)
    with v1 show ?thesis by (intro disjI1 unchangedI) auto
  next
    case y: (Inr i)
    obtain r2 z where wt: "wait_for_join_member_rpc api (jq_node_id q) i (jq_catch_up_timeout_ms q) r1 = (r2, z)"
      by (cases "wait_for_join_member_rpc api (jq_node_id q) i (jq_catch_up_timeout_ms q) r1")
    note w = wait_polls_voters[OF assms(1) wt[unfolded wait_for_join_member_rpc_def]]
    show ?thesis
    proof (cases z)
      case (Inl e)
      with True assms(2) add y wt have "r' = r2" "\<not> js_ok m" by (auto simp: handle_join_cluster_def Let_def)
      with v1 w(1) y show ?thesis by (intro disjI1 unchangedI) auto
    next
      case z: (Inr u)
      have v2: "voters_of api r2 = voters_of api r" using w z v1 y by simp
      have goal: "goal (Join q) (voters_of api r) = insert (jq_node_id q) (voters_of api r2)"
        using v2 True by simp
      obtain r3 x where ch: "rc_change_membership api (insert (jq_node_id q) (voters_of api r2)) r2 = (r3, x)"
        by (cases "rc_change_membership api (insert (jq_node_id q) (voters_of api r2)) r2")
      from True assms(2) add y wt z ch have "r' = r3" "js_ok m \<Longrightarrow> x = Inr ()"
        by (auto simp: handle_join_cluster_def Let_def split: sum.splits)
      moreover have "changed api (Join q) r r3 (js_ok m)"
        by (rule changedI[OF assms(1) _ v2 ch[folded goal], where mi = i]) (use w z goal calculation in auto)
      ultimately show ?thesis by simp
    qed
  qed
next
  case False
  with assms(2) have "r' = r" "js_ok m \<Longrightarrow> jq_node_id q \<in> voters_of api r \<or> \<not> card (voters_of api r) < jq_max_voters q"
    by (auto simp: handle_join_cluster_def Let_def split: if_splits)
  then show ?thesis by (intro disjI1 unchangedI) auto
qed

text \<open>The fence around the bodies.\<close>

definition request_effect :: "'r raft_calls \<Rightarrow> change_request \<Rightarrow> 'r group_handle \<Rightarrow> 'r group_handle \<Rightarrow> bool \<Rightarrow> bool" where
  "request_effect api q g g' ok \<longleftrightarrow>
     (if gh_fence_held g then g' = g \<and> \<not> ok
      else gh_fence_held g' = gh_fence_held g \<and>
        (unchanged api q (gh_raft g) (gh_raft g') ok \<or> changed api q (gh_raft g) (gh_raft g') ok))"

lemma refused_effect: "request_effect api q g g False"
  by (simp add: request_effect_def unchanged_def)

lemma fenced_effect:
  assumes "\<And>r r' a. body r = (r', a) \<Longrightarrow> unchanged api q r r' (ok_of a) \<or> changed api q r r' (ok_of a)"
    and "\<not> ok_of busy" and "apsnd ok_of (with_fence body busy g) = (g', ok)"
  shows "request_effect api q g g' ok"
proof (cases "gh_fence_held g")
  case True
  with assms(2,3) show ?thesis by (auto simp: with_fence_def request_effect_def)
next
  case False
  obtain r a where b: "body (gh_raft g) = (r, a)" by (cases "body (gh_raft g)")
  with False assms(3) have "g' = \<lparr>gh_raft = r, gh_fence_held = False\<rparr>" "ok = ok_of a"
    by (auto simp: with_fence_def)
  with False assms(1)[OF b] show ?thesis by (simp add: request_effect_def)
qed

lemma no_reply_not_ok [simp]: "\<not> mr_ok (no_reply i e)" "\<not> mr_ok (no_add_reply i e)"
  by (simp_all add: no_reply_def no_add_reply_def)

text \<open>A request on a group: refused with a busy fence, otherwise one of the two effects.\<close>

lemma run_request_effect:
  assumes "raft_ok api" and "run_request api debug req gid q g = (g', ok)"
  shows "request_effect api q g g' ok"
proof (cases q)
  case (Remove t)
  show ?thesis
  proof (cases "rc_registered api (gh_raft g)")
    case True
    with assms(2) Remove show ?thesis
      by (intro fenced_effect[where ok_of = mr_ok and busy = "no_reply gid (fence_busy gid)" and
            body = "remove_body api gid t"])
        (auto simp: remove_openraft_member_from_group_def dest: remove_effect[OF assms(1)])
  qed (use assms(2) Remove in \<open>auto simp: remove_openraft_member_from_group_def refused_effect\<close>)
next
  case (Add t a promote timeout)
  show ?thesis
  proof (cases "rc_registered api (gh_raft g)")
    case True
    with assms(2) Add show ?thesis
      by (intro fenced_effect[where ok_of = mr_ok and busy = "no_add_reply gid (fence_busy gid)" and
            body = "add_body api debug req gid t a promote timeout"])
        (auto simp: add_openraft_member_to_group_def dest: add_effect[OF assms(1)])
  qed (use assms(2) Add in \<open>auto simp: add_openraft_member_to_group_def refused_effect\<close>)
next
  case (Replace old new a timeout)
  show ?thesis
  proof (cases "rc_registered api (gh_raft g)")
    case True
    with assms(2) Replace show ?thesis
      by (intro fenced_effect[where ok_of = mr_ok and busy = "no_reply gid (fence_busy gid)" and
            body = "replace_body api gid old new a timeout"])
        (auto simp: replace_openraft_member_in_group_def dest: replace_effect[OF assms(1)])
  qed (use assms(2) Replace in \<open>auto simp: replace_openraft_member_in_group_def refused_effect\<close>)
next
  case (Join j)
  have "unchanged api (Join j) r r' (case a of JoinReply resp \<Rightarrow> js_ok resp | _ \<Rightarrow> False) \<or>
      changed api (Join j) r r' (case a of JoinReply resp \<Rightarrow> js_ok resp | _ \<Rightarrow> False)"
    if "apsnd JoinReply (handle_join_cluster api j r) = (r', a)" for r r' a
    using that join_effect[OF assms(1), of j r] by (cases "handle_join_cluster api j r") auto
  then show ?thesis using assms(2) Join
    by (intro fenced_effect[where body = "\<lambda>r. apsnd JoinReply (handle_join_cluster api j r)" and
          busy = "ErrorReply rpc_fence_busy" and ok_of = "\<lambda>a. case a of JoinReply resp \<Rightarrow> js_ok resp | _ \<Rightarrow> False"]) auto
qed

lemma goal_bounds:
  assumes "finite V"
  shows "card (goal (Join j) V) \<le> max (card V) (jq_max_voters j)"
    and "card (goal (Replace old new a timeout) V) \<le> card V"
proof -
  show "card (goal (Join j) V) \<le> max (card V) (jq_max_voters j)"
    using card_insert_le_m1[of "jq_max_voters j" V "jq_node_id j"] by auto
  have "card (insert new (V - {old})) \<le> card V" if "old \<in> V"
  proof -
    have "card (V - {old}) < card V" using assms that by (intro psubset_card_mono) auto
    with card_insert_le_m1[of "card V" "V - {old}" new] show ?thesis by simp
  qed
  then show "card (goal (Replace old new a timeout) V) \<le> card V" by simp
qed

text \<open>Between the old voters and those asked for there are at most the two and their union.\<close>

lemma goal_between:
  assumes "goal q V \<subseteq> V'" "V' \<subseteq> V \<union> goal q V"
  shows "V' \<in> {V, goal q V, V \<union> goal q V}"
  using assms by (cases q) (auto split: if_splits)

text \<open>C36: a membership request, over HTTP or from a joining node, while another one of the group is under way
  is refused and changes nothing. Otherwise an accepted request leaves exactly the voters it asks for. After
  any other one, as long as this node leads and nothing else changes the membership (the other changes of
  this program take the same fence), the voters are the old ones, those asked for, or both
  together (a joint configuration that a failed change left). The group never runs out of voters, a join
  never exceeds the maximum of its request, an accepted replacement adds no voter and a failed one at most
  one, and a node becomes a voter only by a change submitted while it had caught up with the log of the
  leader.
\<close>

theorem membership_requests_sound:
  assumes "raft_ok api" and "run_request api debug req gid q g = (g', ok)"
    and "V = voters_of api (gh_raft g)" and "V' = voters_of api (gh_raft g')" and "V \<noteq> {}"
  shows "(gh_fence_held g \<longrightarrow> g' = g \<and> \<not> ok) \<and> (ok \<longrightarrow> V' = goal q V) \<and>
    (ok \<or> leads api (gh_raft g') \<longrightarrow> V' \<in> {V, goal q V, V \<union> goal q V} \<and> V' \<noteq> {} \<and>
       (case q of Join j \<Rightarrow> card V' \<le> max (card V) (jq_max_voters j)
         | Replace _ _ _ _ \<Rightarrow> card V' \<le> card V + (if ok then 0 else 1) | _ \<Rightarrow> True) \<and>
       (case new_voter q of Some t \<Rightarrow> V' \<noteq> V \<longrightarrow> (\<exists>r mi. voters_of api r = V \<and> leads api r \<and> caught_up api t mi r \<and>
            fst (rc_change_membership api (goal q V) r) = gh_raft g') | None \<Rightarrow> True))"
proof (cases "gh_fence_held g")
  case True
  with run_request_effect[OF assms(1,2)] have "g' = g" "\<not> ok" by (simp_all add: request_effect_def)
  with assms(3-5) show ?thesis by (auto split: change_request.split option.split)
next
  case False
  with run_request_effect[OF assms(1,2)]
  have "unchanged api q (gh_raft g) (gh_raft g') ok \<or> changed api q (gh_raft g) (gh_raft g') ok"
    by (simp add: request_effect_def)
  then show ?thesis
  proof
    assume u: "unchanged api q (gh_raft g) (gh_raft g') ok"
    then have "ok \<Longrightarrow> V' = goal q V" "ok \<or> leads api (gh_raft g') \<Longrightarrow> V' = V"
      unfolding unchanged_def assms(3,4) by auto
    with False assms(5) show ?thesis by (auto split: change_request.split option.split)
  next
    assume "changed api q (gh_raft g) (gh_raft g') ok"
    then obtain r0 where r0: "leads api r0" "voters_of api r0 = V" "fst (rc_change_membership api (goal q V) r0) = gh_raft g'"
        "ok \<longrightarrow> V' = goal q V" "goal q V \<noteq> {}" "case new_voter q of Some t \<Rightarrow> \<exists>mi. caught_up api t mi r0 | None \<Rightarrow> True"
      unfolding changed_def assms(3,4) by blast
    show ?thesis
    proof (cases "ok \<or> leads api (gh_raft g')")
      case live: True
      obtain x where x: "rc_change_membership api (goal q V) r0 = (gh_raft g', x)"
        using r0(3) by (cases "rc_change_membership api (goal q V) r0") auto
      have "V' = V \<or> goal q V \<subseteq> V' \<and> V' \<subseteq> V \<union> goal q V"
      proof (cases "V' = goal q V")
        case other: False
        then have "leads api (gh_raft g')" using live r0(4) by blast
        then show ?thesis
          using raft_okD(2,3)[OF assms(1)] x r0(2) assms(4) other by (cases x) metis+
      qed simp
      then have within: "V' \<in> {V, goal q V, V \<union> goal q V}" using goal_between by blast
      have "finite V" using raft_okD(5)[OF assms(1)] assms(3) by simp
      note bounds = goal_bounds[OF this]
      have "case q of Join j \<Rightarrow> card V' \<le> max (card V) (jq_max_voters j)
         | Replace _ _ _ _ \<Rightarrow> card V' \<le> card V + (if ok then 0 else 1) | _ \<Rightarrow> True"
      proof (cases q)
        case (Join j)
        then have "V \<union> goal q V = goal q V" by auto
        then show ?thesis using Join within bounds(1)[of j] by auto
      next
        case (Replace old new a timeout)
        have "card (V \<union> goal q V) \<le> card V + 1"
        proof -
          have "V \<union> goal q V \<subseteq> insert new V" using Replace by auto
          then have "card (V \<union> goal q V) \<le> card (insert new V)" using \<open>finite V\<close> by (intro card_mono) auto
          also have "\<dots> \<le> card V + 1" using card_insert_le_m1[of "Suc (card V)" V new] by simp
          finally show ?thesis .
        qed
        then show ?thesis
          using Replace within bounds(2)[of old new a timeout] r0(4) by (auto simp del: goal.simps)
      qed simp_all
      moreover have "case new_voter q of Some t \<Rightarrow> V' \<noteq> V \<longrightarrow> (\<exists>r mi. voters_of api r = V \<and> leads api r \<and> caught_up api t mi r \<and>
            fst (rc_change_membership api (goal q V) r) = gh_raft g') | None \<Rightarrow> True"
      proof (cases "new_voter q")
        case (Some t)
        with r0(6) obtain mi where "caught_up api t mi r0" by auto
        with Some r0 show ?thesis by auto
      qed simp
      ultimately show ?thesis using False within r0(4,5) assms(5) by auto
    qed (use False in auto)
  qed
qed

lemmas example_simps = example_api_def example_metrics_def

definition fset_api :: "string fset raft_calls" where
  "fset_api = \<lparr>rc_metrics = (\<lambda>V. example_metrics (fset V)), rc_add_learner = (\<lambda>n a V. (V, Inr 7)),
     rc_change_membership = (\<lambda>W V. if \<not> finite W then (V, Inl ''infinite'')
        else if ''x'' \<in> W then (V |\<union>| Abs_fset W, Inl ''no quorum of the new configuration'') else (Abs_fset W, Inr ())),
     rc_sleep = (\<lambda>V. (V, 0)), rc_registered = (\<lambda>_. True)\<rparr>"

lemma fset_api_ok: "raft_ok fset_api"
  by (simp add: raft_ok_def fset_api_def example_metrics_def Abs_fset_inverse)

definition example_join :: join_request where
  "example_join = \<lparr>jq_node_id = ''c'', jq_addr = ''addr'', jq_max_voters = 3, jq_catch_up_timeout_ms = 1000\<rparr>"

definition example_group :: "string fset group_handle" where
  "example_group = \<lparr>gh_raft = {|''a'', ''b''|}, gh_fence_held = False\<rparr>"

theorem membership_requests_sound_witness:
  "\<exists>g'. run_request fset_api (\<lambda>_. []) (\<lambda>_. Inl []) ''tasks'' (Join example_join) example_group = (g', True) \<and>
     voters_of fset_api (gh_raft g') = {''a'', ''b'', ''c''}"
proof -
  obtain g' ok where r: "run_request fset_api (\<lambda>_. []) (\<lambda>_. Inl []) ''tasks'' (Join example_join) example_group = (g', ok)"
    by (cases "run_request fset_api (\<lambda>_. []) (\<lambda>_. Inl []) ''tasks'' (Join example_join) example_group")
  then have ok: ok
    by (simp add: with_fence_def handle_join_cluster_def Let_def fset_api_def example_metrics_def example_join_def
        example_group_def wait_for_join_member_rpc_def wait_polls.simps required_index_def matched_index_def
        leader_addr_of_def split: prod.splits)
  have "voters_of fset_api (gh_raft example_group) = {''a'', ''b''}"
    by (simp add: fset_api_def example_metrics_def example_group_def)
  with membership_requests_sound[OF fset_api_ok r refl refl] ok r show ?thesis
    by (auto simp: example_join_def)
qed

section \<open>Joining\<close>

text \<open>The node reports that it is a member of every group only if each group said so.\<close>

abbreviation admits :: "'n join_net \<Rightarrow> (rpc_reply \<Rightarrow> string) \<Rightarrow> string \<Rightarrow> string \<Rightarrow> nat \<Rightarrow> string \<Rightarrow> bool" where
  "admits net debug self addr max_nodes i \<equiv> \<exists>t n n' resp.
     request_join_control_group net debug self addr max_nodes t i n = (n', Inr resp) \<and> (js_already_member resp \<or> js_joined resp)"

lemma join_group_admits:
  "join_group net debug self addr max_nodes i left t n = (n', Inr (Inr j)) \<Longrightarrow> admits net debug self addr max_nodes i"
proof (induction net debug self addr max_nodes i left t n rule: join_group.induct)
  case (1 net debug self addr max_nodes i left t n)
  obtain n1 y where c: "request_join_control_group net debug self addr max_nodes t i n = (n1, y)"
    by (cases "request_join_control_group net debug self addr max_nodes t i n")
  show ?case
  proof (cases y)
    case (Inl e)
    with 1(2) c show ?thesis by (simp add: join_group.simps)
  next
    case (Inr resp)
    show ?thesis
    proof (cases "js_already_member resp \<or> js_joined resp")
      case True
      with c Inr show ?thesis by blast
    next
      case False
      with 1(2) c Inr obtain l k where "js_leader_id resp = Some l" "left = Suc k" "l \<noteq> t \<and> l \<noteq> self"
        by (auto simp: join_group.simps split: option.splits nat.splits if_splits)
      with False 1(2) c Inr "1.IH" show ?thesis by (simp add: join_group.simps)
    qed
  qed
qed

lemma join_group_no_outcome: "join_group net debug self addr max_nodes i left t n = (n', Inr (Inl out)) \<Longrightarrow> out = Full"
proof (induction net debug self addr max_nodes i left t n rule: join_group.induct)
  case (1 net debug self addr max_nodes i left t n)
  then show ?case
    by (subst (asm) join_group.simps) (auto split: prod.splits sum.splits option.splits nat.splits if_splits)
qed

lemma joined_everywhere:
  assumes "request_join_all_groups net debug self addr max_nodes t is n = (n', Inr out)" and "out \<noteq> Full"
  shows "\<forall>i\<in>set is. admits net debug self addr max_nodes i"
proof -
  have "join_groups net debug self addr max_nodes t any is n = (n', Inr out) \<Longrightarrow> \<forall>i\<in>set is. admits net debug self addr max_nodes i" for any n
  proof (induction "is" arbitrary: any n)
    case (Cons i "is")
    from Cons.prems assms(2) obtain n1 j where
      "join_group net debug self addr max_nodes i CONTROL_JOIN_MAX_LEADER_REDIRECTS t n = (n1, Inr (Inr j))"
      "join_groups net debug self addr max_nodes t (any \<or> j) is n1 = (n', Inr out)"
      by (auto split: prod.splits sum.splits dest: join_group_no_outcome)
    with Cons.IH join_group_admits show ?case by fastforce
  qed simp
  with assms(1) show ?thesis by (simp add: request_join_all_groups_def)
qed

section \<open>Two surprises\<close>

text \<open>
  A batch removes voters even when its additions failed: swapping a node out of a group of three whose
  replacement cannot be reached leaves two voters, although additions come first in order to avoid such
  a state.
\<close>

definition unreachable_api :: "string set raft_calls" where
  "unreachable_api = example_api\<lparr>rc_add_learner := (\<lambda>n a V. (V, Inl ''unreachable''))\<rparr>"

lemma batch_removes_after_failed_add:
  "\<exists>st' reply. batch_openraft_membership unreachable_api (\<lambda>s. Some [P2p s]) (\<lambda>_. []) ''a'' (\<lambda>_. []) (\<lambda>_ _ _ _. Inl [])
      [(''d'', Some ''d'')] [''c''] (Some ''tasks'') True None
      \<lparr>hs_group_ids = [''tasks''], hs_groups = (\<lambda>_. \<lparr>gh_raft = {''a'', ''b'', ''c''}, gh_fence_held = False\<rparr>), hs_book = address_book_new\<rparr>
      = (st', reply) \<and>
    \<not> list_all or_ok (br_added reply) \<and> list_all or_ok (br_removed reply) \<and>
    gh_raft (hs_groups st' ''tasks'') = {''a'', ''b''}"
  by (simp add: batch_openraft_membership_def resolve_membership_group_ids_def apply_add_openraft_member_def
      resolve_openraft_member_addr_def parse_p2p_addr_def register_node_def register_configured_node_addr_def
      address_book_new_def add_openraft_member_to_group_def with_fence_def add_body_def Let_def unreachable_api_def
      example_simps op_result_def apply_remove_openraft_member_def remove_openraft_member_from_group_def remove_body_def)
    auto

text \<open>
  Replacing a voter by a node that already is one shrinks the group, although a replacement is meant never
  to pass through a smaller set of voters.
\<close>

lemma replace_by_voter_shrinks:
  "\<exists>g' m. replace_openraft_member_in_group example_api ''tasks'' ''a'' ''b'' ''addr'' 1000
      \<lparr>gh_raft = {''a'', ''b'', ''c''}, gh_fence_held = False\<rparr> = (g', m) \<and> mr_ok m \<and> gh_raft g' = {''b'', ''c''}"
  by (auto simp: replace_openraft_member_in_group_def with_fence_def replace_body_def Let_def example_simps
      wait_for_openraft_member_rpc_def wait_polls.simps required_index_def matched_index_def)

end
