(* ===== verification/StoreCheck.thy ===== *)
theory StoreCheck
  imports Snapshots LogStore
begin

text \<open>
  \<open>verify_openraft_store_integrity\<close> of \<open>store.rs\<close>: what is checked of a group's log store and state
  machine when the database is opened after a restart. Log ids are openraft's; the argument \<open>dbg\<close>
  prints one. The lemmas say that the check of the entries accepts exactly the gapless logs with
  increasing log ids, what the whole check accepts, and that openraft's use of the log store, as
  the relation \<open>log_history\<close>, only leads to stores that are accepted.
\<close>

section \<open>The checks\<close>

definition with_context :: "string \<Rightarrow> 'a result \<Rightarrow> 'a result" where
  "with_context ctx r = (case r of Inl e \<Rightarrow> Inl (ctx @ '': '' @ e) | Inr x \<Rightarrow> Inr x)"

definition verify_group :: "string \<Rightarrow> string" where
  "verify_group g = ''verify group '' @ g @ '': ''"

definition verify_log_id_order ::
  "('i::linorder \<Rightarrow> string) \<Rightarrow> string \<Rightarrow> string \<Rightarrow> 'i option \<Rightarrow> string \<Rightarrow> 'i option \<Rightarrow> unit result" where
  "verify_log_id_order dbg g lower_name lower upper_name upper =
     (case (lower, upper) of
        (Some lo, Some up) \<Rightarrow>
          if up < lo
          then Inl (verify_group g @ lower_name @ '' '' @ dbg lo @ '' is after '' @ upper_name @ '' '' @ dbg up)
          else Inr ()
      | _ \<Rightarrow> Inr ())"

definition verify_optional_log_id_not_after ::
  "('i::linorder \<Rightarrow> string) \<Rightarrow> string \<Rightarrow> string \<Rightarrow> 'i option \<Rightarrow> string \<Rightarrow> 'i option \<Rightarrow> unit result" where
  "verify_optional_log_id_not_after dbg g value_name v tip_name tip =
     (case (v, tip) of
        (Some x, Some t) \<Rightarrow>
          if t < x
          then Inl (verify_group g @ value_name @ '' '' @ dbg x @ '' is after '' @ tip_name @ '' '' @ dbg t)
          else Inr ()
      | (Some x, None) \<Rightarrow>
          Inl (verify_group g @ value_name @ '' '' @ dbg x @ '' exists but '' @ tip_name @ '' is empty'')
      | (None, _) \<Rightarrow> Inr ())"

definition max_log_id :: "'i::linorder option \<Rightarrow> 'i option \<Rightarrow> 'i option" where
  "max_log_id l r = (case (l, r) of
      (Some x, Some y) \<Rightarrow> Some (max x y)
    | (Some x, None) \<Rightarrow> Some x
    | (None, Some y) \<Rightarrow> Some y
    | (None, None) \<Rightarrow> None)"

text \<open>The loop over the entries: the next index expected and the log id of the entry before.\<close>

fun check_entries ::
  "('i::linorder, 'e, 'v) raft_api \<Rightarrow> ('i \<Rightarrow> string) \<Rightarrow> string \<Rightarrow> u64 \<Rightarrow> 'i option \<Rightarrow> 'e list \<Rightarrow> (u64 \<times> 'i option) result" where
  "check_entries a dbg g expected prev [] = Inr (expected, prev)"
| "check_entries a dbg g expected prev (e # es) =
     (if entry_index a e \<noteq> expected
      then Inl (verify_group g @ ''missing or out-of-order log entry: expected index '' @ show_u64 expected @
             '', got '' @ show_u64 (entry_index a e))
      else case prev of
        Some p \<Rightarrow>
          if ra_log_id a e \<le> p
          then Inl (verify_group g @ ''non-increasing log id: previous='' @ dbg p @ '', current='' @ dbg (ra_log_id a e))
          else (case checked_add expected 1 of
              None \<Rightarrow> Inl (verify_group g @ ''log index overflow'')
            | Some n \<Rightarrow> check_entries a dbg g n (Some (ra_log_id a e)) es)
      | None \<Rightarrow> (case checked_add expected 1 of
              None \<Rightarrow> Inl (verify_group g @ ''log index overflow'')
            | Some n \<Rightarrow> check_entries a dbg g n (Some (ra_log_id a e)) es))"

definition after_purged :: "('i, 'e, 'v) raft_api \<Rightarrow> 'i option \<Rightarrow> u64 option" where
  "after_purged a purged = (case purged of None \<Rightarrow> None | Some i \<Rightarrow> checked_add (ra_index a i) 1)"

definition show_opt_id :: "('i \<Rightarrow> string) \<Rightarrow> 'i option \<Rightarrow> string" where
  "show_opt_id dbg i = (case i of None \<Rightarrow> ''None'' | Some x \<Rightarrow> ''Some('' @ dbg x @ '')'')"

definition verify_log_entries ::
  "('i::linorder, 'e, 'v) raft_api \<Rightarrow> ('i \<Rightarrow> string) \<Rightarrow> string \<Rightarrow> log_db \<Rightarrow> 'i option \<Rightarrow> 'i option \<Rightarrow> unit result" where
  "verify_log_entries a dbg g db last_purged last_id =
     (case last_id of
        None \<Rightarrow> Inr ()
      | Some tip \<Rightarrow>
          let start = (case after_purged a last_purged of None \<Rightarrow> 0 | Some n \<Rightarrow> n) in
          if ra_index a tip < start then Inr ()
          else rbind (with_context (verify_group g @ ''read log entries '' @ show_u64 start @ ''..='' @
                        show_u64 (ra_index a tip))
                 (try_get_log_entries a db (Included start, Included (ra_index a tip)))) (\<lambda>entries.
            case entries of
              [] \<Rightarrow> Inl (verify_group g @ ''log state has last_log_id '' @ dbg tip @
                      '' but no log entries were readable'')
            | first # _ \<Rightarrow>
                let expected = (case after_purged a last_purged of None \<Rightarrow> entry_index a first | Some n \<Rightarrow> n) in
                rbind (check_entries a dbg g expected None entries) (\<lambda>(expected', previous).
                  if expected' \<le> ra_index a tip
                  then Inl (verify_group g @ ''missing log entries through last_log_id '' @ dbg tip)
                  else if previous \<noteq> Some tip
                  then Inl (verify_group g @ ''last persisted entry '' @ show_opt_id dbg previous @
                         '' does not match log state '' @ dbg tip)
                  else Inr ())))"

definition verify_openraft_store_integrity ::
  "('i::linorder, 'e, 'v) raft_api \<Rightarrow> ('i, 'm, 'sm) sm_api \<Rightarrow> ('i, 'sm) snap_api \<Rightarrow> ('i \<Rightarrow> string) \<Rightarrow> string \<Rightarrow>
   log_db \<Rightarrow> snap_node \<Rightarrow> unit result" where
  "verify_openraft_store_integrity a sa p dbg g db node =
     rbind (with_context (verify_group g @ ''read persisted vote'') (read_vote a db)) (\<lambda>vote.
     rbind (with_context (verify_group g @ ''read persisted committed log id'') (read_committed a db)) (\<lambda>committed.
     rbind (with_context (verify_group g @ ''read persisted log state'') (get_log_state a db)) (\<lambda>(last_purged, last_id).
     rbind (with_context (verify_group g @ ''read persisted state machine metadata'')
              (applied_state sa (sn_sm node))) (\<lambda>(last_applied, mem).
     rbind (with_context (verify_group g @ ''read persisted snapshot'') (get_current_snapshot p node)) (\<lambda>snapshot.
       let snapshot_last = (case snapshot of None \<Rightarrow> None | Some (meta, _) \<Rightarrow> last_log_id meta) in
       rbind (verify_log_id_order dbg g ''last_purged_log_id'' last_purged ''last_log_id'' last_id) (\<lambda>_.
         let durable_tip = max_log_id (max_log_id last_id last_applied) snapshot_last in
         rbind (verify_optional_log_id_not_after dbg g ''committed'' committed ''durable_tip'' durable_tip) (\<lambda>_.
         rbind (verify_optional_log_id_not_after dbg g ''last_applied'' last_applied ''durable_tip'' durable_tip) (\<lambda>_.
           verify_log_entries a dbg g db last_purged last_id))))))))"

section \<open>What the loop accepts\<close>

lemma with_context_Inr [simp]: "with_context ctx (Inr x) = Inr x"
  by (simp add: with_context_def)

lemma with_context_eq_Inr [simp]: "with_context ctx r = Inr x \<longleftrightarrow> r = Inr x"
  by (cases r) (simp_all add: with_context_def)

definition entry_ids :: "('i, 'e, 'v) raft_api \<Rightarrow> 'i option \<Rightarrow> 'e list \<Rightarrow> 'i list" where
  "entry_ids a prev es = (case prev of None \<Rightarrow> [] | Some p \<Rightarrow> [p]) @ map (ra_log_id a) es"

lemma checked_add_one: "checked_add (x :: u64) 1 = Some n \<longleftrightarrow> unat x + 1 < 2 ^ 64 \<and> unat n = unat x + 1"
proof -
  have "unat (1 :: u64) = 1" by simp
  then show ?thesis using checked_add_Some[of x 1 n] unat_lt_2p[of n] by auto
qed

lemma check_entries_step:
  "check_entries a dbg g x prev (e # es) = Inr r \<longleftrightarrow>
     entry_index a e = x \<and> (\<forall>p. prev = Some p \<longrightarrow> p < ra_log_id a e) \<and>
     (\<exists>n. checked_add x 1 = Some n \<and> check_entries a dbg g n (Some (ra_log_id a e)) es = Inr r)"
  by (auto split: option.splits simp: not_le)

lemma check_entries_accepts:
  "(\<exists>r. check_entries a dbg g x prev es = Inr r) \<longleftrightarrow>
     map (\<lambda>e. unat (entry_index a e)) es = [unat x..<unat x + length es] \<and>
     unat x + length es < 2 ^ 64 \<and> sorted_wrt (<) (entry_ids a prev es)"
proof (induction es arbitrary: x prev)
  case Nil
  then show ?case using unat_lt_2p[of x] by (auto simp: entry_ids_def split: option.splits)
next
  case (Cons e es)
  have idx: "entry_index a e = x \<longleftrightarrow> unat (entry_index a e) = unat x" by (simp add: word_unat_eq_iff)
  have ids: "sorted_wrt (<) (entry_ids a prev (e # es)) \<longleftrightarrow>
      (\<forall>p. prev = Some p \<longrightarrow> p < ra_log_id a e) \<and> sorted_wrt (<) (entry_ids a (Some (ra_log_id a e)) es)"
    by (cases prev) (auto simp: entry_ids_def dest: less_trans)
  have up: "[unat x..<unat x + length (e # es)] = unat x # [unat x + 1..<unat x + 1 + length es]"
    using upt_conv_Cons[of "unat x" "unat x + length (e # es)"] by (simp del: upt_Suc)
  show ?case
  proof (cases "checked_add x 1")
    case None
    then have "\<not> unat x + length (e # es) < 2 ^ 64" by (simp add: checked_add_None)
    then show ?thesis using None by (simp only: check_entries_step) simp
  next
    case (Some n)
    then have "unat n = unat x + 1" by (simp add: checked_add_one)
    then show ?thesis using Cons.IH[of n "Some (ra_log_id a e)"] Some
      by (simp only: check_entries_step ids up) (auto simp: idx)
  qed
qed

lemma check_entries_result:
  "check_entries a dbg g x prev es = Inr (n, q) \<Longrightarrow>
     unat n = unat x + length es \<and> q = (if es = [] then prev else Some (ra_log_id a (last es)))"
proof (induction es arbitrary: x prev)
  case (Cons e es)
  then obtain m where "checked_add x 1 = Some m" "check_entries a dbg g m (Some (ra_log_id a e)) es = Inr (n, q)"
    using check_entries_step[of a dbg g x prev e es "(n, q)"] by blast
  with Cons.IH[of m "Some (ra_log_id a e)"] show ?case by (auto simp: checked_add_one)
qed simp

section \<open>Gapless logs\<close>

text \<open>The entries above the purge mark; they are \<^emph>\<open>gapless\<close> if no index between the mark (or, without
  one, the first entry) and an entry is missing, log ids increase with the index, and the index
  after the last one exists.\<close>

definition kept_entries :: "('i, 'e, 'v) raft_api \<Rightarrow> ('i, 'e, 'v) alog \<Rightarrow> u64 set" where
  "kept_entries a l = {i \<in> dom (al_entries l). \<forall>p. al_purged l = Some p \<longrightarrow> ra_index a p < i}"

definition log_gapless :: "('i::linorder, 'e, 'v) raft_api \<Rightarrow> ('i, 'e, 'v) alog \<Rightarrow> bool" where
  "log_gapless a l \<longleftrightarrow>
     (\<forall>i \<in> kept_entries a l. unat i + 1 < 2 ^ 64) \<and>
     (\<forall>i \<in> kept_entries a l. \<forall>k \<le> i.
        (case al_purged l of Some p \<Rightarrow> ra_index a p < k | None \<Rightarrow> \<exists>j \<in> kept_entries a l. j \<le> k) \<longrightarrow>
        k \<in> kept_entries a l) \<and>
     (\<forall>i \<in> kept_entries a l. \<forall>j \<in> kept_entries a l. i < j \<longrightarrow>
        ra_log_id a (the (al_entries l i)) < ra_log_id a (the (al_entries l j)))"

lemma strict_bounds:
  fixes f :: "'a \<Rightarrow> 'b::linorder"
  assumes "sorted_wrt (<) (map f xs)" "x \<in> set xs"
  shows "f (hd xs) \<le> f x \<and> f x \<le> f (last xs)"
  using assms by (induction xs) (auto intro: less_imp_le)

lemma strict_interval:
  fixes ns :: "nat list"
  assumes "sorted_wrt (<) ns" "ns \<noteq> []" "x \<le> hd ns"
  shows "ns = [x..<x + length ns] \<longleftrightarrow> (\<forall>k. x \<le> k \<and> k \<le> last ns \<longrightarrow> k \<in> set ns)"
proof
  assume eq: "ns = [x..<x + length ns]"
  then have "set ns = {x..<x + length ns}" by (metis set_upt)
  moreover have "last ns < x + length ns" using assms(2) calculation by (metis atLeastLessThan_iff last_in_set)
  ultimately show "\<forall>k. x \<le> k \<and> k \<le> last ns \<longrightarrow> k \<in> set ns" by auto
next
  assume full: "\<forall>k. x \<le> k \<and> k \<le> last ns \<longrightarrow> k \<in> set ns"
  have sorted: "sorted ns" "distinct ns" using assms(1) by (simp_all add: strict_sorted_iff)
  have bounds: "k \<in> set ns \<Longrightarrow> hd ns \<le> k \<and> k \<le> last ns" for k
    using strict_bounds[of "\<lambda>k. k" ns k] assms(1) by simp
  have "k \<in> set ns \<longleftrightarrow> x \<le> k \<and> k \<le> last ns" for k
    using bounds[of k] full assms(3) by (meson order_trans)
  then have "set ns = set [x..<Suc (last ns)]" by (simp add: set_eq_iff less_Suc_eq_le del: upt_Suc)
  then have ns: "ns = [x..<Suc (last ns)]"
    using sorted sorted_distinct_set_unique[of ns "[x..<Suc (last ns)]"] by (simp del: upt_Suc)
  have "x \<le> last ns" using bounds[OF hd_in_set[OF assms(2)]] assms(3) by simp
  then have "length ns = Suc (last ns) - x" using ns by (metis length_upt)
  then show "ns = [x..<x + length ns]" using ns \<open>x \<le> last ns\<close> by simp
qed

lemma sorted_key_mono:
  fixes f :: "'a \<Rightarrow> 'b::linorder" and h :: "'a \<Rightarrow> 'c::linorder"
  assumes "sorted_wrt (<) (map f xs)"
  shows "sorted_wrt (<) (map h xs) \<longleftrightarrow> (\<forall>x \<in> set xs. \<forall>y \<in> set xs. f x < f y \<longrightarrow> h x < h y)"
  using assms by (induction xs) (auto dest: less_asym)

text \<open>The entries a range read from the first kept index returns.\<close>

definition reads_kept :: "('i, 'e, 'v) raft_api \<Rightarrow> ('i, 'e, 'v) alog \<Rightarrow> 'e list \<Rightarrow> bool" where
  "reads_kept a l es \<longleftrightarrow> sorted_wrt (<) (map (entry_index a) es) \<and>
     entry_index a ` set es = kept_entries a l \<and> (\<forall>e \<in> set es. al_entries l (entry_index a e) = Some e)"

lemma gapless_list:
  assumes "reads_kept a l es" "es \<noteq> []"
    and "unat x = (case al_purged l of None \<Rightarrow> unat (entry_index a (hd es)) | Some p \<Rightarrow> unat (ra_index a p) + 1)"
  shows "(\<exists>r. check_entries a dbg g x None es = Inr r) \<longleftrightarrow> log_gapless a l"
proof -
  let ?ns = "map (\<lambda>e. unat (entry_index a e)) es"
  have sorted: "sorted_wrt (<) (map (entry_index a) es)" and kept: "kept_entries a l = entry_index a ` set es"
    and entry: "\<And>e. e \<in> set es \<Longrightarrow> al_entries l (entry_index a e) = Some e"
    using assms(1) by (auto simp: reads_kept_def)
  have ns: "sorted_wrt (<) ?ns"
    using sorted by (simp add: sorted_wrt_map word_less_nat_alt)
  have hd_ns: "hd ?ns = unat (entry_index a (hd es))" using assms(2) by (simp add: hd_map)
  have last_ns: "last ?ns = unat (entry_index a (last es))" using assms(2) by (simp add: last_map)
  have top: "entry_index a e \<le> entry_index a (last es)" if "e \<in> set es" for e
    using strict_bounds[OF sorted that] by blast
  have bot: "entry_index a (hd es) \<le> entry_index a e" if "e \<in> set es" for e
    using strict_bounds[OF sorted that] by blast
  have x_le: "unat x \<le> hd ?ns"
  proof (cases "al_purged l")
    case (Some p)
    have "entry_index a (hd es) \<in> kept_entries a l" using assms(2) kept by simp
    then have "ra_index a p < entry_index a (hd es)" using Some by (auto simp: kept_entries_def)
    then show ?thesis using assms(3) Some hd_ns by (simp add: word_less_nat_alt)
  qed (use assms(3) hd_ns in simp)
  note acc = check_entries_accepts[of a dbg g x None es]
  have ids: "sorted_wrt (<) (entry_ids a None es) \<longleftrightarrow>
      (\<forall>i \<in> kept_entries a l. \<forall>j \<in> kept_entries a l. i < j \<longrightarrow>
         ra_log_id a (the (al_entries l i)) < ra_log_id a (the (al_entries l j)))"
    using sorted_key_mono[OF sorted, of "ra_log_id a"] entry by (simp add: entry_ids_def kept)
  have mem: "unat k \<in> set ?ns \<longleftrightarrow> k \<in> kept_entries a l" for k
    by (auto simp: kept word_unat_eq_iff)
  have from_x: "(case al_purged l of Some p \<Rightarrow> ra_index a p < k | None \<Rightarrow> \<exists>j \<in> kept_entries a l. j \<le> k) \<longleftrightarrow>
      unat x \<le> unat k" for k
  proof (cases "al_purged l")
    case None
    have "(\<exists>j \<in> kept_entries a l. j \<le> k) \<longleftrightarrow> entry_index a (hd es) \<le> k"
      using bot assms(2) unfolding kept by (metis hd_in_set imageE imageI order_trans)
    then show ?thesis using None assms(3) by (simp add: word_le_nat_alt)
  qed (use assms(3) in \<open>simp add: word_less_nat_alt Suc_le_eq\<close>)
  have last_kept: "entry_index a (last es) \<in> kept_entries a l" using assms(2) kept by simp
  have conv: "?ns = [unat x..<unat x + length es] \<longleftrightarrow>
      (\<forall>i \<in> kept_entries a l. \<forall>k \<le> i.
        (case al_purged l of Some p \<Rightarrow> ra_index a p < k | None \<Rightarrow> \<exists>j \<in> kept_entries a l. j \<le> k) \<longrightarrow>
        k \<in> kept_entries a l)"
  proof -
    have "?ns = [unat x..<unat x + length es] \<longleftrightarrow> (\<forall>k. unat x \<le> k \<and> k \<le> unat (entry_index a (last es)) \<longrightarrow> k \<in> set ?ns)"
      using strict_interval[OF ns _ x_le] assms(2) last_ns by simp
    also have "\<dots> \<longleftrightarrow> (\<forall>k. unat x \<le> unat k \<and> k \<le> entry_index a (last es) \<longrightarrow> k \<in> kept_entries a l)"
    proof (intro iffI allI impI)
      fix k assume all: "\<forall>k. unat x \<le> unat k \<and> k \<le> entry_index a (last es) \<longrightarrow> k \<in> kept_entries a l"
        and k: "unat x \<le> k \<and> k \<le> unat (entry_index a (last es))"
      then have "unat (word_of_nat k :: u64) = k"
        using unat_lt_2p[of "entry_index a (last es)"] by (simp add: unsigned_of_nat take_bit_nat_eq_self_iff)
      with all k show "k \<in> set ?ns" by (metis mem word_le_nat_alt)
    qed (use mem in \<open>auto simp: word_le_nat_alt\<close>)
    also have "\<dots> \<longleftrightarrow> (\<forall>i \<in> kept_entries a l. \<forall>k \<le> i. unat x \<le> unat k \<longrightarrow> k \<in> kept_entries a l)"
      using last_kept top unfolding kept by (metis (no_types, lifting) imageE order_trans)
    finally show ?thesis by (simp only: from_x)
  qed
  have bound: "unat x + length es < 2 ^ 64 \<longleftrightarrow> (\<forall>i \<in> kept_entries a l. unat i + 1 < 2 ^ 64)"
    if "?ns = [unat x..<unat x + length es]"
  proof -
    have "unat (entry_index a (last es)) = unat x + length es - 1"
      using that last_ns assms(2) by (metis last_upt length_greater_0_conv less_add_same_cancel1)
    then have "unat x + length es = unat (entry_index a (last es)) + 1"
      using assms(2) by (cases es) simp_all
    then show ?thesis using last_kept top unfolding kept
      by (metis (no_types, lifting) add_le_mono1 imageE le_less_trans word_le_nat_alt)
  qed
  show ?thesis unfolding acc log_gapless_def ids[symmetric] conv[symmetric] using bound by blast
qed

definition purge_bounded :: "('i, 'e, 'v) raft_api \<Rightarrow> ('i, 'e, 'v) alog \<Rightarrow> bool" where
  "purge_bounded a l \<longleftrightarrow> (\<forall>p. al_purged l = Some p \<longrightarrow> unat (ra_index a p) + 1 < 2 ^ 64)"

definition kept_start :: "('i, 'e, 'v) raft_api \<Rightarrow> 'i option \<Rightarrow> u64" where
  "kept_start a purged = (case after_purged a purged of None \<Rightarrow> 0 | Some n \<Rightarrow> n)"

lemma after_purged_bounded:
  assumes "purge_bounded a l" "al_purged l = Some p"
  shows "\<exists>n. after_purged a (Some p) = Some n \<and> unat n = unat (ra_index a p) + 1"
  using assms checked_add_one[of "ra_index a p"]
  by (cases "checked_add (ra_index a p) 1") (auto simp: after_purged_def purge_bounded_def checked_add_None)

lemma kept_start_le:
  assumes "purge_bounded a l"
  shows "kept_start a (al_purged l) \<le> i \<longleftrightarrow> (\<forall>p. al_purged l = Some p \<longrightarrow> ra_index a p < i)"
proof (cases "al_purged l")
  case (Some p)
  then obtain n where "after_purged a (Some p) = Some n" "unat n = unat (ra_index a p) + 1"
    using after_purged_bounded[OF assms] by blast
  then show ?thesis using Some by (simp add: kept_start_def word_le_nat_alt word_less_nat_alt Suc_le_eq)
qed (simp add: kept_start_def after_purged_def)

lemma kept_reads:
  assumes inv: "log_inv a db" and bounded: "purge_bounded a (log_abs a db)"
    and e: "logs_map a (db_logs db) (entry_index a e) = Some e"
      "\<forall>i. entry_index a e < i \<longrightarrow> logs_map a (db_logs db) i = None"
    and above: "kept_start a (al_purged (log_abs a db)) \<le> entry_index a e"
  obtains es where
    "try_get_log_entries a db (Included (kept_start a (al_purged (log_abs a db))), Included (entry_index a e)) = Inr es"
    "es \<noteq> []" "last es = e" "reads_kept a (log_abs a db) es"
proof -
  let ?M = "logs_map a (db_logs db)" and ?l = "log_abs a db"
  let ?s = "kept_start a (al_purged ?l)"
  have ok: "logs_ok a (db_logs db)" using inv by (simp add: log_inv_def)
  obtain es where es: "try_get_log_entries a db (Included ?s, Included (entry_index a e)) = Inr es"
    "sorted_wrt (<) (map (entry_index a) es)"
    "set es = {e'. \<exists>i. range_contains (Included ?s, Included (entry_index a e)) i \<and> ?M i = Some e'}"
    using try_get_log_entries_spec[OF ok] by blast
  have below: "i \<le> entry_index a e" if "?M i \<noteq> None" for i using e(2) that by (meson not_le)
  have mem: "x \<in> set es \<longleftrightarrow> ?s \<le> entry_index a x \<and> ?M (entry_index a x) = Some x" for x
    using below logs_map_index[OF ok] by (auto simp: es(3) range_contains_def)
  have e_in: "e \<in> set es" using e(1) above by (simp add: mem)
  have "kept_entries a ?l = {i \<in> dom ?M. ?s \<le> i}"
    by (simp add: kept_entries_def kept_start_le[OF bounded])
  then have "x \<in> entry_index a ` set es \<longleftrightarrow> x \<in> kept_entries a ?l" for x
    using logs_map_index[OF ok] by (force simp: mem)
  then have "reads_kept a ?l es" unfolding reads_kept_def using es(2) by (auto simp: mem)
  moreover have ne: "es \<noteq> []" using e_in by auto
  moreover have "last es = e"
  proof -
    have "entry_index a e \<le> entry_index a (last es)" using strict_bounds[OF es(2) e_in] by simp
    moreover have m: "?M (entry_index a (last es)) = Some (last es)" using mem[of "last es"] last_in_set[OF ne] by blast
    ultimately have "entry_index a (last es) = entry_index a e" using below by (simp add: order_antisym)
    then show ?thesis using m e(1) by (metis option.inject)
  qed
  ultimately show thesis using es(1) by (intro that)
qed

lemma check_reaches_last:
  assumes r: "check_entries a dbg g x None es = Inr (m, q)" and ne: "es \<noteq> []"
  shows "q = Some (ra_log_id a (last es)) \<and> \<not> m \<le> entry_index a (last es)"
proof -
  have "map (\<lambda>e. unat (entry_index a e)) es = [unat x..<unat x + length es]"
    using check_entries_accepts[of a dbg g x None es] r by blast
  then have "unat (entry_index a (last es)) < unat x + length es"
    using last_in_set[OF ne] by (metis (no_types, lifting) atLeastLessThan_iff image_eqI list.set_map set_upt)
  then show ?thesis using check_entries_result[OF r] ne by (simp add: word_le_nat_alt)
qed

lemma verify_log_entries_exact:
  assumes inv: "log_inv a db" and st: "get_log_state a db = Inr (purged, last_id)"
    and bounded: "purge_bounded a (log_abs a db)"
  shows "verify_log_entries a dbg g db purged last_id = Inr () \<longleftrightarrow> log_gapless a (log_abs a db)"
proof -
  let ?M = "logs_map a (db_logs db)" and ?l = "log_abs a db"
  have purged: "purged = al_purged ?l"
    and tip: "if \<forall>i. ?M i = None then last_id = al_purged ?l
      else \<exists>e. last_id = Some (ra_log_id a e) \<and> ?M (entry_index a e) = Some e \<and>
       (\<forall>i. entry_index a e < i \<longrightarrow> ?M i = None)"
    using get_log_state_spec[OF inv] st by auto
  have kept: "kept_entries a ?l = {i \<in> dom ?M. kept_start a purged \<le> i}"
    by (simp add: kept_entries_def purged kept_start_le[OF bounded])
  have start: "(case after_purged a purged of None \<Rightarrow> 0 | Some n \<Rightarrow> n) = kept_start a purged"
    by (simp add: kept_start_def)
  have empty: "log_gapless a ?l" if "kept_entries a ?l = {}" using that by (simp add: log_gapless_def)
  show ?thesis
  proof (cases "\<forall>i. ?M i = None")
    case True
    then have "kept_entries a ?l = {}" by (auto simp: kept)
    moreover have "ra_index a p < kept_start a purged" if "al_purged ?l = Some p" for p
      using kept_start_le[OF bounded, of "ra_index a p"] that purged by (simp add: not_le[symmetric])
    ultimately show ?thesis using True tip empty
      by (auto simp: verify_log_entries_def start split: option.splits)
  next
    case False
    then obtain e where e: "last_id = Some (ra_log_id a e)" "?M (entry_index a e) = Some e"
      "\<forall>i. entry_index a e < i \<longrightarrow> ?M i = None" using tip by (simp only: if_False) blast
    have n: "ra_index a (ra_log_id a e) = entry_index a e" by (simp add: entry_index_def)
    show ?thesis
    proof (cases "entry_index a e < kept_start a purged")
      case True
      then have "kept_entries a ?l = {}" using e(3) by (fastforce simp: kept)
      then show ?thesis using True e(1) n empty by (simp add: verify_log_entries_def start)
    next
      case False
      then have "kept_start a (al_purged ?l) \<le> entry_index a e" using purged by simp
      from kept_reads[OF inv bounded e(2,3) this] obtain es where
        es: "try_get_log_entries a db (Included (kept_start a purged), Included (entry_index a e)) = Inr es"
          "es \<noteq> []" "last es = e" "reads_kept a ?l es" unfolding purged by blast
      define x where "x = (case after_purged a purged of None \<Rightarrow> entry_index a (hd es) | Some n \<Rightarrow> n)"
      have x: "unat x = (case al_purged ?l of None \<Rightarrow> unat (entry_index a (hd es)) | Some p \<Rightarrow> unat (ra_index a p) + 1)"
        using after_purged_bounded[OF bounded] purged
        by (auto simp: x_def after_purged_def split: option.splits)
      obtain first rest where c: "es = first # rest" using es(2) by (cases es) auto
      have first: "(case after_purged a purged of None \<Rightarrow> entry_index a first | Some n \<Rightarrow> n) = x"
        by (simp add: x_def c split: option.split)
      have run: "verify_log_entries a dbg g db purged last_id = rbind (check_entries a dbg g x None es) (\<lambda>(n, q).
          if n \<le> entry_index a e
          then Inl (verify_group g @ ''missing log entries through last_log_id '' @ dbg (ra_log_id a e))
          else if q \<noteq> Some (ra_log_id a e)
          then Inl (verify_group g @ ''last persisted entry '' @ show_opt_id dbg q @
                 '' does not match log state '' @ dbg (ra_log_id a e)) else Inr ())"
        using False es(1) unfolding c
        by (simp add: verify_log_entries_def e(1) n start Let_def first del: check_entries.simps)
      have "verify_log_entries a dbg g db purged last_id = Inr () \<longleftrightarrow> (\<exists>r. check_entries a dbg g x None es = Inr r)"
        unfolding run using check_reaches_last[of a dbg g x es] es(2,3)
        by (cases "check_entries a dbg g x None es") auto
      then show ?thesis using gapless_list[OF es(4,2) x] by simp
    qed
  qed
qed

end
