(* ===== verification/StoreHistory.thy ===== *)
theory StoreHistory
  imports StoreCheck
begin

text \<open>
  What the check of \<open>StoreCheck\<close> accepts as a whole, and the logs openraft writes: the relation
  \<open>log_history\<close> holds of the databases reached from an empty one when appends continue the log,
  truncation and purging are at the id of a stored entry (or purging is beyond the log, as after
  the installation of a snapshot), and the commit mark stays inside the log. Such a database holds
  a chain of entries.
\<close>

section \<open>The whole check\<close>

lemma max_log_id_max: "max_log_id x y = max x y"
  by (cases x; cases y) (auto simp: max_log_id_def max_def)

lemma verify_order_ok:
  assumes "lower \<noteq> None \<Longrightarrow> upper \<noteq> None"
  shows "verify_log_id_order dbg g ln lower un upper = Inr () \<longleftrightarrow> lower \<le> upper"
  using assms by (cases lower; cases upper) (auto simp: verify_log_id_order_def)

lemma verify_not_after_ok: "verify_optional_log_id_not_after dbg g vn v tn tip = Inr () \<longleftrightarrow> v \<le> tip"
  by (cases v; cases tip) (auto simp: verify_optional_log_id_not_after_def)

definition snapshot_last :: "(('i, 'sm) snapshot_meta \<times> string) option \<Rightarrow> 'i option" where
  "snapshot_last snapshot = (case snapshot of None \<Rightarrow> None | Some (meta, _) \<Rightarrow> last_log_id meta)"

lemma log_state_purged:
  assumes "log_inv a db" "get_log_state a db = Inr (purged, last_id)"
  shows "purged = al_purged (log_abs a db)" "purged \<noteq> None \<Longrightarrow> last_id \<noteq> None"
  using get_log_state_spec[OF assms(1)] assms(2) by (auto split: if_splits)

lemma rbind_Inr_unit: "rbind m (\<lambda>_. k) = Inr () \<longleftrightarrow> m = Inr () \<and> k = Inr ()" for m :: "unit result"
  by (cases m) auto

lemma store_check_accepts:
  assumes inv: "log_inv a db" and bounded: "purge_bounded a (log_abs a db)"
    and st: "get_log_state a db = Inr (purged, last_id)"
    and sm: "applied_state sa (sn_sm node) = Inr (applied, mem)"
    and snap: "get_current_snapshot p node = Inr snapshot"
  shows "verify_openraft_store_integrity a sa p dbg g db node = Inr () \<longleftrightarrow>
    purged \<le> last_id \<and> al_committed (log_abs a db) \<le> max (max last_id applied) (snapshot_last snapshot) \<and>
    log_gapless a (log_abs a db)"
proof -
  have reads: "read_vote a db = Inr (al_vote (log_abs a db))" "read_committed a db = Inr (al_committed (log_abs a db))"
    using inv by (simp_all add: read_vote_def read_committed_def log_inv_def get_meta_value log_abs_def)
  have "applied \<le> max (max last_id applied) (snapshot_last snapshot)"
    by (meson max.cobounded1 max.cobounded2 order_trans)
  moreover have "verify_log_id_order dbg g ln purged un last_id = Inr () \<longleftrightarrow> purged \<le> last_id" for ln un
    using log_state_purged[OF inv st] by (intro verify_order_ok) simp
  ultimately show ?thesis
    using verify_log_entries_exact[OF inv st bounded, of dbg g]
    by (simp add: verify_openraft_store_integrity_def reads st sm snap Let_def rbind_Inr_unit
        verify_not_after_ok max_log_id_max snapshot_last_def[symmetric])
qed

section \<open>Chains\<close>

fun follows :: "('i::linorder, 'e, 'v) raft_api \<Rightarrow> 'i option \<Rightarrow> 'e list \<Rightarrow> bool" where
  "follows a prev [] = True"
| "follows a prev (e # es) =
     ((case prev of None \<Rightarrow> True | Some p \<Rightarrow> unat (entry_index a e) = unat (ra_index a p) + 1 \<and> p < ra_log_id a e) \<and>
      unat (entry_index a e) + 1 < 2 ^ 64 \<and> follows a (Some (ra_log_id a e)) es)"

definition chain_tip :: "('i, 'e, 'v) raft_api \<Rightarrow> 'i option \<Rightarrow> 'e list \<Rightarrow> 'i option" where
  "chain_tip a prev es = (if es = [] then prev else Some (ra_log_id a (last es)))"

lemma follows_append: "follows a prev (xs @ ys) \<longleftrightarrow> follows a prev xs \<and> follows a (chain_tip a prev xs) ys"
  by (induction xs arbitrary: prev) (auto simp: chain_tip_def)

lemma follows_above:
  assumes "follows a prev es" "e \<in> set es"
  shows "unat (entry_index a e) + 1 < 2 ^ 64"
    and "prev = Some p \<Longrightarrow> unat (ra_index a p) < unat (entry_index a e) \<and> p < ra_log_id a e"
  using assms
proof (induction es arbitrary: prev p)
  case (Cons x xs)
  case 1
  then show ?case using Cons.IH(1)[of "Some (ra_log_id a x)"] by auto
next
  case (Cons x xs)
  case 2
  then have "unat (ra_index a p) < unat (entry_index a x) \<and> p < ra_log_id a x" by simp
  moreover have "e \<in> set xs \<Longrightarrow> unat (entry_index a x) < unat (entry_index a e) \<and> ra_log_id a x < ra_log_id a e"
    using 2 Cons.IH(2)[of "Some (ra_log_id a x)" "ra_log_id a x"] by (simp add: entry_index_def)
  ultimately show ?case using 2(3) by fastforce
qed simp_all

lemma follows_sorted: "follows a prev es \<Longrightarrow> sorted_wrt (<) (map (entry_index a) es)"
proof (induction es arbitrary: prev)
  case (Cons x xs)
  then show ?case
    using follows_above(2)[of a "Some (ra_log_id a x)" xs _ "ra_log_id a x"]
    by (auto simp: entry_index_def word_less_nat_alt)
qed simp

lemma follows_checks:
  assumes "follows a prev es" "q = None \<or> q = prev"
    and "\<And>p. prev = Some p \<Longrightarrow> unat x = unat (ra_index a p) + 1"
    and "prev = None \<Longrightarrow> es \<noteq> [] \<Longrightarrow> x = entry_index a (hd es)"
  shows "\<exists>r. check_entries a dbg g x q es = Inr r"
  using assms
proof (induction es arbitrary: prev q x)
  case (Cons e es)
  have x: "entry_index a e = x"
    using Cons.prems(1,3,4) by (cases prev) (auto simp: word_unat_eq_iff)
  then obtain n where n: "checked_add x 1 = Some n" "unat n = unat x + 1"
    using Cons.prems(1) checked_add_one[of x] checked_add_None[of x 1] by (cases "checked_add x 1") auto
  have "\<exists>r. check_entries a dbg g n (Some (ra_log_id a e)) es = Inr r"
    using Cons.prems(1) n(2) x by (intro Cons.IH[of "Some (ra_log_id a e)"]) (auto simp: entry_index_def)
  moreover have "\<forall>p. q = Some p \<longrightarrow> p < ra_log_id a e"
    using Cons.prems(1,2) by auto
  ultimately show ?case using n(1) x by (auto simp: check_entries_step simp del: check_entries.simps)
qed simp

text \<open>The entries of the log form a chain above the purge mark, and the commit mark is not above it.\<close>

definition log_chain :: "('i::linorder, 'e, 'v) raft_api \<Rightarrow> ('i, 'e, 'v) alog \<Rightarrow> 'e list \<Rightarrow> bool" where
  "log_chain a l es \<longleftrightarrow> follows a (al_purged l) es \<and> purge_bounded a l \<and>
     (\<forall>i e. al_entries l i = Some e \<longleftrightarrow> e \<in> set es \<and> entry_index a e = i) \<and>
     al_committed l \<le> chain_tip a (al_purged l) es"

lemma chain_entry: "log_chain a l es \<Longrightarrow> e \<in> set es \<Longrightarrow> al_entries l (entry_index a e) = Some e"
  by (simp add: log_chain_def)

lemma chain_reads:
  assumes "log_chain a l es"
  shows "reads_kept a l es" "kept_entries a l = dom (al_entries l)"
proof -
  have dom: "dom (al_entries l) = entry_index a ` set es" using assms by (auto simp: log_chain_def dom_def image_iff)
  show kept: "kept_entries a l = dom (al_entries l)"
    using assms follows_above(2)[of a "al_purged l" es]
    by (fastforce simp: kept_entries_def dom log_chain_def word_less_nat_alt)
  show "reads_kept a l es"
    using assms follows_sorted[of a "al_purged l" es] chain_entry[OF assms]
    by (simp add: reads_kept_def kept dom log_chain_def)
qed

lemma chain_gapless:
  assumes "log_chain a l es"
  shows "log_gapless a l"
proof (cases "es = []")
  case True
  then have "kept_entries a l = {}" using chain_reads(1)[OF assms] by (simp add: reads_kept_def)
  then show ?thesis by (simp add: log_gapless_def)
next
  case False
  define x where "x = (case al_purged l of None \<Rightarrow> entry_index a (hd es) | Some p \<Rightarrow> kept_start a (Some p))"
  have x: "unat x = (case al_purged l of None \<Rightarrow> unat (entry_index a (hd es)) | Some p \<Rightarrow> unat (ra_index a p) + 1)"
    using assms after_purged_bounded[of a l] by (auto simp: x_def log_chain_def kept_start_def split: option.split)
  have "\<exists>r. check_entries a (\<lambda>_. []) [] x None es = Inr r"
    using assms x False by (intro follows_checks[of a "al_purged l"]) (auto simp: log_chain_def x_def)
  then show ?thesis using gapless_list[OF chain_reads(1)[OF assms] False x] by blast
qed

lemma chain_state:
  assumes inv: "log_inv a db" and c: "log_chain a (log_abs a db) es"
  shows "get_log_state a db = Inr (al_purged (log_abs a db), chain_tip a (al_purged (log_abs a db)) es)"
proof -
  let ?l = "log_abs a db"
  obtain t where t: "get_log_state a db = Inr (al_purged ?l, t)"
    "if \<forall>i. al_entries ?l i = None then t = al_purged ?l
     else \<exists>e. t = Some (ra_log_id a e) \<and> al_entries ?l (entry_index a e) = Some e \<and>
       (\<forall>i. entry_index a e < i \<longrightarrow> al_entries ?l i = None)"
    using get_log_state_spec[OF inv] by auto
  show ?thesis
  proof (cases "es = []")
    case True
    then have "\<forall>i. al_entries ?l i = None" using c unfolding log_chain_def by (metis empty_iff list.set(1) not_None_eq)
    then show ?thesis using t True by (simp add: chain_tip_def)
  next
    case False
    then have l: "al_entries ?l (entry_index a (last es)) = Some (last es)" using chain_entry[OF c] by simp
    then obtain e where e: "t = Some (ra_log_id a e)" "al_entries ?l (entry_index a e) = Some e"
        "\<forall>i. entry_index a e < i \<longrightarrow> al_entries ?l i = None"
      using t(2) by (metis option.distinct(1))
    have "e \<in> set es" using c e(2) by (simp add: log_chain_def)
    then have "entry_index a e \<le> entry_index a (last es)"
      using strict_bounds[of "entry_index a" es e] follows_sorted c by (auto simp: log_chain_def)
    then have "entry_index a e = entry_index a (last es)" using e(3) l by (metis option.distinct(1) order_le_less)
    then show ?thesis using t(1) e(1,2) l False by (simp add: chain_tip_def)
  qed
qed

lemma chain_tip_above: "log_chain a l es \<Longrightarrow> al_purged l \<le> chain_tip a (al_purged l) es"
  using follows_above(2)[of a "al_purged l" es "last es"]
  by (cases "al_purged l") (auto simp: chain_tip_def log_chain_def)

section \<open>Histories\<close>

inductive log_history :: "('i::linorder, 'e, 'v) raft_api \<Rightarrow> log_db \<Rightarrow> bool" for a where
  empty: "log_history a \<lparr>db_meta = [], db_logs = []\<rparr>"
| append: "log_history a db \<Longrightarrow> get_log_state a db = Inr (purged, last_id) \<Longrightarrow> follows a last_id es \<Longrightarrow>
    log_exec a db (OpAppend es) = Inr db' \<Longrightarrow> log_history a db'"
| truncate: "log_history a db \<Longrightarrow> get_log_state a db = Inr (purged, last_id) \<Longrightarrow>
    read_committed a db = Inr committed \<Longrightarrow> committed \<le> keep \<Longrightarrow>
    keep = purged \<or> (\<exists>e. keep = Some (ra_log_id a e) \<and>
      try_get_log_entries a db (Included (entry_index a e), Included (entry_index a e)) = Inr [e]) \<Longrightarrow>
    log_exec a db (OpTruncate keep) = Inr db' \<Longrightarrow> log_history a db'"
| purge: "log_history a db \<Longrightarrow> get_log_state a db = Inr (purged, last_id) \<Longrightarrow>
    (last_id < Some bound_id \<and> (\<forall>l. last_id = Some l \<longrightarrow> ra_index a l < ra_index a bound_id) \<and>
       unat (ra_index a bound_id) + 1 < 2 ^ 64) \<or>
    (\<exists>e. bound_id = ra_log_id a e \<and>
      try_get_log_entries a db (Included (entry_index a e), Included (entry_index a e)) = Inr [e]) \<Longrightarrow>
    log_exec a db (OpPurge bound_id) = Inr db' \<Longrightarrow> log_history a db'"
| vote: "log_history a db \<Longrightarrow> log_exec a db (OpSaveVote v) = Inr db' \<Longrightarrow> log_history a db'"
| commit: "log_history a db \<Longrightarrow> get_log_state a db = Inr (purged, last_id) \<Longrightarrow> committed \<le> last_id \<Longrightarrow>
    log_exec a db (OpSaveCommitted committed) = Inr db' \<Longrightarrow> log_history a db'"

definition chain_store :: "('i::linorder, 'e, 'v) raft_api \<Rightarrow> log_db \<Rightarrow> bool" where
  "chain_store a db \<longleftrightarrow> log_inv a db \<and> (\<exists>es. log_chain a (log_abs a db) es)"

lemma chain_storeE:
  assumes "chain_store a db" "get_log_state a db = Inr (purged, last_id)"
  obtains es where "log_inv a db" "log_chain a (log_abs a db) es" "purged = al_purged (log_abs a db)"
    "last_id = chain_tip a (al_purged (log_abs a db)) es"
  using assms chain_state[of a db] unfolding chain_store_def by auto

lemma chain_storeI:
  assumes "raft_api_ok a" "log_inv a db" "log_exec a db cmd = Inr db'" "log_chain a (alog_step a (log_abs a db) cmd) es"
  shows "chain_store a db'"
  using log_exec_refines[OF assms(1,2), of cmd] assms(3,4) unfolding chain_store_def by auto

lemma put_entries_iff:
  assumes "sorted_wrt (<) (map (entry_index a) es)"
  shows "foldl (put_entry a) m es i = Some e \<longleftrightarrow>
    e \<in> set es \<and> entry_index a e = i \<or> i \<notin> entry_index a ` set es \<and> m i = Some e"
  using assms
proof (induction es arbitrary: m)
  case (Cons x xs)
  have "entry_index a x \<notin> entry_index a ` set xs" using Cons.prems by auto
  with Cons show ?case by (auto simp: put_entry_def)
qed simp

lemma stored_entry:
  assumes "log_inv a db" "try_get_log_entries a db (Included (entry_index a e), Included (entry_index a e)) = Inr [e]"
  shows "al_entries (log_abs a db) (entry_index a e) = Some e"
proof -
  have "logs_ok a (db_logs db)" using assms(1) by (simp add: log_inv_def)
  from try_get_log_entries_spec[OF this, of "(Included (entry_index a e), Included (entry_index a e))"] assms(2)
  have "e \<in> {e'. \<exists>i. range_contains (Included (entry_index a e), Included (entry_index a e)) i \<and>
      logs_map a (db_logs db) i = Some e'}"
    by (metis Inr_inject list.set_intros(1))
  then obtain i where i: "range_contains (Included (entry_index a e), Included (entry_index a e)) i"
    "logs_map a (db_logs db) i = Some e" by blast
  then have "i = entry_index a e" by (simp add: range_contains_def order_antisym)
  with i(2) show ?thesis by simp
qed

lemma chain_none: "log_chain a l es \<Longrightarrow> (\<And>e. e \<in> set es \<Longrightarrow> entry_index a e \<noteq> i) \<Longrightarrow> al_entries l i = None"
  unfolding log_chain_def by (metis not_None_eq)

lemma chain_append:
  assumes "log_chain a l es" "follows a (chain_tip a (al_purged l) es) xs"
  shows "log_chain a (alog_step a l (OpAppend xs)) (es @ xs)"
proof -
  have f: "follows a (al_purged l) (es @ xs)" using assms by (simp add: log_chain_def follows_append)
  note sorted = follows_sorted[OF f]
  then have sep: "e \<in> set es \<Longrightarrow> entry_index a e \<notin> entry_index a ` set xs" for e
    by (force simp: sorted_wrt_append)
  have "foldl (put_entry a) (al_entries l) xs i = Some e \<longleftrightarrow> e \<in> set (es @ xs) \<and> entry_index a e = i" for i e
    using put_entries_iff[of a xs "al_entries l" i e] sorted sep assms(1)
    by (auto simp: sorted_wrt_append log_chain_def)
  moreover have "al_committed l \<le> chain_tip a (al_purged l) (es @ xs)"
  proof (cases "xs = []")
    case False
    have "chain_tip a (al_purged l) es \<le> Some (ra_log_id a (last xs))"
      using follows_above(2)[OF assms(2) last_in_set[OF False]]
      by (cases "chain_tip a (al_purged l) es") auto
    then show ?thesis using assms(1) False by (simp add: log_chain_def chain_tip_def) (metis order_trans)
  qed (use assms(1) in \<open>simp add: log_chain_def\<close>)
  ultimately show ?thesis using f assms(1) by (simp add: alog_step_def log_chain_def purge_bounded_def)
qed

text \<open>A stored entry splits the chain; the index decides on which side of it an entry is.\<close>

lemma chain_split:
  assumes "log_chain a l es" "al_entries l (entry_index a e) = Some e"
  shows "\<exists>xs ys. es = xs @ e # ys \<and> (\<forall>x \<in> set xs. entry_index a x < entry_index a e) \<and>
    (\<forall>x \<in> set ys. entry_index a e < entry_index a x)"
proof -
  have "e \<in> set es" using assms by (simp add: log_chain_def)
  then obtain xs ys where es: "es = xs @ e # ys" by (meson split_list)
  have "sorted_wrt (<) (map (entry_index a) es)" using assms(1) follows_sorted by (auto simp: log_chain_def)
  then show ?thesis using es by (auto simp: sorted_wrt_append)
qed

lemma chain_truncate:
  assumes c: "log_chain a l es" and com: "al_committed l \<le> keep"
    and keep: "keep = al_purged l \<or> (\<exists>e. keep = Some (ra_log_id a e) \<and> al_entries l (entry_index a e) = Some e)"
  shows "\<exists>es'. log_chain a (alog_step a l (OpTruncate keep)) es'"
  using keep
proof
  assume k: "keep = al_purged l"
  have "al_entries l i = None" if "al_purged l = Some p" "ra_index a p < i \<longrightarrow> False" for p i
    using follows_above(2)[of a "al_purged l" es _ p] c that
    by (intro chain_none[OF c]) (auto simp: log_chain_def word_less_nat_alt)
  then have "log_chain a (alog_step a l (OpTruncate keep)) []"
    using c com k by (cases "al_purged l")
      (auto simp: log_chain_def alog_step_def chain_tip_def purge_bounded_def word_less_nat_alt)
  then show ?thesis by blast
next
  assume "\<exists>e. keep = Some (ra_log_id a e) \<and> al_entries l (entry_index a e) = Some e"
  then obtain e where e: "keep = Some (ra_log_id a e)" "al_entries l (entry_index a e) = Some e" by blast
  obtain xs ys where es: "es = xs @ e # ys" and lt: "\<forall>x \<in> set xs. entry_index a x < entry_index a e"
    and gt: "\<forall>x \<in> set ys. entry_index a e < entry_index a x" using chain_split[OF c e(2)] by blast
  have "follows a (al_purged l) (xs @ [e])"
    using c es by (simp add: log_chain_def follows_append)
  then have "log_chain a (alog_step a l (OpTruncate keep)) (xs @ [e])"
    using c com e(1) lt gt
    by (auto simp: log_chain_def alog_step_def chain_tip_def purge_bounded_def es entry_index_def[symmetric]
        dest: less_asym)
  then show ?thesis by blast
qed

lemma chain_purge:
  assumes c: "log_chain a l es"
    and bound_id: "(chain_tip a (al_purged l) es < Some bound_id \<and>
        (\<forall>t. chain_tip a (al_purged l) es = Some t \<longrightarrow> ra_index a t < ra_index a bound_id) \<and>
        unat (ra_index a bound_id) + 1 < 2 ^ 64) \<or>
      (\<exists>e. bound_id = ra_log_id a e \<and> al_entries l (entry_index a e) = Some e)"
  shows "\<exists>es'. log_chain a (alog_step a l (OpPurge bound_id)) es'"
  using bound_id
proof (elim disjE conjE)
  assume tip: "chain_tip a (al_purged l) es < Some bound_id" "unat (ra_index a bound_id) + 1 < 2 ^ 64"
    "\<forall>t. chain_tip a (al_purged l) es = Some t \<longrightarrow> ra_index a t < ra_index a bound_id"
  have "entry_index a x \<le> ra_index a bound_id" if "x \<in> set es" for x
    using strict_bounds[OF follows_sorted that] c tip(3) that
    by (fastforce simp: chain_tip_def log_chain_def entry_index_def split: if_splits)
  then have "al_entries l i = None" if "\<not> i \<le> ra_index a bound_id" for i
    using that by (intro chain_none[OF c]) auto
  moreover have "al_committed l \<le> Some bound_id" using c tip(1) by (auto simp: log_chain_def intro: order_trans less_imp_le)
  ultimately have "log_chain a (alog_step a l (OpPurge bound_id)) []"
    using c tip(2) by (auto simp: log_chain_def alog_step_def chain_tip_def purge_bounded_def)
  then show ?thesis by blast
next
  assume "\<exists>e. bound_id = ra_log_id a e \<and> al_entries l (entry_index a e) = Some e"
  then obtain e where e: "bound_id = ra_log_id a e" "al_entries l (entry_index a e) = Some e" by blast
  obtain xs ys where es: "es = xs @ e # ys" and lt: "\<forall>x \<in> set xs. entry_index a x < entry_index a e"
    and gt: "\<forall>x \<in> set ys. entry_index a e < entry_index a x" using chain_split[OF c e(2)] by blast
  have "follows a (Some bound_id) ys" "unat (entry_index a e) + 1 < 2 ^ 64"
    using c es e(1) by (simp_all add: log_chain_def follows_append)
  moreover have "chain_tip a (Some bound_id) ys = chain_tip a (al_purged l) es"
    using e(1) by (simp add: chain_tip_def es)
  ultimately have "log_chain a (alog_step a l (OpPurge bound_id)) ys"
    using c e(1) lt gt es
    by (auto simp: log_chain_def alog_step_def purge_bounded_def entry_index_def[symmetric] dest: less_asym)
  then show ?thesis by blast
qed

lemma log_history_chain:
  assumes "log_history a db" and api: "raft_api_ok a"
  shows "chain_store a db"
  using assms(1)
proof induction
  case empty
  have "log_chain a (log_abs a \<lparr>db_meta = [], db_logs = []\<rparr>) []"
    by (simp add: log_chain_def log_abs_def logs_map_def meta_value_def purge_bounded_def)
  then show ?case by (auto simp: chain_store_def log_inv_def logs_ok_def meta_readable_def)
next
  case (append db purged last_id es db')
  then show ?case
    by (metis chain_storeE chain_storeI[OF api] chain_append)
next
  case (truncate db purged last_id committed keep db')
  obtain es where es: "log_inv a db" "log_chain a (log_abs a db) es" "purged = al_purged (log_abs a db)"
    by (rule chain_storeE[OF truncate.IH truncate.hyps(2)])
  have "committed = al_committed (log_abs a db)"
    using truncate.hyps(3) es(1) by (simp add: read_committed_def log_inv_def get_meta_value log_abs_def)
  moreover have "keep = al_purged (log_abs a db) \<or>
      (\<exists>e. keep = Some (ra_log_id a e) \<and> al_entries (log_abs a db) (entry_index a e) = Some e)"
    using truncate.hyps(5) stored_entry[OF es(1)] es(3) by blast
  ultimately have "\<exists>es'. log_chain a (alog_step a (log_abs a db) (OpTruncate keep)) es'"
    using chain_truncate[OF es(2)] truncate.hyps(4) by blast
  then show ?case using chain_storeI[OF api es(1) truncate.hyps(6)] by blast
next
  case (purge db purged last_id bound_id db')
  obtain es where es: "log_inv a db" "log_chain a (log_abs a db) es" "last_id = chain_tip a (al_purged (log_abs a db)) es"
    by (rule chain_storeE[OF purge.IH purge.hyps(2)])
  have "\<exists>es'. log_chain a (alog_step a (log_abs a db) (OpPurge bound_id)) es'"
    using chain_purge[OF es(2), of bound_id] purge.hyps(3) stored_entry[OF es(1)] es(3) by blast
  then show ?case using chain_storeI[OF api es(1) purge.hyps(4)] by blast
next
  case (vote db v db')
  then obtain es where es: "log_inv a db" "log_chain a (log_abs a db) es" by (auto simp: chain_store_def)
  then have "log_chain a (alog_step a (log_abs a db) (OpSaveVote v)) es"
    by (simp add: alog_step_def log_chain_def purge_bounded_def)
  then show ?case using chain_storeI[OF api es(1) vote.hyps(2)] by blast
next
  case (commit db purged last_id committed db')
  obtain es where es: "log_inv a db" "log_chain a (log_abs a db) es" "last_id = chain_tip a (al_purged (log_abs a db)) es"
    by (rule chain_storeE[OF commit.IH commit.hyps(2)])
  then have "log_chain a (alog_step a (log_abs a db) (OpSaveCommitted committed)) es"
    using commit.hyps(3) by (simp add: alog_step_def log_chain_def purge_bounded_def)
  then show ?case using chain_storeI[OF api es(1) commit.hyps(4)] by blast
qed

text \<open>Such a store is accepted, whatever the state machine and the snapshots hold.\<close>

lemma chain_store_accepted:
  assumes "chain_store a db" and sm: "applied_state sa (sn_sm node) = Inr (applied, mem)"
    and snap: "get_current_snapshot p node = Inr snapshot"
  shows "verify_openraft_store_integrity a sa p dbg g db node = Inr ()"
proof -
  obtain es where es: "log_inv a db" "log_chain a (log_abs a db) es" using assms(1) by (auto simp: chain_store_def)
  have "al_committed (log_abs a db) \<le> max (max (chain_tip a (al_purged (log_abs a db)) es) applied) (snapshot_last snapshot)"
    using es(2) by (auto simp: log_chain_def intro: order_trans max.coboundedI1)
  moreover have "purge_bounded a (log_abs a db)" using es(2) by (simp add: log_chain_def)
  ultimately show ?thesis
    using store_check_accepts[OF es(1) _ chain_state[OF es] sm snap, of dbg g] chain_tip_above[OF es(2)]
      chain_gapless[OF es(2)] by simp
qed

end
