(* ===== verification/StoreClaims.thy ===== *)
theory StoreClaims
  imports StoreHistory StateMachineClaims
begin

text \<open>
  The properties of the check of a store at start-up, with a raft history of the example log ids.
\<close>

section \<open>An example history\<close>

definition demo_history_db :: log_db where
  "demo_history_db = log_step demo_api (log_step demo_api empty_log_db
     (OpAppend [((1, 1), ''a''), ((1, 2), ''b'')])) (OpSaveCommitted (Some (1, 2)))"

definition quiet_node :: snap_node where
  "quiet_node = \<lparr>sn_sm = empty_sm, sn_dir = [], sn_epoch = 1\<rparr>"

lemma quiet_node_reads:
  "applied_state demo_sm_api (sn_sm quiet_node) = Inr (None, [])"
  "get_current_snapshot demo_snap_api quiet_node = Inr None"
  by (simp_all add: applied_state_def quiet_node_def demo_sm_api_def get_current_snapshot_def
      read_latest_snapshot_file_def readable_snapshots_def List.map_filter_def)

lemma log_exec_demo: "log_inv demo_api db \<Longrightarrow> log_exec demo_api db cmd = Inr (log_step demo_api db cmd)"
  using log_exec_refines[OF demo_api_ok, of db cmd] by (auto simp: log_step_def)

lemma demo_history: "log_history demo_api demo_history_db"
proof -
  let ?es = "[((1, 1), ''a''), ((1, 2), ''b'')]"
  let ?db = "log_step demo_api empty_log_db (OpAppend ?es)"
  have start: "log_history demo_api empty_log_db"
    using log_history.empty[of demo_api] by (simp add: empty_log_db_def)
  have st0: "get_log_state demo_api empty_log_db = Inr (None, None)"
    by (simp add: get_log_state_def empty_log_db_def get_meta_def)
  have follow: "follows demo_api None ?es"
    by (simp add: entry_index_def demo_api_def)
  have h: "log_history demo_api ?db"
    by (rule log_history.append[OF start st0 follow log_exec_demo[OF empty_log_inv]])
  have "log_inv demo_api ?db"
    using log_history_chain[OF h demo_api_ok] by (simp add: chain_store_def)
  moreover have "get_log_state demo_api ?db = Inr (None, Some (1, 2))"
    by code_simp
  ultimately show ?thesis
    unfolding demo_history_db_def by (intro log_history.commit[OF h _ _ log_exec_demo]) auto
qed

section \<open>The check\<close>

text \<open>C10: a database that openraft wrote passes the check. Whatever appends, truncations, purges,
  votes and commit marks led to it, as long as they are those of raft (appends continue the log
  with larger ids, truncation never removes a committed entry, commit marks stay inside the log),
  the group can be opened again, with any readable state machine and snapshot.\<close>

theorem raft_logs_accepted:
  assumes "raft_api_ok a" "log_history a db"
    and "applied_state sa (sn_sm node) = Inr (applied, mem)" "get_current_snapshot p node = Inr snapshot"
  shows "verify_openraft_store_integrity a sa p dbg g db node = Inr ()"
  by (rule chain_store_accepted[OF log_history_chain[OF assms(2,1)] assms(3,4)])

theorem raft_logs_accepted_witness:
  "verify_openraft_store_integrity demo_api demo_sm_api demo_snap_api (\<lambda>_. []) ''users'' demo_history_db quiet_node = Inr ()"
  by (rule raft_logs_accepted[OF demo_api_ok demo_history quiet_node_reads])

text \<open>C11: a decodable store is refused exactly if its purge mark is after its last log id, its commit
  mark is after everything that is durable (log, applied state, snapshot), or its entries above the
  purge mark have a gap, a log id that does not increase or the largest index there is. (That the
  applied log id is not after the durable tip is checked too, but can never fail.)\<close>

theorem store_check_exact:
  assumes "log_inv a db" "purge_bounded a (log_abs a db)" "get_log_state a db = Inr (purged, last_id)"
    and "applied_state sa (sn_sm node) = Inr (applied, mem)" "get_current_snapshot p node = Inr snapshot"
  shows "(\<exists>err. verify_openraft_store_integrity a sa p dbg g db node = Inl err) \<longleftrightarrow>
    \<not> purged \<le> last_id \<or>
    \<not> al_committed (log_abs a db) \<le> max (max last_id applied) (snapshot_last snapshot) \<or>
    \<not> log_gapless a (log_abs a db)"
  using store_check_accepts[OF assms, of dbg g]
  by (cases "verify_openraft_store_integrity a sa p dbg g db node") auto

definition gap_db :: log_db where
  "gap_db = log_step demo_api empty_log_db (OpAppend [((1, 1), ''a''), ((1, 3), ''c'')])"

lemma gap_db_facts: "log_inv demo_api gap_db" "purge_bounded demo_api (log_abs demo_api gap_db)"
  "get_log_state demo_api gap_db = Inr (None, Some (1, 3))"
  and gap_entries: "al_purged (log_abs demo_api gap_db) = None"
    "al_entries (log_abs demo_api gap_db) = [1 \<mapsto> ((1, 1), ''a''), 3 \<mapsto> ((1, 3), ''c'')]"
proof -
  obtain db where db: "log_exec demo_api empty_log_db (OpAppend [((1, 1), ''a''), ((1, 3), ''c'')]) = Inr db"
    "log_inv demo_api db"
    "log_abs demo_api db = alog_step demo_api (log_abs demo_api empty_log_db) (OpAppend [((1, 1), ''a''), ((1, 3), ''c'')])"
    using log_exec_refines[OF demo_api_ok empty_log_inv] by blast
  then have "gap_db = db" by (simp add: gap_db_def log_step_def)
  with db show "log_inv demo_api gap_db" "purge_bounded demo_api (log_abs demo_api gap_db)"
    "al_purged (log_abs demo_api gap_db) = None"
    "al_entries (log_abs demo_api gap_db) = [1 \<mapsto> ((1, 1), ''a''), 3 \<mapsto> ((1, 3), ''c'')]"
    by (simp_all add: alog_step_def empty_log_abs purge_bounded_def put_entry_def entry_index_def demo_api_def)
  show "get_log_state demo_api gap_db = Inr (None, Some (1, 3))" by code_simp
qed

theorem store_check_exact_witness:
  "(\<exists>err. verify_openraft_store_integrity demo_api demo_sm_api demo_snap_api (\<lambda>_. []) ''users'' gap_db quiet_node = Inl err) \<longleftrightarrow>
    \<not> None \<le> Some (1 :: u64, 3 :: u64) \<or>
    \<not> al_committed (log_abs demo_api gap_db) \<le> max (max (Some (1, 3)) None) (snapshot_last (None :: ((demo_id, string) snapshot_meta \<times> string) option)) \<or>
    \<not> log_gapless demo_api (log_abs demo_api gap_db)"
  by (rule store_check_exact[OF gap_db_facts quiet_node_reads])

text \<open>The log with the missing entry is refused.\<close>

lemma gap_refused: "\<exists>err. verify_openraft_store_integrity demo_api demo_sm_api demo_snap_api dbg g gap_db quiet_node = Inl err"
proof -
  have kept: "kept_entries demo_api (log_abs demo_api gap_db) = {1, 3}"
    unfolding kept_entries_def gap_entries by auto
  have "\<not> log_gapless demo_api (log_abs demo_api gap_db)"
    unfolding log_gapless_def kept gap_entries(1) by (auto intro!: bexI[of _ 3] exI[of _ 2])
  then show ?thesis
    using store_check_accepts[OF gap_db_facts quiet_node_reads, of dbg g]
    by (cases "verify_openraft_store_integrity demo_api demo_sm_api demo_snap_api dbg g gap_db quiet_node") auto
qed

end
