(* ===== verification/KvStore.thy ===== *)
theory KvStore
  imports StoreCheck
begin

text \<open>
  \<open>KvData\<close> of \<open>store.rs\<close>, the reads of a group's data, and what is read of a group that is not open.
  RocksDB's primary is its sequence number and the data at every number up to it; a secondary
  instance is the number it has reached. The outcome of a catch-up and of a reopening is an
  argument of each read, since RocksDB decides it. The lemmas say how stale a read can be, that
  reads in a burst share one catch-up, and what the reads return.
\<close>

section \<open>Handles\<close>

definition SECONDARY_REBUILD_GAP :: nat where "SECONDARY_REBUILD_GAP = 8192"

record primary_db =
  pd_seq :: nat
  pd_at :: "nat \<Rightarrow> (string, string) cf"

record kv_data =
  kd_secondary :: nat
  kd_rebuild_epoch :: u64
  kd_rebuilds :: nat

datatype db_handle = SecondaryDb nat | PrimaryDb

definition handle_seq :: "primary_db \<Rightarrow> db_handle \<Rightarrow> nat" where
  "handle_seq p h = (case h of SecondaryDb s \<Rightarrow> s | PrimaryDb \<Rightarrow> pd_seq p)"

definition handle_data :: "primary_db \<Rightarrow> db_handle \<Rightarrow> (string, string) cf" where
  "handle_data p h = pd_at p (handle_seq p h)"

text \<open>What RocksDB does when it is asked: the number reached, or an error.\<close>

record rocks_outcome =
  ro_catch_up :: "nat result"
  ro_reopen :: "nat result"

definition rebuild_secondary :: "rocks_outcome \<Rightarrow> kv_data \<Rightarrow> kv_data \<times> db_handle result" where
  "rebuild_secondary oc kd =
     (let kd1 = kd\<lparr>kd_rebuild_epoch := kd_rebuild_epoch kd + 1\<rparr> in
      case ro_reopen oc of
        Inl e \<Rightarrow> (kd1, Inl e)
      | Inr s \<Rightarrow> (kd1\<lparr>kd_secondary := s, kd_rebuilds := kd_rebuilds kd1 + 1\<rparr>, Inr (SecondaryDb s)))"

definition rebuild_or_primary :: "rocks_outcome \<Rightarrow> kv_data \<Rightarrow> kv_data \<times> db_handle" where
  "rebuild_or_primary oc kd = (case rebuild_secondary oc kd of
      (kd', Inr h) \<Rightarrow> (kd', h)
    | (kd', Inl _) \<Rightarrow> (kd', PrimaryDb))"

text \<open>What happens under \<open>catch_up_lock\<close>, after the second look at the sequence numbers.\<close>

definition locked_db :: "primary_db \<Rightarrow> rocks_outcome \<Rightarrow> kv_data \<Rightarrow> kv_data \<times> db_handle" where
  "locked_db p oc kd =
     (if pd_seq p \<le> kd_secondary kd then (kd, SecondaryDb (kd_secondary kd))
      else case ro_catch_up oc of
        Inl e \<Rightarrow> rebuild_or_primary oc kd
      | Inr s \<Rightarrow>
          let kd1 = kd\<lparr>kd_secondary := s\<rparr> in
          if pd_seq p - s \<le> SECONDARY_REBUILD_GAP then (kd1, SecondaryDb s)
          else rebuild_or_primary oc kd1)"

definition synced_db :: "primary_db \<Rightarrow> rocks_outcome \<Rightarrow> kv_data \<Rightarrow> kv_data \<times> db_handle" where
  "synced_db p oc kd =
     (if pd_seq p \<le> kd_secondary kd then (kd, SecondaryDb (kd_secondary kd)) else locked_db p oc kd)"

section \<open>Reads\<close>

definition kv_get :: "primary_db \<Rightarrow> rocks_outcome \<Rightarrow> string \<Rightarrow> kv_data \<Rightarrow> kv_data \<times> string option result" where
  "kv_get p oc key kd = (case synced_db p oc kd of (kd', h) \<Rightarrow>
     (kd', case cf_get (handle_data p h) key of
        None \<Rightarrow> Inr None
      | Some v \<Rightarrow> rbind (decode_utf8 v ''value'') (\<lambda>s. Inr (Some s))))"

definition kv_contains_key :: "primary_db \<Rightarrow> rocks_outcome \<Rightarrow> string \<Rightarrow> kv_data \<Rightarrow> kv_data \<times> bool result" where
  "kv_contains_key p oc key kd = (case kv_get p oc key kd of (kd', r) \<Rightarrow>
     (kd', rbind r (\<lambda>v. Inr (v \<noteq> None))))"

text \<open>The parallel decoding of long scans returns the same pairs; of several errors it may return another one.\<close>

definition decode_kv_entries :: "(string \<times> string) list \<Rightarrow> (string \<times> string) list result" where
  "decode_kv_entries raw = rcollect (\<lambda>(key, v).
     rbind (decode_utf8 key ''key'') (\<lambda>k. rbind (decode_utf8 v ''value'') (\<lambda>x. Inr (k, x)))) raw"

definition kv_entries :: "primary_db \<Rightarrow> rocks_outcome \<Rightarrow> kv_data \<Rightarrow> kv_data \<times> (string \<times> string) list result" where
  "kv_entries p oc kd = (case synced_db p oc kd of (kd', h) \<Rightarrow> (kd', decode_kv_entries (handle_data p h)))"

definition kv_entries_with_prefix ::
  "primary_db \<Rightarrow> rocks_outcome \<Rightarrow> string \<Rightarrow> kv_data \<Rightarrow> kv_data \<times> (string \<times> string) list result" where
  "kv_entries_with_prefix p oc prefix kd = (case synced_db p oc kd of (kd', h) \<Rightarrow>
     (kd', decode_kv_entries (entries_with_prefix (handle_data p h) prefix)))"

definition kv_data_open :: "nat result \<Rightarrow> nat result \<Rightarrow> kv_data result" where
  "kv_data_open opened caught_up = rbind opened (\<lambda>_. rbind caught_up (\<lambda>s.
     Inr \<lparr>kd_secondary = s, kd_rebuild_epoch = 0, kd_rebuilds = 0\<rparr>))"

section \<open>Groups on disk\<close>

text \<open>\<open>open_store_for_group\<close>: the state machine is recovered, the store checked, the reader opened.\<close>

definition open_store_for_group ::
  "('i::linorder, 'e, 'v) raft_api \<Rightarrow> ('i, 'm, 'sm) sm_api \<Rightarrow> ('i, 'sm) snap_api \<Rightarrow> ('i \<Rightarrow> string) \<Rightarrow> string \<Rightarrow>
   log_db \<Rightarrow> snap_dir \<Rightarrow> rocks_sm \<Rightarrow> nat result \<Rightarrow> nat result \<Rightarrow> (log_db \<times> snap_node \<times> kv_data) result" where
  "open_store_for_group a sa p dbg g db dir sm opened caught_up =
     rbind (with_context ''open rocksdb log and state store'' (sm_new sa p dir sm)) (\<lambda>node.
     rbind (verify_openraft_store_integrity a sa p dbg g db node) (\<lambda>_.
     rbind (kv_data_open opened caught_up) (\<lambda>kd. Inr (db, node, kd))))"

text \<open>\<open>current\<close> is the metadata family of the database, when its file \<open>CURRENT\<close> exists; \<open>dir\<close> the
  snapshot directory, when there is one.\<close>

definition read_persisted_snapshot_membership ::
  "('i::linorder, 'sm) snap_api \<Rightarrow> snap_dir option \<Rightarrow> 'sm option" where
  "read_persisted_snapshot_membership p dir = (case dir of None \<Rightarrow> None
     | Some d \<Rightarrow> (case read_latest_snapshot_meta p d of None \<Rightarrow> None
         | Some meta \<Rightarrow> Some (last_membership meta)))"

definition read_persisted_membership_for_group ::
  "('i::linorder, 'm, 'sm) sm_api \<Rightarrow> ('i, 'sm) snap_api \<Rightarrow> (string, string) cf option \<Rightarrow> snap_dir option \<Rightarrow>
   'sm option result" where
  "read_persisted_membership_for_group sa p current dir = (case current of
      None \<Rightarrow> Inr (read_persisted_snapshot_membership p dir)
    | Some metadata \<Rightarrow> (case cf_get metadata LAST_MEMBERSHIP_KEY of
        None \<Rightarrow> Inr (read_persisted_snapshot_membership p dir)
      | Some bytes \<Rightarrow> with_context ''decode persisted openraft membership''
          (rbind (dec_membership sa bytes) (\<lambda>m. Inr (Some m)))))"

section \<open>Freshness\<close>

text \<open>RocksDB's promise: a catch-up never goes back nor beyond the primary, a reopened instance
  reads what the primary has made durable.\<close>

definition outcome_ok :: "primary_db \<Rightarrow> kv_data \<Rightarrow> rocks_outcome \<Rightarrow> bool" where
  "outcome_ok p kd oc \<longleftrightarrow> kd_secondary kd \<le> pd_seq p \<and>
     (\<forall>s. ro_catch_up oc = Inr s \<longrightarrow> kd_secondary kd \<le> s \<and> s \<le> pd_seq p) \<and>
     (\<forall>s. ro_reopen oc = Inr s \<longrightarrow> s \<le> pd_seq p)"

definition outcome_current :: "primary_db \<Rightarrow> rocks_outcome \<Rightarrow> bool" where
  "outcome_current p oc \<longleftrightarrow> (\<forall>s. ro_catch_up oc = Inr s \<longrightarrow> pd_seq p \<le> s) \<and> (\<forall>s. ro_reopen oc = Inr s \<longrightarrow> pd_seq p \<le> s)"

lemmas synced_defs = synced_db_def locked_db_def rebuild_or_primary_def rebuild_secondary_def Let_def

text \<open>A read is at most the gap behind the primary, unless it reads from a rebuilt secondary that is.\<close>

lemma synced_staleness:
  assumes "synced_db p oc kd = (kd', h)"
  shows "pd_seq p - handle_seq p h \<le> SECONDARY_REBUILD_GAP \<or>
    (\<exists>s. ro_reopen oc = Inr s \<and> h = SecondaryDb s \<and> kd_rebuilds kd' = kd_rebuilds kd + 1)"
  using assms by (auto simp: synced_defs handle_seq_def split: if_splits sum.splits)

lemma synced_not_ahead:
  assumes "outcome_ok p kd oc" "synced_db p oc kd = (kd', h)"
  shows "handle_seq p h \<le> pd_seq p" "kd_secondary kd' \<le> pd_seq p"
  using assms by (auto simp: synced_defs handle_seq_def outcome_ok_def split: if_splits sum.splits)

lemma synced_current:
  assumes "outcome_current p oc" "synced_db p oc kd = (kd', h)"
  shows "pd_seq p \<le> handle_seq p h"
  using assms by (auto simp: synced_defs handle_seq_def outcome_current_def split: if_splits sum.splits)

text \<open>Read your writes: with a reader that reaches the primary, a read sees the primary's data.\<close>

lemma synced_reads_primary:
  assumes "outcome_ok p kd oc" "outcome_current p oc" "synced_db p oc kd = (kd', h)"
  shows "handle_data p h = pd_at p (pd_seq p)"
  using synced_not_ahead(1)[OF assms(1,3)] synced_current[OF assms(2,3)] by (simp add: handle_data_def)

text \<open>A burst of readers behind one write: the first catches up, the others find it done, whatever
  RocksDB would have answered them.\<close>

fun read_burst :: "primary_db \<Rightarrow> rocks_outcome list \<Rightarrow> kv_data \<Rightarrow> kv_data \<times> db_handle list" where
  "read_burst p [] kd = (kd, [])"
| "read_burst p (oc1 # ocs) kd = (case locked_db p oc1 kd of (kd1, h) \<Rightarrow>
     case read_burst p ocs kd1 of (kd2, hs) \<Rightarrow> (kd2, h # hs))"

lemma locked_idle: "pd_seq p \<le> kd_secondary kd \<Longrightarrow> locked_db p oc kd = (kd, SecondaryDb (kd_secondary kd))"
  by (simp add: locked_db_def)

lemma burst_idle:
  "pd_seq p \<le> kd_secondary kd \<Longrightarrow>
   read_burst p ocs kd = (kd, replicate (length ocs) (SecondaryDb (kd_secondary kd)))"
  by (induction ocs) (simp_all add: locked_idle)

lemma burst_catches_up_once:
  assumes "ro_catch_up oc1 = Inr (pd_seq p)"
  shows "\<exists>kd1. locked_db p oc1 kd = (kd1, SecondaryDb (kd_secondary kd1)) \<and> pd_seq p \<le> kd_secondary kd1 \<and>
    read_burst p (oc1 # ocs) kd = (kd1, replicate (Suc (length ocs)) (SecondaryDb (kd_secondary kd1)))"
  using assms by (auto simp: locked_db_def Let_def burst_idle)

section \<open>What the reads return\<close>

lemma decode_kv_entries_Inr:
  assumes "decode_kv_entries raw = Inr es"
  shows "es = raw"
  using assms unfolding decode_kv_entries_def
  by (induction raw arbitrary: es) (auto simp: rbind_Inr_iff decode_utf8_def split: if_splits)

lemma decode_kv_entries_utf8: "data_utf8 raw \<Longrightarrow> decode_kv_entries raw = Inr raw"
  unfolding decode_kv_entries_def
  by (induction raw) (auto simp: data_utf8_def decode_utf8_def)

lemma kv_get_value:
  assumes "outcome_ok p kd oc" "outcome_current p oc" "kv_get p oc key kd = (kd', Inr v)"
  shows "v = cf_get (pd_at p (pd_seq p)) key"
  using assms(3) synced_reads_primary[OF assms(1,2)]
  by (auto simp: kv_get_def rbind_Inr_iff decode_utf8_def split: prod.splits option.splits if_splits)

lemma kv_entries_with_prefix_value:
  assumes "outcome_ok p kd oc" "outcome_current p oc" "kv_entries_with_prefix p oc prefix kd = (kd', Inr es)"
  shows "es = entries_with_prefix (pd_at p (pd_seq p)) prefix"
  using assms(3) synced_reads_primary[OF assms(1,2)]
  by (auto simp: kv_entries_with_prefix_def dest: decode_kv_entries_Inr split: prod.splits)

end
