(* ===== verification/KvService.thy ===== *)
theory KvService
  imports KvStore AddressBook
begin

text \<open>
  The key-value service: \<open>ensure_linearizable_read\<close> of \<open>store.rs\<close>, \<open>handle_kv\<close> and
  \<open>process_kv_request\<close> of \<open>network/openraft_dispatcher.rs\<close>, and the HTTP handlers of \<open>http/kv.rs\<close>
  that set, update and delete a value on the node they choose. A group on this node is what the
  code asks of openraft and of \<open>KvData\<close>, acting on a world of any type. The lemmas bound the retries
  of a read, and compare a leader's answers with a map from keys to values.
\<close>

section \<open>Requests and replies\<close>

datatype kv_op = KvGet string | KvSet string string | KvUpdate string string | KvDelete string | KvListPrefix string

record raft_kv_request =
  kr_group_id :: string
  kr_op :: "kv_op option"

datatype kv_reply =
    ReGet bool string
  | ReSet bool string
  | ReUpdate bool string
  | ReDelete bool
  | ReListPrefix "(string \<times> string) list"
  | ReError string string

type_synonym raft_kv_response = "kv_reply option"

definition kv_error_response_with_leader :: "string \<Rightarrow> string \<Rightarrow> raft_kv_response" where
  "kv_error_response_with_leader message leader_id = Some (ReError message leader_id)"

definition kv_error_response :: "string \<Rightarrow> raft_kv_response" where
  "kv_error_response message = kv_error_response_with_leader message []"

text \<open>The error of a linearizable read, with the text it prints as.\<close>

datatype read_error = ForwardToLeader string | QuorumNotEnough string | ReadFatal string

definition read_error_text :: "read_error \<Rightarrow> string" where
  "read_error_text e = (case e of ForwardToLeader t \<Rightarrow> t | QuorumNotEnough t \<Rightarrow> t | ReadFatal t \<Rightarrow> t)"

record 'w kv_group =
  kg_is_leader :: "'w \<Rightarrow> bool"
  kg_current_leader :: "'w \<Rightarrow> string option"
  kg_linearizer :: "'w \<Rightarrow> 'w \<times> (read_error + unit)"
  kg_await_ready :: "'w \<Rightarrow> 'w \<times> unit result"
  kg_sleep :: "nat \<Rightarrow> 'w \<Rightarrow> 'w"
  kg_client_write :: "request \<Rightarrow> 'w \<Rightarrow> 'w \<times> response result"
  kg_get :: "string \<Rightarrow> 'w \<Rightarrow> 'w \<times> string option result"
  kg_entries :: "'w \<Rightarrow> 'w \<times> (string \<times> string) list result"
  kg_entries_with_prefix :: "string \<Rightarrow> 'w \<Rightarrow> 'w \<times> (string \<times> string) list result"

section \<open>Linearizable reads\<close>

definition LINEARIZABLE_READ_ATTEMPTS :: nat where "LINEARIZABLE_READ_ATTEMPTS = 5"
definition LINEARIZABLE_READ_BACKOFF :: nat where "LINEARIZABLE_READ_BACKOFF = 200"

definition is_transient :: "read_error \<Rightarrow> bool" where
  "is_transient e = (case e of QuorumNotEnough _ \<Rightarrow> True | _ \<Rightarrow> False)"

text \<open>The loop, from the attempt number and the back-off in milliseconds.\<close>

function read_attempts :: "'w kv_group \<Rightarrow> nat \<Rightarrow> nat \<Rightarrow> 'w \<Rightarrow> 'w \<times> (read_error + unit)" where
  "read_attempts g attempt backoff w = (case kg_linearizer g w of
      (w1, Inr _) \<Rightarrow> (case kg_await_ready g w1 of
          (w2, Inr _) \<Rightarrow> (w2, Inr ())
        | (w2, Inl t) \<Rightarrow> (w2, Inl (ReadFatal t)))
    | (w1, Inl e) \<Rightarrow>
        if \<not> is_transient e \<or> LINEARIZABLE_READ_ATTEMPTS \<le> attempt then (w1, Inl e)
        else read_attempts g (attempt + 1) (2 * backoff) (kg_sleep g backoff w1))"
  by pat_completeness auto
termination
  by (relation "measure (\<lambda>(g, attempt, _). LINEARIZABLE_READ_ATTEMPTS - attempt)") auto

declare read_attempts.simps [simp del]

definition ensure_linearizable_read :: "'w kv_group \<Rightarrow> 'w \<Rightarrow> 'w \<times> (read_error + unit)" where
  "ensure_linearizable_read g w = read_attempts g 1 LINEARIZABLE_READ_BACKOFF w"

section \<open>The leader's side\<close>

definition contains_key :: "'w kv_group \<Rightarrow> string \<Rightarrow> 'w \<Rightarrow> 'w \<times> bool result" where
  "contains_key g key w = (case kg_get g key w of (w', r) \<Rightarrow> (w', rbind r (\<lambda>v. Inr (v \<noteq> None))))"

definition read_failed :: "string \<Rightarrow> raft_kv_response" where
  "read_failed err = kv_error_response (''read rocksdb kv failed: '' @ err)"

definition or_value :: "string option \<Rightarrow> string \<Rightarrow> string" where
  "or_value v x = (case v of None \<Rightarrow> x | Some y \<Rightarrow> y)"

definition process_op :: "'w kv_group \<Rightarrow> kv_op \<Rightarrow> 'w \<Rightarrow> 'w \<times> raft_kv_response" where
  "process_op g cmd w = (case cmd of
      KvGet key \<Rightarrow> (case ensure_linearizable_read g w of
          (w1, Inl err) \<Rightarrow> (w1, kv_error_response (read_error_text err))
        | (w1, Inr _) \<Rightarrow> (case kg_get g key w1 of
            (w2, Inr (Some v)) \<Rightarrow> (w2, Some (ReGet True v))
          | (w2, Inr None) \<Rightarrow> (w2, Some (ReGet False []))
          | (w2, Inl err) \<Rightarrow> (w2, read_failed err)))
    | KvSet key v \<Rightarrow> (case kg_client_write g (ReqSet key v) w of
          (w1, Inr resp) \<Rightarrow> (w1, Some (ReSet True (or_value (rs_value resp) v)))
        | (w1, Inl err) \<Rightarrow> (w1, kv_error_response err))
    | KvUpdate key v \<Rightarrow> (case ensure_linearizable_read g w of
          (w1, Inl err) \<Rightarrow> (w1, kv_error_response (read_error_text err))
        | (w1, Inr _) \<Rightarrow> (case contains_key g key w1 of
            (w2, Inl err) \<Rightarrow> (w2, read_failed err)
          | (w2, Inr exists) \<Rightarrow>
              if \<not> exists then (w2, Some (ReUpdate False []))
              else (case kg_client_write g (ReqSet key v) w2 of
                  (w3, Inr resp) \<Rightarrow> (w3, Some (ReUpdate True (or_value (rs_value resp) v)))
                | (w3, Inl err) \<Rightarrow> (w3, kv_error_response err))))
    | KvDelete key \<Rightarrow> (case ensure_linearizable_read g w of
          (w1, Inl err) \<Rightarrow> (w1, kv_error_response (read_error_text err))
        | (w1, Inr _) \<Rightarrow> (case contains_key g key w1 of
            (w2, Inl err) \<Rightarrow> (w2, read_failed err)
          | (w2, Inr exists) \<Rightarrow>
              if \<not> exists then (w2, Some (ReDelete False))
              else (case kg_client_write g (ReqDelete key) w2 of
                  (w3, Inr _) \<Rightarrow> (w3, Some (ReDelete True))
                | (w3, Inl err) \<Rightarrow> (w3, kv_error_response err))))
    | KvListPrefix prefix \<Rightarrow> (case ensure_linearizable_read g w of
          (w1, Inl err) \<Rightarrow> (w1, kv_error_response (read_error_text err))
        | (w1, Inr _) \<Rightarrow> (case kg_entries_with_prefix g prefix w1 of
            (w2, Inl err) \<Rightarrow> (w2, read_failed err)
          | (w2, Inr entries) \<Rightarrow> (w2, Some (ReListPrefix entries)))))"

definition process_kv_request :: "'w kv_group \<Rightarrow> raft_kv_request \<Rightarrow> 'w \<Rightarrow> 'w \<times> raft_kv_response" where
  "process_kv_request g req w =
     (if kr_group_id req = [] then (w, kv_error_response ''missing group_id'')
      else if \<not> kg_is_leader g w then
        (case kg_current_leader g w of
           None \<Rightarrow> (w, kv_error_response ''no leader available'')
         | Some leader_id \<Rightarrow> (w, kv_error_response_with_leader ''forward_to_leader'' leader_id))
      else case kr_op req of
        None \<Rightarrow> (w, kv_error_response ''missing request op'')
      | Some cmd \<Rightarrow> process_op g cmd w)"

definition handle_kv :: "(string \<Rightarrow> 'w kv_group option) \<Rightarrow> raft_kv_request \<Rightarrow> 'w \<Rightarrow> 'w \<times> raft_kv_response" where
  "handle_kv registry req w =
     (if kr_group_id req = [] then (w, kv_error_response ''missing group_id'')
      else case registry (kr_group_id req) of
        None \<Rightarrow> (w, kv_error_response (''unknown group_id='' @ kr_group_id req))
      | Some g \<Rightarrow> process_kv_request g req w)"

section \<open>The HTTP side\<close>

record 'w app_state =
  as_node_id :: string
  as_default_group :: string
  as_registry :: "string \<Rightarrow> 'w kv_group option"
  as_known_nodes :: "'w \<Rightarrow> (string \<times> string \<times> multiaddr) list"
  as_connect :: "string \<Rightarrow> multiaddr \<Rightarrow> 'w \<Rightarrow> 'w \<times> unit result"
  as_request :: "string \<Rightarrow> raft_kv_request \<Rightarrow> 'w \<Rightarrow> 'w \<times> raft_kv_response result"
  as_debug :: "raft_kv_response \<Rightarrow> string"

definition resolve_group_id :: "'w app_state \<Rightarrow> string option \<Rightarrow> string result" where
  "resolve_group_id st group_id = (case group_id of
      Some g \<Rightarrow> if as_registry st g \<noteq> None then Inr g else Inl (''unknown group_id='' @ g)
    | None \<Rightarrow> Inr (as_default_group st))"

datatype kv_target = LocalTarget string | RemoteTarget string string multiaddr

fun find_node :: "(string \<Rightarrow> bool) \<Rightarrow> (string \<times> string \<times> multiaddr) list \<Rightarrow> (string \<times> string \<times> multiaddr) option" where
  "find_node p [] = None"
| "find_node p (n # ns) = (if p (fst n) then Some n else find_node p ns)"

definition or_else :: "'a option \<Rightarrow> 'a option \<Rightarrow> 'a option" where
  "or_else x y = (case x of None \<Rightarrow> y | Some v \<Rightarrow> Some v)"

definition resolve_kv_target :: "'w app_state \<Rightarrow> string \<Rightarrow> string option \<Rightarrow> 'w \<Rightarrow> kv_target result" where
  "resolve_kv_target st group_id target_node_id w = (case as_registry st group_id of
      None \<Rightarrow> Inl (''unknown group_id='' @ group_id)
    | Some g \<Rightarrow>
        let self = as_node_id st;
            candidate = or_else target_node_id (kg_current_leader g w) in
        if kg_is_leader g w \<or> candidate = Some self then Inr (LocalTarget self)
        else let nodes = as_known_nodes st w in
        if nodes = [] then Inr (LocalTarget self)
        else (case or_else (or_else (case candidate of None \<Rightarrow> None | Some i \<Rightarrow> if i \<noteq> self then Some i else None)
                    (map_option fst (find_node (\<lambda>i. i \<noteq> self) nodes)))
                    (case nodes of [] \<Rightarrow> None | n # _ \<Rightarrow> Some (fst n)) of
            None \<Rightarrow> Inl ''no leader available''
          | Some node_id \<Rightarrow> (case find_node (\<lambda>i. i = node_id) nodes of
                Some (i, peer, addr) \<Rightarrow> Inr (RemoteTarget i peer addr)
              | None \<Rightarrow> Inl (''unknown target node_id='' @ node_id))))"

definition send_kv_request ::
  "'w app_state \<Rightarrow> string \<Rightarrow> string option \<Rightarrow> raft_kv_request \<Rightarrow> 'w \<Rightarrow> 'w \<times> (string \<times> raft_kv_response) result" where
  "send_kv_request st group_id target_node_id req w = (case resolve_kv_target st group_id target_node_id w of
      Inl err \<Rightarrow> (w, Inl err)
    | Inr (LocalTarget node_id) \<Rightarrow> (case as_registry st group_id of
          None \<Rightarrow> (w, Inl (''unknown group_id='' @ group_id))
        | Some g \<Rightarrow> (case process_kv_request g req w of (w1, resp) \<Rightarrow> (w1, Inr (node_id, resp))))
    | Inr (RemoteTarget node_id peer addr) \<Rightarrow> (case as_connect st peer addr w of
          (w1, Inl err) \<Rightarrow> (w1, Inl (''libp2p connect error: '' @ err))
        | (w1, Inr _) \<Rightarrow> (case as_request st peer req w1 of
            (w2, Inl err) \<Rightarrow> (w2, Inl (''libp2p error: '' @ err))
          | (w2, Inr resp) \<Rightarrow> (w2, Inr (node_id, resp)))))"

record write_value_request =
  wq_key :: string
  wq_value :: string
  wq_group_id :: "string option"
  wq_target_node_id :: "string option"

record write_value_response =
  wv_target_node_id :: "string option"
  wv_ok :: bool
  wv_value :: "string option"
  wv_error :: "string option"

record delete_value_request =
  dq_key :: string
  dq_group_id :: "string option"
  dq_target_node_id :: "string option"

record delete_value_response =
  dv_target_node_id :: "string option"
  dv_ok :: bool
  dv_error :: "string option"

definition write_refused :: "string option \<Rightarrow> string \<Rightarrow> write_value_response" where
  "write_refused target err = \<lparr>wv_target_node_id = target, wv_ok = False, wv_value = None, wv_error = Some err\<rparr>"

definition delete_refused :: "string option \<Rightarrow> string \<Rightarrow> delete_value_response" where
  "delete_refused target err = \<lparr>dv_target_node_id = target, dv_ok = False, dv_error = Some err\<rparr>"

definition unexpected :: "'w app_state \<Rightarrow> raft_kv_response \<Rightarrow> string" where
  "unexpected st other = ''unexpected response: '' @ as_debug st other"

definition set_value :: "'w app_state \<Rightarrow> write_value_request \<Rightarrow> 'w \<Rightarrow> 'w \<times> write_value_response" where
  "set_value st req w = (case resolve_group_id st (wq_group_id req) of
      Inl err \<Rightarrow> (w, write_refused None err)
    | Inr group_id \<Rightarrow>
        (case send_kv_request st group_id (wq_target_node_id req)
            \<lparr>kr_group_id = group_id, kr_op = Some (KvSet (wq_key req) (wq_value req))\<rparr> w of
          (w1, Inl err) \<Rightarrow> (w1, write_refused None err)
        | (w1, Inr (node_id, resp)) \<Rightarrow> (w1, case resp of
              Some (ReSet ok v) \<Rightarrow> \<lparr>wv_target_node_id = Some node_id, wv_ok = ok, wv_value = Some v, wv_error = None\<rparr>
            | Some (ReError message leader_id) \<Rightarrow> write_refused (Some node_id) message
            | other \<Rightarrow> write_refused (Some node_id) (unexpected st other))))"

definition update_value :: "'w app_state \<Rightarrow> write_value_request \<Rightarrow> 'w \<Rightarrow> 'w \<times> write_value_response" where
  "update_value st req w = (case resolve_group_id st (wq_group_id req) of
      Inl err \<Rightarrow> (w, write_refused None err)
    | Inr group_id \<Rightarrow>
        (case send_kv_request st group_id (wq_target_node_id req)
            \<lparr>kr_group_id = group_id, kr_op = Some (KvUpdate (wq_key req) (wq_value req))\<rparr> w of
          (w1, Inl err) \<Rightarrow> (w1, write_refused None err)
        | (w1, Inr (node_id, resp)) \<Rightarrow> (w1, case resp of
              Some (ReUpdate ok v) \<Rightarrow> \<lparr>wv_target_node_id = Some node_id, wv_ok = ok, wv_value = Some v, wv_error = None\<rparr>
            | Some (ReError message leader_id) \<Rightarrow> write_refused (Some node_id) message
            | other \<Rightarrow> write_refused (Some node_id) (unexpected st other))))"

definition delete_value :: "'w app_state \<Rightarrow> delete_value_request \<Rightarrow> 'w \<Rightarrow> 'w \<times> delete_value_response" where
  "delete_value st req w = (case resolve_group_id st (dq_group_id req) of
      Inl err \<Rightarrow> (w, delete_refused None err)
    | Inr group_id \<Rightarrow>
        (case send_kv_request st group_id (dq_target_node_id req)
            \<lparr>kr_group_id = group_id, kr_op = Some (KvDelete (dq_key req))\<rparr> w of
          (w1, Inl err) \<Rightarrow> (w1, delete_refused None err)
        | (w1, Inr (node_id, resp)) \<Rightarrow> (w1, case resp of
              Some (ReDelete ok) \<Rightarrow> \<lparr>dv_target_node_id = Some node_id, dv_ok = ok, dv_error = None\<rparr>
            | Some (ReError message leader_id) \<Rightarrow> delete_refused (Some node_id) message
            | other \<Rightarrow> delete_refused (Some node_id) (unexpected st other))))"

text \<open>A value in a request body: a JSON string, integer or boolean; decimals are refused. \<open>JF64\<close>
  carries the text of the number, \<open>JOther\<close> what serde says of arrays, objects and null.\<close>

datatype json_value = JStr string | JBool bool | JI64 "64 word" | JU64 u64 | JF64 string | JOther string

definition show_i64 :: "64 word \<Rightarrow> string" where
  "show_i64 i = (if sint i < 0 then ''-'' @ show_nat (nat (- sint i)) else show_nat (nat (sint i)))"

definition string_or_number :: "json_value \<Rightarrow> string result" where
  "string_or_number v = (case v of
      JStr s \<Rightarrow> Inr s
    | JBool b \<Rightarrow> Inr (if b then ''true'' else ''false'')
    | JI64 i \<Rightarrow> Inr (show_i64 i)
    | JU64 u \<Rightarrow> Inr (show_u64 u)
    | JF64 t \<Rightarrow> Inl (''float values are not accepted (f64 round-trips lose precision); send '' @ t @
        '' as a JSON string instead'')
    | JOther t \<Rightarrow> Inl t)"

section \<open>Retries of a read\<close>

text \<open>A count of the probes and of the time slept: any functions on the world that the operations change so.\<close>

definition counts_reads :: "'w kv_group \<Rightarrow> ('w \<Rightarrow> nat) \<Rightarrow> ('w \<Rightarrow> nat) \<Rightarrow> bool" where
  "counts_reads g probes slept \<longleftrightarrow>
     (\<forall>w. probes (fst (kg_linearizer g w)) = probes w + 1 \<and> slept (fst (kg_linearizer g w)) = slept w) \<and>
     (\<forall>w. probes (fst (kg_await_ready g w)) = probes w \<and> slept (fst (kg_await_ready g w)) = slept w) \<and>
     (\<forall>n w. probes (kg_sleep g n w) = probes w \<and> slept (kg_sleep g n w) = slept w + n)"

lemma backoff_sum: "b + 2 * b * (2 ^ k - 1) = b * (2 ^ Suc k - 1)" for b :: nat
proof -
  obtain n where "(2 :: nat) ^ k = Suc n" by (metis not0_implies_Suc power_not_zero zero_neq_numeral)
  then show ?thesis by (simp add: algebra_simps)
qed

lemma read_attempts_counts:
  assumes "counts_reads g probes slept" "read_attempts g attempt backoff w = (w', r)" "0 < attempt" "attempt \<le> 5"
  shows "\<exists>k \<le> 5 - attempt. probes w' = probes w + Suc k \<and> slept w' = slept w + backoff * (2 ^ k - 1) \<and>
    (\<forall>e. r = Inl e \<and> is_transient e \<longrightarrow> k = 5 - attempt)"
  using assms
proof (induction g attempt backoff w arbitrary: r rule: read_attempts.induct)
  case (1 g attempt backoff w)
  obtain w1 p where p: "kg_linearizer g w = (w1, p)" by fastforce
  have w1: "probes w1 = probes w + 1" "slept w1 = slept w"
    using "1.prems"(1) p unfolding counts_reads_def by (metis fst_conv)+
  show ?case
  proof (cases "\<exists>e. p = Inl e \<and> is_transient e \<and> attempt < 5")
    case True
    then obtain e where e: "p = Inl e" "is_transient e" "attempt < 5" by blast
    let ?w2 = "kg_sleep g backoff w1"
    have rec: "read_attempts g (attempt + 1) (2 * backoff) ?w2 = (w', r)"
      using "1.prems"(2) p e by (simp add: read_attempts.simps[of g attempt] LINEARIZABLE_READ_ATTEMPTS_def)
    have w2: "probes ?w2 = probes w + 1" "slept ?w2 = slept w + backoff"
      using "1.prems"(1) w1 unfolding counts_reads_def by simp_all
    obtain k where k: "k \<le> 5 - (attempt + 1)" "probes w' = probes ?w2 + Suc k"
      "slept w' = slept ?w2 + 2 * backoff * (2 ^ k - 1)" "\<forall>e. r = Inl e \<and> is_transient e \<longrightarrow> k = 5 - (attempt + 1)"
      using "1.IH"[OF p[symmetric] e(1) _ "1.prems"(1) rec] e(2,3) by (auto simp: LINEARIZABLE_READ_ATTEMPTS_def)
    have "slept w' = slept w + backoff * (2 ^ Suc k - 1)"
      using k(3) w2(2) backoff_sum[of backoff k] by simp
    then show ?thesis using k(1,2,4) w2(1) e(3) by (intro exI[of _ "Suc k"]) auto
  next
    case False
    obtain w2 q where q: "kg_await_ready g w1 = (w2, q)" by fastforce
    have "probes w2 = probes w1" "slept w2 = slept w1"
      using "1.prems"(1) q unfolding counts_reads_def by (metis fst_conv)+
    then show ?thesis using "1.prems"(2,4) p q w1 False
      by (intro exI[of _ 0])
         (auto simp: read_attempts.simps[of g attempt] LINEARIZABLE_READ_ATTEMPTS_def is_transient_def
           split: sum.splits if_splits)
  qed
qed

text \<open>At most five probes and three seconds of sleep; a missed quorum is only reported after all five.\<close>

lemma linearizable_read_bounded:
  assumes "counts_reads g probes slept" "ensure_linearizable_read g w = (w', r)"
  shows "probes w' \<le> probes w + 5 \<and> slept w' \<le> slept w + 3000 \<and>
    (\<forall>e. r = Inl e \<and> is_transient e \<longrightarrow> probes w' = probes w + 5 \<and> slept w' = slept w + 3000)"
proof -
  obtain k where k: "k \<le> 4" "probes w' = probes w + Suc k" "slept w' = slept w + 200 * (2 ^ k - 1)"
    "\<forall>e. r = Inl e \<and> is_transient e \<longrightarrow> k = 4"
    using read_attempts_counts[OF assms(1), of 1 200 w w' r] assms(2)
    by (auto simp: ensure_linearizable_read_def LINEARIZABLE_READ_BACKOFF_def)
  have "(2 :: nat) ^ k \<le> 2 ^ 4" using k(1) by (intro power_increasing) simp_all
  then have "(2 :: nat) ^ k \<le> 16" by simp
  then show ?thesis using k by auto
qed

section \<open>The leader as a map\<close>

text \<open>What openraft promises of the leader of a group, with \<open>sm\<close> the state machine of this node: it
  stays the leader, a linearizable read and the reads after it leave the data and see all of it, a
  successful proposal has been applied, and its response is the state machine's; a failed one may
  or may not have been applied.\<close>

definition proposal :: "'i \<Rightarrow> request \<Rightarrow> ('i, 'm) sm_entry" where
  "proposal i req = \<lparr>en_log_id = i, en_payload = Normal req, en_responder = True\<rparr>"

definition raft_leader :: "codec \<Rightarrow> ('i, 'm, 'sm) sm_api \<Rightarrow> 'w kv_group \<Rightarrow> ('w \<Rightarrow> rocks_sm) \<Rightarrow> bool" where
  "raft_leader c a g sm \<longleftrightarrow>
     (\<forall>w. kg_is_leader g w) \<and>
     (\<forall>w. sm (fst (kg_linearizer g w)) = sm w) \<and> (\<forall>w. sm (fst (kg_await_ready g w)) = sm w) \<and>
     (\<forall>n w. sm (kg_sleep g n w) = sm w) \<and>
     (\<forall>req w w' resp. kg_client_write g req w = (w', Inr resp) \<longrightarrow>
        (\<exists>i b. sm_apply c a (sm w) [Inr (proposal i req)] = Inr (sm w', [resp], b))) \<and>
     (\<forall>req w w' e. kg_client_write g req w = (w', Inl e) \<longrightarrow>
        sm w' = sm w \<or> (\<exists>i rs b. sm_apply c a (sm w) [Inr (proposal i req)] = Inr (sm w', rs, b)))"

text \<open>And of the reads: they leave the data and, when they succeed, see all of it.\<close>

definition reads_current :: "'w kv_group \<Rightarrow> ('w \<Rightarrow> rocks_sm) \<Rightarrow> bool" where
  "reads_current g sm \<longleftrightarrow>
     (\<forall>k w. sm (fst (kg_get g k w)) = sm w) \<and>
     (\<forall>k w v. snd (kg_get g k w) = Inr v \<longrightarrow> v = cf_get (sm_data (sm w)) k) \<and>
     (\<forall>p w. sm (fst (kg_entries_with_prefix g p w)) = sm w) \<and>
     (\<forall>p w es. snd (kg_entries_with_prefix g p w) = Inr es \<longrightarrow> es = entries_with_prefix (sm_data (sm w)) p)"

definition kv_leader :: "codec \<Rightarrow> ('i, 'm, 'sm) sm_api \<Rightarrow> 'w kv_group \<Rightarrow> ('w \<Rightarrow> rocks_sm) \<Rightarrow> bool" where
  "kv_leader c a g sm \<longleftrightarrow> raft_leader c a g sm \<and> reads_current g sm"

lemmas leader_defs = kv_leader_def raft_leader_def reads_current_def

definition kv_effect :: "(string \<rightharpoonup> string) \<Rightarrow> kv_op \<Rightarrow> (string \<rightharpoonup> string)" where
  "kv_effect m cmd = (case cmd of
      KvSet k v \<Rightarrow> m(k \<mapsto> v)
    | KvUpdate k v \<Rightarrow> if m k = None then m else m(k \<mapsto> v)
    | KvDelete k \<Rightarrow> m(k := None)
    | _ \<Rightarrow> m)"

definition lists_prefix :: "(string \<rightharpoonup> string) \<Rightarrow> string \<Rightarrow> (string \<times> string) list \<Rightarrow> bool" where
  "lists_prefix m p es \<longleftrightarrow> sorted_wrt (<) (map fst es) \<and>
     (\<forall>k v. (k, v) \<in> set es \<longleftrightarrow> m k = Some v \<and> starts_with k p)"

definition kv_answers :: "(string \<rightharpoonup> string) \<Rightarrow> kv_op \<Rightarrow> raft_kv_response \<Rightarrow> bool" where
  "kv_answers m cmd resp \<longleftrightarrow> (case cmd of
      KvGet k \<Rightarrow> resp = Some (case m k of None \<Rightarrow> ReGet False [] | Some v \<Rightarrow> ReGet True v)
    | KvSet k v \<Rightarrow> resp = Some (ReSet True v)
    | KvUpdate k v \<Rightarrow> resp = Some (if m k = None then ReUpdate False [] else ReUpdate True v)
    | KvDelete k \<Rightarrow> resp = Some (ReDelete (m k \<noteq> None))
    | KvListPrefix p \<Rightarrow> (\<exists>es. resp = Some (ReListPrefix es) \<and> lists_prefix m p es))"

definition is_kv_error :: "raft_kv_response \<Rightarrow> bool" where
  "is_kv_error resp \<longleftrightarrow> (\<exists>msg. resp = Some (ReError msg []))"

definition sm_map :: "rocks_sm \<Rightarrow> string \<rightharpoonup> string" where
  "sm_map sm = cf_get (sm_data sm)"

lemma apply_set:
  assumes "sm_apply c a sm [Inr (proposal i (ReqSet k v))] = Inr (sm', rs, b)"
  shows "sm_map sm' = (sm_map sm)(k \<mapsto> v)" "rs = [response_new v]" "cf_ok (sm_data sm) \<Longrightarrow> cf_ok (sm_data sm')"
  using assms
  by (auto simp: sm_apply_def apply_entry_def apply_payload_def proposal_def push_write_def acc_init_def
      rbind_Inr_iff sm_map_def mut_put_def cf_get_write cf_ok_write)

lemma apply_delete:
  assumes "sm_apply c a sm [Inr (proposal i (ReqDelete k))] = Inr (sm', rs, b)"
  shows "sm_map sm' = (sm_map sm)(k := None)" "cf_ok (sm_data sm) \<Longrightarrow> cf_ok (sm_data sm')"
  using assms
  by (auto simp: sm_apply_def apply_entry_def apply_payload_def proposal_def push_write_def acc_init_def
      rbind_Inr_iff sm_map_def mut_del_def cf_get_write cf_ok_write)

text \<open>What the probes of a linearizable read leave as it was.\<close>

definition probes_keep :: "'w kv_group \<Rightarrow> ('w \<Rightarrow> 'x) \<Rightarrow> bool" where
  "probes_keep g f \<longleftrightarrow> (\<forall>w. f (fst (kg_linearizer g w)) = f w) \<and> (\<forall>w. f (fst (kg_await_ready g w)) = f w) \<and>
     (\<forall>n w. f (kg_sleep g n w) = f w)"

lemma read_attempts_keeps: "probes_keep g f \<Longrightarrow> f (fst (read_attempts g n b w)) = f w"
proof (induction g n b w rule: read_attempts.induct)
  case (1 g attempt backoff w)
  obtain w1 p where p: "kg_linearizer g w = (w1, p)" by fastforce
  then have w1: "f w1 = f w" using "1.prems" unfolding probes_keep_def by (metis fst_conv)
  have aw: "f (fst (kg_await_ready g w1)) = f w" and sl: "f (kg_sleep g backoff w1) = f w"
    using "1.prems" w1 unfolding probes_keep_def by simp_all
  show ?case
  proof (cases p)
    case (Inl e)
    then show ?thesis using "1.IH"[OF p[symmetric] Inl] "1.prems" p w1 sl
      by (auto simp: read_attempts.simps[of g attempt])
  next
    case (Inr u)
    then show ?thesis using p aw
      by (auto simp: read_attempts.simps[of g attempt] split: prod.splits sum.splits)
  qed
qed

lemma ensure_keeps: "probes_keep g f \<Longrightarrow> ensure_linearizable_read g w = (w', r) \<Longrightarrow> f w' = f w"
  using read_attempts_keeps[of g f 1 LINEARIZABLE_READ_BACKOFF w] by (simp add: ensure_linearizable_read_def)

lemma linearizable_keeps: "kv_leader c a g sm \<Longrightarrow> ensure_linearizable_read g w = (w', r) \<Longrightarrow> sm w' = sm w"
  using ensure_keeps[of g sm w w' r] by (simp add: leader_defs probes_keep_def)

lemma leader_get:
  assumes "kv_leader c a g sm" "kg_get g k w = (w', r)"
  shows "sm w' = sm w" "r = Inr v \<Longrightarrow> v = sm_map (sm w) k"
proof -
  show "sm w' = sm w" using assms unfolding leader_defs by (metis fst_conv)
  show "r = Inr v \<Longrightarrow> v = sm_map (sm w) k" using assms unfolding leader_defs sm_map_def by (metis snd_conv)
qed

lemma leader_contains:
  assumes "kv_leader c a g sm" "contains_key g k w = (w', r)"
  shows "sm w' = sm w" "r = Inr e \<Longrightarrow> e = (sm_map (sm w) k \<noteq> None)"
proof -
  obtain w2 q where q: "kg_get g k w = (w2, q)" by fastforce
  show "sm w' = sm w" using assms(2) leader_get(1)[OF assms(1) q] by (simp add: contains_key_def q)
  show "r = Inr e \<Longrightarrow> e = (sm_map (sm w) k \<noteq> None)"
    using assms(2) leader_get(2)[OF assms(1) q]
    by (cases "sm_map (sm w) k") (auto simp: contains_key_def q rbind_Inr_iff)
qed

lemma leader_list:
  assumes "kv_leader c a g sm" "kg_entries_with_prefix g p w = (w', r)"
  shows "sm w' = sm w" "r = Inr es \<Longrightarrow> cf_ok (sm_data (sm w)) \<Longrightarrow> lists_prefix (sm_map (sm w)) p es"
proof -
  show "sm w' = sm w" using assms unfolding leader_defs by (metis fst_conv)
  assume "r = Inr es" and ok: "cf_ok (sm_data (sm w))"
  then have es: "es = entries_with_prefix (sm_data (sm w)) p" using assms unfolding leader_defs by (metis snd_conv)
  have "sorted_wrt (<) (map fst es)"
    using ok by (simp add: es entries_with_prefix_filter cf_ok_def sorted_wrt_map sorted_wrt_filter)
  then show "lists_prefix (sm_map (sm w)) p es"
    using entries_with_prefix_iff[OF ok] by (simp add: lists_prefix_def es sm_map_def)
qed

lemma leader_write:
  fixes a :: "('i, 'm, 'sm) sm_api"
  assumes "kv_leader c a g sm" "kg_client_write g req w = (w', r)"
  obtains (applied) i :: 'i and rs b where
      "sm_apply c a (sm w) [Inr (proposal i req)] = Inr (sm w', rs, b)" "\<And>resp. r = Inr resp \<Longrightarrow> rs = [resp]"
    | (refused) e where "r = Inl e" "sm w' = sm w"
proof (cases r)
  case (Inl e)
  then have "sm w' = sm w \<or> (\<exists>i rs b. sm_apply c a (sm w) [Inr (proposal i req)] = Inr (sm w', rs, b))"
    using assms unfolding leader_defs by blast
  then show thesis using that Inl by auto
next
  case (Inr resp)
  then have "\<exists>i b. sm_apply c a (sm w) [Inr (proposal i req)] = Inr (sm w', [resp], b)"
    using assms unfolding leader_defs by blast
  then show thesis using that(1) Inr by auto
qed

lemma leader_set:
  assumes "kv_leader c a g sm" "kg_client_write g (ReqSet k v) w = (w', r)" "cf_ok (sm_data (sm w))"
  shows "cf_ok (sm_data (sm w'))"
    and "r = Inr resp \<Longrightarrow> sm_map (sm w') = (sm_map (sm w))(k \<mapsto> v) \<and> or_value (rs_value resp) v = v"
    and "r = Inl e \<Longrightarrow> sm_map (sm w') = sm_map (sm w) \<or> sm_map (sm w') = (sm_map (sm w))(k \<mapsto> v)"
  by (rule leader_write[OF assms(1,2)]; use assms(3) in
      \<open>auto dest: apply_set simp: or_value_def response_new_def\<close>)+

lemma leader_delete:
  assumes "kv_leader c a g sm" "kg_client_write g (ReqDelete k) w = (w', r)" "cf_ok (sm_data (sm w))"
  shows "cf_ok (sm_data (sm w'))"
    and "r = Inr resp \<Longrightarrow> sm_map (sm w') = (sm_map (sm w))(k := None)"
    and "r = Inl e \<Longrightarrow> sm_map (sm w') = sm_map (sm w) \<or> sm_map (sm w') = (sm_map (sm w))(k := None)"
  by (rule leader_write[OF assms(1,2)]; use assms(3) in \<open>auto dest: apply_delete\<close>)+

text \<open>One request: it is answered and acts as on the map, or is answered by an error and acts so or not at all.\<close>

definition kv_conforms :: "(string \<rightharpoonup> string) \<Rightarrow> kv_op \<Rightarrow> raft_kv_response \<Rightarrow> (string \<rightharpoonup> string) \<Rightarrow> bool" where
  "kv_conforms m cmd resp m' \<longleftrightarrow>
     kv_answers m cmd resp \<and> m' = kv_effect m cmd \<or> is_kv_error resp \<and> (m' = m \<or> m' = kv_effect m cmd)"

lemma kv_errors [simp]:
  "is_kv_error (kv_error_response msg)" "is_kv_error (read_failed msg)"
  by (simp_all add: is_kv_error_def kv_error_response_def kv_error_response_with_leader_def read_failed_def)

lemma process_op_conforms:
  assumes g: "kv_leader c a g sm" and ok: "cf_ok (sm_data (sm w))" and run: "process_op g cmd w = (w', resp)"
  shows "cf_ok (sm_data (sm w')) \<and> kv_conforms (sm_map (sm w)) cmd resp (sm_map (sm w'))"
proof -
  obtain w1 q where q: "ensure_linearizable_read g w = (w1, q)" by fastforce
  note w1 = linearizable_keeps[OF g q]
  show ?thesis
  proof (cases cmd)
    case (KvGet k)
    obtain w2 r where r: "kg_get g k w1 = (w2, r)" by fastforce
    show ?thesis using run leader_get[OF g r] w1 ok
      by (cases q; cases r)
         (auto simp: KvGet process_op_def q r kv_conforms_def kv_effect_def kv_answers_def split: option.splits)
  next
    case (KvSet k v)
    obtain w2 r where r: "kg_client_write g (ReqSet k v) w = (w2, r)" by fastforce
    show ?thesis using run leader_set[OF g r ok]
      by (cases r) (auto simp: KvSet process_op_def r kv_conforms_def kv_effect_def kv_answers_def)
  next
    case (KvUpdate k v)
    obtain w2 r where r: "contains_key g k w1 = (w2, r)" by fastforce
    obtain w3 s where s: "kg_client_write g (ReqSet k v) w2 = (w3, s)" by fastforce
    have w2: "sm w2 = sm w" using leader_contains(1)[OF g r] w1 by simp
    show ?thesis using run leader_contains(2)[OF g r] leader_set[OF g s] w1 w2 ok
      by (cases q; cases r; cases s)
         (auto simp: KvUpdate process_op_def q r s kv_conforms_def kv_effect_def kv_answers_def split: if_splits)
  next
    case (KvDelete k)
    obtain w2 r where r: "contains_key g k w1 = (w2, r)" by fastforce
    obtain w3 s where s: "kg_client_write g (ReqDelete k) w2 = (w3, s)" by fastforce
    have w2: "sm w2 = sm w" using leader_contains(1)[OF g r] w1 by simp
    have none: "sm_map (sm w) k = None \<Longrightarrow> (sm_map (sm w))(k := None) = sm_map (sm w)" by auto
    show ?thesis using run leader_contains(2)[OF g r] leader_delete[OF g s] w1 w2 ok none
      by (cases q; cases r; cases s)
         (auto simp: KvDelete process_op_def q r s kv_conforms_def kv_effect_def kv_answers_def split: if_splits)
  next
    case (KvListPrefix p)
    obtain w2 r where r: "kg_entries_with_prefix g p w1 = (w2, r)" by fastforce
    show ?thesis using run leader_list[OF g r] w1 ok
      by (cases q; cases r)
         (auto simp: KvListPrefix process_op_def q r kv_conforms_def kv_effect_def kv_answers_def)
  qed
qed

text \<open>A sequence of requests, each given to \<open>process_kv_request\<close> of the leader.\<close>

fun kv_run :: "'w kv_group \<Rightarrow> string \<Rightarrow> kv_op list \<Rightarrow> 'w \<Rightarrow> 'w \<times> raft_kv_response list" where
  "kv_run g gid [] w = (w, [])"
| "kv_run g gid (cmd # cmds) w =
     (case process_kv_request g \<lparr>kr_group_id = gid, kr_op = Some cmd\<rparr> w of (w1, r) \<Rightarrow>
      case kv_run g gid cmds w1 of (w2, rs) \<Rightarrow> (w2, r # rs))"

fun kv_trace :: "(string \<rightharpoonup> string) \<Rightarrow> kv_op list \<Rightarrow> raft_kv_response list \<Rightarrow> (string \<rightharpoonup> string) \<Rightarrow> bool" where
  "kv_trace m [] [] m' \<longleftrightarrow> m' = m"
| "kv_trace m (cmd # cmds) (r # rs) m' \<longleftrightarrow> (\<exists>m1. kv_conforms m cmd r m1 \<and> kv_trace m1 cmds rs m')"
| "kv_trace m _ _ m' \<longleftrightarrow> False"

lemma kv_run_trace:
  assumes "kv_leader c a g sm" "gid \<noteq> []" "cf_ok (sm_data (sm w))" "kv_run g gid cmds w = (w', rs)"
  shows "kv_trace (sm_map (sm w)) cmds rs (sm_map (sm w'))"
  using assms(3,4)
proof (induction cmds arbitrary: w w' rs)
  case (Cons cmd cmds)
  obtain w1 r where r: "process_kv_request g \<lparr>kr_group_id = gid, kr_op = Some cmd\<rparr> w = (w1, r)" by fastforce
  obtain w2 rs' where rs: "kv_run g gid cmds w1 = (w2, rs')" by fastforce
  have "process_op g cmd w = (w1, r)"
    using r assms(1,2) by (simp add: process_kv_request_def leader_defs)
  note step = process_op_conforms[OF assms(1) Cons.prems(1) this]
  then show ?case using Cons.prems(2) Cons.IH[OF _ rs] r rs by auto
qed simp

section \<open>A group that reads through \<open>KvData\<close>\<close>

text \<open>The reader of a world: the primary with its data, what RocksDB answers next, and the reader's state.\<close>

record 'w kv_reader =
  rd_primary :: "'w \<Rightarrow> primary_db"
  rd_outcome :: "'w \<Rightarrow> rocks_outcome"
  rd_state :: "'w \<Rightarrow> kv_data"
  rd_put :: "kv_data \<Rightarrow> 'w \<Rightarrow> 'w"

definition reading :: "'w kv_reader \<Rightarrow> (primary_db \<Rightarrow> rocks_outcome \<Rightarrow> kv_data \<Rightarrow> kv_data \<times> 'a) \<Rightarrow> 'w \<Rightarrow> 'w \<times> 'a" where
  "reading rd f w = (case f (rd_primary rd w) (rd_outcome rd w) (rd_state rd w) of (kd, x) \<Rightarrow> (rd_put rd kd w, x))"

definition with_kv_data :: "'w kv_reader \<Rightarrow> 'w kv_group \<Rightarrow> 'w kv_group" where
  "with_kv_data rd g = g\<lparr>kg_get := \<lambda>key. reading rd (\<lambda>p oc. kv_get p oc key),
     kg_entries := reading rd kv_entries,
     kg_entries_with_prefix := \<lambda>prefix. reading rd (\<lambda>p oc. kv_entries_with_prefix p oc prefix)\<rparr>"

text \<open>RocksDB's part: the primary holds the applied data, and the reader reaches it.\<close>

definition reader_current :: "'w kv_reader \<Rightarrow> ('w \<Rightarrow> rocks_sm) \<Rightarrow> bool" where
  "reader_current rd sm \<longleftrightarrow> (\<forall>w. pd_at (rd_primary rd w) (pd_seq (rd_primary rd w)) = sm_data (sm w) \<and>
     outcome_ok (rd_primary rd w) (rd_state rd w) (rd_outcome rd w) \<and>
     outcome_current (rd_primary rd w) (rd_outcome rd w)) \<and> (\<forall>kd w. sm (rd_put rd kd w) = sm w)"

lemma reading_keeps: "reader_current rd sm \<Longrightarrow> sm (fst (reading rd f w)) = sm w"
  by (simp add: reader_current_def reading_def split: prod.split)

lemma with_kv_data_reads:
  assumes "reader_current rd sm"
  shows "reads_current (with_kv_data rd g) sm"
proof -
  have ok: "outcome_ok (rd_primary rd w) (rd_state rd w) (rd_outcome rd w)"
    "outcome_current (rd_primary rd w) (rd_outcome rd w)"
    "pd_at (rd_primary rd w) (pd_seq (rd_primary rd w)) = sm_data (sm w)" for w
    using assms by (simp_all add: reader_current_def)
  have get: "v = cf_get (sm_data (sm w)) k"
    if "snd (reading rd (\<lambda>p oc. kv_get p oc k) w) = Inr v" for k w v
    using that kv_get_value[OF ok(1,2)] ok(3) by (auto simp: reading_def split: prod.splits)
  have list: "es = entries_with_prefix (sm_data (sm w)) p"
    if "snd (reading rd (\<lambda>pr oc. kv_entries_with_prefix pr oc p) w) = Inr es" for p w es
    using that kv_entries_with_prefix_value[OF ok(1,2)] ok(3) by (auto simp: reading_def split: prod.splits)
  show ?thesis unfolding reads_current_def with_kv_data_def using get list by (simp add: reading_keeps[OF assms])
qed

lemma with_kv_data_leader:
  assumes "raft_leader c a g sm" "reader_current rd sm"
  shows "kv_leader c a (with_kv_data rd g) sm"
  using assms(1) with_kv_data_reads[OF assms(2)]
  by (simp add: kv_leader_def raft_leader_def with_kv_data_def)

section \<open>Requests among other clients\<close>

text \<open>The primary only grows, and keeps what it held at every number.\<close>

definition extends :: "primary_db \<Rightarrow> primary_db \<Rightarrow> bool" where
  "extends p p' \<longleftrightarrow> pd_seq p \<le> pd_seq p' \<and> (\<forall>n \<le> pd_seq p. pd_at p' n = pd_at p n)"

lemma extends_refl [simp]: "extends p p"
  by (simp add: extends_def)

lemma extends_trans: "extends p q \<Longrightarrow> extends q r \<Longrightarrow> extends p r"
  by (auto simp: extends_def)

text \<open>What a group with a reader relies on. While any call runs, openraft may apply proposals of other clients
  and of other leaders, so every call extends the primary. A proposal that is answered was applied by the
  state machine somewhere in between, on what the primary held then; one that failed may have been or not.
  RocksDB keeps column families in order, and a secondary neither goes back nor beyond its primary; how
  far behind it stays is not assumed.\<close>

definition kv_host :: "codec \<Rightarrow> ('i, 'm, 'sm) sm_api \<Rightarrow> 'w kv_group \<Rightarrow> 'w kv_reader \<Rightarrow> bool" where
  "kv_host c a g rd \<longleftrightarrow>
     (\<forall>w. extends (rd_primary rd w) (rd_primary rd (fst (kg_linearizer g w)))) \<and>
     (\<forall>w. extends (rd_primary rd w) (rd_primary rd (fst (kg_await_ready g w)))) \<and>
     (\<forall>n w. extends (rd_primary rd w) (rd_primary rd (kg_sleep g n w))) \<and>
     (\<forall>req w. extends (rd_primary rd w) (rd_primary rd (fst (kg_client_write g req w)))) \<and>
     (\<forall>kd w. extends (rd_primary rd w) (rd_primary rd (rd_put rd kd w))) \<and>
     (\<forall>req w w' resp. kg_client_write g req w = (w', Inr resp) \<longrightarrow>
        (\<exists>n m sm sm' i b. pd_seq (rd_primary rd w) \<le> n \<and> n \<le> m \<and> m \<le> pd_seq (rd_primary rd w') \<and>
           sm_data sm = pd_at (rd_primary rd w') n \<and> sm_data sm' = pd_at (rd_primary rd w') m \<and>
           sm_apply c a sm [Inr (proposal i req)] = Inr (sm', [resp], b))) \<and>
     (\<forall>w n. n \<le> pd_seq (rd_primary rd w) \<longrightarrow> cf_ok (pd_at (rd_primary rd w) n)) \<and>
     (\<forall>w. outcome_ok (rd_primary rd w) (rd_state rd w) (rd_outcome rd w))"

lemma kv_hostD:
  assumes "kv_host c a g rd"
  shows "kg_linearizer g w = (w', x) \<Longrightarrow> extends (rd_primary rd w) (rd_primary rd w')"
    and "kg_await_ready g w = (w', y) \<Longrightarrow> extends (rd_primary rd w) (rd_primary rd w')"
    and "extends (rd_primary rd w) (rd_primary rd (kg_sleep g n w))"
    and "kg_client_write g req w = (w', z) \<Longrightarrow> extends (rd_primary rd w) (rd_primary rd w')"
    and "extends (rd_primary rd w) (rd_primary rd (rd_put rd kd w))"
    and "n \<le> pd_seq (rd_primary rd w) \<Longrightarrow> cf_ok (pd_at (rd_primary rd w) n)"
    and "outcome_ok (rd_primary rd w) (rd_state rd w) (rd_outcome rd w)"
  using assms unfolding kv_host_def by (metis fst_conv)+

lemma kv_host_applied:
  assumes "kv_host c a g rd" "kg_client_write g req w = (w', Inr resp)"
  obtains n m sm sm' i b where "pd_seq (rd_primary rd w) \<le> n" "n \<le> m" "m \<le> pd_seq (rd_primary rd w')"
    "sm_data sm = pd_at (rd_primary rd w') n" "sm_data sm' = pd_at (rd_primary rd w') m"
    "sm_apply c a sm [Inr (proposal i req)] = Inr (sm', [resp], b)"
proof -
  note applied = assms(1)[unfolded kv_host_def, THEN conjunct2, THEN conjunct2, THEN conjunct2, THEN conjunct2, THEN conjunct2, THEN conjunct1]
  show thesis using applied[rule_format, OF assms(2)] that by (elim exE conjE)
qed

text \<open>The map a read saw: what the primary held at a number that is at most the tolerated gap behind it at some
  moment \<open>u\<close> of the request, or that a reopened reader found; the newest when the catch-up is complete.\<close>

definition read_at :: "'w kv_reader \<Rightarrow> 'w \<Rightarrow> nat \<Rightarrow> bool" where
  "read_at rd u n \<longleftrightarrow> n \<le> pd_seq (rd_primary rd u) \<and>
     (pd_seq (rd_primary rd u) - n \<le> SECONDARY_REBUILD_GAP \<or> ro_reopen (rd_outcome rd u) = Inr n) \<and>
     (outcome_current (rd_primary rd u) (rd_outcome rd u) \<longrightarrow> n = pd_seq (rd_primary rd u))"

definition seen :: "'w kv_reader \<Rightarrow> 'w \<Rightarrow> 'w \<Rightarrow> (string \<rightharpoonup> string) \<Rightarrow> bool" where
  "seen rd w w' view \<longleftrightarrow> (\<exists>u n. extends (rd_primary rd w) (rd_primary rd u) \<and> extends (rd_primary rd u) (rd_primary rd w') \<and>
     read_at rd u n \<and> view = cf_get (pd_at (rd_primary rd u) n))"

text \<open>A change of one key that the primary took between two worlds.\<close>

definition took :: "'w kv_reader \<Rightarrow> 'w \<Rightarrow> 'w \<Rightarrow> string \<Rightarrow> string option \<Rightarrow> bool" where
  "took rd w w' k x \<longleftrightarrow> (\<exists>n m. pd_seq (rd_primary rd w) \<le> n \<and> n \<le> m \<and> m \<le> pd_seq (rd_primary rd w') \<and>
     cf_get (pd_at (rd_primary rd w') m) = (cf_get (pd_at (rd_primary rd w') n))(k := x))"

definition reply_sound :: "'w kv_reader \<Rightarrow> 'w \<Rightarrow> 'w \<Rightarrow> kv_op \<Rightarrow> raft_kv_response \<Rightarrow> bool" where
  "reply_sound rd w w' cmd resp \<longleftrightarrow> (\<exists>msg leader. resp = Some (ReError msg leader)) \<or> (case cmd of
      KvGet k \<Rightarrow> \<exists>view. seen rd w w' view \<and> resp = Some (case view k of None \<Rightarrow> ReGet False [] | Some v \<Rightarrow> ReGet True v)
    | KvSet k v \<Rightarrow> resp = Some (ReSet True v) \<and> took rd w w' k (Some v)
    | KvUpdate k v \<Rightarrow> \<exists>w1 view. seen rd w w1 view \<and> extends (rd_primary rd w1) (rd_primary rd w') \<and>
        (if view k = None then resp = Some (ReUpdate False []) else resp = Some (ReUpdate True v) \<and> took rd w1 w' k (Some v))
    | KvDelete k \<Rightarrow> \<exists>w1 view. seen rd w w1 view \<and> extends (rd_primary rd w1) (rd_primary rd w') \<and>
        resp = Some (ReDelete (view k \<noteq> None)) \<and> (view k \<noteq> None \<longrightarrow> took rd w1 w' k None)
    | KvListPrefix p \<Rightarrow> \<exists>view es. seen rd w w' view \<and> resp = Some (ReListPrefix es) \<and> lists_prefix view p es)"

lemma host_attempts: "kv_host c a g rd \<Longrightarrow> extends (rd_primary rd w) (rd_primary rd (fst (read_attempts g n b w)))"
proof (induction g n b w rule: read_attempts.induct)
  case (1 g attempt backoff w)
  obtain w1 p where p: "kg_linearizer g w = (w1, p)" by fastforce
  obtain w2 q where q: "kg_await_ready g w1 = (w2, q)" by fastforce
  have w1: "extends (rd_primary rd w) (rd_primary rd w1)" using kv_hostD(1)[OF "1.prems" p] .
  have aw: "extends (rd_primary rd w) (rd_primary rd w2)" using extends_trans[OF w1 kv_hostD(2)[OF "1.prems" q]] .
  have sl: "extends (rd_primary rd w) (rd_primary rd (kg_sleep g backoff w1))" using extends_trans[OF w1 kv_hostD(3)[OF "1.prems"]] .
  show ?case
  proof (cases p)
    case (Inl e)
    then show ?thesis using "1.IH"[OF p[symmetric] Inl] "1.prems" p w1 extends_trans[OF sl]
      by (auto simp: read_attempts.simps[of g attempt])
  next
    case (Inr u)
    then show ?thesis using p q aw
      by (auto simp: read_attempts.simps[of g attempt] split: sum.splits)
  qed
qed

lemma with_kv_data_linearizable: "ensure_linearizable_read (with_kv_data rd g) w = ensure_linearizable_read g w"
proof -
  have "read_attempts (with_kv_data rd g) n b w = read_attempts g n b w" for n b
  proof (induction g n b w rule: read_attempts.induct)
    case (1 g attempt backoff w)
    then show ?case
      by (subst (1 2) read_attempts.simps) (auto simp: with_kv_data_def split: prod.splits sum.splits)
  qed
  then show ?thesis by (simp add: ensure_linearizable_read_def)
qed

lemma host_synced:
  assumes "kv_host c a g rd" "synced_db (rd_primary rd w) (rd_outcome rd w) (rd_state rd w) = (kd, h)"
  shows "read_at rd w (handle_seq (rd_primary rd w) h)"
  using synced_staleness[OF assms(2)] synced_not_ahead(1)[OF kv_hostD(7)[OF assms(1)] assms(2)] synced_current[OF _ assms(2)]
  by (auto simp: read_at_def handle_seq_def intro: order.antisym)

lemma host_get:
  assumes "kv_host c a g rd" "reading rd (\<lambda>p oc. kv_get p oc k) w = (w', Inr v)"
  shows "\<exists>n. read_at rd w n \<and> extends (rd_primary rd w) (rd_primary rd w') \<and> v = cf_get (pd_at (rd_primary rd w) n) k"
proof -
  obtain kd h where h: "synced_db (rd_primary rd w) (rd_outcome rd w) (rd_state rd w) = (kd, h)" by fastforce
  have "w' = rd_put rd kd w" "v = cf_get (handle_data (rd_primary rd w) h) k"
    using assms(2) h by (auto simp: reading_def kv_get_def rbind_Inr_iff decode_utf8_def split: option.splits if_splits)
  then show ?thesis using host_synced[OF assms(1) h] kv_hostD(5)[OF assms(1)] by (auto simp: handle_data_def)
qed

lemma host_list:
  assumes "kv_host c a g rd" "reading rd (\<lambda>p oc. kv_entries_with_prefix p oc pre) w = (w', Inr es)"
  shows "\<exists>n. read_at rd w n \<and> extends (rd_primary rd w) (rd_primary rd w') \<and> lists_prefix (cf_get (pd_at (rd_primary rd w) n)) pre es"
proof -
  obtain kd h where h: "synced_db (rd_primary rd w) (rd_outcome rd w) (rd_state rd w) = (kd, h)" by fastforce
  have es: "w' = rd_put rd kd w" "es = entries_with_prefix (handle_data (rd_primary rd w) h) pre"
    using assms(2) h by (auto simp: reading_def kv_entries_with_prefix_def dest: decode_kv_entries_Inr)
  note at = host_synced[OF assms(1) h]
  have ok: "cf_ok (handle_data (rd_primary rd w) h)"
    using at kv_hostD(6)[OF assms(1)] by (simp add: handle_data_def read_at_def)
  have "sorted_wrt (<) (map fst es)"
    using ok by (simp add: es entries_with_prefix_filter cf_ok_def sorted_wrt_map sorted_wrt_filter)
  then have "lists_prefix (cf_get (handle_data (rd_primary rd w) h)) pre es"
    using entries_with_prefix_iff[OF ok] by (simp add: lists_prefix_def es)
  then show ?thesis using at kv_hostD(5)[OF assms(1)] es(1) by (auto simp: handle_data_def)
qed

lemma host_write:
  assumes "kv_host c a g rd" "kg_client_write g req w = (w', Inr resp)"
  shows "req = ReqSet k v \<Longrightarrow> took rd w w' k (Some v) \<and> or_value (rs_value resp) v = v"
    and "req = ReqDelete k \<Longrightarrow> took rd w w' k None"
proof -
  obtain n m sm sm' i b where a: "pd_seq (rd_primary rd w) \<le> n" "n \<le> m" "m \<le> pd_seq (rd_primary rd w')"
    "sm_data sm = pd_at (rd_primary rd w') n" "sm_data sm' = pd_at (rd_primary rd w') m"
    "sm_apply c a sm [Inr (proposal i req)] = Inr (sm', [resp], b)"
    using kv_host_applied[OF assms] .
  show "req = ReqSet k v \<Longrightarrow> took rd w w' k (Some v) \<and> or_value (rs_value resp) v = v"
    using a apply_set(1,2)[of c a sm i k v sm' "[resp]" b]
    by (auto simp: took_def sm_map_def or_value_def response_new_def intro!: exI[of _ n] exI[of _ m])
  show "req = ReqDelete k \<Longrightarrow> took rd w w' k None"
    using a apply_delete(1)[of c a sm i k sm' "[resp]" b]
    by (auto simp: took_def sm_map_def intro!: exI[of _ n] exI[of _ m])
qed

lemmas kv_error_defs = kv_error_response_def kv_error_response_with_leader_def read_failed_def

lemma with_kv_data_sel [simp]:
  "kg_client_write (with_kv_data rd g) = kg_client_write g" "kg_is_leader (with_kv_data rd g) = kg_is_leader g"
  "kg_current_leader (with_kv_data rd g) = kg_current_leader g"
  "kg_get (with_kv_data rd g) = (\<lambda>k. reading rd (\<lambda>p oc. kv_get p oc k))"
  "kg_entries_with_prefix (with_kv_data rd g) = (\<lambda>pre. reading rd (\<lambda>p oc. kv_entries_with_prefix p oc pre))"
  by (simp_all add: with_kv_data_def)

lemma reading_extends: "kv_host c a g rd \<Longrightarrow> reading rd f w = (w', x) \<Longrightarrow> extends (rd_primary rd w) (rd_primary rd w')"
  using kv_hostD(5)[of c a g rd w] by (auto simp: reading_def split: prod.splits)

lemma seenI:
  assumes "extends (rd_primary rd w) (rd_primary rd u)" "read_at rd u n" "extends (rd_primary rd u) (rd_primary rd w')"
  shows "seen rd w w' (cf_get (pd_at (rd_primary rd u) n))"
  using assms unfolding seen_def by blast

lemma process_op_sound:
  assumes host: "kv_host c a g rd" and run: "process_op (with_kv_data rd g) cmd w = (w', resp)"
  shows "extends (rd_primary rd w) (rd_primary rd w') \<and> reply_sound rd w w' cmd resp"
proof -
  obtain w1 q where q: "ensure_linearizable_read g w = (w1, q)" by fastforce
  have w1: "extends (rd_primary rd w) (rd_primary rd w1)"
    using host_attempts[OF host, of w 1 LINEARIZABLE_READ_BACKOFF] q by (simp add: ensure_linearizable_read_def)
  note lin = with_kv_data_linearizable[of rd g w, unfolded q]
  have look: "\<exists>view. seen rd w w2 view \<and> e = (view k \<noteq> None)" if hit: "contains_key (with_kv_data rd g) k w1 = (w2, Inr e)" for k w2 e
  proof -
    obtain w2' r where r: "reading rd (\<lambda>p oc. kv_get p oc k) w1 = (w2', r)" by fastforce
    then obtain v where v: "reading rd (\<lambda>p oc. kv_get p oc k) w1 = (w2, Inr v)" "e = (v \<noteq> None)"
      using hit by (cases r) (auto simp: contains_key_def)
    show ?thesis using host_get[OF host v(1)] v(2) seenI[OF w1] by blast
  qed
  have looked: "extends (rd_primary rd w) (rd_primary rd w2)" if hit: "contains_key (with_kv_data rd g) k w1 = (w2, e)" for k w2 e
  proof -
    obtain v where v: "reading rd (\<lambda>p oc. kv_get p oc k) w1 = (w2, v)" using hit by (auto simp: contains_key_def split: prod.splits)
    show ?thesis using extends_trans[OF w1 reading_extends[OF host v]] .
  qed
  show ?thesis
  proof (cases cmd)
    case (KvGet k)
    obtain w2 r where r: "reading rd (\<lambda>p oc. kv_get p oc k) w1 = (w2, r)" by fastforce
    have w2: "extends (rd_primary rd w) (rd_primary rd w2)" using extends_trans[OF w1 reading_extends[OF host r]] .
    show ?thesis
    proof (cases "\<exists>u v. q = Inr u \<and> r = Inr v")
      case True
      then obtain v where v: "q = Inr ()" "r = Inr v" by auto
      obtain n where "read_at rd w1 n" "extends (rd_primary rd w1) (rd_primary rd w2)" "v = cf_get (pd_at (rd_primary rd w1) n) k"
        using host_get[OF host r[unfolded v(2)]] by blast
      then have "\<exists>view. seen rd w w2 view \<and> v = view k" using seenI[OF w1] by blast
      moreover have "w' = w2" "resp = Some (case v of None \<Rightarrow> ReGet False [] | Some v \<Rightarrow> ReGet True v)"
        using run v r by (auto simp: KvGet process_op_def lin split: option.splits)
      ultimately show ?thesis using w2 by (auto simp: KvGet reply_sound_def)
    next
      case False
      then show ?thesis using run w1 w2 r
        by (cases q; cases r) (auto simp: KvGet process_op_def lin reply_sound_def kv_error_defs)
    qed
  next
    case (KvSet k v)
    obtain w2 r where r: "kg_client_write g (ReqSet k v) w = (w2, r)" by fastforce
    show ?thesis using run kv_hostD(4)[OF host r] r host_write(1)[OF host, of "ReqSet k v" w w2 _ k v]
      by (cases r) (auto simp: KvSet process_op_def reply_sound_def kv_error_defs)
  next
    case (KvUpdate k v)
    obtain w2 r where r: "contains_key (with_kv_data rd g) k w1 = (w2, r)" by fastforce
    obtain w3 s where s: "kg_client_write g (ReqSet k v) w2 = (w3, s)" by fastforce
    note w2 = looked[OF r] and w3 = kv_hostD(4)[OF host s]
    have wr: "s = Inr x \<Longrightarrow> took rd w2 w3 k (Some v) \<and> or_value (rs_value x) v = v" for x
      using host_write(1)[OF host _ refl] s by simp
    show ?thesis
    proof (cases "\<exists>u e. q = Inr u \<and> r = Inr e")
      case True
      then obtain e where e: "q = Inr ()" "r = Inr e" by auto
      obtain view where view: "seen rd w w2 view" "e = (view k \<noteq> None)" using look r[unfolded e(2)] by blast
      show ?thesis
      proof (cases "view k = None")
        case True
        then have "w' = w2" "resp = Some (ReUpdate False [])" using run e r view(2) by (auto simp: KvUpdate process_op_def lin)
        then show ?thesis unfolding KvUpdate reply_sound_def kv_op.case using w2 True view(1) extends_refl by metis
      next
        case False
        have w': "w' = w3" using run e r s view(2) False by (cases s) (auto simp: KvUpdate process_op_def lin)
        have "resp = Some (ReUpdate True v) \<and> took rd w2 w3 k (Some v) \<or> (\<exists>msg leader. resp = Some (ReError msg leader))"
          using run e r s view(2) False wr by (cases s) (auto simp: KvUpdate process_op_def lin kv_error_defs)
        then show ?thesis unfolding w' KvUpdate reply_sound_def kv_op.case using extends_trans[OF w2 w3] w3 view(1) False by metis
      qed
    next
      case False
      then show ?thesis using run w1 w2 r
        by (cases q; cases r) (auto simp: KvUpdate process_op_def lin reply_sound_def kv_error_defs)
    qed
  next
    case (KvDelete k)
    obtain w2 r where r: "contains_key (with_kv_data rd g) k w1 = (w2, r)" by fastforce
    obtain w3 s where s: "kg_client_write g (ReqDelete k) w2 = (w3, s)" by fastforce
    note w2 = looked[OF r] and w3 = kv_hostD(4)[OF host s]
    have wr: "s = Inr x \<Longrightarrow> took rd w2 w3 k None" for x
      using host_write(2)[OF host _ refl] s by simp
    show ?thesis
    proof (cases "\<exists>u e. q = Inr u \<and> r = Inr e")
      case True
      then obtain e where e: "q = Inr ()" "r = Inr e" by auto
      obtain view where view: "seen rd w w2 view" "e = (view k \<noteq> None)" using look r[unfolded e(2)] by blast
      show ?thesis
      proof (cases "view k = None")
        case True
        then have "w' = w2" "resp = Some (ReDelete False)" using run e r view(2) by (auto simp: KvDelete process_op_def lin)
        then show ?thesis unfolding KvDelete reply_sound_def kv_op.case using w2 True view(1) extends_refl by metis
      next
        case False
        have w': "w' = w3" using run e r s view(2) False by (cases s) (auto simp: KvDelete process_op_def lin)
        have "resp = Some (ReDelete True) \<and> took rd w2 w3 k None \<or> (\<exists>msg leader. resp = Some (ReError msg leader))"
          using run e r s view(2) False wr by (cases s) (auto simp: KvDelete process_op_def lin kv_error_defs)
        then show ?thesis unfolding w' KvDelete reply_sound_def kv_op.case using extends_trans[OF w2 w3] w3 view(1) False by metis
      qed
    next
      case False
      then show ?thesis using run w1 w2 r
        by (cases q; cases r) (auto simp: KvDelete process_op_def lin reply_sound_def kv_error_defs)
    qed
  next
    case (KvListPrefix pre)
    obtain w2 r where r: "reading rd (\<lambda>p oc. kv_entries_with_prefix p oc pre) w1 = (w2, r)" by fastforce
    have w2: "extends (rd_primary rd w) (rd_primary rd w2)" using extends_trans[OF w1 reading_extends[OF host r]] .
    show ?thesis
    proof (cases "\<exists>u es. q = Inr u \<and> r = Inr es")
      case True
      then obtain es where es: "q = Inr ()" "r = Inr es" by auto
      have "\<exists>view. seen rd w w2 view \<and> lists_prefix view pre es"
        using host_list[OF host r[unfolded es(2)]] seenI[OF w1] by blast
      moreover have "w' = w2" "resp = Some (ReListPrefix es)"
        using run es r by (auto simp: KvListPrefix process_op_def lin)
      ultimately show ?thesis using w2 by (auto simp: KvListPrefix reply_sound_def)
    next
      case False
      then show ?thesis using run w1 w2 r
        by (cases q; cases r) (auto simp: KvListPrefix process_op_def lin reply_sound_def kv_error_defs)
    qed
  qed
qed

section \<open>Replies and targets\<close>

definition reply_fits :: "kv_op \<Rightarrow> raft_kv_response \<Rightarrow> bool" where
  "reply_fits cmd resp \<longleftrightarrow> (case resp of
      None \<Rightarrow> False
    | Some (ReError _ _) \<Rightarrow> True
    | Some (ReGet found v) \<Rightarrow> (\<exists>k. cmd = KvGet k) \<and> (found \<or> v = [])
    | Some (ReSet ok v) \<Rightarrow> (\<exists>k x. cmd = KvSet k x) \<and> ok
    | Some (ReUpdate ok v) \<Rightarrow> (\<exists>k x. cmd = KvUpdate k x) \<and> (ok \<or> v = [])
    | Some (ReDelete ok) \<Rightarrow> (\<exists>k. cmd = KvDelete k)
    | Some (ReListPrefix es) \<Rightarrow> (\<exists>p. cmd = KvListPrefix p))"

lemma reply_fits_error [simp]:
  "reply_fits cmd (kv_error_response m)" "reply_fits cmd (kv_error_response_with_leader m l)"
  by (simp_all add: kv_error_defs reply_fits_def)

lemma process_op_fits: "reply_fits cmd (snd (process_op g cmd w))"
  by (cases cmd)
     (auto simp: process_op_def reply_fits_def kv_error_defs split: prod.split sum.split option.split)

lemma process_kv_request_fits: "kr_op req = Some cmd \<Longrightarrow> reply_fits cmd (snd (process_kv_request g req w))"
  by (simp add: process_kv_request_def process_op_fits split: option.split)

lemma handle_kv_fits: "kr_op req = Some cmd \<Longrightarrow> reply_fits cmd (snd (handle_kv registry req w))"
  by (simp add: handle_kv_def process_kv_request_fits split: option.split)

text \<open>Every peer that answers runs \<open>handle_kv\<close> on its own groups.\<close>

definition peers_serve :: "'w app_state \<Rightarrow> bool" where
  "peers_serve st \<longleftrightarrow> (\<forall>peer req w w' resp. as_request st peer req w = (w', Inr resp) \<longrightarrow>
     (\<exists>registry (v :: 'w). resp = snd (handle_kv registry req v)))"

lemma send_kv_request_fits:
  fixes st :: "'w app_state"
  assumes "peers_serve st" "kr_op req = Some cmd" "send_kv_request st g t req w = (w', Inr (n, resp))"
  shows "reply_fits cmd resp"
proof (cases "resolve_kv_target st g t w")
  case (Inr target)
  show ?thesis
  proof (cases target)
    case (LocalTarget i)
    then obtain grp where "process_kv_request grp req w = (w', resp)"
      using Inr assms(3) by (auto simp: send_kv_request_def split: option.splits prod.splits)
    then show ?thesis using process_kv_request_fits[OF assms(2), of grp w] by simp
  next
    case (RemoteTarget i peer addr)
    then obtain w1 where "as_request st peer req w1 = (w', Inr resp)"
      using Inr assms(3) by (auto simp: send_kv_request_def split: prod.splits sum.splits)
    then obtain registry and v :: 'w where "resp = snd (handle_kv registry req v)"
      using assms(1) unfolding peers_serve_def by blast
    then show ?thesis using handle_kv_fits[OF assms(2)] by simp
  qed
qed (use assms(3) in \<open>simp add: send_kv_request_def\<close>)

lemma find_node_Some: "find_node p ns = Some n \<Longrightarrow> n \<in> set ns \<and> p (fst n)"
  by (induction ns) (auto split: if_splits)

lemma find_node_None: "find_node p ns = None \<longleftrightarrow> (\<forall>n \<in> set ns. \<not> p (fst n))"
  by (induction ns) auto

text \<open>A remote target is a known node; it is the node asked for or the leader when that is another
  node, and it is this node itself only if no other node is known.\<close>

lemma remote_target_known:
  assumes "resolve_kv_target st g t w = Inr (RemoteTarget i peer addr)"
  shows "(i, peer, addr) \<in> set (as_known_nodes st w) \<and> as_registry st g \<noteq> None \<and>
    (\<forall>grp. as_registry st g = Some grp \<longrightarrow> \<not> kg_is_leader grp w \<and>
       (\<forall>x. or_else t (kg_current_leader grp w) = Some x \<longrightarrow> i = x \<and> x \<noteq> as_node_id st)) \<and>
    (i = as_node_id st \<longrightarrow> (\<forall>n \<in> set (as_known_nodes st w). fst n = as_node_id st))"
proof -
  obtain grp where grp: "as_registry st g = Some grp" using assms by (auto simp: resolve_kv_target_def split: option.splits)
  let ?c = "or_else t (kg_current_leader grp w)"
  have nl: "\<not> kg_is_leader grp w" "?c \<noteq> Some (as_node_id st)" "as_known_nodes st w \<noteq> []"
    using assms grp by (auto simp: resolve_kv_target_def Let_def split: if_splits)
  obtain n where n: "find_node (\<lambda>i. i = n) (as_known_nodes st w) = Some (i, peer, addr)"
    and choice: "or_else (or_else (case ?c of None \<Rightarrow> None | Some i \<Rightarrow> if i \<noteq> as_node_id st then Some i else None)
        (map_option fst (find_node (\<lambda>i. i \<noteq> as_node_id st) (as_known_nodes st w))))
        (case as_known_nodes st w of [] \<Rightarrow> None | n # _ \<Rightarrow> Some (fst n)) = Some n"
    using assms grp nl
    by (auto simp: resolve_kv_target_def Let_def split: if_splits option.splits prod.splits)
  have i: "(i, peer, addr) \<in> set (as_known_nodes st w)" "n = i" using find_node_Some[OF n] by auto
  show ?thesis
  proof (cases ?c)
    case None
    then have "i = as_node_id st \<Longrightarrow> find_node (\<lambda>i. i \<noteq> as_node_id st) (as_known_nodes st w) = None"
      using choice i(2) by (auto simp: or_else_def dest: find_node_Some split: option.splits)
    then show ?thesis using i grp nl None by (auto simp: find_node_None)
  next
    case (Some x)
    then have "x = i" "x \<noteq> as_node_id st" using choice i(2) nl by (auto simp: or_else_def)
    then show ?thesis using i grp nl Some by auto
  qed
qed

end
