(* ===== verification/SqliteFlush.thy ===== *)
theory SqliteFlush
  imports KvService
begin

text \<open>
  The write-behind cache: \<open>sqlite_cache.rs\<close>, \<open>sqlite_sync_rpc.rs\<close> and the cache handlers of
  \<open>http/kv.rs\<close>. A value is written to Redis and its key recorded as pending in the raft group; the
  leader's flush hands the pending keys to followers, which copy the values from Redis to their SQLite
  file, and deletes the pending keys that they report as copied. Redis, SQLite, libp2p and xxh3 are
  arguments. The lemmas give the assignment of the keys, the effect of a follower's loop, and that no
  acknowledged write is lost as long as writes and flushes do not overlap.
\<close>

section \<open>Keys and tasks\<close>

definition PENDING_KEY_PREFIX :: string where "PENDING_KEY_PREFIX = ''__sqlite_pending__:''"

definition pending_key :: "string \<Rightarrow> string" where
  "pending_key key = PENDING_KEY_PREFIX @ key"

definition pending_data_key :: "string \<Rightarrow> string option" where
  "pending_data_key openraft_key = strip_prefix PENDING_KEY_PREFIX openraft_key"

definition redis_key :: "string \<Rightarrow> string" where
  "redis_key key = ''sqlite_cache:'' @ key"

record flush_task =
  ft_openraft_key :: string
  ft_data_key :: string

record flush_error =
  fl_openraft_key :: "string option"
  fl_data_key :: "string option"
  fl_message :: string

record flush_report =
  fr_synced :: "string list"
  fr_missing :: "string list"
  fr_errors :: "flush_error list"
  fr_service_error :: "string option"

definition report_default :: flush_report where
  "report_default = \<lparr>fr_synced = [], fr_missing = [], fr_errors = [], fr_service_error = None\<rparr>"

definition report_service_error :: "string \<Rightarrow> flush_report" where
  "report_service_error message = report_default\<lparr>fr_service_error := Some message\<rparr>"

definition task_error :: "flush_task \<Rightarrow> string \<Rightarrow> flush_error" where
  "task_error t message = \<lparr>fl_openraft_key = Some (ft_openraft_key t), fl_data_key = Some (ft_data_key t), fl_message = message\<rparr>"

definition pending_flush_tasks :: "(string \<times> string) list \<Rightarrow> flush_task list" where
  "pending_flush_tasks entries = List.map_filter (\<lambda>(openraft_key, _).
     case pending_data_key openraft_key of None \<Rightarrow> None
     | Some data_key \<Rightarrow> Some \<lparr>ft_openraft_key = openraft_key, ft_data_key = data_key\<rparr>) entries"

definition sqlite_sync_executor_ids :: "string \<Rightarrow> string option \<Rightarrow> string \<Rightarrow> string list \<Rightarrow> string list" where
  "sqlite_sync_executor_ids local_node_id current_leader own_id nodes =
     (let leader_id = (case current_leader of None \<Rightarrow> own_id | Some l \<Rightarrow> l) in
      sort (filter (\<lambda>n. n \<noteq> leader_id \<and> n \<noteq> local_node_id) nodes))"

text \<open>The map from followers to tasks, a \<open>BTreeMap\<close>; \<open>hash\<close> is xxh3.\<close>

definition assign_task :: "(string \<Rightarrow> u64) \<Rightarrow> string list \<Rightarrow> (string, flush_task list) cf \<Rightarrow> flush_task \<Rightarrow> (string, flush_task list) cf" where
  "assign_task hash followers m t =
     (let node = followers ! (unat (hash (ft_data_key t)) mod length followers);
          tasks = (case cf_get m node of None \<Rightarrow> [] | Some ts \<Rightarrow> ts)
      in cf_put m node (tasks @ [t]))"

definition assign_tasks_to_followers ::
  "(string \<Rightarrow> u64) \<Rightarrow> flush_task list \<Rightarrow> string list \<Rightarrow> (string, flush_task list) cf" where
  "assign_tasks_to_followers hash tasks followers =
     (if followers = [] then [] else foldl (assign_task hash followers) [] tasks)"

section \<open>The follower\<close>

datatype server_state = Leader | Candidate | Follower | Learner | Shutdown

definition show_server_state :: "server_state \<Rightarrow> string" where
  "show_server_state s = (case s of Leader \<Rightarrow> ''Leader'' | Candidate \<Rightarrow> ''Candidate'' | Follower \<Rightarrow> ''Follower''
     | Learner \<Rightarrow> ''Learner'' | Shutdown \<Rightarrow> ''Shutdown'')"

text \<open>The loop over the tasks; \<open>redis\<close> answers a read, \<open>upsert\<close> is the error of writing a row, if any.\<close>

fun flush_loop ::
  "(string \<Rightarrow> string option result) \<Rightarrow> (string \<Rightarrow> string option) \<Rightarrow> flush_task list \<Rightarrow> (string \<rightharpoonup> string) \<Rightarrow>
   flush_report \<Rightarrow> (string \<rightharpoonup> string) \<times> flush_report" where
  "flush_loop redis upsert [] rows report = (rows, report)"
| "flush_loop redis upsert (t # ts) rows report =
     (case redis (ft_data_key t) of
        Inr (Some v) \<Rightarrow>
          (case upsert (ft_data_key t) of
             Some e \<Rightarrow> flush_loop redis upsert ts rows (report\<lparr>fr_errors := fr_errors report @ [task_error t e]\<rparr>)
           | None \<Rightarrow> flush_loop redis upsert ts (rows(ft_data_key t \<mapsto> v))
               (report\<lparr>fr_synced := fr_synced report @ [ft_openraft_key t]\<rparr>))
      | Inr None \<Rightarrow> flush_loop redis upsert ts rows (report\<lparr>fr_missing := fr_missing report @ [ft_data_key t]\<rparr>)
      | Inl e \<Rightarrow> flush_loop redis upsert ts rows (report\<lparr>fr_errors := fr_errors report @ [task_error t e]\<rparr>))"

definition execute_follower_flush ::
  "bool \<Rightarrow> server_state option \<Rightarrow> (string \<Rightarrow> string option result) \<Rightarrow> (string \<Rightarrow> string option) \<Rightarrow> string \<Rightarrow>
   flush_task list \<Rightarrow> (string \<rightharpoonup> string) \<Rightarrow> (string \<rightharpoonup> string) \<times> flush_report" where
  "execute_follower_flush cache_enabled grp redis upsert group_id tasks rows =
     (if \<not> cache_enabled then (rows, report_service_error ''sqlite cache is disabled on this node'')
      else case grp of
        None \<Rightarrow> (rows, report_service_error (''openraft group '' @ group_id @ '' is not enabled on this node''))
      | Some state \<Rightarrow>
          if state = Leader
          then (rows, report_service_error ''sqlite sync execution must run on an openraft follower or learner'')
          else if \<not> (state = Follower \<or> state = Learner)
          then (rows, report_service_error (''openraft node is not ready for sqlite sync: state='' @ show_server_state state))
          else flush_loop redis upsert tasks rows report_default)"

section \<open>Pending keys\<close>

text \<open>What the flush asks of other code: the group registry, openraft's metrics, the sync call of
  libp2p (a network error, the error of the call, or the report) and the client of the KV service.\<close>

record 'w flush_env =
  fe_registry :: "string \<Rightarrow> 'w kv_group option"
  fe_own_id :: "'w \<Rightarrow> string"
  fe_nodes :: "'w \<Rightarrow> string list"
  fe_node_addr :: "'w \<Rightarrow> string \<Rightarrow> string option"
  fe_parse :: "string \<Rightarrow> multiaddr option"
  fe_hash :: "string \<Rightarrow> u64"
  fe_connect :: "string \<Rightarrow> multiaddr \<Rightarrow> 'w \<Rightarrow> 'w \<times> unit result"
  fe_request :: "string \<Rightarrow> raft_kv_request \<Rightarrow> 'w \<Rightarrow> 'w \<times> raft_kv_response result"
  fe_sync :: "string \<Rightarrow> string \<Rightarrow> flush_task list \<Rightarrow> 'w \<Rightarrow> 'w \<times> (flush_report result) result"
  fe_redis_set :: "string \<Rightarrow> string \<Rightarrow> 'w \<Rightarrow> 'w \<times> unit result"
  fe_debug :: "raft_kv_response \<Rightarrow> string"

definition submit_local_pending_key_request ::
  "'w kv_group \<Rightarrow> raft_kv_request \<Rightarrow> 'w \<Rightarrow> 'w \<times> raft_kv_response result" where
  "submit_local_pending_key_request g req w = (case kr_op req of
      None \<Rightarrow> (w, Inl ''missing pending-key request op'')
    | Some (KvSet key v) \<Rightarrow> (case kg_client_write g (ReqSet key v) w of
          (w1, Inr resp) \<Rightarrow> (w1, Inr (Some (ReSet True (or_value (rs_value resp) v))))
        | (w1, Inl err) \<Rightarrow> (w1, Inl err))
    | Some (KvDelete key) \<Rightarrow> (case kg_client_write g (ReqDelete key) w of
          (w1, Inr _) \<Rightarrow> (w1, Inr (Some (ReDelete True)))
        | (w1, Inl err) \<Rightarrow> (w1, Inl err))
    | Some _ \<Rightarrow> (w, Inl (''unsupported pending-key request op for group_id='' @ kr_group_id req)))"

definition submit_pending_key_request ::
  "'w flush_env \<Rightarrow> string \<Rightarrow> 'w kv_group \<Rightarrow> raft_kv_request \<Rightarrow> 'w \<Rightarrow> 'w \<times> (string \<times> raft_kv_response) result" where
  "submit_pending_key_request env group_id g req0 w =
     (let req = req0\<lparr>kr_group_id := group_id\<rparr> in
      if kg_is_leader g w then
        (case submit_local_pending_key_request g req w of
           (w1, Inr resp) \<Rightarrow> (w1, Inr (fe_own_id env w, resp))
         | (w1, Inl err) \<Rightarrow> (w1, Inl err))
      else case kg_current_leader g w of
        None \<Rightarrow> (w, Inl ''no leader available'')
      | Some leader_id \<Rightarrow> (case fe_node_addr env w leader_id of
          None \<Rightarrow> (w, Inl ''leader node not found in membership'')
        | Some a \<Rightarrow> (case with_context (''parse leader address for node_id='' @ leader_id) (parse_p2p_addr (fe_parse env) a) of
            Inl err \<Rightarrow> (w, Inl err)
          | Inr (peer, addr) \<Rightarrow> (case fe_connect env peer addr w of
              (w1, Inl err) \<Rightarrow> (w1, Inl (''connect to leader failed: '' @ err))
            | (w1, Inr _) \<Rightarrow> (case fe_request env peer req w1 of
                (w2, Inl err) \<Rightarrow> (w2, Inl (''forward pending key to leader failed: '' @ err))
              | (w2, Inr resp) \<Rightarrow> (w2, Inr (leader_id, resp)))))))"

definition record_pending_key ::
  "'w flush_env \<Rightarrow> string \<Rightarrow> 'w kv_group \<Rightarrow> string \<Rightarrow> 'w \<Rightarrow> 'w \<times> string result" where
  "record_pending_key env group_id g data_key w =
     (case submit_pending_key_request env group_id g
         \<lparr>kr_group_id = [], kr_op = Some (KvSet (pending_key data_key) ''1'')\<rparr> w of
        (w1, Inl err) \<Rightarrow> (w1, Inl err)
      | (w1, Inr (target, resp)) \<Rightarrow> (w1, case resp of
            Some (ReSet True _) \<Rightarrow> Inr target
          | Some (ReError message _) \<Rightarrow> Inl message
          | other \<Rightarrow> Inl (''unexpected raft kv pending-key response: '' @ fe_debug env other)))"

definition delete_pending_key ::
  "'w flush_env \<Rightarrow> string \<Rightarrow> 'w kv_group \<Rightarrow> string \<Rightarrow> 'w \<Rightarrow> 'w \<times> unit result" where
  "delete_pending_key env group_id g openraft_key w =
     (case submit_pending_key_request env group_id g
         \<lparr>kr_group_id = group_id, kr_op = Some (KvDelete openraft_key)\<rparr> w of
        (w1, Inl err) \<Rightarrow> (w1, Inl err)
      | (w1, Inr (_, resp)) \<Rightarrow> (w1, case resp of
            Some (ReDelete _) \<Rightarrow> Inr ()
          | Some (ReError message _) \<Rightarrow> Inl message
          | other \<Rightarrow> Inl (''unexpected raft kv pending-key delete response: '' @ fe_debug env other)))"

section \<open>The leader's flush\<close>

definition handle_sqlite_flush_report ::
  "'w flush_env \<Rightarrow> string \<Rightarrow> 'w kv_group \<Rightarrow> flush_report \<Rightarrow> 'w \<Rightarrow> 'w" where
  "handle_sqlite_flush_report env group_id g report w =
     (if fr_service_error report \<noteq> None then w
      else foldl (\<lambda>w key. fst (delete_pending_key env group_id g key w)) w (fr_synced report))"

fun flush_assignments ::
  "'w flush_env \<Rightarrow> string \<Rightarrow> 'w kv_group \<Rightarrow> (string \<times> flush_task list) list \<Rightarrow> 'w \<Rightarrow> 'w \<times> unit result" where
  "flush_assignments env group_id g [] w = (w, Inr ())"
| "flush_assignments env group_id g ((node_id, tasks) # rest) w = (case fe_sync env node_id group_id tasks w of
      (w1, Inl _) \<Rightarrow> flush_assignments env group_id g rest w1
    | (w1, Inr (Inl err)) \<Rightarrow> (w1, Inl (''sqlite sync rpc failed: '' @ err))
    | (w1, Inr (Inr report)) \<Rightarrow>
        flush_assignments env group_id g rest (handle_sqlite_flush_report env group_id g report w1))"

definition flush_once :: "'w flush_env \<Rightarrow> string \<Rightarrow> string \<Rightarrow> 'w \<Rightarrow> 'w \<times> unit result" where
  "flush_once env local_node_id group_id w = (case fe_registry env group_id of
      None \<Rightarrow> (w, Inr ())
    | Some g \<Rightarrow>
        if \<not> kg_is_leader g w then (w, Inr ())
        else (case ensure_linearizable_read g w of
            (w1, Inl err) \<Rightarrow> (w1, Inl (read_error_text err))
          | (w1, Inr _) \<Rightarrow> (case kg_entries g w1 of
              (w2, Inl err) \<Rightarrow> (w2, Inl err)
            | (w2, Inr entries) \<Rightarrow>
                let tasks = pending_flush_tasks entries;
                    followers = sqlite_sync_executor_ids local_node_id (kg_current_leader g w) (fe_own_id env w) (fe_nodes env w) in
                if tasks = [] then (w2, Inr ())
                else if followers = [] then (w2, Inr ())
                else flush_assignments env group_id g (assign_tasks_to_followers (fe_hash env) tasks followers) w2)))"

section \<open>The cache handlers\<close>

record cache_write_response =
  cw_target_node_id :: "string option"
  cw_ok :: bool
  cw_pending_key :: "string option"
  cw_error :: "string option"

definition cache_refused :: "string option \<Rightarrow> string option \<Rightarrow> string \<Rightarrow> cache_write_response" where
  "cache_refused target pending err =
     \<lparr>cw_target_node_id = target, cw_ok = False, cw_pending_key = pending, cw_error = Some err\<rparr>"

definition cache_written :: "string \<Rightarrow> string \<Rightarrow> cache_write_response" where
  "cache_written target pending =
     \<lparr>cw_target_node_id = Some target, cw_ok = True, cw_pending_key = Some pending, cw_error = None\<rparr>"

definition write_redis :: "'w flush_env \<Rightarrow> string \<Rightarrow> string \<Rightarrow> 'w \<Rightarrow> 'w \<times> unit result" where
  "write_redis env key v w = (case fe_redis_set env (redis_key key) v w of
      (w1, r) \<Rightarrow> (w1, with_context (''write redis cache key='' @ key) r))"

definition write_cached_value ::
  "'w app_state \<Rightarrow> 'w flush_env \<Rightarrow> bool \<Rightarrow> write_value_request \<Rightarrow> 'w \<Rightarrow> 'w \<times> cache_write_response" where
  "write_cached_value st env cache_enabled req w =
     (if \<not> cache_enabled then (w, cache_refused None None ''sqlite cache is disabled'')
      else case resolve_group_id st (wq_group_id req) of
        Inl err \<Rightarrow> (w, cache_refused None None err)
      | Inr group_id \<Rightarrow> (case write_redis env (wq_key req) (wq_value req) w of
          (w1, Inl err) \<Rightarrow> (w1, cache_refused None None err)
        | (w1, Inr _) \<Rightarrow>
            let openraft_key = pending_key (wq_key req) in
            (case as_registry st group_id of
               None \<Rightarrow> (w1, cache_refused None (Some openraft_key) (''unknown group_id='' @ group_id))
             | Some g \<Rightarrow>
                 if wq_target_node_id req \<noteq> None then
                   (case send_kv_request st group_id (wq_target_node_id req)
                       \<lparr>kr_group_id = group_id, kr_op = Some (KvSet openraft_key ''1'')\<rparr> w1 of
                      (w2, Inl err) \<Rightarrow> (w2, cache_refused None (Some openraft_key) err)
                    | (w2, Inr (node_id, resp)) \<Rightarrow> (w2, case resp of
                          Some (ReSet True _) \<Rightarrow> cache_written node_id openraft_key
                        | Some (ReError message _) \<Rightarrow> cache_refused (Some node_id) (Some openraft_key) message
                        | other \<Rightarrow> cache_refused (Some node_id) (Some openraft_key) (unexpected st other)))
                 else (case record_pending_key env group_id g (wq_key req) w1 of
                      (w2, Inr target) \<Rightarrow> (w2, cache_written target openraft_key)
                    | (w2, Inl err) \<Rightarrow> (w2, cache_refused None (Some openraft_key) err)))))"

text \<open>\<open>read_cached\<close>: Redis first, the row in SQLite otherwise.\<close>

definition read_cached :: "string option result \<Rightarrow> string option result \<Rightarrow> string option result" where
  "read_cached redis row = rbind redis (\<lambda>v. if v \<noteq> None then Inr v else row)"

section \<open>Keys and assignments\<close>

lemma pending_key_inject [simp]: "pending_key a = pending_key b \<longleftrightarrow> a = b"
  by (simp add: pending_key_def)

lemma pending_data_key_iff: "pending_data_key s = Some k \<longleftrightarrow> s = pending_key k"
  by (auto simp: pending_data_key_def pending_key_def strip_prefix_iff)

lemma in_map_filter: "y \<in> set (List.map_filter f xs) \<longleftrightarrow> (\<exists>x \<in> set xs. f x = Some y)"
  by (force simp: List.map_filter_def)

lemma pending_flush_tasks_set:
  "t \<in> set (pending_flush_tasks es) \<longleftrightarrow>
     ft_openraft_key t = pending_key (ft_data_key t) \<and> ft_openraft_key t \<in> fst ` set es"
proof -
  have "(case pending_data_key s of None \<Rightarrow> None | Some k \<Rightarrow> Some \<lparr>ft_openraft_key = s, ft_data_key = k\<rparr>) = Some t \<longleftrightarrow>
      s = ft_openraft_key t \<and> pending_data_key s = Some (ft_data_key t)" for s
    by (cases t) (auto split: option.splits)
  then show ?thesis
    unfolding pending_flush_tasks_def in_map_filter pending_data_key_iff by (force simp: split_beta)
qed

definition node_of :: "(string \<Rightarrow> u64) \<Rightarrow> string list \<Rightarrow> flush_task \<Rightarrow> string" where
  "node_of hash followers t = followers ! (unat (hash (ft_data_key t)) mod length followers)"

lemma assign_fold:
  assumes "cf_ok m"
  shows "cf_ok (foldl (assign_task hash fs) m ts) \<and>
    (case cf_get (foldl (assign_task hash fs) m ts) n of None \<Rightarrow> [] | Some xs \<Rightarrow> xs) =
      (case cf_get m n of None \<Rightarrow> [] | Some xs \<Rightarrow> xs) @ filter (\<lambda>t. node_of hash fs t = n) ts"
  using assms
proof (induction ts arbitrary: m)
  case (Cons t ts)
  have "cf_ok (assign_task hash fs m t)" using Cons.prems by (simp add: assign_task_def Let_def cf_ok_put)
  with Cons.IH[of "assign_task hash fs m t"] show ?case
    by (auto simp: assign_task_def Let_def cf_get_put node_of_def)
qed simp

text \<open>Every task goes to the follower its hash selects, in order, and no other task does.\<close>

lemma assign_exact:
  assumes "fs \<noteq> []"
  shows "cf_ok (assign_tasks_to_followers hash ts fs)"
    and "(case cf_get (assign_tasks_to_followers hash ts fs) n of None \<Rightarrow> [] | Some xs \<Rightarrow> xs) =
      filter (\<lambda>t. node_of hash fs t = n) ts"
    and "n \<in> dom (cf_get (assign_tasks_to_followers hash ts fs)) \<Longrightarrow> n \<in> set fs"
proof -
  show "cf_ok (assign_tasks_to_followers hash ts fs)"
    "(case cf_get (assign_tasks_to_followers hash ts fs) n of None \<Rightarrow> [] | Some xs \<Rightarrow> xs) =
      filter (\<lambda>t. node_of hash fs t = n) ts"
    using assign_fold[of "[]" hash fs ts n] assms by (simp_all add: assign_tasks_to_followers_def)
  have "dom (cf_get (foldl (assign_task hash fs) m ts)) \<subseteq> dom (cf_get m) \<union> set fs" for m
  proof (induction ts arbitrary: m)
    case (Cons t ts)
    have "dom (cf_get (assign_task hash fs m t)) \<subseteq> dom (cf_get m) \<union> set fs"
      using assms by (auto simp: assign_task_def Let_def cf_get_put)
    with Cons[of "assign_task hash fs m t"] show ?case by auto
  qed simp
  then show "n \<in> dom (cf_get (assign_tasks_to_followers hash ts fs)) \<Longrightarrow> n \<in> set fs"
    using assms by (fastforce simp: assign_tasks_to_followers_def)
qed

section \<open>What a follower does\<close>

text \<open>Rows are only ever set to the value read from Redis, and a key is reported as synced only when its row was set.\<close>

lemma flush_loop_effect:
  assumes "flush_loop redis upsert ts rows rep = (rows', rep')"
    and "\<And>t. t \<in> set ts \<Longrightarrow> ft_openraft_key t = pending_key (ft_data_key t)"
  shows "(\<forall>k. rows' k = rows k \<or> (\<exists>v. redis k = Inr (Some v) \<and> rows' k = Some v)) \<and>
    (\<forall>s \<in> set (fr_synced rep') - set (fr_synced rep). \<exists>k v. s = pending_key k \<and> redis k = Inr (Some v) \<and> rows' k = Some v) \<and>
    set (fr_synced rep) \<subseteq> set (fr_synced rep') \<and> fr_service_error rep' = fr_service_error rep"
  using assms
proof (induction ts arbitrary: rows rep)
  case (Cons t ts)
  let ?k = "ft_data_key t"
  have tk: "ft_openraft_key t = pending_key ?k" using Cons.prems(2) by simp
  consider (set) v where "redis ?k = Inr (Some v)" "upsert ?k = None"
    | (skip) rep1 where "flush_loop redis upsert ts rows rep1 = (rows', rep')" "fr_synced rep1 = fr_synced rep"
        "fr_service_error rep1 = fr_service_error rep"
    using Cons.prems(1) by (auto split: sum.splits option.splits)
  then show ?case
  proof cases
    case set
    let ?rep = "rep\<lparr>fr_synced := fr_synced rep @ [ft_openraft_key t]\<rparr>"
    have run: "flush_loop redis upsert ts (rows(?k \<mapsto> v)) ?rep = (rows', rep')"
      using Cons.prems(1) set by simp
    note ih = Cons.IH[OF run]
    have ih': "(\<forall>k. rows' k = (rows(?k \<mapsto> v)) k \<or> (\<exists>v. redis k = Inr (Some v) \<and> rows' k = Some v)) \<and>
        (\<forall>s \<in> set (fr_synced rep') - set (fr_synced ?rep). \<exists>k v. s = pending_key k \<and> redis k = Inr (Some v) \<and> rows' k = Some v) \<and>
        set (fr_synced ?rep) \<subseteq> set (fr_synced rep') \<and> fr_service_error rep' = fr_service_error ?rep"
      using ih Cons.prems(2) by simp
    have row: "rows' ?k = Some v"
      using ih'[THEN conjunct1, rule_format, of ?k] set(1) by auto
    have "rows' k = rows k \<or> (\<exists>v. redis k = Inr (Some v) \<and> rows' k = Some v)" for k
      using ih'[THEN conjunct1, rule_format, of k] row set(1) by (cases "k = ?k") auto
    moreover have "\<exists>k v. s = pending_key k \<and> redis k = Inr (Some v) \<and> rows' k = Some v"
      if "s \<in> set (fr_synced rep') - set (fr_synced rep)" for s
    proof (cases "s = ft_openraft_key t")
      case True
      then show ?thesis using tk row set(1) by blast
    next
      case False
      then have "s \<in> set (fr_synced rep') - set (fr_synced ?rep)" using that by simp
      then show ?thesis using ih' by blast
    qed
    ultimately show ?thesis using ih' by simp
  next
    case skip
    then show ?thesis using Cons.IH[OF skip(1)] Cons.prems(2) by auto
  qed
qed auto

section \<open>Writes and flushes one after the other\<close>

text \<open>What the parts outside promise, with the state machine, the Redis store and the rows of every
  node as functions of the world: the calls of the group leave Redis and SQLite alone, a write to
  Redis writes its key or fails, a sync call runs the follower's function on the rows of its node
  and Redis as it is, or does nothing.\<close>

definition cache_kept :: "'w kv_group \<Rightarrow> ('w \<Rightarrow> 'x) \<Rightarrow> bool" where
  "cache_kept g f \<longleftrightarrow> probes_keep g f \<and> (\<forall>w. f (fst (kg_entries g w)) = f w) \<and>
     (\<forall>req w. f (fst (kg_client_write g req w)) = f w)"

definition flush_world ::
  "codec \<Rightarrow> ('i, 'm, 'sm) sm_api \<Rightarrow> 'w flush_env \<Rightarrow> string \<Rightarrow> 'w kv_group \<Rightarrow> ('w \<Rightarrow> rocks_sm) \<Rightarrow>
   ('w \<Rightarrow> string \<rightharpoonup> string) \<Rightarrow> ('w \<Rightarrow> string \<Rightarrow> string \<rightharpoonup> string) \<Rightarrow> bool" where
  "flush_world c a env gid g sm redis rows \<longleftrightarrow>
     kv_leader c a g sm \<and> cache_kept g redis \<and> cache_kept g rows \<and> fe_registry env gid = Some g \<and>
     (\<forall>w. sm (fst (kg_entries g w)) = sm w) \<and>
     (\<forall>k v w w' r. fe_redis_set env k v w = (w', r) \<longrightarrow> sm w' = sm w \<and> rows w' = rows w \<and>
        (redis w' = (redis w)(k \<mapsto> v) \<or> redis w' = redis w \<and> r \<noteq> Inr ())) \<and>
     (\<forall>n ts w w' r. fe_sync env n gid ts w = (w', r) \<longrightarrow> sm w' = sm w \<and> redis w' = redis w \<and>
        (\<exists>enabled grp rd up rep. (\<forall>k v. rd k = Inr v \<longrightarrow> v = redis w (redis_key k)) \<and>
           execute_follower_flush enabled grp rd up gid ts (rows w n) = (rows w' n, rep) \<and>
           (\<forall>m. m \<noteq> n \<longrightarrow> rows w' m = rows w m) \<and> (\<forall>rep'. r = Inr (Inr rep') \<longrightarrow> rep' = rep)))"

datatype cache_event = EvWrite write_value_request | EvFlush

text \<open>The state of a run: the world and the keys whose last write was acknowledged.\<close>

definition cache_step ::
  "'w app_state \<Rightarrow> 'w flush_env \<Rightarrow> string \<Rightarrow> string \<Rightarrow> 'w \<times> string set \<Rightarrow> cache_event \<Rightarrow> 'w \<times> string set" where
  "cache_step st env self gid s ev = (case ev of
      EvWrite req \<Rightarrow> (case write_cached_value st env True req (fst s) of (w', resp) \<Rightarrow>
        (w', if cw_ok resp then insert (wq_key req) (snd s) else snd s - {wq_key req}))
    | EvFlush \<Rightarrow> (fst (flush_once env self gid (fst s)), snd s))"

definition write_safe ::
  "('w \<Rightarrow> rocks_sm) \<Rightarrow> ('w \<Rightarrow> string \<rightharpoonup> string) \<Rightarrow> ('w \<Rightarrow> string \<Rightarrow> string \<rightharpoonup> string) \<Rightarrow> 'w \<Rightarrow> string \<Rightarrow> bool" where
  "write_safe sm redis rows w k \<longleftrightarrow> (\<forall>v. redis w (redis_key k) = Some v \<longrightarrow>
     sm_map (sm w) (pending_key k) \<noteq> None \<or> (\<exists>n. rows w n k = Some v))"

definition cache_inv ::
  "('w \<Rightarrow> rocks_sm) \<Rightarrow> ('w \<Rightarrow> string \<rightharpoonup> string) \<Rightarrow> ('w \<Rightarrow> string \<Rightarrow> string \<rightharpoonup> string) \<Rightarrow> 'w \<times> string set \<Rightarrow> bool" where
  "cache_inv sm redis rows s \<longleftrightarrow> cf_ok (sm_data (sm (fst s))) \<and> (\<forall>k \<in> snd s. write_safe sm redis rows (fst s) k)"

lemma redis_key_inject [simp]: "redis_key a = redis_key b \<longleftrightarrow> a = b"
  by (simp add: redis_key_def)

lemma flush_world_write:
  assumes "flush_world c a env gid g sm redis rows" "kg_client_write g req w = (w', r)"
  shows "redis w' = redis w" "rows w' = rows w"
  using assms unfolding flush_world_def cache_kept_def by (metis fst_conv)+

text \<open>A pending key that is set or deleted through the group of the leader.\<close>

lemma submit_leader:
  assumes "flush_world c a env gid g sm redis rows"
  shows "submit_pending_key_request env gid g req w =
    (case submit_local_pending_key_request g (req\<lparr>kr_group_id := gid\<rparr>) w of
       (w1, Inr resp) \<Rightarrow> (w1, Inr (fe_own_id env w, resp)) | (w1, Inl err) \<Rightarrow> (w1, Inl err))"
  using assms by (simp add: submit_pending_key_request_def flush_world_def leader_defs Let_def)

lemma record_pending_effect:
  assumes fw: "flush_world c a env gid g sm redis rows" and ok: "cf_ok (sm_data (sm w))"
    and run: "record_pending_key env gid g k w = (w', r)"
  shows "cf_ok (sm_data (sm w')) \<and> redis w' = redis w \<and> rows w' = rows w \<and>
    (sm_map (sm w') = (sm_map (sm w))(pending_key k \<mapsto> ''1'') \<or> sm_map (sm w') = sm_map (sm w) \<and> (\<exists>e. r = Inl e))"
proof -
  obtain w1 q where q: "kg_client_write g (ReqSet (pending_key k) ''1'') w = (w1, q)" by fastforce
  have l: "kv_leader c a g sm" using fw by (simp add: flush_world_def)
  show ?thesis
    using run leader_set[OF l q ok] flush_world_write[OF fw q]
    by (cases q) (auto simp: record_pending_key_def submit_leader[OF fw] submit_local_pending_key_request_def q)
qed

lemma delete_pending_effect:
  assumes fw: "flush_world c a env gid g sm redis rows" and ok: "cf_ok (sm_data (sm w))"
    and run: "delete_pending_key env gid g s w = (w', r)"
  shows "cf_ok (sm_data (sm w')) \<and> redis w' = redis w \<and> rows w' = rows w \<and>
    (sm_map (sm w') = (sm_map (sm w))(s := None) \<or> sm_map (sm w') = sm_map (sm w))"
proof -
  obtain w1 q where q: "kg_client_write g (ReqDelete s) w = (w1, q)" by fastforce
  have l: "kv_leader c a g sm" using fw by (simp add: flush_world_def)
  show ?thesis
    using run leader_delete[OF l q ok] flush_world_write[OF fw q]
    by (cases q) (auto simp: delete_pending_key_def submit_leader[OF fw] submit_local_pending_key_request_def q)
qed

lemma delete_all_effect:
  assumes fw: "flush_world c a env gid g sm redis rows" and ok: "cf_ok (sm_data (sm w))"
    and run: "w' = foldl (\<lambda>w s. fst (delete_pending_key env gid g s w)) w ss"
  shows "cf_ok (sm_data (sm w')) \<and> redis w' = redis w \<and> rows w' = rows w \<and>
    (\<forall>s. s \<notin> set ss \<longrightarrow> sm_map (sm w') s = sm_map (sm w) s)"
  using ok unfolding run
proof (induction ss arbitrary: w)
  case (Cons s ss)
  obtain w1 r where r: "delete_pending_key env gid g s w = (w1, r)" by fastforce
  from delete_pending_effect[OF fw Cons.prems r] Cons.IH[of w1] show ?case by (auto simp: r)
qed simp

section \<open>No acknowledged write is lost\<close>

lemma safe_mono:
  assumes "write_safe sm redis rows w k" "redis w' = redis w"
    and "sm_map (sm w) (pending_key k) \<noteq> None \<Longrightarrow> sm_map (sm w') (pending_key k) \<noteq> None \<or>
      (\<exists>n v. redis w (redis_key k) = Some v \<and> rows w' n k = Some v)"
    and "\<And>n. rows w' n k = rows w n k \<or> (\<exists>v. redis w (redis_key k) = Some v \<and> rows w' n k = Some v)"
  shows "write_safe sm redis rows w' k"
  using assms unfolding write_safe_def by (metis option.inject)

lemma flush_world_sync:
  assumes "flush_world c a env gid g sm redis rows" "fe_sync env n gid ts w = (w', r)"
  shows "sm w' = sm w" "redis w' = redis w"
    "\<exists>enabled grp rd up rep. (\<forall>k v. rd k = Inr v \<longrightarrow> v = redis w (redis_key k)) \<and>
       execute_follower_flush enabled grp rd up gid ts (rows w n) = (rows w' n, rep) \<and>
       (\<forall>m. m \<noteq> n \<longrightarrow> rows w' m = rows w m) \<and> (\<forall>rep'. r = Inr (Inr rep') \<longrightarrow> rep' = rep)"
proof -
  have "\<forall>n ts w w' r. fe_sync env n gid ts w = (w', r) \<longrightarrow> sm w' = sm w \<and> redis w' = redis w \<and>
        (\<exists>enabled grp rd up rep. (\<forall>k v. rd k = Inr v \<longrightarrow> v = redis w (redis_key k)) \<and>
           execute_follower_flush enabled grp rd up gid ts (rows w n) = (rows w' n, rep) \<and>
           (\<forall>m. m \<noteq> n \<longrightarrow> rows w' m = rows w m) \<and> (\<forall>rep'. r = Inr (Inr rep') \<longrightarrow> rep' = rep))"
    using assms(1) unfolding flush_world_def by (elim conjE)
  note effect = this[rule_format, OF assms(2)]
  show "sm w' = sm w" by (rule effect[THEN conjunct1])
  show "redis w' = redis w" by (rule effect[THEN conjunct2, THEN conjunct1])
  show "\<exists>enabled grp rd up rep. (\<forall>k v. rd k = Inr v \<longrightarrow> v = redis w (redis_key k)) \<and>
       execute_follower_flush enabled grp rd up gid ts (rows w n) = (rows w' n, rep) \<and>
       (\<forall>m. m \<noteq> n \<longrightarrow> rows w' m = rows w m) \<and> (\<forall>rep'. r = Inr (Inr rep') \<longrightarrow> rep' = rep)"
    by (rule effect[THEN conjunct2, THEN conjunct2])
qed

lemma sync_keeps:
  assumes fw: "flush_world c a env gid g sm redis rows" and inv: "cache_inv sm redis rows (w, A)"
    and sync: "fe_sync env n gid ts w = (w1, r)"
    and ts: "\<And>t. t \<in> set ts \<Longrightarrow> ft_openraft_key t = pending_key (ft_data_key t)"
  shows "cache_inv sm redis rows (w1, A)"
    and "r = Inr (Inr rep) \<Longrightarrow> cache_inv sm redis rows (handle_sqlite_flush_report env gid g rep w1, A)"
proof -
  note same = flush_world_sync(1,2)[OF fw sync]
  obtain enabled grp rd up rep0 where rd: "\<forall>k v. rd k = Inr v \<longrightarrow> v = redis w (redis_key k)"
    and run: "execute_follower_flush enabled grp rd up gid ts (rows w n) = (rows w1 n, rep0)"
    and others: "\<forall>m. m \<noteq> n \<longrightarrow> rows w1 m = rows w m" and rep0: "\<forall>rep'. r = Inr (Inr rep') \<longrightarrow> rep' = rep0"
    using flush_world_sync(3)[OF fw sync] by (elim exE conjE)
  have effect: "(\<forall>k. rows w1 n k = rows w n k \<or> (\<exists>v. redis w (redis_key k) = Some v \<and> rows w1 n k = Some v)) \<and>
      (\<forall>s \<in> set (fr_synced rep0). \<exists>k v. s = pending_key k \<and> redis w (redis_key k) = Some v \<and> rows w1 n k = Some v)"
  proof (cases "flush_loop rd up ts (rows w n) report_default = (rows w1 n, rep0)")
    case True
    then show ?thesis using flush_loop_effect[OF True ts] rd by (fastforce simp: report_default_def)
  next
    case False
    then have "rows w1 n = rows w n \<and> fr_synced rep0 = []"
      using run by (auto simp: execute_follower_flush_def report_service_error_def report_default_def
          split: if_splits option.splits)
    then show ?thesis by simp
  qed
  have rows: "rows w1 m k = rows w m k \<or> (\<exists>v. redis w (redis_key k) = Some v \<and> rows w1 m k = Some v)" for m k
    using effect others by (cases "m = n") auto
  have "write_safe sm redis rows w1 k" if "write_safe sm redis rows w k" for k
    by (rule safe_mono[OF that same(2)]) (use same(1) rows in auto)
  then show inv1: "cache_inv sm redis rows (w1, A)"
    using inv same(1) by (simp add: cache_inv_def)
  assume r: "r = Inr (Inr rep)"
  let ?w2 = "foldl (\<lambda>w s. fst (delete_pending_key env gid g s w)) w1 (fr_synced rep)"
  have del: "cf_ok (sm_data (sm ?w2)) \<and> redis ?w2 = redis w1 \<and> rows ?w2 = rows w1 \<and>
      (\<forall>s. s \<notin> set (fr_synced rep) \<longrightarrow> sm_map (sm ?w2) s = sm_map (sm w1) s)"
    using delete_all_effect[OF fw, of w1 ?w2 "fr_synced rep"] inv1 by (simp add: cache_inv_def)
  have "write_safe sm redis rows ?w2 k" if "write_safe sm redis rows w1 k" for k
  proof (rule safe_mono[OF that])
    show "sm_map (sm ?w2) (pending_key k) \<noteq> None \<or> (\<exists>n v. redis w1 (redis_key k) = Some v \<and> rows ?w2 n k = Some v)"
      if "sm_map (sm w1) (pending_key k) \<noteq> None"
    proof (cases "pending_key k \<in> set (fr_synced rep)")
      case True
      then show ?thesis using effect rep0[rule_format, OF r] del same(2) by auto
    qed (use del that in simp)
  qed (use del in auto)
  then show "cache_inv sm redis rows (handle_sqlite_flush_report env gid g rep w1, A)"
    using inv1 del by (auto simp: handle_sqlite_flush_report_def cache_inv_def)
qed

lemma flush_assignments_keeps:
  assumes fw: "flush_world c a env gid g sm redis rows" and inv: "cache_inv sm redis rows (w, A)"
    and ts: "\<forall>x \<in> set xs. \<forall>t \<in> set (snd x). ft_openraft_key t = pending_key (ft_data_key t)"
  shows "cache_inv sm redis rows (fst (flush_assignments env gid g xs w), A)"
  using inv ts
proof (induction xs arbitrary: w)
  case (Cons x xs)
  obtain n ts where x: "x = (n, ts)" by fastforce
  obtain w1 r where r: "fe_sync env n gid ts w = (w1, r)" by fastforce
  have t: "\<And>t. t \<in> set ts \<Longrightarrow> ft_openraft_key t = pending_key (ft_data_key t)"
    and rest: "\<forall>x \<in> set xs. \<forall>t \<in> set (snd x). ft_openraft_key t = pending_key (ft_data_key t)"
    using Cons.prems(2) x by auto
  note keep = sync_keeps[OF fw Cons.prems(1) r t]
  show ?case using keep(1) keep(2) Cons.IH[OF _ rest] by (auto simp: x r split: sum.split)
qed simp

lemma assigned_tasks:
  assumes "x \<in> set (assign_tasks_to_followers hash ts fs)" "t \<in> set (snd x)" "fs \<noteq> []"
  shows "t \<in> set ts"
proof -
  have "cf_get (assign_tasks_to_followers hash ts fs) (fst x) = Some (snd x)"
    using assms(1) cf_entries_iff[OF assign_exact(1)[OF assms(3)], of "fst x" "snd x"] by simp
  then have "snd x = filter (\<lambda>t. node_of hash fs t = fst x) ts"
    using assign_exact(2)[OF assms(3), of hash ts "fst x"] by simp
  then show ?thesis using assms(2) by auto
qed

lemma flush_once_keeps:
  assumes fw: "flush_world c a env gid g sm redis rows" and inv: "cache_inv sm redis rows (w, A)"
  shows "cache_inv sm redis rows (fst (flush_once env self gid w), A)"
proof -
  have l: "kv_leader c a g sm" and reg: "fe_registry env gid = Some g" and kept: "cache_kept g redis" "cache_kept g rows"
    and ent: "\<And>w. sm (fst (kg_entries g w)) = sm w"
    using fw by (simp_all add: flush_world_def)
  obtain w1 q where q: "ensure_linearizable_read g w = (w1, q)" by fastforce
  obtain w2 r where r: "kg_entries g w1 = (w2, r)" by fastforce
  have inv1: "cache_inv sm redis rows (w1, A)"
    using inv linearizable_keeps[OF l q] ensure_keeps[OF _ q, of redis] ensure_keeps[OF _ q, of rows] kept
    by (simp add: cache_inv_def write_safe_def cache_kept_def)
  have "sm w2 = sm w1" "redis w2 = redis w1" "rows w2 = rows w1"
    using ent kept r unfolding cache_kept_def by (metis fst_conv)+
  then have inv2: "cache_inv sm redis rows (w2, A)"
    using inv1 by (simp add: cache_inv_def write_safe_def)
  have go: "cache_inv sm redis rows (fst (flush_assignments env gid g
      (assign_tasks_to_followers (fe_hash env) (pending_flush_tasks es) fs) w2), A)" if "fs \<noteq> []" for es fs
    using assigned_tasks[OF _ _ that] pending_flush_tasks_set
    by (intro flush_assignments_keeps[OF fw inv2]) blast
  show ?thesis using inv inv1 inv2 go
    by (auto simp: flush_once_def reg q r Let_def split: sum.split)
qed

lemma write_redis_effect:
  assumes fw: "flush_world c a env gid g sm redis rows" and run: "write_redis env k v w = (w', r)"
  shows "sm w' = sm w" "rows w' = rows w"
    "redis w' = (redis w)(redis_key k \<mapsto> v) \<or> redis w' = redis w \<and> (\<exists>e. r = Inl e)"
proof -
  obtain r1 where r1: "fe_redis_set env (redis_key k) v w = (w', r1)" "r = with_context (''write redis cache key='' @ k) r1"
    using run by (auto simp: write_redis_def split: prod.splits)
  have "\<forall>k v w w' r. fe_redis_set env k v w = (w', r) \<longrightarrow> sm w' = sm w \<and> rows w' = rows w \<and>
      (redis w' = (redis w)(k \<mapsto> v) \<or> redis w' = redis w \<and> r \<noteq> Inr ())"
    using fw unfolding flush_world_def by (elim conjE)
  note effect = this[rule_format, OF r1(1)]
  show "sm w' = sm w" "rows w' = rows w" using effect by simp_all
  show "redis w' = (redis w)(redis_key k \<mapsto> v) \<or> redis w' = redis w \<and> (\<exists>e. r = Inl e)"
    using effect r1(2) by (cases r1) (auto simp: with_context_def)
qed

text \<open>The handler runs on the leader; the group it resolves to is the one that is flushed.\<close>

definition write_here :: "'w app_state \<Rightarrow> string \<Rightarrow> 'w kv_group \<Rightarrow> write_value_request \<Rightarrow> bool" where
  "write_here st gid g req \<longleftrightarrow> resolve_group_id st (wq_group_id req) = Inr gid \<and> as_registry st gid = Some g \<and> gid \<noteq> []"

lemma pending_set_effect:
  assumes fw: "flush_world c a env gid g sm redis rows" and here: "write_here st gid g req"
    and ok: "cf_ok (sm_data (sm w))"
    and run: "send_kv_request st gid t \<lparr>kr_group_id = gid, kr_op = Some (KvSet s v)\<rparr> w = (w', r)"
  shows "cf_ok (sm_data (sm w')) \<and> redis w' = redis w \<and> rows w' = rows w \<and>
    (sm_map (sm w') = (sm_map (sm w))(s \<mapsto> v) \<or>
     sm_map (sm w') = sm_map (sm w) \<and> (\<exists>n m. r = Inr (n, Some (ReError m []))))"
proof -
  have l: "kv_leader c a g sm" using fw by (simp add: flush_world_def)
  have lead: "kg_is_leader g w" using l by (simp add: leader_defs)
  obtain w1 q where q: "kg_client_write g (ReqSet s v) w = (w1, q)" by fastforce
  have "resolve_kv_target st gid t w = Inr (LocalTarget (as_node_id st))"
    using here lead by (simp add: resolve_kv_target_def write_here_def Let_def)
  then show ?thesis
    using run here lead leader_set[OF l q ok] flush_world_write[OF fw q]
    by (cases q) (auto simp: send_kv_request_def write_here_def process_kv_request_def process_op_def q
        kv_error_response_def kv_error_response_with_leader_def)
qed

lemma write_cached_effect:
  assumes fw: "flush_world c a env gid g sm redis rows" and here: "write_here st gid g req"
    and ok: "cf_ok (sm_data (sm w))" and run: "write_cached_value st env True req w = (w', resp)"
  shows "cf_ok (sm_data (sm w')) \<and> rows w' = rows w \<and>
    (redis w' = (redis w)(redis_key (wq_key req) \<mapsto> wq_value req) \<or> redis w' = redis w) \<and>
    (sm_map (sm w') = (sm_map (sm w))(pending_key (wq_key req) \<mapsto> ''1'') \<or>
     sm_map (sm w') = sm_map (sm w) \<and> \<not> cw_ok resp)"
proof -
  let ?k = "wq_key req"
  obtain w1 r1 where r1: "write_redis env ?k (wq_value req) w = (w1, r1)" by fastforce
  note redis = write_redis_effect[OF fw r1]
  have ok1: "cf_ok (sm_data (sm w1))" using ok redis(1) by simp
  obtain w2 r2 where r2: "send_kv_request st gid (wq_target_node_id req)
      \<lparr>kr_group_id = gid, kr_op = Some (KvSet (pending_key ?k) ''1'')\<rparr> w1 = (w2, r2)" by fastforce
  obtain w3 r3 where r3: "record_pending_key env gid g ?k w1 = (w3, r3)" by fastforce
  note sent = pending_set_effect[OF fw here ok1 r2] and recorded = record_pending_effect[OF fw ok1 r3]
  have gid: "resolve_group_id st (wq_group_id req) = Inr gid" "as_registry st gid = Some g"
    using here by (simp_all add: write_here_def)
  show ?thesis
  proof (cases r1)
    case (Inl e)
    then show ?thesis using run redis ok1 by (auto simp: write_cached_value_def gid r1 cache_refused_def)
  next
    case (Inr u)
    have eq: "write_cached_value st env True req w =
        (if wq_target_node_id req \<noteq> None then
           (case r2 of Inl err \<Rightarrow> (w2, cache_refused None (Some (pending_key ?k)) err)
            | Inr (node_id, resp) \<Rightarrow> (w2, case resp of
                Some (ReSet True _) \<Rightarrow> cache_written node_id (pending_key ?k)
              | Some (ReError message _) \<Rightarrow> cache_refused (Some node_id) (Some (pending_key ?k)) message
              | other \<Rightarrow> cache_refused (Some node_id) (Some (pending_key ?k)) (unexpected st other)))
         else (case r3 of Inr target \<Rightarrow> (w3, cache_written target (pending_key ?k))
            | Inl err \<Rightarrow> (w3, cache_refused None (Some (pending_key ?k)) err)))"
      using Inr by (simp add: write_cached_value_def gid r1 r2 r3 Let_def)
    show ?thesis
    proof (cases "wq_target_node_id req = None")
      case True
      then show ?thesis using run eq recorded redis by (cases r3) (auto simp: cache_refused_def cache_written_def)
    next
      case False
      then have "w' = w2" using run eq by (auto split: sum.splits)
      then show ?thesis using run eq False sent redis
        by (cases r2) (auto simp: cache_refused_def)
    qed
  qed
qed

lemma cache_step_keeps:
  assumes fw: "flush_world c a env gid g sm redis rows" and inv: "cache_inv sm redis rows s"
    and here: "\<And>req. ev = EvWrite req \<Longrightarrow> write_here st gid g req"
  shows "cache_inv sm redis rows (cache_step st env self gid s ev)"
proof (cases ev)
  case EvFlush
  then show ?thesis using flush_once_keeps[OF fw, of "fst s" "snd s" self] inv by (simp add: cache_step_def)
next
  case (EvWrite req)
  obtain w' resp where run: "write_cached_value st env True req (fst s) = (w', resp)" by fastforce
  have ok: "cf_ok (sm_data (sm (fst s)))" using inv by (simp add: cache_inv_def)
  note effect = write_cached_effect[OF fw here[OF EvWrite] ok run]
  have other: "write_safe sm redis rows w' k" if "write_safe sm redis rows (fst s) k" "k \<noteq> wq_key req" for k
    using that effect by (auto simp: write_safe_def)
  have mine: "write_safe sm redis rows w' (wq_key req)" if "cw_ok resp"
    using that effect by (auto simp: write_safe_def)
  show ?thesis using inv effect other mine by (auto simp: EvWrite cache_step_def run cache_inv_def)
qed

interpretation cache: invariant_machine "cache_step st env self gid"
    "\<lambda>ev. \<forall>req. ev = EvWrite req \<longrightarrow> write_here st gid g req"
    "\<lambda>s. flush_world c a env gid g sm redis rows \<and> cache_inv sm redis rows s" for st env self gid g c a sm redis rows
  by unfold_locales (auto intro: cache_step_keeps)

end
