(* ===== verification/CacheClaims.thy ===== *)
theory CacheClaims
  imports SqliteFlush StoreClaims
begin

text \<open>
  The properties of the key-value service and of the write-behind cache, with a world in which this
  node leads its group: proposals are applied at once and the reader catches up at every read.
\<close>

section \<open>An example world\<close>

record demo_world =
  dw_sm :: rocks_sm
  dw_redis :: "string \<rightharpoonup> string"
  dw_rows :: "string \<Rightarrow> string \<rightharpoonup> string"

definition demo_group :: "demo_world kv_group" where
  "demo_group = \<lparr>kg_is_leader = \<lambda>_. True, kg_current_leader = \<lambda>_. Some ''n0'',
     kg_linearizer = \<lambda>w. (w, Inr ()), kg_await_ready = \<lambda>w. (w, Inr ()), kg_sleep = \<lambda>_ w. w,
     kg_client_write = \<lambda>req w. (case sm_apply demo_codec demo_sm_api (dw_sm w) [Inr (proposal (1, 1) req)] of
        Inl e \<Rightarrow> (w, Inl e)
      | Inr (sm, rs, _) \<Rightarrow> (w\<lparr>dw_sm := sm\<rparr>, case rs of [r] \<Rightarrow> Inr r | _ \<Rightarrow> Inl ''no response'')),
     kg_get = \<lambda>_ w. (w, Inr None), kg_entries = \<lambda>w. (w, Inr []), kg_entries_with_prefix = \<lambda>_ w. (w, Inr [])\<rparr>"

definition demo_reader :: "demo_world kv_reader" where
  "demo_reader = \<lparr>rd_primary = \<lambda>w. \<lparr>pd_seq = 1, pd_at = \<lambda>_. sm_data (dw_sm w)\<rparr>,
     rd_outcome = \<lambda>_. \<lparr>ro_catch_up = Inr 1, ro_reopen = Inr 1\<rparr>,
     rd_state = \<lambda>_. \<lparr>kd_secondary = 0, kd_rebuild_epoch = 0, kd_rebuilds = 0\<rparr>, rd_put = \<lambda>_ w. w\<rparr>"

abbreviation reading_group :: "demo_world kv_group" where
  "reading_group \<equiv> with_kv_data demo_reader demo_group"



definition demo_start :: demo_world where
  "demo_start = \<lparr>dw_sm = empty_sm, dw_redis = Map.empty, dw_rows = \<lambda>_. Map.empty\<rparr>"

section \<open>The key-value service\<close>

text \<open>The service of a leader that no other client writes to, with a reader that always reaches the primary, is
  a map: requests given one after the other are answered as by a map from keys to values.\<close>

lemma kv_requests_refine:
  assumes "raft_leader c a g sm" "reader_current rd sm" "gid \<noteq> []" "cf_ok (sm_data (sm w))"
    and "kv_run (with_kv_data rd g) gid cmds w = (w', rs)"
  shows "kv_trace (sm_map (sm w)) cmds rs (sm_map (sm w'))"
  by (rule kv_run_trace[OF with_kv_data_leader[OF assms(1,2)] assms(3-5)])










lemma debug_fields:
  "as_registry (st\<lparr>as_debug := d\<rparr>) = as_registry st" "as_node_id (st\<lparr>as_debug := d\<rparr>) = as_node_id st"
  "as_default_group (st\<lparr>as_debug := d\<rparr>) = as_default_group st" "as_known_nodes (st\<lparr>as_debug := d\<rparr>) = as_known_nodes st"
  "as_connect (st\<lparr>as_debug := d\<rparr>) = as_connect st" "as_request (st\<lparr>as_debug := d\<rparr>) = as_request st"
  by simp_all

lemma debug_unused [simp]:
  "resolve_group_id (st\<lparr>as_debug := d\<rparr>) og = resolve_group_id st og"
  "send_kv_request (st\<lparr>as_debug := d\<rparr>) g t req w = send_kv_request st g t req w"
  unfolding resolve_group_id_def send_kv_request_def resolve_kv_target_def debug_fields by (rule refl)+





definition demo_app :: "demo_world app_state" where
  "demo_app = \<lparr>as_node_id = ''n0'', as_default_group = ''users'',
     as_registry = [''users'' \<mapsto> reading_group], as_known_nodes = \<lambda>_. [], as_connect = \<lambda>_ _ w. (w, Inr ()),
     as_request = \<lambda>_ req w. (w, Inr (snd (handle_kv [''users'' \<mapsto> reading_group] req w))), as_debug = \<lambda>_. []\<rparr>"


definition demo_write :: "string \<Rightarrow> string \<Rightarrow> write_value_request" where
  "demo_write k v = \<lparr>wq_key = k, wq_value = v, wq_group_id = None, wq_target_node_id = None\<rparr>"


section \<open>The write-behind cache\<close>


definition demo_env :: "demo_world flush_env" where
  "demo_env = \<lparr>fe_registry = [''users'' \<mapsto> reading_group], fe_own_id = \<lambda>_. ''n0'', fe_nodes = \<lambda>_. [''n0'', ''n1'', ''n2''],
     fe_node_addr = \<lambda>_ _. None, fe_parse = \<lambda>_. None, fe_hash = \<lambda>s. word_of_nat (length s),
     fe_connect = \<lambda>_ _ w. (w, Inr ()), fe_request = \<lambda>_ _ w. (w, Inl ''no route''),
     fe_sync = \<lambda>n gid ts w. (case execute_follower_flush True (Some Follower) (\<lambda>k. Inr (dw_redis w (redis_key k)))
         (\<lambda>_. None) gid ts (dw_rows w n) of (r, rep) \<Rightarrow> (w\<lparr>dw_rows := (dw_rows w)(n := r)\<rparr>, Inr (Inr rep))),
     fe_redis_set = \<lambda>k v w. (w\<lparr>dw_redis := (dw_redis w)(k \<mapsto> v)\<rparr>, Inr ()), fe_debug = \<lambda>_. []\<rparr>"






text \<open>The condition that writes and flushes do not overlap is needed: a write that comes between the copy
  by the follower and the deletion of the pending key is acknowledged and then forgotten.\<close>

definition race_run :: "demo_world \<Rightarrow> demo_world \<times> bool" where
  "race_run w0 =
     (let w1 = fst (write_cached_value demo_app demo_env True (demo_write ''a'' ''1'') w0);
          tasks = [\<lparr>ft_openraft_key = pending_key ''a'', ft_data_key = ''a''\<rparr>] in
      case fe_sync demo_env ''n1'' ''users'' tasks w1 of
        (w2, Inr (Inr rep)) \<Rightarrow>
          (case write_cached_value demo_app demo_env True (demo_write ''a'' ''2'') w2 of
             (w3, resp) \<Rightarrow> (handle_sqlite_flush_report demo_env ''users'' reading_group rep w3, cw_ok resp))
      | (w2, _) \<Rightarrow> (w2, False))"

lemma flush_race:
  "snd (race_run demo_start) \<and> dw_redis (fst (race_run demo_start)) (redis_key ''a'') = Some ''2'' \<and>
   sm_map (dw_sm (fst (race_run demo_start))) (pending_key ''a'') = None \<and>
   dw_rows (fst (race_run demo_start)) ''n1'' ''a'' = Some ''1'' \<and>
   dw_rows (fst (race_run demo_start)) ''n2'' ''a'' = None"
  by code_simp

section \<open>What the service does not promise\<close>

text \<open>An update looks and then writes; a delete that is applied in between is undone, and the update
  answers that the key was there. \<open>w1\<close> is the world after the look.\<close>

lemma update_not_atomic:
  "let w0 = fst (process_op reading_group (KvSet ''a'' ''1'') demo_start);
       look = contains_key reading_group ''a'' w0;
       w1 = fst (process_op reading_group (KvDelete ''a'') (fst look));
       w2 = fst (kg_client_write reading_group (ReqSet ''a'' ''2'') w1) in
   snd look = Inr True \<and> sm_map (dw_sm w1) ''a'' = None \<and> sm_map (dw_sm w2) ''a'' = Some ''2''"
  by code_simp

text \<open>The service takes any key, also those of the task queue: a client that sets the record of a task
  to text that is not a record makes the next command on that task fail on every replica, which
  openraft treats as a broken state machine.\<close>

lemma kv_set_breaks_task_commands:
  "case process_kv_request reading_group \<lparr>kr_group_id = ''tasks'', kr_op = Some (KvSet (rec_key ''t1'') ''junk'')\<rparr> demo_start of
     (w, resp) \<Rightarrow> resp = Some (ReSet True ''junk'') \<and>
       (case sm_apply demo_codec demo_sm_api (dw_sm w) [Inr (proposal (1, 2) (ReqTask (TaskClaim ''t1'' ''n1'' 7 9)))] of
          Inl err \<Rightarrow> True | Inr _ \<Rightarrow> False)"
  by code_simp

text \<open>A catch-up that RocksDB reports as done may end before the primary: up to the gap the old data is served.\<close>

lemma stale_read_served:
  assumes "s < pd_seq p" "pd_seq p - s \<le> SECONDARY_REBUILD_GAP" "kd_secondary kd \<le> s" "ro_catch_up oc = Inr s"
  shows "kv_get p oc k kd = (kd\<lparr>kd_secondary := s\<rparr>, case cf_get (pd_at p s) k of None \<Rightarrow> Inr None
     | Some v \<Rightarrow> rbind (decode_utf8 v ''value'') (\<lambda>x. Inr (Some x)))"
  using assms by (simp add: kv_get_def synced_db_def locked_db_def Let_def handle_data_def handle_seq_def)

end
