(* ===== verification/Handlers.thy ===== *)
theory Handlers
  imports Worker WasmServe LeaderWorks AddressBook
begin

text \<open>
  The task handlers of \<open>tasks/handlers.rs\<close> with the engine registry of \<open>tasks/wasm_runtime.rs\<close>. A
  handler is asynchronous: it stops at every call to the cluster, at every act on the outside world
  and at every sleep, and other nodes go on meanwhile. It is therefore a \<open>prog\<close>, the tree of what
  it does next for each answer, and \<open>run_prog\<close> runs a tree on a world. The JSON and base64 decoders,
  the hash, the HTTP client and the WASM engine are arguments.
\<close>

section \<open>Programs\<close>

text \<open>Acts that cannot be taken back, and the answer of the outside world: an error or a status code.\<close>

datatype webhook_body = BodyJson string | BodyTaskId string

datatype side_effect = SendEmail string | PostWebhook string webhook_body

record wasm_invocation =
  wi_args :: "string list"
  wi_env :: "(string \<times> string) list"
  wi_fuel_limit :: "u64 option"
  wi_wall_clock_limit :: "u64 option"
  wi_task_id :: "string option"
  wi_config :: "(string \<times> string) list"

record wasm_outcome =
  wo_stdout :: string
  wo_fuel_used :: "u64 option"
  wo_structured :: "string option"

datatype 'r prog =
    Finish 'r
  | Submit string request "task_write_reply result \<Rightarrow> 'r prog"
  | Perform side_effect "u16 result \<Rightarrow> 'r prog"
  | Pause u64 "'r prog"
  | RunWasm string bytes wasm_invocation "wasm_outcome result \<Rightarrow> 'r prog"

type_synonym task_prog = "string option result prog"

record 'w outside =
  ow_submit :: "'w \<Rightarrow> string \<Rightarrow> request \<Rightarrow> 'w \<times> task_write_reply result"
  ow_perform :: "'w \<Rightarrow> side_effect \<Rightarrow> 'w \<times> u16 result"
  ow_pause :: "'w \<Rightarrow> u64 \<Rightarrow> 'w"
  ow_wasm :: "'w \<Rightarrow> string \<Rightarrow> bytes \<Rightarrow> wasm_invocation \<Rightarrow> 'w \<times> wasm_outcome result"

primrec run_prog :: "'w outside \<Rightarrow> 'r prog \<Rightarrow> 'w \<Rightarrow> 'w \<times> 'r" where
  "run_prog ow (Finish r) = (\<lambda>w. (w, r))"
| "run_prog ow (Submit g cmd k) = (\<lambda>w. let (w', r) = ow_submit ow w g cmd in run_prog ow (k r) w')"
| "run_prog ow (Perform e k) = (\<lambda>w. let (w', r) = ow_perform ow w e in run_prog ow (k r) w')"
| "run_prog ow (Pause secs p) = (\<lambda>w. run_prog ow p (ow_pause ow w secs))"
| "run_prog ow (RunWasm name source call k) = (\<lambda>w. let (w', r) = ow_wasm ow w name source call in run_prog ow (k r) w')"

section \<open>Payloads\<close>

record email =
  em_to :: string

record webhook =
  wh_url :: string
  wh_body :: "string option"

record digest_spec =
  dg_data :: string
  dg_iterations :: u32

record kv_set =
  ks_key :: string
  ks_value :: string
  ks_group_id :: string

record sleep_spec =
  sl_secs :: u64

record wasm_exec =
  we_module_wat :: "string option"
  we_module_b64 :: "string option"
  we_module_file :: "string option"
  we_module_sha256 :: "string option"
  we_args :: "string list"
  we_env :: "(string \<times> string) list"
  we_config :: "(string \<times> string) list"
  we_name :: "string option"

datatype task_payload =
    Email email
  | Webhook webhook
  | Digest digest_spec
  | KvSetTask kv_set
  | SleepTask sleep_spec
  | WasmTask wasm_exec

text \<open>What \<open>sonic_rs\<close>, \<open>base64\<close> and the digests do, and the node the handler runs on. A JSON object to be
  printed is the list of its fields.\<close>

datatype json_field = JfText string | JfNum nat | JfNull

record handler_api =
  ha_tag :: "string \<Rightarrow> (string option) result"
  ha_email :: "string \<Rightarrow> email result"
  ha_webhook :: "string \<Rightarrow> webhook result"
  ha_digest :: "string \<Rightarrow> digest_spec result"
  ha_kv_set :: "string \<Rightarrow> kv_set result"
  ha_sleep :: "string \<Rightarrow> sleep_spec result"
  ha_wasm :: "string \<Rightarrow> wasm_exec result"
  ha_encode :: "task_payload \<Rightarrow> string result"
  ha_json :: "(string \<times> json_field) list \<Rightarrow> string result"
  ha_base64 :: "string \<Rightarrow> bytes result"
  ha_status_text :: "u16 \<Rightarrow> string"
  ha_hashes :: wasm_api

record worker_host =
  ho_runtime_var :: "string option"
  ho_disk :: disk
  ho_modules_dir :: string

fun kind :: "task_payload \<Rightarrow> string" where
  "kind (Email _) = ''email''"
| "kind (Webhook _) = ''webhook''"
| "kind (Digest _) = ''digest''"
| "kind (KvSetTask _) = ''kv_set''"
| "kind (SleepTask _) = ''sleep''"
| "kind (WasmTask _) = ''wasm''"

definition KNOWN_KINDS :: "string list" where
  "KNOWN_KINDS = [''email'', ''webhook'', ''digest'', ''kv_set'', ''sleep'', ''wasm'']"

fun join :: "string \<Rightarrow> string list \<Rightarrow> string" where
  "join sep [] = []"
| "join sep [s] = s"
| "join sep (s # ss) = s @ sep @ join sep ss"

definition payload_kind :: "handler_api \<Rightarrow> string \<Rightarrow> (string option) result" where
  "payload_kind api payload = map_err (\<lambda>err. ''task payload is not a JSON object: '' @ err) (ha_tag api payload)"

definition variant :: "string \<Rightarrow> ('a \<Rightarrow> task_payload) \<Rightarrow> 'a result \<Rightarrow> task_payload result" where
  "variant k wrap decoded = map_err (\<lambda>err. ''decode '' @ k @ '' payload: '' @ err) (rbind decoded (\<lambda>x. Inr (wrap x)))"

definition decode :: "handler_api \<Rightarrow> string \<Rightarrow> task_payload result" where
  "decode api payload =
     rbind (payload_kind api payload) (\<lambda>tag.
       case tag of
         None \<Rightarrow> variant ''email'' Email (ha_email api payload)
       | Some k \<Rightarrow>
           if k = ''email'' then variant ''email'' Email (ha_email api payload)
           else if k = ''webhook'' then variant ''webhook'' Webhook (ha_webhook api payload)
           else if k = ''digest'' then variant ''digest'' Digest (ha_digest api payload)
           else if k = ''kv_set'' then variant ''kv_set'' KvSetTask (ha_kv_set api payload)
           else if k = ''sleep'' then variant ''sleep'' SleepTask (ha_sleep api payload)
           else if k = ''wasm'' then variant ''wasm'' WasmTask (ha_wasm api payload)
           else Inl (''unknown task kind '' @ debug_string k @ '' (known: '' @ join '', '' KNOWN_KINDS @ '')''))"

definition encode :: "handler_api \<Rightarrow> task_payload \<Rightarrow> string result" where
  "encode api p = map_err (\<lambda>err. ''encode task payload: '' @ err) (ha_encode api p)"

definition default_digest_iterations :: u32 where "default_digest_iterations = 1"
definition MAX_DIGEST_ITERATIONS :: u32 where "MAX_DIGEST_ITERATIONS = 10000000"
definition default_kv_group :: string where "default_kv_group = USERS"

section \<open>Modules\<close>

definition KNOWN_RUNTIMES :: "string list" where "KNOWN_RUNTIMES = [''wasmtime'']"
definition WASM_FUEL_LIMIT :: u64 where "WASM_FUEL_LIMIT = 500000000"
definition WASM_MODULES_DIR_DEFAULT :: string where "WASM_MODULES_DIR_DEFAULT = ''wasm_modules''"
definition TASK_EXECUTION_TIMEOUT :: u64 where "TASK_EXECUTION_TIMEOUT = 30"

text \<open>An engine is known by its name.\<close>

definition runtime_by_name :: "string \<Rightarrow> string result" where
  "runtime_by_name name =
     (if name = ''wasmtime'' then Inr ''wasmtime''
      else Inl (''unknown wasm runtime '' @ debug_string name @ '' (known: '' @ join '', '' KNOWN_RUNTIMES @ '')''))"

definition selected_runtime :: "string option \<Rightarrow> string result" where
  "selected_runtime var = (case var of Some name \<Rightarrow> runtime_by_name name | None \<Rightarrow> runtime_by_name ''wasmtime'')"

definition store_dir_from_env :: "string option \<Rightarrow> string" where
  "store_dir_from_env var = (case var of Some d \<Rightarrow> d | None \<Rightarrow> WASM_MODULES_DIR_DEFAULT)"

text \<open>The texts of the errors of \<open>WasmModuleStore::load\<close>; the text of an I/O error is the argument.\<close>

definition load_error_text :: "(download_error \<Rightarrow> string) \<Rightarrow> string \<Rightarrow> store_load_error \<Rightarrow> string" where
  "load_error_text io_text dir e =
     (case e of
        NotBareName name \<Rightarrow> ''invalid module_file '' @ debug_string name @ '': must be a bare file name inside the module store''
      | ReadFailed path err \<Rightarrow> ''read wasm module '' @ path @ '': '' @ io_text err
      | NoSuchModule name \<Rightarrow> ''wasm module '' @ debug_string name @ '' not found in store '' @ dir @
          '' (tried '' @ name @ '', '' @ name @ ''.wasm, '' @ name @ ''.wat)'')"

definition io_text :: "download_error \<Rightarrow> string" where
  "io_text e = (case e of IoError _ _ t \<Rightarrow> t | _ \<Rightarrow> [])"

text \<open>\<open>to_lowercase\<close> is compared with hexadecimal digits only, for which the ASCII letters decide.\<close>

definition expected_digest :: "string \<Rightarrow> string" where
  "expected_digest pin = map ascii_lower (case strip_prefix ''sha256:'' pin of Some p \<Rightarrow> p | None \<Rightarrow> pin)"

definition module_source :: "handler_api \<Rightarrow> worker_host \<Rightarrow> wasm_exec \<Rightarrow> bytes result" where
  "module_source api host we =
     rbind (case (we_module_wat we, we_module_b64 we, we_module_file we) of
        (Some wat, None, None) \<Rightarrow> Inr (as_bytes wat)
      | (None, Some b64, None) \<Rightarrow> map_err (\<lambda>err. ''decode module_b64: '' @ err) (ha_base64 api b64)
      | (None, None, Some file) \<Rightarrow>
          map_err (load_error_text io_text (ho_modules_dir host)) (store_load (ho_disk host) (ho_modules_dir host) file)
      | (None, None, None) \<Rightarrow> Inl ''wasm task needs module_wat, module_b64 or module_file''
      | _ \<Rightarrow> Inl ''set exactly one of module_wat / module_b64 / module_file, not several'')
     (\<lambda>bs. case we_module_sha256 we of
        None \<Rightarrow> Inr bs
      | Some pin \<Rightarrow>
          let expected = expected_digest pin; actual = module_hash (ha_hashes api) bs in
          if actual \<noteq> expected
          then Inl (''module digest mismatch: payload pins sha256:'' @ expected @ '', module is sha256:'' @ actual)
          else Inr bs)"

definition display_name :: "handler_api \<Rightarrow> worker_host \<Rightarrow> wasm_exec \<Rightarrow> string" where
  "display_name api host we =
     (case we_name we of Some name \<Rightarrow> name
      | None \<Rightarrow> (case we_module_file we of Some file \<Rightarrow> ''file:'' @ file
          | None \<Rightarrow> (case module_source api host we of
               Inr bs \<Rightarrow> ''sha256:'' @ take 12 (module_hash (ha_hashes api) bs)
             | Inl _ \<Rightarrow> ''<invalid module>'')))"

fun label :: "handler_api \<Rightarrow> worker_host \<Rightarrow> task_payload \<Rightarrow> string" where
  "label api host (Email e) = ''email:'' @ em_to e"
| "label api host (Webhook w) = ''webhook:'' @ wh_url w"
| "label api host (Digest d) = ''digest:'' @ dg_data d"
| "label api host (KvSetTask k) = ''kv_set:'' @ ks_key k"
| "label api host (SleepTask s) = ''sleep:'' @ show_u64 (sl_secs s) @ ''s''"
| "label api host (WasmTask w) = ''wasm:'' @ display_name api host w"

section \<open>The commit mark\<close>

text \<open>The context of a handler: with or without the plumbing to reach the cluster.\<close>

datatype task_ctx = WithCluster | Detached

definition cluster :: "task_ctx \<Rightarrow> unit result" where
  "cluster ctx = (case ctx of WithCluster \<Rightarrow> Inr ()
     | Detached \<Rightarrow> Inl ''handler requires cluster access, but this context has none'')"

text \<open>What \<open>submit_command\<close> makes of the reply of a submission.\<close>

definition command_result :: "codec \<Rightarrow> task_write_reply result \<Rightarrow> task_op_result result" where
  "command_result c r =
     rbind r (\<lambda>reply. case wr_value reply of
        None \<Rightarrow> Inl ''task command accepted but returned no result''
      | Some value \<Rightarrow> (case dec_result c value of None \<Rightarrow> Inl ''decode task op result'' | Some res \<Rightarrow> Inr res))"

definition mark_outcome :: "codec \<Rightarrow> task_write_reply result \<Rightarrow> unit result" where
  "mark_outcome c r =
     (case command_result c r of
        Inl err \<Rightarrow> Inl (''commit-mark raft write failed: '' @ err)
      | Inr result \<Rightarrow>
          if \<not> op_ok result
          then Inl (''commit-mark rejected (task requeued/reassigned?), aborting side effect: '' @ debug_opt debug_string (op_reason result))
          else Inr ())"

definition mark_committed :: "codec \<Rightarrow> task_ctx \<Rightarrow> u64 \<Rightarrow> task_record \<Rightarrow> (unit result \<Rightarrow> 'r prog) \<Rightarrow> 'r prog" where
  "mark_committed c ctx now record k =
     (case ctx of Detached \<Rightarrow> k (Inr ())
      | WithCluster \<Rightarrow>
          (case tr_assigned_node_id record of None \<Rightarrow> k (Inl ''commit-mark: record has no assigned node'')
           | Some node_id \<Rightarrow>
               (case tr_lease_epoch record of None \<Rightarrow> k (Inl ''commit-mark: record has no lease epoch'')
                | Some lease_epoch \<Rightarrow>
                    Submit TASKS (ReqTask (TaskMarkCommitted (tr_id record) node_id lease_epoch now)) (\<lambda>r. k (mark_outcome c r)))))"

section \<open>The handlers\<close>

definition encode_result :: "handler_api \<Rightarrow> (string \<times> json_field) list \<Rightarrow> string option result" where
  "encode_result api jfs = rbind (map_err (\<lambda>err. ''encode task result: '' @ err) (ha_json api jfs)) (\<lambda>s. Inr (Some s))"

definition email_run :: "codec \<Rightarrow> handler_api \<Rightarrow> task_ctx \<Rightarrow> u64 \<Rightarrow> task_record \<Rightarrow> email \<Rightarrow> task_prog" where
  "email_run c api ctx now record email =
     (if starts_with (em_to email) ''fail'' then Finish (Inl (''simulated failure sending to '' @ em_to email))
      else
        let send = mark_committed c ctx now record (\<lambda>m. case m of
              Inl e \<Rightarrow> Finish (Inl e)
            | Inr _ \<Rightarrow> Perform (SendEmail (em_to email)) (\<lambda>_.
                Finish (encode_result api [(''delivered_to'', JfText (em_to email)), (''attempt'', JfNum (unat (tr_attempts record)))])))
        in if starts_with (em_to email) ''slow'' then Pause (TASK_EXECUTION_TIMEOUT + 15) send else send)"

definition is_success :: "u16 \<Rightarrow> bool" where
  "is_success status \<longleftrightarrow> 200 \<le> status \<and> status < 300"

definition webhook_run :: "codec \<Rightarrow> handler_api \<Rightarrow> task_ctx \<Rightarrow> u64 \<Rightarrow> task_record \<Rightarrow> webhook \<Rightarrow> task_prog" where
  "webhook_run c api ctx now record webhook =
     (let body = (case wh_body webhook of Some b \<Rightarrow> BodyJson b | None \<Rightarrow> BodyTaskId (tr_id record)) in
      mark_committed c ctx now record (\<lambda>m. case m of
        Inl e \<Rightarrow> Finish (Inl e)
      | Inr _ \<Rightarrow> Perform (PostWebhook (wh_url webhook) body) (\<lambda>response. case response of
          Inl err \<Rightarrow> Finish (Inl (''webhook request to '' @ wh_url webhook @ '' failed: '' @ err))
        | Inr status \<Rightarrow>
            if \<not> is_success status
            then Finish (Inl (''webhook to '' @ wh_url webhook @ '' returned status '' @ ha_status_text api status))
            else Finish (encode_result api [(''url'', JfText (wh_url webhook)), (''status'', JfNum (unat status))]))))"

definition to_hex :: "bytes \<Rightarrow> string" where
  "to_hex bs = foldl (\<lambda>hex b. hex @ hex_byte b) [] bs"

text \<open>The digest runs on the blocking pool; the loop cannot panic, so the join does not fail.\<close>

fun digest_chain :: "handler_api \<Rightarrow> nat \<Rightarrow> bytes \<Rightarrow> bytes" where
  "digest_chain api 0 acc = acc"
| "digest_chain api (Suc n) acc = digest_chain api n (wa_sha256 (ha_hashes api) acc)"

definition digest_run :: "handler_api \<Rightarrow> digest_spec \<Rightarrow> task_prog" where
  "digest_run api spec =
     (if dg_iterations spec = 0 then Finish (Inl ''digest iterations must be >= 1'')
      else
        let iterations = min (dg_iterations spec) MAX_DIGEST_ITERATIONS;
            digest = to_hex (digest_chain api (unat iterations) (as_bytes (dg_data spec)))
        in Finish (encode_result api [(''sha256'', JfText digest), (''iterations'', JfNum (unat iterations))]))"

definition opt_field :: "string option \<Rightarrow> json_field" where
  "opt_field v = (case v of Some s \<Rightarrow> JfText s | None \<Rightarrow> JfNull)"

definition kv_set_run :: "handler_api \<Rightarrow> task_ctx \<Rightarrow> kv_set \<Rightarrow> task_prog" where
  "kv_set_run api ctx kv =
     (case cluster ctx of Inl e \<Rightarrow> Finish (Inl e)
      | Inr _ \<Rightarrow> Submit (ks_group_id kv) (ReqSet (ks_key kv) (ks_value kv)) (\<lambda>r. case r of
          Inl err \<Rightarrow> Finish (Inl (''kv_set raft write failed: '' @ err))
        | Inr reply \<Rightarrow> Finish (encode_result api [(''group'', JfText (ks_group_id kv)), (''key'', JfText (ks_key kv)),
            (''stored'', opt_field (wr_value reply))])))"

definition sleep_run :: "handler_api \<Rightarrow> sleep_spec \<Rightarrow> task_prog" where
  "sleep_run api sleep = Pause (sl_secs sleep) (Finish (encode_result api [(''slept_secs'', JfNum (unat (sl_secs sleep)))]))"

definition wasm_run :: "handler_api \<Rightarrow> worker_host \<Rightarrow> task_record \<Rightarrow> wasm_exec \<Rightarrow> task_prog" where
  "wasm_run api host record we =
     (case selected_runtime (ho_runtime_var host) of Inl e \<Rightarrow> Finish (Inl e)
      | Inr runtime \<Rightarrow>
          (case module_source api host we of Inl e \<Rightarrow> Finish (Inl e)
           | Inr source \<Rightarrow>
               let invocation = \<lparr>wi_args = we_args we, wi_env = we_env we, wi_fuel_limit = Some WASM_FUEL_LIMIT,
                     wi_wall_clock_limit = Some (TASK_EXECUTION_TIMEOUT + 5), wi_task_id = Some (tr_id record),
                     wi_config = we_config we\<rparr>
               in RunWasm runtime source invocation (\<lambda>r. case r of Inl e \<Rightarrow> Finish (Inl e)
                  | Inr outcome \<Rightarrow> Finish (encode_result api [(''stdout'', JfText (wo_stdout outcome)),
                      (''fuel_used'', (case wo_fuel_used outcome of Some f \<Rightarrow> JfNum (unat f) | None \<Rightarrow> JfNull)),
                      (''structured'', opt_field (wo_structured outcome)),
                      (''module'', JfText (display_name api host we)), (''runtime'', JfText runtime)]))))"

definition execute :: "codec \<Rightarrow> handler_api \<Rightarrow> worker_host \<Rightarrow> task_ctx \<Rightarrow> u64 \<Rightarrow> task_record \<Rightarrow> task_payload \<Rightarrow> task_prog" where
  "execute c api host ctx now record payload =
     (case payload of
        Email email \<Rightarrow> email_run c api ctx now record email
      | Webhook webhook \<Rightarrow> webhook_run c api ctx now record webhook
      | Digest spec \<Rightarrow> digest_run api spec
      | KvSetTask kv \<Rightarrow> kv_set_run api ctx kv
      | SleepTask sleep \<Rightarrow> sleep_run api sleep
      | WasmTask we \<Rightarrow> wasm_run api host record we)"

definition execute_payload :: "codec \<Rightarrow> handler_api \<Rightarrow> worker_host \<Rightarrow> task_ctx \<Rightarrow> u64 \<Rightarrow> task_record \<Rightarrow> task_prog" where
  "execute_payload c api host ctx now record =
     (case decode api (tr_payload record) of Inl e \<Rightarrow> Finish (Inl e)
      | Inr payload \<Rightarrow> execute c api host ctx now record payload)"

text \<open>Both the handlers and the endpoints read what the leader answered back from the reply.\<close>

lemma command_result_reply: "codec_ok c \<Longrightarrow> command_result c (Inr (accepted_reply (into_response c x))) = Inr x"
  using from_into_response[of c x] by (auto simp: command_result_def accepted_reply_def from_response_def split: option.splits)

end
