(* ===== verification/WorkerRuns.thy ===== *)
theory WorkerRuns
  imports Handlers StateMachineQueue
begin

text \<open>
  All workers of a cluster at once. Each node has a table of tasks in flight (\<open>in_flight\<close> of
  \<open>tasks/worker.rs\<close>); an entry claims its task, runs the handler step by step and acknowledges. The
  relation \<open>worker_run\<close> interleaves these steps with each other, with lost requests and replies, with
  crashes, and with any other request that reaches the tasks group, plain writes and late and repeated
  commands included. The requests the tasks group executed are the log of the run. The theory follows the acts on the outside world through such a run.
\<close>

section \<open>The relation\<close>

datatype phase = Waiting u64 | Executing u64 task_record task_prog | Acking task_request

record system =
  sy_store :: kv
  sy_pool :: "string \<Rightarrow> string \<Rightarrow> phase option"
  sy_effects :: "(string \<times> string \<times> side_effect) list"

definition pool_upd :: "string \<Rightarrow> string \<Rightarrow> phase option \<Rightarrow> system \<Rightarrow> system" where
  "pool_upd n i ph s = s\<lparr>sy_pool := (sy_pool s)(n := (sy_pool s n)(i := ph))\<rparr>"

text \<open>What the leader of the tasks group does with a request (\<open>apply_payload\<close> on one entry).\<close>

definition exec_request :: "codec \<Rightarrow> kv \<Rightarrow> request \<Rightarrow> (kv \<times> response) result" where
  "exec_request c s req = (case req of
      ReqTask cmd \<Rightarrow> exec_task c s cmd
    | ReqSet k v \<Rightarrow> Inr (cf_put s k v, response_new v)
    | ReqDelete k \<Rightarrow> Inr (cf_del s k, response_none))"

text \<open>\<open>claim_and_execute\<close>: from the reply of the claim to the running handler, or to the end of the entry.\<close>

definition after_claim :: "(task_record \<Rightarrow> task_prog) \<Rightarrow> u64 \<Rightarrow> task_op_result result \<Rightarrow> phase option" where
  "after_claim start lease_epoch r =
     (case r of Inl _ \<Rightarrow> None
      | Inr claim \<Rightarrow> if \<not> op_ok claim then None
          else map_option (\<lambda>record. Executing lease_epoch record (start record)) (op_record claim))"

definition timed_out :: "string option result" where
  "timed_out = Inl ''task execution timed out after 30s''"

inductive worker_run ::
  "codec \<Rightarrow> handler_api \<Rightarrow> (string \<Rightarrow> worker_host) \<Rightarrow> (string \<Rightarrow> u32 \<Rightarrow> u64) \<Rightarrow> system \<Rightarrow> system \<Rightarrow> request list \<Rightarrow> bool"
  for c api hosts backoff s0 where
  run_start: "worker_run c api hosts backoff s0 s0 []"
| run_spawn: "worker_run c api hosts backoff s0 s log \<Longrightarrow> sy_pool s n i = None \<Longrightarrow>
    worker_run c api hosts backoff s0 (pool_upd n i (Some (Waiting e)) s) log"
| run_claim: "worker_run c api hosts backoff s0 s log \<Longrightarrow> sy_pool s n i = Some (Waiting e) \<Longrightarrow>
    exec_task c (sy_store s) (TaskClaim i n e now) = Inr (st, resp) \<Longrightarrow>
    worker_run c api hosts backoff s0
      (pool_upd n i (after_claim (execute_payload c api (hosts n) WithCluster mark_now) e (command_result c (Inr (accepted_reply resp))))
        (s\<lparr>sy_store := st\<rparr>)) (log @ [ReqTask (TaskClaim i n e now)])"
| run_claim_lost: "worker_run c api hosts backoff s0 s log \<Longrightarrow> sy_pool s n i = Some (Waiting e) \<Longrightarrow>
    worker_run c api hosts backoff s0 (pool_upd n i None s) log"
| run_submit: "worker_run c api hosts backoff s0 s log \<Longrightarrow> sy_pool s n i = Some (Executing e r (Submit TASKS req k)) \<Longrightarrow>
    exec_request c (sy_store s) req = Inr (st, resp) \<Longrightarrow>
    worker_run c api hosts backoff s0
      (pool_upd n i (Some (Executing e r (k (Inr (accepted_reply resp))))) (s\<lparr>sy_store := st\<rparr>)) (log @ [req])"
| run_submit_lost: "worker_run c api hosts backoff s0 s log \<Longrightarrow> sy_pool s n i = Some (Executing e r (Submit g req k)) \<Longrightarrow>
    worker_run c api hosts backoff s0 (pool_upd n i (Some (Executing e r (k (Inl err)))) s) log"
| run_submit_elsewhere: "worker_run c api hosts backoff s0 s log \<Longrightarrow> sy_pool s n i = Some (Executing e r (Submit g req k)) \<Longrightarrow>
    g \<noteq> TASKS \<Longrightarrow> worker_run c api hosts backoff s0 (pool_upd n i (Some (Executing e r (k reply))) s) log"
| run_perform: "worker_run c api hosts backoff s0 s log \<Longrightarrow> sy_pool s n i = Some (Executing e r (Perform act k)) \<Longrightarrow>
    worker_run c api hosts backoff s0
      (pool_upd n i (Some (Executing e r (k answer))) (s\<lparr>sy_effects := sy_effects s @ [(i, n, act)]\<rparr>)) log"
| run_pause: "worker_run c api hosts backoff s0 s log \<Longrightarrow> sy_pool s n i = Some (Executing e r (Pause secs p)) \<Longrightarrow>
    worker_run c api hosts backoff s0 (pool_upd n i (Some (Executing e r p)) s) log"
| run_wasm: "worker_run c api hosts backoff s0 s log \<Longrightarrow> sy_pool s n i = Some (Executing e r (RunWasm name source call k)) \<Longrightarrow>
    worker_run c api hosts backoff s0 (pool_upd n i (Some (Executing e r (k outcome))) s) log"
| run_finish: "worker_run c api hosts backoff s0 s log \<Longrightarrow> sy_pool s n i = Some (Executing e r (Finish out)) \<Longrightarrow>
    worker_run c api hosts backoff s0 (pool_upd n i (Some (Acking (ack_for backoff n e now r out))) s) log"
| run_timeout: "worker_run c api hosts backoff s0 s log \<Longrightarrow> sy_pool s n i = Some (Executing e r p) \<Longrightarrow>
    worker_run c api hosts backoff s0 (pool_upd n i (Some (Acking (ack_for backoff n e now r timed_out))) s) log"
| run_ack: "worker_run c api hosts backoff s0 s log \<Longrightarrow> sy_pool s n i = Some (Acking cmd) \<Longrightarrow>
    exec_task c (sy_store s) cmd = Inr (st, resp) \<Longrightarrow>
    worker_run c api hosts backoff s0 (pool_upd n i None (s\<lparr>sy_store := st\<rparr>)) (log @ [ReqTask cmd])"
| run_ack_lost: "worker_run c api hosts backoff s0 s log \<Longrightarrow> sy_pool s n i = Some (Acking cmd) \<Longrightarrow>
    worker_run c api hosts backoff s0 (pool_upd n i None s) log"
| run_crash: "worker_run c api hosts backoff s0 s log \<Longrightarrow>
    worker_run c api hosts backoff s0 (s\<lparr>sy_pool := (sy_pool s)(n := (\<lambda>_. None))\<rparr>) log"
| run_other: "worker_run c api hosts backoff s0 s log \<Longrightarrow>
    exec_request c (sy_store s) req = Inr (st, resp) \<Longrightarrow>
    worker_run c api hosts backoff s0 (s\<lparr>sy_store := st\<rparr>) (log @ [req])"

section \<open>What a handler may still do\<close>

primrec no_effect :: "'r prog \<Rightarrow> bool" where
  "no_effect (Finish r) = True"
| "no_effect (Submit g req k) = (\<forall>r. no_effect (k r))"
| "no_effect (Perform act k) = False"
| "no_effect (Pause secs p) = no_effect p"
| "no_effect (RunWasm name source call k) = (\<forall>r. no_effect (k r))"

primrec one_effect :: "'r prog \<Rightarrow> bool" where
  "one_effect (Finish r) = True"
| "one_effect (Submit g req k) = (\<forall>r. one_effect (k r))"
| "one_effect (Perform act k) = (\<forall>r. no_effect (k r))"
| "one_effect (Pause secs p) = one_effect p"
| "one_effect (RunWasm name source call k) = (\<forall>r. one_effect (k r))"

definition is_mark :: "string \<Rightarrow> string \<Rightarrow> u64 \<Rightarrow> string \<Rightarrow> request \<Rightarrow> bool" where
  "is_mark i n e g req \<longleftrightarrow> g = TASKS \<and> (\<exists>now. req = ReqTask (TaskMarkCommitted i n e now))"

text \<open>No act before the commit mark of this very claim was accepted, and at most one act after it.\<close>

primrec guarded :: "codec \<Rightarrow> string \<Rightarrow> string \<Rightarrow> u64 \<Rightarrow> 'r prog \<Rightarrow> bool" where
  "guarded c i n e (Finish r) = True"
| "guarded c i n e (Submit g req k) =
     (\<forall>r. if is_mark i n e g req \<and> mark_outcome c r = Inr () then one_effect (k r) else guarded c i n e (k r))"
| "guarded c i n e (Perform act k) = False"
| "guarded c i n e (Pause secs p) = guarded c i n e p"
| "guarded c i n e (RunWasm name source call k) = (\<forall>r. guarded c i n e (k r))"

text \<open>The task commands it sends are well-formed and no vacuum. A plain write may go to any group.\<close>

primrec tame :: "'r prog \<Rightarrow> bool" where
  "tame (Finish r) = True"
| "tame (Submit g req k) = ((\<forall>cmd. req = ReqTask cmd \<longrightarrow> cmd_ok cmd \<and> vacuum_ids cmd = []) \<and> (\<forall>r. tame (k r)))"
| "tame (Perform act k) = (\<forall>r. tame (k r))"
| "tame (Pause secs p) = tame p"
| "tame (RunWasm name source call k) = (\<forall>r. tame (k r))"

lemma no_effect_one: "no_effect p \<Longrightarrow> one_effect p"
  by (induction p) auto

lemma no_effect_guarded: "no_effect p \<Longrightarrow> guarded c i n e p"
  by (induction p) (auto simp: no_effect_one)

lemma mark_committed_guarded:
  assumes "tr_id r = i" "tr_assigned_node_id r = Some n" "tr_lease_epoch r = Some e"
    and "\<And>err. no_effect (k (Inl err))" "one_effect (k (Inr ()))" "\<And>x. tame (k x)"
  shows "guarded c i n e (mark_committed c WithCluster now r k) \<and> tame (mark_committed c WithCluster now r k)"
proof -
  have "guarded c i n e (k (mark_outcome c x))" if "mark_outcome c x \<noteq> Inr ()" for x
    using that assms(4) by (cases "mark_outcome c x") (auto intro: no_effect_guarded)
  then show ?thesis using assms by (auto simp: mark_committed_def is_mark_def cmd_ok_def)
qed

lemma quiet_handlers:
  "no_effect (digest_run api spec)" "tame (digest_run api spec)"
  "no_effect (sleep_run api sl)" "tame (sleep_run api sl)"
  "no_effect (wasm_run api host r we)" "tame (wasm_run api host r we)"
  "no_effect (kv_set_run api ctx kv)" "tame (kv_set_run api ctx kv)"
  by (auto simp: digest_run_def sleep_run_def wasm_run_def kv_set_run_def Let_def split: sum.splits)

text \<open>Every handler keeps to this discipline.\<close>

lemma execute_payload_guarded:
  assumes "tr_id r = i" "tr_assigned_node_id r = Some n" "tr_lease_epoch r = Some e"
  shows "guarded c i n e (execute_payload c api host WithCluster now r) \<and> tame (execute_payload c api host WithCluster now r)"
proof (cases "decode api (tr_payload r)")
  case (Inl err)
  then show ?thesis by (simp add: execute_payload_def)
next
  case (Inr payload)
  have email: "guarded c i n e (email_run c api WithCluster now r x) \<and> tame (email_run c api WithCluster now r x)" for x
    using mark_committed_guarded[OF assms]
    by (simp add: email_run_def Let_def) (force intro!: mark_committed_guarded[OF assms] split: sum.splits)
  have webhook: "guarded c i n e (webhook_run c api WithCluster now r x) \<and> tame (webhook_run c api WithCluster now r x)" for x
    by (simp only: webhook_run_def Let_def, rule mark_committed_guarded[OF assms]) (auto split: sum.splits)
  show ?thesis
    using Inr email webhook quiet_handlers
    by (cases payload) (auto simp: execute_payload_def execute_def intro: no_effect_guarded)
qed

section \<open>Counting the acts of one task\<close>

definition running_on :: "task_record \<Rightarrow> string \<Rightarrow> bool" where
  "running_on r n \<longleftrightarrow> tr_status r = Running \<and> tr_assigned_node_id r = Some n"

text \<open>How far an entry is: 0 when it cannot act any more, 1 before the mark, 2 between mark and act. The
  numbers of all nodes for one task, with the acts so far and its record, satisfy \<open>acts_ok\<close>.\<close>

definition stage :: "codec \<Rightarrow> string \<Rightarrow> string \<Rightarrow> phase option \<Rightarrow> nat" where
  "stage c i n ph = (case ph of
      Some (Executing e r p) \<Rightarrow> if no_effect p then 0 else if guarded c i n e p then 1 else 2
    | _ \<Rightarrow> 0)"

definition acts_ok :: "nat \<Rightarrow> (string \<Rightarrow> nat) \<Rightarrow> task_record option \<Rightarrow> bool" where
  "acts_ok acts st rec \<longleftrightarrow>
     (acts = 0 \<and> (\<forall>n. st n < 2)) \<or>
     (\<exists>r. rec = Some r \<and> tr_committed r \<and>
        (acts = 1 \<and> (\<forall>n. st n < 2) \<or> acts = 0 \<and> (\<exists>m. \<forall>n. 2 \<le> st n \<longleftrightarrow> n = m)) \<and>
        (\<forall>n. running_on r n \<longrightarrow> st n \<noteq> 1))"

lemma acts_ok_calm:
  assumes "acts_ok acts st rec" "\<And>n. st' n \<le> st n"
  shows "acts_ok acts st' rec"
proof (cases "\<forall>n. st n < 2")
  case True
  then have "\<forall>n. st' n < 2" using assms(2) by (meson le_less_trans)
  moreover have "st n \<noteq> 1 \<longrightarrow> st' n \<noteq> 1" for n using True[rule_format, of n] assms(2)[of n] by presburger
  ultimately show ?thesis using assms(1) True unfolding acts_ok_def by blast
next
  case False
  then obtain r m where r: "rec = Some r" "tr_committed r" "acts = 0" "\<And>n. 2 \<le> st n \<longleftrightarrow> n = m"
      "\<And>n. running_on r n \<Longrightarrow> st n \<noteq> 1"
    using assms(1) unfolding acts_ok_def by blast
  show ?thesis
  proof (cases "2 \<le> st' m")
    case True
    then have "2 \<le> st' n \<longleftrightarrow> n = m" for n using r(4)[of n] assms(2)[of n] by auto
    moreover have "running_on r n \<Longrightarrow> st' n \<noteq> 1" for n
      using True r(4)[of n] r(5)[of n] assms(2)[of n] by (cases "n = m") (auto simp: not_le less_2_cases_iff)
    ultimately show ?thesis using r(1-3) unfolding acts_ok_def by blast
  next
    case False
    then have "st' n < 2" for n using r(4)[of n] assms(2)[of n] by (cases "n = m") auto
    then show ?thesis using r(3) by (simp add: acts_ok_def)
  qed
qed

definition keeps_holder :: "task_record option \<Rightarrow> task_record option \<Rightarrow> bool" where
  "keeps_holder rec rec' \<longleftrightarrow> (\<forall>r. rec = Some r \<and> tr_committed r \<longrightarrow>
     (\<exists>r'. rec' = Some r' \<and> tr_committed r' \<and> (\<forall>n. running_on r' n \<longrightarrow> running_on r n)))"

lemma acts_ok_record: "acts_ok acts st rec \<Longrightarrow> keeps_holder rec rec' \<Longrightarrow> acts_ok acts st rec'"
  unfolding acts_ok_def keeps_holder_def by metis

text \<open>The mark of the entry on \<open>n\<close> is accepted.\<close>

lemma acts_ok_mark:
  assumes "acts_ok acts st (Some r)" "running_on r n" "tr_committed r'" "\<And>m. running_on r' m \<Longrightarrow> m = n"
    and "st n = 0 \<Longrightarrow> x = 0" "x \<le> 2" "\<And>m. st m \<le> 2" "keeps_holder (Some r) (Some r')"
  shows "acts_ok acts (st(n := x)) (Some r')"
proof (cases "acts = 0 \<and> (\<forall>n. st n < 2)")
  case True
  show ?thesis
  proof (cases "x = 2")
    case True
    with \<open>acts = 0 \<and> _\<close> have "2 \<le> (st(n := x)) m \<longleftrightarrow> m = n" for m by (auto simp: not_le)
    then show ?thesis using \<open>acts = 0 \<and> _\<close> True assms(3,4) unfolding acts_ok_def by fastforce
  next
    case False
    then show ?thesis using True assms(6) by (auto simp: acts_ok_def)
  qed
next
  case False
  then have "st n \<noteq> 1" using assms(1,2) unfolding acts_ok_def by auto
  then have "(st(n := x)) m \<le> st m" for m
    using assms(5,6) assms(7)[of n] by (cases "st n = 0") auto
  then show ?thesis using acts_ok_calm[OF acts_ok_record[OF assms(1,8)]] by blast
qed

lemma acts_ok_perform:
  assumes "acts_ok acts st rec" "st n = 2"
  shows "acts_ok (Suc acts) (st(n := 0)) rec"
proof -
  have "\<not> (\<forall>m. st m < 2)" using assms(2) by (metis less_irrefl)
  then obtain r m where r: "rec = Some r" "tr_committed r" "acts = 0" "\<And>n. 2 \<le> st n \<longleftrightarrow> n = m"
      "\<And>n. running_on r n \<Longrightarrow> st n \<noteq> 1"
    using assms(1) unfolding acts_ok_def by blast
  then have "m = n" using assms(2) by (metis order_refl)
  then have "(st(n := 0)) k < 2" for k using r(4)[of k] by auto
  moreover have "running_on r k \<Longrightarrow> (st(n := 0)) k \<noteq> 1" for k using r(5) by auto
  ultimately show ?thesis using r(1-3) by (auto simp: acts_ok_def)
qed

section \<open>The invariant of a run\<close>

definition acts_of :: "string \<Rightarrow> system \<Rightarrow> nat" where
  "acts_of i s = length (filter (\<lambda>(j, n, act). j = i) (sy_effects s))"

definition flight_ok :: "codec \<Rightarrow> string \<Rightarrow> string \<Rightarrow> phase option \<Rightarrow> bool" where
  "flight_ok c i n ph = (case ph of
      Some (Executing e r p) \<Rightarrow> tr_id r = i \<and> tr_assigned_node_id r = Some n \<and> tr_lease_epoch r = Some e \<and> tame p \<and>
        (guarded c i n e p \<or> one_effect p)
    | Some (Acking cmd) \<Rightarrow> cmd_ok cmd \<and> vacuum_ids cmd = []
    | _ \<Rightarrow> True)"

abbreviation stages :: "codec \<Rightarrow> string \<Rightarrow> system \<Rightarrow> string \<Rightarrow> nat" where
  "stages c i s n \<equiv> stage c i n (sy_pool s n i)"

definition run_inv :: "codec \<Rightarrow> string \<Rightarrow> system \<Rightarrow> bool" where
  "run_inv c i s \<longleftrightarrow> queue_ready c (sy_store s) \<and> (\<forall>n j. flight_ok c j n (sy_pool s n j)) \<and>
     acts_ok (acts_of i s) (stages c i s) (recs c (sy_store s) i)"

lemma stages_upd: "stages c i (pool_upd n j ph s) = (if j = i then (stages c i s)(n := stage c i n ph) else stages c i s)"
  by (auto simp: pool_upd_def fun_eq_iff)

lemma pool_upd_simps [simp]: "sy_store (pool_upd n j ph s) = sy_store s" "acts_of i (pool_upd n j ph s) = acts_of i s"
  "sy_pool (pool_upd n j ph s) m k = (if m = n \<and> k = j then ph else sy_pool s m k)"
  by (auto simp: pool_upd_def acts_of_def)

lemma acts_of_upd [simp]: "acts_of i (s\<lparr>sy_store := st\<rparr>) = acts_of i s" "acts_of i (s\<lparr>sy_pool := pl\<rparr>) = acts_of i s"
  "acts_of i (s\<lparr>sy_effects := sy_effects s @ [(j, n, act)]\<rparr>) = (if j = i then Suc (acts_of i s) else acts_of i s)"
  by (simp_all add: acts_of_def)

lemma stage_simps [simp]: "stage c i n None = 0" "stage c i n (Some (Waiting e)) = 0" "stage c i n (Some (Acking cmd)) = 0"
  by (simp_all add: stage_def)

lemma stage_le: "stage c i n ph \<le> 2"
  by (simp add: stage_def split: option.split phase.split)

lemma run_invI:
  assumes "queue_ready c (sy_store s)" "\<And>n j. flight_ok c j n (sy_pool s n j)" "flight_ok c j n ph"
    and "acts_ok (acts_of i s) (if j = i then (stages c i s)(n := stage c i n ph) else stages c i s) (recs c (sy_store s) i)"
  shows "run_inv c i (pool_upd n j ph s)"
  unfolding run_inv_def stages_upd using assms by simp

lemma run_inv_calm:
  assumes "run_inv c i s" "flight_ok c j n ph" "stage c j n ph \<le> stages c j s n"
  shows "run_inv c i (pool_upd n j ph s)"
proof -
  have "acts_ok (acts_of i s) (if j = i then (stages c i s)(n := stage c i n ph) else stages c i s) (recs c (sy_store s) i)"
    by (rule acts_ok_calm[of "acts_of i s" "stages c i s"]) (use assms(1,3) in \<open>auto simp: run_inv_def\<close>)
  then show ?thesis using assms(1,2) by (intro run_invI) (auto simp: run_inv_def)
qed

lemma record_keeps_holder:
  assumes "wf_record i r" "tr_committed r"
  shows "tr_committed (next_record cmd r)" "running_on (next_record cmd r) n \<Longrightarrow> running_on r n"
  using next_record_committed[OF assms] committed_status[OF assms]
  by (simp, cases cmd, auto simp: next_record_def running_on_def Let_def split: if_splits)

lemma step_keeps_holder:
  assumes "queue_ready c s" "cmd_ok cmd" "i \<notin> set (vacuum_ids cmd)"
  shows "keeps_holder (recs c s i) (recs c (task_step c s cmd) i)"
  using assms record_keeps_holder[OF ready_wf[OF assms(1)]]
  by (auto simp: keeps_holder_def recs_step_Some)

lemma exec_taskD:
  assumes "queue_ready c s" "cmd_ok cmd" "exec_task c s cmd = Inr (st, resp)"
  shows "st = task_step c s cmd" "resp = into_response c (snd (aq_step (abs_queue c s) cmd))" "queue_ready c st"
  using assms ready_stepD[OF assms(1,2)] tq.step_inv[OF assms(1,2)] by auto

lemma run_inv_store:
  assumes "run_inv c i s" "cmd_ok cmd" "i \<notin> set (vacuum_ids cmd)" "exec_task c (sy_store s) cmd = Inr (st, resp)"
  shows "run_inv c i (s\<lparr>sy_store := st\<rparr>)"
  using assms exec_taskD[OF _ assms(2,4)] step_keeps_holder[OF _ assms(2,3)]
  by (auto simp: run_inv_def acts_of_def intro: acts_ok_record)

text \<open>A plain write outside the task key space leaves every record as it is.\<close>

lemma plain_write_keeps:
  assumes "queue_ready c s" "plain_request req" "\<forall>cmd. req \<noteq> ReqTask cmd" "exec_request c s req = Inr (st, resp)"
  shows "queue_ready c st \<and> recs c st = recs c s"
proof -
  have ok: "cf_ok s" using assms(1) by (simp add: queue_ready_def queue_inv_def)
  have "cf_get st k = cf_get s k" if "starts_with k TASK_SPACE" for k
    using assms(2-4) that by (auto simp: exec_request_def plain_request_def cf_get_put cf_get_del split: request.splits)
  moreover have "cf_ok st"
    using assms(3,4) ok by (auto simp: exec_request_def cf_ok_put cf_ok_del split: request.splits)
  ultimately show ?thesis using queue_outside[OF _ _ assms(1)] by (metis aq_recs_abs)
qed

lemma run_inv_request:
  assumes "run_inv c i s" "plain_request req" "\<forall>cmd. req = ReqTask cmd \<longrightarrow> i \<notin> set (vacuum_ids cmd)"
    and "exec_request c (sy_store s) req = Inr (st, resp)"
  shows "run_inv c i (s\<lparr>sy_store := st\<rparr>)"
proof (cases "\<exists>cmd. req = ReqTask cmd")
  case True
  then obtain cmd where "req = ReqTask cmd" by blast
  with assms(2-4) run_inv_store[OF assms(1)] show ?thesis by (simp add: exec_request_def plain_request_def)
next
  case False
  then show ?thesis using assms plain_write_keeps[OF _ assms(2) _ assms(4)] by (simp add: run_inv_def acts_of_def)
qed

section \<open>Every step keeps it\<close>

lemma handler_next:
  assumes "flight_ok c i n (Some (Executing e r p))" "tame p'"
    and "no_effect p \<Longrightarrow> no_effect p'" "guarded c i n e p \<Longrightarrow> guarded c i n e p'" "one_effect p \<Longrightarrow> one_effect p'"
  shows "flight_ok c i n (Some (Executing e r p'))"
    "stage c i n (Some (Executing e r p')) \<le> stage c i n (Some (Executing e r p))"
  using assms by (auto simp: flight_ok_def stage_def)

lemma run_inv_next:
  assumes "run_inv c i s" "sy_pool s n j = Some (Executing e r p)" "tame p \<Longrightarrow> tame p'"
    and "no_effect p \<Longrightarrow> no_effect p'" "guarded c j n e p \<Longrightarrow> guarded c j n e p'" "one_effect p \<Longrightarrow> one_effect p'"
  shows "run_inv c i (pool_upd n j (Some (Executing e r p')) s)"
proof -
  have ok: "flight_ok c j n (Some (Executing e r p))" using assms(1,2) by (metis run_inv_def)
  then have "tame p'" using assms(3) by (simp add: flight_ok_def)
  from handler_next[OF ok this assms(4-6)] show ?thesis using run_inv_calm[OF assms(1)] assms(2) by simp
qed

lemma run_inv_claim:
  assumes inv: "run_inv c i s"
    and exec: "exec_task c (sy_store s) (TaskClaim j n e now) = Inr (st, resp)"
    and ph: "ph = after_claim (execute_payload c api host WithCluster mark_now) e (command_result c (Inr (accepted_reply resp)))"
  shows "run_inv c i (pool_upd n j ph (s\<lparr>sy_store := st\<rparr>))"
proof -
  let ?claim = "TaskClaim j n e now"
  have ready: "queue_ready c (sy_store s)" and ok: "cmd_ok ?claim" using inv by (simp_all add: run_inv_def cmd_ok_def)
  have inv1: "run_inv c i (s\<lparr>sy_store := st\<rparr>)" using run_inv_store[OF inv ok _ exec] by simp
  have res: "command_result c (Inr (accepted_reply resp)) = Inr (snd (aq_step (abs_queue c (sy_store s)) ?claim))"
    using exec_taskD[OF ready ok exec] ready by (simp add: command_result_reply queue_ready_def)
  show ?thesis
  proof (cases "ph")
    case None
    then show ?thesis using run_inv_calm[OF inv1] by (simp add: flight_ok_def)
  next
    case (Some ph')
    then obtain r where r: "recs c (sy_store s) j = Some r" "tr_status r = Assigned" "tr_assigned_node_id r = Some n"
        "tr_lease_epoch r = Some e"
        "ph = Some (Executing e (next_record ?claim r) (execute_payload c api host WithCluster mark_now (next_record ?claim r)))"
      using ph unfolding res
      by (auto simp: after_claim_def op_result_rejected_def op_result_id_def next_record_def Let_def split: if_splits option.splits)
    have wf: "tr_id r = j" "\<not> tr_committed r" using ready_wf[OF ready r(1)] r(2) by (auto simp: wf_record_def)
    have ids: "tr_id (next_record ?claim r) = j" "tr_assigned_node_id (next_record ?claim r) = Some n"
      "tr_lease_epoch (next_record ?claim r) = Some e"
      using r(2-4) wf(1) by (simp_all add: next_record_def Let_def)
    from execute_payload_guarded[OF ids]
    have new: "flight_ok c j n ph" "stage c j n ph < 2" using ids by (auto simp: flight_ok_def stage_def r(5))
    have "acts_ok (acts_of i s) ((stages c i s)(n := stage c i n ph)) (recs c st i)" if "j = i"
      using inv r(1) wf(2) new(2) that by (auto simp: run_inv_def acts_ok_def)
    then show ?thesis using inv1 new(1) by (intro run_invI) (auto simp: run_inv_def)
  qed
qed

lemma run_inv_mark:
  assumes inv: "run_inv c i s" and at: "sy_pool s n j = Some (Executing e r (Submit TASKS req k))"
    and req: "req = ReqTask (TaskMarkCommitted j n e now)"
    and exec: "exec_task c (sy_store s) (TaskMarkCommitted j n e now) = Inr (st, resp)"
    and won: "mark_outcome c (Inr (accepted_reply resp)) = Inr ()"
  shows "run_inv c i (pool_upd n j (Some (Executing e r (k (Inr (accepted_reply resp))))) (s\<lparr>sy_store := st\<rparr>))"
proof -
  let ?mark = "TaskMarkCommitted j n e now" and ?ph = "Some (Executing e r (k (Inr (accepted_reply resp))))"
  have ready: "queue_ready c (sy_store s)" and ok: "cmd_ok ?mark" and entry: "flight_ok c j n (Some (Executing e r (Submit TASKS req k)))"
    using inv at[symmetric] by (simp_all add: run_inv_def cmd_ok_def)
  have inv1: "run_inv c i (s\<lparr>sy_store := st\<rparr>)" using run_inv_store[OF inv ok _ exec] by simp
  note st = exec_taskD[OF ready ok exec]
  have "op_ok (snd (aq_step (abs_queue c (sy_store s)) ?mark))"
    using won ready by (simp add: mark_outcome_def st(2) command_result_reply queue_ready_def split: if_splits)
  then obtain q where q: "recs c (sy_store s) j = Some q" "ack_matches q n e"
    by (auto simp: op_result_rejected_def split: option.splits if_splits)
  have q': "recs c st j = Some (next_record ?mark q)" using recs_step_Some[OF ready ok q(1)] st(1) by simp
  have mark: "running_on q n" "tr_committed (next_record ?mark q)" "\<And>m. running_on (next_record ?mark q) m \<Longrightarrow> m = n"
    using q(2) by (auto simp: running_on_def ack_matches_def next_record_def split: if_splits)
  have one: "one_effect (k (Inr (accepted_reply resp)))" and tame: "tame (k (Inr (accepted_reply resp)))"
    using entry won by (auto simp: flight_ok_def is_mark_def req split: if_splits)
  have new: "flight_ok c j n ?ph" "stages c j s n = 0 \<Longrightarrow> stage c j n ?ph = 0"
    using entry one tame at by (auto simp: flight_ok_def stage_def split: if_splits)
  have "acts_ok (acts_of i s) ((stages c i s)(n := stage c i n ?ph)) (recs c st i)" if "j = i"
    using acts_ok_mark[OF _ mark(1,2,3) new(2) stage_le stage_le] inv q q' step_keeps_holder[OF ready ok, of j] that
    by (auto simp: run_inv_def st(1))
  then show ?thesis using inv1 new(1) by (intro run_invI) (auto simp: run_inv_def)
qed

lemma run_inv_submit:
  assumes inv: "run_inv c i s" and at: "sy_pool s n j = Some (Executing e r (Submit TASKS req k))"
    and exec: "exec_request c (sy_store s) req = Inr (st, resp)" and plain: "plain_request req"
  shows "run_inv c i (pool_upd n j (Some (Executing e r (k (Inr (accepted_reply resp))))) (s\<lparr>sy_store := st\<rparr>))"
proof -
  let ?r = "Inr (accepted_reply resp)"
  have entry: "flight_ok c j n (Some (Executing e r (Submit TASKS req k)))" using inv at by (metis run_inv_def)
  then have cmd: "\<forall>cmd. req = ReqTask cmd \<longrightarrow> i \<notin> set (vacuum_ids cmd)" by (auto simp: flight_ok_def)
  show ?thesis
  proof (cases "is_mark j n e TASKS req \<and> mark_outcome c ?r = Inr ()")
    case True
    then show ?thesis using run_inv_mark[OF inv at] exec by (auto simp: is_mark_def exec_request_def)
  next
    case False
    have inv1: "run_inv c i (s\<lparr>sy_store := st\<rparr>)" using run_inv_request[OF inv plain cmd exec] .
    show ?thesis
      by (rule run_inv_next[OF inv1, where p = "Submit TASKS req k"]) (use at False in \<open>auto split: if_splits\<close>)
  qed
qed

lemma run_inv_perform:
  assumes inv: "run_inv c i s" and at: "sy_pool s n j = Some (Executing e r (Perform act k))"
  shows "run_inv c i (pool_upd n j (Some (Executing e r (k answer))) (s\<lparr>sy_effects := sy_effects s @ [(j, n, act)]\<rparr>))"
    (is "run_inv c i (pool_upd n j ?ph ?s)")
proof -
  have entry: "flight_ok c j n (Some (Executing e r (Perform act k)))" using inv at by (metis run_inv_def)
  then have quiet: "no_effect (k answer)" by (auto simp: flight_ok_def)
  then have new: "flight_ok c j n ?ph" "stage c j n ?ph = 0" using entry by (auto simp: flight_ok_def stage_def no_effect_one)
  have "stages c j s n = 2" using at by (simp add: stage_def)
  then have "acts_ok (Suc (acts_of i s)) ((stages c i s)(n := stage c i n ?ph)) (recs c (sy_store s) i)" if "j = i"
    using inv new(2) acts_ok_perform[of "acts_of i s" "stages c i s" "recs c (sy_store s) i" n] that by (simp add: run_inv_def)
  then show ?thesis using inv new(1) by (intro run_invI) (auto simp: run_inv_def)
qed

lemma run_inv_crash:
  assumes "run_inv c i s"
  shows "run_inv c i (s\<lparr>sy_pool := (sy_pool s)(n := (\<lambda>_. None))\<rparr>)" (is "run_inv c i ?s")
proof -
  have "acts_ok (acts_of i s) (stages c i ?s) (recs c (sy_store s) i)"
    by (rule acts_ok_calm[of "acts_of i s" "stages c i s"]) (use assms in \<open>auto simp: run_inv_def\<close>)
  then show ?thesis using assms by (auto simp: run_inv_def flight_ok_def)
qed

lemma ack_ok: "cmd_ok (ack_for backoff n e now r out)" "vacuum_ids (ack_for backoff n e now r out) = []"
  by (simp_all add: ack_for_def cmd_ok_def split: sum.split)

lemma worker_run_inv:
  assumes "worker_run c api hosts backoff s0 s log" "run_inv c i s0" "list_all plain_request log"
    and "\<forall>cmd. ReqTask cmd \<in> set log \<longrightarrow> i \<notin> set (vacuum_ids cmd)"
  shows "run_inv c i s"
  using assms
proof (induction rule: worker_run.induct)
  case (run_claim s log n j e now st resp mark_now)
  then show ?case using run_inv_claim by simp
next
  case (run_submit s log n j e r req k st resp)
  then show ?case using run_inv_submit by auto
next
  case (run_submit_lost s log n j e r g req k err)
  then show ?case
    by (intro run_inv_next[where p = "Submit g req k"]) (auto simp: mark_outcome_def command_result_def split: if_splits)
next
  case (run_submit_elsewhere s log n j e r g req k reply)
  then show ?case by (intro run_inv_next[where p = "Submit g req k"]) (auto simp: is_mark_def)
next
  case (run_pause s log n j e r secs p)
  then show ?case by (intro run_inv_next[where p = "Pause secs p"]) auto
next
  case (run_wasm s log n j e r name source call k outcome)
  then show ?case by (intro run_inv_next[where p = "RunWasm name source call k"]) auto
next
  case (run_perform s log n j e r act k answer)
  then show ?case using run_inv_perform by simp
next
  case (run_ack s log n j cmd st resp)
  then have inv: "run_inv c i s" by simp
  then have "flight_ok c j n (Some (Acking cmd))" using run_ack.hyps(2) by (metis run_inv_def)
  then have "run_inv c i (s\<lparr>sy_store := st\<rparr>)" using run_inv_store[OF inv _ _ run_ack.hyps(3)] by (simp add: flight_ok_def)
  then show ?case by (rule run_inv_calm) (simp_all add: flight_ok_def)
next
  case (run_other s log req st resp)
  then have "run_inv c i s" "plain_request req" "\<forall>cmd. req = ReqTask cmd \<longrightarrow> i \<notin> set (vacuum_ids cmd)" by auto
  then show ?case using run_inv_request run_other.hyps(2) by blast
qed (auto intro!: run_inv_calm run_inv_crash simp: flight_ok_def ack_ok)

end
