(* ===== verification/HandlerClaims.thy ===== *)
theory HandlerClaims
  imports WorkerRuns TaskClaims
begin

text \<open>
  The properties of the task handlers: what a payload decodes to, which module a WASM task runs, and
  how often a task acts on the outside world when all workers, the scheduler and the network are
  taken together.
\<close>

section \<open>Payloads\<close>

text \<open>What \<open>sonic_rs\<close> documents for the tagged enum: the tag is the kind, and the struct of the variant
  decodes from the same text.\<close>

definition payload_codec_ok :: "handler_api \<Rightarrow> bool" where
  "payload_codec_ok api \<longleftrightarrow> (\<forall>p. \<exists>s. ha_encode api p = Inr s \<and> ha_tag api s = Inr (Some (kind p)) \<and>
     (case p of Email x \<Rightarrow> ha_email api s = Inr x | Webhook x \<Rightarrow> ha_webhook api s = Inr x
      | Digest x \<Rightarrow> ha_digest api s = Inr x | KvSetTask x \<Rightarrow> ha_kv_set api s = Inr x
      | SleepTask x \<Rightarrow> ha_sleep api s = Inr x | WasmTask x \<Rightarrow> ha_wasm api s = Inr x))"

lemma payload_roundtrip:
  assumes "payload_codec_ok api"
  shows "rbind (encode api p) (decode api) = Inr p"
proof -
  obtain s where "ha_encode api p = Inr s" "ha_tag api s = Inr (Some (kind p))"
     "case p of Email x \<Rightarrow> ha_email api s = Inr x | Webhook x \<Rightarrow> ha_webhook api s = Inr x
      | Digest x \<Rightarrow> ha_digest api s = Inr x | KvSetTask x \<Rightarrow> ha_kv_set api s = Inr x
      | SleepTask x \<Rightarrow> ha_sleep api s = Inr x | WasmTask x \<Rightarrow> ha_wasm api s = Inr x"
    using assms unfolding payload_codec_ok_def by blast
  then show ?thesis by (cases p) (simp_all add: encode_def decode_def payload_kind_def map_err_def variant_def)
qed

text \<open>A tag outside the table is refused, whatever the text.\<close>

lemma unknown_kind_refused:
  "ha_tag api s = Inr (Some k) \<Longrightarrow> k \<notin> set KNOWN_KINDS \<Longrightarrow> \<exists>e. decode api s = Inl e"
  by (simp add: decode_def payload_kind_def map_err_def KNOWN_KINDS_def)

lemma kind_known: "kind p \<in> set KNOWN_KINDS"
  by (cases p) (simp_all add: KNOWN_KINDS_def)

section \<open>Modules\<close>

lemma to_hex_eq: "to_hex bs = concat (map hex_byte bs)"
proof -
  have "foldl (\<lambda>hex b. hex @ hex_byte b) acc bs = acc @ concat (map hex_byte bs)" for acc
    by (induction bs arbitrary: acc) simp_all
  then show ?thesis by (simp add: to_hex_def)
qed

text \<open>One round of a digest task over the text of a module is the digest a payload pins.\<close>

lemma digest_is_module_hash: "to_hex (digest_chain api 1 bs) = module_hash (ha_hashes api) bs"
  by (simp add: to_hex_eq module_hash_def)

text \<open>A WASM task runs a module only when its payload names exactly one source, and with a pin only the
  module of that digest.\<close>

lemma wasm_module_pinned:
  assumes "module_source api host we = Inr bs"
  shows "length (filter (\<lambda>x. x \<noteq> None) [we_module_wat we, we_module_b64 we, we_module_file we]) = 1"
    and "we_module_sha256 we = Some pin \<Longrightarrow> module_hash (ha_hashes api) bs = expected_digest pin"
  using assms by (auto simp: module_source_def Let_def rbind_Inr_iff split: option.splits if_splits)

lemma wasm_runs_source:
  assumes "wasm_run api host r we = RunWasm name bs call k"
  shows "module_source api host we = Inr bs \<and> name = ''wasmtime'' \<and> wi_fuel_limit call = Some WASM_FUEL_LIMIT \<and>
    wi_task_id call = Some (tr_id r)"
  using assms
  by (auto simp: wasm_run_def selected_runtime_def runtime_by_name_def Let_def split: sum.splits option.splits if_splits)

section \<open>Acts on the outside world\<close>

text \<open>C8: an email is sent or a webhook posted at most once per task. In every interleaving of the
  workers of all nodes with the scheduler, with clients and with a network that loses, delays and
  repeats requests, through crashes, timeouts, retries, requeues and reassignments under the same or
  another lease, whatever payloads the tasks have, a task acts on the outside world at most once
  until it is vacuumed; and once it has acted its record is past the commit point and running, done
  or failed. The condition is on what the tasks group executed in the run: no plain write, of a
  client or of a \<open>kv_set\<close> task, hit a key of the \<open>task:\<close> space, and the nodes that tasks
  were assigned to have no colon in their names (\<open>plain_request\<close>). The code enforces neither.\<close>

theorem effects_at_most_once:
  assumes "codec_ok c" "queue_inv c (sy_store s0)" "sy_pool s0 = (\<lambda>_ _. None)" "sy_effects s0 = []"
    and "worker_run c api hosts backoff s0 s log" "list_all plain_request log"
    and "\<forall>cmd. ReqTask cmd \<in> set log \<longrightarrow> i \<notin> set (vacuum_ids cmd)"
  shows "length (filter (\<lambda>(j, n, act). j = i) (sy_effects s)) \<le> 1 \<and>
    (i \<in> fst ` set (sy_effects s) \<longrightarrow> (\<exists>r. recs c (sy_store s) i = Some r \<and> tr_committed r \<and>
       tr_status r \<in> {Running, Done, Failed}))"
proof -
  have "run_inv c i s0"
    using assms(1-4) by (simp add: run_inv_def queue_ready_def flight_ok_def acts_ok_def acts_of_def)
  then have inv: "run_inv c i s" using worker_run_inv[OF assms(5) _ assms(6,7)] by blast
  then have "acts_of i s \<le> 1" by (auto simp: run_inv_def acts_ok_def)
  moreover have "\<exists>r. recs c (sy_store s) i = Some r \<and> tr_committed r \<and> tr_status r \<in> {Running, Done, Failed}"
    if "i \<in> fst ` set (sy_effects s)"
  proof -
    have "acts_of i s \<noteq> 0" using that by (force simp: acts_of_def filter_empty_conv)
    then obtain r where "recs c (sy_store s) i = Some r" "tr_committed r" using inv by (auto simp: run_inv_def acts_ok_def)
    then show ?thesis using inv committed_status ready_wf by (fastforce simp: run_inv_def)
  qed
  ultimately show ?thesis by (simp add: acts_of_def)
qed

text \<open>A run in which the task acts: enqueued, assigned, claimed, marked, sent, while a client writes a plain
  value into the tasks group. The decoder knows \<open>kv_set\<close> payloads that write a task record.\<close>

definition mail_api :: handler_api where
  "mail_api = \<lparr>ha_tag = (\<lambda>p. Inr (Some (if p = ''kv'' then ''kv_set'' else ''email''))), ha_email = (\<lambda>p. Inr \<lparr>em_to = p\<rparr>), ha_webhook = (\<lambda>_. Inl []),
     ha_digest = (\<lambda>_. Inl []), ha_kv_set = (\<lambda>_. Inr \<lparr>ks_key = rec_key ''t1'', ks_value = [], ks_group_id = TASKS\<rparr>), ha_sleep = (\<lambda>_. Inl []), ha_wasm = (\<lambda>_. Inl []),
     ha_encode = (\<lambda>_. Inl []), ha_json = (\<lambda>_. Inr ''{}''), ha_base64 = (\<lambda>_. Inl []), ha_status_text = (\<lambda>_. []),
     ha_hashes = \<lparr>wa_xxh3 = (\<lambda>_. 0), wa_sha256 = (\<lambda>b. b), wa_encode = (\<lambda>_. Inl []), wa_decode = (\<lambda>_. Inl [])\<rparr>\<rparr>"

definition mail_cmds :: "task_request list" where
  "mail_cmds = [TaskEnqueue ''t1'' ''a@b'' 5 None 3, TaskAssign ''t1'' ''n1'' 7 8]"

definition mail_start :: system where
  "mail_start = \<lparr>sy_store = run_tasks demo_codec [] mail_cmds, sy_pool = (\<lambda>_ _. None), sy_effects = []\<rparr>"

lemma mail_ready: "queue_ready demo_codec (sy_store mail_start)"
  unfolding mail_start_def mail_cmds_def by (simp add: run_tasks_ready queue_ready_empty cmd_ok_def no_colon_def)

definition mail_record :: task_record where
  "mail_record = (new_record ''t1'' ''a@b'' 5 None 3)\<lparr>tr_status := Assigned, tr_assigned_node_id := Some ''n1'',
     tr_lease_epoch := Some 7, tr_updated_at := 8\<rparr>"

lemma mail_recs: "recs demo_codec (sy_store mail_start) = [''t1'' \<mapsto> mail_record]"
  unfolding mail_start_def mail_cmds_def mail_record_def
  by (simp add: recs_run queue_ready_empty abs_queue_empty cmd_ok_def no_colon_def)
     (simp add: aq_next_def new_record_def fun_eq_iff Let_def)

abbreviation mail_claim :: task_request where "mail_claim \<equiv> TaskClaim ''t1'' ''n1'' 7 9"
abbreviation mail_mark :: task_request where "mail_mark \<equiv> TaskMarkCommitted ''t1'' ''n1'' 7 10"

definition mail_claimed :: task_record where
  "mail_claimed = next_record mail_claim mail_record"

lemma mail_step:
  assumes "queue_ready demo_codec st" "recs demo_codec st ''t1'' = Some r" "cmd = mail_claim \<or> cmd = mail_mark"
  shows "exec_task demo_codec st cmd = Inr (task_step demo_codec st cmd, into_response demo_codec (snd (rec_step cmd r))) \<and>
    queue_ready demo_codec (task_step demo_codec st cmd) \<and> recs demo_codec (task_step demo_codec st cmd) ''t1'' = Some (next_record cmd r)"
proof -
  have ok: "cmd_ok cmd" "cmd_id cmd = Some ''t1''" using assms(3) by (auto simp: cmd_ok_def)
  have "snd (aq_step (abs_queue demo_codec st) cmd) = snd (rec_step cmd r)" using assms(2,3) by (auto simp: split_beta)
  then show ?thesis using ready_stepD[OF assms(1) ok(1)] tq.step_inv[OF assms(1) ok(1)] recs_step_Some[OF assms(1) ok(1) assms(2)] ok(2)
    by simp
qed

lemma mail_accepted:
  "snd (rec_step mail_claim mail_record) = op_result_id ''t1'' None (Some mail_claimed) None"
  "snd (rec_step mail_mark mail_claimed) = op_result_ok"
  by (simp_all add: mail_claimed_def mail_record_def next_record_def new_record_def ack_matches_def Let_def)

abbreviation mail_sent :: "u16 result \<Rightarrow> task_prog" where
  "mail_sent x \<equiv> Finish (encode_result mail_api [(''delivered_to'', JfText ''a@b''), (''attempt'', JfNum (unat (tr_attempts mail_claimed)))])"

abbreviation mail_next :: "task_write_reply result \<Rightarrow> task_prog" where
  "mail_next r \<equiv> case mark_outcome demo_codec r of Inl e \<Rightarrow> Finish (Inl e) | Inr _ \<Rightarrow> Perform (SendEmail ''a@b'') mail_sent"

lemma mail_program:
  "execute_payload demo_codec mail_api host WithCluster 10 mail_claimed = Submit TASKS (ReqTask mail_mark) mail_next"
proof -
  have "decode mail_api ''a@b'' = Inr (Email \<lparr>em_to = ''a@b''\<rparr>)"
    by (simp add: decode_def payload_kind_def map_err_def mail_api_def variant_def)
  moreover have "tr_id mail_claimed = ''t1''" "tr_payload mail_claimed = ''a@b''" "tr_assigned_node_id mail_claimed = Some ''n1''"
    "tr_lease_epoch mail_claimed = Some 7"
    by (simp_all add: mail_claimed_def mail_record_def next_record_def new_record_def Let_def)
  ultimately show ?thesis by (simp add: execute_payload_def execute_def email_run_def starts_with_def mark_committed_def)
qed

lemma mail_run:
  "\<exists>s log. worker_run demo_codec mail_api (\<lambda>_. host) (\<lambda>_ _. 5) mail_start s log \<and>
     sy_effects s = [(''t1'', ''n1'', SendEmail ''a@b'')] \<and> set log \<subseteq> {ReqTask mail_claim, ReqTask mail_mark, ReqSet ''note'' ''x''}"
proof -
  let ?run = "worker_run demo_codec mail_api (\<lambda>_. host) (\<lambda>_ _. 5) mail_start"
  let ?st1 = "task_step demo_codec (sy_store mail_start) mail_claim"
  let ?st2 = "task_step demo_codec ?st1 mail_mark"
  let ?s1 = "pool_upd ''n1'' ''t1'' (Some (Waiting 7)) mail_start"
  let ?p = "execute_payload demo_codec mail_api host WithCluster 10 mail_claimed"
  let ?s2 = "pool_upd ''n1'' ''t1'' (Some (Executing 7 mail_claimed ?p)) (?s1\<lparr>sy_store := ?st1\<rparr>)"
  let ?s3 = "pool_upd ''n1'' ''t1'' (Some (Executing 7 mail_claimed (Perform (SendEmail ''a@b'') mail_sent))) (?s2\<lparr>sy_store := ?st2\<rparr>)"
  let ?s4 = "pool_upd ''n1'' ''t1'' (Some (Executing 7 mail_claimed (mail_sent (Inr 200))))
    (?s3\<lparr>sy_effects := sy_effects ?s3 @ [(''t1'', ''n1'', SendEmail ''a@b'')]\<rparr>)"
  have ok: "codec_ok demo_codec" using mail_ready by (simp add: queue_ready_def)
  have one: "exec_task demo_codec (sy_store mail_start) mail_claim =
      Inr (?st1, into_response demo_codec (op_result_id ''t1'' None (Some mail_claimed) None))"
    "queue_ready demo_codec ?st1" "recs demo_codec ?st1 ''t1'' = Some mail_claimed"
    using mail_step[OF mail_ready, of mail_record mail_claim] mail_accepted(1) by (simp_all add: mail_recs mail_claimed_def)
  have two: "exec_task demo_codec ?st1 mail_mark = Inr (?st2, into_response demo_codec op_result_ok)"
    using mail_step[OF one(2,3)] mail_accepted(2) by simp
  have "?run ?s1 []" by (rule run_spawn[OF run_start]) (simp add: mail_start_def)
  then have "?run ?s2 [ReqTask mail_claim]"
    using run_claim[of demo_codec mail_api "\<lambda>_. host" "\<lambda>_ _. 5" mail_start ?s1 "[]" "''n1''" "''t1''" 7 9 ?st1 _ 10] one(1)
    by (simp add: after_claim_def command_result_reply[OF ok] op_result_id_def)
  moreover have "sy_pool ?s2 ''n1'' ''t1'' = Some (Executing 7 mail_claimed (Submit TASKS (ReqTask mail_mark) mail_next))"
    by (simp add: mail_program)
  moreover have "exec_request demo_codec (sy_store ?s2) (ReqTask mail_mark) = Inr (?st2, into_response demo_codec op_result_ok)"
    using two by (simp add: exec_request_def)
  moreover have "mail_next (Inr (accepted_reply (into_response demo_codec op_result_ok))) = Perform (SendEmail ''a@b'') mail_sent"
    by (simp add: mark_outcome_def command_result_reply[OF ok] op_result_ok_def)
  ultimately have "?run ?s3 [ReqTask mail_claim, ReqTask mail_mark]"
    using run_submit[of demo_codec mail_api "\<lambda>_. host" "\<lambda>_ _. 5" mail_start ?s2 "[ReqTask mail_claim]" "''n1''" "''t1''" 7 mail_claimed
        "ReqTask mail_mark" mail_next ?st2 "into_response demo_codec op_result_ok"] by (simp only: append.simps)
  then have "?run ?s4 [ReqTask mail_claim, ReqTask mail_mark]" by (rule run_perform) simp
  then have "?run (?s4\<lparr>sy_store := cf_put ?st2 ''note'' ''x''\<rparr>) ([ReqTask mail_claim, ReqTask mail_mark] @ [ReqSet ''note'' ''x''])"
    by (rule run_other) (simp add: exec_request_def pool_upd_def)
  then show ?thesis by (intro exI conjI) (assumption, simp_all add: pool_upd_def mail_start_def)
qed

theorem effects_at_most_once_witness:
  "\<exists>s log. worker_run demo_codec mail_api (\<lambda>_. undefined) (\<lambda>_ _. 5) mail_start s log \<and> sy_effects s \<noteq> [] \<and>
     length (filter (\<lambda>(j, n, act). j = ''t1'') (sy_effects s)) \<le> 1 \<and>
     (''t1'' \<in> fst ` set (sy_effects s) \<longrightarrow> (\<exists>r. recs demo_codec (sy_store s) ''t1'' = Some r \<and> tr_committed r \<and>
       tr_status r \<in> {Running, Done, Failed}))"
proof -
  obtain s log where run: "worker_run demo_codec mail_api (\<lambda>_. undefined) (\<lambda>_ _. 5) mail_start s log"
      "sy_effects s = [(''t1'', ''n1'', SendEmail ''a@b'')]" "set log \<subseteq> {ReqTask mail_claim, ReqTask mail_mark, ReqSet ''note'' ''x''}"
    using mail_run by blast
  have "codec_ok demo_codec" "queue_inv demo_codec (sy_store mail_start)" using mail_ready by (simp_all add: queue_ready_def)
  moreover have "\<forall>cmd. ReqTask cmd \<in> set log \<longrightarrow> ''t1'' \<notin> set (vacuum_ids cmd)" using run(3) by auto
  moreover have "list_all plain_request log"
    using run(3) by (auto simp: list_all_iff plain_request_def cmd_ok_def starts_with_def TASK_SPACE_def)
  ultimately have "length (filter (\<lambda>(j, n, act). j = ''t1'') (sy_effects s)) \<le> 1 \<and>
     (''t1'' \<in> fst ` set (sy_effects s) \<longrightarrow> (\<exists>r. recs demo_codec (sy_store s) ''t1'' = Some r \<and> tr_committed r \<and>
       tr_status r \<in> {Running, Done, Failed}))"
    by (intro effects_at_most_once[OF _ _ _ _ run(1)]) (simp_all add: mail_start_def)
  then show ?thesis using run(1,2) by (intro exI[of _ s] exI[of _ log]) simp
qed

end
