(* ===== verification/WasmCache.thy ===== *)
theory WasmCache
  imports Handlers
begin

text \<open>
  The engine part of \<open>tasks/wasm_runtime.rs\<close>: normalising a module, the cache of compiled modules with
  its two limits, compiling through the cache, the sandbox settings, and single and batched
  executions. The WAT parser, the preview1 adapter, the validator, the compiler and the instances of
  wasmtime are the record \<open>wasm_engine\<close>; a compiled component is a value of the type \<open>'k\<close>, an
  instance with its store a value of the type \<open>'st\<close>.
\<close>

section \<open>The engine, an argument\<close>

datatype wasm_trap = OutOfFuel | Interrupt | OtherTrap string | NoTrap string

datatype call_answer = GuestOk string "string option" | GuestErr string | EngineErr wasm_trap

datatype cli_answer = CliOk | CliFailure | CliExit int | CliErr wasm_trap

record ('k, 'st) wasm_engine =
  en_parse :: "bytes \<Rightarrow> bytes result"
  en_adapt :: "bytes \<Rightarrow> bytes result"
  en_validate :: "bytes \<Rightarrow> unit result"
  en_compile :: "bytes \<Rightarrow> 'k result"
  en_typed :: "'k \<Rightarrow> bool"
  en_instantiate :: "'k \<Rightarrow> wasm_invocation \<Rightarrow> u64 \<Rightarrow> u64 \<Rightarrow> 'st result"
  en_arm :: "'st \<Rightarrow> wasm_invocation \<Rightarrow> u64 \<Rightarrow> u64 \<Rightarrow> 'st result"
  en_call :: "'st \<Rightarrow> string list \<Rightarrow> string list \<Rightarrow> 'st \<times> call_answer"
  en_cli :: "'st \<Rightarrow> 'st \<times> cli_answer \<times> string"
  en_fuel :: "'st \<Rightarrow> u64"

section \<open>Sandbox settings\<close>

definition WASM_MEMORY_LIMIT_BYTES :: nat where "WASM_MEMORY_LIMIT_BYTES = 64 * 1024 * 1024"
definition WASM_TABLE_LIMIT_ELEMENTS :: nat where "WASM_TABLE_LIMIT_ELEMENTS = 10000"
definition WASM_WALL_CLOCK_BACKSTOP :: u64 where "WASM_WALL_CLOCK_BACKSTOP = 60"
definition WASM_EPOCH_TICK :: nat where "WASM_EPOCH_TICK = 100"

text \<open>A limit is a number of milliseconds (a \<open>u128\<close>); the result is cut to a \<open>u64\<close>.\<close>

definition epoch_deadline_ticks :: "nat \<Rightarrow> u64" where
  "epoch_deadline_ticks millis = word_of_nat (max ((millis + WASM_EPOCH_TICK - 1) div WASM_EPOCH_TICK) 1)"

record execution_limiter =
  li_memory_limit_bytes :: nat
  li_table_limit_elements :: nat

definition limiter_default :: execution_limiter where
  "limiter_default = \<lparr>li_memory_limit_bytes = WASM_MEMORY_LIMIT_BYTES, li_table_limit_elements = WASM_TABLE_LIMIT_ELEMENTS\<rparr>"

definition memory_growing :: "execution_limiter \<Rightarrow> nat \<Rightarrow> nat \<Rightarrow> bool" where
  "memory_growing l current desired \<longleftrightarrow> desired \<le> li_memory_limit_bytes l"

definition table_growing :: "execution_limiter \<Rightarrow> nat \<Rightarrow> nat \<Rightarrow> bool" where
  "table_growing l current desired \<longleftrightarrow> desired \<le> li_table_limit_elements l"

definition executor_threads :: "string option \<Rightarrow> nat option \<Rightarrow> nat" where
  "executor_threads var parallelism =
     (case Option.bind var parse_u64 of
        Some n \<Rightarrow> if 0 < n then unat n else (case parallelism of Some p \<Rightarrow> min p 4 | None \<Rightarrow> 2)
      | None \<Rightarrow> (case parallelism of Some p \<Rightarrow> min p 4 | None \<Rightarrow> 2))"

section \<open>Compiling\<close>

definition is_component_binary :: "bytes \<Rightarrow> bool" where
  "is_component_binary bs \<longleftrightarrow> 8 \<le> length bs \<and> take 4 bs = [0, 0x61, 0x73, 0x6d] \<and> take 2 (drop 6 bs) = [0x01, 0x00]"

text \<open>With the feature \<open>p1-compat\<close>, which is on by default, and without it.\<close>

definition componentize :: "('k, 'st) wasm_engine \<Rightarrow> bytes \<Rightarrow> bytes result" where
  "componentize en source =
     rbind (map_err (\<lambda>err. ''parse wasm source: '' @ err) (en_parse en source)) (\<lambda>binary.
       if is_component_binary binary then Inr binary else en_adapt en binary)"

definition componentize_bare :: "bytes \<Rightarrow> bytes result" where
  "componentize_bare source =
     (if is_component_binary source then Inr source
      else Inl (''this build only accepts wasm component binaries (wasm32-wasip2); WAT text and preview1 core '' @
        ''modules need the `p1-compat` feature''))"

definition pre_validate :: "('k, 'st) wasm_engine \<Rightarrow> bytes \<Rightarrow> unit result" where
  "pre_validate en bs = map_err (\<lambda>err. ''invalid wasm component binary: '' @ err) (en_validate en bs)"

record 'k compiled_wasm =
  cw_component :: 'k
  cw_bytes :: nat
  cw_last_used :: u64

definition compiled_load :: "('k, 'st) wasm_engine \<Rightarrow> bytes \<Rightarrow> 'k compiled_wasm result" where
  "compiled_load en source =
     rbind (componentize en source) (\<lambda>component_bytes.
     rbind (pre_validate en component_bytes) (\<lambda>_.
     rbind (map_err (\<lambda>err. ''compile wasm component: '' @ err) (en_compile en component_bytes)) (\<lambda>component.
       Inr \<lparr>cw_component = component, cw_bytes = length component_bytes, cw_last_used = 0\<rparr>)))"

section \<open>The compile cache\<close>

definition WASM_COMPILE_CACHE_CAP :: nat where "WASM_COMPILE_CACHE_CAP = 64"
definition WASM_COMPILE_CACHE_BYTE_CAP :: nat where "WASM_COMPILE_CACHE_BYTE_CAP = 256 * 1024 * 1024"

record 'k compile_cache =
  cc_entries :: "(string, 'k compiled_wasm) cf"
  cc_total_bytes :: nat
  cc_entry_cap :: nat
  cc_byte_cap :: nat
  cc_clock :: u64

definition compile_cache_new :: "nat \<Rightarrow> nat \<Rightarrow> 'k compile_cache" where
  "compile_cache_new entry_cap byte_cap =
     \<lparr>cc_entries = [], cc_total_bytes = 0, cc_entry_cap = entry_cap, cc_byte_cap = byte_cap, cc_clock = 0\<rparr>"

definition compile_cache_get :: "'k compile_cache \<Rightarrow> string \<Rightarrow> 'k compile_cache \<times> 'k option" where
  "compile_cache_get cache hash =
     (case cf_get (cc_entries cache) hash of
        None \<Rightarrow> (cache, None)
      | Some entry \<Rightarrow>
          let now = cc_clock cache + 1 in
          (cache\<lparr>cc_clock := now, cc_entries := cf_put (cc_entries cache) hash (entry\<lparr>cw_last_used := now\<rparr>)\<rparr>,
           Some (cw_component entry)))"

definition over_limit :: "'k compile_cache \<Rightarrow> nat \<Rightarrow> bool" where
  "over_limit cache incoming \<longleftrightarrow> cc_entries cache \<noteq> [] \<and>
     (cc_entry_cap cache \<le> length (cc_entries cache) \<or> cc_byte_cap cache < cc_total_bytes cache + incoming)"

text \<open>The \<open>BTreeSet\<close> of pairs of recency and key, in its order: the entries are listed by key and the sort
  is stable.\<close>

definition by_recency :: "'k compile_cache \<Rightarrow> string list" where
  "by_recency cache = map fst (sort_key (\<lambda>(key, entry). cw_last_used entry) (cc_entries cache))"

fun evict_loop :: "nat \<Rightarrow> string list \<Rightarrow> 'k compile_cache \<Rightarrow> 'k compile_cache" where
  "evict_loop incoming [] cache = cache"
| "evict_loop incoming (evict # rest) cache =
     (if \<not> over_limit cache incoming then cache
      else evict_loop incoming rest
        (case cf_get (cc_entries cache) evict of None \<Rightarrow> cache
         | Some evicted \<Rightarrow> cache\<lparr>cc_entries := cf_del (cc_entries cache) evict, cc_total_bytes := cc_total_bytes cache - cw_bytes evicted\<rparr>))"

definition compile_cache_insert :: "'k compile_cache \<Rightarrow> string \<Rightarrow> 'k compiled_wasm \<Rightarrow> 'k compile_cache" where
  "compile_cache_insert cache hash compiled =
     (if cf_get (cc_entries cache) hash \<noteq> None then cache
      else
        let incoming = cw_bytes compiled;
            cache = (if over_limit cache incoming then evict_loop incoming (by_recency cache) cache else cache);
            now = cc_clock cache + 1 in
        cache\<lparr>cc_clock := now, cc_total_bytes := cc_total_bytes cache + incoming,
              cc_entries := cf_put (cc_entries cache) hash (compiled\<lparr>cw_last_used := now\<rparr>)\<rparr>)"

text \<open>The process-wide cache and the table of the locks of modules being compiled.\<close>

record 'k compile_state =
  cs_cache :: "'k compile_cache"
  cs_locks :: "string set"

definition compile_cached :: "wasm_api \<Rightarrow> ('k, 'st) wasm_engine \<Rightarrow> 'k compile_state \<Rightarrow> bytes \<Rightarrow> 'k compile_state \<times> 'k result" where
  "compile_cached api en s source =
     (let hash = module_hash api source in
      case compile_cache_get (cs_cache s) hash of
        (cache, Some component) \<Rightarrow> (s\<lparr>cs_cache := cache\<rparr>, Inr component)
      | (cache, None) \<Rightarrow>
          let s = s\<lparr>cs_cache := cache, cs_locks := insert hash (cs_locks s)\<rparr> in
          (case compile_cache_get (cs_cache s) hash of
             (cache, Some component) \<Rightarrow> (s\<lparr>cs_cache := cache\<rparr>, Inr component)
           | (cache, None) \<Rightarrow>
               (case compiled_load en source of
                  Inl err \<Rightarrow> (s\<lparr>cs_cache := cache\<rparr>, Inl (''load wasm module: '' @ err))
                | Inr compiled \<Rightarrow>
                    (\<lparr>cs_cache = compile_cache_insert cache hash compiled, cs_locks = cs_locks s - {hash}\<rparr>,
                     Inr (cw_component compiled)))))"

section \<open>Executing\<close>

definition describe_wasm_error :: "wasm_trap \<Rightarrow> u64 \<Rightarrow> string" where
  "describe_wasm_error err fuel_limit =
     (case err of
        OutOfFuel \<Rightarrow> ''wasm ran out of fuel (budget '' @ show_u64 fuel_limit @ '')''
      | Interrupt \<Rightarrow> ''wasm exceeded the wall-clock backstop (epoch deadline)''
      | OtherTrap t \<Rightarrow> ''wasm execution trapped: '' @ t
      | NoTrap t \<Rightarrow> ''wasm execution trapped: '' @ t)"

definition fuel_limit_of :: "wasm_invocation \<Rightarrow> u64" where
  "fuel_limit_of call = (case wi_fuel_limit call of Some f \<Rightarrow> f | None \<Rightarrow> WASM_FUEL_LIMIT)"

definition ticks_of :: "wasm_invocation \<Rightarrow> u64" where
  "ticks_of call = epoch_deadline_ticks (1000 * unat (case wi_wall_clock_limit call of Some w \<Rightarrow> w | None \<Rightarrow> WASM_WALL_CLOCK_BACKSTOP))"

definition fuel_used :: "('k, 'st) wasm_engine \<Rightarrow> 'st \<Rightarrow> u64 \<Rightarrow> u64" where
  "fuel_used en st fuel_limit = sat_sub fuel_limit (en_fuel en st)"

record call_failure =
  fl_message :: string
  fl_poisons_instance :: bool

definition call_typed_runner :: "('k, 'st) wasm_engine \<Rightarrow> 'st \<Rightarrow> wasm_invocation \<Rightarrow> 'st \<times> (call_failure + wasm_outcome)" where
  "call_typed_runner en st call =
     (case en_call en st (wi_args call) (map (\<lambda>(key, v). key @ ''='' @ v) (wi_env call)) of
        (st', GuestOk stdout structured) \<Rightarrow>
          (st', Inr \<lparr>wo_stdout = stdout, wo_fuel_used = Some (fuel_used en st' (fuel_limit_of call)), wo_structured = structured\<rparr>)
      | (st', GuestErr e) \<Rightarrow> (st', Inl \<lparr>fl_message = ''wasm task returned error: '' @ e, fl_poisons_instance = False\<rparr>)
      | (st', EngineErr t) \<Rightarrow> (st', Inl \<lparr>fl_message = describe_wasm_error t (fuel_limit_of call), fl_poisons_instance = True\<rparr>))"

definition new_instance :: "('k, 'st) wasm_engine \<Rightarrow> 'k \<Rightarrow> wasm_invocation \<Rightarrow> 'st result" where
  "new_instance en component call = en_instantiate en component call (fuel_limit_of call) (ticks_of call)"

definition run_cli_command :: "('k, 'st) wasm_engine \<Rightarrow> (int \<Rightarrow> string) \<Rightarrow> 'k \<Rightarrow> wasm_invocation \<Rightarrow> wasm_outcome result" where
  "run_cli_command en show_code component call =
     rbind (new_instance en component call) (\<lambda>st.
       let (st', answer, stdout) = en_cli en st;
           done = \<lparr>wo_stdout = stdout, wo_fuel_used = Some (fuel_used en st' (fuel_limit_of call)), wo_structured = None\<rparr> in
       (case answer of
          CliOk \<Rightarrow> Inr done
        | CliFailure \<Rightarrow> Inl ''wasm command run returned failure''
        | CliExit code \<Rightarrow> if code = 0 then Inr done else Inl (''wasm module exited with code '' @ show_code code)
        | CliErr t \<Rightarrow> Inl (describe_wasm_error t (fuel_limit_of call))))"

definition wasm_execute ::
  "wasm_api \<Rightarrow> ('k, 'st) wasm_engine \<Rightarrow> (int \<Rightarrow> string) \<Rightarrow> 'k compile_state \<Rightarrow> bytes \<Rightarrow> wasm_invocation \<Rightarrow> 'k compile_state \<times> wasm_outcome result" where
  "wasm_execute api en show_code s source call =
     (case compile_cached api en s source of
        (s', Inl e) \<Rightarrow> (s', Inl e)
      | (s', Inr component) \<Rightarrow>
          (s', if en_typed en component
               then rbind (new_instance en component call) (\<lambda>st. map_err fl_message (snd (call_typed_runner en st call)))
               else run_cli_command en show_code component call))"

fun batch_loop :: "('k, 'st) wasm_engine \<Rightarrow> 'st \<Rightarrow> string option \<Rightarrow> wasm_invocation list \<Rightarrow> wasm_outcome result list" where
  "batch_loop en st poisoned [] = []"
| "batch_loop en st (Some trap) (call # invs) =
     Inl (''skipped after earlier trap in batch: '' @ trap) # batch_loop en st (Some trap) invs"
| "batch_loop en st None (call # invs) =
     (case en_arm en st call (fuel_limit_of call) (ticks_of call) of
        Inl err \<Rightarrow> Inl (''set wasm fuel: '' @ err) # batch_loop en st None invs
      | Inr st' \<Rightarrow>
          (case call_typed_runner en st' call of
             (st'', Inr outcome) \<Rightarrow> Inr outcome # batch_loop en st'' None invs
           | (st'', Inl failure) \<Rightarrow>
               Inl (fl_message failure) #
                 batch_loop en st'' (if fl_poisons_instance failure then Some (fl_message failure) else None) invs))"

definition default_invocation :: wasm_invocation where
  "default_invocation = \<lparr>wi_args = [], wi_env = [], wi_fuel_limit = None, wi_wall_clock_limit = None, wi_task_id = None, wi_config = []\<rparr>"

definition execute_batch ::
  "wasm_api \<Rightarrow> ('k, 'st) wasm_engine \<Rightarrow> (int \<Rightarrow> string) \<Rightarrow> 'k compile_state \<Rightarrow> bytes \<Rightarrow> wasm_invocation list \<Rightarrow>
   'k compile_state \<times> wasm_outcome result list" where
  "execute_batch api en show_code s source invs =
     (case compile_cached api en s source of
        (s', Inl e) \<Rightarrow> (s', map (\<lambda>_. Inl e) invs)
      | (s', Inr component) \<Rightarrow>
          (s', if \<not> en_typed en component then map (run_cli_command en show_code component) invs
               else (case new_instance en component (case invs of [] \<Rightarrow> default_invocation | call # _ \<Rightarrow> call) of
                       Inl e \<Rightarrow> map (\<lambda>_. Inl e) invs
                     | Inr st \<Rightarrow> batch_loop en st None invs)))"

definition wasm_prepare :: "wasm_api \<Rightarrow> ('k, 'st) wasm_engine \<Rightarrow> 'k compile_state \<Rightarrow> bytes \<Rightarrow> 'k compile_state \<times> unit result" where
  "wasm_prepare api en s source = (let (s', r) = compile_cached api en s source in (s', rbind r (\<lambda>_. Inr ())))"

text \<open>The module store is compiled ahead; failures are logged.\<close>

fun warm_loop :: "wasm_api \<Rightarrow> ('k, 'st) wasm_engine \<Rightarrow> worker_host \<Rightarrow> string list \<Rightarrow> 'k compile_state \<Rightarrow> 'k compile_state" where
  "warm_loop api en host [] s = s"
| "warm_loop api en host (name # names) s =
     warm_loop api en host names
       (case store_load (ho_disk host) (ho_modules_dir host) name of Inl _ \<Rightarrow> s | Inr bs \<Rightarrow> fst (wasm_prepare api en s bs))"

definition warm_compile_cache :: "wasm_api \<Rightarrow> ('k, 'st) wasm_engine \<Rightarrow> worker_host \<Rightarrow> 'k compile_state \<Rightarrow> 'k compile_state" where
  "warm_compile_cache api en host s =
     (case selected_runtime (ho_runtime_var host) of Inl _ \<Rightarrow> s
      | Inr _ \<Rightarrow> warm_loop api en host (store_list (ho_disk host) (ho_modules_dir host)) s)"

section \<open>The limits of the cache\<close>

definition entry_bytes :: "(string, 'k compiled_wasm) cf \<Rightarrow> nat" where
  "entry_bytes es = sum_list (map (\<lambda>(key, e). cw_bytes e) es)"

lemma entry_bytes_del:
  assumes "distinct (map fst es)" "cf_get es k = Some e"
  shows "entry_bytes (cf_del es k) + cw_bytes e = entry_bytes es"
  using assms
proof (induction es)
  case (Cons x es)
  show ?case
  proof (cases "fst x = k")
    case True
    then have "cf_del es k = es" using Cons.prems(1) by (auto simp: cf_del_def filter_id_conv image_iff)
    then show ?thesis using Cons.prems(2) True by (cases x) (simp add: entry_bytes_def cf_del_def cf_get_def)
  next
    case False
    then show ?thesis using Cons by (cases x) (simp add: entry_bytes_def cf_del_def cf_get_def)
  qed
qed (simp add: cf_get_def)

lemma mset_cf_put_new: "cf_get es k = None \<Longrightarrow> mset (cf_put es k v) = add_mset (k, v) (mset es)"
  by (induction es k v rule: cf_put.induct) (auto simp: cf_get_def split: if_splits)

lemma entry_bytes_mset: "mset es = mset es' \<Longrightarrow> entry_bytes es = entry_bytes es'"
  unfolding entry_bytes_def by (metis mset_map sum_mset_sum_list)

lemma entry_bytes_put_new:
  assumes "cf_get es k = None"
  shows "entry_bytes (cf_put es k v) = entry_bytes es + cw_bytes v" "length (cf_put es k v) = Suc (length es)"
proof -
  have *: "mset (cf_put es k v) = mset ((k, v) # es)" using mset_cf_put_new[OF assms] by simp
  show "length (cf_put es k v) = Suc (length es)" using arg_cong[OF *, of size] by simp
  show "entry_bytes (cf_put es k v) = entry_bytes es + cw_bytes v"
    using entry_bytes_mset[OF *] by (simp add: entry_bytes_def)
qed

lemma cf_put_same_keys: "cf_get es k = Some e \<Longrightarrow> cf_ok es \<Longrightarrow> map fst (cf_put es k v) = map fst es"
proof (induction es k v rule: cf_put.induct)
  case (2 k' v' m k v)
  then show ?case by (auto simp: cf_get_def cf_ok_def split: if_splits dest!: map_of_SomeD)
qed (simp add: cf_get_def)

lemma entry_bytes_put_same:
  assumes "cf_get es k = Some e" "cf_ok es" "cw_bytes v = cw_bytes e"
  shows "entry_bytes (cf_put es k v) = entry_bytes es"
  using assms
proof (induction es k v rule: cf_put.induct)
  case (2 k' v' m k v)
  then show ?case by (auto simp: cf_get_def cf_ok_def entry_bytes_def split: if_splits dest!: map_of_SomeD)
qed (simp add: cf_get_def)

definition cache_bounded :: "'k compile_cache \<Rightarrow> bool" where
  "cache_bounded cache \<longleftrightarrow> cf_ok (cc_entries cache) \<and> cc_total_bytes cache = entry_bytes (cc_entries cache) \<and>
     (0 < cc_entry_cap cache \<longrightarrow> length (cc_entries cache) \<le> cc_entry_cap cache) \<and>
     (cc_total_bytes cache \<le> cc_byte_cap cache \<or> length (cc_entries cache) = 1)"

lemma cf_ok_distinct: "cf_ok es \<Longrightarrow> distinct (map fst es)"
  by (simp add: cf_ok_def strict_sorted_iff)

lemma next_entries:
  "cc_entries (case cf_get (cc_entries cache) k of None \<Rightarrow> cache
     | Some evicted \<Rightarrow> cache\<lparr>cc_entries := cf_del (cc_entries cache) k, cc_total_bytes := cc_total_bytes cache - cw_bytes evicted\<rparr>) =
   filter (\<lambda>(k', _). k' \<noteq> k) (cc_entries cache)"
proof (cases "cf_get (cc_entries cache) k")
  case None
  then have "k \<notin> fst ` set (cc_entries cache)" by (simp add: cf_get_def map_of_eq_None_iff)
  then have "filter (\<lambda>(k', _). k' \<noteq> k) (cc_entries cache) = cc_entries cache" by (force simp: filter_id_conv)
  with None show ?thesis by simp
qed (simp add: cf_del_def)

text \<open>The loop removes a prefix of the recency order and stops below both limits.\<close>

lemma evict_loop_prefix:
  assumes "cf_ok (cc_entries cache)" "cc_total_bytes cache = entry_bytes (cc_entries cache)"
  shows "\<exists>m. cc_entries (evict_loop incoming ks cache) = filter (\<lambda>(k, _). k \<notin> set (take m ks)) (cc_entries cache) \<and>
    cc_total_bytes (evict_loop incoming ks cache) = entry_bytes (cc_entries (evict_loop incoming ks cache)) \<and>
    cc_entry_cap (evict_loop incoming ks cache) = cc_entry_cap cache \<and> cc_byte_cap (evict_loop incoming ks cache) = cc_byte_cap cache \<and>
    cc_clock (evict_loop incoming ks cache) = cc_clock cache \<and> cf_ok (cc_entries (evict_loop incoming ks cache))"
  using assms
proof (induction incoming ks cache rule: evict_loop.induct)
  case (1 incoming cache)
  then show ?case by (simp add: filter_id_conv)
next
  case (2 incoming k rest cache)
  show ?case
  proof (cases "over_limit cache incoming")
    case False
    then show ?thesis using 2(2,3) by (intro exI[of _ 0]) (simp add: filter_id_conv)
  next
    case True
    define next_cache where "next_cache = (case cf_get (cc_entries cache) k of None \<Rightarrow> cache
         | Some evicted \<Rightarrow> cache\<lparr>cc_entries := cf_del (cc_entries cache) k, cc_total_bytes := cc_total_bytes cache - cw_bytes evicted\<rparr>)"
    have nxt: "cc_entries next_cache = filter (\<lambda>(k', _). k' \<noteq> k) (cc_entries cache)"
      unfolding next_cache_def by (rule next_entries)
    have total: "cc_total_bytes next_cache = entry_bytes (cc_entries next_cache)"
    proof (cases "cf_get (cc_entries cache) k")
      case (Some e)
      then show ?thesis using entry_bytes_del[OF cf_ok_distinct[OF 2(2)] Some] 2(3) by (simp add: next_cache_def)
    qed (use 2(3) in \<open>simp add: next_cache_def\<close>)
    have ok: "cf_ok (cc_entries next_cache)" using cf_ok_del[OF 2(2), of k] unfolding nxt by (simp add: cf_del_def)
    have same: "cc_entry_cap next_cache = cc_entry_cap cache" "cc_byte_cap next_cache = cc_byte_cap cache" "cc_clock next_cache = cc_clock cache"
      by (simp_all add: next_cache_def split: option.split)
    from 2(1)[OF _ ok[unfolded next_cache_def] total[unfolded next_cache_def], folded next_cache_def] True
    obtain m where m: "cc_entries (evict_loop incoming rest next_cache) = filter (\<lambda>(k, _). k \<notin> set (take m rest)) (cc_entries next_cache)"
      "cc_total_bytes (evict_loop incoming rest next_cache) = entry_bytes (cc_entries (evict_loop incoming rest next_cache))"
      "cc_entry_cap (evict_loop incoming rest next_cache) = cc_entry_cap cache" "cc_byte_cap (evict_loop incoming rest next_cache) = cc_byte_cap cache"
      "cc_clock (evict_loop incoming rest next_cache) = cc_clock cache" "cf_ok (cc_entries (evict_loop incoming rest next_cache))"
      using same by auto
    have "filter (\<lambda>(k, _). k \<notin> set (take m rest)) (cc_entries next_cache) = filter (\<lambda>(k', _). k' \<notin> set (take (Suc m) (k # rest))) (cc_entries cache)"
      unfolding nxt by (auto simp: filter_filter intro!: filter_cong)
    then show ?thesis using m True by (intro exI[of _ "Suc m"]) (simp add: next_cache_def)
  qed
qed

lemma evict_loop_stops:
  assumes "fst ` set (cc_entries cache) \<subseteq> set ks"
  shows "\<not> over_limit (evict_loop incoming ks cache) incoming"
  using assms
proof (induction incoming ks cache rule: evict_loop.induct)
  case (1 incoming cache)
  then show ?case by (simp add: over_limit_def)
next
  case (2 incoming k rest cache)
  show ?case
  proof (cases "over_limit cache incoming")
    case True
    define next_cache where "next_cache = (case cf_get (cc_entries cache) k of None \<Rightarrow> cache
         | Some evicted \<Rightarrow> cache\<lparr>cc_entries := cf_del (cc_entries cache) k, cc_total_bytes := cc_total_bytes cache - cw_bytes evicted\<rparr>)"
    have "cc_entries next_cache = filter (\<lambda>(k', _). k' \<noteq> k) (cc_entries cache)"
      unfolding next_cache_def by (rule next_entries)
    then have "fst ` set (cc_entries next_cache) \<subseteq> set rest" using 2(2) by auto
    from 2(1)[OF _ this[unfolded next_cache_def]] True show ?thesis by simp
  qed simp
qed

lemma set_by_recency: "set (by_recency cache) = fst ` set (cc_entries cache)"
  by (auto simp: by_recency_def)

text \<open>What is left of the cache when a module of \<open>incoming\<close> bytes is about to be stored.\<close>

definition make_room :: "'k compile_cache \<Rightarrow> nat \<Rightarrow> 'k compile_cache" where
  "make_room cache incoming = (if over_limit cache incoming then evict_loop incoming (by_recency cache) cache else cache)"

lemma make_room_ok:
  assumes "cf_ok (cc_entries cache)" "cc_total_bytes cache = entry_bytes (cc_entries cache)"
  shows "\<exists>m. cc_entries (make_room cache incoming) = filter (\<lambda>(k, _). k \<notin> set (take m (by_recency cache))) (cc_entries cache)"
    "cc_total_bytes (make_room cache incoming) = entry_bytes (cc_entries (make_room cache incoming))"
    "cc_entry_cap (make_room cache incoming) = cc_entry_cap cache" "cc_byte_cap (make_room cache incoming) = cc_byte_cap cache"
    "cf_ok (cc_entries (make_room cache incoming))" "\<not> over_limit (make_room cache incoming) incoming"
proof -
  show "\<exists>m. cc_entries (make_room cache incoming) = filter (\<lambda>(k, _). k \<notin> set (take m (by_recency cache))) (cc_entries cache)"
    using evict_loop_prefix[OF assms, of incoming "by_recency cache"]
    by (cases "over_limit cache incoming") (auto simp: make_room_def intro: exI[of _ 0])
qed (use evict_loop_prefix[OF assms, of incoming "by_recency cache"] evict_loop_stops[of cache "by_recency cache" incoming] assms
     in \<open>auto simp: make_room_def set_by_recency\<close>)

lemma insert_unfold:
  "compile_cache_insert cache hash compiled =
     (if cf_get (cc_entries cache) hash \<noteq> None then cache
      else let room = make_room cache (cw_bytes compiled); now = cc_clock room + 1 in
        room\<lparr>cc_clock := now, cc_total_bytes := cc_total_bytes room + cw_bytes compiled,
             cc_entries := cf_put (cc_entries room) hash (compiled\<lparr>cw_last_used := now\<rparr>)\<rparr>)"
  by (simp add: compile_cache_insert_def make_room_def Let_def)

lemma cf_get_filter_None: "cf_get es h = None \<Longrightarrow> cf_get (filter P es) h = None"
  by (auto simp: cf_get_def map_of_eq_None_iff)

lemma room_get_None:
  assumes "cf_ok (cc_entries cache)" "cc_total_bytes cache = entry_bytes (cc_entries cache)" "cf_get (cc_entries cache) h = None"
  shows "cf_get (cc_entries (make_room cache incoming)) h = None"
  using make_room_ok(1)[OF assms(1,2), of incoming] cf_get_filter_None[OF assms(3)] by auto

lemma insert_bounded:
  assumes "cache_bounded cache"
  shows "cache_bounded (compile_cache_insert cache hash compiled)"
proof (cases "cf_get (cc_entries cache) hash")
  case None
  let ?room = "make_room cache (cw_bytes compiled)"
  have base: "cf_ok (cc_entries cache)" "cc_total_bytes cache = entry_bytes (cc_entries cache)" using assms by (simp_all add: cache_bounded_def)
  note room = make_room_ok(2-)[OF base, of "cw_bytes compiled"]
  note put = entry_bytes_put_new[OF room_get_None[OF base None]]
  have "cc_entries ?room = [] \<or> length (cc_entries ?room) < cc_entry_cap cache \<and> cc_total_bytes ?room + cw_bytes compiled \<le> cc_byte_cap cache"
    using room(5) by (auto simp: over_limit_def room(2,3))
  then show ?thesis using None room(1-4) put
    by (auto simp: insert_unfold cache_bounded_def Let_def cf_ok_put)
qed (simp add: insert_unfold assms)

lemma get_bounded:
  assumes "cache_bounded cache"
  shows "cache_bounded (fst (compile_cache_get cache hash))"
proof (cases "cf_get (cc_entries cache) hash")
  case (Some e)
  let ?es = "cf_put (cc_entries cache) hash (e\<lparr>cw_last_used := cc_clock cache + 1\<rparr>)"
  have ok: "cf_ok (cc_entries cache)" using assms by (simp add: cache_bounded_def)
  have "length ?es = length (cc_entries cache)" "entry_bytes ?es = entry_bytes (cc_entries cache)"
    using arg_cong[OF cf_put_same_keys[OF Some ok], of length] entry_bytes_put_same[OF Some ok] by simp_all
  then show ?thesis using assms Some by (auto simp: compile_cache_get_def cache_bounded_def Let_def cf_ok_put)
qed (simp add: compile_cache_get_def assms)

text \<open>An entry that had to go was not used later than one that stayed.\<close>

lemma evicts_least_recent:
  assumes "cache_bounded cache" "cf_get (cc_entries cache) h = Some e" "cf_get (cc_entries cache) h' = Some e'"
    and "cf_get (cc_entries (make_room cache incoming)) h = None" "cf_get (cc_entries (make_room cache incoming)) h' = Some e'"
  shows "cw_last_used e \<le> cw_last_used e'"
proof -
  let ?sorted = "sort_key (\<lambda>(key, entry). cw_last_used entry) (cc_entries cache)"
  have base: "cf_ok (cc_entries cache)" "cc_total_bytes cache = entry_bytes (cc_entries cache)" using assms(1) by (simp_all add: cache_bounded_def)
  obtain m where m: "cc_entries (make_room cache incoming) = filter (\<lambda>(k, _). k \<notin> set (take m (by_recency cache))) (cc_entries cache)"
    using make_room_ok(1)[OF base] by blast
  have mem: "(h, e) \<in> set (cc_entries cache)" "(h', e') \<in> set (cc_entries cache)"
    using assms(2,3) by (auto simp: cf_get_def dest: map_of_SomeD)
  have "h \<in> set (take m (by_recency cache))"
    using assms(4) mem(1) unfolding m by (auto simp: cf_get_def map_of_eq_None_iff image_iff)
  then have "h \<in> fst ` set (take m ?sorted)" by (simp add: by_recency_def take_map)
  then obtain x where x: "x \<in> set (take m ?sorted)" "fst x = h" by blast
  have "h' \<notin> set (take m (by_recency cache))"
    using assms(5) unfolding m by (auto simp: cf_get_def dest!: map_of_SomeD)
  then have "h' \<notin> fst ` set (take m ?sorted)" by (simp add: by_recency_def take_map)
  moreover have "(h', e') \<in> set (take m ?sorted @ drop m ?sorted)" using mem(2) by (simp only: append_take_drop_id set_sort)
  ultimately have y: "(h', e') \<in> set (drop m ?sorted)" by (metis Un_iff fst_conv image_eqI set_append)
  have "x \<in> set (cc_entries cache)" using in_set_takeD[OF x(1)] by simp
  then have "x = (h, e)"
    using eq_key_imp_eq_value[OF cf_ok_distinct[OF base(1)], of h "snd x" e] mem(1) x(2) by (cases x) auto
  moreover have "sorted (map (\<lambda>(key, entry). cw_last_used entry) (take m ?sorted @ drop m ?sorted))"
    by (simp only: append_take_drop_id sorted_sort_key)
  then have "cw_last_used (snd a) \<le> cw_last_used (snd b)" if "a \<in> set (take m ?sorted)" "b \<in> set (drop m ?sorted)" for a b
    using that unfolding map_append sorted_append by (force simp: case_prod_beta)
  from this[OF x(1) y] calculation show ?thesis by simp
qed

section \<open>What the cache returns\<close>

definition cache_holds :: "wasm_api \<Rightarrow> ('k, 'st) wasm_engine \<Rightarrow> bytes set \<Rightarrow> 'k compile_cache \<Rightarrow> bool" where
  "cache_holds api en S cache \<longleftrightarrow> (\<forall>h e. cf_get (cc_entries cache) h = Some e \<longrightarrow>
     (\<exists>src c. src \<in> S \<and> module_hash api src = h \<and> compiled_load en src = Inr c \<and> cw_component e = cw_component c))"

text \<open>The atomic steps that concurrent calls of \<open>compile_cached\<close> take on the shared cache.\<close>

datatype compile_event = LookUp string | Compiled bytes

definition compile_step :: "wasm_api \<Rightarrow> ('k, 'st) wasm_engine \<Rightarrow> 'k compile_cache \<Rightarrow> compile_event \<Rightarrow> 'k compile_cache" where
  "compile_step api en cache ev = (case ev of
      LookUp hash \<Rightarrow> fst (compile_cache_get cache hash)
    | Compiled source \<Rightarrow> (case compiled_load en source of Inl _ \<Rightarrow> cache
        | Inr compiled \<Rightarrow> compile_cache_insert cache (module_hash api source) compiled))"

fun event_from :: "bytes set \<Rightarrow> compile_event \<Rightarrow> bool" where
  "event_from S (LookUp h) = True"
| "event_from S (Compiled src) = (src \<in> S)"

lemma get_holds: "cache_holds api en S cache \<Longrightarrow> cache_holds api en S (fst (compile_cache_get cache hash))"
  by (auto simp: cache_holds_def compile_cache_get_def cf_get_put Let_def split: option.split)

lemma cf_get_filter_Some: "cf_ok es \<Longrightarrow> cf_get (filter P es) h = Some e \<Longrightarrow> cf_get es h = Some e"
  using cf_entries_iff[of es h e] map_of_SomeD[of "filter P es" h e] by (simp add: cf_get_def)

lemma insert_holds:
  assumes "cache_holds api en S cache" "cache_bounded cache" "src \<in> S" "compiled_load en src = Inr compiled"
  shows "cache_holds api en S (compile_cache_insert cache (module_hash api src) compiled)"
proof -
  have base: "cf_ok (cc_entries cache)" "cc_total_bytes cache = entry_bytes (cc_entries cache)" using assms(2) by (simp_all add: cache_bounded_def)
  obtain m where "cc_entries (make_room cache (cw_bytes compiled)) = filter (\<lambda>(k, _). k \<notin> set (take m (by_recency cache))) (cc_entries cache)"
    using make_room_ok(1)[OF base] by blast
  then have "cf_get (cc_entries (make_room cache (cw_bytes compiled))) h = Some e \<Longrightarrow> cf_get (cc_entries cache) h = Some e" for h e
    using cf_get_filter_Some[OF base(1)] by metis
  then show ?thesis using assms(1,3,4)
    by (auto simp: insert_unfold cache_holds_def cf_get_put Let_def split: if_splits)
qed

lemma compile_step_caps:
  assumes "cache_bounded cache"
  shows "cc_entry_cap (compile_step api en cache ev) = cc_entry_cap cache" "cc_byte_cap (compile_step api en cache ev) = cc_byte_cap cache"
proof -
  have base: "cf_ok (cc_entries cache)" "cc_total_bytes cache = entry_bytes (cc_entries cache)" using assms by (simp_all add: cache_bounded_def)
  show "cc_entry_cap (compile_step api en cache ev) = cc_entry_cap cache" "cc_byte_cap (compile_step api en cache ev) = cc_byte_cap cache"
    using make_room_ok(3,4)[OF base]
    by (cases ev; auto simp: compile_step_def compile_cache_get_def insert_unfold Let_def split: option.split sum.split)+
qed

definition compile_inv :: "wasm_api \<Rightarrow> ('k, 'st) wasm_engine \<Rightarrow> bytes set \<Rightarrow> nat \<Rightarrow> nat \<Rightarrow> 'k compile_cache \<Rightarrow> bool" where
  "compile_inv api en S cap bcap cache \<longleftrightarrow> cache_bounded cache \<and> cache_holds api en S cache \<and>
     cc_entry_cap cache = cap \<and> cc_byte_cap cache = bcap"

interpretation compile: invariant_machine "compile_step api en" "event_from S" "compile_inv api en S cap bcap" for api en S cap bcap
proof
  fix cache ev
  assume inv: "compile_inv api en S cap bcap cache" and ev: "event_from S ev"
  then have "cache_bounded (compile_step api en cache ev) \<and> cache_holds api en S (compile_step api en cache ev)"
    by (cases ev) (auto simp: compile_inv_def compile_step_def get_bounded get_holds insert_bounded insert_holds split: sum.split)
  then show "compile_inv api en S cap bcap (compile_step api en cache ev)"
    using inv compile_step_caps[of cache api en ev] by (simp add: compile_inv_def)
qed

lemma compile_inv_new: "compile_inv api en S cap bcap (compile_cache_new cap bcap)"
  by (simp add: compile_inv_def cache_bounded_def cache_holds_def compile_cache_new_def entry_bytes_def)

text \<open>What a call returns, for a cache that holds compilations of modules with distinct hashes.\<close>

definition fresh_compile :: "('k, 'st) wasm_engine \<Rightarrow> bytes \<Rightarrow> 'k result" where
  "fresh_compile en source = map_err (\<lambda>err. ''load wasm module: '' @ err) (rbind (compiled_load en source) (\<lambda>c. Inr (cw_component c)))"

lemma get_miss: "cf_get (cc_entries cache) hash = None \<Longrightarrow> compile_cache_get cache hash = (cache, None)"
  by (simp add: compile_cache_get_def)

lemma compile_cached_result:
  assumes "cache_holds api en S (cs_cache s)" "inj_on (module_hash api) S" "source \<in> S"
  shows "snd (compile_cached api en s source) = fresh_compile en source"
proof (cases "cf_get (cc_entries (cs_cache s)) (module_hash api source)")
  case None
  then show ?thesis
    by (simp add: compile_cached_def Let_def get_miss fresh_compile_def map_err_def split: sum.split)
next
  case (Some e)
  then obtain src c where "src \<in> S" "module_hash api src = module_hash api source" "compiled_load en src = Inr c"
      "cw_component e = cw_component c"
    using assms(1) unfolding cache_holds_def by blast
  moreover then have "src = source" using assms(2,3) by (auto dest: inj_onD)
  ultimately show ?thesis using Some
    by (simp add: compile_cached_def compile_cache_get_def Let_def fresh_compile_def map_err_def)
qed

text \<open>The lock of a module that fails to compile stays in the table.\<close>

lemma failed_compile_keeps_lock:
  assumes "compiled_load en source = Inl err" "cf_get (cc_entries (cs_cache s)) (module_hash api source) = None"
  shows "cs_locks (fst (compile_cached api en s source)) = insert (module_hash api source) (cs_locks s)"
  using assms by (simp add: compile_cached_def Let_def get_miss)

section \<open>Batches\<close>

lemma batch_poisoned: "batch_loop en st (Some trap) calls = map (\<lambda>_. Inl (''skipped after earlier trap in batch: '' @ trap)) calls"
  by (induction calls) simp_all

lemma batch_length: "length (batch_loop en st p calls) = length calls"
  by (induction en st p calls rule: batch_loop.induct) (auto split: sum.split prod.split)

text \<open>After a failure of the engine no further call of the batch reaches the instance: every later result
  is the skip message.\<close>

lemma batch_after_trap:
  assumes "en_arm en st call (fuel_limit_of call) (ticks_of call) = Inr st'"
    and "en_call en st' (wi_args call) (map (\<lambda>(key, v). key @ ''='' @ v) (wi_env call)) = (st'', EngineErr t)"
  shows "batch_loop en st None (call # calls) =
    Inl (describe_wasm_error t (fuel_limit_of call)) #
      map (\<lambda>_. Inl (''skipped after earlier trap in batch: '' @ describe_wasm_error t (fuel_limit_of call))) calls"
  using assms by (simp add: call_typed_runner_def batch_poisoned)

lemma execute_batch_length: "length (snd (execute_batch api en show_code s source calls)) = length calls"
  by (simp add: execute_batch_def batch_length split: prod.split sum.split)

section \<open>Deadlines\<close>

lemma epoch_ticks_cover:
  assumes "millis \<le> 2 ^ 64"
  shows "millis \<le> WASM_EPOCH_TICK * unat (epoch_deadline_ticks millis)" "0 < unat (epoch_deadline_ticks millis)"
    "0 < millis \<Longrightarrow> WASM_EPOCH_TICK * unat (epoch_deadline_ticks millis) < millis + WASM_EPOCH_TICK"
proof -
  let ?t = "max ((millis + 99) div 100) 1"
  have "?t < 2 ^ 64" using assms by simp
  then have t: "unat (epoch_deadline_ticks millis) = ?t"
    by (simp add: epoch_deadline_ticks_def WASM_EPOCH_TICK_def unat_of_nat take_bit_nat_def)
  show "millis \<le> WASM_EPOCH_TICK * unat (epoch_deadline_ticks millis)" "0 < unat (epoch_deadline_ticks millis)"
    "0 < millis \<Longrightarrow> WASM_EPOCH_TICK * unat (epoch_deadline_ticks millis) < millis + WASM_EPOCH_TICK"
    unfolding t WASM_EPOCH_TICK_def by (auto simp: max_def)
qed

end
