(* ===== verification/CompileClaims.thy ===== *)
theory CompileClaims
  imports WasmCache
begin

text \<open>
  The property of the compile cache of the WASM runtime.
\<close>






end
