(* ===== verification/RpcCodec.thy ===== *)
theory RpcCodec
  imports KvService MembershipOps WasmServe
begin

text \<open>
  The one protocol all remote calls use: the messages of \<open>network/rpc.rs\<close> and the codec of
  \<open>network/proto_codec.rs\<close>. A message is an envelope with a kind, a payload in the encoding of that
  kind, and for a snapshot or a module chunk a compressed binary frame beside the payload. The JSON
  and protobuf encoders and zstd are the record \<open>wire_api\<close>; values of openraft's own types are of the
  type \<open>'o\<close>, the tarpc messages of the flush and of the tasks of the types \<open>'s\<close> and \<open>'t\<close>.
\<close>

section \<open>Messages\<close>

datatype rocks_request = RkSet string string | RkUpdate string string | RkDelete string

datatype 'o raft_rpc_op =
    OpAppendEntries 'o
  | OpVote 'o
  | OpClientWrite rocks_request
  | OpGetMetrics
  | OpJoinCluster join_request
  | OpAddLearner string string
  | OpFullSnapshot 'o 'o bytes

record 'o raft_rpc_request =
  rq_group_id :: string
  rq_op :: "'o raft_rpc_op"

datatype 'o raft_rpc_response =
    RaAppendEntries "'o + 'o"
  | RaVote "'o + 'o"
  | RaClientWrite "'o + 'o"
  | RaGetMetrics 'o
  | RaJoinCluster join_response
  | RaAddLearner learner_response
  | RaFullSnapshot "'o + 'o"
  | RaError string

datatype ('o, 's, 't) unified_request =
    UqRaft "'o raft_rpc_request"
  | UqKv raft_kv_request
  | UqSqliteSync 's
  | UqTask 't
  | UqWasmSync wasm_sync_request

datatype ('o, 's, 't) unified_response =
    UrRaft "'o raft_rpc_response"
  | UrKv raft_kv_response
  | UrSqliteSync 's
  | UrTask 't
  | UrWasmSync wasm_sync_response

section \<open>The encoders, an argument\<close>

record proto_envelope =
  pe_payload :: bytes
  pe_binary :: bytes
  pe_kind :: u32

record 'a wire =
  wire_enc :: "'a \<Rightarrow> bytes result"
  wire_dec :: "bytes \<Rightarrow> 'a result"

record ('o, 's, 't, 'u, 'v) wire_api =
  wx_raft_req :: "'o raft_rpc_request wire"
  wx_kv_req :: "(raft_kv_request \<Rightarrow> bytes) \<times> (bytes \<Rightarrow> raft_kv_request result)"
  wx_sqlite_req :: "'s wire"
  wx_task_req :: "'t wire"
  wx_wasm_req :: "wasm_sync_request wire"
  wx_raft_resp :: "'o raft_rpc_response wire"
  wx_kv_resp :: "(raft_kv_response \<Rightarrow> bytes) \<times> (bytes \<Rightarrow> raft_kv_response result)"
  wx_sqlite_resp :: "'u wire"
  wx_task_resp :: "'v wire"
  wx_wasm_resp :: "wasm_sync_response wire"
  wx_zstd :: "bytes wire"
  wx_env :: "(proto_envelope \<Rightarrow> bytes) \<times> (bytes \<Rightarrow> proto_envelope result)"

text \<open>What the encoders document: decoding gives back what was encoded, a zstd frame is never empty, and a
  strict prefix of an encoded envelope, if it decodes at all, lacks the last field, the kind, which
  then has the default value 0.\<close>

definition wire_ok :: "'a wire \<Rightarrow> bool" where
  "wire_ok w \<longleftrightarrow> (\<forall>x. \<exists>b. wire_enc w x = Inr b \<and> wire_dec w b = Inr x)"

definition wire_api_ok :: "('o, 's, 't, 'u, 'v) wire_api \<Rightarrow> bool" where
  "wire_api_ok api \<longleftrightarrow> wire_ok (wx_raft_req api) \<and> (\<forall>x. snd (wx_kv_req api) (fst (wx_kv_req api) x) = Inr x) \<and>
     wire_ok (wx_sqlite_req api) \<and> wire_ok (wx_task_req api) \<and> wire_ok (wx_wasm_req api) \<and> wire_ok (wx_raft_resp api) \<and>
     (\<forall>x. snd (wx_kv_resp api) (fst (wx_kv_resp api) x) = Inr x) \<and> wire_ok (wx_sqlite_resp api) \<and> wire_ok (wx_task_resp api) \<and>
     wire_ok (wx_wasm_resp api) \<and> wire_ok (wx_zstd api) \<and> (\<forall>x b. wire_enc (wx_zstd api) x = Inr b \<longrightarrow> b \<noteq> []) \<and>
     (\<forall>e. snd (wx_env api) (fst (wx_env api) e) = Inr e) \<and>
     (\<forall>e n e'. n < length (fst (wx_env api) e) \<longrightarrow> snd (wx_env api) (take n (fst (wx_env api) e)) = Inr e' \<longrightarrow> pe_kind e' = 0)"

section \<open>The codec\<close>

definition REQUEST_MAX :: nat where "REQUEST_MAX = 64 * 1024 * 1024"
definition RESPONSE_MAX :: nat where "RESPONSE_MAX = 10 * 1024 * 1024"
definition KIND_RAFT :: u32 where "KIND_RAFT = 1"
definition KIND_KV :: u32 where "KIND_KV = 2"
definition KIND_SQLITE_SYNC :: u32 where "KIND_SQLITE_SYNC = 3"
definition KIND_TASK :: u32 where "KIND_TASK = 4"
definition KIND_WASM_SYNC :: u32 where "KIND_WASM_SYNC = 5"

lemmas kind_defs = KIND_RAFT_def KIND_KV_def KIND_SQLITE_SYNC_def KIND_TASK_def KIND_WASM_SYNC_def

record unified_codec =
  uc_request_size_maximum :: nat
  uc_response_size_maximum :: nat

definition codec_default :: unified_codec where
  "codec_default = \<lparr>uc_request_size_maximum = REQUEST_MAX, uc_response_size_maximum = RESPONSE_MAX\<rparr>"

definition set_request_size_maximum :: "nat \<Rightarrow> unified_codec \<Rightarrow> unified_codec" where
  "set_request_size_maximum n codec = codec\<lparr>uc_request_size_maximum := n\<rparr>"

definition set_response_size_maximum :: "nat \<Rightarrow> unified_codec \<Rightarrow> unified_codec" where
  "set_response_size_maximum n codec = codec\<lparr>uc_response_size_maximum := n\<rparr>"

definition envelope :: "bytes result \<Rightarrow> bytes result \<Rightarrow> u32 \<Rightarrow> proto_envelope result" where
  "envelope payload binary k =
     rbind binary (\<lambda>b. rbind payload (\<lambda>p. Inr \<lparr>pe_payload = p, pe_binary = b, pe_kind = k\<rparr>))"

text \<open>\<open>std::mem::take\<close> on the bytes of a snapshot or a chunk: what is taken and what is left.\<close>

fun take_snapshot_data :: "'o raft_rpc_op \<Rightarrow> bytes \<times> 'o raft_rpc_op" where
  "take_snapshot_data (OpFullSnapshot vote meta data) = (data, OpFullSnapshot vote meta [])"
| "take_snapshot_data op = ([], op)"

fun take_chunk_data :: "wasm_sync_response \<Rightarrow> bytes \<times> wasm_sync_response" where
  "take_chunk_data (RespChunk sha index data) = (data, RespChunk sha index [])"
| "take_chunk_data resp = ([], resp)"

definition binary_frame :: "('o, 's, 't, 'u, 'v) wire_api \<Rightarrow> bytes \<Rightarrow> bytes result" where
  "binary_frame api data = (if data = [] then Inr [] else wire_enc (wx_zstd api) data)"

fun request_envelope :: "('o, 's, 't, 'u, 'v) wire_api \<Rightarrow> ('o, 's, 't) unified_request \<Rightarrow> proto_envelope result" where
  "request_envelope api (UqRaft raft) =
     (let (data, op) = take_snapshot_data (rq_op raft) in
      envelope (wire_enc (wx_raft_req api) (raft\<lparr>rq_op := op\<rparr>)) (binary_frame api data) KIND_RAFT)"
| "request_envelope api (UqKv kv) = envelope (Inr (fst (wx_kv_req api) kv)) (Inr []) KIND_KV"
| "request_envelope api (UqSqliteSync msg) = envelope (wire_enc (wx_sqlite_req api) msg) (Inr []) KIND_SQLITE_SYNC"
| "request_envelope api (UqTask msg) = envelope (wire_enc (wx_task_req api) msg) (Inr []) KIND_TASK"
| "request_envelope api (UqWasmSync msg) = envelope (wire_enc (wx_wasm_req api) msg) (Inr []) KIND_WASM_SYNC"

definition encode_unified_request :: "('o, 's, 't, 'u, 'v) wire_api \<Rightarrow> ('o, 's, 't) unified_request \<Rightarrow> bytes result" where
  "encode_unified_request api req = rbind (request_envelope api req) (\<lambda>e. Inr (fst (wx_env api) e))"

definition attach_snapshot_binary ::
  "('o, 's, 't, 'u, 'v) wire_api \<Rightarrow> 'o raft_rpc_request \<Rightarrow> bytes \<Rightarrow> 'o raft_rpc_request result" where
  "attach_snapshot_binary api request binary =
     (if binary = [] then Inr request
      else (case rq_op request of
          OpFullSnapshot vote meta data \<Rightarrow>
            rbind (wire_dec (wx_zstd api) binary) (\<lambda>data. Inr (request\<lparr>rq_op := OpFullSnapshot vote meta data\<rparr>))
        | _ \<Rightarrow> Inl ''binary frame on a non-snapshot raft request''))"

definition decode_unified_request ::
  "('o, 's, 't, 'u, 'v) wire_api \<Rightarrow> proto_envelope \<Rightarrow> ('o, 's, 't) unified_request result" where
  "decode_unified_request api e =
     (if pe_kind e = KIND_RAFT then
        rbind (wire_dec (wx_raft_req api) (pe_payload e)) (\<lambda>request.
        rbind (attach_snapshot_binary api request (pe_binary e)) (\<lambda>request. Inr (UqRaft request)))
      else if pe_kind e = KIND_KV then rbind (snd (wx_kv_req api) (pe_payload e)) (\<lambda>kv. Inr (UqKv kv))
      else if pe_kind e = KIND_SQLITE_SYNC then rbind (wire_dec (wx_sqlite_req api) (pe_payload e)) (\<lambda>m. Inr (UqSqliteSync m))
      else if pe_kind e = KIND_TASK then rbind (wire_dec (wx_task_req api) (pe_payload e)) (\<lambda>m. Inr (UqTask m))
      else if pe_kind e = KIND_WASM_SYNC then rbind (wire_dec (wx_wasm_req api) (pe_payload e)) (\<lambda>m. Inr (UqWasmSync m))
      else Inl (''unknown rpc request kind: '' @ show_nat (unat (pe_kind e))))"

fun response_envelope :: "('o, 's, 't, 'u, 'v) wire_api \<Rightarrow> ('o, 'u, 'v) unified_response \<Rightarrow> proto_envelope result" where
  "response_envelope api (UrRaft raft) = envelope (wire_enc (wx_raft_resp api) raft) (Inr []) KIND_RAFT"
| "response_envelope api (UrKv kv) = envelope (Inr (fst (wx_kv_resp api) kv)) (Inr []) KIND_KV"
| "response_envelope api (UrSqliteSync msg) = envelope (wire_enc (wx_sqlite_resp api) msg) (Inr []) KIND_SQLITE_SYNC"
| "response_envelope api (UrTask msg) = envelope (wire_enc (wx_task_resp api) msg) (Inr []) KIND_TASK"
| "response_envelope api (UrWasmSync msg) =
     (let (data, msg) = take_chunk_data msg in
      envelope (wire_enc (wx_wasm_resp api) msg) (binary_frame api data) KIND_WASM_SYNC)"

definition encode_unified_response :: "('o, 's, 't, 'u, 'v) wire_api \<Rightarrow> ('o, 'u, 'v) unified_response \<Rightarrow> bytes result" where
  "encode_unified_response api resp = rbind (response_envelope api resp) (\<lambda>e. Inr (fst (wx_env api) e))"

definition attach_chunk_binary ::
  "('o, 's, 't, 'u, 'v) wire_api \<Rightarrow> wasm_sync_response \<Rightarrow> bytes \<Rightarrow> wasm_sync_response result" where
  "attach_chunk_binary api response binary =
     (if binary = [] then Inr response
      else (case response of
          RespChunk sha index data \<Rightarrow> rbind (wire_dec (wx_zstd api) binary) (\<lambda>data. Inr (RespChunk sha index data))
        | _ \<Rightarrow> Inl ''binary frame on a non-chunk wasm sync response''))"

definition decode_unified_response ::
  "('o, 's, 't, 'u, 'v) wire_api \<Rightarrow> proto_envelope \<Rightarrow> ('o, 'u, 'v) unified_response result" where
  "decode_unified_response api e =
     (if pe_kind e = KIND_RAFT then rbind (wire_dec (wx_raft_resp api) (pe_payload e)) (\<lambda>r. Inr (UrRaft r))
      else if pe_kind e = KIND_KV then rbind (snd (wx_kv_resp api) (pe_payload e)) (\<lambda>kv. Inr (UrKv kv))
      else if pe_kind e = KIND_SQLITE_SYNC then rbind (wire_dec (wx_sqlite_resp api) (pe_payload e)) (\<lambda>m. Inr (UrSqliteSync m))
      else if pe_kind e = KIND_TASK then rbind (wire_dec (wx_task_resp api) (pe_payload e)) (\<lambda>m. Inr (UrTask m))
      else if pe_kind e = KIND_WASM_SYNC then
        rbind (wire_dec (wx_wasm_resp api) (pe_payload e)) (\<lambda>response.
        rbind (attach_chunk_binary api response (pe_binary e)) (\<lambda>response. Inr (UrWasmSync response)))
      else Inl (''unknown rpc response kind: '' @ show_nat (unat (pe_kind e))))"

text \<open>Reading stops at the limit without an error; what was read is decoded.\<close>

definition read_envelope :: "('o, 's, 't, 'u, 'v) wire_api \<Rightarrow> nat \<Rightarrow> bytes \<Rightarrow> proto_envelope result" where
  "read_envelope api limit stream = snd (wx_env api) (take limit stream)"

definition read_request :: "('o, 's, 't, 'u, 'v) wire_api \<Rightarrow> unified_codec \<Rightarrow> bytes \<Rightarrow> ('o, 's, 't) unified_request result" where
  "read_request api codec stream = rbind (read_envelope api (uc_request_size_maximum codec) stream) (decode_unified_request api)"

definition read_response :: "('o, 's, 't, 'u, 'v) wire_api \<Rightarrow> unified_codec \<Rightarrow> bytes \<Rightarrow> ('o, 'u, 'v) unified_response result" where
  "read_response api codec stream = rbind (read_envelope api (uc_response_size_maximum codec) stream) (decode_unified_response api)"

section \<open>Round trips\<close>

lemma wire_okE:
  assumes "wire_ok w"
  obtains b where "wire_enc w x = Inr b" "wire_dec w b = Inr x"
  using assms unfolding wire_ok_def by blast

lemma wire_api_okD:
  assumes "wire_api_ok api"
  shows "wire_ok (wx_raft_req api)" "snd (wx_kv_req api) (fst (wx_kv_req api) x) = Inr x" "wire_ok (wx_sqlite_req api)"
    "wire_ok (wx_task_req api)" "wire_ok (wx_wasm_req api)" "wire_ok (wx_raft_resp api)"
    "snd (wx_kv_resp api) (fst (wx_kv_resp api) y) = Inr y" "wire_ok (wx_sqlite_resp api)" "wire_ok (wx_task_resp api)"
    "wire_ok (wx_wasm_resp api)" "wire_ok (wx_zstd api)" "wire_enc (wx_zstd api) z = Inr b \<Longrightarrow> b \<noteq> []"
    "snd (wx_env api) (fst (wx_env api) e) = Inr e"
    "n < length (fst (wx_env api) e) \<Longrightarrow> snd (wx_env api) (take n (fst (wx_env api) e)) = Inr e' \<Longrightarrow> pe_kind e' = 0"
  using assms unfolding wire_api_ok_def by blast+

lemma binary_frameE:
  assumes "wire_api_ok api"
  obtains b where "binary_frame api data = Inr b" "b = [] \<longleftrightarrow> data = []" "data \<noteq> [] \<Longrightarrow> wire_dec (wx_zstd api) b = Inr data"
proof (cases "data = []")
  case False
  obtain b where "wire_enc (wx_zstd api) data = Inr b" "wire_dec (wx_zstd api) b = Inr data"
    using wire_okE[OF wire_api_okD(11)[OF assms]] by blast
  with False show thesis using wire_api_okD(12)[OF assms] by (intro that[of b]) (auto simp: binary_frame_def)
qed (auto simp: binary_frame_def intro: that)

text \<open>The bytes that were taken out of the message come back in through the binary frame.\<close>

lemma attach_taken_snapshot:
  assumes "take_snapshot_data (rq_op request) = (data, op)" "b = [] \<longleftrightarrow> data = []" "data \<noteq> [] \<Longrightarrow> wire_dec (wx_zstd api) b = Inr data"
  shows "attach_snapshot_binary api (request\<lparr>rq_op := op\<rparr>) b = Inr request"
  using assms by (cases "rq_op request") (auto simp: attach_snapshot_binary_def)

lemma attach_taken_chunk:
  assumes "take_chunk_data response = (data, rest)" "b = [] \<longleftrightarrow> data = []" "data \<noteq> [] \<Longrightarrow> wire_dec (wx_zstd api) b = Inr data"
  shows "attach_chunk_binary api rest b = Inr response"
  using assms by (cases response) (auto simp: attach_chunk_binary_def)

lemma request_envelope_roundtrip:
  assumes "wire_api_ok api"
  shows "\<exists>e. request_envelope api req = Inr e \<and> decode_unified_request api e = Inr req \<and> pe_kind e \<noteq> 0"
proof (cases req)
  case (UqRaft raft)
  obtain data op where taken: "take_snapshot_data (rq_op raft) = (data, op)" by fastforce
  obtain b where b: "binary_frame api data = Inr b" "b = [] \<longleftrightarrow> data = []" "data \<noteq> [] \<Longrightarrow> wire_dec (wx_zstd api) b = Inr data"
    using binary_frameE[OF assms] by blast
  obtain p where p: "wire_enc (wx_raft_req api) (raft\<lparr>rq_op := op\<rparr>) = Inr p" "wire_dec (wx_raft_req api) p = Inr (raft\<lparr>rq_op := op\<rparr>)"
    using wire_okE[OF wire_api_okD(1)[OF assms]] by blast
  show ?thesis using UqRaft taken b(1) p attach_taken_snapshot[OF taken b(2,3)]
    by (simp add: envelope_def decode_unified_request_def kind_defs)
next
  case (UqSqliteSync m)
  obtain p where "wire_enc (wx_sqlite_req api) m = Inr p" "wire_dec (wx_sqlite_req api) p = Inr m" by (rule wire_okE[OF wire_api_okD(3)[OF assms]])
  with UqSqliteSync show ?thesis by (simp add: envelope_def decode_unified_request_def kind_defs)
next
  case (UqTask m)
  obtain p where "wire_enc (wx_task_req api) m = Inr p" "wire_dec (wx_task_req api) p = Inr m" by (rule wire_okE[OF wire_api_okD(4)[OF assms]])
  with UqTask show ?thesis by (simp add: envelope_def decode_unified_request_def kind_defs)
next
  case (UqWasmSync m)
  obtain p where "wire_enc (wx_wasm_req api) m = Inr p" "wire_dec (wx_wasm_req api) p = Inr m" by (rule wire_okE[OF wire_api_okD(5)[OF assms]])
  with UqWasmSync show ?thesis by (simp add: envelope_def decode_unified_request_def kind_defs)
qed (use wire_api_okD(2)[OF assms] in \<open>simp add: envelope_def decode_unified_request_def kind_defs\<close>)

lemma response_envelope_roundtrip:
  assumes "wire_api_ok api"
  shows "\<exists>e. response_envelope api resp = Inr e \<and> decode_unified_response api e = Inr resp \<and> pe_kind e \<noteq> 0"
proof (cases resp)
  case (UrWasmSync msg)
  obtain data rest where taken: "take_chunk_data msg = (data, rest)" by fastforce
  obtain b where b: "binary_frame api data = Inr b" "b = [] \<longleftrightarrow> data = []" "data \<noteq> [] \<Longrightarrow> wire_dec (wx_zstd api) b = Inr data"
    using binary_frameE[OF assms] by blast
  obtain p where p: "wire_enc (wx_wasm_resp api) rest = Inr p" "wire_dec (wx_wasm_resp api) p = Inr rest"
    using wire_okE[OF wire_api_okD(10)[OF assms]] by blast
  show ?thesis using UrWasmSync taken b(1) p attach_taken_chunk[OF taken b(2,3)]
    by (simp add: envelope_def decode_unified_response_def kind_defs)
next
  case (UrRaft m)
  obtain p where "wire_enc (wx_raft_resp api) m = Inr p" "wire_dec (wx_raft_resp api) p = Inr m" by (rule wire_okE[OF wire_api_okD(6)[OF assms]])
  with UrRaft show ?thesis by (simp add: envelope_def decode_unified_response_def kind_defs)
next
  case (UrSqliteSync m)
  obtain p where "wire_enc (wx_sqlite_resp api) m = Inr p" "wire_dec (wx_sqlite_resp api) p = Inr m" by (rule wire_okE[OF wire_api_okD(8)[OF assms]])
  with UrSqliteSync show ?thesis by (simp add: envelope_def decode_unified_response_def kind_defs)
next
  case (UrTask m)
  obtain p where "wire_enc (wx_task_resp api) m = Inr p" "wire_dec (wx_task_resp api) p = Inr m" by (rule wire_okE[OF wire_api_okD(9)[OF assms]])
  with UrTask show ?thesis by (simp add: envelope_def decode_unified_response_def kind_defs)
qed (use wire_api_okD(7)[OF assms] in \<open>simp add: envelope_def decode_unified_response_def kind_defs\<close>)

lemma kind_zero_refused:
  "pe_kind e = 0 \<Longrightarrow> decode_unified_request api e = Inl (''unknown rpc request kind: '' @ show_nat 0)"
  "pe_kind e = 0 \<Longrightarrow> decode_unified_response api e = Inl (''unknown rpc response kind: '' @ show_nat 0)"
  by (simp_all add: decode_unified_request_def decode_unified_response_def kind_defs)

text \<open>A message arrives as it was sent when it fits, and is refused when it does not.\<close>

lemma request_delivery:
  assumes "wire_api_ok api"
  shows "\<exists>data. encode_unified_request api req = Inr data \<and>
    (if length data \<le> uc_request_size_maximum codec then read_request api codec data = Inr req
     else \<exists>e. read_request api codec data = Inl e)"
proof -
  obtain e where e: "request_envelope api req = Inr e" "decode_unified_request api e = Inr req"
    using request_envelope_roundtrip[OF assms] by blast
  have "\<exists>err. read_request api codec (fst (wx_env api) e) = Inl err" if "uc_request_size_maximum codec < length (fst (wx_env api) e)"
  proof (cases "read_envelope api (uc_request_size_maximum codec) (fst (wx_env api) e)")
    case (Inr e')
    then have "pe_kind e' = 0" using wire_api_okD(14)[OF assms that] by (simp add: read_envelope_def)
    then show ?thesis using Inr by (simp add: read_request_def kind_zero_refused)
  qed (simp add: read_request_def)
  then show ?thesis using e wire_api_okD(13)[OF assms]
    by (auto simp: encode_unified_request_def read_request_def read_envelope_def)
qed

lemma response_delivery:
  assumes "wire_api_ok api"
  shows "\<exists>data. encode_unified_response api resp = Inr data \<and>
    (if length data \<le> uc_response_size_maximum codec then read_response api codec data = Inr resp
     else \<exists>e. read_response api codec data = Inl e)"
proof -
  obtain e where e: "response_envelope api resp = Inr e" "decode_unified_response api e = Inr resp"
    using response_envelope_roundtrip[OF assms] by blast
  have "\<exists>err. read_response api codec (fst (wx_env api) e) = Inl err" if "uc_response_size_maximum codec < length (fst (wx_env api) e)"
  proof (cases "read_envelope api (uc_response_size_maximum codec) (fst (wx_env api) e)")
    case (Inr e')
    then have "pe_kind e' = 0" using wire_api_okD(14)[OF assms that] by (simp add: read_envelope_def)
    then show ?thesis using Inr by (simp add: read_response_def kind_zero_refused)
  qed (simp add: read_response_def)
  then show ?thesis using e wire_api_okD(13)[OF assms]
    by (auto simp: encode_unified_response_def read_response_def read_envelope_def)
qed

end
