(* ===== verification/RpcStack.thy ===== *)
theory RpcStack
  imports RpcCodec
begin

text \<open>
  The layers around the codec: the typed clients of \<open>network/swarm/client.rs\<close>, the inbound side of
  \<open>network/swarm/events/rpc.rs\<close> with its limit of concurrent requests, the dispatcher of
  \<open>network/openraft_dispatcher.rs\<close>, and the bridge of \<open>network/raft_bridge.rs\<close> through which openraft
  on one node calls openraft on another. Openraft itself is the record \<open>raft_node\<close> on the state \<open>'r\<close>
  of a group.
\<close>

section \<open>Clients\<close>

definition RAFT_CORE_RPC_TIMEOUT :: nat where "RAFT_CORE_RPC_TIMEOUT = 2"
definition RAFT_SNAPSHOT_RPC_TIMEOUT :: nat where "RAFT_SNAPSHOT_RPC_TIMEOUT = 45"
definition RPC_PROTOCOL_REQUEST_TIMEOUT :: nat where "RPC_PROTOCOL_REQUEST_TIMEOUT = 60"

definition raft_rpc_timeout :: "'o raft_rpc_op \<Rightarrow> nat \<Rightarrow> nat" where
  "raft_rpc_timeout op dflt = (case op of
      OpAppendEntries _ \<Rightarrow> min RAFT_CORE_RPC_TIMEOUT dflt
    | OpVote _ \<Rightarrow> min RAFT_CORE_RPC_TIMEOUT dflt
    | OpFullSnapshot _ _ _ \<Rightarrow> max RAFT_SNAPSHOT_RPC_TIMEOUT dflt
    | _ \<Rightarrow> dflt)"

text \<open>How a command to the event loop ends: the channel is closed, the time is up, the loop dropped the
  caller, or there is an answer, an error of the network or a response.\<close>

datatype ('o, 's, 't) rpc_end =
    ChannelClosed string | TimedOut string | CallerDropped string | Answered "string + ('o, 's, 't) unified_response"

definition rpc_answer :: "('o, 's, 't) rpc_end \<Rightarrow> ('o, 's, 't) unified_response result" where
  "rpc_answer e = (case e of
      ChannelClosed t \<Rightarrow> Inl (''command channel closed: '' @ t)
    | TimedOut t \<Rightarrow> Inl (''request timeout: '' @ t)
    | CallerDropped t \<Rightarrow> Inl (''response dropped: '' @ t)
    | Answered r \<Rightarrow> r)"

definition unexpected_kind :: "'a result" where
  "unexpected_kind = Inl ''unexpected rpc response kind''"

text \<open>\<open>Libp2pClient::request\<close> and the requests the macro \<open>define_rpc_client\<close> makes. The call \<open>ask\<close> of the
  event loop gets the request and the time it may take.\<close>

type_synonym ('w, 'o, 's, 't, 'u, 'v) ask = "'w \<Rightarrow> ('o, 's, 't) unified_request \<Rightarrow> nat \<Rightarrow> 'w \<times> ('o, 'u, 'v) rpc_end"

definition raft_request ::
  "('w, 'o, 's, 't, 'u, 'v) ask \<Rightarrow> nat \<Rightarrow> 'o raft_rpc_request \<Rightarrow> 'w \<Rightarrow> 'w \<times> 'o raft_rpc_response result" where
  "raft_request ask dflt req w =
     (let (w', e) = ask w (UqRaft req) (raft_rpc_timeout (rq_op req) dflt) in
      (w', rbind (rpc_answer e) (\<lambda>r. case r of UrRaft resp \<Rightarrow> Inr resp | _ \<Rightarrow> unexpected_kind)))"

definition kv_request :: "('w, 'o, 's, 't, 'u, 'v) ask \<Rightarrow> nat \<Rightarrow> raft_kv_request \<Rightarrow> 'w \<Rightarrow> 'w \<times> raft_kv_response result" where
  "kv_request ask timeout req w =
     (let (w', e) = ask w (UqKv req) timeout in
      (w', rbind (rpc_answer e) (\<lambda>r. case r of UrKv resp \<Rightarrow> Inr resp | _ \<Rightarrow> unexpected_kind)))"

definition sqlite_sync_request :: "('w, 'o, 's, 't, 'u, 'v) ask \<Rightarrow> nat \<Rightarrow> 's \<Rightarrow> 'w \<Rightarrow> 'w \<times> 'u result" where
  "sqlite_sync_request ask timeout req w =
     (let (w', e) = ask w (UqSqliteSync req) timeout in
      (w', rbind (rpc_answer e) (\<lambda>r. case r of UrSqliteSync resp \<Rightarrow> Inr resp | _ \<Rightarrow> unexpected_kind)))"

definition task_rpc_request :: "('w, 'o, 's, 't, 'u, 'v) ask \<Rightarrow> nat \<Rightarrow> 't \<Rightarrow> 'w \<Rightarrow> 'w \<times> 'v result" where
  "task_rpc_request ask timeout req w =
     (let (w', e) = ask w (UqTask req) timeout in
      (w', rbind (rpc_answer e) (\<lambda>r. case r of UrTask resp \<Rightarrow> Inr resp | _ \<Rightarrow> unexpected_kind)))"

definition wasm_client_request ::
  "('w, 'o, 's, 't, 'u, 'v) ask \<Rightarrow> nat \<Rightarrow> wasm_sync_request \<Rightarrow> 'w \<Rightarrow> 'w \<times> wasm_sync_response result" where
  "wasm_client_request ask timeout req w =
     (let (w', e) = ask w (UqWasmSync req) timeout in
      (w', rbind (rpc_answer e) (\<lambda>r. case r of UrWasmSync resp \<Rightarrow> Inr resp | _ \<Rightarrow> unexpected_kind)))"

datatype priority = High | Low

definition for_response :: "('o, 's, 't) unified_response \<Rightarrow> priority" where
  "for_response resp = (case resp of UrRaft _ \<Rightarrow> High | _ \<Rightarrow> Low)"

section \<open>Inbound requests\<close>

text \<open>What becomes of a request that arrives, by the number of free permits.\<close>

datatype inbound = RunNow | WaitForPermit | BusyKv raft_kv_response | BusyWasm string | DropChannel

definition admit_request :: "nat \<Rightarrow> ('o, 's, 't) unified_request \<Rightarrow> inbound" where
  "admit_request permits request =
     (if 0 < permits then RunNow
      else (case request of
          UqRaft _ \<Rightarrow> WaitForPermit
        | UqKv _ \<Rightarrow> BusyKv (kv_error_response ''server busy; retry with backoff'')
        | UqSqliteSync _ \<Rightarrow> DropChannel
        | UqTask _ \<Rightarrow> DropChannel
        | UqWasmSync _ \<Rightarrow> BusyWasm ''server busy; retry with backoff''))"

record ('w, 'o, 's, 't, 'u, 'v) dispatcher =
  di_raft :: "'w \<Rightarrow> 'o raft_rpc_request \<Rightarrow> 'w \<times> 'o raft_rpc_response"
  di_kv :: "'w \<Rightarrow> raft_kv_request \<Rightarrow> 'w \<times> raft_kv_response"
  di_sqlite_sync :: "'w \<Rightarrow> 's \<Rightarrow> 'w \<times> 'u"
  di_task_rpc :: "'w \<Rightarrow> 't \<Rightarrow> 'w \<times> 'v"
  di_wasm_sync :: "'w \<Rightarrow> wasm_sync_request \<Rightarrow> 'w \<times> wasm_sync_response"

fun dispatch_unified_request ::
  "('w, 'o, 's, 't, 'u, 'v) dispatcher \<Rightarrow> 'w \<Rightarrow> ('o, 's, 't) unified_request \<Rightarrow> 'w \<times> ('o, 'u, 'v) unified_response" where
  "dispatch_unified_request d w (UqRaft req) = apsnd UrRaft (di_raft d w req)"
| "dispatch_unified_request d w (UqKv req) = apsnd UrKv (di_kv d w req)"
| "dispatch_unified_request d w (UqSqliteSync req) = apsnd UrSqliteSync (di_sqlite_sync d w req)"
| "dispatch_unified_request d w (UqTask req) = apsnd UrTask (di_task_rpc d w req)"
| "dispatch_unified_request d w (UqWasmSync req) = apsnd UrWasmSync (di_wasm_sync d w req)"

section \<open>Raft requests on the server\<close>

record ('o, 'r) raft_node =
  rn_append_entries :: "'r \<Rightarrow> 'o \<Rightarrow> 'r \<times> ('o + 'o)"
  rn_vote :: "'r \<Rightarrow> 'o \<Rightarrow> 'r \<times> ('o + 'o)"
  rn_client_write :: "'r \<Rightarrow> request \<Rightarrow> 'r \<times> ('o + 'o)"
  rn_metrics :: "'r \<Rightarrow> 'o"
  rn_install_full_snapshot :: "'r \<Rightarrow> 'o \<Rightarrow> 'o \<Rightarrow> bytes \<Rightarrow> 'r \<times> ('o + 'o)"
  rn_fatal :: "'o \<Rightarrow> 'o"
  rn_membership :: "'r raft_calls"

definition on_raft :: "('r \<Rightarrow> 'r \<times> 'a) \<Rightarrow> 'r group_handle \<Rightarrow> 'r group_handle \<times> 'a" where
  "on_raft f g = (case f (gh_raft g) of (r, a) \<Rightarrow> (g\<lparr>gh_raft := r\<rparr>, a))"

fun rocks_write :: "rocks_request \<Rightarrow> request" where
  "rocks_write (RkSet key v) = ReqSet key v"
| "rocks_write (RkUpdate key v) = ReqSet key v"
| "rocks_write (RkDelete key) = ReqDelete key"

fun handle_inbound_raft :: "('o, 'r) raft_node \<Rightarrow> 'r group_handle \<Rightarrow> 'o raft_rpc_op \<Rightarrow> 'r group_handle \<times> 'o raft_rpc_response" where
  "handle_inbound_raft n g (OpAppendEntries req) = apsnd RaAppendEntries (on_raft (\<lambda>r. rn_append_entries n r req) g)"
| "handle_inbound_raft n g (OpVote req) = apsnd RaVote (on_raft (\<lambda>r. rn_vote n r req) g)"
| "handle_inbound_raft n g (OpClientWrite req) = apsnd RaClientWrite (on_raft (\<lambda>r. rn_client_write n r (rocks_write req)) g)"
| "handle_inbound_raft n g OpGetMetrics = (g, RaGetMetrics (rn_metrics n (gh_raft g)))"
| "handle_inbound_raft n g (OpJoinCluster req) =
     with_fence (\<lambda>r. apsnd RaJoinCluster (handle_join_cluster (rn_membership n) req r)) (RaError rpc_fence_busy) g"
| "handle_inbound_raft n g (OpAddLearner node_id addr) =
     with_fence (\<lambda>r. apsnd RaAddLearner (handle_add_learner (rn_membership n) node_id addr r)) (RaError rpc_fence_busy) g"
| "handle_inbound_raft n g (OpFullSnapshot vote meta data) =
     apsnd (\<lambda>res. RaFullSnapshot (map_err (rn_fatal n) res)) (on_raft (\<lambda>r. rn_install_full_snapshot n r vote meta data) g)"

type_synonym 'r registry = "string \<Rightarrow> 'r group_handle option"

definition handle_raft :: "('o, 'r) raft_node \<Rightarrow> 'r registry \<Rightarrow> 'o raft_rpc_request \<Rightarrow> 'r registry \<times> 'o raft_rpc_response" where
  "handle_raft n reg request =
     (case reg (rq_group_id request) of
        None \<Rightarrow> (reg, RaError (''unknown group_id='' @ rq_group_id request))
      | Some g \<Rightarrow> (case handle_inbound_raft n g (rq_op request) of (g', resp) \<Rightarrow> (reg(rq_group_id request \<mapsto> g'), resp)))"

section \<open>The bridge\<close>

text \<open>An error of a raft call is always \<open>Unreachable\<close>, from the transport, from the remote openraft, or
  because the answer is of another kind.\<close>

datatype 'o unreachable = TransportDown string | RemoteError 'o | BridgeMismatch "'o raft_rpc_response"

type_synonym ('w, 'o) send_request = "'w \<Rightarrow> 'o raft_rpc_request \<Rightarrow> 'w \<times> 'o raft_rpc_response result"

definition send_op :: "('w, 'o) send_request \<Rightarrow> string \<Rightarrow> 'o raft_rpc_op \<Rightarrow> 'w \<Rightarrow> 'w \<times> ('o unreachable + 'o raft_rpc_response)" where
  "send_op send group_id op w = apsnd (map_err TransportDown) (send w \<lparr>rq_group_id = group_id, rq_op = op\<rparr>)"

definition bridge_append_entries :: "('w, 'o) send_request \<Rightarrow> string \<Rightarrow> 'o \<Rightarrow> 'w \<Rightarrow> 'w \<times> ('o unreachable + 'o)" where
  "bridge_append_entries send group_id req w =
     apsnd (\<lambda>result. rbind result (\<lambda>response. case response of
         RaAppendEntries res \<Rightarrow> map_err RemoteError res
       | other \<Rightarrow> Inl (BridgeMismatch other))) (send_op send group_id (OpAppendEntries req) w)"

definition bridge_vote :: "('w, 'o) send_request \<Rightarrow> string \<Rightarrow> 'o \<Rightarrow> 'w \<Rightarrow> 'w \<times> ('o unreachable + 'o)" where
  "bridge_vote send group_id req w =
     apsnd (\<lambda>result. rbind result (\<lambda>response. case response of
         RaVote res \<Rightarrow> map_err RemoteError res
       | other \<Rightarrow> Inl (BridgeMismatch other))) (send_op send group_id (OpVote req) w)"

definition bridge_full_snapshot :: "('w, 'o) send_request \<Rightarrow> string \<Rightarrow> 'o \<Rightarrow> 'o \<Rightarrow> bytes \<Rightarrow> 'w \<Rightarrow> 'w \<times> ('o unreachable + 'o)" where
  "bridge_full_snapshot send group_id vote meta data w =
     apsnd (\<lambda>result. rbind result (\<lambda>response. case response of
         RaFullSnapshot res \<Rightarrow> map_err RemoteError res
       | other \<Rightarrow> Inl (BridgeMismatch other))) (send_op send group_id (OpFullSnapshot vote meta data) w)"

section \<open>A call over the wire\<close>

text \<open>The caller writes the request, the peer reads it, runs the handler and writes the response, the
  caller reads that. A message that cannot be read ends the call with an error; when it is the
  response, the handler has run.\<close>

definition wire_call ::
  "('o, 's, 't, 'u, 'v) wire_api \<Rightarrow> unified_codec \<Rightarrow> ('w, 'o, 's, 't, 'u, 'v) dispatcher \<Rightarrow> ('w, 'o, 's, 't, 'u, 'v) ask" where
  "wire_call api codec d w req timeout =
     (case rbind (encode_unified_request api req) (read_request api codec) of
        Inl e \<Rightarrow> (w, Answered (Inl (''outbound failure: '' @ e)))
      | Inr arrived \<Rightarrow>
          (case dispatch_unified_request d w arrived of (w', resp) \<Rightarrow>
             (w', Answered (map_err (\<lambda>e. ''outbound failure: '' @ e)
                (rbind (encode_unified_response api resp) (read_response api codec))))))"

definition fits_request :: "('o, 's, 't, 'u, 'v) wire_api \<Rightarrow> unified_codec \<Rightarrow> ('o, 's, 't) unified_request \<Rightarrow> bool" where
  "fits_request api codec req \<longleftrightarrow>
     (case encode_unified_request api req of Inl _ \<Rightarrow> False | Inr data \<Rightarrow> length data \<le> uc_request_size_maximum codec)"

definition fits_response :: "('o, 's, 't, 'u, 'v) wire_api \<Rightarrow> unified_codec \<Rightarrow> ('o, 'u, 'v) unified_response \<Rightarrow> bool" where
  "fits_response api codec resp \<longleftrightarrow>
     (case encode_unified_response api resp of Inl _ \<Rightarrow> False | Inr data \<Rightarrow> length data \<le> uc_response_size_maximum codec)"

lemma wire_call_exact:
  assumes "wire_api_ok api" "dispatch_unified_request d w req = (w', resp)"
  shows "fits_request api codec req \<Longrightarrow> fits_response api codec resp \<Longrightarrow> wire_call api codec d w req t = (w', Answered (Inr resp))"
    and "fits_request api codec req \<Longrightarrow> \<not> fits_response api codec resp \<Longrightarrow> \<exists>e. wire_call api codec d w req t = (w', Answered (Inl e))"
    and "\<not> fits_request api codec req \<Longrightarrow> \<exists>e. wire_call api codec d w req t = (w, Answered (Inl e))"
proof -
  obtain q where q: "encode_unified_request api req = Inr q"
    "if length q \<le> uc_request_size_maximum codec then read_request api codec q = Inr req else \<exists>e. read_request api codec q = Inl e"
    using request_delivery[OF assms(1)] by blast
  obtain a where a: "encode_unified_response api resp = Inr a"
    "if length a \<le> uc_response_size_maximum codec then read_response api codec a = Inr resp else \<exists>e. read_response api codec a = Inl e"
    using response_delivery[OF assms(1)] by blast
  show "fits_request api codec req \<Longrightarrow> fits_response api codec resp \<Longrightarrow> wire_call api codec d w req t = (w', Answered (Inr resp))"
    "fits_request api codec req \<Longrightarrow> \<not> fits_response api codec resp \<Longrightarrow> \<exists>e. wire_call api codec d w req t = (w', Answered (Inl e))"
    "\<not> fits_request api codec req \<Longrightarrow> \<exists>e. wire_call api codec d w req t = (w, Answered (Inl e))"
    using q a assms(2) by (auto simp: wire_call_def fits_request_def fits_response_def)
qed

text \<open>The clients unwrap the kind they asked for.\<close>

lemma kv_request_wire:
  assumes "wire_api_ok api" "di_kv d w req = (w', resp)" "fits_request api codec (UqKv req)" "fits_response api codec (UrKv resp)"
  shows "kv_request (wire_call api codec d) t req w = (w', Inr resp)"
  using wire_call_exact(1)[OF assms(1), of d w "UqKv req" w' "UrKv resp" codec t] assms(2-)
  by (simp add: kv_request_def rpc_answer_def)

lemma task_request_wire:
  assumes "wire_api_ok api" "di_task_rpc d w req = (w', resp)" "fits_request api codec (UqTask req)" "fits_response api codec (UrTask resp)"
  shows "task_rpc_request (wire_call api codec d) t req w = (w', Inr resp)"
  using wire_call_exact(1)[OF assms(1), of d w "UqTask req" w' "UrTask resp" codec t] assms(2-)
  by (simp add: task_rpc_request_def rpc_answer_def)

lemma wasm_request_wire:
  assumes "wire_api_ok api" "di_wasm_sync d w req = (w', resp)" "fits_request api codec (UqWasmSync req)"
    "fits_response api codec (UrWasmSync resp)"
  shows "wasm_client_request (wire_call api codec d) t req w = (w', Inr resp)"
  using wire_call_exact(1)[OF assms(1), of d w "UqWasmSync req" w' "UrWasmSync resp" codec t] assms(2-)
  by (simp add: wasm_client_request_def rpc_answer_def)

text \<open>A raft request is never shed, whatever the load.\<close>

lemma raft_never_shed: "admit_request permits (UqRaft req) \<in> {RunNow, WaitForPermit}"
  by (simp add: admit_request_def)

lemma raft_timeouts:
  "raft_rpc_timeout (OpVote v) dflt \<le> dflt" "raft_rpc_timeout (OpAppendEntries v) dflt \<le> RAFT_CORE_RPC_TIMEOUT"
  "dflt < RPC_PROTOCOL_REQUEST_TIMEOUT \<Longrightarrow> raft_rpc_timeout op dflt < RPC_PROTOCOL_REQUEST_TIMEOUT"
  by (auto simp: raft_rpc_timeout_def RAFT_CORE_RPC_TIMEOUT_def RAFT_SNAPSHOT_RPC_TIMEOUT_def RPC_PROTOCOL_REQUEST_TIMEOUT_def
      split: raft_rpc_op.split)

end
