(* ===== verification/WireWitness.thy ===== *)
theory WireWitness
  imports RpcStack WitnessCodec
begin

text \<open>
  A concrete \<open>wire_api\<close> that satisfies \<open>wire_api_ok\<close>. It does not model code of the repository: it
  shows that the hypothesis can hold. A value becomes a tag and a list of fields, an envelope is
  written with its length in front.
\<close>

section \<open>Bytes and fields\<close>

definition from_bytes_str :: "bytes \<Rightarrow> string" where
  "from_bytes_str bs = map (\<lambda>b. char_of (unat b)) bs"

lemma bytes_str [simp]: "from_bytes_str (as_bytes s) = s" "as_bytes (from_bytes_str bs) = bs"
proof -
  have "unat (word_of_nat (of_char c) :: u8) = of_char c" for c
    by (simp add: unat_of_nat take_bit_nat_def)
  then show "from_bytes_str (as_bytes s) = s" by (simp add: from_bytes_str_def as_bytes_def comp_def)
  have "of_char (char_of (unat b) :: char) = unat b" for b :: u8
    using unsigned_less[of b, where 'a = nat] by simp
  then show "as_bytes (from_bytes_str bs) = bs" by (simp add: from_bytes_str_def as_bytes_def comp_def)
qed

lemma dec_field_length: "dec_field s = Some (x, r) \<Longrightarrow> length r < length s"
proof -
  have split: "split_once c t = Some (a, b) \<Longrightarrow> length b < length t" for c t a b
    by (induction t arbitrary: a b) (auto split: if_splits option.splits)
  assume "dec_field s = Some (x, r)"
  then obtain n rest where "split_once (CHR '':'') s = Some (n, rest)" "length r \<le> length rest"
    by (auto simp: dec_field_def split: option.splits)
  then show ?thesis using split by fastforce
qed

function dec_all :: "string \<Rightarrow> string list" where
  "dec_all s = (case dec_field s of None \<Rightarrow> [] | Some (x, r) \<Rightarrow> x # dec_all r)"
  by auto
termination by (relation "measure length") (auto simp: dec_field_length)

declare dec_all.simps [simp del]

lemma dec_all_fields [simp]: "dec_all (enc_fields xs) = xs"
proof (induction xs)
  case Nil
  then show ?case by (simp add: enc_fields_def dec_all.simps[of "[]"] dec_field_def)
next
  case (Cons x xs)
  then show ?case using dec_enc_field[of x "enc_fields xs"] by (simp add: enc_fields_def dec_all.simps[of "enc_field x @ _"])
qed

definition fields_wire :: "('a \<Rightarrow> string list) \<Rightarrow> (string list \<Rightarrow> 'a) \<Rightarrow> 'a wire" where
  "fields_wire f g = \<lparr>wire_enc = (\<lambda>x. Inr (as_bytes (enc_fields (f x)))), wire_dec = (\<lambda>b. Inr (g (dec_all (from_bytes_str b))))\<rparr>"

lemma fields_wire_ok: "(\<And>x. g (f x) = x) \<Longrightarrow> wire_ok (fields_wire f g)"
  by (simp add: wire_ok_def fields_wire_def)

definition dec_nat :: "string \<Rightarrow> nat" where
  "dec_nat s = (case digits_val 0 s of Some n \<Rightarrow> n | None \<Rightarrow> 0)"

lemma dec_nat_show [simp]: "dec_nat (show_nat n) = n"
  by (simp add: dec_nat_def digits_val_show_nat)

section \<open>Raft messages\<close>

fun enc_op :: "string raft_rpc_op \<Rightarrow> string list" where
  "enc_op (OpAppendEntries x) = [''a'', x]"
| "enc_op (OpVote x) = [''v'', x]"
| "enc_op (OpClientWrite (RkSet k v)) = [''s'', k, v]"
| "enc_op (OpClientWrite (RkUpdate k v)) = [''u'', k, v]"
| "enc_op (OpClientWrite (RkDelete k)) = [''d'', k]"
| "enc_op OpGetMetrics = [''m'']"
| "enc_op (OpJoinCluster j) = [''j'', jq_node_id j, jq_addr j, show_nat (jq_max_voters j), show_nat (jq_catch_up_timeout_ms j)]"
| "enc_op (OpAddLearner n a) = [''l'', n, a]"
| "enc_op (OpFullSnapshot v m b) = [''f'', v, m, from_bytes_str b]"

definition dec_op :: "string list \<Rightarrow> string raft_rpc_op" where
  "dec_op fs = (let t = fs ! 0 in
     if t = ''a'' then OpAppendEntries (fs ! 1) else if t = ''v'' then OpVote (fs ! 1)
     else if t = ''s'' then OpClientWrite (RkSet (fs ! 1) (fs ! 2)) else if t = ''u'' then OpClientWrite (RkUpdate (fs ! 1) (fs ! 2))
     else if t = ''d'' then OpClientWrite (RkDelete (fs ! 1)) else if t = ''m'' then OpGetMetrics
     else if t = ''j'' then OpJoinCluster \<lparr>jq_node_id = fs ! 1, jq_addr = fs ! 2, jq_max_voters = dec_nat (fs ! 3),
       jq_catch_up_timeout_ms = dec_nat (fs ! 4)\<rparr>
     else if t = ''l'' then OpAddLearner (fs ! 1) (fs ! 2) else OpFullSnapshot (fs ! 1) (fs ! 2) (as_bytes (fs ! 3)))"

lemma dec_enc_op [simp]: "dec_op (enc_op op) = op"
  by (cases op rule: enc_op.cases) (simp_all add: dec_op_def)

fun enc_sum :: "string + string \<Rightarrow> string list" where
  "enc_sum (Inl e) = [''e'', e]"
| "enc_sum (Inr x) = [''o'', x]"

definition dec_sum :: "string list \<Rightarrow> string + string" where
  "dec_sum fs = (if fs ! 0 = ''e'' then Inl (fs ! 1) else Inr (fs ! 1))"

lemma dec_enc_sum [simp]: "dec_sum (enc_sum x) = x"
  by (cases x) (simp_all add: dec_sum_def)

fun enc_raft_resp :: "string raft_rpc_response \<Rightarrow> string list" where
  "enc_raft_resp (RaAppendEntries r) = ''a'' # enc_sum r"
| "enc_raft_resp (RaVote r) = ''v'' # enc_sum r"
| "enc_raft_resp (RaClientWrite r) = ''w'' # enc_sum r"
| "enc_raft_resp (RaGetMetrics m) = [''m'', m]"
| "enc_raft_resp (RaJoinCluster j) = [''j'', enc_bool (js_ok j), enc_bool (js_joined j), enc_bool (js_already_member j),
     show_nat (js_voter_count j), show_nat (js_max_voters j), enc_opt id (js_leader_id j), enc_opt id (js_leader_addr j), enc_opt id (js_error j)]"
| "enc_raft_resp (RaAddLearner l) = [''l'', enc_bool (lr_ok l), enc_opt id (lr_leader_id l), enc_opt id (lr_leader_addr l), enc_opt id (lr_error l)]"
| "enc_raft_resp (RaFullSnapshot r) = ''f'' # enc_sum r"
| "enc_raft_resp (RaError e) = [''e'', e]"

definition dec_raft_resp :: "string list \<Rightarrow> string raft_rpc_response" where
  "dec_raft_resp fs = (let t = fs ! 0; r = dec_sum (tl fs) in
     if t = ''a'' then RaAppendEntries r else if t = ''v'' then RaVote r else if t = ''w'' then RaClientWrite r
     else if t = ''m'' then RaGetMetrics (fs ! 1)
     else if t = ''j'' then RaJoinCluster \<lparr>js_ok = dec_bool (fs ! 1), js_joined = dec_bool (fs ! 2), js_already_member = dec_bool (fs ! 3),
       js_voter_count = dec_nat (fs ! 4), js_max_voters = dec_nat (fs ! 5), js_leader_id = dec_opt id (fs ! 6),
       js_leader_addr = dec_opt id (fs ! 7), js_error = dec_opt id (fs ! 8)\<rparr>
     else if t = ''l'' then RaAddLearner \<lparr>lr_ok = dec_bool (fs ! 1), lr_leader_id = dec_opt id (fs ! 2), lr_leader_addr = dec_opt id (fs ! 3),
       lr_error = dec_opt id (fs ! 4)\<rparr>
     else if t = ''f'' then RaFullSnapshot r else RaError (fs ! 1))"

lemma dec_enc_raft_resp [simp]: "dec_raft_resp (enc_raft_resp r) = r"
  by (cases r) (simp_all add: dec_raft_resp_def)

section \<open>Key-value and module messages\<close>

fun enc_kv_op :: "kv_op \<Rightarrow> string list" where
  "enc_kv_op (KvGet k) = [''g'', k]"
| "enc_kv_op (KvSet k v) = [''s'', k, v]"
| "enc_kv_op (KvUpdate k v) = [''u'', k, v]"
| "enc_kv_op (KvDelete k) = [''d'', k]"
| "enc_kv_op (KvListPrefix p) = [''l'', p]"

definition dec_kv_op :: "string list \<Rightarrow> kv_op" where
  "dec_kv_op fs = (let t = fs ! 0 in
     if t = ''g'' then KvGet (fs ! 1) else if t = ''s'' then KvSet (fs ! 1) (fs ! 2) else if t = ''u'' then KvUpdate (fs ! 1) (fs ! 2)
     else if t = ''d'' then KvDelete (fs ! 1) else KvListPrefix (fs ! 1))"

lemma dec_enc_kv_op [simp]: "dec_kv_op (enc_kv_op op) = op"
  by (cases op) (simp_all add: dec_kv_op_def)

definition enc_kv_req :: "raft_kv_request \<Rightarrow> string list" where
  "enc_kv_req r = kr_group_id r # (case kr_op r of None \<Rightarrow> [] | Some op \<Rightarrow> enc_kv_op op)"

definition dec_kv_req :: "string list \<Rightarrow> raft_kv_request" where
  "dec_kv_req fs = \<lparr>kr_group_id = hd fs, kr_op = (if tl fs = [] then None else Some (dec_kv_op (tl fs)))\<rparr>"

lemma dec_enc_kv_req [simp]: "dec_kv_req (enc_kv_req r) = r"
proof -
  have "enc_kv_op op \<noteq> []" for op by (cases op) simp_all
  then show ?thesis by (simp add: dec_kv_req_def enc_kv_req_def split: option.split)
qed

fun enc_kv_reply :: "kv_reply \<Rightarrow> string list" where
  "enc_kv_reply (ReGet b v) = [''g'', enc_bool b, v]"
| "enc_kv_reply (ReSet b v) = [''s'', enc_bool b, v]"
| "enc_kv_reply (ReUpdate b v) = [''u'', enc_bool b, v]"
| "enc_kv_reply (ReDelete b) = [''d'', enc_bool b]"
| "enc_kv_reply (ReListPrefix xs) = ''l'' # map (\<lambda>(k, v). enc_fields [k, v]) xs"
| "enc_kv_reply (ReError m l) = [''e'', m, l]"

definition dec_kv_reply :: "string list \<Rightarrow> kv_reply" where
  "dec_kv_reply fs = (let t = fs ! 0; b = dec_bool (fs ! 1) in
     if t = ''g'' then ReGet b (fs ! 2) else if t = ''s'' then ReSet b (fs ! 2) else if t = ''u'' then ReUpdate b (fs ! 2)
     else if t = ''d'' then ReDelete b
     else if t = ''l'' then ReListPrefix (map (\<lambda>s. (dec_all s ! 0, dec_all s ! 1)) (tl fs)) else ReError (fs ! 1) (fs ! 2))"

lemma dec_enc_kv_reply [simp]: "dec_kv_reply (enc_kv_reply r) = r"
  by (cases r) (simp_all add: dec_kv_reply_def comp_def split_beta)

fun enc_kv_resp :: "raft_kv_response \<Rightarrow> string list" where
  "enc_kv_resp None = []"
| "enc_kv_resp (Some r) = enc_kv_reply r"

definition dec_kv_resp :: "string list \<Rightarrow> raft_kv_response" where
  "dec_kv_resp fs = (if fs = [] then None else Some (dec_kv_reply fs))"

lemma dec_enc_kv_resp [simp]: "dec_kv_resp (enc_kv_resp r) = r"
proof -
  have "enc_kv_reply x \<noteq> []" for x by (cases x) simp_all
  then show ?thesis by (cases r) (simp_all add: dec_kv_resp_def)
qed

fun enc_wasm_req :: "wasm_sync_request \<Rightarrow> string list" where
  "enc_wasm_req (ReqManifest s) = [''m'', s]"
| "enc_wasm_req (ReqChunk s i) = [''c'', s, enc_word i]"

definition dec_wasm_req :: "string list \<Rightarrow> wasm_sync_request" where
  "dec_wasm_req fs = (if fs ! 0 = ''m'' then ReqManifest (fs ! 1) else ReqChunk (fs ! 1) (dec_word (fs ! 2)))"

lemma dec_enc_wasm_req [simp]: "dec_wasm_req (enc_wasm_req r) = r"
  by (cases r) (simp_all add: dec_wasm_req_def)

fun enc_derr :: "download_error \<Rightarrow> string list" where
  "enc_derr (IoError a b c) = [''i'', a, b, c]"
| "enc_derr (CodecError a b) = [''c'', a, b]"
| "enc_derr StoredManifestDiffers = [''s'']"
| "enc_derr (ChunkOutOfRange i n) = [''o'', enc_word i, enc_word n]"
| "enc_derr (ChunkHashMismatch i) = [''h'', enc_word i]"
| "enc_derr (DownloadIncomplete i n) = [''d'', enc_word i, enc_word n]"
| "enc_derr (PartFileSize n s) = [''p'', show_nat n, enc_word s]"
| "enc_derr (Sha256Mismatch a b) = [''x'', a, b]"
| "enc_derr (ModuleAppeared a) = [''a'', a]"

definition dec_derr :: "string list \<Rightarrow> download_error" where
  "dec_derr fs = (let t = fs ! 0 in
     if t = ''i'' then IoError (fs ! 1) (fs ! 2) (fs ! 3) else if t = ''c'' then CodecError (fs ! 1) (fs ! 2)
     else if t = ''s'' then StoredManifestDiffers else if t = ''o'' then ChunkOutOfRange (dec_word (fs ! 1)) (dec_word (fs ! 2))
     else if t = ''h'' then ChunkHashMismatch (dec_word (fs ! 1)) else if t = ''d'' then DownloadIncomplete (dec_word (fs ! 1)) (dec_word (fs ! 2))
     else if t = ''p'' then PartFileSize (dec_nat (fs ! 1)) (dec_word (fs ! 2)) else if t = ''x'' then Sha256Mismatch (fs ! 1) (fs ! 2)
     else ModuleAppeared (fs ! 1))"

lemma dec_enc_derr [simp]: "dec_derr (enc_derr e) = e"
  by (cases e) (simp_all add: dec_derr_def)

fun enc_wasm_resp :: "wasm_sync_response \<Rightarrow> string list" where
  "enc_wasm_resp (RespManifest None) = [''n'']"
| "enc_wasm_resp (RespManifest (Some m)) =
     ''m'' # wm_name m # wm_sha256 m # enc_word (wm_size m) # enc_word (wm_chunk_size m) # map enc_word (wm_chunk_hashes m)"
| "enc_wasm_resp (RespChunk s i b) = [''c'', s, enc_word i, from_bytes_str b]"
| "enc_wasm_resp RespNotFound = [''f'']"
| "enc_wasm_resp (RespInvalid s) = [''i'', s]"
| "enc_wasm_resp (RespError e) = ''e'' # enc_derr e"

definition dec_wasm_resp :: "string list \<Rightarrow> wasm_sync_response" where
  "dec_wasm_resp fs = (let t = fs ! 0 in
     if t = ''n'' then RespManifest None
     else if t = ''m'' then RespManifest (Some \<lparr>wm_name = fs ! 1, wm_sha256 = fs ! 2, wm_size = dec_word (fs ! 3), wm_chunk_size = dec_word (fs ! 4),
       wm_chunk_hashes = map dec_word (drop 5 fs)\<rparr>)
     else if t = ''c'' then RespChunk (fs ! 1) (dec_word (fs ! 2)) (as_bytes (fs ! 3)) else if t = ''f'' then RespNotFound
     else if t = ''i'' then RespInvalid (fs ! 1) else RespError (dec_derr (tl fs)))"

lemma dec_enc_wasm_resp [simp]: "dec_wasm_resp (enc_wasm_resp r) = r"
  by (cases r rule: enc_wasm_resp.cases) (simp_all add: dec_wasm_resp_def comp_def)

section \<open>The envelope\<close>

text \<open>The length in front makes every strict prefix an error.\<close>

definition enc_env :: "proto_envelope \<Rightarrow> bytes" where
  "enc_env e = as_bytes (enc_field (enc_fields [from_bytes_str (pe_payload e), from_bytes_str (pe_binary e), enc_word (pe_kind e)]))"

definition dec_env :: "bytes \<Rightarrow> proto_envelope result" where
  "dec_env bs = (case split_once (CHR '':'') (from_bytes_str bs) of
      None \<Rightarrow> Inl ''envelope''
    | Some (n, rest) \<Rightarrow>
        if length rest = dec_nat n then
          (let fs = dec_all rest in Inr \<lparr>pe_payload = as_bytes (fs ! 0), pe_binary = as_bytes (fs ! 1), pe_kind = dec_word (fs ! 2)\<rparr>)
        else Inl ''envelope'')"

lemma dec_enc_env: "dec_env (enc_env e) = Inr e"
  by (simp add: dec_env_def enc_env_def enc_field_def split_once_append)

lemma from_bytes_take: "from_bytes_str (take n bs) = take n (from_bytes_str bs)"
  by (simp add: from_bytes_str_def take_map)

lemma dec_env_prefix:
  assumes "n < length (enc_env e)"
  shows "dec_env (take n (enc_env e)) = Inl ''envelope''"
proof -
  obtain body where body: "enc_env e = as_bytes (show_nat (length body) @ CHR '':'' # body)"
    by (simp add: enc_env_def enc_field_def)
  let ?p = "show_nat (length body)"
  show ?thesis
  proof (cases "n \<le> length ?p")
    case True
    have "CHR '':'' \<notin> set ?p" by simp
    then have "CHR '':'' \<notin> set (take n ?p)" using in_set_takeD by fast
    then have "split_once (CHR '':'') (take n ?p) = None" by (cases "split_once (CHR '':'') (take n ?p)") (auto dest: split_once_Some)
    then show ?thesis using True body by (simp add: dec_env_def from_bytes_take)
  next
    case False
    then obtain k where k: "n = Suc (length ?p + k)" by (metis add_Suc_right less_iff_Suc_add not_le)
    moreover have "k < length body" using assms k body by (simp add: as_bytes_def)
    ultimately show ?thesis using body by (simp add: dec_env_def from_bytes_take split_once_append)
  qed
qed

fun unframe :: "bytes \<Rightarrow> bytes result" where
  "unframe [] = Inl ''zstd''"
| "unframe (_ # bs) = Inr bs"

definition demo_wire :: "(string, string, string, string, string) wire_api" where
  "demo_wire =
     \<lparr>wx_raft_req = fields_wire (\<lambda>r. rq_group_id r # enc_op (rq_op r)) (\<lambda>fs. \<lparr>rq_group_id = hd fs, rq_op = dec_op (tl fs)\<rparr>),
      wx_kv_req = (\<lambda>r. as_bytes (enc_fields (enc_kv_req r)), \<lambda>b. Inr (dec_kv_req (dec_all (from_bytes_str b)))),
      wx_sqlite_req = fields_wire (\<lambda>s. [s]) hd, wx_task_req = fields_wire (\<lambda>s. [s]) hd, wx_wasm_req = fields_wire enc_wasm_req dec_wasm_req,
      wx_raft_resp = fields_wire enc_raft_resp dec_raft_resp,
      wx_kv_resp = (\<lambda>r. as_bytes (enc_fields (enc_kv_resp r)), \<lambda>b. Inr (dec_kv_resp (dec_all (from_bytes_str b)))),
      wx_sqlite_resp = fields_wire (\<lambda>s. [s]) hd, wx_task_resp = fields_wire (\<lambda>s. [s]) hd, wx_wasm_resp = fields_wire enc_wasm_resp dec_wasm_resp,
      wx_zstd = \<lparr>wire_enc = (\<lambda>b. Inr (0 # b)), wire_dec = unframe\<rparr>,
      wx_env = (enc_env, dec_env)\<rparr>"

lemma demo_wire_ok: "wire_api_ok demo_wire"
  unfolding wire_api_ok_def demo_wire_def
  by (intro conjI) (auto simp: dec_enc_env dec_env_prefix wire_ok_def intro!: fields_wire_ok[unfolded wire_ok_def, rule_format])

section \<open>Lengths\<close>

lemma length_show_nat: "length (show_nat n) \<le> Suc n"
proof (induction n rule: show_nat.induct)
  case (1 n)
  show ?case
  proof (cases "n < 10")
    case False
    then have "Suc (Suc (n div 10)) \<le> Suc n" by linarith
    then show ?thesis using 1 False by (subst show_nat.simps) simp
  qed (subst show_nat.simps, simp)
qed

lemma length_enc_field: "length (enc_field s) \<le> 2 * length s + 2"
  using length_show_nat[of "length s"] by (simp add: enc_field_def)

lemma length_enc_fields: "length (enc_fields xs) \<le> (\<Sum>s\<leftarrow>xs. 2 * length s + 2)"
proof (induction xs)
  case (Cons x xs)
  then show ?case using length_enc_field[of x] by (simp add: enc_fields_def)
qed (simp add: enc_fields_def)

lemma length_bytes [simp]: "length (as_bytes s) = length s" "length (from_bytes_str b) = length b"
  by (simp_all add: as_bytes_def from_bytes_str_def)

lemma length_enc_env: "length (enc_env e) \<le> 4 * (length (pe_payload e) + length (pe_binary e)) + 4 * unat (pe_kind e) + 18"
  using length_enc_field[of "enc_fields [from_bytes_str (pe_payload e), from_bytes_str (pe_binary e), enc_word (pe_kind e)]"]
    length_enc_fields[of "[from_bytes_str (pe_payload e), from_bytes_str (pe_binary e), enc_word (pe_kind e)]"]
    length_show_nat[of "unat (pe_kind e)"]
  by (simp add: enc_env_def enc_word_def)

lemma demo_fits_request:
  assumes "case take_snapshot_data (rq_op r) of (data, op) \<Rightarrow>
    4 * ((\<Sum>s\<leftarrow>rq_group_id r # enc_op op. 2 * length s + 2) + Suc (length data)) + 22 \<le> uc_request_size_maximum codec"
  shows "fits_request demo_wire codec (UqRaft r)"
proof -
  obtain data op where taken: "take_snapshot_data (rq_op r) = (data, op)" by fastforce
  let ?p = "as_bytes (enc_fields (rq_group_id r # enc_op op))" and ?b = "if data = [] then [] else 0 # data"
  have env: "request_envelope demo_wire (UqRaft r) = Inr \<lparr>pe_payload = ?p, pe_binary = ?b, pe_kind = KIND_RAFT\<rparr>"
    using taken by (simp add: demo_wire_def fields_wire_def envelope_def binary_frame_def)
  have "length ?b \<le> Suc (length data)" by simp
  moreover have "length ?p \<le> (\<Sum>s\<leftarrow>rq_group_id r # enc_op op. 2 * length s + 2)"
    using length_enc_fields[of "rq_group_id r # enc_op op"] by simp
  ultimately have "length (enc_env \<lparr>pe_payload = ?p, pe_binary = ?b, pe_kind = KIND_RAFT\<rparr>) \<le> uc_request_size_maximum codec"
    using length_enc_env[of "\<lparr>pe_payload = ?p, pe_binary = ?b, pe_kind = KIND_RAFT\<rparr>"] assms taken by (simp add: KIND_RAFT_def)
  then show ?thesis unfolding fits_request_def encode_unified_request_def env by (simp add: demo_wire_def)
qed

lemma demo_fits_response:
  assumes "4 * (\<Sum>s\<leftarrow>enc_raft_resp r. 2 * length s + 2) + 22 \<le> uc_response_size_maximum codec"
  shows "fits_response demo_wire codec (UrRaft r)"
proof -
  let ?e = "\<lparr>pe_payload = as_bytes (enc_fields (enc_raft_resp r)), pe_binary = [], pe_kind = KIND_RAFT\<rparr>"
  have env: "response_envelope demo_wire (UrRaft r) = Inr ?e"
    by (simp add: demo_wire_def fields_wire_def envelope_def)
  have "length (enc_env ?e) \<le> uc_response_size_maximum codec"
    using length_enc_env[of ?e] length_enc_fields[of "enc_raft_resp r"] assms by (simp add: KIND_RAFT_def)
  then show ?thesis unfolding fits_response_def encode_unified_response_def env by (simp add: demo_wire_def)
qed

end
