(* ===== verification/RpcClaims.thy ===== *)
theory RpcClaims
  imports WireWitness MembershipClaims
begin

text \<open>
  A raft call over the network is a call of openraft on the peer. The bridge, the client, the codec on
  both sides, the dispatcher and the group registry of the peer are composed; the theorem says what
  the composition does for every message, the ones that are too long included.
\<close>

section \<open>One call\<close>

definition raft_send ::
  "('o, 's, 't, 'u, 'v) wire_api \<Rightarrow> unified_codec \<Rightarrow> ('w, 'o, 's, 't, 'u, 'v) dispatcher \<Rightarrow> nat \<Rightarrow> ('w, 'o) send_request" where
  "raft_send api codec d dflt = (\<lambda>w req. raft_request (wire_call api codec d) dflt req w)"

text \<open>What the caller gets and what the peer is left with: nothing happened when the request does not
  fit, the handler ran but its answer is lost when the response does not fit, and otherwise the answer of
  openraft arrives.\<close>

definition remote_exact :: "bool \<Rightarrow> bool \<Rightarrow> 'w \<Rightarrow> 'w \<Rightarrow> 'a \<Rightarrow> 'w \<times> ('o unreachable + 'b) \<Rightarrow> ('a \<Rightarrow> 'o unreachable + 'b) \<Rightarrow> bool" where
  "remote_exact request_fits response_fits before after answer out view \<longleftrightarrow>
     (if \<not> request_fits then \<exists>e. out = (before, Inl (TransportDown e))
      else if \<not> response_fits then \<exists>e. out = (after, Inl (TransportDown e))
      else out = (after, view answer))"

lemma send_op_exact:
  assumes "wire_api_ok api" "di_raft d w \<lparr>rq_group_id = gid, rq_op = op\<rparr> = (w', resp)"
  shows "remote_exact (fits_request api codec (UqRaft \<lparr>rq_group_id = gid, rq_op = op\<rparr>)) (fits_response api codec (UrRaft resp)) w w' resp
    (send_op (raft_send api codec d dflt) gid op w) Inr"
proof -
  let ?req = "UqRaft \<lparr>rq_group_id = gid, rq_op = op\<rparr>"
  have "dispatch_unified_request d w ?req = (w', UrRaft resp)" using assms(2) by simp
  note call = wire_call_exact[OF assms(1) this, where codec = codec]
  show ?thesis
  proof (cases "fits_request api codec ?req"; cases "fits_response api codec (UrRaft resp)")
  qed (use call[where t = "raft_rpc_timeout op dflt"] in
      \<open>auto simp: remote_exact_def send_op_def raft_send_def raft_request_def rpc_answer_def\<close>)
qed

text \<open>What follows the call in the three functions of the bridge is the same step on the result.\<close>

lemma remote_exact_then:
  assumes "remote_exact fq fa w w' resp out Inr"
  shows "remote_exact fq fa w w' resp (apsnd (\<lambda>result. rbind result k) out) k"
  using assms by (auto simp: remote_exact_def split: if_splits)

lemma remote_exact_view: "remote_exact fq fa w w' resp out k \<Longrightarrow> k resp = k' a \<Longrightarrow> remote_exact fq fa w w' a out k'"
  by (simp add: remote_exact_def)

section \<open>On the peer\<close>

lemma handle_raft_known:
  assumes "reg gid = Some g" "handle_inbound_raft n g op = (g', resp)"
  shows "handle_raft n reg \<lparr>rq_group_id = gid, rq_op = op\<rparr> = (reg(gid \<mapsto> g'), resp)"
  using assms by (simp add: handle_raft_def)

lemma bridge_mismatch_unknown_group:
  assumes "wire_api_ok api" "di_raft d = handle_raft n" "reg gid = None"
    "fits_request api codec (UqRaft \<lparr>rq_group_id = gid, rq_op = OpVote v\<rparr>)"
    "fits_response api codec (UrRaft (RaError (''unknown group_id='' @ gid)))"
  shows "bridge_vote (raft_send api codec d dflt) gid v reg = (reg, Inl (BridgeMismatch (RaError (''unknown group_id='' @ gid))))"
  using send_op_exact[OF assms(1), of d reg gid "OpVote v" reg "RaError (''unknown group_id='' @ gid)" codec dflt] assms(2-)
  by (simp add: remote_exact_def handle_raft_def bridge_vote_def)

text \<open>C25: A raft call over the network is exactly a call of openraft on the peer. Openraft on one node
  calls \<open>append_entries\<close>, \<open>vote\<close> or \<open>full_snapshot\<close> of the bridge; the request is wrapped, encoded
  (the bytes of a snapshot as a compressed frame beside the payload), read within the size limit,
  decoded, dispatched by its kind and its group, and the answer takes the same way back. When both
  messages fit their limits, the caller gets what openraft on the peer answered, an error of it as
  \<open>Unreachable\<close>, and of the peer's groups only the called one changed, and as openraft changed it, from
  the very entries, vote or snapshot bytes that were passed in. When the request is too long the peer
  is untouched and when the response is too long the peer has run the call; the caller gets
  \<open>Unreachable\<close> in both cases, never a message cut short.\<close>

theorem raft_calls_exact:
  assumes "wire_api_ok api" "di_raft d = handle_raft n" "reg gid = Some g"
    and "rn_append_entries n (gh_raft g) req = (r1, a1)" "rn_vote n (gh_raft g) v = (r2, a2)"
    and "rn_install_full_snapshot n (gh_raft g) sv meta data = (r3, a3)"
  shows "remote_exact (fits_request api codec (UqRaft \<lparr>rq_group_id = gid, rq_op = OpAppendEntries req\<rparr>))
      (fits_response api codec (UrRaft (RaAppendEntries a1))) reg (reg(gid \<mapsto> g\<lparr>gh_raft := r1\<rparr>)) a1
      (bridge_append_entries (raft_send api codec d dflt) gid req reg) (map_err RemoteError) \<and>
    remote_exact (fits_request api codec (UqRaft \<lparr>rq_group_id = gid, rq_op = OpVote v\<rparr>))
      (fits_response api codec (UrRaft (RaVote a2))) reg (reg(gid \<mapsto> g\<lparr>gh_raft := r2\<rparr>)) a2
      (bridge_vote (raft_send api codec d dflt) gid v reg) (map_err RemoteError) \<and>
    remote_exact (fits_request api codec (UqRaft \<lparr>rq_group_id = gid, rq_op = OpFullSnapshot sv meta data\<rparr>))
      (fits_response api codec (UrRaft (RaFullSnapshot (map_err (rn_fatal n) a3)))) reg (reg(gid \<mapsto> g\<lparr>gh_raft := r3\<rparr>)) a3
      (bridge_full_snapshot (raft_send api codec d dflt) gid sv meta data reg) (map_err (\<lambda>e. RemoteError (rn_fatal n e)))"
proof -
  have run: "di_raft d reg \<lparr>rq_group_id = gid, rq_op = OpAppendEntries req\<rparr> = (reg(gid \<mapsto> g\<lparr>gh_raft := r1\<rparr>), RaAppendEntries a1)"
    "di_raft d reg \<lparr>rq_group_id = gid, rq_op = OpVote v\<rparr> = (reg(gid \<mapsto> g\<lparr>gh_raft := r2\<rparr>), RaVote a2)"
    "di_raft d reg \<lparr>rq_group_id = gid, rq_op = OpFullSnapshot sv meta data\<rparr> =
       (reg(gid \<mapsto> g\<lparr>gh_raft := r3\<rparr>), RaFullSnapshot (map_err (rn_fatal n) a3))"
    using assms(2-) by (simp_all add: handle_raft_known on_raft_def)
  note sent = run[THEN send_op_exact[OF assms(1), where codec = codec and dflt = dflt], THEN remote_exact_then]
  show ?thesis unfolding bridge_append_entries_def bridge_vote_def bridge_full_snapshot_def
    by (intro conjI sent[THEN remote_exact_view]) (cases a3; simp)+
qed

text \<open>A group that counts what it is asked and answers with what it was given; a refused vote.\<close>

definition count_node :: "(string, string set) raft_node" where
  "count_node =
     \<lparr>rn_append_entries = (\<lambda>r q. (insert q r, Inr (''appended '' @ q))), rn_vote = (\<lambda>r q. (r, Inl (''no vote '' @ q))),
      rn_client_write = (\<lambda>r q. (r, Inr [])), rn_metrics = (\<lambda>r. []),
      rn_install_full_snapshot = (\<lambda>r v m b. ({from_bytes_str b}, Inr m)), rn_fatal = id, rn_membership = example_api\<rparr>"

definition count_dispatcher :: "(string set registry, string, string, string, string, string) dispatcher" where
  "count_dispatcher =
     \<lparr>di_raft = handle_raft count_node, di_kv = (\<lambda>w q. (w, None)), di_sqlite_sync = (\<lambda>w q. (w, q)), di_task_rpc = (\<lambda>w q. (w, q)),
      di_wasm_sync = (\<lambda>w q. (w, RespNotFound))\<rparr>"

definition count_registry :: "string set registry" where
  "count_registry = [''users'' \<mapsto> \<lparr>gh_raft = {}, gh_fence_held = False\<rparr>]"

theorem raft_calls_exact_witness:
  "bridge_append_entries (raft_send demo_wire codec_default count_dispatcher 5) ''users'' ''e1'' count_registry =
     (count_registry(''users'' \<mapsto> \<lparr>gh_raft = {''e1''}, gh_fence_held = False\<rparr>), Inr ''appended e1'') \<and>
   bridge_vote (raft_send demo_wire codec_default count_dispatcher 5) ''users'' ''t7'' count_registry =
     (count_registry(''users'' \<mapsto> \<lparr>gh_raft = {}, gh_fence_held = False\<rparr>), Inl (RemoteError ''no vote t7'')) \<and>
   bridge_full_snapshot (raft_send demo_wire codec_default count_dispatcher 5) ''users'' ''t7'' ''snap'' (as_bytes ''state'') count_registry =
     (count_registry(''users'' \<mapsto> \<lparr>gh_raft = {''state''}, gh_fence_held = False\<rparr>), Inr ''snap'')"
proof -
  have fits: "fits_request demo_wire codec_default (UqRaft \<lparr>rq_group_id = ''users'', rq_op = OpAppendEntries ''e1''\<rparr>)"
    "fits_request demo_wire codec_default (UqRaft \<lparr>rq_group_id = ''users'', rq_op = OpVote ''t7''\<rparr>)"
    "fits_request demo_wire codec_default (UqRaft \<lparr>rq_group_id = ''users'', rq_op = OpFullSnapshot ''t7'' ''snap'' (as_bytes ''state'')\<rparr>)"
    "fits_response demo_wire codec_default (UrRaft (RaAppendEntries (Inr ''appended e1'')))"
    "fits_response demo_wire codec_default (UrRaft (RaVote (Inl ''no vote t7'')))"
    "fits_response demo_wire codec_default (UrRaft (RaFullSnapshot (Inr ''snap'')))"
    by (rule demo_fits_request demo_fits_response; simp add: codec_default_def REQUEST_MAX_def RESPONSE_MAX_def)+
  show ?thesis
    using raft_calls_exact[OF demo_wire_ok, of count_dispatcher count_node count_registry "''users''" "\<lparr>gh_raft = {}, gh_fence_held = False\<rparr>"
        "''e1''" "{''e1''}" "Inr ''appended e1''" "''t7''" "{}" "Inl ''no vote t7''" "''t7''" "''snap''" "as_bytes ''state''" "{''state''}" "Inr ''snap''"
        codec_default 5] fits
    by (simp add: remote_exact_def count_dispatcher_def count_registry_def count_node_def)
qed

section \<open>Too long\<close>

text \<open>Encoded messages are never shortened on the way, so a snapshot whose compressed form alone is over
  the limit is never delivered, however often openraft tries.\<close>

definition env_keeps_length :: "('o, 's, 't, 'u, 'v) wire_api \<Rightarrow> bool" where
  "env_keeps_length api \<longleftrightarrow> (\<forall>e. length (pe_binary e) \<le> length (fst (wx_env api) e))"

lemma large_snapshot_never_fits:
  assumes "env_keeps_length api" "wire_enc (wx_zstd api) data = Inr frame" "data \<noteq> []"
    "uc_request_size_maximum codec < length frame"
  shows "\<not> fits_request api codec (UqRaft \<lparr>rq_group_id = gid, rq_op = OpFullSnapshot v meta data\<rparr>)"
proof -
  have "length frame \<le> length (fst (wx_env api) \<lparr>pe_payload = p, pe_binary = frame, pe_kind = KIND_RAFT\<rparr>)" for p
    using assms(1) unfolding env_keeps_length_def by (metis proto_envelope.select_convs(2))
  then have "\<not> length (fst (wx_env api) \<lparr>pe_payload = p, pe_binary = frame, pe_kind = KIND_RAFT\<rparr>) \<le> uc_request_size_maximum codec" for p
    using assms(4) by (meson le_trans not_less)
  then show ?thesis using assms(2,3)
    by (cases "wire_enc (wx_raft_req api) \<lparr>rq_group_id = gid, rq_op = OpFullSnapshot v meta []\<rparr>")
      (auto simp: fits_request_def encode_unified_request_def envelope_def binary_frame_def)
qed

end
