(* ===== verification/TaskApi.thy ===== *)
theory TaskApi
  imports Handlers
begin

text \<open>
  How a frontend reaches the task queue: the tarpc envelope and the service dispatch of
  \<open>tasks/rpc.rs\<close>, the facade \<open>tasks/api.rs\<close> with its two frontends, a control node and a worker, and
  the HTTP handlers of \<open>http/task.rs\<close> on top. The libp2p request is the argument \<open>ae_net\<close> of the
  facade; ids and the clock are arguments of each call. A JSON body is given as what \<open>to_string\<close>
  makes of it.
\<close>

section \<open>The task service behind its envelope\<close>

text \<open>The request and response enums that \<open>tarpc::service\<close> makes of the methods of the trait.\<close>

datatype task_rpc_call =
    CallSubmit string request
  | CallListAssigned string string
  | CallListTasks string
  | CallListWorkers string
  | CallMetrics string
  | CallNotifyAssigned string string u64

datatype task_rpc_answer =
    RepSubmit task_write_reply
  | RepListAssigned task_ids_reply
  | RepListTasks task_records_reply
  | RepListWorkers worker_leases_reply
  | RepMetrics task_metrics_reply
  | RepNotifyAssigned bool

datatype error_kind = Interrupted | InvalidInput

datatype client_message = RequestMessage nat task_rpc_call | CancelMessage nat | OtherMessage

record tarpc_response =
  tp_request_id :: nat
  tp_message :: "(error_kind \<times> string) + task_rpc_answer"

text \<open>What a node serves with: its groups for writing and reading, the wake channel of its worker and its
  clock.\<close>

record 'w task_rpc_service =
  ts_write :: "string \<Rightarrow> ('w \<Rightarrow> request \<Rightarrow> 'w \<times> (client_write_error + response)) option"
  ts_read :: "'w \<Rightarrow> read_registry"
  ts_notify :: "'w \<Rightarrow> string \<Rightarrow> string \<Rightarrow> u64 \<Rightarrow> 'w"
  ts_now :: "'w \<Rightarrow> u64"

definition notify_assigned :: "'w task_rpc_service \<Rightarrow> string \<Rightarrow> string \<Rightarrow> u64 \<Rightarrow> 'w \<Rightarrow> 'w \<times> bool" where
  "notify_assigned srv worker_node_id task_id lease_epoch w = (ts_notify srv w worker_node_id task_id lease_epoch, True)"

fun serve :: "codec \<Rightarrow> 'w task_rpc_service \<Rightarrow> task_rpc_call \<Rightarrow> 'w \<Rightarrow> 'w \<times> task_rpc_answer" where
  "serve c srv (CallSubmit group_id cmd) w = apsnd RepSubmit (submit (ts_write srv) group_id cmd w)"
| "serve c srv (CallListAssigned group_id node_id) w = (w, RepListAssigned (list_assigned (ts_read srv w) group_id node_id))"
| "serve c srv (CallListTasks group_id) w = (w, RepListTasks (list_tasks c (ts_read srv w) group_id))"
| "serve c srv (CallListWorkers group_id) w = (w, RepListWorkers (list_workers c (ts_read srv w) group_id))"
| "serve c srv (CallMetrics group_id) w = (w, RepMetrics (service_metrics c (ts_read srv w) group_id (ts_now srv w)))"
| "serve c srv (CallNotifyAssigned worker_node_id task_id lease_epoch) w =
     apsnd RepNotifyAssigned (notify_assigned srv worker_node_id task_id lease_epoch w)"

definition task_rpc_envelope :: "task_rpc_call \<Rightarrow> client_message" where
  "task_rpc_envelope message = RequestMessage 0 message"

definition task_rpc_unwrap :: "(error_kind \<times> string \<Rightarrow> string) \<Rightarrow> tarpc_response \<Rightarrow> task_rpc_answer result" where
  "task_rpc_unwrap err_text response =
     (case tp_message response of Inr message \<Rightarrow> Inr message | Inl err \<Rightarrow> Inl (''task rpc failed: '' @ err_text err))"

definition process_task_rpc_request :: "codec \<Rightarrow> 'w task_rpc_service \<Rightarrow> client_message \<Rightarrow> 'w \<Rightarrow> 'w \<times> tarpc_response" where
  "process_task_rpc_request c srv request w =
     (case request of
        RequestMessage request_id message \<Rightarrow>
          (case serve c srv message w of (w', response) \<Rightarrow> (w', \<lparr>tp_request_id = request_id, tp_message = Inr response\<rparr>))
      | CancelMessage request_id \<Rightarrow>
          (w, \<lparr>tp_request_id = request_id, tp_message =
             Inl (Interrupted, ''task rpc cancel messages are not processed by one-shot libp2p rpc'')\<rparr>)
      | OtherMessage \<Rightarrow> (w, \<lparr>tp_request_id = 0, tp_message = Inl (InvalidInput, ''unsupported task rpc message'')\<rparr>))"

section \<open>The facade\<close>

datatype task_frontend = FrontControl | FrontWorker control_nodes

record 'w task_api =
  ae_service :: "'w task_rpc_service"
  ae_net :: "'w \<Rightarrow> string \<Rightarrow> client_message \<Rightarrow> 'w \<times> tarpc_response result"
  ae_register :: "'w \<Rightarrow> string \<Rightarrow> string \<Rightarrow> 'w"
  ae_err_text :: "error_kind \<times> string \<Rightarrow> string"

text \<open>One remote call: the envelope around the request, the network, the envelope of the response.\<close>

definition remote_call :: "'w task_api \<Rightarrow> task_rpc_call \<Rightarrow> 'w \<Rightarrow> string \<Rightarrow> 'w \<times> task_rpc_answer result" where
  "remote_call api message w target =
     apsnd (\<lambda>r. rbind r (task_rpc_unwrap (ae_err_text api))) (ae_net api w target (task_rpc_envelope message))"

definition unexpected_response :: "'a result" where
  "unexpected_response = Inl ''unexpected task rpc response''"

definition submit_rpc :: "'w task_api \<Rightarrow> string \<Rightarrow> 'w rpc" where
  "submit_rpc api group_id w target cmd =
     apsnd (\<lambda>r. rbind r (\<lambda>m. case m of RepSubmit reply \<Rightarrow> Inr reply | _ \<Rightarrow> unexpected_response))
       (remote_call api (CallSubmit group_id cmd) w target)"

definition api_submit ::
  "codec \<Rightarrow> 'w task_api \<Rightarrow> task_frontend \<Rightarrow> task_request \<Rightarrow> 'w \<Rightarrow> 'w \<times> task_frontend \<times> task_op_result result" where
  "api_submit c api fe cmd w =
     (case fe of
        FrontControl \<Rightarrow>
          (case submit (ts_write (ae_service api)) TASKS (ReqTask cmd) w of (w1, reply) \<Rightarrow>
             if wr_ok reply then (w1, fe, command_result c (Inr reply))
             else (case wr_leader_id reply of
                Some leader \<Rightarrow>
                  let w2 = (case wr_leader_addr reply of Some addr \<Rightarrow> ae_register api w1 leader addr | None \<Rightarrow> w1) in
                  (case submit_command c (submit_rpc api TASKS) (ae_register api) (ReqTask cmd) w2 (control_nodes_new [leader]) of
                     (w3, _, res) \<Rightarrow> (w3, fe, res))
              | None \<Rightarrow> (w1, fe, Inl (''task command failed: '' @ (case wr_error reply of Some e \<Rightarrow> e | None \<Rightarrow> [])))))
      | FrontWorker cn \<Rightarrow>
          (case submit_command c (submit_rpc api TASKS) (ae_register api) (ReqTask cmd) w cn of
             (w1, cn1, res) \<Rightarrow> (w1, FrontWorker cn1, res)))"

text \<open>The id and the time are what \<open>Uuid::now_v7\<close> and the clock give; the sum wraps as it does in a release
  build.\<close>

definition api_enqueue ::
  "codec \<Rightarrow> handler_api \<Rightarrow> 'w task_api \<Rightarrow> task_frontend \<Rightarrow> string \<Rightarrow> u64 \<Rightarrow> string \<Rightarrow> string option \<Rightarrow> u64 \<Rightarrow> 'w \<Rightarrow>
   'w \<times> task_frontend \<times> task_op_result result" where
  "api_enqueue c h api fe uuid now payload idem_key delay_secs w =
     (if MAX_TASK_PAYLOAD_BYTES < length payload
      then (w, fe, Inl (''task payload is '' @ show_nat (length payload) @ '' bytes, over the '' @
        show_nat MAX_TASK_PAYLOAD_BYTES @ '' byte limit (wasm modules must fit the raft log)''))
      else (case decode h payload of
          Inl e \<Rightarrow> (w, fe, Inl e)
        | Inr _ \<Rightarrow> api_submit c api fe (TaskEnqueue uuid payload (now + delay_secs) idem_key now) w))"

definition api_replay ::
  "codec \<Rightarrow> 'w task_api \<Rightarrow> task_frontend \<Rightarrow> u64 \<Rightarrow> string \<Rightarrow> 'w \<Rightarrow> 'w \<times> task_frontend \<times> task_op_result result" where
  "api_replay c api fe now i w = api_submit c api fe (TaskReplay i now) w"

definition api_list_tasks :: "codec \<Rightarrow> 'w task_api \<Rightarrow> task_frontend \<Rightarrow> 'w \<Rightarrow> 'w \<times> task_record list result" where
  "api_list_tasks c api fe w =
     (case (case fe of
         FrontControl \<Rightarrow> (w, Inr (list_tasks c (ts_read (ae_service api) w) TASKS))
       | FrontWorker cn \<Rightarrow> apsnd (\<lambda>r. rbind r (\<lambda>m. case m of RepListTasks reply \<Rightarrow> Inr reply | _ \<Rightarrow> unexpected_response))
           (call_read (remote_call api (CallListTasks TASKS)) cn w)) of
      (w1, r) \<Rightarrow> (w1, rbind r (\<lambda>reply. if \<not> tk_ok reply then Inl (case tk_error reply of Some e \<Rightarrow> e | None \<Rightarrow> [])
        else Inr (tk_tasks reply))))"

definition api_list_workers :: "codec \<Rightarrow> 'w task_api \<Rightarrow> task_frontend \<Rightarrow> 'w \<Rightarrow> 'w \<times> worker_lease_record list result" where
  "api_list_workers c api fe w =
     (case (case fe of
         FrontControl \<Rightarrow> (w, Inr (list_workers c (ts_read (ae_service api) w) TASKS))
       | FrontWorker cn \<Rightarrow> apsnd (\<lambda>r. rbind r (\<lambda>m. case m of RepListWorkers reply \<Rightarrow> Inr reply | _ \<Rightarrow> unexpected_response))
           (call_read (remote_call api (CallListWorkers TASKS)) cn w)) of
      (w1, r) \<Rightarrow> (w1, rbind r (\<lambda>reply. if \<not> wk_ok reply then Inl (case wk_error reply of Some e \<Rightarrow> e | None \<Rightarrow> [])
        else Inr (wk_workers reply))))"

definition api_metrics :: "codec \<Rightarrow> 'w task_api \<Rightarrow> task_frontend \<Rightarrow> 'w \<Rightarrow> 'w \<times> task_queue_metrics result" where
  "api_metrics c api fe w =
     (case (case fe of
         FrontControl \<Rightarrow> (w, Inr (service_metrics c (ts_read (ae_service api) w) TASKS (ts_now (ae_service api) w)))
       | FrontWorker cn \<Rightarrow> apsnd (\<lambda>r. rbind r (\<lambda>m. case m of RepMetrics reply \<Rightarrow> Inr reply | _ \<Rightarrow> unexpected_response))
           (call_read (remote_call api (CallMetrics TASKS)) cn w)) of
      (w1, r) \<Rightarrow> (w1, rbind r (\<lambda>reply. if \<not> mt_ok reply then Inl (case mt_error reply of Some e \<Rightarrow> e | None \<Rightarrow> [])
        else (case mt_metrics reply of Some m \<Rightarrow> Inr m | None \<Rightarrow> Inl ''metrics reply carried no snapshot''))))"

section \<open>The HTTP handlers\<close>

record email_response =
  er_ok :: bool
  er_task_id :: "string option"
  er_deduplicated :: "bool option"
  er_error :: "string option"

record replay_response =
  rp_ok :: bool
  rp_task_id :: string
  rp_error :: "string option"

record 'a listing_response =
  lg_ok :: bool
  lg_items :: 'a
  lg_error :: "string option"

definition push_error :: "string \<Rightarrow> email_response" where
  "push_error message = \<lparr>er_ok = False, er_task_id = None, er_deduplicated = None, er_error = Some message\<rparr>"

definition push_response :: "task_op_result result \<Rightarrow> email_response" where
  "push_response outcome =
     (case outcome of
        Inr result \<Rightarrow> \<lparr>er_ok = op_ok result, er_task_id = op_id result, er_deduplicated = op_deduplicated result, er_error = op_reason result\<rparr>
      | Inl err \<Rightarrow> push_error err)"

definition push_email ::
  "codec \<Rightarrow> handler_api \<Rightarrow> 'w task_api \<Rightarrow> task_frontend \<Rightarrow> string \<Rightarrow> u64 \<Rightarrow> string \<Rightarrow> string option \<Rightarrow> 'w \<Rightarrow>
   'w \<times> task_frontend \<times> email_response" where
  "push_email c h api fe uuid now to idem_key w =
     (case encode h (Email \<lparr>em_to = to\<rparr>) of
        Inl err \<Rightarrow> (w, fe, push_error err)
      | Inr payload \<Rightarrow> apsnd (apsnd push_response) (api_enqueue c h api fe uuid now payload idem_key 0 w))"

definition push_task ::
  "codec \<Rightarrow> handler_api \<Rightarrow> 'w task_api \<Rightarrow> task_frontend \<Rightarrow> string \<Rightarrow> u64 \<Rightarrow> string result \<Rightarrow> string option \<Rightarrow> u64 \<Rightarrow> 'w \<Rightarrow>
   'w \<times> task_frontend \<times> email_response" where
  "push_task c h api fe uuid now body idem_key delay_secs w =
     (case body of
        Inl err \<Rightarrow> (w, fe, push_error (''encode task payload: '' @ err))
      | Inr payload \<Rightarrow> apsnd (apsnd push_response) (api_enqueue c h api fe uuid now payload idem_key delay_secs w))"

definition replay_task :: "codec \<Rightarrow> 'w task_api \<Rightarrow> task_frontend \<Rightarrow> u64 \<Rightarrow> string \<Rightarrow> 'w \<Rightarrow> 'w \<times> task_frontend \<times> replay_response" where
  "replay_task c api fe now i w =
     apsnd (apsnd (\<lambda>outcome.
       let (ok, error) = (case outcome of
           Inr result \<Rightarrow> if op_ok result then (True, None) else (False, op_reason result)
         | Inl err \<Rightarrow> (False, Some err)) in
       \<lparr>rp_ok = ok, rp_task_id = i, rp_error = error\<rparr>)) (api_replay c api fe now i w)"

text \<open>The three listings have the same shape: the items, or an empty answer with the error.\<close>

definition listing :: "'b \<Rightarrow> ('a \<Rightarrow> 'b) \<Rightarrow> 'a result \<Rightarrow> 'b listing_response" where
  "listing none wrap r =
     (case r of Inr items \<Rightarrow> \<lparr>lg_ok = True, lg_items = wrap items, lg_error = None\<rparr>
      | Inl err \<Rightarrow> \<lparr>lg_ok = False, lg_items = none, lg_error = Some err\<rparr>)"

definition http_list_tasks :: "codec \<Rightarrow> 'w task_api \<Rightarrow> task_frontend \<Rightarrow> 'w \<Rightarrow> 'w \<times> task_record list listing_response" where
  "http_list_tasks c api fe w = apsnd (listing [] id) (api_list_tasks c api fe w)"

definition list_task_workers :: "codec \<Rightarrow> 'w task_api \<Rightarrow> task_frontend \<Rightarrow> 'w \<Rightarrow> 'w \<times> worker_lease_record list listing_response" where
  "list_task_workers c api fe w = apsnd (listing [] id) (api_list_workers c api fe w)"

definition task_metrics :: "codec \<Rightarrow> 'w task_api \<Rightarrow> task_frontend \<Rightarrow> 'w \<Rightarrow> 'w \<times> task_queue_metrics option listing_response" where
  "task_metrics c api fe w = apsnd (listing None Some) (api_metrics c api fe w)"

section \<open>A cluster of this program\<close>

text \<open>Every node serves the envelope with its own groups; the leader's reads are current and a follower's
  linearizable read names the leader instead. A read does not follow that hint.\<close>

definition cluster_api :: "codec \<Rightarrow> (error_kind \<times> string \<Rightarrow> string) \<Rightarrow> (string \<Rightarrow> kv task_rpc_service) \<Rightarrow> string \<Rightarrow> kv task_api" where
  "cluster_api c err_text servers me =
     \<lparr>ae_service = servers me,
      ae_net = (\<lambda>s target message. apsnd Inr (process_task_rpc_request c (servers target) message s)),
      ae_register = no_register, ae_err_text = err_text\<rparr>"

definition serves_tasks :: "codec \<Rightarrow> string \<Rightarrow> (string \<Rightarrow> kv task_rpc_service) \<Rightarrow> bool" where
  "serves_tasks c leader servers \<longleftrightarrow> raft_leads c TASKS leader (\<lambda>n. ts_write (servers n)) \<and>
     (\<forall>n s. if n = leader then ts_read (servers n) s TASKS = Some (s, Inr ())
        else \<exists>stale e. ts_read (servers n) s TASKS = Some (stale, Inl e))"

lemma remote_call_serves:
  "remote_call (cluster_api c err_text servers me) message s target = apsnd Inr (serve c (servers target) message s)"
  by (cases "serve c (servers target) message s")
    (simp add: remote_call_def cluster_api_def task_rpc_envelope_def process_task_rpc_request_def task_rpc_unwrap_def)

lemma submit_rpc_serves:
  "submit_rpc (cluster_api c err_text servers me) g = service_rpc (\<lambda>n. ts_write (servers n)) g"
  by (auto simp: fun_eq_iff submit_rpc_def remote_call_serves service_rpc_def split_beta prod_eq_iff)

text \<open>A frontend that knows a control node reaches the leader with every write.\<close>

fun front_ok :: "task_frontend \<Rightarrow> bool" where
  "front_ok FrontControl \<longleftrightarrow> True"
| "front_ok (FrontWorker cn) \<longleftrightarrow> cn_known cn \<noteq> []"

lemma api_submit_reaches_leader:
  assumes "codec_ok c" "serves_tasks c leader servers" "front_ok fe" "payload_too_large (ReqTask cmd) = None"
    "exec_task c s cmd = Inr (s', into_response c r)"
  shows "\<exists>fe'. api_submit c (cluster_api c err_text servers me) fe cmd s = (s', fe', Inr r) \<and> front_ok fe'"
proof -
  let ?nodes = "\<lambda>n. ts_write (servers n)"
  have leads: "raft_leads c TASKS leader ?nodes" using assms(2) by (simp add: serves_tasks_def)
  note remote = submit_reaches_leader[OF leads assms(1,4) _ assms(5)]
  have service: "submit (?nodes n) TASKS req s = (s1, reply) \<longleftrightarrow> service_rpc ?nodes TASKS s n req = (s1, Inr reply)" for n req s1 reply
    by (auto simp: service_rpc_def split_beta prod_eq_iff)
  have reg: "ae_register (cluster_api c err_text servers me) = no_register" "ae_service (cluster_api c err_text servers me) = servers me"
    by (simp_all add: cluster_api_def)
  show ?thesis
  proof (cases fe)
    case (FrontWorker cn)
    then obtain cn' where "submit_command c (service_rpc ?nodes TASKS) no_register (ReqTask cmd) s cn = (s', cn', Inr r)" "cn_known cn' \<noteq> []"
      using remote[of cn] assms(3) by auto
    then show ?thesis using FrontWorker by (simp add: api_submit_def submit_rpc_serves reg)
  next
    case FrontControl
    show ?thesis
    proof (cases "me = leader")
      case True
      then have "submit (?nodes me) TASKS (ReqTask cmd) s = (s', accepted_reply (into_response c r))"
        using leader_rpc[OF leads assms(4,5)] service by simp
      moreover have "wr_ok (accepted_reply (into_response c r))" by (simp add: accepted_reply_def)
      ultimately show ?thesis using FrontControl command_result_reply[OF assms(1)] by (simp add: api_submit_def reg)
    next
      case False
      then obtain reply where "submit (?nodes me) TASKS (ReqTask cmd) s = (s, reply)" "\<not> wr_ok reply" "wr_leader_id reply = Some leader"
        using follower_rpc[OF leads assms(4) False] service by blast
      moreover obtain cn' where "submit_command c (service_rpc ?nodes TASKS) no_register (ReqTask cmd) s (control_nodes_new [leader]) = (s', cn', Inr r)"
        using remote[of "control_nodes_new [leader]"] by (auto simp: control_nodes_new_def)
      ultimately show ?thesis using FrontControl by (simp add: api_submit_def submit_rpc_serves reg split: option.split)
    qed
  qed
qed

end
