(* ===== verification/TaskApiClaims.thy ===== *)
theory TaskApiClaims
  imports TaskApi WorkerClaims HandlerClaims
begin

text \<open>
  What the HTTP interface of the task queue does, on any node of a cluster: through the facade, the
  envelope, the service and the redirects down to the replicated queue.
\<close>

section \<open>Submissions\<close>


definition accepted_payload :: "handler_api \<Rightarrow> string \<Rightarrow> bool" where
  "accepted_payload h payload \<longleftrightarrow> length payload \<le> MAX_TASK_PAYLOAD_BYTES \<and> (\<exists>p. decode h payload = Inr p)"




section \<open>Replays and listings\<close>














lemma mail_accepted_payload: "accepted_payload mail_api ''ann''"
  by (simp add: accepted_payload_def MAX_TASK_PAYLOAD_BYTES_def decode_def payload_kind_def map_err_def mail_api_def variant_def)

section \<open>What the doors let through\<close>

text \<open>The delay of a submission is added to the clock without a check: a delay near the largest number
  makes the task due before it was created.\<close>

lemma delay_wraps:
  fixes now delay :: u64
  assumes "unat now + unat delay \<ge> 2 ^ 64"
  shows "now + delay < now"
proof -
  define a b where "a = unat now" and "b = unat delay"
  have "a < 2 ^ 64" "b < 2 ^ 64" using unsigned_less[of now, where 'a = nat] unsigned_less[of delay, where 'a = nat] by (simp_all add: a_def b_def)
  moreover have "2 ^ 64 \<le> a + b" using assms by (simp add: a_def b_def)
  ultimately have "(a + b) mod 2 ^ 64 < a" by (simp add: le_mod_geq)
  then show ?thesis by (simp add: word_less_nat_alt unat_word_ariths(1) a_def b_def)
qed

text \<open>The service checks the length of a payload but not that a handler decodes it: a task that no handler
  can run enters the queue through the envelope.\<close>

lemma undecodable_payload_admitted:
  assumes "codec_ok c" "queue_inv c s" "serves_tasks c leader servers" "recs c s uuid = None"
    "length payload \<le> MAX_TASK_PAYLOAD_BYTES"
  shows "\<exists>s' reply. remote_call (cluster_api c txt servers me) (CallSubmit TASKS (ReqTask (TaskEnqueue uuid payload t None u))) s leader =
      (s', Inr (RepSubmit reply)) \<and> wr_ok reply \<and> recs c s' = (recs c s)(uuid \<mapsto> new_record uuid payload t None u)"
proof -
  let ?cmd = "TaskEnqueue uuid payload t None u"
  obtain s' where s': "exec_task c s ?cmd = Inr (s', into_response c (snd (aq_step (abs_queue c s) ?cmd)))"
    "abs_queue c s' = aq_next (abs_queue c s) ?cmd"
    by (rule exec_task_ready[of c s ?cmd]) (use assms(1,2) in \<open>simp_all add: queue_ready_def cmd_ok_def\<close>)
  have "recs c s' = (recs c s)(uuid \<mapsto> new_record uuid payload t None u)"
    using arg_cong[OF s'(2), of aq_recs] assms(4) by (simp add: abs_queue_def aq_next_def)
  moreover have "submit (ts_write (servers leader)) TASKS (ReqTask ?cmd) s =
      (s', accepted_reply (into_response c (snd (aq_step (abs_queue c s) ?cmd))))"
    using leader_rpc[of c TASKS leader "\<lambda>n. ts_write (servers n)" ?cmd s] s'(1) assms(3,5)
    by (auto simp: serves_tasks_def payload_too_large_def service_rpc_def split_beta prod_eq_iff)
  ultimately show ?thesis by (simp add: remote_call_serves accepted_reply_def)
qed

text \<open>An e-mail that the mail endpoint accepted decodes to the e-mail it was given.\<close>

lemma pushed_email_decodes:
  assumes "payload_codec_ok h" "push_email c h api fe uuid now to idem s = (s', fe', resp)" "er_ok resp"
  shows "\<exists>payload. encode h (Email \<lparr>em_to = to\<rparr>) = Inr payload \<and> decode h payload = Inr (Email \<lparr>em_to = to\<rparr>)"
  using payload_roundtrip[OF assms(1), of "Email \<lparr>em_to = to\<rparr>"] assms(2,3)
  by (cases "encode h (Email \<lparr>em_to = to\<rparr>)") (auto simp: push_email_def push_error_def)

text \<open>One-shot calls: a message that is not a request is refused and changes nothing.\<close>

lemma only_requests_served:
  "(\<nexists>i m. message = RequestMessage i m) \<Longrightarrow> \<exists>resp e. process_task_rpc_request c srv message w = (w, resp) \<and> tp_message resp = Inl e"
  by (cases message) (auto simp: process_task_rpc_request_def)

end
