(* ===== verification/NodeRoles.thy ===== *)
theory NodeRoles
  imports MembershipOps LeaderWorks OrderedStore
begin

text \<open>
  When a node takes and leaves the control role: the nodes of the command line, the mode it starts in
  and the data it wipes before (\<open>app/startup.rs\<close>), the verification after the start
  (\<open>app/node_maintenance.rs\<close>), the watchers of a worker for joining and promotion and its
  registration as a learner (\<open>app/worker_services.rs\<close>), and the watcher for eviction and the
  announcements of a control node (\<open>app/control_services.rs\<close>). A watcher is a recursion over the
  events its \<open>select!\<close> returns; the calls to other nodes are \<open>join_net\<close>.
\<close>

section \<open>The nodes of the command line\<close>

text \<open>\<open>parse_peer\<close> is \<open>parse_p2p_addr\<close> with the peer id printed.\<close>

definition parse_node_kv :: "(string \<Rightarrow> string result) \<Rightarrow> string \<Rightarrow> (string \<times> string) result" where
  "parse_node_kv parse_peer s =
     (case split_once (CHR ''='') s of
        None \<Rightarrow> Inl (''expected <id>=<multiaddr>, got: '' @ s)
      | Some (id_str, addr) \<Rightarrow> rbind (parse_peer addr) (\<lambda>peer_id.
          if id_str \<noteq> peer_id then Inl (''node id must match multiaddr /p2p peer id: id='' @ id_str @ '', peer='' @ peer_id)
          else Inr (id_str, addr)))"

type_synonym node_table = "(string, string \<times> bool) cf"

fun add_permanent :: "(string \<Rightarrow> string result) \<Rightarrow> string list \<Rightarrow> node_table \<Rightarrow> node_table result" where
  "add_permanent parse_peer [] nodes = Inr nodes"
| "add_permanent parse_peer (raw # rest) nodes =
     rbind (parse_node_kv parse_peer raw) (\<lambda>(node_id, addr). add_permanent parse_peer rest (cf_put nodes node_id (addr, True)))"

fun add_bootstrap :: "(string \<Rightarrow> string result) \<Rightarrow> string list \<Rightarrow> node_table \<Rightarrow> node_table result" where
  "add_bootstrap parse_peer [] nodes = Inr nodes"
| "add_bootstrap parse_peer (raw # rest) nodes =
     rbind (parse_node_kv parse_peer raw) (\<lambda>(node_id, addr).
       add_bootstrap parse_peer rest (if cf_get nodes node_id = None then cf_put nodes node_id (addr, False) else nodes))"

definition configured_nodes :: "(string \<Rightarrow> string result) \<Rightarrow> string list \<Rightarrow> string list \<Rightarrow> (string \<times> string \<times> bool) list result" where
  "configured_nodes parse_peer nodes bootstrap_nodes =
     rbind (add_permanent parse_peer nodes []) (\<lambda>m.
     rbind (add_bootstrap parse_peer bootstrap_nodes m) (\<lambda>m. Inr (map (\<lambda>(node_id, addr, permanent). (node_id, addr, permanent)) m)))"

definition is_bootstrap_node :: "(string \<times> string) list \<Rightarrow> string \<Rightarrow> bool" where
  "is_bootstrap_node bootstrap_nodes self_id = list_ex (\<lambda>(node_id, _). node_id = self_id) bootstrap_nodes"

definition known_control_nodes :: "(string, string) cf \<Rightarrow> string \<Rightarrow> string list" where
  "known_control_nodes members self_id = filter (\<lambda>node_id. node_id \<noteq> self_id) (map fst members)"

section \<open>The start\<close>

text \<open>A persisted membership: all its nodes, the learners included, and the voters. The disk holds one per
  group; reading and removing a group's store may fail.\<close>

record stored_membership =
  sd_nodes :: "string set"
  sd_voters :: "string set"

record 'd group_disk =
  gd_read :: "'d \<Rightarrow> string \<Rightarrow> stored_membership option result"
  gd_remove :: "string \<Rightarrow> 'd \<Rightarrow> 'd \<times> unit result"

fun stored_voter_of_all :: "(string \<Rightarrow> stored_membership option result) \<Rightarrow> string \<Rightarrow> string list \<Rightarrow> bool result" where
  "stored_voter_of_all stored self_id [] = Inr True"
| "stored_voter_of_all stored self_id (g # gs) =
     rbind (stored g) (\<lambda>m. case m of
        None \<Rightarrow> Inr False
      | Some membership \<Rightarrow> if self_id \<notin> sd_voters membership then Inr False else stored_voter_of_all stored self_id gs)"

definition local_openraft_voters_contain_self :: "(string \<Rightarrow> stored_membership option result) \<Rightarrow> string \<Rightarrow> string list \<Rightarrow> bool result" where
  "local_openraft_voters_contain_self stored self_id group_ids =
     (if group_ids = [] then Inr False else stored_voter_of_all stored self_id group_ids)"

datatype startup_mode = ControlMode | WorkerMode "string list"

definition decide_startup_mode ::
  "(string \<Rightarrow> stored_membership option result) \<Rightarrow> string \<Rightarrow> (string, string) cf \<Rightarrow> (string \<times> string) list \<Rightarrow> string list \<Rightarrow> startup_mode result" where
  "decide_startup_mode stored self_id members bootstrap_nodes group_ids =
     (if is_bootstrap_node bootstrap_nodes self_id then Inr ControlMode
      else rbind (local_openraft_voters_contain_self stored self_id group_ids) (\<lambda>contained.
        if contained then Inr ControlMode else Inr (WorkerMode (known_control_nodes members self_id))))"

fun cleanup_groups ::
  "'d group_disk \<Rightarrow> 'n join_net \<Rightarrow> string \<Rightarrow> string list \<Rightarrow> bool \<Rightarrow> 'd \<Rightarrow> 'n \<Rightarrow> 'd \<times> 'n \<times> bool result" where
  "cleanup_groups disk net self_id [] wiped_any d n = (d, n, Inr wiped_any)"
| "cleanup_groups disk net self_id (g # gs) wiped_any d n =
     (case gd_read disk d g of
        Inl e \<Rightarrow> (d, n, Inl e)
      | Inr None \<Rightarrow> cleanup_groups disk net self_id gs wiped_any d n
      | Inr (Some local_membership) \<Rightarrow>
          if self_id \<notin> sd_nodes local_membership then cleanup_groups disk net self_id gs wiped_any d n
          else (case fetch_authoritative_group_metrics net g self_id n of
              (n1, None) \<Rightarrow> cleanup_groups disk net self_id gs wiped_any d n1
            | (n1, Some remote) \<Rightarrow>
                if rm_nodes remote = Map.empty \<or> rm_nodes remote self_id \<noteq> None then cleanup_groups disk net self_id gs wiped_any d n1
                else (case gd_remove disk g d of
                    (d1, Inl e) \<Rightarrow> (d1, n1, Inl e)
                  | (d1, Inr _) \<Rightarrow> cleanup_groups disk net self_id gs True d1 n1)))"

definition cleanup_removed_local_groups :: "'d group_disk \<Rightarrow> 'n join_net \<Rightarrow> string \<Rightarrow> string list \<Rightarrow> 'd \<Rightarrow> 'n \<Rightarrow> 'd \<times> 'n \<times> bool result" where
  "cleanup_removed_local_groups disk net self_id group_ids d n = cleanup_groups disk net self_id group_ids False d n"

text \<open>One poll of the verifier. \<open>leads\<close> tells for a registered group whether this node is its leader; the
  groups without a leader stay pending.\<close>

datatype verify_outcome = StillPending "string list" | Verified | EvictedFrom string

fun verify_groups ::
  "(string \<Rightarrow> bool option) \<Rightarrow> 'n join_net \<Rightarrow> string \<Rightarrow> bool \<Rightarrow> string list \<Rightarrow> string list \<Rightarrow> 'n \<Rightarrow> 'n \<times> verify_outcome" where
  "verify_groups leads net self_id boot_as_control [] still_pending n =
     (n, if still_pending = [] then Verified else StillPending still_pending)"
| "verify_groups leads net self_id boot_as_control (g # gs) still_pending n =
     (case leads g of
        None \<Rightarrow> verify_groups leads net self_id boot_as_control gs (still_pending @ [g]) n
      | Some True \<Rightarrow> verify_groups leads net self_id boot_as_control gs still_pending n
      | Some False \<Rightarrow>
          (case fetch_authoritative_group_metrics net g self_id n of
             (n1, Some metrics) \<Rightarrow>
               if boot_as_control \<and> rm_nodes metrics \<noteq> Map.empty \<and> rm_nodes metrics self_id = None then (n1, EvictedFrom g)
               else verify_groups leads net self_id boot_as_control gs still_pending n1
           | (n1, None) \<Rightarrow> verify_groups leads net self_id boot_as_control gs (still_pending @ [g]) n1))"

definition verify_poll :: "(string \<Rightarrow> bool option) \<Rightarrow> 'n join_net \<Rightarrow> string \<Rightarrow> bool \<Rightarrow> string list \<Rightarrow> 'n \<Rightarrow> 'n \<times> verify_outcome" where
  "verify_poll leads net self_id boot_as_control pending n = verify_groups leads net self_id boot_as_control pending [] n"

section \<open>A worker\<close>

definition gossip_view_promotes_self :: "(string \<Rightarrow> gossip_membership option) \<Rightarrow> string \<Rightarrow> string list \<Rightarrow> bool" where
  "gossip_view_promotes_self view self_id group_ids \<longleftrightarrow> group_ids \<noteq> [] \<and>
     list_all (\<lambda>g. case view g of Some membership \<Rightarrow> self_id \<in> gv_voters membership | None \<Rightarrow> False) group_ids"

datatype promotion_event = PromotionStop | ViewChanged | FallbackTick | ConfirmRetry

datatype promotion_watch_result = Promote | PromotionShutdown

text \<open>One round per event: the view at its start, then what the \<open>select!\<close> returned.\<close>

fun promotion_watch ::
  "'n join_net \<Rightarrow> string \<Rightarrow> string list \<Rightarrow> bool \<Rightarrow> ((string \<Rightarrow> gossip_membership option) \<times> promotion_event) list \<Rightarrow> 'n \<Rightarrow>
   'n \<times> promotion_watch_result option" where
  "promotion_watch net self_id group_ids confirm_due [] n = (n, None)"
| "promotion_watch net self_id group_ids confirm_due ((view, ev) # rest) n =
     (case (if gossip_view_promotes_self view self_id group_ids \<or> confirm_due
            then remote_openraft_voters_contain_self net self_id group_ids n else (n, False)) of
        (n1, True) \<Rightarrow> (n1, Some Promote)
      | (n1, False) \<Rightarrow>
          (case ev of
             PromotionStop \<Rightarrow> (n1, Some PromotionShutdown)
           | FallbackTick \<Rightarrow> promotion_watch net self_id group_ids True rest n1
           | _ \<Rightarrow> promotion_watch net self_id group_ids False rest n1))"

datatype watch_event = WatchTick | WatchStop

datatype control_join_watch_result = JoinedControl | AlreadyControl | ControlFull | JoinShutdown

fun join_watch :: "('n \<Rightarrow> 'n \<times> join_outcome option) \<Rightarrow> watch_event list \<Rightarrow> 'n \<Rightarrow> 'n \<times> control_join_watch_result option" where
  "join_watch try_join [] n = (n, None)"
| "join_watch try_join (WatchStop # rest) n = (n, Some JoinShutdown)"
| "join_watch try_join (WatchTick # rest) n =
     (case try_join n of
        (n1, Some Joined) \<Rightarrow> (n1, Some JoinedControl)
      | (n1, Some AlreadyMember) \<Rightarrow> (n1, Some AlreadyControl)
      | (n1, Some Full) \<Rightarrow> (n1, Some ControlFull)
      | (n1, None) \<Rightarrow> join_watch try_join rest n1)"

definition run_control_join_watcher ::
  "'n join_net \<Rightarrow> (rpc_reply \<Rightarrow> string) \<Rightarrow> string \<Rightarrow> string \<Rightarrow> nat \<Rightarrow> string \<Rightarrow> string list \<Rightarrow> string list \<Rightarrow> watch_event list \<Rightarrow> 'n \<Rightarrow>
   'n \<times> control_join_watch_result option" where
  "run_control_join_watcher net debug self_id addr max_control_nodes group0 groups bootstrap_nodes events n =
     (if bootstrap_nodes = [] \<or> max_control_nodes = 0 then (n, Some ControlFull)
      else join_watch (try_join_control_cluster net debug self_id addr max_control_nodes group0 groups bootstrap_nodes) events n)"

text \<open>Registration as a learner: at most \<open>left\<close> more calls along the leader hints of one control node.\<close>

fun learner_redirects ::
  "'n join_net \<Rightarrow> (rpc_reply \<Rightarrow> string) \<Rightarrow> string \<Rightarrow> string \<Rightarrow> string \<Rightarrow> nat \<Rightarrow> string \<Rightarrow> string option \<Rightarrow> 'n \<Rightarrow>
   'n \<times> (string option + unit)" where
  "learner_redirects net debug self_id addr group_id 0 target last_error n = (n, Inl last_error)"
| "learner_redirects net debug self_id addr group_id (Suc left) target last_error n =
     (case jn_request net target group_id (AddLearnerOp self_id addr) n of
        (n1, Inr (LearnerReply resp)) \<Rightarrow>
          if lr_ok resp then (n1, Inr ())
          else (case lr_leader_id resp of
             Some leader_id \<Rightarrow>
               if leader_id \<noteq> target \<and> leader_id \<noteq> self_id
               then learner_redirects net debug self_id addr group_id left leader_id last_error
                 (case lr_leader_addr resp of Some a \<Rightarrow> jn_register net leader_id a n1 | None \<Rightarrow> n1)
               else (n1, Inl (lr_error resp))
           | None \<Rightarrow> (n1, Inl (lr_error resp)))
      | (n1, Inr (ErrorReply message)) \<Rightarrow> (n1, Inl (Some message))
      | (n1, Inr other) \<Rightarrow> (n1, Inl (Some (''unexpected add_learner response: '' @ debug other)))
      | (n1, Inl err) \<Rightarrow> (n1, Inl (Some err)))"

fun learner_targets ::
  "'n join_net \<Rightarrow> (rpc_reply \<Rightarrow> string) \<Rightarrow> string \<Rightarrow> string \<Rightarrow> string \<Rightarrow> string list \<Rightarrow> string option \<Rightarrow> 'n \<Rightarrow> 'n \<times> (string option + unit)" where
  "learner_targets net debug self_id addr group_id [] last_error n = (n, Inl last_error)"
| "learner_targets net debug self_id addr group_id (t # ts) last_error n =
     (if t = self_id then learner_targets net debug self_id addr group_id ts last_error n
      else (case learner_redirects net debug self_id addr group_id (CONTROL_JOIN_MAX_LEADER_REDIRECTS + 1) t last_error n of
          (n1, Inr _) \<Rightarrow> (n1, Inr ())
        | (n1, Inl e) \<Rightarrow> learner_targets net debug self_id addr group_id ts e n1))"

definition register_self_as_group_learner ::
  "'n join_net \<Rightarrow> (rpc_reply \<Rightarrow> string) \<Rightarrow> string \<Rightarrow> string list \<Rightarrow> string \<Rightarrow> string \<Rightarrow> 'n \<Rightarrow> 'n \<times> unit result" where
  "register_self_as_group_learner net debug self_id control_nodes group_id addr n =
     apsnd (map_err (\<lambda>last_error. ''register as learner for group '' @ group_id @ '' failed: '' @
       (case last_error of Some e \<Rightarrow> e | None \<Rightarrow> ''no reachable control node'')))
       (learner_targets net debug self_id addr group_id control_nodes None n)"

fun register_self_as_learner ::
  "'n join_net \<Rightarrow> (rpc_reply \<Rightarrow> string) \<Rightarrow> string \<Rightarrow> string list \<Rightarrow> string \<Rightarrow> string list \<Rightarrow> 'n \<Rightarrow> 'n \<times> unit result" where
  "register_self_as_learner net debug self_id control_nodes addr [] n = (n, Inr ())"
| "register_self_as_learner net debug self_id control_nodes addr (g # gs) n =
     (case register_self_as_group_learner net debug self_id control_nodes g addr n of
        (n1, Inl e) \<Rightarrow> (n1, Inl e)
      | (n1, Inr _) \<Rightarrow> register_self_as_learner net debug self_id control_nodes addr gs n1)"

fun evicted_learner_registration :: "('n \<Rightarrow> 'n \<times> unit result) \<Rightarrow> watch_event list \<Rightarrow> 'n \<Rightarrow> 'n \<times> bool option" where
  "evicted_learner_registration register [] n = (n, None)"
| "evicted_learner_registration register (WatchStop # rest) n = (n, Some False)"
| "evicted_learner_registration register (WatchTick # rest) n =
     (case register n of (n1, Inr _) \<Rightarrow> (n1, Some True) | (n1, Inl _) \<Rightarrow> evicted_learner_registration register rest n1)"

section \<open>A control node\<close>

definition CONTROL_DEMOTION_CONFIRMATIONS :: nat where "CONTROL_DEMOTION_CONFIRMATIONS = 3"

fun confirmed_evicted_from_all_groups :: "'n join_net \<Rightarrow> string \<Rightarrow> string list \<Rightarrow> 'n \<Rightarrow> 'n \<times> bool" where
  "confirmed_evicted_from_all_groups net self_id [] n = (n, True)"
| "confirmed_evicted_from_all_groups net self_id (g # gs) n =
     (case fetch_authoritative_group_metrics net g self_id n of
        (n1, None) \<Rightarrow> (n1, False)
      | (n1, Some metrics) \<Rightarrow>
          if self_id \<in> rm_voters metrics then (n1, False) else confirmed_evicted_from_all_groups net self_id gs n1)"

text \<open>The count of confirmations stays below four. \<open>leave\<close> gives up the provider record and the server mode;
  the watcher ends whether it succeeds or not.\<close>

datatype demotion_end = DemotionShutdown | Demoted "unit result"

fun demotion_watch ::
  "'n join_net \<Rightarrow> string \<Rightarrow> string list \<Rightarrow> ('n \<Rightarrow> 'n \<times> unit result) \<Rightarrow> nat \<Rightarrow> watch_event list \<Rightarrow> 'n \<Rightarrow> 'n \<times> demotion_end option" where
  "demotion_watch net self_id group_ids leave confirmations [] n = (n, None)"
| "demotion_watch net self_id group_ids leave confirmations (WatchStop # rest) n = (n, Some DemotionShutdown)"
| "demotion_watch net self_id group_ids leave confirmations (WatchTick # rest) n =
     (case confirmed_evicted_from_all_groups net self_id group_ids n of
        (n1, False) \<Rightarrow> demotion_watch net self_id group_ids leave 0 rest n1
      | (n1, True) \<Rightarrow>
          if confirmations + 1 < CONTROL_DEMOTION_CONFIRMATIONS
          then demotion_watch net self_id group_ids leave (confirmations + 1) rest n1
          else apsnd (\<lambda>r. Some (Demoted r)) (leave n1))"

definition run_control_demotion_watcher ::
  "'n join_net \<Rightarrow> string \<Rightarrow> string list \<Rightarrow> ('n \<Rightarrow> 'n \<times> unit result) \<Rightarrow> watch_event list \<Rightarrow> 'n \<Rightarrow> 'n \<times> demotion_end option" where
  "run_control_demotion_watcher net self_id group_ids leave events n = demotion_watch net self_id group_ids leave 0 events n"

text \<open>The announcer: what openraft shows of a group, when it was last published and under which index of
  the membership. Times are milliseconds of the monotonic clock.\<close>

definition MEMBERSHIP_ANNOUNCE_REFRESH :: nat where "MEMBERSHIP_ANNOUNCE_REFRESH = 30 * 1000"

record group_view =
  gw_is_leader :: bool
  gw_membership_index :: "u64 option"
  gw_voters :: "string list"

type_synonym published = "string \<Rightarrow> (u64 \<times> nat) option"

text \<open>The announcements of one tick. The time stamp of an announcement, which no receiver reads, is left
  out.\<close>

fun announce_groups :: "string \<Rightarrow> nat \<Rightarrow> (string \<times> group_view) list \<Rightarrow> published \<Rightarrow> published \<times> membership_announcement list" where
  "announce_groups self_id now [] published = (published, [])"
| "announce_groups self_id now ((group_id, metrics) # rest) published =
     (if \<not> gw_is_leader metrics then announce_groups self_id now rest (published(group_id := None))
      else
        let log_index = (case gw_membership_index metrics of Some i \<Rightarrow> i | None \<Rightarrow> 0);
            fresh = (case published group_id of Some (index, at) \<Rightarrow> index = log_index \<and> now - at < MEMBERSHIP_ANNOUNCE_REFRESH | None \<Rightarrow> False) in
        if fresh then announce_groups self_id now rest published
        else apsnd (Cons \<lparr>ma_group_id = group_id, ma_voter_ids = gw_voters metrics, ma_leader_id = self_id, ma_log_index = log_index\<rparr>)
             (announce_groups self_id now rest (published(group_id \<mapsto> (log_index, now)))))"

end
