(* ===== verification/RoleClaims.thy ===== *)
theory RoleClaims
  imports NodeRoles
begin

text \<open>
  A node changes its role, and wipes its data, only on evidence from another node.
\<close>

section \<open>Evidence\<close>

text \<open>The calls that lead the network from one state to another.\<close>

definition asked :: "'n join_net \<Rightarrow> 'n \<Rightarrow> 'n \<Rightarrow> bool" where
  "asked net n n' \<longleftrightarrow> (\<exists>t g op. n' = fst (jn_request net t g op n))"

abbreviation calls :: "'n join_net \<Rightarrow> 'n \<Rightarrow> 'n \<Rightarrow> bool" where
  "calls net \<equiv> (asked net)\<^sup>*\<^sup>*"

text \<open>Between the states \<open>n\<close> and \<open>n'\<close> some other node answered a metrics call about the group with \<open>m\<close>.\<close>

definition reported :: "'n join_net \<Rightarrow> string \<Rightarrow> string \<Rightarrow> raft_metrics \<Rightarrow> 'n \<Rightarrow> 'n \<Rightarrow> bool" where
  "reported net self_id g m n n' \<longleftrightarrow> (\<exists>t n1 n2. t \<noteq> self_id \<and> calls net n n1 \<and>
     jn_request net t g GetMetrics n1 = (n2, Inr (MetricsReply m)) \<and> calls net n2 n')"

definition leader_reported :: "'n join_net \<Rightarrow> string \<Rightarrow> string \<Rightarrow> raft_metrics \<Rightarrow> 'n \<Rightarrow> 'n \<Rightarrow> bool" where
  "leader_reported net self_id g m n n' \<longleftrightarrow> reported net self_id g m n n' \<and> rm_is_leader m"

definition removed_by_leader :: "'n join_net \<Rightarrow> string \<Rightarrow> string \<Rightarrow> 'n \<Rightarrow> 'n \<Rightarrow> bool" where
  "removed_by_leader net self_id g n n' \<longleftrightarrow>
     (\<exists>m. leader_reported net self_id g m n n' \<and> rm_nodes m \<noteq> Map.empty \<and> rm_nodes m self_id = None)"

lemma calls_one: "jn_request net t g op n = (n', r) \<Longrightarrow> calls net n n'"
  by (rule r_into_rtranclp) (metis asked_def fst_conv)

text \<open>What was reported in a part of a run was reported in the run.\<close>

lemma evidence_wider:
  assumes "calls net n0 n" "calls net n' n1"
  shows "reported net self_id g m n n' \<Longrightarrow> reported net self_id g m n0 n1"
    "leader_reported net self_id g m n n' \<Longrightarrow> leader_reported net self_id g m n0 n1"
    "removed_by_leader net self_id g n n' \<Longrightarrow> removed_by_leader net self_id g n0 n1"
proof -
  have *: "reported net self_id g m n0 n1" if rep: "reported net self_id g m n n'" for m
  proof -
    obtain t a b where t: "t \<noteq> self_id" "calls net n a" "jn_request net t g GetMetrics a = (b, Inr (MetricsReply m))" "calls net b n'"
      using rep unfolding reported_def by (elim exE conjE)
    have "calls net n0 a" "calls net b n1" by (rule rtranclp_trans[OF assms(1) t(2)], rule rtranclp_trans[OF t(4) assms(2)])
    then show ?thesis unfolding reported_def using t(1,3) by (intro exI conjI)
  qed
  show "reported net self_id g m n n' \<Longrightarrow> reported net self_id g m n0 n1" by (rule *)
  have **: "leader_reported net self_id g m n n' \<Longrightarrow> leader_reported net self_id g m n0 n1" for m
    unfolding leader_reported_def using * by blast
  show "leader_reported net self_id g m n n' \<Longrightarrow> leader_reported net self_id g m n0 n1" by (rule **)
  show "removed_by_leader net self_id g n n' \<Longrightarrow> removed_by_leader net self_id g n0 n1"
    unfolding removed_by_leader_def using ** by blast
qed

lemmas evidence_later = evidence_wider[OF _ rtranclp.rtrancl_refl]
lemmas evidence_before = evidence_wider[OF rtranclp.rtrancl_refl]

lemma fetch_from_reported:
  "fetch_from net g self_id require_leader is n = (n', r) \<Longrightarrow>
    calls net n n' \<and> (\<forall>m. r = Some m \<longrightarrow> reported net self_id g m n n' \<and> (require_leader \<longrightarrow> rm_is_leader m))"
proof (induction "is" arbitrary: n)
  case (Cons i "is")
  obtain n1 a where req: "jn_request net i g GetMetrics n = (n1, a)" by fastforce
  note one = calls_one[OF req]
  show ?case
  proof (cases "i \<noteq> self_id \<and> (\<exists>m. a = Inr (MetricsReply m) \<and> (require_leader \<longrightarrow> rm_is_leader m))")
    case True
    then obtain m where m: "i \<noteq> self_id" "a = Inr (MetricsReply m)" "require_leader \<longrightarrow> rm_is_leader m" by blast
    then have "n' = n1" "r = Some m" using Cons.prems req by auto
    moreover have "reported net self_id g m n n1"
      unfolding reported_def using m(1,2) req by (intro exI[of _ i] exI[of _ n] exI[of _ n1]) simp
    ultimately show ?thesis using one m(3) by simp
  next
    case False
    then have "fetch_from net g self_id require_leader is n1 = (n', r) \<or> fetch_from net g self_id require_leader is n = (n', r)"
      using Cons.prems req by (cases a; cases "projr a") (auto split: if_splits)
    then show ?thesis using Cons.IH[of n] Cons.IH[of n1] rtranclp_trans[OF one] evidence_later(1)[OF one] by blast
  qed
qed simp

lemma fetch_authoritative_reported:
  "fetch_authoritative_group_metrics net g self_id n = (n', r) \<Longrightarrow>
    calls net n n' \<and> (\<forall>m. r = Some m \<longrightarrow> leader_reported net self_id g m n n')"
  using fetch_from_reported[of net g self_id True]
  by (auto simp: fetch_authoritative_group_metrics_def fetch_group_metrics_inner_def leader_reported_def)

lemma fetch_remote_reported:
  "fetch_remote_group_metrics net g self_id n = (n', r) \<Longrightarrow>
    calls net n n' \<and> (\<forall>m. r = Some m \<longrightarrow> reported net self_id g m n n')"
  using fetch_from_reported[of net g self_id False]
  by (auto simp: fetch_remote_group_metrics_def fetch_group_metrics_inner_def)

lemma voter_of_all_reported:
  "voter_of_all net self_id gs n = (n', ok) \<Longrightarrow> calls net n n' \<and>
    (ok \<longrightarrow> (\<forall>g\<in>set gs. \<exists>m. reported net self_id g m n n' \<and> self_id \<in> rm_voters m))"
proof (induction gs arbitrary: n)
  case (Cons g gs)
  obtain n1 r where fetch: "fetch_remote_group_metrics net g self_id n = (n1, r)" by fastforce
  note one = fetch_remote_reported[OF fetch]
  show ?case
  proof (cases "\<exists>m. r = Some m \<and> self_id \<in> rm_voters m")
    case True
    then have rest: "voter_of_all net self_id gs n1 = (n', ok)" using Cons.prems fetch by auto
    have fst_call: "calls net n n1" using one by blast
    note rest = Cons.IH[OF rest]
    from True obtain m where m: "reported net self_id g m n n1" "self_id \<in> rm_voters m" using one by blast
    have "reported net self_id g m n n'" using evidence_before(1)[OF _ m(1)] rest by blast
    then show ?thesis using m(2) rest rtranclp_trans[OF fst_call] evidence_later(1)[OF fst_call] by simp blast
  next
    case False
    then show ?thesis using Cons.prems fetch one by (auto split: option.splits if_splits)
  qed
qed simp

lemma confirmed_reported:
  "confirmed_evicted_from_all_groups net self_id gs n = (n', ok) \<Longrightarrow> calls net n n' \<and>
    (ok \<longrightarrow> (\<forall>g\<in>set gs. \<exists>m. leader_reported net self_id g m n n' \<and> self_id \<notin> rm_voters m))"
proof (induction gs arbitrary: n)
  case (Cons g gs)
  obtain n1 r where fetch: "fetch_authoritative_group_metrics net g self_id n = (n1, r)" by fastforce
  note one = fetch_authoritative_reported[OF fetch]
  show ?case
  proof (cases "\<exists>m. r = Some m \<and> self_id \<notin> rm_voters m")
    case True
    then have rest: "confirmed_evicted_from_all_groups net self_id gs n1 = (n', ok)" using Cons.prems fetch by auto
    have fst_call: "calls net n n1" using one by blast
    note rest = Cons.IH[OF rest]
    from True obtain m where m: "leader_reported net self_id g m n n1" "self_id \<notin> rm_voters m" using one by blast
    have "leader_reported net self_id g m n n'" using evidence_before(2)[OF _ m(1)] rest by blast
    then show ?thesis using m(2) rest rtranclp_trans[OF fst_call] evidence_later(2)[OF fst_call] by simp blast
  next
    case False
    then show ?thesis using Cons.prems fetch one by (auto split: option.splits if_splits)
  qed
qed simp

section \<open>Wiping and verifying\<close>

text \<open>Removing the store of a group leaves the others as they are.\<close>

definition disk_ok :: "'d group_disk \<Rightarrow> bool" where
  "disk_ok disk \<longleftrightarrow> (\<forall>d g h. h \<noteq> g \<longrightarrow> gd_read disk (fst (gd_remove disk g d)) h = gd_read disk d h)"

lemma cleanup_evidence:
  assumes "disk_ok disk" "cleanup_groups disk net self_id gs wiped d n = (d', n', r)"
  shows "calls net n n' \<and> (gd_read disk d' g \<noteq> gd_read disk d g \<longrightarrow> g \<in> set gs \<and> removed_by_leader net self_id g n n')"
  using assms(2)
proof (induction gs arbitrary: wiped d n)
  case (Cons h gs)
  obtain n1 remote where fetch: "fetch_authoritative_group_metrics net h self_id n = (n1, remote)" by fastforce
  obtain d1 removed where removal: "gd_remove disk h d = (d1, removed)" by fastforce
  note one = fetch_authoritative_reported[OF fetch]
  consider (stop) "d' = d" "n' = n" | (skip) w where "cleanup_groups disk net self_id gs w d n = (d', n', r)"
    | (kept) w where "cleanup_groups disk net self_id gs w d n1 = (d', n', r)"
    | (removed) m where "remote = Some m" "rm_nodes m \<noteq> Map.empty" "rm_nodes m self_id = None"
        "(d', n') = (d1, n1) \<or> cleanup_groups disk net self_id gs True d1 n1 = (d', n', r)"
  proof -
    assume *: "\<lbrakk>d' = d; n' = n\<rbrakk> \<Longrightarrow> thesis" "\<And>w. cleanup_groups disk net self_id gs w d n = (d', n', r) \<Longrightarrow> thesis"
      "\<And>w. cleanup_groups disk net self_id gs w d n1 = (d', n', r) \<Longrightarrow> thesis"
      "\<And>m. \<lbrakk>remote = Some m; rm_nodes m \<noteq> Map.empty; rm_nodes m self_id = None;
        (d', n') = (d1, n1) \<or> cleanup_groups disk net self_id gs True d1 n1 = (d', n', r)\<rbrakk> \<Longrightarrow> thesis"
    show thesis
    proof (cases "\<exists>lm. gd_read disk d h = Inr (Some lm) \<and> self_id \<in> sd_nodes lm")
      case False
      then show thesis using Cons.prems *(1,2) by (fastforce split: sum.splits option.splits)
    next
      case True
      show thesis
      proof (cases "\<exists>m. remote = Some m \<and> rm_nodes m \<noteq> Map.empty \<and> rm_nodes m self_id = None")
        case out: True
        then obtain m where m: "remote = Some m" "rm_nodes m \<noteq> Map.empty" "rm_nodes m self_id = None" by blast
        show thesis by (rule *(4)[OF m]) (use Cons.prems True fetch removal m in \<open>auto split: sum.splits\<close>)
      next
        case False
        then show thesis using Cons.prems True fetch *(3) by (fastforce split: option.splits if_splits)
      qed
    qed
  qed
  then show ?case
  proof cases
    case stop
    then show ?thesis by simp
  next
    case skip
    then show ?thesis using Cons.IH by fastforce
  next
    case kept
    have one: "calls net n n1" using one by blast
    from Cons.IH[OF kept] show ?thesis using rtranclp_trans[OF one] evidence_later(3)[OF one] by auto
  next
    case removed
    have h: "removed_by_leader net self_id h n n1" using one removed by (auto simp: removed_by_leader_def)
    have other: "gd_read disk d1 g = gd_read disk d g" if "g \<noteq> h"
      using assms(1) that removal unfolding disk_ok_def by (metis fst_conv)
    show ?thesis
    proof (cases "(d', n') = (d1, n1)")
      case True
      then show ?thesis using one h other by auto
    next
      case False
      then have "cleanup_groups disk net self_id gs True d1 n1 = (d', n', r)" using removed(4) by blast
      note rest = Cons.IH[OF this]
      have one: "calls net n n1" using one by blast
      have "g = h \<or> gd_read disk d1 g = gd_read disk d g" using other by blast
      then show ?thesis
        using rest rtranclp_trans[OF one] evidence_later(3)[OF one] evidence_before(3)[of net n1 n' self_id h n] h by auto
    qed
  qed
qed simp

lemma verify_evidence:
  "verify_groups leads net self_id boot gs pending n = (n', out) \<Longrightarrow> calls net n n' \<and>
    (\<forall>g. out = EvictedFrom g \<longrightarrow> boot \<and> g \<in> set gs \<and> removed_by_leader net self_id g n n')"
proof (induction gs arbitrary: pending n)
  case (Cons h gs)
  obtain n1 r where fetch: "fetch_authoritative_group_metrics net h self_id n = (n1, r)" by fastforce
  note one = fetch_authoritative_reported[OF fetch]
  consider (skip) p where "verify_groups leads net self_id boot gs p n = (n', out)"
    | (asked) p where "verify_groups leads net self_id boot gs p n1 = (n', out)"
    | (evicted) m where "r = Some m" "boot" "rm_nodes m \<noteq> Map.empty" "rm_nodes m self_id = None" "n' = n1" "out = EvictedFrom h"
    using Cons.prems fetch
  proof -
    assume *: "\<And>p. verify_groups leads net self_id boot gs p n = (n', out) \<Longrightarrow> thesis"
      "\<And>p. verify_groups leads net self_id boot gs p n1 = (n', out) \<Longrightarrow> thesis"
      "\<And>m. \<lbrakk>r = Some m; boot; rm_nodes m \<noteq> Map.empty; rm_nodes m self_id = None; n' = n1; out = EvictedFrom h\<rbrakk> \<Longrightarrow> thesis"
    show thesis
    proof (cases "leads h = Some False")
      case False
      then show thesis using Cons.prems *(1) by (auto split: option.splits bool.splits)
    next
      case led: True
      show thesis
      proof (cases "\<exists>m. r = Some m \<and> boot \<and> rm_nodes m \<noteq> Map.empty \<and> rm_nodes m self_id = None")
        case True
        then show thesis using Cons.prems led fetch *(3) by auto
      next
        case False
        then show thesis using Cons.prems led fetch *(2) by (cases r) (auto split: if_splits)
      qed
    qed
  qed
  then show ?case
  proof cases
    case skip
    then show ?thesis using Cons.IH by fastforce
  next
    case asked
    have one: "calls net n n1" using one by blast
    from Cons.IH[OF asked] show ?thesis using rtranclp_trans[OF one] evidence_later(3)[OF one] by auto
  next
    case evicted
    then show ?thesis using one by (auto simp: removed_by_leader_def)
  qed
qed (auto split: if_splits)

section \<open>Watching\<close>

lemma promotion_evidence:
  "promotion_watch net self_id gs due events n = (n', out) \<Longrightarrow> calls net n n' \<and>
    (out = Some Promote \<longrightarrow> gs \<noteq> [] \<and> (\<forall>g\<in>set gs. \<exists>m. reported net self_id g m n n' \<and> self_id \<in> rm_voters m))"
proof (induction events arbitrary: due n)
  case (Cons ev events)
  obtain view e where ev: "ev = (view, e)" by fastforce
  obtain n1 found where check: "(if gossip_view_promotes_self view self_id gs \<or> due
      then remote_openraft_voters_contain_self net self_id gs n else (n, False)) = (n1, found)" by fastforce
  then have one: "calls net n n1 \<and> (found \<longrightarrow> gs \<noteq> [] \<and> (\<forall>g\<in>set gs. \<exists>m. reported net self_id g m n n1 \<and> self_id \<in> rm_voters m))"
    using voter_of_all_reported by (fastforce simp: remote_openraft_voters_contain_self_def split: if_splits)
  consider (found) "found" "n' = n1" "out = Some Promote" | (stop) "\<not> found" "n' = n1" "out = Some PromotionShutdown"
    | (further) due' where "promotion_watch net self_id gs due' events n1 = (n', out)"
    using Cons.prems check by (cases found; cases e) (auto simp: ev)
  then show ?case
  proof cases
    case found
    then show ?thesis using one by simp
  next
    case stop
    then show ?thesis using one by simp
  next
    case further
    have one: "calls net n n1" using one by blast
    from Cons.IH[OF further] show ?thesis using rtranclp_trans[OF one] evidence_later(1)[OF one] by blast
  qed
qed simp

text \<open>Consecutive rounds that each confirm the eviction, from \<open>n\<close> to \<open>n'\<close>.\<close>

fun confirmed_rounds :: "'n join_net \<Rightarrow> string \<Rightarrow> string list \<Rightarrow> nat \<Rightarrow> 'n \<Rightarrow> 'n \<Rightarrow> bool" where
  "confirmed_rounds net self_id gs 0 n n' \<longleftrightarrow> n = n'"
| "confirmed_rounds net self_id gs (Suc k) n n' \<longleftrightarrow>
     (\<exists>n1. confirmed_evicted_from_all_groups net self_id gs n = (n1, True) \<and> confirmed_rounds net self_id gs k n1 n')"

lemma demotion_rounds:
  assumes "demotion_watch net self_id gs leave c events n = (n', Some (Demoted r))" "c < CONTROL_DEMOTION_CONFIRMATIONS"
  shows "\<exists>m0 m1. (calls net n m0 \<and> confirmed_rounds net self_id gs CONTROL_DEMOTION_CONFIRMATIONS m0 m1 \<or>
      confirmed_rounds net self_id gs (CONTROL_DEMOTION_CONFIRMATIONS - c) n m1) \<and> leave m1 = (n', r)"
  using assms
proof (induction events arbitrary: c n)
  case (Cons ev events)
  show ?case
  proof (cases ev)
    case WatchTick
    obtain n1 found where check: "confirmed_evicted_from_all_groups net self_id gs n = (n1, found)" by fastforce
    have one: "calls net n n1" using confirmed_reported[OF check] by simp
    have left: "CONTROL_DEMOTION_CONFIRMATIONS - c = Suc (CONTROL_DEMOTION_CONFIRMATIONS - Suc c)" using Cons.prems(2) by simp
    show ?thesis
    proof (cases found)
      case False
      then have "demotion_watch net self_id gs leave 0 events n1 = (n', Some (Demoted r))" using Cons.prems(1) WatchTick check by simp
      then show ?thesis using Cons.IH[of 0 n1] one by (auto simp: CONTROL_DEMOTION_CONFIRMATIONS_def dest: rtranclp_trans)
    next
      case True
      show ?thesis
      proof (cases "c + 1 < CONTROL_DEMOTION_CONFIRMATIONS")
        case more: True
        then have "demotion_watch net self_id gs leave (Suc c) events n1 = (n', Some (Demoted r))"
          using Cons.prems(1) WatchTick check True by simp
        then obtain m0 m1 where "calls net n1 m0 \<and> confirmed_rounds net self_id gs CONTROL_DEMOTION_CONFIRMATIONS m0 m1 \<or>
            confirmed_rounds net self_id gs (CONTROL_DEMOTION_CONFIRMATIONS - Suc c) n1 m1" "leave m1 = (n', r)"
          using Cons.IH[of "Suc c" n1] more by auto
        then show ?thesis using check True one unfolding left by (auto dest: rtranclp_trans)
      next
        case last: False
        then have "leave n1 = (n', r)" using Cons.prems(1) WatchTick check True by (cases "leave n1") auto
        moreover have "CONTROL_DEMOTION_CONFIRMATIONS - Suc c = 0" using last by simp
        ultimately show ?thesis using check True unfolding left by auto
      qed
    qed
  qed (use Cons.prems(1) in simp)
qed simp

lemma watcher_rounds:
  assumes "run_control_demotion_watcher net self_id gs leave ticks n = (n', Some (Demoted r))"
  shows "\<exists>m0 m1. calls net n m0 \<and> confirmed_rounds net self_id gs 3 m0 m1 \<and> leave m1 = (n', r)"
  using demotion_rounds[OF assms[unfolded run_control_demotion_watcher_def]]
  by (auto simp: CONTROL_DEMOTION_CONFIRMATIONS_def)

section \<open>Roles\<close>

text \<open>C17: a node changes its role only on evidence that it collected in that very run, each change for
  itself. When the start wipes the store of a group, another node that led the group reported, in this
  start, a membership without this node. When the verification after the start ends a control node
  as evicted, the same holds for the group it names. When a worker is promoted, other nodes reported
  it as a voter of every group during the watch, whatever the gossip said. When a control node gives
  up its role while it runs, three checks in a row, the last one just before, each found for every group
  a leader that does not count it among the voters.\<close>

theorem role_changes_justified:
  assumes "disk_ok disk"
  shows "(cleanup_removed_local_groups disk net self_id gs d n = (d', n', wiped) \<and> gd_read disk d' g \<noteq> gd_read disk d g \<longrightarrow>
      g \<in> set gs \<and> removed_by_leader net self_id g n n') \<and>
    (verify_poll leads net self_id boot gs n = (n', EvictedFrom g) \<longrightarrow>
      boot \<and> g \<in> set gs \<and> removed_by_leader net self_id g n n') \<and>
    (promotion_watch net self_id gs False views n = (n', Some Promote) \<longrightarrow>
      gs \<noteq> [] \<and> (\<forall>i\<in>set gs. \<exists>m. reported net self_id i m n n' \<and> self_id \<in> rm_voters m)) \<and>
    (run_control_demotion_watcher net self_id gs leave ticks n = (n', Some (Demoted r)) \<longrightarrow>
      (\<exists>m0 m1 m2 m3. calls net n m0 \<and> leave m3 = (n', r) \<and>
        (\<forall>(a, b)\<in>{(m0, m1), (m1, m2), (m2, m3)}. \<forall>i\<in>set gs. \<exists>m. leader_reported net self_id i m a b \<and> self_id \<notin> rm_voters m)))"
proof (intro conjI impI)
  assume demoted: "run_control_demotion_watcher net self_id gs leave ticks n = (n', Some (Demoted r))"
  obtain m0 m3 where "calls net n m0" "confirmed_rounds net self_id gs 3 m0 m3" "leave m3 = (n', r)"
    using watcher_rounds[OF demoted] by blast
  then obtain m1 m2 where rounds: "confirmed_evicted_from_all_groups net self_id gs m0 = (m1, True)"
      "confirmed_evicted_from_all_groups net self_id gs m1 = (m2, True)"
      "confirmed_evicted_from_all_groups net self_id gs m2 = (m3, True)" "calls net n m0" "leave m3 = (n', r)"
    by (auto simp: numeral_3_eq_3)
  show "\<exists>m0 m1 m2 m3. calls net n m0 \<and> leave m3 = (n', r) \<and>
      (\<forall>(a, b)\<in>{(m0, m1), (m1, m2), (m2, m3)}. \<forall>i\<in>set gs. \<exists>m. leader_reported net self_id i m a b \<and> self_id \<notin> rm_voters m)"
    using rounds(1-3)[THEN confirmed_reported] rounds(4,5)
    by (intro exI[of _ m0] exI[of _ m1] exI[of _ m2] exI[of _ m3]) simp
next
  assume "cleanup_removed_local_groups disk net self_id gs d n = (d', n', wiped) \<and> gd_read disk d' g \<noteq> gd_read disk d g"
  then show "g \<in> set gs" "removed_by_leader net self_id g n n'"
    using cleanup_evidence[OF assms, of net self_id gs False d n d' n' wiped g] by (simp_all add: cleanup_removed_local_groups_def)
next
  assume "verify_poll leads net self_id boot gs n = (n', EvictedFrom g)"
  then show "boot" "g \<in> set gs" "removed_by_leader net self_id g n n'"
    using verify_evidence[of leads net self_id boot gs "[]" n n'] by (simp_all add: verify_poll_def)
next
  assume promoted: "promotion_watch net self_id gs False views n = (n', Some Promote)"
  show "gs \<noteq> []" "\<forall>i\<in>set gs. \<exists>m. reported net self_id i m n n' \<and> self_id \<in> rm_voters m"
    using promotion_evidence[OF promoted] by simp_all
qed

text \<open>Two networks of one other node, which leads every group: in one the node \<open>me\<close> has been removed, in the
  other it is a voter.\<close>

definition one_peer :: "string set \<Rightarrow> (string \<Rightarrow> string option) \<Rightarrow> unit join_net" where
  "one_peer voters nodes =
     \<lparr>jn_request = (\<lambda>t g op n. (n, Inr (MetricsReply \<lparr>rm_id = t, rm_is_leader = True, rm_current_leader = Some t, rm_voters = voters,
        rm_nodes = nodes, rm_last_log_index = None, rm_replication = None\<rparr>))),
      jn_register = (\<lambda>_ _ n. n), jn_known = (\<lambda>_. [''me'', ''L''])\<rparr>"

definition map_disk :: "(string \<Rightarrow> stored_membership option) group_disk" where
  "map_disk = \<lparr>gd_read = (\<lambda>d g. Inr (d g)), gd_remove = (\<lambda>g d. (d(g := None), Inr ()))\<rparr>"

lemma map_disk_ok: "disk_ok map_disk"
  by (simp add: disk_ok_def map_disk_def)

theorem role_changes_justified_witness:
  "removed_by_leader (one_peer {''L''} [''L'' \<mapsto> ''x'']) ''me'' ''g'' () () \<and>
    (\<exists>m. reported (one_peer {''me''} [''me'' \<mapsto> ''y'']) ''me'' ''g'' m () () \<and> ''me'' \<in> rm_voters m) \<and>
    (\<exists>m. leader_reported (one_peer {''L''} [''L'' \<mapsto> ''x'']) ''me'' ''g'' m () () \<and> ''me'' \<notin> rm_voters m)"
proof -
  let ?net = "one_peer {''L''} [''L'' \<mapsto> ''x'']" and ?d = "[''g'' \<mapsto> \<lparr>sd_nodes = {''me''}, sd_voters = {''me''}\<rparr>]"
  note fetch = fetch_authoritative_group_metrics_def fetch_remote_group_metrics_def fetch_group_metrics_inner_def one_peer_def
  have wipe: "cleanup_removed_local_groups map_disk ?net ''me'' [''g''] ?d () = (Map.empty, (), Inr True)"
    "gd_read map_disk Map.empty ''g'' \<noteq> gd_read map_disk ?d ''g''"
    by (simp_all add: cleanup_removed_local_groups_def fetch map_disk_def)
  have verify: "verify_poll [''g'' \<mapsto> False] ?net ''me'' True [''g''] () = ((), EvictedFrom ''g'')"
    by (simp add: verify_poll_def fetch)
  have promote: "promotion_watch (one_peer {''me''} [''me'' \<mapsto> ''y'']) ''me'' [''g''] False
      [(Map.empty, FallbackTick), (Map.empty, ViewChanged)] () = ((), Some Promote)"
    by (simp add: gossip_view_promotes_self_def remote_openraft_voters_contain_self_def fetch)
  have demote: "run_control_demotion_watcher ?net ''me'' [''g''] (\<lambda>n. (n, Inr ())) [WatchTick, WatchTick, WatchTick] () = ((), Some (Demoted (Inr ())))"
    by (simp add: run_control_demotion_watcher_def CONTROL_DEMOTION_CONFIRMATIONS_def fetch)
  note just = role_changes_justified[OF map_disk_ok]
  have "removed_by_leader ?net ''me'' ''g'' () ()"
    using just[THEN conjunct1, rule_format, OF conjI, OF wipe] by simp
  moreover have "\<exists>m. reported (one_peer {''me''} [''me'' \<mapsto> ''y'']) ''me'' ''g'' m () () \<and> ''me'' \<in> rm_voters m"
    using just[THEN conjunct2, THEN conjunct2, THEN conjunct1, rule_format, OF promote] by simp
  moreover have "\<exists>m. leader_reported ?net ''me'' ''g'' m () () \<and> ''me'' \<notin> rm_voters m"
    using just[THEN conjunct2, THEN conjunct2, THEN conjunct2, rule_format, OF demote] by simp
  ultimately show ?thesis by blast
qed

section \<open>Learners, announcements and the command line\<close>

text \<open>An evicted node stops asking to be a learner only when for every group another node accepted it.\<close>

lemma learner_redirects_accepted:
  "learner_redirects net debug self_id addr g left t le n = (n', Inr ()) \<Longrightarrow> t \<noteq> self_id \<Longrightarrow>
    \<exists>u n0 n1 resp. u \<noteq> self_id \<and> jn_request net u g (AddLearnerOp self_id addr) n0 = (n1, Inr (LearnerReply resp)) \<and> lr_ok resp"
proof (induction left arbitrary: t n)
  case (Suc left)
  obtain n1 r where req: "jn_request net t g (AddLearnerOp self_id addr) n = (n1, r)" by fastforce
  show ?case using Suc req by (fastforce split: sum.splits rpc_reply.splits if_splits option.splits)
qed simp

lemma learner_targets_accepted:
  "learner_targets net debug self_id addr g ts le n = (n', Inr ()) \<Longrightarrow>
    \<exists>u n0 n1 resp. u \<noteq> self_id \<and> jn_request net u g (AddLearnerOp self_id addr) n0 = (n1, Inr (LearnerReply resp)) \<and> lr_ok resp"
  by (induction ts arbitrary: le n)
    (auto simp del: learner_redirects.simps split: if_splits prod.splits sum.splits dest!: learner_redirects_accepted)

lemma registered_learner_accepted:
  "register_self_as_learner net debug self_id cns addr gs n = (n', Inr ()) \<Longrightarrow> g \<in> set gs \<Longrightarrow>
    \<exists>u n0 n1 resp. u \<noteq> self_id \<and> jn_request net u g (AddLearnerOp self_id addr) n0 = (n1, Inr (LearnerReply resp)) \<and> lr_ok resp"
proof (induction gs arbitrary: n)
  case (Cons h gs)
  obtain n1 where one: "register_self_as_group_learner net debug self_id cns h addr n = (n1, Inr ())"
    "register_self_as_learner net debug self_id cns addr gs n1 = (n', Inr ())"
    using Cons.prems(1) by (auto split: prod.splits sum.splits)
  obtain r where "learner_targets net debug self_id addr h cns None n = (n1, r)" "map_err id r = Inr () \<or> r = Inr ()"
    using one(1) by (cases "learner_targets net debug self_id addr h cns None n"; cases "snd (learner_targets net debug self_id addr h cns None n)")
      (auto simp: register_self_as_group_learner_def)
  then have "learner_targets net debug self_id addr h cns None n = (n1, Inr ())" by (cases r) auto
  then show ?case using learner_targets_accepted Cons.IH one(2) Cons.prems(2) by fastforce
qed simp

text \<open>A leader announces a group exactly when its membership is another one than it last announced in this
  leadership or the last announcement is half a minute old; other nodes announce nothing.\<close>

definition announced_index :: "group_view \<Rightarrow> u64" where
  "announced_index v = (case gw_membership_index v of Some i \<Rightarrow> i | None \<Rightarrow> 0)"

definition announcement_due :: "nat \<Rightarrow> published \<Rightarrow> string \<Rightarrow> group_view \<Rightarrow> bool" where
  "announcement_due now pub g v \<longleftrightarrow> gw_is_leader v \<and>
     (\<forall>index at. pub g = Some (index, at) \<longrightarrow> index \<noteq> announced_index v \<or> MEMBERSHIP_ANNOUNCE_REFRESH \<le> now - at)"

lemma announce_other: "g \<notin> fst ` set gs \<Longrightarrow> fst (announce_groups self_id now gs pub) g = pub g"
  by (induction gs arbitrary: pub) (auto simp: Let_def)

lemma announced_exactly:
  assumes "distinct (map fst gs)"
  shows "a \<in> set (snd (announce_groups self_id now gs pub)) \<longleftrightarrow>
    (\<exists>v. (ma_group_id a, v) \<in> set gs \<and> announcement_due now pub (ma_group_id a) v \<and>
       a = \<lparr>ma_group_id = ma_group_id a, ma_voter_ids = gw_voters v, ma_leader_id = self_id, ma_log_index = announced_index v\<rparr>)"
  using assms
proof (induction gs arbitrary: pub)
  case (Cons gv gs)
  obtain g v where gv: "gv = (g, v)" by fastforce
  have rest: "announcement_due now (pub(g := x)) h w = announcement_due now pub h w" if "(h, w) \<in> set gs" for h w x
    using that Cons.prems gv by (force simp: announcement_due_def)
  have due: "announcement_due now pub g v \<longleftrightarrow> gw_is_leader v \<and> \<not> (case pub g of
      Some (index, at) \<Rightarrow> index = announced_index v \<and> now - at < MEMBERSHIP_ANNOUNCE_REFRESH | None \<Rightarrow> False)"
    by (auto simp: announcement_due_def split: option.splits)
  have step: "announce_groups self_id now (gv # gs) pub =
      (if \<not> gw_is_leader v then announce_groups self_id now gs (pub(g := None))
       else if announcement_due now pub g v
       then apsnd (Cons \<lparr>ma_group_id = g, ma_voter_ids = gw_voters v, ma_leader_id = self_id, ma_log_index = announced_index v\<rparr>)
         (announce_groups self_id now gs (pub(g \<mapsto> (announced_index v, now))))
       else announce_groups self_id now gs pub)"
    unfolding due announced_index_def by (simp add: gv Let_def)
  define P where "P v \<longleftrightarrow> a = \<lparr>ma_group_id = ma_group_id a, ma_voter_ids = gw_voters v, ma_leader_id = self_id, ma_log_index = announced_index v\<rparr>" for v
  have IH: "a \<in> set (snd (announce_groups self_id now gs p)) \<longleftrightarrow> (\<exists>v. (ma_group_id a, v) \<in> set gs \<and> announcement_due now p (ma_group_id a) v \<and> P v)" for p
    using Cons.IH Cons.prems by (simp add: P_def)
  have later: "a \<in> set (snd (announce_groups self_id now gs (pub(g := x)))) \<longleftrightarrow>
      (\<exists>v. (ma_group_id a, v) \<in> set gs \<and> announcement_due now pub (ma_group_id a) v \<and> P v)" for x
    unfolding IH using rest by blast
  have "a \<in> set (snd (announce_groups self_id now (gv # gs) pub)) \<longleftrightarrow>
      (ma_group_id a = g \<and> announcement_due now pub g v \<and> P v) \<or> (\<exists>v. (ma_group_id a, v) \<in> set gs \<and> announcement_due now pub (ma_group_id a) v \<and> P v)"
  proof (cases "announcement_due now pub g v")
    case True
    then have "gw_is_leader v" by (simp add: announcement_due_def)
    moreover have "a = \<lparr>ma_group_id = g, ma_voter_ids = gw_voters v, ma_leader_id = self_id, ma_log_index = announced_index v\<rparr> \<longleftrightarrow>
        ma_group_id a = g \<and> P v" by (auto simp: P_def)
    ultimately show ?thesis using True unfolding step by (simp add: later del: fun_upd_apply)
  next
    case False
    then show ?thesis unfolding step using later[of None] IH[of pub] by simp
  qed
  then show ?case unfolding P_def gv by auto
qed simp

end
