(* ===== verification/NodeShutdown.thy ===== *)
theory NodeShutdown
  imports NodeRoles "HOL-Library.Multiset"
begin

text \<open>
  How a node ends: the table of services and their results in \<open>signal.rs\<close>, and in \<open>app/mod.rs\<close>,
  \<open>app/control_services.rs\<close> and \<open>app/worker_services.rs\<close> the ends of the service loops, the phases of
  the graceful shutdown and the errors they gather. A service reports its result through a oneshot
  channel; a sender that is dropped reports none, as when the task of the service panics.
\<close>

section \<open>Services\<close>

datatype completion = Completed "unit result" | SenderDropped

text \<open>The \<open>BTreeMap\<close> of services as the ordered list of their names. Registering a name twice panics.\<close>

definition push_service :: "string \<Rightarrow> string list \<Rightarrow> string list option" where
  "push_service svc services = (if svc \<in> set services then None else Some (insort svc services))"

fun wait_result :: "completion \<Rightarrow> unit result" where
  "wait_result (Completed r) = r"
| "wait_result SenderDropped = Inl ''task exited without result''"

text \<open>The results in the order in which the channels report; None while a service is outstanding.\<close>

fun await_all :: "string list \<Rightarrow> (string \<times> completion) list \<Rightarrow> (string \<times> unit result) list \<Rightarrow> (string \<times> unit result) list option" where
  "await_all [] reports results = Some results"
| "await_all (p # ps) [] results = None"
| "await_all (p # ps) ((name, done) # reports) results =
     (if name \<in> set (p # ps) then await_all (remove1 name (p # ps)) reports (results @ [(name, wait_result done)])
      else await_all (p # ps) reports results)"

definition shutdown_services :: "string list \<Rightarrow> (string \<times> completion) list \<Rightarrow> (string \<times> unit result) list option" where
  "shutdown_services services reports = await_all services reports []"

text \<open>The poll of \<open>await_any_then_shutdown\<close>: the signal first, then the channels in the order of the names.\<close>

fun first_ready :: "(string \<Rightarrow> completion option) \<Rightarrow> string list \<Rightarrow> (string \<times> unit result) option" where
  "first_ready ready [] = None"
| "first_ready ready (s # ss) =
     (case ready s of Some done \<Rightarrow> Some (s, case done of Completed r \<Rightarrow> r | SenderDropped \<Rightarrow> Inr ()) | None \<Rightarrow> first_ready ready ss)"

definition poll_services :: "bool \<Rightarrow> (string \<Rightarrow> completion option) \<Rightarrow> string list \<Rightarrow> (string \<times> unit result) option" where
  "poll_services signalled ready services = (if signalled then Some ([], Inr ()) else first_ready ready services)"

text \<open>After the first end: whether the others are told to stop, and all results.\<close>

definition after_first_end ::
  "string \<times> unit result \<Rightarrow> string list \<Rightarrow> (string \<times> completion) list \<Rightarrow> bool \<times> (string \<times> unit result) list option" where
  "after_first_end first services reports =
     (case first of (which, res) \<Rightarrow>
        if which \<noteq> [] then (True, await_all (remove1 which services) reports [(which, res)])
        else (False, await_all services reports []))"

section \<open>Gathering errors\<close>

definition error_lines :: "string list \<Rightarrow> string" where
  "error_lines errors = concat (map (\<lambda>e. ''  '' @ e @ [CHR 0x0A]) errors)"

definition failed_services :: "(string \<times> unit result) list \<Rightarrow> (string \<times> string) list" where
  "failed_services results = List.map_filter (\<lambda>(service, res). case res of Inl err \<Rightarrow> Some (service, err) | Inr _ \<Rightarrow> None) results"

definition collect_shutdown_errors :: "string \<Rightarrow> (string \<times> unit result) list \<Rightarrow> unit result" where
  "collect_shutdown_errors label results =
     (case failed_services results of
        [] \<Rightarrow> Inr ()
      | [(service, err)] \<Rightarrow> Inl (label @ '' error in '' @ service @ '': '' @ err)
      | errors \<Rightarrow> Inl (label @ '' encountered '' @ show_nat (length errors) @ '' errors:'' @ [CHR 0x0A] @
          error_lines (map (\<lambda>(service, err). service @ '': '' @ err) errors)))"

definition combine_errors :: "string \<Rightarrow> string list \<Rightarrow> unit result" where
  "combine_errors label errors =
     (case errors of
        [] \<Rightarrow> Inr ()
      | [err] \<Rightarrow> Inl err
      | _ \<Rightarrow> Inl (label @ '' encountered '' @ show_nat (length errors) @ '' errors:'' @ [CHR 0x0A] @ error_lines errors))"

text \<open>The end of the control services.\<close>

definition control_services_result :: "(string \<times> unit result) list \<Rightarrow> unit result" where
  "control_services_result results =
     (case map (\<lambda>(service, err). ''control service failed in '' @ service @ '': '' @ err) (failed_services results) of
        [] \<Rightarrow> Inr ()
      | [err] \<Rightarrow> Inl err
      | errors \<Rightarrow> Inl (''control service errors: '' @ show_nat (length errors) @ [CHR 0x0A] @ error_lines errors))"

section \<open>The graceful shutdown\<close>

datatype group_shutdown = GroupDown | GroupFailed string | GroupTimedOut | GroupPanicked string

definition group_shutdown_error :: "string \<times> group_shutdown \<Rightarrow> string option" where
  "group_shutdown_error = (\<lambda>(group_id, e). case e of
      GroupDown \<Rightarrow> None
    | GroupFailed err \<Rightarrow> Some (''openraft group '' @ group_id @ '' shutdown failed: '' @ err)
    | GroupTimedOut \<Rightarrow> Some (''openraft group '' @ group_id @ '' shutdown timed out after 10s'')
    | GroupPanicked err \<Rightarrow> Some (''openraft group shutdown task panicked: '' @ err))"

text \<open>None: the groups were never started.\<close>

definition shutdown_openraft_groups :: "(string \<times> group_shutdown) list option \<Rightarrow> unit result" where
  "shutdown_openraft_groups ends =
     (case ends of
        None \<Rightarrow> Inr ()
      | Some gs \<Rightarrow> (case List.map_filter group_shutdown_error gs of
            [] \<Rightarrow> Inr ()
          | [err] \<Rightarrow> Inl err
          | errors \<Rightarrow> Inl (''openraft shutdown errors: '' @ show_nat (length errors) @ [CHR 0x0A] @ error_lines errors)))"

record 'w shutdown_phases =
  ph_leave_kad :: "'w \<Rightarrow> 'w \<times> unit result"
  ph_stop_swarm :: "'w \<Rightarrow> 'w \<times> (string \<times> unit result) list"
  ph_join_swarm :: "'w \<Rightarrow> 'w \<times> unit result"
  ph_stop_groups :: "'w \<Rightarrow> 'w \<times> (string \<times> group_shutdown) list option"

definition error_of :: "unit result \<Rightarrow> string list" where
  "error_of r = (case r of Inl err \<Rightarrow> [err] | Inr _ \<Rightarrow> [])"

definition run_graceful_shutdown :: "'w shutdown_phases \<Rightarrow> 'w \<Rightarrow> 'w \<times> unit result" where
  "run_graceful_shutdown ph w =
     (let (w1, left) = ph_leave_kad ph w;
          (w2, results) = ph_stop_swarm ph w1;
          (w3, joined) = ph_join_swarm ph w2;
          (w4, groups) = ph_stop_groups ph w3;
          errors = error_of left @ error_of (collect_shutdown_errors ''libp2p shutdown'' results) @
            error_of (map_err (\<lambda>err. ''libp2p swarm task failed: '' @ err) joined) @ error_of (shutdown_openraft_groups groups) in
      (w4, combine_errors ''graceful shutdown'' errors))"

text \<open>The end of the program: the service loop, then the shutdown in any case.\<close>

definition end_of_run :: "'w shutdown_phases \<Rightarrow> 'w \<Rightarrow> unit result \<Rightarrow> 'w \<times> unit result" where
  "end_of_run ph w service_result =
     (case run_graceful_shutdown ph w of (w1, graceful) \<Rightarrow>
        (w1, combine_errors ''application shutdown''
          (error_of (map_err (\<lambda>err. ''service loop failed: '' @ err) service_result) @ error_of graceful)))"

section \<open>From worker to control node\<close>

text \<open>What \<open>run_worker_services_until_promotion\<close> returns, by the watcher that ends first and the results of
  the worker's services. After \<open>ControlFull\<close> the promotion watcher decides; its end is the argument.\<close>

datatype first_watcher = PromotionEnds promotion_watch_result | JoinEnds control_join_watch_result promotion_watch_result | ServicesEnd

definition worker_services_end :: "first_watcher \<Rightarrow> (string \<times> unit result) list \<Rightarrow> control_join_watch_result result" where
  "worker_services_end first results =
     rbind (collect_shutdown_errors ''worker'' results) (\<lambda>_. Inr (case first of
        PromotionEnds Promote \<Rightarrow> AlreadyControl
      | PromotionEnds PromotionShutdown \<Rightarrow> JoinShutdown
      | JoinEnds JoinedControl _ \<Rightarrow> JoinedControl
      | JoinEnds AlreadyControl _ \<Rightarrow> JoinedControl
      | JoinEnds ControlFull Promote \<Rightarrow> AlreadyControl
      | JoinEnds ControlFull PromotionShutdown \<Rightarrow> JoinShutdown
      | JoinEnds JoinShutdown _ \<Rightarrow> JoinShutdown
      | ServicesEnd \<Rightarrow> JoinShutdown))"

text \<open>The application runs the control services afterwards exactly for two of the results.\<close>

definition becomes_control :: "control_join_watch_result result \<Rightarrow> bool" where
  "becomes_control r = (case r of Inr JoinedControl \<Rightarrow> True | Inr AlreadyControl \<Rightarrow> True | _ \<Rightarrow> False)"

definition default_openraft_group_id :: "string list option \<Rightarrow> string" where
  "default_openraft_group_id registered =
     (case registered of
        None \<Rightarrow> USERS
      | Some ids \<Rightarrow> if USERS \<in> set ids then USERS else (case ids of i # _ \<Rightarrow> i | [] \<Rightarrow> USERS))"

section \<open>Every service is waited for\<close>

text \<open>When every service reports, waiting ends with exactly one result per service, its first report.\<close>

theorem await_all_complete:
  assumes "distinct services" "set services \<subseteq> fst ` set reports"
  shows "\<exists>rs. await_all services reports results = Some (results @ rs) \<and> mset (map fst rs) = mset services \<and>
    (\<forall>(name, r) \<in> set rs. \<exists>c. map_of reports name = Some c \<and> r = wait_result c)"
  using assms
proof (induction reports arbitrary: services results)
  case Nil
  then show ?case by simp
next
  case (Cons report reports)
  obtain name c where report: "report = (name, c)" by fastforce
  show ?case
  proof (cases "name \<in> set services")
    case True
    then obtain p ps where services: "services = p # ps" by (cases services) auto
    have "distinct (remove1 name services)" "set (remove1 name services) \<subseteq> fst ` set reports"
      using Cons.prems report by (auto simp: distinct_remove1 set_remove1_eq)
    then obtain rs where rs: "await_all (remove1 name services) reports (results @ [(name, wait_result c)]) = Some ((results @ [(name, wait_result c)]) @ rs)"
      "mset (map fst rs) = mset (remove1 name services)"
      "\<forall>(n, r) \<in> set rs. \<exists>c. map_of reports n = Some c \<and> r = wait_result c"
      using Cons.IH[of "remove1 name services" "results @ [(name, wait_result c)]"] by blast
    have "set (map fst rs) = set (remove1 name services)" using rs(2) mset_eq_setD by blast
    then have "name \<notin> fst ` set rs" using Cons.prems(1) by (simp add: set_remove1_eq)
    then have "\<forall>(n, r) \<in> set ((name, wait_result c) # rs). \<exists>d. map_of (report # reports) n = Some d \<and> r = wait_result d"
      using rs(3) report by force
    moreover have "mset (map fst ((name, wait_result c) # rs)) = mset services" using rs(2) True by simp
    moreover have "await_all services (report # reports) results = Some (results @ (name, wait_result c) # rs)"
      using rs(1) True by (simp add: services report)
    ultimately show ?thesis by blast
  next
    case False
    show ?thesis
    proof (cases services)
      case (Cons p ps)
      have "set services \<subseteq> fst ` set reports" using Cons.prems(2) False report by auto
      then obtain rs where rs: "await_all services reports results = Some (results @ rs)" "mset (map fst rs) = mset services"
        "\<forall>(n, r) \<in> set rs. \<exists>c. map_of reports n = Some c \<and> r = wait_result c"
        using Cons.IH Cons.prems(1) by blast
      have "set (map fst rs) = set services" using rs(2) mset_eq_setD by blast
      then have "\<forall>(n, r) \<in> set rs. n \<noteq> name" using False by force
      then show ?thesis using rs False Cons report by (fastforce split: prod.splits)
    qed simp
  qed
qed

text \<open>A handler that waits after a first end does not wait for that service again.\<close>

lemma first_end_consumed:
  assumes "distinct services" "which \<in> set services" "which \<noteq> []" "set services - {which} \<subseteq> fst ` set reports"
  shows "\<exists>rs. after_first_end (which, res) services reports = (True, Some ((which, res) # rs)) \<and>
    mset (which # map fst rs) = mset services"
proof -
  have "distinct (remove1 which services)" "set (remove1 which services) \<subseteq> fst ` set reports"
    using assms by (auto simp: set_remove1_eq)
  then show ?thesis using await_all_complete[of "remove1 which services" reports "[(which, res)]"] assms(2,3)
    by (auto simp: after_first_end_def)
qed

lemma failed_services_none: "failed_services results = [] \<longleftrightarrow> (\<forall>(s, r) \<in> set results. \<exists>u. r = Inr u)"
  by (induction results) (auto simp: failed_services_def map_filter_simps split: sum.splits)

lemma collect_ok: "collect_shutdown_errors label results = Inr () \<longleftrightarrow> (\<forall>(s, r) \<in> set results. r = Inr ())"
  using failed_services_none[of results] by (auto simp: collect_shutdown_errors_def split: list.splits)

lemma control_services_ok: "control_services_result results = Inr () \<longleftrightarrow> (\<forall>(s, r) \<in> set results. r = Inr ())"
  using failed_services_none[of results] by (auto simp: control_services_result_def split: list.splits)

lemma combine_ok: "combine_errors label errors = Inr () \<longleftrightarrow> errors = []"
  by (auto simp: combine_errors_def split: list.splits)

text \<open>The four phases run in every case, in their order, and the shutdown succeeds exactly when all did.\<close>

lemma graceful_shutdown_exact:
  assumes "ph_leave_kad ph w = (w1, left)" "ph_stop_swarm ph w1 = (w2, results)" "ph_join_swarm ph w2 = (w3, joined)"
    "ph_stop_groups ph w3 = (w4, ends)"
  shows "fst (run_graceful_shutdown ph w) = w4 \<and>
    (snd (run_graceful_shutdown ph w) = Inr () \<longleftrightarrow> left = Inr () \<and> (\<forall>(s, r) \<in> set results. r = Inr ()) \<and> joined = Inr () \<and>
       (\<forall>gs. ends = Some gs \<longrightarrow> (\<forall>(g, e) \<in> set gs. e = GroupDown)))"
proof -
  have none: "error_of r = [] \<longleftrightarrow> r = Inr ()" for r :: "unit result" by (cases r) (simp_all add: error_of_def)
  have down: "List.map_filter group_shutdown_error gs = [] \<longleftrightarrow> (\<forall>(g, e) \<in> set gs. e = GroupDown)" for gs
    by (induction gs) (auto simp: group_shutdown_error_def map_filter_simps split: group_shutdown.splits)
  have "shutdown_openraft_groups ends = Inr () \<longleftrightarrow> (\<forall>gs. ends = Some gs \<longrightarrow> List.map_filter group_shutdown_error gs = [])"
    by (auto simp: shutdown_openraft_groups_def split: option.splits list.splits)
  then have "shutdown_openraft_groups ends = Inr () \<longleftrightarrow> (\<forall>gs. ends = Some gs \<longrightarrow> (\<forall>(g, e) \<in> set gs. e = GroupDown))"
    by (simp only: down)
  moreover have "map_err f r = Inr () \<longleftrightarrow> r = Inr ()" for f :: "string \<Rightarrow> string" and r :: "unit result" by (cases r) simp_all
  ultimately show ?thesis using assms by (simp add: run_graceful_shutdown_def combine_ok none collect_ok)
qed

text \<open>A service that panics is an error when the others are waited for, but a success when it is the first to
  end: the control services then return without an error.\<close>

lemma first_panic_hidden:
  "poll_services False [''http'' \<mapsto> SenderDropped] [''http'', ''leader''] = Some (''http'', Inr ())"
  "after_first_end (''http'', Inr ()) [''http'', ''leader''] [(''leader'', Completed (Inr ()))] = (True, Some [(''http'', Inr ()), (''leader'', Inr ())])"
  "control_services_result [(''http'', Inr ()), (''leader'', Inr ())] = Inr ()"
  "control_services_result [(''http'', wait_result SenderDropped), (''leader'', Inr ())] \<noteq> Inr ()"
  by (simp_all add: poll_services_def after_first_end_def control_services_ok)

end
