(* ===== verification/Spec2Isabelle.thy ===== *)
theory Spec2Isabelle
  imports TaskClaims StateMachineClaims SchedulerClaims NetworkClaims ClusterClaims WorkerClaims SwarmClaims NodeClaims
    WasmClaims LeaderWorks AddressClaims MembershipClaims StoreClaims CacheClaims HandlerClaims CompileClaims RpcClaims TaskApiClaims
    RoleClaims NodeShutdown
begin

text \<open>
  \<^bold>\<open>The raft-replicated task queue.\<close> This library verifies the program of
  \<open>src/openraft_workspace_example/openraft_libp2p_cluster\<close>. File names below are relative to its
  \<open>src\<close> directory. The other crates of the repository are independent examples.

  \<^bold>\<open>The program.\<close> Control nodes run one raft group per shard. A group replicates a key-value
  store in RocksDB; the keys under \<open>task:\<close> hold a task queue with its indexes. The log store
  persists the raft log, the state machine applies committed entries to the data, and snapshots
  carry the data to nodes that are behind, on disk and by gossip. On the leader a scheduler scans
  the indexes, takes tasks away from lost workers and assigns due ones; worker nodes claim a task,
  run its handler and acknowledge the result, all as replicated commands. A membership guard on the
  leader replaces members that stay unreachable, and a leader controller starts and stops this work
  with the leadership. Nodes talk over libp2p: an event loop owns the connections and the callers
  that wait for answers, a guard limits and breaks outbound calls, and task handlers that are WASM
  modules spread from node to node in verified chunks. Settings can be changed while a node runs.

  \<^bold>\<open>Theories and sources.\<close> Every theory states the data of its source files as records and
  datatypes, then one definition per function, in the order of the code, then the lemmas.

  \<^item> \<open>Prelude\<close>, \<open>OrderedStore\<close>: machine integers (Rust's \<open>u8\<close> to \<open>u64\<close> as words), saturating
    arithmetic, results with an error branch, the string functions the code uses; column families
    and \<open>BTreeMap\<close>s as sorted association lists. The locales \<open>ordered_store\<close> (what a get returns
    after a put, a delete and a batch), \<open>invariant_machine\<close> (a step function and what it keeps) and
    \<open>simulation\<close> (a refinement of a specification machine) are interpreted by the components.
  \<^item> \<open>TaskKeys\<close> (\<open>tasks/keys.rs\<close>), \<open>TaskRecords\<close> (\<open>tasks/records.rs\<close>, \<open>types_kv.rs\<close>), \<open>TaskApply\<close>
    (\<open>tasks/apply.rs\<close>): the key space, the records, the metrics and the ten handlers. \<open>TaskQueue\<close>
    has the invariant \<open>queue_inv\<close> (records, indexes, idempotency keys and leases agree) and the
    abstract queue, \<open>TaskRefinement\<close> proves each handler against it, \<open>TaskProperties\<close> lifts this to
    logs of commands, \<open>TaskIndex\<close> to prefix scans. Properties C1 to C7 and C22 in \<open>TaskClaims\<close>: refinement,
    consistency from the empty store, the status graph, the commit point, fencing of stale leases,
    claims bounded by assignments, deduplication, exact vacuum; \<open>lease_pair_reused\<close> shows why a lease
    fences only until its pair is assigned again.
  \<^item> \<open>LogStore\<close> (\<open>rocksstore_crud/log_store.rs\<close>): appends, truncation, purge, vote, commit mark and
    range reads on two column families. C9 in \<open>LogClaims\<close>: the database refines a map from
    indexes to entries; lemmas there show that range reads are exact and ordered and that the log
    state is right.
  \<^item> \<open>StoreCheck\<close> (the integrity check of \<open>store.rs\<close>), \<open>StoreHistory\<close>: the check a node runs when it
    opens a group, and the histories (\<open>log_history\<close>) of log operations openraft drives. C10 and C11
    in \<open>StoreClaims\<close>: the check accepts every log such a history leaves, and the errors it reports
    are exactly the gaps, the disorder and the bounds it means to report.
  \<^item> \<open>StateMachine\<close>, \<open>StateMachineQueue\<close>, \<open>Snapshots\<close> (\<open>rocksstore_crud/state_machine.rs\<close>): batched
    application with its overlay of pending writes, the memory map, building, writing, choosing,
    installing, recovering and pruning snapshots. C13 to C16 and C18 in \<open>StateMachineClaims\<close>: replicas
    converge however the entries are batched, entries run the abstract queue as long as plain writes
    stay out of its keys, snapshots carry everything over, recovery never goes back, the newest snapshot is kept.
  \<^item> \<open>Scheduler\<close> (\<open>tasks/scheduler.rs\<close>): the pass over expired workers, due tasks and terminal tasks.
    C19 in \<open>SchedulerClaims\<close>: the exact effect of a pass; lemmas there on exact index scans, the
    two-phase view of workers, the retention pass and the metrics.
  \<^item> \<open>KvStore\<close> (\<open>store.rs\<close>: the secondary reader, the shared handle, persisted memberships),
    \<open>KvService\<close> (\<open>openraft_dispatcher.rs\<close>, \<open>http/kv.rs\<close>), \<open>SqliteFlush\<close> (\<open>sqlite_cache.rs\<close>,
    \<open>sqlite_sync_rpc.rs\<close>): the key-value requests of clients, their retries and their way to the
    leader, and the write-behind cache. C20, C21 and C23 in \<open>CacheClaims\<close>: a reply among concurrent
    clients is true of the store (with the bound on stale reads), HTTP replies have the documented shape,
    no cached write is lost once the flush reports it; \<open>kv_requests_refine\<close> is the case of one client
    and complete catch-ups, where requests refine a map.
  \<^item> \<open>PeerGuard\<close> (\<open>network/peer_guard.rs\<close>), \<open>SnapshotSync\<close>, \<open>SnapshotGossip\<close>
    (\<open>network/openraft_sync.rs\<close>): runs of the guard as the inductive relation \<open>guard_run\<close>; the
    binary metadata, the parts of a snapshot and a cluster that gossips them as the relation
    \<open>gossip\<close>, in which messages are lost, repeated and reordered. C24, C27
    and C28 in \<open>NetworkClaims\<close>: limits in every run, convergence of a transfer, integrity of every
    complete copy; lemmas give the circuit as a function of the history and the metadata round trip.
  \<^item> \<open>RpcCodec\<close> (\<open>network/proto_codec.rs\<close>, \<open>network/rpc.rs\<close>), \<open>RpcStack\<close> (\<open>network/swarm/client.rs\<close>,
    \<open>network/swarm/events/rpc.rs\<close>, \<open>network/openraft_dispatcher.rs\<close>, \<open>network/raft_bridge.rs\<close>),
    \<open>WireWitness\<close> (a concrete encoding): the envelope with its binary frame and size limits, the typed
    requests, the admission of inbound ones, the dispatch and the bridge openraft calls. C25 in
    \<open>RpcClaims\<close>: a raft call over the network is a call of openraft on the peer, or an error when a
    message is too long.
  \<^item> \<open>AddressBook\<close>, \<open>BookUpkeep\<close> (the address book of \<open>network/transport.rs\<close> and its use by
    \<open>network/swarm\<close>): which addresses, groups and leaders a node knows of its peers and when it
    forgets them. C12 and C32 in \<open>AddressClaims\<close>: gossiped views agree on index and voters whatever the
    order of the messages (\<open>new_leader_not_learned\<close>: not on the leader), pruning is justified by
    a history of absence; a lemma gives liveness as a function of the history.
  \<^item> \<open>NodeRoles\<close> (\<open>app/startup.rs\<close>, \<open>app/node_maintenance.rs\<close>, \<open>app/worker_services.rs\<close>,
    \<open>app/control_services.rs\<close>): the mode a node starts in, the data it wipes, the watchers that promote,
    join and demote it, the announcements of a leader. C17 in \<open>RoleClaims\<close>: wiping, eviction,
    promotion and demotion each rest on what other nodes reported in that very run.
    \<open>NodeShutdown\<close> (\<open>signal.rs\<close>, \<open>app/mod.rs\<close>): services, their results and the phases of the shutdown; every service is waited for.
  \<^item> \<open>MembershipGuard\<close> (\<open>membership_guard.rs\<close>): C29 in \<open>ClusterClaims\<close>, a change of the membership is
    always justified by the observations of the whole timeout. \<open>MembershipOps\<close>
    (\<open>http/membership.rs\<close>): adding, promoting, demoting, replacing and removing members. C30 and C36
    in \<open>MembershipClaims\<close>: the wait for a learner ends, and a request that succeeds changed the
    membership as it was asked to, and one that fails leaves at worst a joint configuration.
  \<^item> \<open>TaskService\<close> (\<open>tasks/rpc.rs\<close>, \<open>tasks/mod.rs\<close>, the read and write paths of \<open>store.rs\<close>), \<open>Worker\<close>
    (\<open>tasks/worker.rs\<close>): C31 in \<open>WorkerClaims\<close>, a round of a worker through the redirect
    loop, the service and the state machine, with any commands applied while the handler runs; a lemma on
    the retry delay.
  \<^item> \<open>TaskApi\<close> (\<open>tasks/api.rs\<close>, \<open>http/task.rs\<close>, the envelope of \<open>tasks/rpc.rs\<close>): the facade of the
    frontends and the HTTP endpoints. C26 in \<open>TaskApiClaims\<close>: an endpoint on any node submits, replays
    and lists exactly, and only the leader's node answers a listing; lemmas on what the doors let
    through.
  \<^item> \<open>Handlers\<close> (\<open>tasks/handlers.rs\<close>): payloads, the commit mark and the six handlers, as programs
    that stop at every call, act and sleep, so that other nodes can act in between. \<open>WorkerRuns\<close>: all
    workers, the scheduler, clients and crashes as the relation \<open>worker_run\<close>. C8 in \<open>HandlerClaims\<close>: a
    task acts on the world at most once in every interleaving in which no plain write hits the keys of tasks.
  \<^item> \<open>WasmCache\<close> (the engine part of \<open>tasks/wasm_runtime.rs\<close>): compilation, the bounded cache of compiled
    modules, sandbox settings and batches. C33 in \<open>CompileClaims\<close>: the cache keeps its limits and
    answers with the module that was asked for, however look-ups interleave.
  \<^item> \<open>Swarm\<close> (\<open>network/swarm/state.rs\<close>, \<open>commands.rs\<close>, \<open>dial.rs\<close>, \<open>reconnect.rs\<close>, \<open>events/*.rs\<close>): the
    event loop as the relation \<open>swarm_run\<close>. C34 and C40 in \<open>SwarmClaims\<close>: the connection budget, and
    every caller answered exactly once, counted with multisets, with the exact condition of a dial.
  \<^item> \<open>RuntimeConfig\<close> (\<open>runtime_config.rs\<close>): C35 in \<open>NodeClaims\<close>, patches one after the other keep the
    settings valid, with every field written out; a lemma shows that interleaved ones may not.
  \<^item> \<open>WasmManifest\<close>, \<open>WasmServe\<close> (\<open>wasm_sync/mod.rs\<close>, the module store of \<open>tasks/wasm_runtime.rs\<close>),
    \<open>WasmDownload\<close>, \<open>WasmResume\<close>, \<open>WasmInstall\<close> (\<open>wasm_sync/downloader.rs\<close>), \<open>WasmSync\<close>,
    \<open>WasmSpread\<close> (\<open>wasm_sync/service.rs\<close>): manifests, chunks, persistent downloads on a file system
    whose calls fail, the server, its manifest cache, the choice of providers. C37 to C39 in
    \<open>WasmClaims\<close>: downloads resume, the module store stays sound, a module reaches every node that
    knows a live provider. The locale \<open>module_source\<close> is what a download needs of the other nodes;
    its interpretation \<open>swarm\<close> is the server code of this program on one peer among others that may answer
    anything \<open>plausible\<close>.
  \<^item> \<open>LeaderWorks\<close> (\<open>leader_controller.rs\<close>, \<open>lib.rs\<close>): the tasks a leader starts and stops, each at
    most once, and the layout of groups; lemmas only.

  \<^bold>\<open>Parameters and hypotheses.\<close> Code outside the repository is a parameter: the JSON and
  protobuf serialisers (\<open>codec_ok\<close>, \<open>raft_api_ok\<close>, \<open>sm_api_ok\<close>, \<open>snap_api_ok\<close>, \<open>sync_ok\<close>,
  \<open>meta_codec_ok\<close>: what was encoded decodes to itself), the hash functions, openraft's proposal
  (\<open>raft_leads\<close>: one control node leads a group, commits what it is given and applies it, others
  answer with a hint), the file system (\<open>os\<close>: which of the calls fail, chosen freely per step), the
  clock (an argument of each step). \<open>WitnessCodec\<close> has a concrete serialiser with which the
  hypotheses are shown to hold. Node ids and task ids with a colon would make keys ambiguous;
  where this matters the hypothesis is \<open>no_colon\<close> (part of \<open>cmd_ok\<close> and \<open>keys_ok\<close>). That two
  different contents do not share a hash is assumed for the module at hand only
  (\<open>honest_disk\<close>, \<open>honest_part\<close>, and \<open>plausible\<close> for what faulty providers send),
  and for the modules a node compiles as injectivity of
  \<open>module_hash\<close> on them. The encoders of the wire satisfy \<open>wire_api_ok\<close> (a round trip, and a cut
  envelope lacks its last field), the payloads of tasks \<open>payload_codec_ok\<close>; \<open>plain_request\<close> says of
  what a run executed that no plain write, of a client or a \<open>kv_set\<close> task, hit the keys of the tasks,
  which the code does not enforce. New callers of the event loop have fresh numbers (\<open>fresh_id\<close>).
  Of openraft's membership calls the model uses \<open>raft_ok\<close> and \<open>view_ok\<close> (a call that succeeds leaves
  the membership it was asked for, one that fails may leave the joint configuration, metrics show a
  membership of the group), of its proposals and reads \<open>kv_host\<close> (other clients and leaders write at
  any time, an answered proposal was applied meanwhile, a secondary neither goes back nor ahead and may
  stay behind) or, for one client, \<open>raft_leader\<close> and \<open>reads_current\<close>, and of the log calls
  the order in \<open>log_history\<close> and
  \<open>purge_bounded\<close> (purges stay within what was applied). \<open>peers_serve\<close> says that the remote end of
  a call runs this program, \<open>flush_world\<close> which rounds of the write-behind cache there are.

  \<^bold>\<open>Loops and integers.\<close> No definition uses fuel. Loops over lists and tables are structural
  recursion, the redirect loop of the worker counts down the attempts of the code, the read retry
  of the key-value service is a \<open>function\<close> with a \<open>measure\<close>, and long-running
  loops (event loop, gossip, guard, settings, downloads) are relations or folds over the events of a
  run of any length. Handlers are finite trees, one branch per answer of a call. Counters, times and sizes are words with Rust's saturating or wrapping
  operations as the code has them; where a bound is needed it is a hypothesis of the theorem.

  \<^bold>\<open>Not modelled.\<close> The rest of the HTTP interface (\<open>http/cluster.rs\<close>,
  \<open>http/graph.rs\<close>), the command line, identity files and wiring (the rest of
  \<open>app/\<close>, \<open>main.rs\<close>, \<open>bin/\<close>, \<open>telemetry.rs\<close>), which
  call the operations above and perform input and output; the linker, the host functions and the thread
  pool of the WASM engine; zstd, JSON and protobuf, which are arguments; the \<open>select!\<close> loops
  and timers, of which the bodies are steps here; the drawing of graphs (\<open>graphviz.rs\<close>).
\<close>

end
